(* ===== verification/Prelude.thy ===== *)
theory Prelude
  imports Main "HOL-Library.AList" "HOL-Library.List_Lexorder" "HOL-Library.Char_ord"
begin

text \<open>
  What the component theories share: the error values of the TypeScript classes, results of
  operations that may throw, the insertion-ordered \<open>Map\<close> of the language as an association list
  with distinct keys, the stable \<open>Array.prototype.sort\<close> with a comparison, the regular-expression
  character classes the validators use, and safe integers.  Lemmas that carry the component proofs
  are declared simp or collected in \<open>js_simps\<close>.
\<close>

named_theorems js_simps

section \<open>Errors and results\<close>

text \<open>
  The classes of errors the code throws.  A thrown value is its class, its \<open>code\<close> and its
  \<open>retryable\<close> flag; the human-readable message and the \<open>details\<close> object are not modelled.
  \<open>ProtocolSafeError\<close> is an error that marks itself \<open>protocolSafe\<close> and has a code, such as an adapter's;
  \<open>PlainError\<close> is a bare \<open>Error\<close> (or any value without a class of its own), whose code is the name
  the code derives for it.
\<close>

datatype error_class =
    TicketStoreError | DurabilityError | SessionCatalogError | MultiplexerError
  | SessionConfigurationError | RpcAttachmentError | ProtocolSerializationError
  | ProtocolValidationError | WebSocketHandshakeError | AbortError | ProtocolSafeError | PlainError

datatype js_error = JsError (err_class: error_class) (err_code: string) (err_retryable: bool)

type_synonym 'a result = "js_error + 'a"

fun is_ok :: "'e + 'a \<Rightarrow> bool" where
  "is_ok (Inl _) = False"
| "is_ok (Inr _) = True"

text \<open>The outcome of a call to the operating system that the code awaits: it fulfils or it throws.\<close>

definition require :: "bool \<Rightarrow> js_error \<Rightarrow> unit result" where
  "require b e = (if b then Inr () else Inl e)"

fun and_then :: "unit result \<Rightarrow> 'a result \<Rightarrow> 'a result" where
  "and_then (Inl e) _ = Inl e"
| "and_then (Inr _) r = r"

lemma require_ok [simp]: "require b e = Inr u \<longleftrightarrow> b"
  by (simp add: require_def)

lemma require_err [simp]: "require b e = Inl e' \<longleftrightarrow> \<not> b \<and> e' = e"
  by (auto simp: require_def)

lemma and_then_ok [simp]: "and_then a r = Inr x \<longleftrightarrow> (\<exists>u. a = Inr u) \<and> r = Inr x"
  by (cases a) auto

lemma and_then_err: "and_then a r = Inl e \<longleftrightarrow> a = Inl e \<or> ((\<exists>u. a = Inr u) \<and> r = Inl e)"
  by (cases a) auto

text \<open>What a statement does with the value of the one before it, when that did not throw.\<close>

fun bind :: "'a result \<Rightarrow> ('a \<Rightarrow> 'b result) \<Rightarrow> 'b result" where
  "bind (Inl e) f = Inl e"
| "bind (Inr x) f = f x"

lemma bind_cong [fundef_cong]:
  "r = r' \<Longrightarrow> (\<And>x. r' = Inr x \<Longrightarrow> f x = g x) \<Longrightarrow> bind r f = bind r' g"
  by (cases r') auto

lemma bind_ok: "bind r f = Inr y \<longleftrightarrow> (\<exists>x. r = Inr x \<and> f x = Inr y)"
  by (cases r) auto

lemma bind_err: "bind r f = Inl e \<longleftrightarrow> r = Inl e \<or> (\<exists>x. r = Inr x \<and> f x = Inl e)"
  by (cases r) auto

text \<open>The first check of a list that throws, as a sequence of \<open>if (...) throw\<close> statements runs.\<close>

fun checks :: "(bool \<times> js_error) list \<Rightarrow> unit result" where
  "checks [] = Inr ()"
| "checks ((ok, e) # cs) = (if ok then checks cs else Inl e)"

lemma checks_ok [simp]: "checks cs = Inr u \<longleftrightarrow> list_all fst cs"
  by (induction cs rule: checks.induct) auto

lemma checks_err: "checks cs = Inl e \<Longrightarrow> e \<in> snd ` set cs"
  by (induction cs rule: checks.induct) (auto split: if_splits)

section \<open>Insertion-ordered maps\<close>

text \<open>
  A JavaScript \<open>Map\<close> iterates in insertion order: \<open>set\<close> of a key that is present keeps its place,
  \<open>set\<close> of a new key appends it, \<open>delete\<close> removes it.  \<open>AList.update\<close> and \<open>AList.delete\<close> are exactly
  these operations on association lists.
\<close>

type_synonym ('k, 'v) jsmap = "('k \<times> 'v) list"

abbreviation map_get :: "('k, 'v) jsmap \<Rightarrow> 'k \<Rightarrow> 'v option" where
  "map_get m k \<equiv> map_of m k"

abbreviation map_set :: "('k, 'v) jsmap \<Rightarrow> 'k \<Rightarrow> 'v \<Rightarrow> ('k, 'v) jsmap" where
  "map_set m k v \<equiv> AList.update k v m"

abbreviation map_del :: "('k, 'v) jsmap \<Rightarrow> 'k \<Rightarrow> ('k, 'v) jsmap" where
  "map_del m k \<equiv> AList.delete k m"

abbreviation map_has :: "('k, 'v) jsmap \<Rightarrow> 'k \<Rightarrow> bool" where
  "map_has m k \<equiv> map_of m k \<noteq> None"

abbreviation map_vals :: "('k, 'v) jsmap \<Rightarrow> 'v list" where
  "map_vals m \<equiv> List.map snd m"

abbreviation map_keys :: "('k, 'v) jsmap \<Rightarrow> 'k list" where
  "map_keys m \<equiv> List.map fst m"

definition js_map :: "('k, 'v) jsmap \<Rightarrow> bool" where
  "js_map m \<longleftrightarrow> distinct (map_keys m)"

lemma js_map_Nil [simp]: "js_map []"
  by (simp add: js_map_def)

lemma js_map_set [simp]: "js_map m \<Longrightarrow> js_map (map_set m k v)"
  by (simp add: js_map_def distinct_update)

lemma js_map_del [simp]: "js_map m \<Longrightarrow> js_map (map_del m k)"
  by (simp add: js_map_def distinct_delete)

lemma map_get_set [simp]: "map_get (map_set m k v) k' = (if k' = k then Some v else map_get m k')"
  by (simp add: update_conv')

lemma map_get_del [simp]: "map_get (map_del m k) k' = (if k' = k then None else map_get m k')"
  by (simp add: delete_conv')

lemma map_get_in: "map_get m k = Some v \<Longrightarrow> (k, v) \<in> set m"
  by (rule map_of_SomeD)

lemma map_get_iff: "js_map m \<Longrightarrow> map_get m k = Some v \<longleftrightarrow> (k, v) \<in> set m"
  by (simp add: js_map_def)

lemma map_del_length: "length (map_del m k) \<le> length m"
  by (rule length_delete_le)

lemma map_set_keys: "set (map_keys (map_set m k v)) = insert k (set (map_keys m))"
  by (induction m) auto

lemma map_set_length:
  "length (map_set m k v) = (if map_has m k then length m else Suc (length m))"
  by (induction m) auto

lemma map_set_absent: "\<not> map_has m k \<Longrightarrow> map_set m k v = m @ [(k, v)]"
  by (induction m) (auto split: if_splits)

section \<open>Sorting with a comparison\<close>

text \<open>
  \<open>Array.prototype.sort\<close> is stable (ES2019).  \<open>sort_by le\<close> is the stable sort for a comparison whose
  "not greater" test is \<open>le\<close>: the new element stays before the elements it is not greater than.
\<close>

fun insert_by :: "('a \<Rightarrow> 'a \<Rightarrow> bool) \<Rightarrow> 'a \<Rightarrow> 'a list \<Rightarrow> 'a list" where
  "insert_by le x [] = [x]"
| "insert_by le x (y # ys) = (if le x y then x # y # ys else y # insert_by le x ys)"

fun sort_by :: "('a \<Rightarrow> 'a \<Rightarrow> bool) \<Rightarrow> 'a list \<Rightarrow> 'a list" where
  "sort_by le [] = []"
| "sort_by le (x # xs) = insert_by le x (sort_by le xs)"

lemma set_insert_by [simp]: "set (insert_by le x ys) = insert x (set ys)"
  by (induction ys) auto

lemma set_sort_by [simp]: "set (sort_by le xs) = set xs"
  by (induction xs) auto

lemma length_insert_by [simp]: "length (insert_by le x ys) = Suc (length ys)"
  by (induction ys) auto

lemma length_sort_by [simp]: "length (sort_by le xs) = length xs"
  by (induction xs) auto

lemma distinct_insert_by [simp]: "distinct (insert_by le x ys) \<longleftrightarrow> x \<notin> set ys \<and> distinct ys"
  by (induction ys) auto

lemma distinct_sort_by [simp]: "distinct (sort_by le xs) \<longleftrightarrow> distinct xs"
  by (induction xs) auto

text \<open>A comparison that is total and transitive on the elements sorts them.\<close>

definition total_on_list :: "('a \<Rightarrow> 'a \<Rightarrow> bool) \<Rightarrow> 'a set \<Rightarrow> bool" where
  "total_on_list le A \<longleftrightarrow>
     (\<forall>x\<in>A. \<forall>y\<in>A. le x y \<or> le y x) \<and> (\<forall>x\<in>A. \<forall>y\<in>A. \<forall>z\<in>A. le x y \<longrightarrow> le y z \<longrightarrow> le x z)"

lemma total_on_list_mono: "total_on_list le A \<Longrightarrow> B \<subseteq> A \<Longrightarrow> total_on_list le B"
  unfolding total_on_list_def by (meson subsetD)

lemma sorted_insert_by:
  assumes "total_on_list le (insert x (set ys))" and "sorted_wrt le ys"
  shows "sorted_wrt le (insert_by le x ys)"
  using assms
proof (induction ys)
  case Nil
  then show ?case by simp
next
  case (Cons y ys)
  have "total_on_list le (insert x (set ys))"
    using Cons.prems(1) by (rule total_on_list_mono) auto
  then have IH: "sorted_wrt le (insert_by le x ys)"
    using Cons.IH Cons.prems(2) by simp
  show ?case
  proof (cases "le x y")
    case True
    have "le x z" if "z \<in> set ys" for z
    proof -
      have "le y z" using that Cons.prems(2) by simp
      with True Cons.prems(1) that show ?thesis
        unfolding total_on_list_def by (metis insertCI list.set_intros)
    qed
    with True Cons.prems(2) show ?thesis by simp
  next
    case False
    then have "le y x" using Cons.prems(1) unfolding total_on_list_def by auto
    with False IH Cons.prems(2) show ?thesis by auto
  qed
qed

lemma sorted_sort_by: "total_on_list le (set xs) \<Longrightarrow> sorted_wrt le (sort_by le xs)"
proof (induction xs)
  case (Cons x xs)
  have "total_on_list le (set xs)"
    using Cons.prems by (rule total_on_list_mono) auto
  with Cons show ?case by (simp add: sorted_insert_by)
qed simp

section \<open>Numbers and characters\<close>

definition max_safe_integer :: int where
  "max_safe_integer = 9007199254740991"

definition safe_int :: "int \<Rightarrow> bool" where
  "safe_int n \<longleftrightarrow> - max_safe_integer \<le> n \<and> n \<le> max_safe_integer"

definition is_digit :: "char \<Rightarrow> bool" where
  "is_digit c \<longleftrightarrow> CHR ''0'' \<le> c \<and> c \<le> CHR ''9''"

definition is_lower :: "char \<Rightarrow> bool" where
  "is_lower c \<longleftrightarrow> CHR ''a'' \<le> c \<and> c \<le> CHR ''z''"

definition is_upper :: "char \<Rightarrow> bool" where
  "is_upper c \<longleftrightarrow> CHR ''A'' \<le> c \<and> c \<le> CHR ''Z''"

definition is_alnum :: "char \<Rightarrow> bool" where
  "is_alnum c \<longleftrightarrow> is_digit c \<or> is_lower c \<or> is_upper c"

text \<open>The characters of the base64url alphabet, the class \<open>[A-Za-z0-9_-]\<close>.\<close>

definition is_b64url :: "char \<Rightarrow> bool" where
  "is_b64url c \<longleftrightarrow> is_alnum c \<or> c = CHR ''_'' \<or> c = CHR ''-''"

text \<open>The pattern \<open>^prefix[A-Za-z0-9_-]{43}$\<close> of ticket, blob and file identifiers.\<close>

definition prefixed_b64url43 :: "string \<Rightarrow> string \<Rightarrow> bool" where
  "prefixed_b64url43 p s \<longleftrightarrow>
     take (length p) s = p \<and> length s = length p + 43 \<and> list_all is_b64url (drop (length p) s)"

section \<open>Splitting and joining\<close>

fun split_on :: "char \<Rightarrow> string \<Rightarrow> string list" where
  "split_on c [] = [[]]"
| "split_on c (x # xs) =
     (if x = c then [] # split_on c xs
      else (case split_on c xs of [] \<Rightarrow> [[x]] | w # ws \<Rightarrow> (x # w) # ws))"

fun join_with :: "string \<Rightarrow> string list \<Rightarrow> string" where
  "join_with s [] = []"
| "join_with s [w] = w"
| "join_with s (w # ws) = w @ s @ join_with s ws"

lemma split_on_neq [simp]: "split_on c s \<noteq> []"
  by (induction s) (auto split: list.splits)

lemma split_on_nosep: "c \<notin> set s \<Longrightarrow> split_on c s = [s]"
  by (induction s) auto

lemma split_on_app: "c \<notin> set s \<Longrightarrow> split_on c (s @ c # t) = s # split_on c t"
  by (induction s) auto

lemma length_split_on: "length (split_on c s) = Suc (count_list s c)"
  by (induction s) (auto split: list.splits)

lemma join_split: "join_with [c] (split_on c s) = s"
proof (induction s)
  case (Cons x xs)
  then show ?case
    by (cases "split_on c xs" rule: list.exhaust; cases "tl (split_on c xs)")
       (auto split: list.splits)
qed simp

end
