(* ===== verification/Json.thy ===== *)
theory Json
  imports Prelude
begin

text \<open>
  JSON values and the parts of \<open>JSON\<close>, \<open>Buffer\<close> and \<open>Date\<close> the stores use: \<open>JSON.stringify\<close> (compact
  and with an indent of two, as \<open>atomicWritePrivateJson\<close> prints), UTF-8 byte lengths, the
  \<open>canonicalJson\<close> helper the stores fingerprint commands with, and ISO timestamps.

  Strings are lists of code units below 256 (the type \<open>char\<close>); \<open>utf8_length\<close> counts two bytes for a
  code unit of 128 or more.  \<open>JNum\<close> is a number with an integral value below \<open>10 ^ 21\<close> in magnitude,
  which JavaScript prints in decimal; \<open>JFloat\<close> is any other number, kept as the text it prints as.
  An absent property and a property whose value is \<open>undefined\<close> are both \<open>None\<close>.
\<close>

datatype json =
    JNull
  | JBool bool
  | JNum int
  | JFloat string
  | JStr string
  | JArr "json list"
  | JObj "(string \<times> json) list"

section \<open>Reading values of unknown type\<close>

text \<open>The helper \<open>isRecord\<close> every module carries.\<close>

fun is_record :: "json \<Rightarrow> bool" where
  "is_record (JObj _) = True"
| "is_record _ = False"

fun field :: "json \<Rightarrow> string \<Rightarrow> json option" where
  "field (JObj kvs) k = map_of kvs k"
| "field _ _ = None"

fun obj_keys :: "json \<Rightarrow> string list" where
  "obj_keys (JObj kvs) = List.map fst kvs"
| "obj_keys _ = []"

fun as_string :: "json option \<Rightarrow> string option" where
  "as_string (Some (JStr s)) = Some s"
| "as_string _ = None"

fun as_int :: "json option \<Rightarrow> int option" where
  "as_int (Some (JNum n)) = Some n"
| "as_int _ = None"

fun is_boolean :: "json option \<Rightarrow> bool" where
  "is_boolean (Some (JBool _)) = True"
| "is_boolean _ = False"

fun is_record_field :: "json option \<Rightarrow> bool" where
  "is_record_field (Some v) = is_record v"
| "is_record_field None = False"

text \<open>\<open>typeof v === "string" && v.length > 0\<close>.\<close>

definition nonempty_string :: "json option \<Rightarrow> bool" where
  "nonempty_string v = (case as_string v of Some s \<Rightarrow> s \<noteq> [] | None \<Rightarrow> False)"

text \<open>\<open>Number.isSafeInteger(v) && v >= lo\<close>.\<close>

definition safe_int_from :: "int \<Rightarrow> json option \<Rightarrow> bool" where
  "safe_int_from lo v = (case as_int v of Some n \<Rightarrow> safe_int n \<and> lo \<le> n | None \<Rightarrow> False)"

section \<open>Text\<close>

fun char_code :: "char \<Rightarrow> nat" where
  "char_code c = of_char c"

fun utf8_width :: "char \<Rightarrow> nat" where
  "utf8_width c = (if char_code c < 128 then 1 else 2)"

text \<open>\<open>Buffer.byteLength(s, "utf8")\<close>.\<close>

definition utf8_length :: "string \<Rightarrow> nat" where
  "utf8_length s = sum_list (List.map utf8_width s)"

lemma utf8_length_Nil [simp]: "utf8_length [] = 0"
  by (simp add: utf8_length_def)

lemma utf8_length_Cons [simp]: "utf8_length (c # s) = utf8_width c + utf8_length s"
  by (simp add: utf8_length_def)

lemma utf8_length_append [simp]: "utf8_length (s @ t) = utf8_length s + utf8_length t"
  by (simp add: utf8_length_def)

lemma utf8_length_ge: "length s \<le> utf8_length s"
  by (induction s) auto

definition digit_char :: "nat \<Rightarrow> char" where
  "digit_char d = char_of (48 + d)"

fun nat_str :: "nat \<Rightarrow> string" where
  "nat_str n = (if n < 10 then [digit_char n] else nat_str (n div 10) @ [digit_char (n mod 10)])"

declare nat_str.simps [simp del]

definition int_str :: "int \<Rightarrow> string" where
  "int_str n = (if n < 0 then CHR ''-'' # nat_str (nat (- n)) else nat_str (nat n))"

definition hex_char :: "nat \<Rightarrow> char" where
  "hex_char d = (if d < 10 then char_of (48 + d) else char_of (87 + d))"

definition escape_char :: "char \<Rightarrow> string" where
  "escape_char c =
     (let n = char_code c in
      if n = 34 then [CHR 0x5C, CHR 0x22]
      else if n = 92 then [CHR 0x5C, CHR 0x5C]
      else if n = 8 then [CHR 0x5C, CHR ''b'']
      else if n = 12 then [CHR 0x5C, CHR ''f'']
      else if n = 10 then [CHR 0x5C, CHR ''n'']
      else if n = 13 then [CHR 0x5C, CHR ''r'']
      else if n = 9 then [CHR 0x5C, CHR ''t'']
      else if n < 32 then [CHR 0x5C, CHR ''u'', CHR ''0'', CHR ''0'',
                            hex_char (n div 16), hex_char (n mod 16)]
      else [c])"

definition quote :: "string \<Rightarrow> string" where
  "quote s = CHR 0x22 # List.concat (List.map escape_char s) @ [CHR 0x22]"

fun stringify :: "json \<Rightarrow> string" where
  "stringify JNull = ''null''"
| "stringify (JBool b) = (if b then ''true'' else ''false'')"
| "stringify (JNum n) = int_str n"
| "stringify (JFloat t) = t"
| "stringify (JStr s) = quote s"
| "stringify (JArr vs) = ''['' @ join_with '','' (List.map stringify vs) @ '']''"
| "stringify (JObj kvs) =
     ''{'' @ join_with '','' (List.map (\<lambda>(k, v). quote k @ '':'' @ stringify v) kvs) @ ''}''"

definition newline :: char where
  "newline = CHR 0x0A"

definition spaces :: "nat \<Rightarrow> string" where
  "spaces n = replicate n (CHR '' '')"

text \<open>\<open>JSON.stringify(value, null, 2)\<close>, with the indentation reached so far.\<close>

fun pretty :: "nat \<Rightarrow> json \<Rightarrow> string" where
  "pretty i (JArr vs) =
     (if vs = [] then ''[]''
      else ''['' @ [newline]
           @ join_with ('','' @ [newline]) (List.map (\<lambda>v. spaces (i + 2) @ pretty (i + 2) v) vs)
           @ [newline] @ spaces i @ '']'')"
| "pretty i (JObj kvs) =
     (if kvs = [] then ''{}''
      else ''{'' @ [newline]
           @ join_with ('','' @ [newline])
               (List.map (\<lambda>(k, v). spaces (i + 2) @ quote k @ '': '' @ pretty (i + 2) v) kvs)
           @ [newline] @ spaces i @ ''}'')"
| "pretty i v = stringify v"

text \<open>The bytes of the file \<open>atomicWritePrivateJson\<close> publishes: the indented text and a newline.\<close>

definition published_size :: "json \<Rightarrow> nat" where
  "published_size v = utf8_length (pretty 0 v) + 1"

text \<open>The bytes the stores measure before they write: the compact text.\<close>

definition compact_size :: "json \<Rightarrow> nat" where
  "compact_size v = utf8_length (stringify v)"

lemma utf8_join_mono:
  assumes "list_all2 (\<lambda>a b. utf8_length a \<le> utf8_length b) xs ys"
    and "utf8_length s \<le> utf8_length t"
  shows "utf8_length (join_with s xs) \<le> utf8_length (join_with t ys)"
  using assms
proof (induction xs ys rule: list_all2_induct)
  case (Cons x xs y ys)
  then show ?case by (cases xs; cases ys) auto
qed simp

lemma pretty_ge: "utf8_length (stringify v) \<le> utf8_length (pretty i v)"
proof (induction i v rule: pretty.induct)
  case (1 i vs)
  have "list_all2 (\<lambda>a b. utf8_length a \<le> utf8_length b)
      (List.map stringify vs) (List.map (\<lambda>v. spaces (i + 2) @ pretty (i + 2) v) vs)"
    using 1 by (cases "vs = []") (fastforce simp: list.rel_map intro!: list.rel_refl_strong)+
  from utf8_join_mono [OF this, of "'',''" "'','' @ [newline]"] show ?case by auto
next
  case (2 i kvs)
  have "list_all2 (\<lambda>a b. utf8_length a \<le> utf8_length b)
      (List.map (\<lambda>(k, v). quote k @ '':'' @ stringify v) kvs)
      (List.map (\<lambda>(k, v). spaces (i + 2) @ quote k @ '': '' @ pretty (i + 2) v) kvs)"
    using 2 by (cases "kvs = []") (fastforce simp: list.rel_map intro!: list.rel_refl_strong)+
  from utf8_join_mono [OF this, of "'',''" "'','' @ [newline]"] show ?case by auto
qed simp_all

text \<open>A nonempty object takes more bytes on disk than the compact text that was measured.\<close>

lemma published_gt_compact:
  "compact_size v < published_size v"
  using pretty_ge [of v 0] by (simp add: compact_size_def published_size_def)

lemma published_object_excess:
  assumes "kvs \<noteq> []"
  shows "compact_size (JObj kvs) + 2 < published_size (JObj kvs)"
proof -
  have "list_all2 (\<lambda>a b. utf8_length a \<le> utf8_length b)
      (List.map (\<lambda>(k, v). quote k @ '':'' @ stringify v) kvs)
      (List.map (\<lambda>(k, v). spaces 2 @ quote k @ '': '' @ pretty 2 v) kvs)"
    by (auto simp: list.rel_map pretty_ge le_SucI trans_le_add2 intro!: list.rel_refl_strong)
  from utf8_join_mono [OF this, of "'',''" "'','' @ [newline]"] assms show ?thesis
    by (auto simp: compact_size_def published_size_def numeral_2_eq_2 newline_def)
qed

section \<open>Canonical text\<close>

text \<open>
  \<open>canonicalJson\<close>: objects print their keys in sorted order.  The ticket store sorts by code units
  (\<open>Array.prototype.sort\<close> without a comparison), the journal, the catalog and the multiplexer by
  \<open>localeCompare\<close>; the comparison is a parameter.
\<close>

fun canonical_json :: "(string \<Rightarrow> string \<Rightarrow> bool) \<Rightarrow> json \<Rightarrow> string" where
  "canonical_json le (JArr vs) = ''['' @ join_with '','' (List.map (canonical_json le) vs) @ '']''"
| "canonical_json le (JObj kvs) =
     ''{'' @ join_with '',''
        (List.map (\<lambda>(k, t). quote k @ '':'' @ t)
          (sort_by (\<lambda>a b. le (fst a) (fst b)) (List.map (\<lambda>(k, v). (k, canonical_json le v)) kvs)))
     @ ''}''"
| "canonical_json le v = stringify v"

definition code_unit_le :: "string \<Rightarrow> string \<Rightarrow> bool" where
  "code_unit_le a b \<longleftrightarrow> a \<le> b"

section \<open>Timestamps\<close>

text \<open>
  \<open>Date.prototype.toISOString\<close> for an instant of the years 0 to 9999, and \<open>Date.parse\<close> of the texts
  it produces (any other text is \<open>NaN\<close>, the value \<open>None\<close>).
\<close>

definition pad :: "nat \<Rightarrow> nat \<Rightarrow> string" where
  "pad w n = (let t = nat_str n in replicate (w - length t) (CHR ''0'') @ t)"

definition civil_from_days :: "int \<Rightarrow> int \<times> int \<times> int" where
  "civil_from_days days =
     (let z = days + 719468; era = z div 146097; doe = z mod 146097;
          yoe = (doe - doe div 1460 + doe div 36524 - doe div 146096) div 365;
          doy = doe - (365 * yoe + yoe div 4 - yoe div 100);
          mp = (5 * doy + 2) div 153;
          d = doy - (153 * mp + 2) div 5 + 1;
          m = (if mp < 10 then mp + 3 else mp - 9)
      in (yoe + era * 400 + (if m \<le> 2 then 1 else 0), m, d))"

definition days_from_civil :: "int \<Rightarrow> int \<Rightarrow> int \<Rightarrow> int" where
  "days_from_civil y0 m d =
     (let y = (if m \<le> 2 then y0 - 1 else y0); era = y div 400; yoe = y mod 400;
          doy = (153 * (if m > 2 then m - 3 else m + 9) + 2) div 5 + d - 1;
          doe = yoe * 365 + yoe div 4 - yoe div 100 + doy
      in era * 146097 + doe - 719468)"

definition to_iso :: "int \<Rightarrow> string" where
  "to_iso ms =
     (let days = ms div 86400000; r = ms mod 86400000; (y, m, d) = civil_from_days days in
      pad 4 (nat y) @ ''-'' @ pad 2 (nat m) @ ''-'' @ pad 2 (nat d) @ ''T''
      @ pad 2 (nat (r div 3600000)) @ '':'' @ pad 2 (nat (r div 60000 mod 60)) @ '':''
      @ pad 2 (nat (r div 1000 mod 60)) @ ''.'' @ pad 3 (nat (r mod 1000)) @ ''Z'')"

fun digits_value :: "nat \<Rightarrow> string \<Rightarrow> nat option" where
  "digits_value acc [] = Some acc"
| "digits_value acc (c # cs) =
     (if is_digit c then digits_value (10 * acc + (char_code c - 48)) cs else None)"

definition slice_value :: "string \<Rightarrow> nat \<Rightarrow> nat \<Rightarrow> nat option" where
  "slice_value s i n = digits_value 0 (take n (drop i s))"

definition date_parse :: "string \<Rightarrow> int option" where
  "date_parse s =
     (if length s = 24 \<and> s ! 4 = CHR ''-'' \<and> s ! 7 = CHR ''-'' \<and> s ! 10 = CHR ''T''
         \<and> s ! 13 = CHR '':'' \<and> s ! 16 = CHR '':'' \<and> s ! 19 = CHR ''.'' \<and> s ! 23 = CHR ''Z''
      then (case (slice_value s 0 4, slice_value s 5 2, slice_value s 8 2,
                  slice_value s 11 2, slice_value s 14 2, slice_value s 17 2, slice_value s 20 3) of
              (Some y, Some mo, Some d, Some h, Some mi, Some sec, Some f) \<Rightarrow>
                if mo < 1 \<or> 12 < mo \<or> d < 1 \<or> 31 < d \<or> 59 < mi \<or> 59 < sec
                   \<or> 24 < h \<or> (h = 24 \<and> (mi \<noteq> 0 \<or> sec \<noteq> 0 \<or> f \<noteq> 0)) then None
                else Some (days_from_civil (int y) (int mo) (int d) * 86400000
                      + int h * 3600000 + int mi * 60000 + int sec * 1000 + int f)
            | _ \<Rightarrow> None)
      else None)"

end
