(* ===== verification/StateFiles.thy ===== *)
theory StateFiles
  imports Json "HOL-Library.Word"
begin

text \<open>
  The owner-private state files under every store: \<open>src/path-ownership.ts\<close> and the file helpers at
  the end of \<open>src/durability.ts\<close>.  What \<open>lstat\<close> reports of a path is a record, a directory of state
  files is an insertion-ordered map from names to files, and every call to the file system that may
  throw takes its outcome as an argument, so that each theorem holds for all outcomes.
\<close>

unbundle bit_operations_syntax

section \<open>The platform\<close>

text \<open>
  What the code takes from its host and this development does not define: the SHA-256 digest of
  \<open>node:crypto\<close> in its two encodings, the collation of \<open>String.prototype.localeCompare\<close> (the test
  \<open>localeCompare(a, b) <= 0\<close>, which the language leaves to the host's locale) and the user the process
  runs as (\<open>process.getuid\<close>, absent on some platforms).
\<close>

record platform =
  sha256_b64url :: "string \<Rightarrow> string"
  sha256_hex :: "string \<Rightarrow> string"
  collate :: "string \<Rightarrow> string \<Rightarrow> bool"
  current_uid :: "nat option"

section \<open>Path ownership\<close>

datatype path_ownership_policy = OwnerOnly | OwnerOrRoot

datatype path_exposure_policy = Private | NoForeignWriters

type_synonym uid = nat

definition root_uid :: uid where
  "root_uid = 0"

definition is_permitted_path_owner :: "uid \<Rightarrow> path_ownership_policy \<Rightarrow> uid option \<Rightarrow> bool" where
  "is_permitted_path_owner owner policy current =
     (case current of
        None \<Rightarrow> True
      | Some u \<Rightarrow> owner = u \<or> (policy = OwnerOrRoot \<and> owner = root_uid))"

definition has_foreign_path_owner :: "uid \<Rightarrow> path_ownership_policy \<Rightarrow> uid option \<Rightarrow> bool" where
  "has_foreign_path_owner owner policy current \<longleftrightarrow> \<not> is_permitted_path_owner owner policy current"

text \<open>Mode bits are the 32-bit integers JavaScript's \<open>&\<close> works on; 63 is \<open>0o077\<close>, 18 is \<open>0o022\<close>.\<close>

type_synonym mode = "32 word"

fun exposure_forbidden_bits :: "path_exposure_policy \<Rightarrow> mode" where
  "exposure_forbidden_bits Private = 63"
| "exposure_forbidden_bits NoForeignWriters = 18"

definition has_forbidden_exposure :: "mode \<Rightarrow> path_exposure_policy \<Rightarrow> bool" where
  "has_forbidden_exposure m policy \<longleftrightarrow> m AND exposure_forbidden_bits policy \<noteq> 0"

definition is_trusted_path ::
  "uid \<Rightarrow> mode \<Rightarrow> path_ownership_policy \<Rightarrow> path_exposure_policy option \<Rightarrow> uid option \<Rightarrow> bool" where
  "is_trusted_path owner m owner_policy exposure current =
     (is_permitted_path_owner owner owner_policy current
      \<and> (case exposure of None \<Rightarrow> True | Some p \<Rightarrow> \<not> has_forbidden_exposure m p))"

section \<open>Directories and files\<close>

datatype node_kind = RegularFile | RealDirectory | SymbolicLink | OtherNode

record path_info =
  node_kind :: node_kind
  node_uid :: uid
  node_mode :: mode

definition durability_error :: "string \<Rightarrow> js_error" where
  "durability_error code = JsError DurabilityError code False"

definition insecure_state_path :: js_error where
  "insecure_state_path = durability_error ''insecure_state_path''"

definition corrupt_state :: js_error where
  "corrupt_state = durability_error ''corrupt_state''"

text \<open>
  \<open>ensurePrivateDirectory\<close> after its \<open>mkdir\<close> succeeded: \<open>info\<close> is the first \<open>lstat\<close> and \<open>info2\<close> the
  second one, which the code takes only after it has narrowed the mode.  The result is the state
  of the path that was accepted.
\<close>

definition ensure_private_directory ::
  "uid option \<Rightarrow> bool \<Rightarrow> path_info \<Rightarrow> path_info \<Rightarrow> path_info result" where
  "ensure_private_directory current repair_owned_mode info info2 =
     (if node_kind info \<noteq> RealDirectory then Inl insecure_state_path
      else if has_foreign_path_owner (node_uid info) OwnerOnly current then Inl insecure_state_path
      else if has_forbidden_exposure (node_mode info) Private \<and> repair_owned_mode then
        (if node_kind info2 \<noteq> RealDirectory then Inl insecure_state_path
         else if has_foreign_path_owner (node_uid info2) OwnerOnly current
         then Inl insecure_state_path
         else if has_forbidden_exposure (node_mode info2) Private then Inl insecure_state_path
         else Inr info2)
      else if has_forbidden_exposure (node_mode info) Private then Inl insecure_state_path
      else Inr info)"

definition validate_private_file_if_exists :: "uid option \<Rightarrow> path_info option \<Rightarrow> unit result" where
  "validate_private_file_if_exists current info =
     (case info of
        None \<Rightarrow> Inr ()
      | Some i \<Rightarrow>
          if node_kind i \<noteq> RegularFile then Inl insecure_state_path
          else if has_foreign_path_owner (node_uid i) OwnerOnly current then Inl insecure_state_path
          else if has_forbidden_exposure (node_mode i) Private then Inl insecure_state_path
          else Inr ())"

text \<open>A file's text, as far as \<open>JSON.parse\<close> is concerned: the value it parses to or no JSON.\<close>

datatype file_text = JsonText json | BadText

record state_file =
  file_info :: path_info
  file_size :: nat
  file_text :: file_text

type_synonym directory = "(string, state_file) jsmap"

definition state_file_size :: "state_file option \<Rightarrow> nat option" where
  "state_file_size f = map_option file_size f"

definition read_private_json_if_exists :: "uid option \<Rightarrow> state_file option \<Rightarrow> json option result" where
  "read_private_json_if_exists current f =
     (case f of
        None \<Rightarrow> Inr None
      | Some file \<Rightarrow>
          (case validate_private_file_if_exists current (Some (file_info file)) of
             Inl e \<Rightarrow> Inl e
           | Inr _ \<Rightarrow>
               (case file_text file of
                  JsonText v \<Rightarrow> Inr (Some v)
                | BadText \<Rightarrow> Inl corrupt_state)))"

text \<open>
  The file \<open>atomicWrite\<close> publishes: owned by the current user (user 0 where there are no uids), mode
  \<open>0o600\<close>, holding the indented text of the value.
\<close>

definition published_file :: "uid option \<Rightarrow> json \<Rightarrow> state_file" where
  "published_file current v =
     \<lparr>file_info = \<lparr>node_kind = RegularFile,
                   node_uid = (case current of None \<Rightarrow> 0 | Some u \<Rightarrow> u), node_mode = 384\<rparr>,
      file_size = published_size v, file_text = JsonText v\<rparr>"

text \<open>
  The three ends of \<open>atomicWrite\<close>: the temporary file was renamed and every later call succeeded;
  it threw before the rename, so the directory is unchanged; it threw after the rename (in \<open>chmod\<close>
  or the directory's \<open>sync\<close>), so the new file is there although the caller sees an exception.
\<close>

datatype write_outcome = Published | NotPublished js_error | PublishedThrew js_error

fun atomic_write_private_json ::
  "uid option \<Rightarrow> write_outcome \<Rightarrow> string \<Rightarrow> json \<Rightarrow> directory \<Rightarrow> unit result \<times> directory" where
  "atomic_write_private_json current Published name v dir =
     (Inr (), map_set dir name (published_file current v))"
| "atomic_write_private_json current (NotPublished e) name v dir = (Inl e, dir)"
| "atomic_write_private_json current (PublishedThrew e) name v dir =
     (Inl e, map_set dir name (published_file current v))"

section \<open>The facts the stores use\<close>

lemma validate_private_file_ok:
  "validate_private_file_if_exists current (Some i) = Inr u \<longleftrightarrow>
     node_kind i = RegularFile \<and> \<not> has_foreign_path_owner (node_uid i) OwnerOnly current
     \<and> \<not> has_forbidden_exposure (node_mode i) Private"
  by (auto simp: validate_private_file_if_exists_def)

lemma published_file_valid:
  "validate_private_file_if_exists current (Some (file_info (published_file current v))) = Inr ()"
  by (auto simp: validate_private_file_if_exists_def published_file_def has_foreign_path_owner_def
      is_permitted_path_owner_def has_forbidden_exposure_def split: option.splits)

lemma read_published [simp]:
  "read_private_json_if_exists current (Some (published_file current v)) = Inr (Some v)"
  by (simp add: read_private_json_if_exists_def published_file_valid)
     (simp add: published_file_def)

lemma size_published [simp]: "file_size (published_file current v) = published_size v"
  by (simp add: published_file_def)

lemma atomic_write_dir:
  "snd (atomic_write_private_json current w name v dir) = dir
   \<or> snd (atomic_write_private_json current w name v dir)
       = map_set dir name (published_file current v)"
  by (cases w) auto

lemma atomic_write_ok:
  "fst (atomic_write_private_json current w name v dir) = Inr u \<Longrightarrow>
     w = Published \<and> snd (atomic_write_private_json current w name v dir)
       = map_set dir name (published_file current v)"
  by (cases w) auto

end
