(* ===== verification/Tickets.thy ===== *)
theory Tickets
  imports StateFiles
begin

text \<open>
  \<open>FileMutationTicketStore\<close> of \<open>src/tickets.ts\<close>: the durable tickets of asynchronous mutations.  A
  ticket is created once per idempotency scope, moves along the state machine of
  \<open>allowedTransition\<close>, and is written to its own file before it is changed in memory.  This theory
  holds the validators of untrusted records and commands, the store's state and every operation
  of it; \<open>TicketLaws\<close> proves what they promise.
\<close>

section \<open>Constants and states\<close>

definition max_ticket_missing_tool_ids :: nat where
  "max_ticket_missing_tool_ids = 128"

definition max_ticket_tool_id_bytes :: nat where
  "max_ticket_tool_id_bytes = 128"

datatype ticket_state = Queued | Running | Succeeded | Failed | Indeterminate

fun ticket_state_str :: "ticket_state \<Rightarrow> string" where
  "ticket_state_str Queued = ''queued''"
| "ticket_state_str Running = ''running''"
| "ticket_state_str Succeeded = ''succeeded''"
| "ticket_state_str Failed = ''failed''"
| "ticket_state_str Indeterminate = ''indeterminate''"

definition ticket_state_of :: "string \<Rightarrow> ticket_state option" where
  "ticket_state_of s =
     (if s = ''queued'' then Some Queued else if s = ''running'' then Some Running
      else if s = ''succeeded'' then Some Succeeded else if s = ''failed'' then Some Failed
      else if s = ''indeterminate'' then Some Indeterminate else None)"

definition ticket_error :: "string \<Rightarrow> js_error" where
  "ticket_error code = JsError TicketStoreError code False"

definition corrupt_ticket :: js_error where
  "corrupt_ticket = ticket_error ''corrupt_ticket''"

fun allowed_transition :: "ticket_state \<Rightarrow> ticket_state \<Rightarrow> bool \<Rightarrow> bool" where
  "allowed_transition Queued to reconciliation \<longleftrightarrow> to = Running \<or> to = Failed"
| "allowed_transition Running to reconciliation \<longleftrightarrow>
     to = Succeeded \<or> to = Failed \<or> to = Indeterminate"
| "allowed_transition Indeterminate to reconciliation \<longleftrightarrow>
     reconciliation \<and> (to = Succeeded \<or> to = Failed)"
| "allowed_transition _ to reconciliation \<longleftrightarrow> False"

fun is_terminal :: "ticket_state \<Rightarrow> bool" where
  "is_terminal s \<longleftrightarrow> s = Succeeded \<or> s = Failed \<or> s = Indeterminate"

section \<open>Untrusted values\<close>

definition valid_generation :: "json option \<Rightarrow> bool" where
  "valid_generation v = safe_int_from 0 v"

definition is_blob_id :: "json option \<Rightarrow> bool" where
  "is_blob_id v = (case as_string v of Some s \<Rightarrow> prefixed_b64url43 ''blob-'' s | None \<Rightarrow> False)"

definition is_file_id :: "json option \<Rightarrow> bool" where
  "is_file_id v = (case as_string v of Some s \<Rightarrow> prefixed_b64url43 ''file-'' s | None \<Rightarrow> False)"

text \<open>The pattern \<open>^[A-Za-z0-9][A-Za-z0-9._:-]*$\<close>.\<close>

fun tool_id_pattern :: "string \<Rightarrow> bool" where
  "tool_id_pattern [] = False"
| "tool_id_pattern (c # cs) \<longleftrightarrow>
     is_alnum c \<and> list_all (\<lambda>d. is_alnum d \<or> d \<in> set ''._:-'') cs"

definition is_safe_ticket_tool_id :: "json \<Rightarrow> bool" where
  "is_safe_ticket_tool_id v =
     (case v of JStr s \<Rightarrow> utf8_length s \<le> max_ticket_tool_id_bytes \<and> tool_id_pattern s
              | _ \<Rightarrow> False)"

fun json_strings :: "json list \<Rightarrow> string list" where
  "json_strings [] = []"
| "json_strings (JStr s # vs) = s # json_strings vs"
| "json_strings (_ # vs) = json_strings vs"

definition sorted_by_collation :: "platform \<Rightarrow> string list \<Rightarrow> bool" where
  "sorted_by_collation P xs \<longleftrightarrow> sort_by (collate P) xs = xs"

definition is_environment_summary :: "platform \<Rightarrow> json option \<Rightarrow> bool" where
  "is_environment_summary P v =
     (case v of
        Some (JObj kvs) \<Rightarrow>
          (case map_of kvs ''keys'' of
             Some (JArr ks) \<Rightarrow>
               list_all (\<lambda>k. case k of JStr s \<Rightarrow> s \<noteq> [] \<and> length s \<le> 256 | _ \<Rightarrow> False) ks
               \<and> distinct (json_strings ks)
               \<and> sorted_by_collation P (json_strings ks)
               \<and> (as_string (map_of kvs ''persistence'') = Some ''memory-only''
                  \<or> as_string (map_of kvs ''persistence'') = Some ''reference'')
               \<and> is_boolean (map_of kvs ''provisioned'')
               \<and> (map_of kvs ''digest'' = None \<or> as_string (map_of kvs ''digest'') \<noteq> None)
           | _ \<Rightarrow> False)
      | _ \<Rightarrow> False)"

definition mutation_operations :: "string list" where
  "mutation_operations =
     [''create'', ''update'', ''delete'', ''reserve_blob'', ''materialize_blob'', ''delete_blob'',
      ''delete_file'']"

definition lower_hex64 :: "string \<Rightarrow> bool" where
  "lower_hex64 s \<longleftrightarrow>
     length s = 64 \<and> list_all (\<lambda>c. is_digit c \<or> (CHR ''a'' \<le> c \<and> c \<le> CHR ''f'')) s"

definition is_reserve_blob :: "json \<Rightarrow> bool" where
  "is_reserve_blob v \<longleftrightarrow>
     valid_generation (field v ''expectedGeneration'')
     \<and> is_blob_id (field v ''blobId'')
     \<and> (case field v ''metadata'' of
          Some m \<Rightarrow>
            is_record m
            \<and> (case as_string (field m ''name'') of
                 Some n \<Rightarrow> n \<noteq> [] \<and> utf8_length n \<le> 512 | None \<Rightarrow> False)
            \<and> (case as_string (field m ''mediaType'') of
                 Some t \<Rightarrow> t \<noteq> [] \<and> length t \<le> 255 | None \<Rightarrow> False)
        | None \<Rightarrow> False)
     \<and> safe_int_from 0 (field v ''sizeBytes'')
     \<and> (case as_string (field v ''sha256'') of Some s \<Rightarrow> lower_hex64 s | None \<Rightarrow> False)"

definition is_mutation_command :: "platform \<Rightarrow> json \<Rightarrow> bool" where
  "is_mutation_command P v \<longleftrightarrow>
     is_record v
     \<and> (case as_string (field v ''operation'') of
          None \<Rightarrow> False
        | Some op \<Rightarrow>
            op \<in> set mutation_operations
            \<and> nonempty_string (field v ''requestId'')
            \<and> nonempty_string (field v ''sessionId'')
            \<and> (if op = ''delete'' then
                 valid_generation (field v ''expectedGeneration'')
                 \<and> safe_int_from 1 (field v ''expectedRevision'')
                 \<and> is_boolean (field v ''retainArtifacts'')
               else if op = ''reserve_blob'' then is_reserve_blob v
               else if op = ''materialize_blob'' then
                 valid_generation (field v ''expectedGeneration'')
                 \<and> is_blob_id (field v ''blobId'') \<and> is_file_id (field v ''fileId'')
               else if op = ''delete_blob'' then
                 valid_generation (field v ''expectedGeneration'') \<and> is_blob_id (field v ''blobId'')
               else if op = ''delete_file'' then
                 valid_generation (field v ''expectedGeneration'') \<and> is_file_id (field v ''fileId'')
               else
                 valid_generation (field v ''generation'')
                 \<and> (case field v ''spec'' of
                      Some s \<Rightarrow> is_record s \<and> field s ''env'' = None | None \<Rightarrow> False)
                 \<and> is_environment_summary P (field v ''environmentSummary'')
                 \<and> (op = ''update'' \<longrightarrow>
                      valid_generation (field v ''expectedGeneration'')
                      \<and> safe_int_from 1 (field v ''expectedRevision''))))"

text \<open>
  \<open>"env" in value.spec\<close> is false exactly when the object has no such property, because a parsed
  value has no property whose value is \<open>undefined\<close>.
\<close>

definition is_api_error :: "platform \<Rightarrow> json \<Rightarrow> bool" where
  "is_api_error P v \<longleftrightarrow>
     is_record v
     \<and> list_all (\<lambda>k. k \<in> set [''code'', ''message'', ''retryable'', ''details'']) (obj_keys v)
     \<and> nonempty_string (field v ''code'')
     \<and> as_string (field v ''message'') \<noteq> None
     \<and> is_boolean (field v ''retryable'')
     \<and> (case field v ''details'' of
          None \<Rightarrow> True
        | Some d \<Rightarrow>
            as_string (field v ''code'') = Some ''required_tools_unavailable''
            \<and> is_record d
            \<and> list_all (\<lambda>k. k = ''missingToolIds'') (obj_keys d)
            \<and> (case field d ''missingToolIds'' of
                 Some (JArr ids) \<Rightarrow>
                   ids \<noteq> []
                   \<and> length ids \<le> max_ticket_missing_tool_ids
                   \<and> list_all is_safe_ticket_tool_id ids
                   \<and> distinct (json_strings ids)
                   \<and> sorted_by_collation P (json_strings ids)
               | _ \<Rightarrow> False))"

definition operation_method :: "string \<Rightarrow> string option" where
  "operation_method op =
     (if op = ''create'' \<or> op = ''reserve_blob'' \<or> op = ''materialize_blob'' then Some ''POST''
      else if op = ''update'' then Some ''PUT''
      else if op = ''delete'' \<or> op = ''delete_blob'' \<or> op = ''delete_file'' then Some ''DELETE''
      else None)"

definition command_generation :: "json \<Rightarrow> int option" where
  "command_generation c =
     (if as_string (field c ''operation'') = Some ''create''
         \<or> as_string (field c ''operation'') = Some ''update''
      then as_int (field c ''generation'')
      else as_int (field c ''expectedGeneration''))"

section \<open>Identifiers and fingerprints\<close>

definition mutation_ticket_id :: "platform \<Rightarrow> string \<Rightarrow> string" where
  "mutation_ticket_id P scope = ''ticket-'' @ take 43 (sha256_b64url P scope)"

definition ticket_scope :: "string \<Rightarrow> string \<Rightarrow> string \<Rightarrow> string" where
  "ticket_scope method target key = method @ [newline] @ target @ [newline] @ key"

text \<open>The command without its request identifier, which two submissions of one mutation differ in.\<close>

fun without_key :: "string \<Rightarrow> json \<Rightarrow> json" where
  "without_key k (JObj kvs) = JObj (List.filter (\<lambda>kv. fst kv \<noteq> k) kvs)"
| "without_key k v = v"

definition command_fingerprint :: "platform \<Rightarrow> json \<Rightarrow> string" where
  "command_fingerprint P c = sha256_hex P (canonical_json code_unit_le (without_key ''requestId'' c))"

section \<open>Retained errors\<close>

record api_error =
  ae_code :: string
  ae_message :: string
  ae_retryable :: bool
  ae_details :: "json option"

definition api_error_json :: "api_error \<Rightarrow> json" where
  "api_error_json e =
     JObj ([(''code'', JStr (ae_code e)), (''message'', JStr (ae_message e)),
            (''retryable'', JBool (ae_retryable e))]
           @ (case ae_details e of None \<Rightarrow> [] | Some d \<Rightarrow> [(''details'', d)]))"

definition api_error_of_json :: "json \<Rightarrow> api_error" where
  "api_error_of_json v =
     \<lparr>ae_code = (case as_string (field v ''code'') of Some s \<Rightarrow> s | None \<Rightarrow> []),
      ae_message = (case as_string (field v ''message'') of Some s \<Rightarrow> s | None \<Rightarrow> []),
      ae_retryable = (field v ''retryable'' = Some (JBool True)),
      ae_details = field v ''details''\<rparr>"

text \<open>\<open>sanitizeTicketError\<close>: only the identifiers of missing tools survive, and only for that code.\<close>

definition sanitize_ticket_error :: "platform \<Rightarrow> api_error \<Rightarrow> api_error" where
  "sanitize_ticket_error P e =
     (let base = e\<lparr>ae_details := None\<rparr> in
      if ae_code e \<noteq> ''required_tools_unavailable'' then base
      else case ae_details e of
        Some (JObj kvs) \<Rightarrow>
          (case map_of kvs ''missingToolIds'' of
             Some (JArr candidates) \<Rightarrow>
               (let ids = take max_ticket_missing_tool_ids
                      (sort_by (collate P)
                        (rev (remdups (rev
                           (json_strings (List.filter is_safe_ticket_tool_id candidates))))))
                in if ids = [] then base
                   else base\<lparr>ae_details :=
                          Some (JObj [(''missingToolIds'', JArr (List.map JStr ids))])\<rparr>)
           | _ \<Rightarrow> base)
      | _ \<Rightarrow> base)"

text \<open>
  \<open>safeTicketError\<close> of a caught value, given as what the code reads of it: \<open>props\<close> is the value's
  own properties when it is an object (an \<open>Error\<close> included), \<open>message\<close> its message when it is an
  \<open>Error\<close>.
\<close>

definition safe_ticket_error :: "platform \<Rightarrow> json option \<Rightarrow> string option \<Rightarrow> api_error" where
  "safe_ticket_error P props message =
     (let text = (case message of Some m \<Rightarrow> m | None \<Rightarrow> ''mutation failed'');
          fallback = \<lparr>ae_code = ''mutation_failed'', ae_message = text, ae_retryable = False,
                      ae_details = None\<rparr>
      in case props of
           Some (JObj kvs) \<Rightarrow>
             (case as_string (map_of kvs ''code'') of
                Some code \<Rightarrow>
                  if code \<noteq> [] then
                    sanitize_ticket_error P
                      \<lparr>ae_code = code, ae_message = text,
                       ae_retryable = (map_of kvs ''retryable'' = Some (JBool True)),
                       ae_details = (case map_of kvs ''details'' of
                                       Some (JObj ds) \<Rightarrow> Some (JObj ds) | _ \<Rightarrow> None)\<rparr>
                  else fallback
              | None \<Rightarrow> fallback)
         | _ \<Rightarrow> fallback)"

section \<open>Records\<close>

record ticket =
  t_id :: string
  t_scope :: string
  t_idempotency_key :: string
  t_fingerprint :: string
  t_operation :: string
  t_state :: ticket_state
  t_request_id :: string
  t_session_id :: string
  t_generation :: "int option"
  t_command :: json
  t_submitted_at :: string
  t_updated_at :: string
  t_result :: "json option"
  t_error :: "api_error option"

definition ticket_json :: "ticket \<Rightarrow> json" where
  "ticket_json t =
     JObj ([(''formatVersion'', JNum 1), (''ticketId'', JStr (t_id t)), (''scope'', JStr (t_scope t)),
            (''idempotencyKey'', JStr (t_idempotency_key t)),
            (''fingerprint'', JStr (t_fingerprint t)), (''operation'', JStr (t_operation t)),
            (''state'', JStr (ticket_state_str (t_state t))),
            (''requestId'', JStr (t_request_id t)), (''sessionId'', JStr (t_session_id t))]
           @ (case t_generation t of None \<Rightarrow> [] | Some g \<Rightarrow> [(''generation'', JNum g)])
           @ [(''command'', t_command t), (''submittedAt'', JStr (t_submitted_at t)),
              (''updatedAt'', JStr (t_updated_at t))]
           @ (case t_result t of None \<Rightarrow> [] | Some r \<Rightarrow> [(''result'', r)])
           @ (case t_error t of None \<Rightarrow> [] | Some e \<Rightarrow> [(''error'', api_error_json e)]))"

definition str_field :: "json \<Rightarrow> string \<Rightarrow> string" where
  "str_field v k = (case as_string (field v k) of Some s \<Rightarrow> s | None \<Rightarrow> [])"

text \<open>A validated value used at the type of a record: the declared properties are read off it.\<close>

definition ticket_of_json :: "json \<Rightarrow> ticket" where
  "ticket_of_json v =
     \<lparr>t_id = str_field v ''ticketId'', t_scope = str_field v ''scope'',
      t_idempotency_key = str_field v ''idempotencyKey'',
      t_fingerprint = str_field v ''fingerprint'', t_operation = str_field v ''operation'',
      t_state = (case ticket_state_of (str_field v ''state'') of Some s \<Rightarrow> s | None \<Rightarrow> Failed),
      t_request_id = str_field v ''requestId'', t_session_id = str_field v ''sessionId'',
      t_generation = as_int (field v ''generation''),
      t_command = (case field v ''command'' of Some c \<Rightarrow> c | None \<Rightarrow> JNull),
      t_submitted_at = str_field v ''submittedAt'', t_updated_at = str_field v ''updatedAt'',
      t_result = field v ''result'', t_error = map_option api_error_of_json (field v ''error'')\<rparr>"

text \<open>\<open>validateRecord\<close>: every violation throws the same \<open>corrupt_ticket\<close> error.\<close>

definition valid_ticket_record :: "platform \<Rightarrow> json \<Rightarrow> bool" where
  "valid_ticket_record P v \<longleftrightarrow>
     is_record v
     \<and> field v ''formatVersion'' = Some (JNum 1)
     \<and> list_all (\<lambda>k. nonempty_string (field v k))
         [''ticketId'', ''scope'', ''idempotencyKey'', ''fingerprint'', ''requestId'', ''sessionId'',
          ''submittedAt'', ''updatedAt'']
     \<and> prefixed_b64url43 ''ticket-'' (str_field v ''ticketId'')
     \<and> mutation_ticket_id P (str_field v ''scope'') = str_field v ''ticketId''
     \<and> (let parts = split_on newline (str_field v ''scope'') in
          length parts = 3
          \<and> parts ! 2 = str_field v ''idempotencyKey''
          \<and> Some (parts ! 0) =
              (case as_string (field v ''operation'') of
                 Some op \<Rightarrow> operation_method op | None \<Rightarrow> None))
     \<and> ticket_state_of (str_field v ''state'') \<noteq> None
     \<and> (case field v ''command'' of
          None \<Rightarrow> False
        | Some c \<Rightarrow>
            is_mutation_command P c
            \<and> command_fingerprint P c = str_field v ''fingerprint''
            \<and> as_string (field c ''requestId'') = Some (str_field v ''requestId'')
            \<and> length (str_field v ''idempotencyKey'') \<le> 512
            \<and> as_string (field c ''operation'') = as_string (field v ''operation'')
            \<and> as_string (field c ''sessionId'') = Some (str_field v ''sessionId'')
            \<and> as_int (field v ''generation'') = command_generation c
            \<and> safe_int_from 0 (field v ''generation''))
     \<and> (case field v ''error'' of None \<Rightarrow> True | Some e \<Rightarrow> is_api_error P e)
     \<and> (str_field v ''state'' = ''failed'' \<longrightarrow> field v ''error'' \<noteq> None)"

definition validate_ticket_record :: "platform \<Rightarrow> json \<Rightarrow> unit result" where
  "validate_ticket_record P v = require (valid_ticket_record P v) corrupt_ticket"

text \<open>\<open>migrateLegacyRecord\<close>: records from before environment summaries existed.\<close>

definition empty_environment_summary :: json where
  "empty_environment_summary =
     JObj [(''keys'', JArr []), (''persistence'', JStr ''memory-only''), (''provisioned'', JBool True)]"

fun set_field :: "json \<Rightarrow> string \<Rightarrow> json \<Rightarrow> json" where
  "set_field (JObj kvs) k v = JObj (map_set kvs k v)"
| "set_field j k v = j"

definition migrate_legacy_record :: "platform \<Rightarrow> json \<Rightarrow> json \<times> bool" where
  "migrate_legacy_record P loaded =
     (case field loaded ''command'' of
        Some c \<Rightarrow>
          if is_record loaded \<and> field loaded ''formatVersion'' = Some (JNum 1) \<and> is_record c
             \<and> (as_string (field c ''operation'') = Some ''create''
                \<or> as_string (field c ''operation'') = Some ''update'')
             \<and> field c ''environmentSummary'' = None
          then
            (let c' = set_field c ''environmentSummary'' empty_environment_summary in
             (set_field (set_field loaded ''command'' c')
                ''fingerprint'' (JStr (command_fingerprint P c')), True))
          else (loaded, False)
      | None \<Rightarrow> (loaded, False))"

end
