(* ===== verification/TicketStore.thy ===== *)
theory TicketStore
  imports Tickets
begin

text \<open>
  The state and the operations of \<open>FileMutationTicketStore\<close>.  Operations run one at a time (the
  \<open>#serialize\<close> tail), so each is a function from the store to a result and the next store.  What an
  operation awaits from the file system and the clock is its \<open>ticket_io\<close> argument.
\<close>

section \<open>Configuration and state\<close>

record ticket_config =
  max_tickets :: nat
  max_record_bytes :: nat
  max_recovery_bytes :: nat
  retention_ms :: int

definition positive_integer :: "int \<Rightarrow> int result" where
  "positive_integer v = (if safe_int v \<and> 1 \<le> v then Inr v else Inl (JsError PlainError ''Error'' False))"

definition non_negative_integer :: "int \<Rightarrow> int result" where
  "non_negative_integer v =
     (if safe_int v \<and> 0 \<le> v then Inr v else Inl (JsError PlainError ''Error'' False))"

fun or_default :: "'a option \<Rightarrow> 'a \<Rightarrow> 'a" where
  "or_default (Some v) d = v"
| "or_default None d = d"

text \<open>The constructor, with its optional limits.\<close>

definition make_ticket_config ::
  "string \<Rightarrow> int option \<Rightarrow> int option \<Rightarrow> int option \<Rightarrow> int option \<Rightarrow> ticket_config result" where
  "make_ticket_config state_dir tickets record_bytes recovery_bytes retention =
     (if state_dir = [] then Inl (JsError PlainError ''Error'' False)
      else case positive_integer (or_default tickets 4096) of
        Inl e \<Rightarrow> Inl e
      | Inr mt \<Rightarrow>
          (case positive_integer (or_default record_bytes 1048576) of
             Inl e \<Rightarrow> Inl e
           | Inr mr \<Rightarrow>
               (case positive_integer (or_default recovery_bytes 268435456) of
                  Inl e \<Rightarrow> Inl e
                | Inr mb \<Rightarrow>
                    (case non_negative_integer (or_default retention 604800000) of
                       Inl e \<Rightarrow> Inl e
                     | Inr r \<Rightarrow> Inr \<lparr>max_tickets = nat mt, max_record_bytes = nat mr,
                                       max_recovery_bytes = nat mb, retention_ms = r\<rparr>))))"

text \<open>
  One operation's dealings with its environment: whether the directories could be ensured and read
  (\<open>ensurePrivateDirectory\<close>, \<open>readdir\<close>), the clock read by \<open>#pruneLocked\<close> and the one read by
  \<open>#timestamp\<close>, the outcome of writing a value to a file, and the exception \<open>rm\<close> throws, if any.
\<close>

record ticket_io =
  io_ready :: "unit result"
  io_now :: int
  io_stamp :: int
  io_write :: "string \<Rightarrow> json \<Rightarrow> write_outcome"
  io_rm :: "string \<Rightarrow> js_error option"

record ticket_recovery =
  rec_queued :: "ticket list"
  rec_indeterminate :: "ticket list"
  rec_terminal :: "ticket list"
  rec_pruned :: nat

text \<open>
  \<open>recovery\<close> is the promise the first operation creates and every later one awaits: once it is
  there, its outcome (fulfilled or rejected) never changes.
\<close>

record ticket_store =
  tickets :: "(string, ticket) jsmap"
  scopes :: "(string, string) jsmap"
  ticket_dir :: directory
  recovery :: "ticket_recovery result option"

definition empty_ticket_store :: "directory \<Rightarrow> ticket_store" where
  "empty_ticket_store dir = \<lparr>tickets = [], scopes = [], ticket_dir = dir, recovery = None\<rparr>"

definition ticket_file :: "string \<Rightarrow> string" where
  "ticket_file ticket_id = ticket_id @ ''.json''"

section \<open>Internal steps\<close>

definition ticket_write ::
  "platform \<Rightarrow> ticket_config \<Rightarrow> ticket_io \<Rightarrow> string \<Rightarrow> json \<Rightarrow> ticket_store \<Rightarrow> unit result \<times> ticket_store" where
  "ticket_write P cfg io ticket_id v st =
     (if compact_size v > max_record_bytes cfg
      then (Inl (ticket_error ''ticket_record_too_large''), st)
      else
        (let (r, dir) = atomic_write_private_json (current_uid P) (io_write io (ticket_file ticket_id) v)
                          (ticket_file ticket_id) v (ticket_dir st)
         in (r, st\<lparr>ticket_dir := dir\<rparr>)))"

definition ticket_register :: "ticket \<Rightarrow> ticket_store \<Rightarrow> unit result \<times> ticket_store" where
  "ticket_register t st =
     (if map_has (tickets st) (t_id t) then (Inl corrupt_ticket, st)
      else if map_has (scopes st) (t_scope t) then (Inl corrupt_ticket, st)
      else (Inr (), st\<lparr>tickets := map_set (tickets st) (t_id t) t,
                       scopes := map_set (scopes st) (t_scope t) (t_id t)\<rparr>))"

datatype ticket_patch = NoPatch | ResultPatch "json option" | ErrorPatch api_error

fun apply_patch :: "platform \<Rightarrow> ticket_patch \<Rightarrow> ticket \<Rightarrow> ticket" where
  "apply_patch P NoPatch t = t\<lparr>t_result := None, t_error := None\<rparr>"
| "apply_patch P (ResultPatch r) t = t\<lparr>t_result := r, t_error := None\<rparr>"
| "apply_patch P (ErrorPatch e) t =
     t\<lparr>t_result := None, t_error := Some (sanitize_ticket_error P e)\<rparr>"

definition transition_locked ::
  "platform \<Rightarrow> ticket_config \<Rightarrow> ticket_io \<Rightarrow> ticket \<Rightarrow> ticket_state \<Rightarrow> ticket_patch \<Rightarrow> bool
   \<Rightarrow> ticket_store \<Rightarrow> ticket result \<times> ticket_store" where
  "transition_locked P cfg io cur to patch reconciliation st =
     (if t_state cur = to then (Inr cur, st)
      else if \<not> allowed_transition (t_state cur) to reconciliation
      then (Inl (ticket_error ''invalid_ticket_transition''), st)
      else
        (let nxt = apply_patch P patch
               (cur\<lparr>t_state := to, t_updated_at := to_iso (io_stamp io)\<rparr>)
         in case ticket_write P cfg io (t_id nxt) (ticket_json nxt) st of
              (Inl e, st') \<Rightarrow> (Inl e, st')
            | (Inr _, st') \<Rightarrow> (Inr nxt, st'\<lparr>tickets := map_set (tickets st') (t_id nxt) nxt\<rparr>)))"

text \<open>
  \<open>now - Date.parse(updatedAt) > retentionMs\<close>; a timestamp that does not parse is \<open>NaN\<close> and the
  comparison is false.
\<close>

definition ticket_expired :: "ticket_config \<Rightarrow> int \<Rightarrow> ticket \<Rightarrow> bool" where
  "ticket_expired cfg now t =
     (case date_parse (t_updated_at t) of None \<Rightarrow> False | Some at \<Rightarrow> now - at > retention_ms cfg)"

fun remove_expired ::
  "ticket_io \<Rightarrow> ticket list \<Rightarrow> nat \<Rightarrow> ticket_store \<Rightarrow> nat result \<times> ticket_store" where
  "remove_expired io [] removed st = (Inr removed, st)"
| "remove_expired io (t # ts) removed st =
     (case io_rm io (ticket_file (t_id t)) of
        Some e \<Rightarrow> (Inl e, st)
      | None \<Rightarrow>
          remove_expired io ts (Suc removed)
            (st\<lparr>ticket_dir := map_del (ticket_dir st) (ticket_file (t_id t)),
                tickets := map_del (tickets st) (t_id t),
                scopes := map_del (scopes st) (t_scope t)\<rparr>))"

definition expired_tickets :: "platform \<Rightarrow> ticket_config \<Rightarrow> int \<Rightarrow> ticket_store \<Rightarrow> ticket list" where
  "expired_tickets P cfg now st =
     List.filter (ticket_expired cfg now)
       (sort_by (\<lambda>a b. collate P (t_updated_at b) (t_updated_at a))
         (List.filter (\<lambda>t. is_terminal (t_state t)) (map_vals (tickets st))))"

definition prune_locked ::
  "platform \<Rightarrow> ticket_config \<Rightarrow> ticket_io \<Rightarrow> ticket_store \<Rightarrow> nat result \<times> ticket_store" where
  "prune_locked P cfg io st = remove_expired io (expired_tickets P cfg (io_now io) st) 0 st"

section \<open>Recovery\<close>

definition ticket_too_large :: js_error where
  "ticket_too_large = ticket_error ''ticket_record_too_large''"

fun load_files ::
  "platform \<Rightarrow> ticket_config \<Rightarrow> ticket_io \<Rightarrow> string list \<Rightarrow> nat \<Rightarrow> ticket_store
   \<Rightarrow> unit result \<times> ticket_store" where
  "load_files P cfg io [] bytes st = (Inr (), st)"
| "load_files P cfg io (name # names) bytes st =
     (let file = map_get (ticket_dir st) name;
          size = (case state_file_size file of None \<Rightarrow> 0 | Some n \<Rightarrow> n)
      in
      if size > max_record_bytes cfg then (Inl ticket_too_large, st)
      else if bytes + size > max_recovery_bytes cfg
      then (Inl (ticket_error ''ticket_recovery_too_large''), st)
      else case read_private_json_if_exists (current_uid P) file of
        Inl e \<Rightarrow> (Inl e, st)
      | Inr None \<Rightarrow> load_files P cfg io names (bytes + size) st
      | Inr (Some loaded) \<Rightarrow>
          (let (v, migrated) = migrate_legacy_record P loaded; t = ticket_of_json v in
           case validate_ticket_record P v of
             Inl e \<Rightarrow> (Inl e, st)
           | Inr _ \<Rightarrow>
               if name \<noteq> ticket_file (t_id t) then (Inl corrupt_ticket, st)
               else
                 (case (if migrated then ticket_write P cfg io (t_id t) v st else (Inr (), st)) of
                    (Inl e, st') \<Rightarrow> (Inl e, st')
                  | (Inr _, st') \<Rightarrow>
                      (case ticket_register t st' of
                         (Inl e, st'') \<Rightarrow> (Inl e, st'')
                       | (Inr _, st'') \<Rightarrow> load_files P cfg io names (bytes + size) st''))))"

text \<open>A ticket that was running when the process died may or may not have taken effect.\<close>

fun interrupt_running ::
  "platform \<Rightarrow> ticket_config \<Rightarrow> ticket_io \<Rightarrow> ticket list \<Rightarrow> ticket_store \<Rightarrow> unit result \<times> ticket_store" where
  "interrupt_running P cfg io [] st = (Inr (), st)"
| "interrupt_running P cfg io (t # ts) st =
     (if t_state t \<noteq> Running then interrupt_running P cfg io ts st
      else case transition_locked P cfg io t Indeterminate NoPatch True st of
             (Inl e, st') \<Rightarrow> (Inl e, st')
           | (Inr _, st') \<Rightarrow> interrupt_running P cfg io ts st')"

definition json_file_names :: "directory \<Rightarrow> string list" where
  "json_file_names dir =
     sort_by code_unit_le
       (List.filter (\<lambda>n. drop (length n - 5) n = ''.json'') (map_keys dir))"

text \<open>
  \<open>a.submittedAt.localeCompare(b.submittedAt) || a.ticketId.localeCompare(b.ticketId)\<close>: two times
  that collate equally fall through to the identifiers.
\<close>

definition submission_le :: "platform \<Rightarrow> ticket \<Rightarrow> ticket \<Rightarrow> bool" where
  "submission_le P a b =
     (if collate P (t_submitted_at a) (t_submitted_at b)
         \<and> collate P (t_submitted_at b) (t_submitted_at a)
      then collate P (t_id a) (t_id b)
      else collate P (t_submitted_at a) (t_submitted_at b))"

definition recovery_lists :: "platform \<Rightarrow> ticket_store \<Rightarrow> nat \<Rightarrow> ticket_recovery" where
  "recovery_lists P st pruned =
     (let pick = (\<lambda>p. sort_by (submission_le P) (List.filter (\<lambda>t. p (t_state t)) (map_vals (tickets st))))
      in \<lparr>rec_queued = pick (\<lambda>s. s = Queued), rec_indeterminate = pick (\<lambda>s. s = Indeterminate),
          rec_terminal = pick (\<lambda>s. s = Succeeded \<or> s = Failed), rec_pruned = pruned\<rparr>)"

definition ticket_load ::
  "platform \<Rightarrow> ticket_config \<Rightarrow> ticket_io \<Rightarrow> ticket_store \<Rightarrow> ticket_recovery result \<times> ticket_store" where
  "ticket_load P cfg io st0 =
     (let st = st0\<lparr>tickets := [], scopes := []\<rparr>; names = json_file_names (ticket_dir st) in
      case io_ready io of Inl e \<Rightarrow> (Inl e, st0)
      | Inr _ \<Rightarrow>
      if length names > max_tickets cfg then (Inl (ticket_error ''ticket_capacity''), st)
      else case load_files P cfg io names 0 st of
        (Inl e, st1) \<Rightarrow> (Inl e, st1)
      | (Inr _, st1) \<Rightarrow>
          (case interrupt_running P cfg io (map_vals (tickets st1)) st1 of
             (Inl e, st2) \<Rightarrow> (Inl e, st2)
           | (Inr _, st2) \<Rightarrow>
               (case prune_locked P cfg io st2 of
                  (Inl e, st3) \<Rightarrow> (Inl e, st3)
                | (Inr pruned, st3) \<Rightarrow> (Inr (recovery_lists P st3 pruned), st3))))"

definition ticket_recover ::
  "platform \<Rightarrow> ticket_config \<Rightarrow> ticket_io \<Rightarrow> ticket_store \<Rightarrow> ticket_recovery result \<times> ticket_store" where
  "ticket_recover P cfg io st =
     (case recovery st of
        Some r \<Rightarrow> (r, st)
      | None \<Rightarrow> (let (r, st') = ticket_load P cfg io st in (r, st'\<lparr>recovery := Some r\<rparr>)))"

text \<open>Every operation awaits \<open>recover()\<close> first and rethrows what it rejected with.\<close>

definition recovered_then ::
  "platform \<Rightarrow> ticket_config \<Rightarrow> ticket_io \<Rightarrow> (ticket_store \<Rightarrow> 'a result \<times> ticket_store) \<Rightarrow> ticket_store
   \<Rightarrow> 'a result \<times> ticket_store" where
  "recovered_then P cfg io op st =
     (case ticket_recover P cfg io st of
        (Inl e, st') \<Rightarrow> (Inl e, st')
      | (Inr _, st') \<Rightarrow> op st')"

section \<open>Operations\<close>

record begin_input =
  in_method :: string
  in_target :: string
  in_key :: string
  in_command :: json

definition validate_begin_input :: "platform \<Rightarrow> begin_input \<Rightarrow> unit result" where
  "validate_begin_input P inp =
     checks
       [(in_method inp \<in> set [''POST'', ''PUT'', ''DELETE''], ticket_error ''invalid_ticket_method''),
        (in_target inp \<noteq> [] \<and> length (in_target inp) \<le> 4096, ticket_error ''invalid_ticket_target''),
        (in_key inp \<noteq> [] \<and> length (in_key inp) \<le> 512, ticket_error ''invalid_idempotency_key''),
        (is_mutation_command P (in_command inp), ticket_error ''invalid_ticket_command'')]"

definition new_ticket :: "platform \<Rightarrow> int \<Rightarrow> begin_input \<Rightarrow> ticket" where
  "new_ticket P now inp =
     (let scope = ticket_scope (in_method inp) (in_target inp) (in_key inp); c = in_command inp in
      \<lparr>t_id = mutation_ticket_id P scope, t_scope = scope, t_idempotency_key = in_key inp,
       t_fingerprint = command_fingerprint P c, t_operation = str_field c ''operation'',
       t_state = Queued, t_request_id = str_field c ''requestId'',
       t_session_id = str_field c ''sessionId'', t_generation = command_generation c,
       t_command = c, t_submitted_at = to_iso now, t_updated_at = to_iso now,
       t_result = None, t_error = None\<rparr>)"

definition create_ticket ::
  "platform \<Rightarrow> ticket_config \<Rightarrow> ticket_io \<Rightarrow> begin_input \<Rightarrow> ticket_store \<Rightarrow> ticket result \<times> ticket_store" where
  "create_ticket P cfg io inp st =
     (let t = new_ticket P (io_stamp io) inp in
      if length (tickets st) \<ge> max_tickets cfg then (Inl (ticket_error ''ticket_capacity''), st)
      else if (case map_get (tickets st) (t_id t) of
                 Some u \<Rightarrow> t_scope u \<noteq> t_scope t | None \<Rightarrow> False)
      then (Inl (ticket_error ''ticket_id_collision''), st)
      else case validate_ticket_record P (ticket_json t) of
        Inl e \<Rightarrow> (Inl e, st)
      | Inr _ \<Rightarrow>
          (case ticket_write P cfg io (t_id t) (ticket_json t) st of
             (Inl e, st') \<Rightarrow> (Inl e, st')
           | (Inr _, st') \<Rightarrow>
               (case ticket_register t st' of
                  (Inl e, st'') \<Rightarrow> (Inl e, st'')
                | (Inr _, st'') \<Rightarrow> (Inr t, st''))))"

definition begin_locked ::
  "platform \<Rightarrow> ticket_config \<Rightarrow> ticket_io \<Rightarrow> begin_input \<Rightarrow> ticket_store \<Rightarrow> ticket result \<times> ticket_store" where
  "begin_locked P cfg io inp st =
     (case validate_begin_input P inp of
        Inl e \<Rightarrow> (Inl e, st)
      | Inr _ \<Rightarrow>
          (case map_get (scopes st) (ticket_scope (in_method inp) (in_target inp) (in_key inp)) of
             Some ticket_id \<Rightarrow>
               (case map_get (tickets st) ticket_id of
                  Some t \<Rightarrow>
                    if t_fingerprint t \<noteq> command_fingerprint P (in_command inp)
                    then (Inl (ticket_error ''idempotency_conflict''), st)
                    else (Inr t, st)
                | None \<Rightarrow> (Inl (JsError PlainError ''TypeError'' False), st))
           | None \<Rightarrow>
               (case prune_locked P cfg io st of
                  (Inl e, st') \<Rightarrow> (Inl e, st')
                | (Inr _, st') \<Rightarrow> create_ticket P cfg io inp st')))"

definition ticket_begin ::
  "platform \<Rightarrow> ticket_config \<Rightarrow> ticket_io \<Rightarrow> begin_input \<Rightarrow> ticket_store \<Rightarrow> ticket result \<times> ticket_store" where
  "ticket_begin P cfg io inp = recovered_then P cfg io (begin_locked P cfg io inp)"

definition ticket_get ::
  "platform \<Rightarrow> ticket_config \<Rightarrow> ticket_io \<Rightarrow> string \<Rightarrow> ticket_store \<Rightarrow> ticket option result \<times> ticket_store" where
  "ticket_get P cfg io ticket_id =
     recovered_then P cfg io (\<lambda>st. (Inr (map_get (tickets st) ticket_id), st))"

definition ticket_get_by_idempotency ::
  "platform \<Rightarrow> ticket_config \<Rightarrow> ticket_io \<Rightarrow> string \<Rightarrow> string \<Rightarrow> string \<Rightarrow> ticket_store
   \<Rightarrow> ticket option result \<times> ticket_store" where
  "ticket_get_by_idempotency P cfg io method target key =
     recovered_then P cfg io
       (\<lambda>st. (Inr (case map_get (scopes st) (ticket_scope method target key) of
                     None \<Rightarrow> None
                   | Some ticket_id \<Rightarrow> map_get (tickets st) ticket_id), st))"

definition ticket_transition ::
  "platform \<Rightarrow> ticket_config \<Rightarrow> ticket_io \<Rightarrow> string \<Rightarrow> ticket_state \<Rightarrow> ticket_patch \<Rightarrow> ticket_store
   \<Rightarrow> ticket result \<times> ticket_store" where
  "ticket_transition P cfg io ticket_id to patch =
     recovered_then P cfg io
       (\<lambda>st. case map_get (tickets st) ticket_id of
               None \<Rightarrow> (Inl (ticket_error ''ticket_not_found''), st)
             | Some cur \<Rightarrow> transition_locked P cfg io cur to patch False st)"

definition ticket_prune ::
  "platform \<Rightarrow> ticket_config \<Rightarrow> ticket_io \<Rightarrow> ticket_store \<Rightarrow> nat result \<times> ticket_store" where
  "ticket_prune P cfg io = recovered_then P cfg io (prune_locked P cfg io)"

definition mark_running ::
  "platform \<Rightarrow> ticket_config \<Rightarrow> ticket_io \<Rightarrow> string \<Rightarrow> ticket_store \<Rightarrow> ticket result \<times> ticket_store" where
  "mark_running P cfg io ticket_id = ticket_transition P cfg io ticket_id Running NoPatch"

text \<open>The terminal transitions prune afterwards; a pruning that throws makes the call throw.\<close>

definition settle_ticket ::
  "platform \<Rightarrow> ticket_config \<Rightarrow> ticket_io \<Rightarrow> string \<Rightarrow> ticket_state \<Rightarrow> ticket_patch \<Rightarrow> ticket_store
   \<Rightarrow> ticket result \<times> ticket_store" where
  "settle_ticket P cfg io ticket_id to patch st =
     (case ticket_transition P cfg io ticket_id to patch st of
        (Inl e, st') \<Rightarrow> (Inl e, st')
      | (Inr t, st') \<Rightarrow>
          (case ticket_prune P cfg io st' of
             (Inl e, st'') \<Rightarrow> (Inl e, st'')
           | (Inr _, st'') \<Rightarrow> (Inr t, st'')))"

definition mark_succeeded ::
  "platform \<Rightarrow> ticket_config \<Rightarrow> ticket_io \<Rightarrow> string \<Rightarrow> json option \<Rightarrow> ticket_store
   \<Rightarrow> ticket result \<times> ticket_store" where
  "mark_succeeded P cfg io ticket_id r = settle_ticket P cfg io ticket_id Succeeded (ResultPatch r)"

definition mark_failed ::
  "platform \<Rightarrow> ticket_config \<Rightarrow> ticket_io \<Rightarrow> string \<Rightarrow> api_error \<Rightarrow> ticket_store
   \<Rightarrow> ticket result \<times> ticket_store" where
  "mark_failed P cfg io ticket_id e = settle_ticket P cfg io ticket_id Failed (ErrorPatch e)"

datatype reconcile_outcome = ReconcileSucceeded "json option" | ReconcileFailed api_error

fun reconcile_state :: "reconcile_outcome \<Rightarrow> ticket_state" where
  "reconcile_state (ReconcileSucceeded _) = Succeeded"
| "reconcile_state (ReconcileFailed _) = Failed"

fun reconcile_patch :: "reconcile_outcome \<Rightarrow> ticket_patch" where
  "reconcile_patch (ReconcileSucceeded r) = ResultPatch r"
| "reconcile_patch (ReconcileFailed e) = ErrorPatch e"

definition ticket_reconcile ::
  "platform \<Rightarrow> ticket_config \<Rightarrow> ticket_io \<Rightarrow> string \<Rightarrow> reconcile_outcome \<Rightarrow> ticket_store
   \<Rightarrow> ticket result \<times> ticket_store" where
  "ticket_reconcile P cfg io ticket_id outcome =
     recovered_then P cfg io
       (\<lambda>st. case map_get (tickets st) ticket_id of
               None \<Rightarrow> (Inl (ticket_error ''ticket_not_found''), st)
             | Some cur \<Rightarrow>
                 if t_state cur \<noteq> Indeterminate
                 then (Inl (ticket_error ''ticket_not_indeterminate''), st)
                 else transition_locked P cfg io cur (reconcile_state outcome)
                        (reconcile_patch outcome) True st)"

end
