(* ===== verification/TicketLaws.thy ===== *)
theory TicketLaws
  imports TicketStore
begin

text \<open>
  What the ticket store promises: the indexes agree, every in-memory ticket is on disk at its own
  state or one step ahead, a state changes only along \<open>allowedTransition\<close>, a ticket disappears only
  after its retention, and a scope is admitted once.
\<close>

named_theorems ticket_simps

section \<open>Round trip of a record through its file\<close>

lemma ticket_state_round_trip [simp]: "ticket_state_of (ticket_state_str s) = Some s"
  by (cases s) (simp_all add: ticket_state_of_def)

lemma api_error_round_trip [simp]: "api_error_of_json (api_error_json e) = e"
  by (cases e) (auto simp: api_error_of_json_def api_error_json_def split: option.splits)

lemma ticket_round_trip: "ticket_of_json (ticket_json t) = t"
  by (cases t)
     (auto simp: ticket_of_json_def ticket_json_def str_field_def split: option.splits)

lemma ticket_file_inj [simp]: "ticket_file a = ticket_file b \<longleftrightarrow> a = b"
  by (simp add: ticket_file_def)

section \<open>The invariant\<close>

definition index_ok :: "platform \<Rightarrow> ticket_store \<Rightarrow> bool" where
  "index_ok P st \<longleftrightarrow>
     js_map (tickets st) \<and> js_map (scopes st)
     \<and> (\<forall>k t. map_get (tickets st) k = Some t \<longrightarrow>
          t_id t = k \<and> map_get (scopes st) (t_scope t) = Some k)
     \<and> (\<forall>s k. map_get (scopes st) s = Some k \<longrightarrow>
          (\<exists>t. map_get (tickets st) k = Some t \<and> t_scope t = s))"

lemma index_okI:
  assumes "js_map (tickets st)" and "js_map (scopes st)"
    and "\<And>k t. map_get (tickets st) k = Some t \<Longrightarrow>
           t_id t = k \<and> map_get (scopes st) (t_scope t) = Some k"
    and "\<And>s k. map_get (scopes st) s = Some k \<Longrightarrow>
           \<exists>t. map_get (tickets st) k = Some t \<and> t_scope t = s"
  shows "index_ok P st"
  using assms unfolding index_ok_def by blast

lemma index_ok_maps:
  "index_ok P st \<Longrightarrow> js_map (tickets st)" "index_ok P st \<Longrightarrow> js_map (scopes st)"
  unfolding index_ok_def by blast+

lemma index_ok_id: "index_ok P st \<Longrightarrow> map_get (tickets st) k = Some t \<Longrightarrow> t_id t = k"
  unfolding index_ok_def by blast

lemma index_ok_scope:
  "index_ok P st \<Longrightarrow> map_get (tickets st) k = Some t \<Longrightarrow> map_get (scopes st) (t_scope t) = Some k"
  unfolding index_ok_def by blast

lemma index_ok_ticket:
  "index_ok P st \<Longrightarrow> map_get (scopes st) s = Some k \<Longrightarrow>
   \<exists>t. map_get (tickets st) k = Some t \<and> t_scope t = s"
  unfolding index_ok_def by blast

lemmas index_ok_facts = index_ok_maps index_ok_id index_ok_scope index_ok_ticket

text \<open>The successor a ticket may have on disk when a write was published but its call threw.\<close>

definition same_identity :: "ticket \<Rightarrow> ticket \<Rightarrow> bool" where
  "same_identity t u \<longleftrightarrow>
     t_id u = t_id t \<and> t_scope u = t_scope t \<and> t_idempotency_key u = t_idempotency_key t
     \<and> t_fingerprint u = t_fingerprint t \<and> t_operation u = t_operation t
     \<and> t_request_id u = t_request_id t \<and> t_session_id u = t_session_id t
     \<and> t_generation u = t_generation t \<and> t_command u = t_command t
     \<and> t_submitted_at u = t_submitted_at t"

definition advances :: "ticket \<Rightarrow> ticket \<Rightarrow> bool" where
  "advances t u \<longleftrightarrow> same_identity t u \<and> allowed_transition (t_state t) (t_state u) True"

definition on_disk :: "ticket_store \<Rightarrow> ticket \<Rightarrow> bool" where
  "on_disk st t \<longleftrightarrow>
     (\<exists>f v. map_get (ticket_dir st) (ticket_file (t_id t)) = Some f \<and> file_text f = JsonText v
       \<and> (ticket_of_json v = t \<or> advances t (ticket_of_json v)))"

definition disk_ok :: "ticket_store \<Rightarrow> bool" where
  "disk_ok st \<longleftrightarrow> (\<forall>k t. map_get (tickets st) k = Some t \<longrightarrow> on_disk st t)"

definition store_ok :: "platform \<Rightarrow> ticket_config \<Rightarrow> ticket_store \<Rightarrow> bool" where
  "store_ok P cfg st \<longleftrightarrow>
     index_ok P st \<and> disk_ok st \<and> length (tickets st) \<le> max_tickets cfg"

text \<open>
  What may happen to the tickets in one operation: a ticket keeps its identity and stays as it is
  or advances, and one that disappears was terminal and past its retention, unless the clock moves by
  more than the retention between the two readings one call takes of it.
  (Its identifier can only be taken at once by a ticket of another scope, whose digest would then
  collide with its own.)
\<close>

definition retired :: "ticket_config \<Rightarrow> ticket_io \<Rightarrow> ticket \<Rightarrow> bool" where
  "retired cfg io t \<longleftrightarrow>
     (is_terminal (t_state t) \<and> ticket_expired cfg (io_now io) t)
     \<or> ticket_expired cfg (io_now io) (t\<lparr>t_updated_at := to_iso (io_stamp io)\<rparr>)"

definition evolves :: "ticket_config \<Rightarrow> ticket_io \<Rightarrow> ticket_store \<Rightarrow> ticket_store \<Rightarrow> bool" where
  "evolves cfg io st st' \<longleftrightarrow>
     (\<forall>k t. map_get (tickets st) k = Some t \<longrightarrow>
        (case map_get (tickets st') k of
           Some u \<Rightarrow> u = t \<or> advances t u \<or> (retired cfg io t \<and> t_scope u \<noteq> t_scope t)
         | None \<Rightarrow> retired cfg io t))"

lemma same_identity_refl [simp]: "same_identity t t"
  by (simp add: same_identity_def)

lemma same_identity_id: "same_identity t u \<Longrightarrow> t_id u = t_id t \<and> t_scope u = t_scope t"
  by (simp add: same_identity_def)

lemma evolvesD:
  "evolves cfg io st st' \<Longrightarrow> map_get (tickets st) k = Some t \<Longrightarrow>
     (case map_get (tickets st') k of
        Some u \<Rightarrow> u = t \<or> advances t u \<or> (retired cfg io t \<and> t_scope u \<noteq> t_scope t)
      | None \<Rightarrow> retired cfg io t)"
  unfolding evolves_def by blast

lemma evolves_refl [simp]: "evolves cfg io st st"
  by (auto simp: evolves_def)

lemma evolves_same_tickets: "tickets st' = tickets st \<Longrightarrow> evolves cfg io st st'"
  by (auto simp: evolves_def)

lemma index_ok_dir [simp]: "index_ok P (st\<lparr>ticket_dir := d\<rparr>) = index_ok P st"
  by (simp add: index_ok_def)

lemma index_ok_recovery [simp]: "index_ok P (st\<lparr>recovery := r\<rparr>) = index_ok P st"
  by (simp add: index_ok_def)

section \<open>Writing\<close>

lemma ticket_write_cases:
  assumes "ticket_write P cfg io k v st = (r, st')"
  obtains (unchanged) e where "r = Inl e" and "st' = st"
  | (published) "st' = st\<lparr>ticket_dir := map_set (ticket_dir st) (ticket_file k)
                              (published_file (current_uid P) v)\<rparr>"
      and "compact_size v \<le> max_record_bytes cfg"
  using assms
  by (cases "io_write io (ticket_file k) v")
     (auto simp: ticket_write_def split: if_splits)

lemma ticket_write_tickets [simp]:
  "tickets (snd (ticket_write P cfg io k v st)) = tickets st"
  "scopes (snd (ticket_write P cfg io k v st)) = scopes st"
  "recovery (snd (ticket_write P cfg io k v st)) = recovery st"
  by (simp_all add: ticket_write_def split: prod.splits)

lemma ticket_write_frame:
  assumes "ticket_write P cfg io k v st = (r, st')"
  shows "tickets st' = tickets st" and "scopes st' = scopes st" and "recovery st' = recovery st"
  using assms by (auto elim: ticket_write_cases)

lemma ticket_write_ok:
  assumes "ticket_write P cfg io k v st = (Inr u, st')"
  shows "st' = st\<lparr>ticket_dir := map_set (ticket_dir st) (ticket_file k)
                   (published_file (current_uid P) v)\<rparr>"
    and "compact_size v \<le> max_record_bytes cfg"
  using assms by (auto elim: ticket_write_cases)

text \<open>Writing a ticket leaves every other ticket's file alone and puts this one's there.\<close>

lemma on_disk_written:
  "on_disk (st\<lparr>ticket_dir := map_set (ticket_dir st) (ticket_file (t_id t))
      (published_file c (ticket_json t))\<rparr>) t"
  by (simp add: on_disk_def published_file_def ticket_round_trip)

lemma on_disk_other:
  "t_id t \<noteq> k \<Longrightarrow>
   on_disk (st\<lparr>ticket_dir := map_set (ticket_dir st) (ticket_file k) f\<rparr>) t = on_disk st t"
  by (auto simp: on_disk_def)

lemma on_disk_ahead:
  "t_id u = t_id t \<Longrightarrow> advances t u \<Longrightarrow>
   on_disk (st\<lparr>ticket_dir := map_set (ticket_dir st) (ticket_file (t_id u))
      (published_file c (ticket_json u))\<rparr>) t"
  by (simp add: on_disk_def published_file_def ticket_round_trip)

lemma on_disk_cong: "ticket_dir st' = ticket_dir st \<Longrightarrow> on_disk st' t = on_disk st t"
  by (simp add: on_disk_def)

section \<open>Transitions\<close>

text \<open>The record a transition makes of the current one.\<close>

definition next_ticket :: "platform \<Rightarrow> ticket_io \<Rightarrow> ticket_state \<Rightarrow> ticket_patch \<Rightarrow> ticket \<Rightarrow> ticket" where
  "next_ticket P io to patch cur =
     apply_patch P patch (cur\<lparr>t_state := to, t_updated_at := to_iso (io_stamp io)\<rparr>)"

lemma next_ticket_facts [simp]:
  "t_state (next_ticket P io to patch cur) = to"
  "t_id (next_ticket P io to patch cur) = t_id cur"
  "t_scope (next_ticket P io to patch cur) = t_scope cur"
  "same_identity cur (next_ticket P io to patch cur)"
  "t_updated_at (next_ticket P io to patch cur) = to_iso (io_stamp io)"
  by (cases patch; simp add: next_ticket_def same_identity_def)+

lemma allowed_reconciling:
  "allowed_transition a b r \<Longrightarrow> allowed_transition a b True"
  by (cases a) auto

lemma transition_locked_cases:
  assumes "transition_locked P cfg io cur to patch rc st = (r, st')"
  obtains (same) "r = Inr cur" and "st' = st" and "t_state cur = to"
  | (refused) "r = Inl (ticket_error ''invalid_ticket_transition'')" and "st' = st"
      and "\<not> allowed_transition (t_state cur) to rc" and "t_state cur \<noteq> to"
  | (lost) e where "r = Inl e" and "allowed_transition (t_state cur) to rc"
      and "tickets st' = tickets st" and "scopes st' = scopes st" and "recovery st' = recovery st"
      and "ticket_dir st' = ticket_dir st
           \<or> ticket_dir st' = map_set (ticket_dir st) (ticket_file (t_id cur))
               (published_file (current_uid P) (ticket_json (next_ticket P io to patch cur)))"
  | (moved) "r = Inr (next_ticket P io to patch cur)"
      and "allowed_transition (t_state cur) to rc"
      and "st' = st\<lparr>ticket_dir := map_set (ticket_dir st) (ticket_file (t_id cur))
                 (published_file (current_uid P) (ticket_json (next_ticket P io to patch cur))),
               tickets := map_set (tickets st) (t_id cur) (next_ticket P io to patch cur)\<rparr>"
proof (cases "t_state cur = to")
  case True
  with assms show ?thesis by (auto simp: transition_locked_def intro: same)
next
  case neq: False
  show ?thesis
  proof (cases "allowed_transition (t_state cur) to rc")
    case False
    with assms neq show ?thesis by (auto simp: transition_locked_def intro: refused)
  next
    case True
    let ?n = "next_ticket P io to patch cur"
    obtain r1 st1 where w: "ticket_write P cfg io (t_id cur) (ticket_json ?n) st = (r1, st1)"
      by (cases "ticket_write P cfg io (t_id cur) (ticket_json ?n) st")
    have step: "(case r1 of Inl e \<Rightarrow> (Inl e, st1)
        | Inr _ \<Rightarrow> (Inr ?n, st1\<lparr>tickets := map_set (tickets st1) (t_id cur) ?n\<rparr>)) = (r, st')"
      using assms neq True w
      by (cases r1) (simp_all add: transition_locked_def next_ticket_def [symmetric] Let_def)
    show ?thesis
    proof (cases r1)
      case (Inl e)
      with step have "r = Inl e" "st' = st1" by auto
      moreover have "tickets st1 = tickets st" "scopes st1 = scopes st" "recovery st1 = recovery st"
        using w ticket_write_tickets [of P cfg io "t_id cur" "ticket_json ?n" st] by auto
      moreover have "ticket_dir st1 = ticket_dir st
           \<or> ticket_dir st1 = map_set (ticket_dir st) (ticket_file (t_id cur))
               (published_file (current_uid P) (ticket_json ?n))"
        using w by (auto elim: ticket_write_cases)
      ultimately show ?thesis using True by (auto intro: lost)
    next
      case (Inr u)
      with w have st1: "st1 = st\<lparr>ticket_dir := map_set (ticket_dir st) (ticket_file (t_id cur))
                 (published_file (current_uid P) (ticket_json ?n))\<rparr>"
        by (auto dest: ticket_write_ok)
      have "r = Inr ?n" and "st' = st1\<lparr>tickets := map_set (tickets st1) (t_id cur) ?n\<rparr>"
        using step Inr by auto
      with st1 True show ?thesis by (intro moved) auto
    qed
  qed
qed

lemma index_ok_replace:
  assumes "index_ok P st" and "map_get (tickets st) (t_id cur) = Some cur"
    and "t_id u = t_id cur" and "t_scope u = t_scope cur"
  shows "index_ok P (st\<lparr>ticket_dir := d, tickets := map_set (tickets st) (t_id cur) u\<rparr>)"
proof (rule index_okI)
  fix k t
  assume "map_get (tickets (st\<lparr>ticket_dir := d, tickets := map_set (tickets st) (t_id cur) u\<rparr>)) k = Some t"
  then show "t_id t = k
    \<and> map_get (scopes (st\<lparr>ticket_dir := d, tickets := map_set (tickets st) (t_id cur) u\<rparr>)) (t_scope t)
       = Some k"
    using assms by (auto split: if_splits dest: index_ok_id index_ok_scope)
next
  fix s k
  assume "map_get (scopes (st\<lparr>ticket_dir := d, tickets := map_set (tickets st) (t_id cur) u\<rparr>)) s = Some k"
  then obtain t where "map_get (tickets st) k = Some t" "t_scope t = s"
    using index_ok_ticket [OF assms(1)] by auto
  with assms show "\<exists>t. map_get (tickets (st\<lparr>ticket_dir := d,
      tickets := map_set (tickets st) (t_id cur) u\<rparr>)) k = Some t \<and> t_scope t = s"
    by (cases "k = t_id cur") auto
qed (use index_ok_maps [OF assms(1)] in auto)

lemma transition_locked_ok:
  assumes ok: "store_ok P cfg st" and cur: "map_get (tickets st) (t_id cur) = Some cur"
    and run: "transition_locked P cfg io cur to patch rc st = (r, st')"
  shows "store_ok P cfg st'" and "evolves cfg io st st'" and "recovery st' = recovery st"
proof -
  let ?n = "next_ticket P io to patch cur"
  have idx: "index_ok P st" and disk: "disk_ok st" and len: "length (tickets st) \<le> max_tickets cfg"
    using ok by (auto simp: store_ok_def)
  have ids: "t_id t = k" if "map_get (tickets st) k = Some t" for k t
    using idx that by (rule index_ok_id)
  from run show "store_ok P cfg st'"
  proof (cases rule: transition_locked_cases)
    case (lost e)
    have "advances cur ?n" using lost(2) by (auto simp: advances_def dest: allowed_reconciling)
    then have "on_disk st' t" if "map_get (tickets st) k = Some t" for k t
      using lost(6) disk that ids [OF that] cur
      by (cases "t_id t = t_id cur")
         (auto simp: disk_ok_def on_disk_def published_file_def ticket_round_trip)
    moreover have "index_ok P st'"
      using idx lost(3,4) by (simp add: index_ok_def)
    ultimately show ?thesis
      using lost(3) len by (auto simp: store_ok_def disk_ok_def)
  next
    case moved
    have "on_disk st' t" if "map_get (tickets st') k = Some t" for k t
      using moved that disk ids
      by (auto simp: disk_ok_def on_disk_def published_file_def ticket_round_trip split: if_splits)
    moreover have "length (tickets st') = length (tickets st)"
      using moved cur by (simp add: map_set_length)
    ultimately show ?thesis
      using moved idx cur len by (auto simp: store_ok_def disk_ok_def intro: index_ok_replace)
  qed (use ok in auto)
  from run show "evolves cfg io st st'"
  proof (cases rule: transition_locked_cases)
    case moved
    then have "advances cur ?n" by (auto simp: advances_def dest: allowed_reconciling)
    with moved cur show ?thesis by (auto simp: evolves_def split: option.splits)
  qed (auto simp: evolves_same_tickets)
  from run show "recovery st' = recovery st"
    by (cases rule: transition_locked_cases) auto
qed

section \<open>Pruning\<close>

lemma expired_ticketsD:
  assumes "t \<in> set (expired_tickets P cfg now st)"
  shows "is_terminal (t_state t)" and "ticket_expired cfg now t" and "t \<in> set (map_vals (tickets st))"
  using assms by (auto simp: expired_tickets_def simp del: is_terminal.simps)

lemma index_ok_val:
  "index_ok P st \<Longrightarrow> t \<in> set (map_vals (tickets st)) \<Longrightarrow> map_get (tickets st) (t_id t) = Some t"
  using index_ok_maps(1) index_ok_id by (fastforce simp: map_get_iff)

lemma index_ok_remove:
  assumes ok: "index_ok P st" and t: "map_get (tickets st) (t_id t) = Some t"
  shows "index_ok P (st\<lparr>ticket_dir := d, tickets := map_del (tickets st) (t_id t),
                       scopes := map_del (scopes st) (t_scope t)\<rparr>)"
proof (rule index_okI)
  fix k u
  assume "map_get (tickets (st\<lparr>ticket_dir := d, tickets := map_del (tickets st) (t_id t),
                       scopes := map_del (scopes st) (t_scope t)\<rparr>)) k = Some u"
  then have k: "k \<noteq> t_id t" and u: "map_get (tickets st) k = Some u" by (auto split: if_splits)
  have "map_get (scopes st) (t_scope u) = Some k" using ok u by (rule index_ok_scope)
  moreover have "map_get (scopes st) (t_scope t) = Some (t_id t)" using ok t by (rule index_ok_scope)
  ultimately have "t_scope u \<noteq> t_scope t" using k by auto
  then show "t_id u = k \<and> map_get (scopes (st\<lparr>ticket_dir := d,
      tickets := map_del (tickets st) (t_id t), scopes := map_del (scopes st) (t_scope t)\<rparr>)) (t_scope u)
      = Some k"
    using ok u by (auto dest: index_ok_id index_ok_scope)
next
  fix s k
  assume "map_get (scopes (st\<lparr>ticket_dir := d, tickets := map_del (tickets st) (t_id t),
                       scopes := map_del (scopes st) (t_scope t)\<rparr>)) s = Some k"
  then have s: "s \<noteq> t_scope t" and sk: "map_get (scopes st) s = Some k" by (auto split: if_splits)
  obtain u where u: "map_get (tickets st) k = Some u" "t_scope u = s"
    using index_ok_ticket [OF ok sk] by auto
  with s t show "\<exists>u. map_get (tickets (st\<lparr>ticket_dir := d,
      tickets := map_del (tickets st) (t_id t), scopes := map_del (scopes st) (t_scope t)\<rparr>)) k = Some u
      \<and> t_scope u = s"
    by (cases "k = t_id t") auto
qed (use index_ok_maps [OF ok] in auto)

lemma on_disk_removed:
  "t_id t \<noteq> k \<Longrightarrow>
   on_disk (st\<lparr>ticket_dir := map_del (ticket_dir st) (ticket_file k), tickets := m, scopes := n\<rparr>) t
     = on_disk st t"
  by (simp add: on_disk_def)

text \<open>
  The removal loop keeps the invariant, removes nothing but the tickets it was given, and, when it
  returns, has removed all of them.
\<close>

lemma remove_expired_ok:
  assumes "remove_expired io ts n st = (r, st')" and "store_ok P cfg st"
    and "distinct (List.map t_id ts)" and "\<And>t. t \<in> set ts \<Longrightarrow> map_get (tickets st) (t_id t) = Some t"
  shows "store_ok P cfg st' \<and> recovery st' = recovery st
    \<and> (\<forall>k. map_get (tickets st') k = map_get (tickets st) k
           \<or> (map_get (tickets st') k = None \<and> k \<in> t_id ` set ts))
    \<and> (\<forall>m. r = Inr m \<longrightarrow> m = n + length ts
           \<and> (\<forall>k. map_get (tickets st') k = (if k \<in> t_id ` set ts then None else map_get (tickets st) k)))"
  using assms
proof (induction ts arbitrary: n st)
  case Nil
  then show ?case by auto
next
  case (Cons t ts)
  show ?case
  proof (cases "io_rm io (ticket_file (t_id t))")
    case (Some e)
    with Cons.prems show ?thesis by auto
  next
    case None
    let ?st = "st\<lparr>ticket_dir := map_del (ticket_dir st) (ticket_file (t_id t)),
                 tickets := map_del (tickets st) (t_id t),
                 scopes := map_del (scopes st) (t_scope t)\<rparr>"
    have t: "map_get (tickets st) (t_id t) = Some t" using Cons.prems(4) by simp
    have idx: "index_ok P st" and disk: "disk_ok st" and len: "length (tickets st) \<le> max_tickets cfg"
      using Cons.prems(2) by (auto simp: store_ok_def)
    have "on_disk ?st u" if "map_get (tickets ?st) k = Some u" for k u
    proof -
      from that have "k \<noteq> t_id t" and u: "map_get (tickets st) k = Some u" by (auto split: if_splits)
      moreover have "t_id u = k" using idx u by (rule index_ok_id)
      moreover have "on_disk st u" using disk u by (auto simp: disk_ok_def)
      ultimately show ?thesis by (simp add: on_disk_removed)
    qed
    then have ok': "store_ok P cfg ?st"
      using index_ok_remove [OF idx t] len map_del_length [of "t_id t" "tickets st"]
      by (auto simp: store_ok_def disk_ok_def)
    have run: "remove_expired io ts (Suc n) ?st = (r, st')"
      using Cons.prems(1) None by simp
    have vals: "map_get (tickets ?st) (t_id u) = Some u" if "u \<in> set ts" for u
      using that Cons.prems(3,4) by (auto simp: image_iff)
    have dist: "distinct (List.map t_id ts)" using Cons.prems(3) by simp
    from Cons.IH [OF run ok' dist vals] show ?thesis
      by (auto split: if_splits)
  qed
qed

lemma index_ok_keys:
  assumes "index_ok P st"
  shows "List.map t_id (map_vals (tickets st)) = map_keys (tickets st)"
proof -
  have "t_id (snd kt) = fst kt" if "kt \<in> set (tickets st)" for kt
    using that index_ok_id [OF assms, of "fst kt" "snd kt"] index_ok_maps(1) [OF assms]
    by (simp add: map_get_iff)
  then show ?thesis by simp
qed

lemma expired_distinct:
  assumes "index_ok P st"
  shows "distinct (List.map t_id (expired_tickets P cfg now st))"
proof -
  have d: "distinct (List.map t_id (map_vals (tickets st)))"
    unfolding index_ok_keys [OF assms] using index_ok_maps(1) [OF assms] by (simp add: js_map_def)
  then have "inj_on t_id (set (map_vals (tickets st)))" and "distinct (map_vals (tickets st))"
    by (simp_all add: distinct_map del: map_map set_map)
  then show ?thesis
    by (auto simp: distinct_map expired_tickets_def simp del: is_terminal.simps set_map
        intro: inj_on_subset)
qed

lemma prune_locked_ok:
  assumes run: "prune_locked P cfg io st = (r, st')" and ok: "store_ok P cfg st"
  shows "store_ok P cfg st'" and "evolves cfg io st st'" and "recovery st' = recovery st"
    and "\<And>m. r = Inr m \<Longrightarrow> map_get (tickets st') k =
           (case map_get (tickets st) k of
              Some t \<Rightarrow> if is_terminal (t_state t) \<and> ticket_expired cfg (io_now io) t then None else Some t
            | None \<Rightarrow> None)"
proof -
  let ?ts = "expired_tickets P cfg (io_now io) st"
  have idx: "index_ok P st" using ok by (simp add: store_ok_def)
  have got: "map_get (tickets st) (t_id t) = Some t" if "t \<in> set ?ts" for t
    using idx expired_ticketsD(3) [OF that] by (rule index_ok_val)
  note all = remove_expired_ok [OF run [unfolded prune_locked_def] ok expired_distinct [OF idx] got]
  from all show "store_ok P cfg st'" and "recovery st' = recovery st" by blast+
  have dead: "is_terminal (t_state t) \<and> ticket_expired cfg (io_now io) t"
    if "map_get (tickets st) k = Some t" "k \<in> t_id ` set ?ts" for k t
    using that got expired_ticketsD(1,2) by (metis (no_types, lifting) imageE option.inject)
  show "evolves cfg io st st'"
    unfolding evolves_def
  proof (intro allI impI)
    fix k t
    assume t: "map_get (tickets st) k = Some t"
    from all have "map_get (tickets st') k = map_get (tickets st) k
        \<or> (map_get (tickets st') k = None \<and> k \<in> t_id ` set ?ts)" by blast
    with t dead [OF t] show "case map_get (tickets st') k of
        Some u \<Rightarrow> u = t \<or> advances t u \<or> (retired cfg io t \<and> t_scope u \<noteq> t_scope t)
      | None \<Rightarrow> retired cfg io t"
      by (auto simp: retired_def simp del: is_terminal.simps)
  qed
  have member: "k \<in> t_id ` set ?ts"
    if k: "map_get (tickets st) k = Some t" and "is_terminal (t_state t)"
      and "ticket_expired cfg (io_now io) t" for k t
  proof -
    have "t \<in> set (map_vals (tickets st))" using map_get_in [OF k] by force
    then have "t \<in> set ?ts"
      using that(2,3) by (simp add: expired_tickets_def del: is_terminal.simps set_map)
    with index_ok_id [OF idx k] show ?thesis by force
  qed
  show "map_get (tickets st') k =
           (case map_get (tickets st) k of
              Some t \<Rightarrow> if is_terminal (t_state t) \<and> ticket_expired cfg (io_now io) t then None else Some t
            | None \<Rightarrow> None)" if m: "r = Inr m" for m
  proof -
    from all m have "map_get (tickets st') k =
        (if k \<in> t_id ` set ?ts then None else map_get (tickets st) k)" by blast
    with dead member show ?thesis by (auto split: option.splits simp del: is_terminal.simps)
  qed
qed

text \<open>Pruning only removes: what is left is unchanged.\<close>

lemma prune_locked_keeps:
  assumes "prune_locked P cfg io st = (r, st')" and "store_ok P cfg st"
    and "map_get (tickets st') k = Some u"
  shows "map_get (tickets st) k = Some u"
proof -
  have idx: "index_ok P st" using assms(2) by (simp add: store_ok_def)
  have got: "map_get (tickets st) (t_id t) = Some t"
    if "t \<in> set (expired_tickets P cfg (io_now io) st)" for t
    using idx expired_ticketsD(3) [OF that] by (rule index_ok_val)
  show ?thesis
    using remove_expired_ok [OF assms(1) [unfolded prune_locked_def] assms(2)
        expired_distinct [OF idx] got] assms(3) by (metis option.distinct(1))
qed

section \<open>Admission\<close>

lemma ticket_register_ok:
  assumes run: "ticket_register t st = (Inr u, st')" and idx: "index_ok P st"
  shows "index_ok P st'" and "ticket_dir st' = ticket_dir st" and "recovery st' = recovery st"
    and "tickets st' = tickets st @ [(t_id t, t)]"
    and "map_get (tickets st) (t_id t) = None" and "map_get (scopes st) (t_scope t) = None"
    and "scopes st' = scopes st @ [(t_scope t, t_id t)]"
proof -
  from run show fresh: "map_get (tickets st) (t_id t) = None" "map_get (scopes st) (t_scope t) = None"
    by (auto simp: ticket_register_def split: if_splits)
  have st': "st' = st\<lparr>tickets := map_set (tickets st) (t_id t) t,
                      scopes := map_set (scopes st) (t_scope t) (t_id t)\<rparr>"
    using run by (auto simp: ticket_register_def split: if_splits)
  then show "ticket_dir st' = ticket_dir st" "recovery st' = recovery st"
    "tickets st' = tickets st @ [(t_id t, t)]" "scopes st' = scopes st @ [(t_scope t, t_id t)]"
    using fresh by (simp_all add: map_set_absent)
  show "index_ok P st'"
  proof (rule index_okI)
    fix k v
    assume v: "map_get (tickets st') k = Some v"
    show "t_id v = k \<and> map_get (scopes st') (t_scope v) = Some k"
    proof (cases "k = t_id t")
      case True
      with v st' show ?thesis by simp
    next
      case False
      then have old: "map_get (tickets st) k = Some v" using v st' by simp
      show ?thesis
        using st' fresh index_ok_id [OF idx old] index_ok_scope [OF idx old] by auto
    qed
  next
    fix s k
    assume "map_get (scopes st') s = Some k"
    then show "\<exists>v. map_get (tickets st') k = Some v \<and> t_scope v = s"
      using st' fresh index_ok_ticket [OF idx] by (fastforce split: if_splits)
  qed (use st' index_ok_maps [OF idx] in auto)
qed

lemma ticket_register_err: "ticket_register t st = (Inl e, st') \<Longrightarrow> st' = st"
  by (auto simp: ticket_register_def split: if_splits)

lemma new_ticket_facts [simp]:
  "t_id (new_ticket P now inp)
     = mutation_ticket_id P (ticket_scope (in_method inp) (in_target inp) (in_key inp))"
  "t_scope (new_ticket P now inp) = ticket_scope (in_method inp) (in_target inp) (in_key inp)"
  "t_state (new_ticket P now inp) = Queued"
  "t_command (new_ticket P now inp) = in_command inp"
  "t_fingerprint (new_ticket P now inp) = command_fingerprint P (in_command inp)"
  by (simp_all add: new_ticket_def Let_def)

text \<open>A file that appears for a ticket that is not in memory touches no ticket in memory.\<close>

lemma disk_ok_write_fresh:
  assumes "disk_ok st" and "index_ok P st" and "map_get (tickets st) k = None"
  shows "disk_ok (st\<lparr>ticket_dir := map_set (ticket_dir st) (ticket_file k) f\<rparr>)"
  unfolding disk_ok_def
proof (intro allI impI)
  fix j t
  assume "map_get (tickets (st\<lparr>ticket_dir := map_set (ticket_dir st) (ticket_file k) f\<rparr>)) j = Some t"
  then have t: "map_get (tickets st) j = Some t" by simp
  then have "t_id t = j" "j \<noteq> k" using assms(2,3) index_ok_id by auto
  then show "on_disk (st\<lparr>ticket_dir := map_set (ticket_dir st) (ticket_file k) f\<rparr>) t"
    using assms(1) t by (simp add: on_disk_other disk_ok_def)
qed

text \<open>The outcome of creating a ticket: the store is as before but for its file, or has it added.\<close>

lemma create_ticket_cases:
  assumes run: "create_ticket P cfg io inp st = (r, st')" and ok: "store_ok P cfg st"
    and fresh: "map_get (scopes st) (ticket_scope (in_method inp) (in_target inp) (in_key inp)) = None"
  obtains (failed) e where "r = Inl e" and "tickets st' = tickets st" and "scopes st' = scopes st"
      and "recovery st' = recovery st" and "store_ok P cfg st'"
  | (created) "r = Inr (new_ticket P (io_stamp io) inp)"
      and "tickets st' = tickets st @ [(t_id (new_ticket P (io_stamp io) inp), new_ticket P (io_stamp io) inp)]"
      and "map_get (tickets st) (t_id (new_ticket P (io_stamp io) inp)) = None"
      and "valid_ticket_record P (ticket_json (new_ticket P (io_stamp io) inp))"
      and "recovery st' = recovery st" and "store_ok P cfg st'"
proof -
  let ?t = "new_ticket P (io_stamp io) inp"
  have idx: "index_ok P st" and disk: "disk_ok st" and len: "length (tickets st) \<le> max_tickets cfg"
    using ok by (auto simp: store_ok_def)
  consider (early) e where "r = Inl e" "st' = st"
    | (go) "length (tickets st) < max_tickets cfg"
        and "case map_get (tickets st) (t_id ?t) of Some u \<Rightarrow> t_scope u = t_scope ?t | None \<Rightarrow> True"
        and "valid_ticket_record P (ticket_json ?t)"
        and "(case ticket_write P cfg io (t_id ?t) (ticket_json ?t) st of
               (Inl e, st') \<Rightarrow> (Inl e, st')
             | (Inr _, st') \<Rightarrow>
               (case ticket_register ?t st' of
                  (Inl e, st'') \<Rightarrow> (Inl e, st'')
                | (Inr _, st'') \<Rightarrow> (Inr ?t, st''))) = (r, st')"
    using run unfolding create_ticket_def Let_def validate_ticket_record_def require_def
    by (auto split: if_splits option.splits simp del: new_ticket_facts)
  then show ?thesis
  proof cases
    case early
    with ok show ?thesis by (auto intro: failed)
  next
    case go
    have none: "map_get (tickets st) (t_id ?t) = None"
    proof (cases "map_get (tickets st) (t_id ?t)")
      case (Some u)
      with go(2) index_ok_scope [OF idx Some] fresh show ?thesis by simp
    qed simp
    obtain r1 st1 where w: "ticket_write P cfg io (t_id ?t) (ticket_json ?t) st = (r1, st1)"
      by (cases "ticket_write P cfg io (t_id ?t) (ticket_json ?t) st")
    have st1: "tickets st1 = tickets st" "scopes st1 = scopes st" "recovery st1 = recovery st"
      using w ticket_write_tickets [of P cfg io "t_id ?t" "ticket_json ?t" st] by auto
    have "disk_ok st1"
      using w disk disk_ok_write_fresh [OF disk idx none] by (auto elim!: ticket_write_cases)
    moreover have "index_ok P st1" using idx st1 by (simp add: index_ok_def)
    ultimately have ok1: "store_ok P cfg st1" using st1 len by (simp add: store_ok_def)
    show ?thesis
    proof (cases r1)
      case (Inl e)
      with go(4) w have "r = Inl e" "st' = st1" by auto
      with st1 ok1 show ?thesis by (auto intro: failed)
    next
      case (Inr _)
      then have dir: "st1 = st\<lparr>ticket_dir := map_set (ticket_dir st) (ticket_file (t_id ?t))
          (published_file (current_uid P) (ticket_json ?t))\<rparr>"
        using w by (auto dest: ticket_write_ok)
      obtain r2 st2 where reg: "ticket_register ?t st1 = (r2, st2)"
        by (cases "ticket_register ?t st1")
      show ?thesis
      proof (cases r2)
        case (Inl e)
        with go(4) w Inr reg have "r = Inl e" "st' = st2" by auto
        moreover have "st2 = st1" using reg Inl by (auto dest: ticket_register_err)
        ultimately show ?thesis using st1 ok1 by (auto intro: failed)
      next
        case reg_ok: (Inr _)
        have res: "r = Inr ?t" "st' = st2" using go(4) w Inr reg reg_ok by auto
        note R = ticket_register_ok [OF reg [unfolded reg_ok] \<open>index_ok P st1\<close>]
        have "on_disk st2 t" if t: "map_get (tickets st2) k = Some t" for k t
        proof (cases "t = ?t")
          case True
          then show ?thesis using R(2) dir on_disk_written [where st = st and t = ?t] by (simp add: on_disk_def)
        next
          case False
          with t R(4) st1 have "map_get (tickets st1) k = Some t"
            by (auto simp: map_add_def split: option.splits if_splits)
          with \<open>disk_ok st1\<close> R(2) show ?thesis by (auto simp: disk_ok_def on_disk_def)
        qed
        then have "store_ok P cfg st2"
          using R(1,4) st1 go(1) by (auto simp: store_ok_def disk_ok_def)
        with res R(3,4) st1 none go(3) show ?thesis by (auto intro!: created)
      qed
    qed
  qed
qed

lemma begin_locked_cases:
  assumes run: "begin_locked P cfg io inp st = (r, st')" and idx: "index_ok P st"
  obtains (refused) e where "r = Inl e" and "st' = st"
  | (known) k t where "map_get (scopes st) (ticket_scope (in_method inp) (in_target inp) (in_key inp)) = Some k"
      and "map_get (tickets st) k = Some t" and "t_fingerprint t = command_fingerprint P (in_command inp)"
      and "r = Inr t" and "st' = st" and "validate_begin_input P inp = Inr ()"
  | (pruning) e where "prune_locked P cfg io st = (Inl e, st')" and "r = Inl e"
  | (creating) m st1 where "prune_locked P cfg io st = (Inr m, st1)"
      and "create_ticket P cfg io inp st1 = (r, st')"
      and "map_get (scopes st) (ticket_scope (in_method inp) (in_target inp) (in_key inp)) = None"
      and "validate_begin_input P inp = Inr ()"
proof (cases "validate_begin_input P inp")
  case (Inl e)
  with run show ?thesis by (intro refused) (auto simp: begin_locked_def)
next
  case valid: (Inr u)
  show ?thesis
  proof (cases "map_get (scopes st) (ticket_scope (in_method inp) (in_target inp) (in_key inp))")
    case (Some k)
    obtain t where t: "map_get (tickets st) k = Some t"
      using index_ok_ticket [OF idx Some] by auto
    show ?thesis
    proof (cases "t_fingerprint t = command_fingerprint P (in_command inp)")
      case True
      with run valid Some t show ?thesis by (intro known [of k t]) (auto simp: begin_locked_def)
    next
      case False
      with run valid Some t show ?thesis by (intro refused) (auto simp: begin_locked_def)
    qed
  next
    case None
    obtain r1 st1 where pr: "prune_locked P cfg io st = (r1, st1)"
      by (cases "prune_locked P cfg io st")
    show ?thesis
    proof (cases r1)
      case (Inl e)
      with run valid None pr show ?thesis by (intro pruning [of e]) (auto simp: begin_locked_def)
    next
      case (Inr m)
      with run valid None pr show ?thesis by (intro creating [of m st1]) (auto simp: begin_locked_def)
    qed
  qed
qed

lemma begin_locked_ok:
  assumes run: "begin_locked P cfg io inp st = (r, st')" and ok: "store_ok P cfg st"
  shows "store_ok P cfg st'" and "evolves cfg io st st'" and "recovery st' = recovery st"
    and "r = Inr t \<Longrightarrow> map_get (tickets st') (t_id t) = Some t
           \<and> t_scope t = ticket_scope (in_method inp) (in_target inp) (in_key inp)
           \<and> t_fingerprint t = command_fingerprint P (in_command inp)
           \<and> validate_begin_input P inp = Inr ()"
proof -
  let ?s = "ticket_scope (in_method inp) (in_target inp) (in_key inp)"
  have idx: "index_ok P st" using ok by (simp add: store_ok_def)
  have scope_none: "map_get (scopes st1) ?s = None"
    if "prune_locked P cfg io st = (m, st1)" "map_get (scopes st) ?s = None" for m st1
  proof (rule ccontr)
    assume "map_get (scopes st1) ?s \<noteq> None"
    then obtain k where "map_get (scopes st1) ?s = Some k" by auto
    moreover have "index_ok P st1" using prune_locked_ok(1) [OF that(1) ok] by (simp add: store_ok_def)
    ultimately obtain t where "map_get (tickets st1) k = Some t" "t_scope t = ?s"
      using index_ok_ticket by blast
    with prune_locked_keeps [OF that(1) ok] index_ok_scope [OF idx] that(2) show False by force
  qed
  have new: "map_get (tickets st2) k = Some t"
    if "map_get (tickets st1) k = Some t" "map_get (tickets st1) (t_id n) = None"
      "tickets st2 = tickets st1 @ [(t_id n, n)]" for st1 st2 :: ticket_store and n t k
    using that by (auto simp: map_add_def)
  show "store_ok P cfg st'"
    using run idx
  proof (cases rule: begin_locked_cases)
    case (creating m st1)
    have "store_ok P cfg st1" using creating(1) ok by (rule prune_locked_ok)
    from create_ticket_cases [OF creating(2) this scope_none [OF creating(1,3)]] show ?thesis
      by cases auto
  qed (use ok prune_locked_ok in auto)
  show "recovery st' = recovery st"
    using run idx
  proof (cases rule: begin_locked_cases)
    case (creating m st1)
    have "store_ok P cfg st1" using creating(1) ok by (rule prune_locked_ok)
    from create_ticket_cases [OF creating(2) this scope_none [OF creating(1,3)]] show ?thesis
      by cases (use prune_locked_ok(3) [OF creating(1) ok] in auto)
  qed (use ok prune_locked_ok in auto)
  show "evolves cfg io st st'"
    using run idx
  proof (cases rule: begin_locked_cases)
    case (creating m st1)
    have ok1: "store_ok P cfg st1" using creating(1) ok by (rule prune_locked_ok)
    have ev: "evolves cfg io st st1" using creating(1) ok by (rule prune_locked_ok)
    from creating(2) ok1 scope_none [OF creating(1,3)] show ?thesis
    proof (cases rule: create_ticket_cases)
      case failed
      with ev show ?thesis by (simp add: evolves_def)
    next
      case created
      show ?thesis
        unfolding evolves_def
      proof (intro allI impI)
        fix k t
        assume t: "map_get (tickets st) k = Some t"
        show "case map_get (tickets st') k of
            Some u \<Rightarrow> u = t \<or> advances t u \<or> (retired cfg io t \<and> t_scope u \<noteq> t_scope t)
          | None \<Rightarrow> retired cfg io t"
        proof (cases "k = t_id (new_ticket P (io_stamp io) inp)")
          case False
          then have "map_get (tickets st') k = map_get (tickets st1) k"
            using created(2) by (auto simp: map_add_def split: option.splits)
          then show ?thesis using evolvesD [OF ev t] by simp
        next
          case True
          then have gone: "map_get (tickets st1) k = None" using created(3) by simp
          then have "retired cfg io t" using evolvesD [OF ev t] by simp
          moreover have "map_get (tickets st') k = Some (new_ticket P (io_stamp io) inp)"
            using created(2) True gone by (auto simp: map_add_def)
          moreover have "t_scope t \<noteq> ?s" using index_ok_scope [OF idx t] creating(3) by auto
          ultimately show ?thesis by simp
        qed
      qed
    qed
  qed (use ok prune_locked_ok in auto)
  show "map_get (tickets st') (t_id t) = Some t
           \<and> t_scope t = ticket_scope (in_method inp) (in_target inp) (in_key inp)
           \<and> t_fingerprint t = command_fingerprint P (in_command inp)
           \<and> validate_begin_input P inp = Inr ()" if r: "r = Inr t"
    using run idx
  proof (cases rule: begin_locked_cases)
    case (known k u)
    with r index_ok_id [OF idx known(2)] obtain v where "map_get (tickets st) k = Some v" "t_scope v = ?s"
      using index_ok_ticket [OF idx known(1)] by auto
    with known r index_ok_id [OF idx known(2)] show ?thesis by simp
  next
    case (creating m st1)
    have "store_ok P cfg st1" using creating(1) ok by (rule prune_locked_ok)
    from creating(2) this scope_none [OF creating(1,3)] show ?thesis
    proof (cases rule: create_ticket_cases)
      case created
      with r have t: "t = new_ticket P (io_stamp io) inp" by simp
      have "map_get (tickets st') (t_id t) = Some t"
        using created(2,3) unfolding t by (simp add: map_add_def del: new_ticket_facts)
      with t creating(4) show ?thesis by simp
    qed (use r in auto)
  qed (use r in auto)
qed

end
