(* ===== verification/Ledger.thy ===== *)
theory Ledger
  imports Prelude
begin

text \<open>
  The contract of a durable store of requests (the mutation tickets of \<open>src/tickets.ts\<close> keep it): a
  call keeps the store's invariant, and an entry it finds is left as it is, advanced, or dropped
  because its retention is over.  What follows of
  every sequence of calls is proved here once, for any store with that contract.
\<close>

locale ledger =
  fixes lookup :: "'st \<Rightarrow> 'k \<Rightarrow> 'e option"
    and live :: "'st \<Rightarrow> bool"
    and step :: "'c \<Rightarrow> 'st \<Rightarrow> 'st"
    and advance :: "'e \<Rightarrow> 'e \<Rightarrow> bool"
    and dropped :: "'c \<Rightarrow> 'e \<Rightarrow> bool"
  assumes live_step: "live st \<Longrightarrow> live (step c st)"
    and step_keeps: "live st \<Longrightarrow> lookup st k = Some e \<Longrightarrow> \<not> dropped c e \<Longrightarrow>
          \<exists>e'. lookup (step c st) k = Some e' \<and> (e' = e \<or> advance e e')"
begin

lemma live_run: "live st \<Longrightarrow> live (fold step cs st)"
  by (induction cs arbitrary: st) (auto simp: live_step)

lemma run_keeps:
  assumes "live st" and "lookup st k = Some e"
    and "\<And>i e'. i < length cs \<Longrightarrow> lookup (fold step (take i cs) st) k = Some e' \<Longrightarrow> \<not> dropped (cs ! i) e'"
  shows "\<exists>e'. lookup (fold step cs st) k = Some e' \<and> advance\<^sup>*\<^sup>* e e'"
  using assms
proof (induction cs arbitrary: st e)
  case Nil
  then show ?case by auto
next
  case (Cons c cs)
  have "\<not> dropped c e" using Cons.prems(3) [of 0 e] Cons.prems(2) by simp
  then obtain e1 where e1: "lookup (step c st) k = Some e1" "e1 = e \<or> advance e e1"
    using step_keeps [OF Cons.prems(1,2)] by blast
  have "\<exists>e'. lookup (fold step cs (step c st)) k = Some e' \<and> advance\<^sup>*\<^sup>* e1 e'"
  proof (rule Cons.IH [OF live_step [OF Cons.prems(1)] e1(1)])
    fix i e'
    assume "i < length cs" "lookup (fold step (take i cs) (step c st)) k = Some e'"
    then show "\<not> dropped (cs ! i) e'" using Cons.prems(3) [of "Suc i" e'] by simp
  qed
  with e1(2) show ?case by (auto intro: converse_rtranclp_into_rtranclp)
qed

text \<open>An entry that cannot advance is immutable until it is dropped.\<close>

lemma run_settled:
  assumes "live st" and "lookup st k = Some e" and "\<And>e'. \<not> advance e e'"
    and "\<And>c. c \<in> set cs \<Longrightarrow> \<not> dropped c e"
  shows "lookup (fold step cs st) k = Some e"
  using assms(1,2,4)
proof (induction cs arbitrary: st)
  case (Cons c cs)
  have "lookup (step c st) k = Some e"
    using step_keeps [OF Cons.prems(1,2), of c] Cons.prems(3) assms(3) by auto
  with Cons live_step show ?case by auto
qed simp

end

end
