(* ===== verification/TicketCalls.thy ===== *)
theory TicketCalls
  imports TicketLaws Ledger
begin

text \<open>
  Recovery of the ticket store from a directory of any content, and runs of its operations.  What
  \<open>TicketLaws\<close> proves of one operation is lifted to every sequence of calls.
\<close>

section \<open>Recovery establishes the invariant\<close>

lemma load_files_ok:
  assumes "load_files P cfg io names bytes st = (Inr u, st')"
    and "index_ok P st" and "disk_ok st"
  shows "index_ok P st' \<and> disk_ok st' \<and> length (tickets st') \<le> length (tickets st) + length names
    \<and> recovery st' = recovery st"
  using assms
proof (induction names arbitrary: bytes st)
  case Nil
  then show ?case by simp
next
  case (Cons name names)
  let ?file = "map_get (ticket_dir st) name"
  let ?size = "case state_file_size ?file of None \<Rightarrow> 0 | Some n \<Rightarrow> n"
  have fits: "\<not> ?size > max_record_bytes cfg" "\<not> bytes + ?size > max_recovery_bytes cfg"
    using Cons.prems(1) by (auto simp: Let_def split: if_splits)
  show ?case
  proof (cases "read_private_json_if_exists (current_uid P) ?file")
    case (Inl e)
    with Cons.prems(1) fits show ?thesis by (simp add: Let_def)
  next
    case (Inr content)
    show ?thesis
    proof (cases content)
      case None
      with Cons.prems(1) fits Inr
      have "load_files P cfg io names (bytes + ?size) st = (Inr u, st')" by (simp add: Let_def)
      from Cons.IH [OF this Cons.prems(2,3)] show ?thesis by auto
    next
      case (Some loaded)
      obtain v migrated where mig: "migrate_legacy_record P loaded = (v, migrated)"
        by (cases "migrate_legacy_record P loaded")
      let ?t = "ticket_of_json v"
      have valid: "validate_ticket_record P v = Inr ()" and name: "name = ticket_file (t_id ?t)"
        using Cons.prems(1) fits Inr Some mig
        by (auto simp: Let_def split: sum.splits if_splits)
      obtain r1 st1 where w: "(if migrated then ticket_write P cfg io (t_id ?t) v st else (Inr (), st)) = (r1, st1)"
        by (cases "if migrated then ticket_write P cfg io (t_id ?t) v st else (Inr (), st)")
      obtain w1 where r1: "r1 = Inr w1"
        using Cons.prems(1) fits Inr Some mig valid name w
        by (cases r1) (auto simp: Let_def)
      obtain r2 st2 where reg: "ticket_register ?t st1 = (r2, st2)"
        by (cases "ticket_register ?t st1")
      obtain w2 where r2: "r2 = Inr w2"
        using Cons.prems(1) fits Inr Some mig valid name w r1 reg
        by (cases r2) (auto simp: Let_def)
      have rest: "load_files P cfg io names (bytes + ?size) st2 = (Inr u, st')"
        using Cons.prems(1) fits Inr Some mig valid name w r1 reg r2 by (simp add: Let_def)
      have st1: "tickets st1 = tickets st" "scopes st1 = scopes st" "recovery st1 = recovery st"
        using w by (auto split: if_splits dest: ticket_write_frame)
      have idx1: "index_ok P st1" using Cons.prems(2) st1 by (simp add: index_ok_def)
      note R = ticket_register_ok [OF reg [unfolded r2] idx1]
      have own: "\<exists>f. map_get (ticket_dir st1) (ticket_file (t_id ?t)) = Some f \<and> file_text f = JsonText v"
      proof (cases migrated)
        case True
        with w r1 show ?thesis by (auto dest: ticket_write_ok simp: published_file_def)
      next
        case False
        then have "st1 = st" "loaded = v" using w mig
          by (auto simp: migrate_legacy_record_def Let_def split: option.splits if_splits)
        with Inr Some name show ?thesis
          by (auto simp: read_private_json_if_exists_def split: option.splits sum.splits file_text.splits)
      qed
      have disk1: "disk_ok st1"
      proof (cases migrated)
        case True
        with w r1 have "st1 = st\<lparr>ticket_dir := map_set (ticket_dir st) (ticket_file (t_id ?t))
            (published_file (current_uid P) v)\<rparr>" by (auto dest: ticket_write_ok)
        with disk_ok_write_fresh [OF Cons.prems(3,2)] R(5) st1 show ?thesis by simp
      next
        case False
        with w Cons.prems(3) show ?thesis by simp
      qed
      have "on_disk st2 t" if t: "map_get (tickets st2) k = Some t" for k t
      proof (cases "t = ?t")
        case True
        with own R(2) show ?thesis by (auto simp: on_disk_def)
      next
        case False
        with t R(4) have "map_get (tickets st1) k = Some t"
          by (auto simp: map_add_def split: option.splits if_splits)
        with disk1 R(2) show ?thesis by (auto simp: disk_ok_def on_disk_def)
      qed
      then have "disk_ok st2" by (simp add: disk_ok_def)
      from Cons.IH [OF rest R(1) this] R(3,4) st1 show ?thesis by simp
    qed
  qed
qed

lemma interrupt_running_ok:
  assumes "interrupt_running P cfg io ts st = (r, st')" and "store_ok P cfg st"
    and "distinct (List.map t_id ts)" and "\<And>t. t \<in> set ts \<Longrightarrow> map_get (tickets st) (t_id t) = Some t"
  shows "store_ok P cfg st' \<and> recovery st' = recovery st
    \<and> (\<forall>k. k \<notin> t_id ` set ts \<longrightarrow> map_get (tickets st') k = map_get (tickets st) k)
    \<and> (\<forall>u. r = Inr u \<longrightarrow> (\<forall>t \<in> set ts. map_get (tickets st') (t_id t)
          = Some (if t_state t = Running then next_ticket P io Indeterminate NoPatch t else t)))"
  using assms
proof (induction ts arbitrary: st)
  case Nil
  then show ?case by simp
next
  case (Cons t ts)
  have dist: "distinct (List.map t_id ts)" and fresh: "t_id t \<notin> t_id ` set ts"
    using Cons.prems(3) by auto
  have t: "map_get (tickets st) (t_id t) = Some t" using Cons.prems(4) by simp
  show ?case
  proof (cases "t_state t = Running")
    case False
    then have run: "interrupt_running P cfg io ts st = (r, st')" using Cons.prems(1) by simp
    have vals: "map_get (tickets st) (t_id v) = Some v" if "v \<in> set ts" for v
      using that Cons.prems(4) by simp
    from Cons.IH [OF run Cons.prems(2) dist vals] fresh t False show ?thesis by auto
  next
    case True
    obtain r1 st1 where tr: "transition_locked P cfg io t Indeterminate NoPatch True st = (r1, st1)"
      by (cases "transition_locked P cfg io t Indeterminate NoPatch True st")
    note ok1 = transition_locked_ok [OF Cons.prems(2) t tr]
    have keep: "map_get (tickets st1) k = map_get (tickets st) k" if "k \<noteq> t_id t" for k
      using tr that by (cases rule: transition_locked_cases) auto
    show ?thesis
    proof (cases r1)
      case (Inl e)
      with Cons.prems(1) tr True have "r = Inl e" "st' = st1" by auto
      with ok1 keep show ?thesis by auto
    next
      case (Inr n)
      with Cons.prems(1) tr True have run: "interrupt_running P cfg io ts st1 = (r, st')" by simp
      have vals: "map_get (tickets st1) (t_id v) = Some v" if "v \<in> set ts" for v
        using that Cons.prems(4) keep fresh by (metis image_eqI list.set_intros(2))
      have moved: "map_get (tickets st1) (t_id t) = Some (next_ticket P io Indeterminate NoPatch t)"
        using tr Inr True by (cases rule: transition_locked_cases) auto
      from Cons.IH [OF run ok1(1) dist vals] ok1(3) moved keep fresh True show ?thesis by auto
    qed
  qed
qed

lemma ticket_load_ok:
  assumes run: "ticket_load P cfg io st = (Inr rec, st')"
  shows "store_ok P cfg st'" and "recovery st' = recovery st"
proof -
  let ?st = "st\<lparr>tickets := [], scopes := []\<rparr>" and ?names = "json_file_names (ticket_dir st)"
  have len: "\<not> length ?names > max_tickets cfg"
    using run by (auto simp: ticket_load_def Let_def split: sum.splits if_splits)
  obtain r1 st1 where l: "load_files P cfg io ?names 0 ?st = (r1, st1)"
    by (cases "load_files P cfg io ?names 0 ?st")
  obtain u1 where r1: "r1 = Inr u1"
    using run len l by (cases r1) (auto simp: ticket_load_def Let_def split: sum.splits)
  obtain r2 st2 where i: "interrupt_running P cfg io (map_vals (tickets st1)) st1 = (r2, st2)"
    by (cases "interrupt_running P cfg io (map_vals (tickets st1)) st1")
  obtain u2 where r2: "r2 = Inr u2"
    using run len l r1 i by (cases r2) (auto simp: ticket_load_def Let_def split: sum.splits)
  obtain r3 st3 where p: "prune_locked P cfg io st2 = (r3, st3)"
    by (cases "prune_locked P cfg io st2")
  have st': "st' = st3"
    using run len l r1 i r2 p by (cases r3) (auto simp: ticket_load_def Let_def split: sum.splits)
  have empty: "index_ok P ?st" "disk_ok ?st"
    by (simp_all add: index_ok_def disk_ok_def)
  from load_files_ok [OF l [unfolded r1] empty] len
  have ok1: "store_ok P cfg st1" and rec1: "recovery st1 = recovery st"
    by (auto simp: store_ok_def)
  have idx: "index_ok P st1" using ok1 by (simp add: store_ok_def)
  have "distinct (List.map t_id (map_vals (tickets st1)))"
    unfolding index_ok_keys [OF idx] using index_ok_maps(1) [OF idx] by (simp add: js_map_def)
  from interrupt_running_ok [OF i ok1 this index_ok_val [OF idx]]
  have ok2: "store_ok P cfg st2" and rec2: "recovery st2 = recovery st1" by auto
  from prune_locked_ok(1,3) [OF p ok2] st' rec1 rec2
  show "store_ok P cfg st'" and "recovery st' = recovery st" by auto
qed

section \<open>Calls\<close>

datatype ticket_call =
    CallRecover
  | CallBegin begin_input
  | CallGet string
  | CallGetByKey string string string
  | CallMarkRunning string
  | CallMarkSucceeded string "json option"
  | CallMarkFailed string api_error
  | CallReconcile string reconcile_outcome
  | CallPrune

text \<open>The store after one call, whatever the call returned or threw.\<close>

fun perform :: "platform \<Rightarrow> ticket_config \<Rightarrow> ticket_io \<Rightarrow> ticket_call \<Rightarrow> ticket_store \<Rightarrow> ticket_store" where
  "perform P cfg io CallRecover st = snd (ticket_recover P cfg io st)"
| "perform P cfg io (CallBegin inp) st = snd (ticket_begin P cfg io inp st)"
| "perform P cfg io (CallGet k) st = snd (ticket_get P cfg io k st)"
| "perform P cfg io (CallGetByKey m t k) st = snd (ticket_get_by_idempotency P cfg io m t k st)"
| "perform P cfg io (CallMarkRunning k) st = snd (mark_running P cfg io k st)"
| "perform P cfg io (CallMarkSucceeded k r) st = snd (mark_succeeded P cfg io k r st)"
| "perform P cfg io (CallMarkFailed k e) st = snd (mark_failed P cfg io k e st)"
| "perform P cfg io (CallReconcile k out) st = snd (ticket_reconcile P cfg io k out st)"
| "perform P cfg io CallPrune st = snd (ticket_prune P cfg io st)"

text \<open>A store whose recovery fulfilled, with the invariant.\<close>

definition live :: "platform \<Rightarrow> ticket_config \<Rightarrow> ticket_store \<Rightarrow> bool" where
  "live P cfg st \<longleftrightarrow> store_ok P cfg st \<and> (\<exists>rec. recovery st = Some (Inr rec))"

lemma recovered_then_live:
  "recovery st = Some (Inr rec) \<Longrightarrow> recovered_then P cfg io op st = op st"
  by (simp add: recovered_then_def ticket_recover_def)

lemma ticket_transition_live:
  assumes "live P cfg st" and "ticket_transition P cfg io k to patch st = (r, st')"
  shows "store_ok P cfg st'" and "evolves cfg io st st'" and "recovery st' = recovery st"
proof -
  obtain rec where rec: "recovery st = Some (Inr rec)" and ok: "store_ok P cfg st"
    using assms(1) by (auto simp: live_def)
  have run: "(case map_get (tickets st) k of
      None \<Rightarrow> (Inl (ticket_error ''ticket_not_found''), st)
    | Some cur \<Rightarrow> transition_locked P cfg io cur to patch False st) = (r, st')"
    using assms(2) rec by (simp add: ticket_transition_def recovered_then_live)
  have "store_ok P cfg st' \<and> evolves cfg io st st' \<and> recovery st' = recovery st"
  proof (cases "map_get (tickets st) k")
    case None
    with run ok show ?thesis by auto
  next
    case (Some cur)
    have "index_ok P st" using ok by (simp add: store_ok_def)
    then have "t_id cur = k" using Some by (rule index_ok_id)
    with Some run transition_locked_ok [OF ok, of cur io to patch False r st'] show ?thesis by auto
  qed
  then show "store_ok P cfg st'" "evolves cfg io st st'" "recovery st' = recovery st" by auto
qed

text \<open>A transition followed by pruning still only advances tickets or retires them.\<close>

lemma evolves_prune:
  assumes tr: "ticket_transition P cfg io k to patch st = (r, st1)" and live: "live P cfg st"
    and pr: "prune_locked P cfg io st1 = (r', st')"
  shows "evolves cfg io st st'"
  unfolding evolves_def
proof (intro allI impI)
  fix j t
  assume t: "map_get (tickets st) j = Some t"
  have ok1: "store_ok P cfg st1" using ticket_transition_live [OF live tr] by blast
  have idx: "index_ok P st" using live by (simp add: live_def store_ok_def)
  obtain rec where rec: "recovery st = Some (Inr rec)" and ok: "store_ok P cfg st"
    using live by (auto simp: live_def)
  have step: "\<exists>u. map_get (tickets st1) j = Some u
      \<and> (u = t \<or> (advances t u \<and> t_updated_at u = to_iso (io_stamp io)))"
  proof (cases "map_get (tickets st) k")
    case None
    with tr rec t show ?thesis
      by (auto simp: ticket_transition_def recovered_then_live)
  next
    case (Some cur)
    have id: "t_id cur = k" using idx Some by (rule index_ok_id)
    have "transition_locked P cfg io cur to patch False st = (r, st1)"
      using tr rec Some by (simp add: ticket_transition_def recovered_then_live)
    then show ?thesis
    proof (cases rule: transition_locked_cases)
      case moved
      have "advances cur (next_ticket P io to patch cur)"
        using moved(2) by (auto simp: advances_def dest: allowed_reconciling)
      with moved(3) t Some id show ?thesis by auto
    qed (use t in auto)
  qed
  then obtain u where u: "map_get (tickets st1) j = Some u"
    "u = t \<or> (advances t u \<and> t_updated_at u = to_iso (io_stamp io))" by blast
  from prune_locked_ok(2) [OF pr ok1] have "evolves cfg io st1 st'" .
  note ev = evolvesD [OF this u(1)]
  have keep: "v = u" if "map_get (tickets st') j = Some v" for v
    using prune_locked_keeps [OF pr ok1 that] u(1) by simp
  have gone: "retired cfg io t" if none: "map_get (tickets st') j = None"
  proof -
    have idx1: "index_ok P st1" using ok1 by (simp add: store_ok_def)
    have vals: "map_get (tickets st1) (t_id v) = Some v"
      if "v \<in> set (expired_tickets P cfg (io_now io) st1)" for v
      using idx1 expired_ticketsD(3) [OF that] by (rule index_ok_val)
    have "j \<in> t_id ` set (expired_tickets P cfg (io_now io) st1)"
      using remove_expired_ok [OF pr [unfolded prune_locked_def] ok1 expired_distinct [OF idx1] vals]
        none u(1) by (metis option.distinct(1))
    then obtain v where "v \<in> set (expired_tickets P cfg (io_now io) st1)" "j = t_id v" by auto
    with vals u(1) have "is_terminal (t_state u) \<and> ticket_expired cfg (io_now io) u"
      using expired_ticketsD(1,2) by (metis option.inject)
    with u(2) show ?thesis by (auto simp: retired_def ticket_expired_def simp del: is_terminal.simps)
  qed
  show "case map_get (tickets st') j of
      Some u \<Rightarrow> u = t \<or> advances t u \<or> (retired cfg io t \<and> t_scope u \<noteq> t_scope t)
    | None \<Rightarrow> retired cfg io t"
    using keep gone u(2) by (cases "map_get (tickets st') j") auto
qed

lemma settle_ticket_live:
  assumes "live P cfg st" and run: "settle_ticket P cfg io k to patch st = (r, st')"
  shows "store_ok P cfg st' \<and> evolves cfg io st st' \<and> recovery st' = recovery st"
proof -
  obtain r1 st1 where tr: "ticket_transition P cfg io k to patch st = (r1, st1)"
    by (cases "ticket_transition P cfg io k to patch st")
  note L = ticket_transition_live [OF assms(1) tr]
  show ?thesis
  proof (cases r1)
    case (Inl e)
    with run tr have "st' = st1" by (simp add: settle_ticket_def)
    with L show ?thesis by simp
  next
    case (Inr t)
    obtain rec where rec1: "recovery st1 = Some (Inr rec)"
      using assms(1) L(3) by (auto simp: live_def)
    obtain r2 st2 where pr: "prune_locked P cfg io st1 = (r2, st2)"
      by (cases "prune_locked P cfg io st1")
    have "st' = st2"
      using run tr Inr pr rec1
      by (cases r2) (auto simp: settle_ticket_def ticket_prune_def recovered_then_live)
    with prune_locked_ok(1,3) [OF pr L(1)] evolves_prune [OF tr assms(1) pr] L(3) show ?thesis by simp
  qed
qed

lemma perform_live:
  assumes "live P cfg st"
  shows "live P cfg (perform P cfg io call st)
    \<and> evolves cfg io st (perform P cfg io call st)"
proof -
  obtain rec where rec: "recovery st = Some (Inr rec)" and ok: "store_ok P cfg st"
    using assms by (auto simp: live_def)
  have settle: "live P cfg (snd (settle_ticket P cfg io k to patch st))
      \<and> evolves cfg io st (snd (settle_ticket P cfg io k to patch st))" for k to patch
    using settle_ticket_live [OF assms, of io k to patch] rec
    by (cases "settle_ticket P cfg io k to patch st") (auto simp: live_def)
  show ?thesis
  proof (cases call)
    case CallRecover
    with assms rec show ?thesis by (simp add: ticket_recover_def)
  next
    case (CallBegin inp)
    obtain r st' where run: "begin_locked P cfg io inp st = (r, st')"
      by (cases "begin_locked P cfg io inp st")
    from begin_locked_ok(1-3) [OF run ok] run CallBegin rec show ?thesis
      by (auto simp: ticket_begin_def recovered_then_live live_def)
  next
    case (CallMarkRunning k)
    obtain r st' where run: "ticket_transition P cfg io k Running NoPatch st = (r, st')"
      by (cases "ticket_transition P cfg io k Running NoPatch st")
    from ticket_transition_live [OF assms run] run CallMarkRunning rec show ?thesis
      by (auto simp: mark_running_def live_def)
  next
    case (CallReconcile k out)
    show ?thesis
    proof (cases "map_get (tickets st) k")
      case None
      with CallReconcile rec assms show ?thesis
        by (simp add: ticket_reconcile_def recovered_then_live)
    next
      case (Some cur)
      have "index_ok P st" using ok by (simp add: store_ok_def)
      then have id: "t_id cur = k" using Some by (rule index_ok_id)
      obtain r st' where run: "transition_locked P cfg io cur (reconcile_state out)
          (reconcile_patch out) True st = (r, st')"
        by (cases "transition_locked P cfg io cur (reconcile_state out) (reconcile_patch out) True st")
      from transition_locked_ok [OF ok _ run] Some id run CallReconcile rec assms show ?thesis
        by (auto simp: ticket_reconcile_def recovered_then_live live_def)
    qed
  next
    case CallPrune
    obtain r st' where run: "prune_locked P cfg io st = (r, st')"
      by (cases "prune_locked P cfg io st")
    from prune_locked_ok(1-3) [OF run ok] run CallPrune rec show ?thesis
      by (auto simp: ticket_prune_def recovered_then_live live_def)
  qed (use assms rec settle in \<open>auto simp: ticket_get_def ticket_get_by_idempotency_def
        recovered_then_live mark_succeeded_def mark_failed_def\<close>)
qed

section \<open>The store as a ledger\<close>

text \<open>One step of a run: a call and what it awaits from its environment.\<close>

definition ticket_step :: "platform \<Rightarrow> ticket_config \<Rightarrow> ticket_io \<times> ticket_call \<Rightarrow> ticket_store \<Rightarrow> ticket_store" where
  "ticket_step P cfg c st = perform P cfg (fst c) (snd c) st"

definition ticket_lookup :: "ticket_store \<Rightarrow> string \<Rightarrow> ticket option" where
  "ticket_lookup st k = map_get (tickets st) k"

definition retired_by :: "ticket_config \<Rightarrow> ticket_io \<times> ticket_call \<Rightarrow> ticket \<Rightarrow> bool" where
  "retired_by cfg c t = retired cfg (fst c) t"

interpretation ticket_ledger:
  ledger ticket_lookup "live P cfg" "ticket_step P cfg" advances "retired_by cfg"
  for P :: platform and cfg :: ticket_config
proof
  show "live P cfg (ticket_step P cfg c st)" if "live P cfg st" for c st
    using perform_live [OF that] by (simp add: ticket_step_def)
  show "\<exists>u. ticket_lookup (ticket_step P cfg c st) k = Some u \<and> (u = t \<or> advances t u)"
    if "live P cfg st" "ticket_lookup st k = Some t" "\<not> retired_by cfg c t" for c st k t
    using evolvesD [OF conjunct2 [OF perform_live [OF that(1)]], of k t "fst c" "snd c"] that(2,3)
    by (auto simp: ticket_lookup_def ticket_step_def retired_by_def split: option.splits)
qed

definition ticket_run :: "platform \<Rightarrow> ticket_config \<Rightarrow> (ticket_io \<times> ticket_call) list \<Rightarrow> ticket_store \<Rightarrow> ticket_store" where
  "ticket_run P cfg cs st = fold (ticket_step P cfg) cs st"

lemma recover_live:
  assumes "ticket_recover P cfg io (empty_ticket_store dir) = (Inr rec, st)"
  shows "live P cfg st"
proof -
  obtain st1 where l: "ticket_load P cfg io (empty_ticket_store dir) = (Inr rec, st1)"
    and st: "st = st1\<lparr>recovery := Some (Inr rec)\<rparr>"
    using assms by (auto simp: ticket_recover_def empty_ticket_store_def split: prod.splits)
  from ticket_load_ok(1) [OF l] st show ?thesis
    by (auto simp: live_def store_ok_def disk_ok_def on_disk_def)
qed

lemma settled_no_advance:
  "t_state t = Succeeded \<or> t_state t = Failed \<Longrightarrow> \<not> advances t u"
  by (auto simp: advances_def)

lemma advances_same: "advances\<^sup>*\<^sup>* t u \<Longrightarrow> same_identity t u"
  by (induction rule: rtranclp_induct) (auto simp: advances_def same_identity_def)

end
