(* ===== verification/TicketProps.thy ===== *)
theory TicketProps
  imports TicketCalls
begin

text \<open>
  What a user of the ticket store relies on: the invariant over any run, the immutability of settled
  tickets, idempotent admission, exact pruning, recovery after a crash, and the independence of the
  fingerprint from the request identifier and the order of keys.
\<close>

section \<open>What validation of a record guarantees of the ticket\<close>

definition sound_ticket :: "platform \<Rightarrow> ticket \<Rightarrow> bool" where
  "sound_ticket P t \<longleftrightarrow>
     is_mutation_command P (t_command t)
     \<and> length (split_on newline (t_scope t)) = 3
     \<and> t_id t = mutation_ticket_id P (t_scope t)
     \<and> t_fingerprint t = command_fingerprint P (t_command t)"

definition sound_store :: "platform \<Rightarrow> ticket_store \<Rightarrow> bool" where
  "sound_store P st \<longleftrightarrow> (\<forall>k t. map_get (tickets st) k = Some t \<longrightarrow> sound_ticket P t)"

lemma sound_storeD: "sound_store P st \<Longrightarrow> map_get (tickets st) k = Some t \<Longrightarrow> sound_ticket P t"
  unfolding sound_store_def by blast

lemma valid_record_sound: "valid_ticket_record P v \<Longrightarrow> sound_ticket P (ticket_of_json v)"
  by (auto simp: valid_ticket_record_def sound_ticket_def ticket_of_json_def Let_def
      simp del: is_terminal.simps split: option.splits)

lemma valid_ticket_sound: "valid_ticket_record P (ticket_json t) \<Longrightarrow> sound_ticket P t"
  using valid_record_sound [of P "ticket_json t"] by (simp add: ticket_round_trip)

lemma same_identity_sound: "same_identity t u \<Longrightarrow> sound_ticket P u \<longleftrightarrow> sound_ticket P t"
  by (simp add: same_identity_def sound_ticket_def)

lemma transition_locked_sound:
  assumes "transition_locked P cfg io cur to patch rc st = (r, st')" and "sound_store P st"
    and "map_get (tickets st) (t_id cur) = Some cur"
  shows "sound_store P st'"
  using assms(1)
proof (cases rule: transition_locked_cases)
  case moved
  have "sound_ticket P (next_ticket P io to patch cur)"
    using sound_storeD [OF assms(2,3)] same_identity_sound [OF next_ticket_facts(4)] by blast
  with moved(3) assms(2) show ?thesis by (auto simp: sound_store_def split: if_splits)
qed (use assms(2) in \<open>auto simp: sound_store_def\<close>)

lemma prune_locked_sound:
  assumes "prune_locked P cfg io st = (r, st')" and "store_ok P cfg st" and "sound_store P st"
  shows "sound_store P st'"
  using assms(3) prune_locked_keeps [OF assms(1,2)] by (auto simp: sound_store_def)

lemma begin_locked_scope_free:
  assumes "prune_locked P cfg io st = (m, st1)" and "store_ok P cfg st"
    and "map_get (scopes st) s = None"
  shows "map_get (scopes st1) s = None"
proof (rule ccontr)
  assume "map_get (scopes st1) s \<noteq> None"
  then obtain k where k: "map_get (scopes st1) s = Some k" by auto
  have "index_ok P st1" using prune_locked_ok(1) [OF assms(1,2)] by (simp add: store_ok_def)
  from index_ok_ticket [OF this k] obtain t where t: "map_get (tickets st1) k = Some t" "t_scope t = s"
    by auto
  have "index_ok P st" using assms(2) by (simp add: store_ok_def)
  from index_ok_scope [OF this prune_locked_keeps [OF assms(1,2) t(1)]] t(2) assms(3)
  show False by simp
qed

lemma begin_locked_sound:
  assumes run: "begin_locked P cfg io inp st = (r, st')" and ok: "store_ok P cfg st"
    and sound: "sound_store P st"
  shows "sound_store P st'"
proof -
  have idx: "index_ok P st" using ok by (simp add: store_ok_def)
  show ?thesis
    using run idx
  proof (cases rule: begin_locked_cases)
    case (pruning e)
    from prune_locked_sound [OF pruning(1) ok sound] show ?thesis .
  next
    case (creating m st1)
    have sound1: "sound_store P st1" by (rule prune_locked_sound [OF creating(1) ok sound])
    have ok1: "store_ok P cfg st1" by (rule prune_locked_ok(1) [OF creating(1) ok])
    from creating(2) ok1 begin_locked_scope_free [OF creating(1) ok creating(3)] show ?thesis
    proof (cases rule: create_ticket_cases)
      case failed
      with sound1 show ?thesis by (simp add: sound_store_def)
    next
      case created
      have "sound_ticket P (new_ticket P (io_stamp io) inp)" by (rule valid_ticket_sound [OF created(4)])
      with created(2) sound1 show ?thesis
        by (auto simp: sound_store_def map_add_def split: option.splits if_splits)
    qed
  qed (use sound in auto)
qed

lemma settle_ticket_sound:
  assumes live: "live P cfg st" and sound: "sound_store P st"
    and run: "settle_ticket P cfg io k to patch st = (r, st')"
  shows "sound_store P st'"
proof -
  obtain rec where rec: "recovery st = Some (Inr rec)" and ok: "store_ok P cfg st"
    using live by (auto simp: live_def)
  have idx: "index_ok P st" using ok by (simp add: store_ok_def)
  obtain r1 st1 where tr: "ticket_transition P cfg io k to patch st = (r1, st1)"
    by (cases "ticket_transition P cfg io k to patch st")
  note L = ticket_transition_live [OF live tr]
  have s1: "sound_store P st1"
  proof (cases "map_get (tickets st) k")
    case None
    with tr rec sound show ?thesis by (simp add: ticket_transition_def recovered_then_live)
  next
    case (Some cur)
    have "transition_locked P cfg io cur to patch False st = (r1, st1)"
      using tr rec Some by (simp add: ticket_transition_def recovered_then_live)
    from transition_locked_sound [OF this sound] Some index_ok_id [OF idx Some] show ?thesis by simp
  qed
  obtain r2 st2 where pr: "prune_locked P cfg io st1 = (r2, st2)" by (cases "prune_locked P cfg io st1")
  have "st' = st1 \<or> st' = st2"
    using run tr pr rec L(3)
    by (cases r1; cases r2) (auto simp: settle_ticket_def ticket_prune_def recovered_then_live)
  with s1 prune_locked_sound [OF pr L(1) s1] show ?thesis by auto
qed

lemma perform_sound:
  assumes live: "live P cfg st" and sound: "sound_store P st"
  shows "sound_store P (perform P cfg io call st)"
proof -
  obtain rec where rec: "recovery st = Some (Inr rec)" and ok: "store_ok P cfg st"
    using live by (auto simp: live_def)
  have idx: "index_ok P st" using ok by (simp add: store_ok_def)
  have settle: "sound_store P (snd (settle_ticket P cfg io k to patch st))" for k to patch
    using settle_ticket_sound [OF live sound, of io k to patch]
    by (cases "settle_ticket P cfg io k to patch st") auto
  have trans: "sound_store P (snd (transition_locked P cfg io cur to patch rc st))"
    if "map_get (tickets st) k = Some cur" for k cur to patch rc
    using transition_locked_sound [OF _ sound, of cfg io cur to patch rc] that index_ok_id [OF idx that]
    by (cases "transition_locked P cfg io cur to patch rc st") auto
  show ?thesis
  proof (cases call)
    case CallRecover
    with rec sound show ?thesis by (simp add: ticket_recover_def)
  next
    case (CallBegin inp)
    obtain r st' where run: "begin_locked P cfg io inp st = (r, st')"
      by (cases "begin_locked P cfg io inp st")
    from begin_locked_sound [OF run ok sound] run CallBegin rec show ?thesis
      by (simp add: ticket_begin_def recovered_then_live)
  next
    case (CallMarkRunning k)
    with rec sound trans show ?thesis
      by (auto simp: mark_running_def ticket_transition_def recovered_then_live split: option.splits)
  next
    case (CallReconcile k out)
    with rec sound trans show ?thesis
      by (auto simp: ticket_reconcile_def recovered_then_live split: option.splits)
  next
    case CallPrune
    obtain r st' where run: "prune_locked P cfg io st = (r, st')"
      by (cases "prune_locked P cfg io st")
    from prune_locked_sound [OF run ok sound] run CallPrune rec show ?thesis
      by (simp add: ticket_prune_def recovered_then_live)
  qed (use rec sound settle in \<open>auto simp: ticket_get_def ticket_get_by_idempotency_def
        recovered_then_live mark_succeeded_def mark_failed_def\<close>)
qed

section \<open>Everything on disk is in memory after recovery\<close>

text \<open>One file that was read, in a loading that succeeds.\<close>

lemma load_files_step:
  assumes run: "load_files P cfg io (name # names) bytes st = (Inr u, st')"
    and f: "map_get (ticket_dir st) name = Some f" and v: "file_text f = JsonText v"
    and w: "w = ticket_of_json (fst (migrate_legacy_record P v))"
  obtains st2 where "load_files P cfg io names (bytes + file_size f) st2 = (Inr u, st')"
    and "file_size f \<le> max_record_bytes cfg" and "name = ticket_file (t_id w)"
    and "valid_ticket_record P (fst (migrate_legacy_record P v))"
    and "map_get (tickets st) (t_id w) = None"
    and "tickets st2 = tickets st @ [(t_id w, w)]"
    and "\<forall>n. n \<noteq> name \<longrightarrow> map_get (ticket_dir st2) n = map_get (ticket_dir st) n"
    and "map_get (ticket_dir st2) name = Some f \<or> map_get (ticket_dir st2) name
           = Some (published_file (current_uid P) (fst (migrate_legacy_record P v)))"
proof -
  obtain x migrated where mig: "migrate_legacy_record P v = (x, migrated)"
    by (cases "migrate_legacy_record P v")
  let ?w = "ticket_of_json x"
  have wx: "w = ?w" using w mig by simp
  have fits: "\<not> file_size f > max_record_bytes cfg" "\<not> bytes + file_size f > max_recovery_bytes cfg"
    using run f by (auto simp: Let_def state_file_size_def split: if_splits)
  have read: "read_private_json_if_exists (current_uid P) (Some f) = Inr (Some v)"
    using run f fits v
    by (auto simp: Let_def state_file_size_def read_private_json_if_exists_def
        simp del: validate_private_file_ok split: sum.splits)
  have valid: "validate_ticket_record P x = Inr ()" and name: "name = ticket_file (t_id ?w)"
    using run f fits read mig
    by (auto simp: Let_def state_file_size_def split: sum.splits if_splits)
  obtain r1 st1 where wr: "(if migrated then ticket_write P cfg io (t_id ?w) x st else (Inr (), st)) = (r1, st1)"
    by (cases "if migrated then ticket_write P cfg io (t_id ?w) x st else (Inr (), st)")
  obtain w1 where r1: "r1 = Inr w1"
    using run f fits read mig valid name wr
    by (cases r1) (auto simp: Let_def state_file_size_def)
  obtain r2 st2 where reg: "ticket_register ?w st1 = (r2, st2)" by (cases "ticket_register ?w st1")
  have size: "(case state_file_size (map_get (ticket_dir st) name) of None \<Rightarrow> 0 | Some n \<Rightarrow> n) = file_size f"
    using f by (simp add: state_file_size_def)
  have body: "load_files P cfg io (name # names) bytes st
    = (case r2 of Inl e \<Rightarrow> (Inl e, st2)
       | Inr _ \<Rightarrow> load_files P cfg io names (bytes + file_size f) st2)"
    using f fits read mig valid wr r1 reg name unfolding load_files.simps Let_def size
    by simp
  obtain w2 where r2: "r2 = Inr w2" using body run by (cases r2) auto
  have rest: "load_files P cfg io names (bytes + file_size f) st2 = (Inr u, st')"
    using body run r2 by simp
  have st1: "tickets st1 = tickets st" using wr by (auto split: if_splits dest: ticket_write_frame)
  have none: "map_get (tickets st1) (t_id w) = None"
    and st2: "st2 = st1\<lparr>tickets := map_set (tickets st1) (t_id w) w,
                       scopes := map_set (scopes st1) (t_scope w) (t_id w)\<rparr>"
    using reg r2 unfolding wx by (auto simp: ticket_register_def split: if_splits)
  have "\<forall>n. n \<noteq> name \<longrightarrow> map_get (ticket_dir st2) n = map_get (ticket_dir st) n"
    using st2 wr r1 name by (auto split: if_splits dest: ticket_write_ok)
  moreover have "map_get (ticket_dir st2) name = Some f \<or> map_get (ticket_dir st2) name
      = Some (published_file (current_uid P) (fst (migrate_legacy_record P v)))"
    using st2 wr r1 name f mig by (auto split: if_splits dest: ticket_write_ok)
  ultimately show thesis using rest fits name [folded wx] valid none st1 st2
    by (intro that [of st2]) (auto simp: map_set_absent validate_ticket_record_def mig)
qed

lemma load_files_text:
  assumes "load_files P cfg io (name # names) bytes st = (Inr u, st')"
    and "map_get (ticket_dir st) name = Some f"
  obtains v where "file_text f = JsonText v"
  using assms
  by (cases "file_text f")
     (auto simp: Let_def state_file_size_def read_private_json_if_exists_def
       simp del: validate_private_file_ok split: sum.splits if_splits)

lemma load_files_keep:
  assumes "load_files P cfg io names bytes st = (Inr u, st')" and "distinct names"
    and "\<And>n. n \<in> set names \<Longrightarrow> map_has (ticket_dir st) n"
    and "sound_store P st"
  shows "sound_store P st'
    \<and> (\<forall>k t. map_get (tickets st) k = Some t \<longrightarrow> map_get (tickets st') k = Some t)
    \<and> (\<forall>n f v. n \<in> set names \<longrightarrow> map_get (ticket_dir st) n = Some f \<longrightarrow> file_text f = JsonText v \<longrightarrow>
         (let w = ticket_of_json (fst (migrate_legacy_record P v)) in
          file_size f \<le> max_record_bytes cfg \<and> n = ticket_file (t_id w)
          \<and> map_get (tickets st') (t_id w) = Some w))"
  using assms
proof (induction names arbitrary: bytes st)
  case Nil
  then show ?case by simp
next
  case (Cons n ns)
  obtain f where f: "map_get (ticket_dir st) n = Some f" using Cons.prems(3) [of n] by auto
  obtain v where v: "file_text f = JsonText v" by (rule load_files_text [OF Cons.prems(1) f])
  define w where "w = ticket_of_json (fst (migrate_legacy_record P v))"
  obtain st2 where step: "load_files P cfg io ns (bytes + file_size f) st2 = (Inr u, st')"
      "file_size f \<le> max_record_bytes cfg" "n = ticket_file (t_id w)"
      "valid_ticket_record P (fst (migrate_legacy_record P v))"
      "map_get (tickets st) (t_id w) = None"
      "tickets st2 = tickets st @ [(t_id w, w)]"
      "\<forall>m. m \<noteq> n \<longrightarrow> map_get (ticket_dir st2) m = map_get (ticket_dir st) m"
    by (rule load_files_step [OF Cons.prems(1) f v w_def])
  have dir: "map_get (ticket_dir st2) m = map_get (ticket_dir st) m" if "m \<in> set ns" for m
    using step(7) that Cons.prems(2) by auto
  have "sound_ticket P w" using valid_record_sound [OF step(4)] by (simp add: w_def)
  with step(6) Cons.prems(4) have sound2: "sound_store P st2"
    by (auto simp: sound_store_def map_add_def split: option.splits if_splits)
  have files: "map_has (ticket_dir st2) m" if "m \<in> set ns" for m
    using dir [OF that] Cons.prems(3) that by simp
  have dist: "distinct ns" using Cons.prems(2) by simp
  note IH = Cons.IH [OF step(1) dist files sound2]
  have old: "map_get (tickets st2) k = Some t" if "map_get (tickets st) k = Some t" for k t
    using that step(5,6) by (auto simp: map_add_def)
  have new: "map_get (tickets st2) (t_id w) = Some w"
    using step(5,6) by (auto simp: map_add_def)
  show ?case
  proof (intro conjI allI impI)
    show "sound_store P st'" using IH by simp
    show "map_get (tickets st') k = Some t" if "map_get (tickets st) k = Some t" for k t
      using IH old [OF that] by simp
    fix m g x
    assume m: "m \<in> set (n # ns)" and g: "map_get (ticket_dir st) m = Some g"
      and x: "file_text g = JsonText x"
    show "let w = ticket_of_json (fst (migrate_legacy_record P x)) in
          file_size g \<le> max_record_bytes cfg \<and> m = ticket_file (t_id w)
          \<and> map_get (tickets st') (t_id w) = Some w"
    proof (cases "m = n")
      case True
      with f v g x have "g = f" "x = v" by auto
      with True step(2,3) IH new show ?thesis by (auto simp: Let_def w_def)
    next
      case False
      with m have "m \<in> set ns" by simp
      with IH dir [OF this] g x show ?thesis by simp
    qed
  qed
qed

text \<open>A file this program wrote for a sound ticket is never taken for a legacy record.\<close>

lemma migrate_current:
  assumes "is_mutation_command P (t_command (ticket_of_json v))"
  shows "migrate_legacy_record P v = (v, False)"
proof (cases "field v ''command''")
  case (Some c)
  with assms have "is_mutation_command P c" by (simp add: ticket_of_json_def)
  then have "field c ''environmentSummary'' \<noteq> None"
    if "as_string (field c ''operation'') = Some ''create'' \<or> as_string (field c ''operation'') = Some ''update''"
    using that by (auto simp: is_mutation_command_def is_environment_summary_def split: option.splits)
  with Some show ?thesis by (auto simp: migrate_legacy_record_def)
qed (simp add: migrate_legacy_record_def)

lemma ticket_load_cases:
  assumes "ticket_load P cfg io st = (Inr rec, st')"
  obtains st1 st2 m where "length (json_file_names (ticket_dir st)) \<le> max_tickets cfg"
    and "load_files P cfg io (json_file_names (ticket_dir st)) 0 (st\<lparr>tickets := [], scopes := []\<rparr>)
           = (Inr (), st1)"
    and "interrupt_running P cfg io (map_vals (tickets st1)) st1 = (Inr (), st2)"
    and "prune_locked P cfg io st2 = (Inr m, st')"
  using assms
  by (auto simp: ticket_load_def Let_def not_less split: sum.splits prod.splits if_splits)

lemma ticket_recover_cases:
  assumes "ticket_recover P cfg io (empty_ticket_store dir) = (r, st)"
  obtains st1 where "ticket_load P cfg io (empty_ticket_store dir) = (r, st1)"
    and "st = st1\<lparr>recovery := Some r\<rparr>"
  using assms by (auto simp: ticket_recover_def empty_ticket_store_def split: prod.splits)

lemma empty_sound: "tickets st = [] \<Longrightarrow> sound_store P st"
  by (simp add: sound_store_def)

lemma json_names:
  assumes "js_map dir" and "map_has dir (ticket_file k)"
  shows "distinct (json_file_names dir)" and "ticket_file k \<in> set (json_file_names dir)"
    and "\<And>n. n \<in> set (json_file_names dir) \<Longrightarrow> map_has dir n"
proof -
  show "distinct (json_file_names dir)" using assms(1) by (simp add: json_file_names_def js_map_def)
  have "ticket_file k \<in> fst ` set dir" using assms(2) by (simp add: map_of_eq_None_iff)
  then show "ticket_file k \<in> set (json_file_names dir)"
    by (simp add: json_file_names_def ticket_file_def)
  show "map_has dir n" if "n \<in> set (json_file_names dir)" for n
    using that by (simp add: json_file_names_def map_of_eq_None_iff)
qed

text \<open>What a successful loading does with the file of one sound ticket.\<close>

lemma ticket_load_file:
  assumes load: "ticket_load P cfg io st = (Inr rec, st')" and dir: "js_map (ticket_dir st)"
    and f: "map_get (ticket_dir st) (ticket_file k) = Some f" and v: "file_text f = JsonText v"
    and u: "u = ticket_of_json v" and cmd: "is_mutation_command P (t_command u)"
  shows "file_size f \<le> max_record_bytes cfg" and "t_id u = k"
    and "map_get (tickets st') k =
      (let w = (if t_state u = Running then next_ticket P io Indeterminate NoPatch u else u) in
       if is_terminal (t_state w) \<and> ticket_expired cfg (io_now io) w then None else Some w)"
proof -
  obtain st1 st2 m where l: "length (json_file_names (ticket_dir st)) \<le> max_tickets cfg"
      "load_files P cfg io (json_file_names (ticket_dir st)) 0 (st\<lparr>tickets := [], scopes := []\<rparr>) = (Inr (), st1)"
    and i: "interrupt_running P cfg io (map_vals (tickets st1)) st1 = (Inr (), st2)"
    and p: "prune_locked P cfg io st2 = (Inr m, st')"
    by (rule ticket_load_cases [OF load])
  have has: "map_has (ticket_dir st) (ticket_file k)" using f by simp
  note N = json_names [OF dir has]
  have mig: "migrate_legacy_record P v = (v, False)" using cmd u by (simp add: migrate_current)
  have start: "sound_store P (st\<lparr>tickets := [], scopes := []\<rparr>)" by (rule empty_sound) simp
  have keep: "file_size f \<le> max_record_bytes cfg \<and> ticket_file k = ticket_file (t_id u)
      \<and> map_get (tickets st1) (t_id u) = Some u"
    using load_files_keep [OF l(2) N(1) _ start] N(2,3) f v u mig by (auto simp: Let_def)
  then show "file_size f \<le> max_record_bytes cfg" and id: "t_id u = k" by auto
  have empty: "index_ok P (st\<lparr>tickets := [], scopes := []\<rparr>)" "disk_ok (st\<lparr>tickets := [], scopes := []\<rparr>)"
    by (simp_all add: index_ok_def disk_ok_def)
  have ok1: "store_ok P cfg st1" using load_files_ok [OF l(2) empty] l(1) by (simp add: store_ok_def)
  then have idx: "index_ok P st1" by (simp add: store_ok_def)
  have "distinct (List.map t_id (map_vals (tickets st1)))"
    unfolding index_ok_keys [OF idx] using index_ok_maps(1) [OF idx] by (simp add: js_map_def)
  note I = interrupt_running_ok [OF i ok1 this index_ok_val [OF idx]]
  have "u \<in> set (map_vals (tickets st1))" using keep map_get_in [of "tickets st1" "t_id u" u] by force
  with I id have "map_get (tickets st2) k
      = Some (if t_state u = Running then next_ticket P io Indeterminate NoPatch u else u)" by auto
  with prune_locked_ok(4) [OF p _ refl, of k] I show "map_get (tickets st') k =
      (let w = (if t_state u = Running then next_ticket P io Indeterminate NoPatch u else u) in
       if is_terminal (t_state w) \<and> ticket_expired cfg (io_now io) w then None else Some w)"
    by (simp add: Let_def del: is_terminal.simps)
qed

lemma recover_sound:
  assumes "ticket_recover P cfg io (empty_ticket_store dir) = (Inr rec, st)" and "js_map dir"
  shows "sound_store P st"
proof -
  obtain st' where load: "ticket_load P cfg io (empty_ticket_store dir) = (Inr rec, st')"
    and st: "st = st'\<lparr>recovery := Some (Inr rec)\<rparr>"
    by (rule ticket_recover_cases [OF assms(1)])
  let ?st = "(empty_ticket_store dir)\<lparr>tickets := [], scopes := []\<rparr>"
  obtain st1 st2 m where l: "length (json_file_names (ticket_dir (empty_ticket_store dir))) \<le> max_tickets cfg"
      "load_files P cfg io (json_file_names (ticket_dir (empty_ticket_store dir))) 0 ?st = (Inr (), st1)"
    and i: "interrupt_running P cfg io (map_vals (tickets st1)) st1 = (Inr (), st2)"
    and p: "prune_locked P cfg io st2 = (Inr m, st')"
    by (rule ticket_load_cases [OF load])
  have names: "distinct (json_file_names (ticket_dir ?st))"
    "\<And>n. n \<in> set (json_file_names (ticket_dir ?st)) \<Longrightarrow> map_has (ticket_dir ?st) n"
    using assms(2) by (auto simp: json_file_names_def js_map_def empty_ticket_store_def
        map_of_eq_None_iff)
  have s1: "sound_store P st1"
    using load_files_keep [OF l(2) _ _ empty_sound] names by (simp add: empty_ticket_store_def)
  have empty: "index_ok P ?st" "disk_ok ?st" by (simp_all add: index_ok_def disk_ok_def)
  have ok1: "store_ok P cfg st1" using load_files_ok [OF l(2) empty] l(1) by (simp add: store_ok_def)
  then have idx: "index_ok P st1" by (simp add: store_ok_def)
  have "distinct (List.map t_id (map_vals (tickets st1)))"
    unfolding index_ok_keys [OF idx] using index_ok_maps(1) [OF idx] by (simp add: js_map_def)
  note I = interrupt_running_ok [OF i ok1 this index_ok_val [OF idx]]
  have "sound_ticket P t" if t: "map_get (tickets st2) k = Some t" for k t
  proof (cases "k \<in> t_id ` set (map_vals (tickets st1))")
    case True
    then obtain u where u: "u \<in> set (map_vals (tickets st1))" "k = t_id u" by blast
    with I t have "t = (if t_state u = Running then next_ticket P io Indeterminate NoPatch u else u)"
      by auto
    moreover have "sound_ticket P u" by (rule sound_storeD [OF s1 index_ok_val [OF idx u(1)]])
    ultimately show ?thesis using same_identity_sound [OF next_ticket_facts(4)] by (simp split: if_splits)
  next
    case False
    with I t have "map_get (tickets st1) k = Some t" by auto
    with s1 show ?thesis by (rule sound_storeD)
  qed
  then have "sound_store P st2" by (simp add: sound_store_def)
  moreover have "store_ok P cfg st2" using I by blast
  ultimately have "sound_store P st'" using prune_locked_sound [OF p] by blast
  with st show ?thesis by (simp add: sound_store_def)
qed

lemma run_sound:
  "live P cfg st \<Longrightarrow> sound_store P st \<Longrightarrow> live P cfg (ticket_run P cfg cs st) \<and> sound_store P (ticket_run P cfg cs st)"
proof (induction cs arbitrary: st)
  case (Cons c cs)
  then show ?case
    using perform_live [of P cfg st "fst c" "snd c"] perform_sound [of P cfg st "fst c" "snd c"]
    by (simp add: ticket_run_def ticket_step_def)
qed (simp add: ticket_run_def)

section \<open>A directory names each file once\<close>

lemma ticket_write_dir:
  "js_map (ticket_dir st) \<Longrightarrow> js_map (ticket_dir (snd (ticket_write P cfg io k v st)))"
  by (cases "io_write io (ticket_file k) v") (auto simp: ticket_write_def)

lemma ticket_register_dir [simp]: "ticket_dir (snd (ticket_register t st)) = ticket_dir st"
  by (simp add: ticket_register_def)

lemma transition_locked_dir:
  assumes "js_map (ticket_dir st)"
  shows "js_map (ticket_dir (snd (transition_locked P cfg io cur to patch rc st)))"
proof -
  obtain r st' where run: "transition_locked P cfg io cur to patch rc st = (r, st')"
    by (cases "transition_locked P cfg io cur to patch rc st")
  then have "js_map (ticket_dir st')" using assms by (cases rule: transition_locked_cases) auto
  with run show ?thesis by simp
qed

lemma remove_expired_dir:
  "js_map (ticket_dir st) \<Longrightarrow> js_map (ticket_dir (snd (remove_expired io ts n st)))"
  by (induction ts arbitrary: n st) (auto split: option.splits)

lemma prune_locked_dir:
  "js_map (ticket_dir st) \<Longrightarrow> js_map (ticket_dir (snd (prune_locked P cfg io st)))"
  by (simp add: prune_locked_def remove_expired_dir)

lemma load_files_dir:
  "js_map (ticket_dir st) \<Longrightarrow> js_map (ticket_dir (snd (load_files P cfg io names bytes st)))"
proof (induction names arbitrary: bytes st)
  case (Cons n ns)
  have wr: "ticket_write P cfg io k v st = (r, st') \<Longrightarrow> js_map (ticket_dir st')" for k v r st'
    using Cons.prems ticket_write_dir [of st P cfg io k v] by simp
  have reg: "ticket_register t st' = (r, st'') \<Longrightarrow> ticket_dir st'' = ticket_dir st'" for t st' r st''
    using ticket_register_dir [of t st'] by simp
  show ?case
    using Cons by (auto simp: Let_def split: option.splits sum.splits prod.splits if_splits
        dest!: wr reg)
qed simp

lemma interrupt_running_dir:
  "js_map (ticket_dir st) \<Longrightarrow> js_map (ticket_dir (snd (interrupt_running P cfg io ts st)))"
proof (induction ts arbitrary: st)
  case (Cons t ts)
  then show ?case
    using transition_locked_dir [OF Cons.prems, of P cfg io t Indeterminate NoPatch True]
    by (auto split: sum.splits prod.splits)
qed simp

lemma ticket_load_dir:
  assumes "ticket_load P cfg io st = (Inr rec, st')" and "js_map (ticket_dir st)"
  shows "js_map (ticket_dir st')"
proof -
  let ?st = "st\<lparr>tickets := [], scopes := []\<rparr>"
  obtain st1 st2 m where l: "load_files P cfg io (json_file_names (ticket_dir st)) 0 ?st = (Inr (), st1)"
    and i: "interrupt_running P cfg io (map_vals (tickets st1)) st1 = (Inr (), st2)"
    and p: "prune_locked P cfg io st2 = (Inr m, st')"
    by (rule ticket_load_cases [OF assms(1)])
  have "js_map (ticket_dir ?st)" using assms(2) by simp
  from load_files_dir [OF this, of P cfg io "json_file_names (ticket_dir st)" 0] l
  have "js_map (ticket_dir st1)" by simp
  from interrupt_running_dir [OF this, of P cfg io "map_vals (tickets st1)"] i
  have "js_map (ticket_dir st2)" by simp
  from prune_locked_dir [OF this, of P cfg io] p show ?thesis by simp
qed

lemma create_ticket_dir:
  assumes "js_map (ticket_dir st)"
  shows "js_map (ticket_dir (snd (create_ticket P cfg io inp st)))"
proof -
  have wr: "ticket_write P cfg io k v st = (r, st') \<Longrightarrow> js_map (ticket_dir st')" for k v r st'
    using ticket_write_dir [OF assms, of P cfg io k v] by simp
  have reg: "ticket_register t st' = (r, st'') \<Longrightarrow> ticket_dir st'' = ticket_dir st'" for t st' r st''
    using ticket_register_dir [of t st'] by simp
  show ?thesis
    using assms by (auto simp: create_ticket_def Let_def split: sum.splits prod.splits dest!: wr reg)
qed

lemma begin_locked_dir:
  assumes "js_map (ticket_dir st)"
  shows "js_map (ticket_dir (snd (begin_locked P cfg io inp st)))"
proof -
  have prune: "prune_locked P cfg io st = (r, st') \<Longrightarrow> js_map (ticket_dir st')" for r st'
    using prune_locked_dir [OF assms, of P cfg io] by simp
  show ?thesis
    using assms by (auto simp: begin_locked_def split: sum.splits prod.splits option.splits
        dest!: prune intro: create_ticket_dir)
qed

lemma perform_dir:
  assumes live: "live P cfg st" and dir: "js_map (ticket_dir st)"
  shows "js_map (ticket_dir (perform P cfg io call st))"
proof -
  obtain rec where rec: "recovery st = Some (Inr rec)" using live by (auto simp: live_def)
  note now = recovered_then_live [OF rec]
  have tr: "js_map (ticket_dir (snd (ticket_transition P cfg io k to patch st)))" for k to patch
    using dir by (auto simp: ticket_transition_def now transition_locked_dir split: option.splits)
  have settle: "js_map (ticket_dir (snd (settle_ticket P cfg io k to patch st)))" for k to patch
  proof -
    obtain r1 st1 where t: "ticket_transition P cfg io k to patch st = (r1, st1)"
      by (cases "ticket_transition P cfg io k to patch st")
    have rec1: "recovery st1 = Some (Inr rec)" using ticket_transition_live(3) [OF live t] rec by simp
    have "js_map (ticket_dir st1)" using tr [of k to patch] t by simp
    then show ?thesis
      using t prune_locked_dir [of st1 P cfg io]
      by (auto simp: settle_ticket_def ticket_prune_def recovered_then_live [OF rec1]
          split: sum.splits prod.splits)
  qed
  show ?thesis
    using dir tr settle
    by (cases call)
       (auto simp: ticket_recover_def rec ticket_begin_def now begin_locked_dir ticket_get_def
         ticket_get_by_idempotency_def mark_running_def mark_succeeded_def mark_failed_def
         ticket_reconcile_def transition_locked_dir ticket_prune_def prune_locked_dir split: option.splits)
qed

lemma run_dir:
  "live P cfg st \<Longrightarrow> js_map (ticket_dir st) \<Longrightarrow> js_map (ticket_dir (ticket_run P cfg cs st))"
proof (induction cs arbitrary: st)
  case (Cons c cs)
  then show ?case
    using perform_live [of P cfg st "fst c" "snd c"] perform_dir [of P cfg st "fst c" "snd c"]
    by (simp add: ticket_run_def ticket_step_def)
qed (simp add: ticket_run_def)

lemma recover_dir:
  assumes "ticket_recover P cfg io (empty_ticket_store dir) = (Inr rec, st)" and "js_map dir"
  shows "js_map (ticket_dir st)"
proof -
  obtain st' where "ticket_load P cfg io (empty_ticket_store dir) = (Inr rec, st')"
    and "st = st'\<lparr>recovery := Some (Inr rec)\<rparr>"
    by (rule ticket_recover_cases [OF assms(1)])
  with ticket_load_dir [of P cfg io "empty_ticket_store dir" rec st'] assms(2)
  show ?thesis by (simp add: empty_ticket_store_def)
qed

section \<open>The file a new ticket is published to\<close>

lemma create_ticket_file:
  assumes "create_ticket P cfg io inp st = (Inr t, st')"
  shows "map_get (ticket_dir st') (ticket_file (t_id t)) = Some (published_file (current_uid P) (ticket_json t))"
    and "compact_size (ticket_json t) \<le> max_record_bytes cfg"
    and "valid_ticket_record P (ticket_json t)"
proof -
  let ?t = "new_ticket P (io_stamp io) inp"
  obtain r1 st1 where w: "ticket_write P cfg io (t_id ?t) (ticket_json ?t) st = (r1, st1)"
    by (cases "ticket_write P cfg io (t_id ?t) (ticket_json ?t) st")
  obtain r2 st2 where reg: "ticket_register ?t st1 = (r2, st2)" by (cases "ticket_register ?t st1")
  have "r1 = Inr ()" "t = ?t" "st' = st2" "valid_ticket_record P (ticket_json ?t)"
    using assms w reg unfolding create_ticket_def Let_def validate_ticket_record_def require_def
    by (auto split: if_splits option.splits sum.splits simp del: new_ticket_facts)
  then show "map_get (ticket_dir st') (ticket_file (t_id t)) = Some (published_file (current_uid P) (ticket_json t))"
    and "compact_size (ticket_json t) \<le> max_record_bytes cfg"
    and "valid_ticket_record P (ticket_json t)"
    using ticket_write_ok [of P cfg io "t_id ?t" "ticket_json ?t" st "()" st1] w
      ticket_register_dir [of ?t st1] reg by auto
qed

section \<open>Two inputs with one scope\<close>

lemma count_split: "length (split_on newline s) = 3 \<longleftrightarrow> count_list s newline = 2"
  by (simp add: length_split_on)

lemma scope_parts:
  assumes "count_list (ticket_scope m t k) newline = 2"
  shows "split_on newline (ticket_scope m t k) = [m, t, k]"
proof -
  have "count_list m newline = 0" "count_list t newline = 0" "count_list k newline = 0"
    using assms by (auto simp: ticket_scope_def)
  then have none: "newline \<notin> set m" "newline \<notin> set t" "newline \<notin> set k"
    by (simp_all add: count_list_0_iff)
  have "split_on newline (t @ newline # k) = [t, k]"
    using split_on_app [OF none(2), of k] split_on_nosep [OF none(3)] by simp
  then have "split_on newline (m @ newline # (t @ newline # k)) = [m, t, k]"
    using split_on_app [OF none(1), of "t @ newline # k"] by simp
  then show ?thesis by (simp add: ticket_scope_def)
qed

lemma scope_injective:
  assumes "ticket_scope m t k = ticket_scope m' t' k'"
    and "length (split_on newline (ticket_scope m t k)) = 3"
  shows "m = m' \<and> t = t' \<and> k = k'"
proof -
  have "count_list (ticket_scope m t k) newline = 2" using assms(2) by (simp add: length_split_on)
  from scope_parts [OF this] scope_parts [of m' t' k'] this assms(1) show ?thesis by simp
qed

end
