(* ===== verification/Demo.thy ===== *)
theory Demo
  imports TicketProps
begin

text \<open>
  A concrete platform and concrete inputs, on which the properties with hypotheses are applied: the
  digest is replaced by a readable one of the same shape, strings collate by code units.
\<close>

definition demo_digest :: "string \<Rightarrow> string" where
  "demo_digest s =
     take 43 (List.map (\<lambda>c. if is_b64url c then c else CHR ''_'') s @ replicate 43 (CHR ''A''))"

definition demo_platform :: platform where
  "demo_platform = \<lparr>sha256_b64url = demo_digest, sha256_hex = (\<lambda>s. s), collate = code_unit_le,
                    current_uid = Some 1000\<rparr>"

definition demo_delete :: "string \<Rightarrow> json" where
  "demo_delete request =
     JObj [(''operation'', JStr ''delete''), (''requestId'', JStr request), (''sessionId'', JStr ''s''),
           (''expectedGeneration'', JNum 1), (''expectedRevision'', JNum 1),
           (''retainArtifacts'', JBool False)]"

definition demo_input :: "string \<Rightarrow> begin_input" where
  "demo_input request =
     \<lparr>in_method = ''DELETE'', in_target = ''/v1/s'', in_key = ''k'', in_command = demo_delete request\<rparr>"

definition demo_scope :: string where
  "demo_scope = ticket_scope ''DELETE'' ''/v1/s'' ''k''"

definition demo_ticket_io :: "int \<Rightarrow> ticket_io" where
  "demo_ticket_io now =
     \<lparr>io_ready = Inr (), io_now = now, io_stamp = now, io_write = (\<lambda>_ _. Published),
      io_rm = (\<lambda>_. None)\<rparr>"

definition demo_ticket :: ticket where
  "demo_ticket = new_ticket demo_platform 0 (demo_input ''r1'')"

definition demo_failure :: api_error where
  "demo_failure = \<lparr>ae_code = ''gone'', ae_message = ''gone'', ae_retryable = False, ae_details = None\<rparr>"

definition demo_failed :: ticket where
  "demo_failed = demo_ticket\<lparr>t_state := Failed, t_updated_at := to_iso 5, t_error := Some demo_failure\<rparr>"

text \<open>Limits that admit both forms of the example ticket.\<close>

definition demo_ticket_config :: ticket_config where
  "demo_ticket_config =
     \<lparr>max_tickets = 4,
      max_record_bytes = published_size (ticket_json demo_ticket) + published_size (ticket_json demo_failed),
      max_recovery_bytes = published_size (ticket_json demo_ticket) + published_size (ticket_json demo_failed),
      retention_ms = 1000\<rparr>"

text \<open>An empty directory recovered, the store after one submission, and after its failure.\<close>

definition demo_recovered :: ticket_store where
  "demo_recovered =
     \<lparr>tickets = [], scopes = [], ticket_dir = [],
      recovery = Some (Inr \<lparr>rec_queued = [], rec_indeterminate = [], rec_terminal = [], rec_pruned = 0\<rparr>)\<rparr>"

definition demo_submitted :: ticket_store where
  "demo_submitted = demo_recovered
     \<lparr>tickets := [(t_id demo_ticket, demo_ticket)], scopes := [(demo_scope, t_id demo_ticket)],
      ticket_dir := [(ticket_file (t_id demo_ticket), published_file (Some 1000) (ticket_json demo_ticket))]\<rparr>"

definition demo_settled :: ticket_store where
  "demo_settled = demo_submitted
     \<lparr>tickets := [(t_id demo_ticket, demo_failed)],
      ticket_dir := [(ticket_file (t_id demo_ticket), published_file (Some 1000) (ticket_json demo_failed))]\<rparr>"

lemma demo_recover:
  "ticket_recover demo_platform cfg (demo_ticket_io 0) (empty_ticket_store [])
     = (Inr \<lparr>rec_queued = [], rec_indeterminate = [], rec_terminal = [], rec_pruned = 0\<rparr>, demo_recovered)"
  by (simp add: ticket_recover_def empty_ticket_store_def ticket_load_def json_file_names_def
      demo_ticket_io_def prune_locked_def expired_tickets_def recovery_lists_def demo_recovered_def)

lemma demo_delete_valid: "is_mutation_command demo_platform (demo_delete ''r1'')"
  by code_simp

lemma demo_input_valid: "validate_begin_input demo_platform (demo_input ''r1'') = Inr ()"
  using demo_delete_valid by (simp add: validate_begin_input_def demo_input_def)

lemma demo_ticket_valid: "valid_ticket_record demo_platform (ticket_json demo_ticket)"
  by code_simp

lemma demo_fits:
  "compact_size (ticket_json demo_ticket) \<le> max_record_bytes demo_ticket_config"
  "compact_size (ticket_json demo_failed) \<le> max_record_bytes demo_ticket_config"
  using published_gt_compact [of "ticket_json demo_ticket"] published_gt_compact [of "ticket_json demo_failed"]
  by (simp_all add: demo_ticket_config_def)

lemma demo_platform_uid [simp]: "current_uid demo_platform = Some 1000"
  by (simp add: demo_platform_def)

lemma demo_ids [simp]: "t_scope demo_ticket = demo_scope" "t_state demo_ticket = Queued"
  by (simp_all add: demo_ticket_def demo_input_def demo_scope_def)

lemma demo_record_accepted: "validate_ticket_record demo_platform (ticket_json demo_ticket) = Inr ()"
  using demo_ticket_valid by (simp add: validate_ticket_record_def)

lemma demo_write:
  assumes "compact_size v \<le> max_record_bytes cfg"
  shows "ticket_write demo_platform cfg (demo_ticket_io now) k v st
    = (Inr (), st\<lparr>ticket_dir := map_set (ticket_dir st) (ticket_file k) (published_file (Some 1000) v)\<rparr>)"
  using assms by (simp add: ticket_write_def demo_ticket_io_def)

lemma demo_new: "new_ticket demo_platform (io_stamp (demo_ticket_io 0)) (demo_input ''r1'') = demo_ticket"
  by (simp add: demo_ticket_io_def demo_ticket_def)

lemma demo_scope_of:
  "ticket_scope (in_method (demo_input r)) (in_target (demo_input r)) (in_key (demo_input r)) = demo_scope"
  by (simp add: demo_input_def demo_scope_def)

lemma demo_rooms: "max_tickets demo_ticket_config = 4" "retention_ms demo_ticket_config = 1000"
  by (simp_all add: demo_ticket_config_def)

lemma demo_prune_empty:
  "tickets st = [] \<Longrightarrow> prune_locked P cfg io st = (Inr 0, st)"
  by (simp add: prune_locked_def expired_tickets_def)

lemma demo_create:
  assumes "tickets st = []" and "scopes st = []" and "ticket_dir st = []"
    and "0 < max_tickets cfg" and "compact_size (ticket_json demo_ticket) \<le> max_record_bytes cfg"
  shows "create_ticket demo_platform cfg (demo_ticket_io 0) (demo_input ''r1'') st
     = (Inr demo_ticket, st\<lparr>tickets := [(t_id demo_ticket, demo_ticket)],
          scopes := [(demo_scope, t_id demo_ticket)],
          ticket_dir := [(ticket_file (t_id demo_ticket), published_file (Some 1000) (ticket_json demo_ticket))]\<rparr>)"
  unfolding create_ticket_def Let_def demo_new
  using assms by (simp add: demo_record_accepted demo_write ticket_register_def)

lemma demo_begin_any:
  assumes "0 < max_tickets cfg" and "compact_size (ticket_json demo_ticket) \<le> max_record_bytes cfg"
  shows "ticket_begin demo_platform cfg (demo_ticket_io 0) (demo_input ''r1'') demo_recovered
     = (Inr demo_ticket, demo_submitted)"
  using assms
  by (simp add: ticket_begin_def recovered_then_live [of _ "\<lparr>rec_queued = [], rec_indeterminate = [],
        rec_terminal = [], rec_pruned = 0\<rparr>"] demo_recovered_def begin_locked_def demo_input_valid
      demo_prune_empty demo_create demo_submitted_def)

lemma demo_begin:
  "ticket_begin demo_platform demo_ticket_config (demo_ticket_io 0) (demo_input ''r1'') demo_recovered
     = (Inr demo_ticket, demo_submitted)"
  using demo_fits(1) by (intro demo_begin_any) (simp_all add: demo_rooms)

text \<open>A limit the example ticket just meets when it is measured compactly.\<close>

definition demo_tight_config :: ticket_config where
  "demo_tight_config =
     \<lparr>max_tickets = 4, max_record_bytes = compact_size (ticket_json demo_ticket),
      max_recovery_bytes = 65536, retention_ms = 1000\<rparr>"

lemma demo_begin_tight:
  "ticket_begin demo_platform demo_tight_config (demo_ticket_io 0) (demo_input ''r1'') demo_recovered
     = (Inr demo_ticket, demo_submitted)"
  by (intro demo_begin_any) (simp_all add: demo_tight_config_def)

lemma demo_begin_again:
  "ticket_begin demo_platform demo_ticket_config io (demo_input ''r1'') demo_submitted
     = (Inr demo_ticket, demo_submitted)"
proof -
  have "t_fingerprint demo_ticket = command_fingerprint demo_platform (in_command (demo_input ''r1''))"
    by (simp add: demo_ticket_def)
  then show ?thesis
    by (simp add: ticket_begin_def recovered_then_live [of _ "\<lparr>rec_queued = [], rec_indeterminate = [],
        rec_terminal = [], rec_pruned = 0\<rparr>"] demo_recovered_def demo_submitted_def begin_locked_def
        demo_input_valid demo_scope_of)
qed

lemma demo_failing:
  "transition_locked demo_platform demo_ticket_config (demo_ticket_io 5) demo_ticket Failed
     (ErrorPatch demo_failure) False demo_submitted = (Inr demo_failed, demo_settled)"
proof -
  have nxt: "apply_patch demo_platform (ErrorPatch demo_failure)
      (demo_ticket\<lparr>t_state := Failed, t_updated_at := to_iso (io_stamp (demo_ticket_io 5))\<rparr>) = demo_failed"
    by (simp add: demo_failed_def demo_failure_def sanitize_ticket_error_def demo_ticket_io_def demo_ticket_def
        new_ticket_def Let_def)
  have id: "t_id demo_failed = t_id demo_ticket" by (simp add: demo_failed_def)
  show ?thesis
    unfolding transition_locked_def Let_def
    by (simp add: demo_submitted_def nxt id demo_write [OF demo_fits(2)] demo_settled_def demo_recovered_def
        del: apply_patch.simps)
qed

lemma demo_mark_failed:
  "mark_failed demo_platform demo_ticket_config (demo_ticket_io 5) (t_id demo_ticket) demo_failure demo_submitted
     = (Inr demo_failed, demo_settled)"
proof -
  have rec: "recovery demo_submitted = Some (Inr \<lparr>rec_queued = [], rec_indeterminate = [],
        rec_terminal = [], rec_pruned = 0\<rparr>)" and
    rec': "recovery demo_settled = Some (Inr \<lparr>rec_queued = [], rec_indeterminate = [],
        rec_terminal = [], rec_pruned = 0\<rparr>)"
    by (simp_all add: demo_submitted_def demo_recovered_def demo_settled_def)
  have "map_get (tickets demo_submitted) (t_id demo_ticket) = Some demo_ticket"
    by (simp add: demo_submitted_def)
  then have tr: "ticket_transition demo_platform demo_ticket_config (demo_ticket_io 5) (t_id demo_ticket)
      Failed (ErrorPatch demo_failure) demo_submitted = (Inr demo_failed, demo_settled)"
    by (simp add: ticket_transition_def recovered_then_live [OF rec] demo_failing)
  have young: "\<not> ticket_expired demo_ticket_config 5 demo_failed"
  proof -
    have "date_parse (to_iso 5) = Some 5" by code_simp
    then show ?thesis by (simp add: ticket_expired_def demo_failed_def demo_rooms)
  qed
  have "prune_locked demo_platform demo_ticket_config (demo_ticket_io 5) demo_settled = (Inr 0, demo_settled)"
    using young by (simp add: prune_locked_def expired_tickets_def demo_settled_def demo_submitted_def demo_ticket_io_def)
  with tr show ?thesis
    by (simp add: mark_failed_def settle_ticket_def ticket_prune_def recovered_then_live [OF rec'])
qed

text \<open>A second process that recovers the directory the first one left.\<close>

definition demo_restarted :: ticket_store where
  "demo_restarted = demo_submitted\<lparr>recovery :=
     Some (Inr \<lparr>rec_queued = [demo_ticket], rec_indeterminate = [], rec_terminal = [], rec_pruned = 0\<rparr>)\<rparr>"

lemma demo_restart:
  "ticket_recover demo_platform demo_ticket_config (demo_ticket_io 9) (empty_ticket_store (ticket_dir demo_submitted))
     = (Inr \<lparr>rec_queued = [demo_ticket], rec_indeterminate = [], rec_terminal = [], rec_pruned = 0\<rparr>, demo_restarted)"
proof -
  let ?v = "ticket_json demo_ticket" and ?f = "published_file (Some 1000) (ticket_json demo_ticket)"
  let ?name = "ticket_file (t_id demo_ticket)"
  let ?st = "(empty_ticket_store [(?name, ?f)])\<lparr>tickets := [], scopes := []\<rparr>"
  let ?st1 = "demo_submitted\<lparr>recovery := None\<rparr>"
  have dir: "ticket_dir demo_submitted = [(?name, ?f)]" by (simp add: demo_submitted_def)
  have names: "json_file_names [(?name, ?f)] = [?name]"
    by (simp add: json_file_names_def ticket_file_def)
  have t: "ticket_of_json ?v = demo_ticket" by (rule ticket_round_trip)
  have "is_mutation_command demo_platform (t_command demo_ticket)"
    using demo_delete_valid by (simp add: demo_ticket_def demo_input_def)
  then have mig: "migrate_legacy_record demo_platform ?v = (?v, False)"
    using migrate_current [of demo_platform ?v] t by simp
  have fits: "published_size ?v \<le> max_record_bytes demo_ticket_config"
    "published_size ?v \<le> max_recovery_bytes demo_ticket_config"
    by (simp_all add: demo_ticket_config_def)
  have load: "load_files demo_platform demo_ticket_config (demo_ticket_io 9) [?name] 0 ?st = (Inr (), ?st1)"
    using fits mig demo_record_accepted t
    by (simp add: empty_ticket_store_def state_file_size_def ticket_register_def demo_submitted_def
        demo_recovered_def Let_def not_less [symmetric])
  have vals: "map_vals (tickets demo_submitted) = [demo_ticket]" by (simp add: demo_submitted_def)
  have prune: "prune_locked demo_platform demo_ticket_config (demo_ticket_io 9) ?st1 = (Inr 0, ?st1)"
    by (simp add: prune_locked_def expired_tickets_def demo_submitted_def)
  have lists: "recovery_lists demo_platform ?st1 0
      = \<lparr>rec_queued = [demo_ticket], rec_indeterminate = [], rec_terminal = [], rec_pruned = 0\<rparr>"
    by (simp add: recovery_lists_def demo_submitted_def)
  have ready: "io_ready (demo_ticket_io 9) = Inr ()" by (simp add: demo_ticket_io_def)
  have "ticket_load demo_platform demo_ticket_config (demo_ticket_io 9) (empty_ticket_store [(?name, ?f)])
      = (Inr \<lparr>rec_queued = [demo_ticket], rec_indeterminate = [], rec_terminal = [], rec_pruned = 0\<rparr>, ?st1)"
    unfolding ticket_load_def Let_def
    using load prune lists
    by (simp add: ready names empty_ticket_store_def vals demo_rooms del: load_files.simps)
  then show ?thesis
    unfolding dir by (simp add: ticket_recover_def empty_ticket_store_def demo_restarted_def)
qed

end
