(* ===== verification/Canonical.thy ===== *)
theory Canonical
  imports TicketLaws "HOL-Library.Multiset"
begin

text \<open>
  Canonical text does not depend on the order of object keys at any depth, and an error that was
  sanitized is one the validator of stored records accepts.
\<close>

section \<open>Values that differ in key order only\<close>

inductive same_json :: "json \<Rightarrow> json \<Rightarrow> bool" where
  same_refl: "same_json v v"
| same_arr: "list_all2 same_json vs ws \<Longrightarrow> same_json (JArr vs) (JArr ws)"
| same_obj: "distinct (List.map fst kvs) \<Longrightarrow>
    list_all2 (\<lambda>a b. fst a = fst b \<and> same_json (snd a) (snd b)) kvs mid \<Longrightarrow>
    mset mid = mset kvs' \<Longrightarrow> same_json (JObj kvs) (JObj kvs')"

lemma insert_by_insort: "insert_by (\<lambda>a b. code_unit_le (fst a) (fst b)) x ys = insort_key fst x ys"
  by (induction ys) (auto simp: code_unit_le_def)

lemma sort_by_sort_key: "sort_by (\<lambda>a b. code_unit_le (fst a) (fst b)) xs = sort_key fst xs"
  by (induction xs) (auto simp: insert_by_insort)

lemma sort_by_mset:
  assumes "mset xs = mset ys" and "distinct (List.map fst xs)"
  shows "sort_by (\<lambda>a b. code_unit_le (fst a) (fst b)) xs = sort_by (\<lambda>a b. code_unit_le (fst a) (fst b)) ys"
proof -
  have "inj_on fst (set xs)" using assms(2) by (simp add: distinct_map)
  then have "sort_key fst xs = sort_key fst ys"
    using assms(1) by (intro sort_key_inj_key_eq) simp_all
  then show ?thesis by (simp add: sort_by_sort_key)
qed

lemma canonical_same: "same_json v w \<Longrightarrow> canonical_json code_unit_le v = canonical_json code_unit_le w"
proof (induction rule: same_json.induct)
  case (same_arr vs ws)
  have "List.map (canonical_json code_unit_le) vs = List.map (canonical_json code_unit_le) ws"
    using same_arr.IH by (induction rule: list_all2_induct) auto
  then show ?case by simp
next
  case (same_obj kvs mid kvs')
  let ?t = "\<lambda>(k, v). (k, canonical_json code_unit_le v)"
  have same: "List.map ?t kvs = List.map ?t mid"
    using same_obj.IH by (induction rule: list_all2_induct) (auto simp: case_prod_beta)
  have "mset (List.map ?t mid) = mset (List.map ?t kvs')" using same_obj.hyps by simp
  moreover have "distinct (List.map fst (List.map ?t mid))"
    unfolding same [symmetric] using same_obj.hyps(1) by (simp add: case_prod_beta comp_def)
  ultimately have "sort_by (\<lambda>a b. code_unit_le (fst a) (fst b)) (List.map ?t mid)
      = sort_by (\<lambda>a b. code_unit_le (fst a) (fst b)) (List.map ?t kvs')"
    by (rule sort_by_mset)
  with same show ?case by simp
qed simp

section \<open>Sanitized errors\<close>

lemma insert_by_least:
  assumes "\<And>y. y \<in> set ys \<Longrightarrow> le x y"
  shows "insert_by le x ys = x # ys"
  using assms by (cases ys) auto

lemma sort_by_sorted: "sorted_wrt le xs \<Longrightarrow> sort_by le xs = xs"
  by (induction xs) (auto simp: insert_by_least)

lemma json_strings_map [simp]: "json_strings (List.map JStr xs) = xs"
  by (induction xs) auto

lemma json_strings_filter:
  "s \<in> set (json_strings (List.filter p vs)) \<Longrightarrow> p (JStr s)"
  by (induction vs rule: json_strings.induct) (auto split: if_splits)

text \<open>
  \<open>localeCompare\<close> is a total preorder on strings (the language requires a consistent comparison).
\<close>

definition collation_ok :: "platform \<Rightarrow> bool" where
  "collation_ok P \<longleftrightarrow>
     (\<forall>a b. collate P a b \<or> collate P b a)
     \<and> (\<forall>a b c. collate P a b \<longrightarrow> collate P b c \<longrightarrow> collate P a c)"

lemma collation_total: "collation_ok P \<Longrightarrow> total_on_list (collate P) A"
  unfolding collation_ok_def total_on_list_def by blast

lemma sorted_wrt_take: "sorted_wrt le xs \<Longrightarrow> sorted_wrt le (take n xs)"
  by (metis append_take_drop_id sorted_wrt_append)

lemma sanitized_error_valid:
  assumes "collation_ok P" and "ae_code e \<noteq> []"
  shows "is_api_error P (api_error_json (sanitize_ticket_error P e))"
proof (cases "ae_details (sanitize_ticket_error P e)")
  case None
  have "ae_code (sanitize_ticket_error P e) = ae_code e"
    by (auto simp: sanitize_ticket_error_def Let_def split: option.splits json.splits)
  with None assms(2) show ?thesis
    by (simp add: is_api_error_def api_error_json_def nonempty_string_def)
next
  case (Some d)
  then obtain kvs candidates where
    ids: "ae_code e = ''required_tools_unavailable''" "ae_details e = Some (JObj kvs)"
      "map_of kvs ''missingToolIds'' = Some (JArr candidates)"
    by (auto simp: sanitize_ticket_error_def Let_def split: option.splits json.splits if_splits)
  define names where "names = rev (remdups (rev (json_strings (List.filter is_safe_ticket_tool_id candidates))))"
  define xs where "xs = take max_ticket_missing_tool_ids (sort_by (collate P) names)"
  have e: "sanitize_ticket_error P e = (if xs = [] then e\<lparr>ae_details := None\<rparr>
      else e\<lparr>ae_details := Some (JObj [(''missingToolIds'', JArr (List.map JStr xs))])\<rparr>)"
    using ids by (simp add: sanitize_ticket_error_def Let_def xs_def names_def)
  with Some have xs: "xs \<noteq> []" by auto
  have "distinct names" by (simp add: names_def)
  then have dist: "distinct xs" by (simp add: xs_def)
  have "sorted_wrt (collate P) xs"
    unfolding xs_def by (intro sorted_wrt_take sorted_sort_by collation_total assms(1))
  then have sorted: "sorted_by_collation P xs" by (simp add: sorted_by_collation_def sort_by_sorted)
  have len: "length xs \<le> max_ticket_missing_tool_ids" by (simp add: xs_def)
  have "is_safe_ticket_tool_id (JStr s)" if "s \<in> set xs" for s
    using that json_strings_filter [of s is_safe_ticket_tool_id candidates]
    by (auto simp: xs_def names_def dest: in_set_takeD)
  with e xs dist sorted len ids(1) show ?thesis
    by (simp add: is_api_error_def api_error_json_def nonempty_string_def list_all_iff)
qed

section \<open>A record after a transition\<close>

lemma ticket_json_fields:
  "is_record (ticket_json t)"
  "field (ticket_json t) ''formatVersion'' = Some (JNum 1)"
  "field (ticket_json t) ''ticketId'' = Some (JStr (t_id t))"
  "field (ticket_json t) ''scope'' = Some (JStr (t_scope t))"
  "field (ticket_json t) ''idempotencyKey'' = Some (JStr (t_idempotency_key t))"
  "field (ticket_json t) ''fingerprint'' = Some (JStr (t_fingerprint t))"
  "field (ticket_json t) ''operation'' = Some (JStr (t_operation t))"
  "field (ticket_json t) ''state'' = Some (JStr (ticket_state_str (t_state t)))"
  "field (ticket_json t) ''requestId'' = Some (JStr (t_request_id t))"
  "field (ticket_json t) ''sessionId'' = Some (JStr (t_session_id t))"
  "field (ticket_json t) ''generation'' = map_option JNum (t_generation t)"
  "field (ticket_json t) ''command'' = Some (t_command t)"
  "field (ticket_json t) ''submittedAt'' = Some (JStr (t_submitted_at t))"
  "field (ticket_json t) ''updatedAt'' = Some (JStr (t_updated_at t))"
  "field (ticket_json t) ''error'' = map_option api_error_json (t_error t)"
  by (simp_all add: ticket_json_def split: option.splits)

lemma to_iso_nonempty [simp]: "to_iso n \<noteq> []"
  by (simp add: to_iso_def Let_def split: prod.splits)

text \<open>What the validator reads of a ticket, and the part of it no transition changes.\<close>

definition identity_valid :: "platform \<Rightarrow> ticket \<Rightarrow> bool" where
  "identity_valid P t \<longleftrightarrow>
     list_all (\<lambda>s. s \<noteq> []) [t_id t, t_scope t, t_idempotency_key t, t_fingerprint t, t_request_id t,
        t_session_id t, t_submitted_at t]
     \<and> prefixed_b64url43 ''ticket-'' (t_id t) \<and> mutation_ticket_id P (t_scope t) = t_id t
     \<and> (let parts = split_on newline (t_scope t) in
          length parts = 3 \<and> parts ! 2 = t_idempotency_key t \<and> Some (parts ! 0) = operation_method (t_operation t))
     \<and> is_mutation_command P (t_command t) \<and> command_fingerprint P (t_command t) = t_fingerprint t
     \<and> as_string (field (t_command t) ''requestId'') = Some (t_request_id t)
     \<and> length (t_idempotency_key t) \<le> 512
     \<and> as_string (field (t_command t) ''operation'') = Some (t_operation t)
     \<and> as_string (field (t_command t) ''sessionId'') = Some (t_session_id t)
     \<and> t_generation t = command_generation (t_command t)
     \<and> safe_int_from 0 (map_option JNum (t_generation t))"

lemma ticket_state_str_failed: "ticket_state_str s = ''failed'' \<longleftrightarrow> s = Failed"
  by (cases s) auto

lemma as_int_num [simp]: "as_int (map_option JNum g) = g"
  by (cases g) auto

lemma valid_ticket_record_ticket:
  "valid_ticket_record P (ticket_json t) \<longleftrightarrow>
     identity_valid P t \<and> t_updated_at t \<noteq> []
     \<and> (case t_error t of None \<Rightarrow> t_state t \<noteq> Failed | Some e \<Rightarrow> is_api_error P (api_error_json e))"
  by (cases "t_error t")
     (auto simp: valid_ticket_record_def identity_valid_def ticket_json_fields str_field_def
       nonempty_string_def ticket_state_str_failed Let_def)

lemma identity_valid_update:
  "identity_valid P (t\<lparr>t_state := s, t_updated_at := n, t_result := r, t_error := e\<rparr>) = identity_valid P t"
  by (simp add: identity_valid_def)

lemma applied_patch_valid:
  assumes "collation_ok P" and "valid_ticket_record P (ticket_json t)"
    and "case patch of ErrorPatch e \<Rightarrow> ae_code e \<noteq> [] | _ \<Rightarrow> to \<noteq> Failed"
  shows "valid_ticket_record P (ticket_json (apply_patch P patch (t\<lparr>t_state := to, t_updated_at := to_iso n\<rparr>)))"
  using assms sanitized_error_valid [OF assms(1)]
  by (cases patch) (simp_all add: valid_ticket_record_ticket identity_valid_update)

end
