(* ===== verification/TicketClaims.thy ===== *)
theory TicketClaims
  imports Demo Canonical
begin

text \<open>The properties of the ticket store, each with the example that shows its hypotheses can hold.\<close>

section \<open>Runs of the store\<close>

text \<open>
  C1: Whatever the ticket directory held when the store recovered it, and whatever calls follow, with
  any outcome of their file operations, the two indexes of the store agree with each other, every
  ticket in memory is on disk at its own state or one allowed step ahead of it, and the number of
  retained tickets stays within the configured capacity.
\<close>

theorem recovered_store_keeps_invariant:
  assumes "ticket_recover P cfg io (empty_ticket_store dir) = (Inr rec, st)"
  shows "store_ok P cfg (ticket_run P cfg calls st)"
  using ticket_ledger.live_run [OF recover_live [OF assms], of calls]
  by (simp add: ticket_run_def live_def)

theorem recovered_store_keeps_invariant_witness:
  "store_ok demo_platform demo_ticket_config
     (ticket_run demo_platform demo_ticket_config [(demo_ticket_io 0, CallBegin (demo_input ''r1''))]
        demo_recovered)"
  by (rule recovered_store_keeps_invariant [OF demo_recover])

text \<open>
  C2: A ticket that has succeeded or failed is immutable: it is found unchanged after any calls none
  of which runs after its retention has expired or sees the clock jump beyond it.
\<close>

theorem settled_ticket_immutable:
  assumes "ticket_recover P cfg io (empty_ticket_store dir) = (Inr rec, st0)"
    and "st = ticket_run P cfg earlier st0"
    and "map_get (tickets st) k = Some t" and "t_state t = Succeeded \<or> t_state t = Failed"
    and "\<And>c. c \<in> set calls \<Longrightarrow> \<not> retired cfg (fst c) t"
  shows "map_get (tickets (ticket_run P cfg calls st)) k = Some t"
proof -
  have live: "live P cfg st"
    using ticket_ledger.live_run [OF recover_live [OF assms(1)], of earlier] assms(2)
    by (simp add: ticket_run_def)
  have "\<not> retired_by cfg c t" if "c \<in> set calls" for c
    using assms(5) [OF that] by (simp add: retired_by_def)
  with live assms(3) have "ticket_lookup (fold (ticket_step P cfg) calls st) k = Some t"
    by (intro ticket_ledger.run_settled) (auto simp: ticket_lookup_def settled_no_advance [OF assms(4)])
  then show ?thesis by (simp add: ticket_lookup_def ticket_run_def)
qed

theorem settled_ticket_immutable_witness:
  "map_get (tickets (ticket_run demo_platform demo_ticket_config
     [(demo_ticket_io 5, CallMarkRunning (t_id demo_ticket)), (demo_ticket_io 6, CallPrune)] demo_settled))
     (t_id demo_ticket) = Some demo_failed"
proof (rule settled_ticket_immutable [OF demo_recover,
      where earlier = "[(demo_ticket_io 0, CallBegin (demo_input ''r1'')),
                        (demo_ticket_io 5, CallMarkFailed (t_id demo_ticket) demo_failure)]"])
  show "demo_settled = ticket_run demo_platform demo_ticket_config
      [(demo_ticket_io 0, CallBegin (demo_input ''r1'')),
       (demo_ticket_io 5, CallMarkFailed (t_id demo_ticket) demo_failure)] demo_recovered"
    by (simp add: ticket_run_def ticket_step_def demo_begin demo_mark_failed)
  show "map_get (tickets demo_settled) (t_id demo_ticket) = Some demo_failed"
    by (simp add: demo_settled_def)
  show "t_state demo_failed = Succeeded \<or> t_state demo_failed = Failed"
    by (simp add: demo_failed_def)
  have "date_parse (to_iso 5) = Some 5" and "date_parse (to_iso 6) = Some 6" by code_simp+
  then show "\<not> retired demo_ticket_config (fst c) demo_failed"
    if "c \<in> set [(demo_ticket_io 5, CallMarkRunning (t_id demo_ticket)), (demo_ticket_io 6, CallPrune)]" for c
    using that by (auto simp: retired_def ticket_expired_def demo_failed_def demo_rooms demo_ticket_io_def)
qed

text \<open>
  C3: Along any run none of whose calls retires it, a ticket is never lost, keeps its identity (its
  scope, key, fingerprint, operation, session, generation, command and submission time), and its
  state only moves along the allowed transitions of the ticket state machine.
\<close>

theorem ticket_history:
  assumes "ticket_recover P cfg io (empty_ticket_store dir) = (Inr rec, st0)"
    and "st = ticket_run P cfg earlier st0"
    and "map_get (tickets st) k = Some t"
    and "\<And>i u. i < length calls \<Longrightarrow> map_get (tickets (ticket_run P cfg (take i calls) st)) k = Some u
           \<Longrightarrow> \<not> retired cfg (fst (calls ! i)) u"
  shows "\<exists>u. map_get (tickets (ticket_run P cfg calls st)) k = Some u \<and> same_identity t u
    \<and> (\<lambda>a b. allowed_transition a b True)\<^sup>*\<^sup>* (t_state t) (t_state u)"
proof -
  have live: "live P cfg st"
    using ticket_ledger.live_run [OF recover_live [OF assms(1)], of earlier] assms(2)
    by (simp add: ticket_run_def)
  obtain u where u: "ticket_lookup (fold (ticket_step P cfg) calls st) k = Some u" "advances\<^sup>*\<^sup>* t u"
    using ticket_ledger.run_keeps [OF live, of k t calls] assms(3,4)
    by (auto simp: ticket_lookup_def ticket_run_def retired_by_def)
  from u(2) have "(\<lambda>a b. allowed_transition a b True)\<^sup>*\<^sup>* (t_state t) (t_state u)"
    by (induction rule: rtranclp_induct) (auto simp: advances_def intro: rtranclp.rtrancl_into_rtrancl)
  with u advances_same [OF u(2)] show ?thesis
    by (auto simp: ticket_lookup_def ticket_run_def)
qed

theorem ticket_history_witness:
  "\<exists>u. map_get (tickets (ticket_run demo_platform demo_ticket_config
       [(demo_ticket_io 5, CallMarkFailed (t_id demo_ticket) demo_failure)] demo_submitted)) (t_id demo_ticket)
      = Some u \<and> same_identity demo_ticket u
    \<and> (\<lambda>a b. allowed_transition a b True)\<^sup>*\<^sup>* (t_state demo_ticket) (t_state u)"
proof (rule ticket_history [OF demo_recover, where earlier = "[(demo_ticket_io 0, CallBegin (demo_input ''r1''))]"])
  show "demo_submitted = ticket_run demo_platform demo_ticket_config
      [(demo_ticket_io 0, CallBegin (demo_input ''r1''))] demo_recovered"
    by (simp add: ticket_run_def ticket_step_def demo_begin)
  show found: "map_get (tickets demo_submitted) (t_id demo_ticket) = Some demo_ticket"
    by (simp add: demo_submitted_def)
  have "date_parse (to_iso 5) = Some 5" by code_simp
  then show "\<not> retired demo_ticket_config
      (fst ([(demo_ticket_io 5, CallMarkFailed (t_id demo_ticket) demo_failure)] ! i)) u"
    if "i < length [(demo_ticket_io 5, CallMarkFailed (t_id demo_ticket) demo_failure)]"
      and "map_get (tickets (ticket_run demo_platform demo_ticket_config
            (take i [(demo_ticket_io 5, CallMarkFailed (t_id demo_ticket) demo_failure)]) demo_submitted))
            (t_id demo_ticket) = Some u" for i u
    using that found
    by (auto simp: retired_def ticket_expired_def demo_rooms demo_ticket_io_def ticket_run_def)
qed

text \<open>
  C4: A retried submission is admitted once.  When \<open>begin\<close> returned a ticket and the calls since then
  retired no version of it, a submission to the same method, target and key returns that ticket, at
  the state it has reached, and leaves the store as it is when its command has the same fingerprint
  (the request identifier may differ); with any other command it is refused as
  \<open>idempotency_conflict\<close> and the store is left as it is too.
\<close>

theorem begin_is_idempotent:
  assumes "ticket_recover P cfg io (empty_ticket_store dir) = (Inr rec, st0)"
    and "ticket_begin P cfg io1 inp (ticket_run P cfg earlier st0) = (Inr t, st)"
    and "\<And>i u. i < length calls \<Longrightarrow> map_get (tickets (ticket_run P cfg (take i calls) st)) (t_id t) = Some u
           \<Longrightarrow> \<not> retired cfg (fst (calls ! i)) u"
    and "st' = ticket_run P cfg calls st"
    and "in_method inp' = in_method inp" and "in_target inp' = in_target inp" and "in_key inp' = in_key inp"
    and "validate_begin_input P inp' = Inr ()"
  shows "\<exists>u. advances\<^sup>*\<^sup>* t u \<and> t_id u = t_id t \<and>
    ticket_begin P cfg io2 inp' st' =
      (if command_fingerprint P (in_command inp') = command_fingerprint P (in_command inp)
       then (Inr u, st') else (Inl (ticket_error ''idempotency_conflict''), st'))"
proof -
  let ?s = "ticket_scope (in_method inp) (in_target inp) (in_key inp)"
  let ?st1 = "ticket_run P cfg earlier st0"
  have live1: "live P cfg ?st1"
    using ticket_ledger.live_run [OF recover_live [OF assms(1)], of earlier] by (simp add: ticket_run_def)
  then obtain rec1 where rec1: "recovery ?st1 = Some (Inr rec1)" and ok1: "store_ok P cfg ?st1"
    by (auto simp: live_def)
  have run: "begin_locked P cfg io1 inp ?st1 = (Inr t, st)"
    using assms(2) rec1 by (simp add: ticket_begin_def recovered_then_live)
  note B = begin_locked_ok [OF run ok1]
  have live: "live P cfg st" using B(1,3) rec1 by (simp add: live_def)
  have t: "map_get (tickets st) (t_id t) = Some t" "t_scope t = ?s"
    "t_fingerprint t = command_fingerprint P (in_command inp)"
    using B(4) by auto
  obtain u where u: "map_get (tickets st') (t_id t) = Some u" "advances\<^sup>*\<^sup>* t u"
    using ticket_ledger.run_keeps [OF live, of "t_id t" t calls] t(1) assms(3,4)
    by (auto simp: ticket_lookup_def ticket_run_def retired_by_def)
  have same: "same_identity t u" using u(2) by (rule advances_same)
  have live': "live P cfg st'"
    using ticket_ledger.live_run [OF live, of calls] assms(4) by (simp add: ticket_run_def)
  then obtain rec' where rec': "recovery st' = Some (Inr rec')" and idx: "index_ok P st'"
    by (auto simp: live_def store_ok_def)
  have "map_get (scopes st') ?s = Some (t_id t)"
    using index_ok_scope [OF idx u(1)] same t(2) by (simp add: same_identity_def)
  then have "begin_locked P cfg io2 inp' st' =
      (if command_fingerprint P (in_command inp') = command_fingerprint P (in_command inp)
       then (Inr u, st') else (Inl (ticket_error ''idempotency_conflict''), st'))"
    using u(1) same t(3) assms(5-8) by (auto simp: begin_locked_def same_identity_def)
  with u(2) same rec' show ?thesis
    by (auto simp: ticket_begin_def recovered_then_live same_identity_def)
qed

theorem begin_is_idempotent_witness:
  "\<exists>u. advances\<^sup>*\<^sup>* demo_ticket u \<and> t_id u = t_id demo_ticket \<and>
    ticket_begin demo_platform demo_ticket_config (demo_ticket_io 9) (demo_input ''r2'') demo_submitted =
      (if command_fingerprint demo_platform (in_command (demo_input ''r2''))
            = command_fingerprint demo_platform (in_command (demo_input ''r1''))
       then (Inr u, demo_submitted) else (Inl (ticket_error ''idempotency_conflict''), demo_submitted))"
proof (rule begin_is_idempotent [OF demo_recover, where earlier = "[]" and calls = "[]" and ?io1.0 = "demo_ticket_io 0"])
  show "ticket_begin demo_platform demo_ticket_config (demo_ticket_io 0) (demo_input ''r1'')
      (ticket_run demo_platform demo_ticket_config [] demo_recovered) = (Inr demo_ticket, demo_submitted)"
    by (simp add: ticket_run_def demo_begin)
  have "is_mutation_command demo_platform (demo_delete ''r2'')" by code_simp
  then show "validate_begin_input demo_platform (demo_input ''r2'') = Inr ()"
    by (simp add: validate_begin_input_def demo_input_def)
qed (simp_all add: ticket_run_def demo_input_def)

text \<open>
  A pruning that returns removes exactly the terminal tickets (succeeded, failed or
  indeterminate) whose last update lies further back than the retention, and leaves every other
  ticket as it is.
\<close>

theorem prune_removes_exactly_expired:
  assumes "ticket_recover P cfg io0 (empty_ticket_store dir) = (Inr rec, st0)"
    and "st = ticket_run P cfg earlier st0"
    and "ticket_prune P cfg io st = (Inr n, st')"
  shows "map_get (tickets st') k =
    (case map_get (tickets st) k of
       Some t \<Rightarrow> if t_state t \<in> {Succeeded, Failed, Indeterminate} \<and> ticket_expired cfg (io_now io) t
                then None else Some t
     | None \<Rightarrow> None)"
proof -
  have "live P cfg st"
    using ticket_ledger.live_run [OF recover_live [OF assms(1)], of earlier] assms(2)
    by (simp add: ticket_run_def)
  then obtain rec1 where "recovery st = Some (Inr rec1)" and ok: "store_ok P cfg st"
    by (auto simp: live_def)
  then have "prune_locked P cfg io st = (Inr n, st')"
    using assms(3) by (simp add: ticket_prune_def recovered_then_live)
  from prune_locked_ok(4) [OF this ok refl, of k] show ?thesis by (auto split: option.splits)
qed

theorem prune_removes_exactly_expired_witness:
  "map_get (tickets (snd (ticket_prune demo_platform demo_ticket_config (demo_ticket_io 2000) demo_submitted)))
     (t_id demo_ticket) = Some demo_ticket"
proof -
  have pr: "ticket_prune demo_platform demo_ticket_config (demo_ticket_io 2000) demo_submitted
      = (Inr 0, demo_submitted)"
    by (simp add: ticket_prune_def recovered_then_live [of _ "\<lparr>rec_queued = [], rec_indeterminate = [],
        rec_terminal = [], rec_pruned = 0\<rparr>"] demo_recovered_def demo_submitted_def prune_locked_def
        expired_tickets_def)
  have st: "demo_submitted = ticket_run demo_platform demo_ticket_config
      [(demo_ticket_io 0, CallBegin (demo_input ''r1''))] demo_recovered"
    by (simp add: ticket_run_def ticket_step_def demo_begin)
  from prune_removes_exactly_expired [OF demo_recover st pr, of "t_id demo_ticket"] pr
  show ?thesis by (simp add: demo_submitted_def)
qed

text \<open>
  C5: Crash recovery.  After any run, a process that dies and recovers its directory finds every
  ticket the dead one held: at its own state or one allowed step ahead of it, a running ticket as
  indeterminate, except for the terminal ones whose retention has expired by then.
\<close>

theorem crash_recovers_every_ticket:
  assumes "ticket_recover P cfg io0 (empty_ticket_store dir) = (Inr rec0, st0)" and "js_map dir"
    and "st = ticket_run P cfg calls st0"
    and "ticket_recover P cfg io (empty_ticket_store (ticket_dir st)) = (Inr rec, st')"
    and "map_get (tickets st) k = Some t"
  shows "\<exists>u. (u = t \<or> advances t u) \<and> map_get (tickets st') k =
    (let v = (if t_state u = Running then next_ticket P io Indeterminate NoPatch u else u) in
     if is_terminal (t_state v) \<and> ticket_expired cfg (io_now io) v then None else Some v)"
proof -
  have live0: "live P cfg st0" by (rule recover_live [OF assms(1)])
  have sound0: "sound_store P st0" by (rule recover_sound [OF assms(1,2)])
  have "js_map (ticket_dir st0)" by (rule recover_dir [OF assms(1,2)])
  then have dir: "js_map (ticket_dir st)" using run_dir [OF live0] assms(3) by simp
  have live: "live P cfg st" and sound: "sound_store P st"
    using run_sound [OF live0 sound0, of calls] assms(3) by auto
  then have disk: "disk_ok st" and idx: "index_ok P st" by (auto simp: live_def store_ok_def)
  have id: "t_id t = k" using idx assms(5) by (rule index_ok_id)
  from disk assms(5) have "on_disk st t" by (auto simp: disk_ok_def)
  then obtain f v where f: "map_get (ticket_dir st) (ticket_file k) = Some f" "file_text f = JsonText v"
    and u: "ticket_of_json v = t \<or> advances t (ticket_of_json v)"
    by (auto simp: on_disk_def id)
  have same: "same_identity t (ticket_of_json v)" using u by (auto simp: advances_def)
  then have cmd: "is_mutation_command P (t_command (ticket_of_json v))"
    using sound_storeD [OF sound assms(5)] by (simp add: sound_ticket_def same_identity_def)
  obtain st1 where load: "ticket_load P cfg io (empty_ticket_store (ticket_dir st)) = (Inr rec, st1)"
    and st': "st' = st1\<lparr>recovery := Some (Inr rec)\<rparr>"
    by (rule ticket_recover_cases [OF assms(4)])
  have "map_get (tickets st1) k =
    (let v = (if t_state (ticket_of_json v) = Running
              then next_ticket P io Indeterminate NoPatch (ticket_of_json v) else ticket_of_json v) in
     if is_terminal (t_state v) \<and> ticket_expired cfg (io_now io) v then None else Some v)"
    using dir f by (intro ticket_load_file(3) [OF load _ _ f(2) refl cmd])
      (simp_all add: empty_ticket_store_def)
  with u st' show ?thesis by (intro exI [of _ "ticket_of_json v"]) simp
qed

theorem crash_recovers_every_ticket_witness:
  "\<exists>u. (u = demo_ticket \<or> advances demo_ticket u) \<and> map_get (tickets demo_restarted) (t_id demo_ticket) =
    (let v = (if t_state u = Running
              then next_ticket demo_platform (demo_ticket_io 9) Indeterminate NoPatch u else u) in
     if is_terminal (t_state v) \<and> ticket_expired demo_ticket_config (io_now (demo_ticket_io 9)) v
     then None else Some v)"
proof (rule crash_recovers_every_ticket [OF demo_recover _ _ demo_restart])
  show "demo_submitted = ticket_run demo_platform demo_ticket_config
      [(demo_ticket_io 0, CallBegin (demo_input ''r1''))] demo_recovered"
    by (simp add: ticket_run_def ticket_step_def demo_begin)
qed (simp_all add: demo_submitted_def)

text \<open>
  C6: \<open>#write\<close> measures the compact text of a record but \<open>#load\<close> the indented file: a new ticket whose
  compact record is within \<open>maxRecordBytes\<close> (it was accepted) while its published file is not makes
  every later recovery of the directory throw, whatever else happens.
\<close>

theorem accepted_ticket_can_block_recovery:
  assumes "ticket_recover P cfg io0 (empty_ticket_store dir) = (Inr rec0, st0)" and "js_map dir"
    and "st = ticket_run P cfg calls st0"
    and "map_get (scopes st) (ticket_scope (in_method inp) (in_target inp) (in_key inp)) = None"
    and "ticket_begin P cfg io1 inp st = (Inr t, st')"
    and "max_record_bytes cfg < published_size (ticket_json t)"
  shows "compact_size (ticket_json t) \<le> max_record_bytes cfg
    \<and> (\<exists>e. fst (ticket_recover P cfg io2 (empty_ticket_store (ticket_dir st'))) = Inl e)"
proof -
  have live0: "live P cfg st0" by (rule recover_live [OF assms(1)])
  have live: "live P cfg st"
    using run_sound [OF live0 recover_sound [OF assms(1,2)], of calls] assms(3) by simp
  have dir: "js_map (ticket_dir st)"
    using run_dir [OF live0 recover_dir [OF assms(1,2)]] assms(3) by simp
  obtain rec where rec: "recovery st = Some (Inr rec)" and ok: "store_ok P cfg st"
    using live by (auto simp: live_def)
  have run: "begin_locked P cfg io1 inp st = (Inr t, st')"
    using assms(5) rec by (simp add: ticket_begin_def recovered_then_live)
  have "index_ok P st" using ok by (simp add: store_ok_def)
  with run obtain st1 where create: "create_ticket P cfg io1 inp st1 = (Inr t, st')"
    using assms(4) by (cases rule: begin_locked_cases) auto
  note C = create_ticket_file [OF create]
  have dir': "js_map (ticket_dir st')" using begin_locked_dir [OF dir, of P cfg io1 inp] run by simp
  have "is_mutation_command P (t_command t)"
    using valid_ticket_sound [OF C(3)] by (simp add: sound_ticket_def)
  then have cmd: "is_mutation_command P (t_command (ticket_of_json (ticket_json t)))"
    by (simp add: ticket_round_trip)
  have "\<exists>e. fst (ticket_recover P cfg io2 (empty_ticket_store (ticket_dir st'))) = Inl e"
  proof (rule ccontr)
    assume none: "\<not> ?thesis"
    obtain r st2 where again: "ticket_recover P cfg io2 (empty_ticket_store (ticket_dir st')) = (r, st2)"
      by (cases "ticket_recover P cfg io2 (empty_ticket_store (ticket_dir st'))")
    with none obtain rec2 where "r = Inr rec2" by (cases r) auto
    with again obtain st3 where
      "ticket_load P cfg io2 (empty_ticket_store (ticket_dir st')) = (Inr rec2, st3)"
      by (metis ticket_recover_cases)
    from ticket_load_file(1) [OF this _ _ _ refl cmd, of "t_id t"] dir' C(1) assms(6)
    show False by (simp add: empty_ticket_store_def published_file_def)
  qed
  with C(2) show ?thesis by simp
qed

theorem accepted_ticket_can_block_recovery_witness:
  "compact_size (ticket_json demo_ticket) \<le> max_record_bytes demo_tight_config
    \<and> (\<exists>e. fst (ticket_recover demo_platform demo_tight_config (demo_ticket_io 9)
                (empty_ticket_store (ticket_dir demo_submitted))) = Inl e)"
proof (rule accepted_ticket_can_block_recovery [OF demo_recover, where calls = "[]"])
  show "max_record_bytes demo_tight_config < published_size (ticket_json demo_ticket)"
    using published_gt_compact [of "ticket_json demo_ticket"] by (simp add: demo_tight_config_def)
  show "ticket_begin demo_platform demo_tight_config (demo_ticket_io 0) (demo_input ''r1'') demo_recovered
      = (Inr demo_ticket, demo_submitted)"
    by (rule demo_begin_tight)
  show "demo_recovered = ticket_run demo_platform demo_tight_config [] demo_recovered"
    by (simp add: ticket_run_def)
qed (simp_all add: demo_recovered_def)

text \<open>
  A ticket returned for a submission is that submission's own: two submissions to which \<open>begin\<close>
  returned tickets of one scope were to the same method, target and key, although the scope only
  joins the three with newlines.
\<close>

theorem scopes_never_shared:
  assumes "ticket_recover P cfg io0 (empty_ticket_store dir) = (Inr rec0, st0)" and "js_map dir"
    and "ticket_begin P cfg io1 inp (ticket_run P cfg calls st0) = (Inr t, st)"
    and "ticket_begin P cfg io2 inp' (ticket_run P cfg calls' st) = (Inr t', st')"
    and "t_scope t' = t_scope t"
  shows "in_method inp' = in_method inp \<and> in_target inp' = in_target inp \<and> in_key inp' = in_key inp"
proof -
  have L: "live P cfg (ticket_run P cfg calls st0)" and S: "sound_store P (ticket_run P cfg calls st0)"
    using run_sound [OF recover_live [OF assms(1)] recover_sound [OF assms(1,2)]] by auto
  have own: "t_scope u = ticket_scope (in_method j) (in_target j) (in_key j)
      \<and> sound_ticket P u \<and> live P cfg z' \<and> sound_store P z'"
    if "live P cfg z" "sound_store P z" "ticket_begin P cfg io j z = (Inr u, z')" for z z' u io j
  proof -
    note begun = that
    obtain rec where rec: "recovery z = Some (Inr rec)" and ok: "store_ok P cfg z"
      using begun(1) by (auto simp: live_def)
    have run: "begin_locked P cfg io j z = (Inr u, z')"
      using begun(3) rec by (simp add: ticket_begin_def recovered_then_live)
    note B = begin_locked_ok [OF run ok]
    have "sound_store P z'" by (rule begin_locked_sound [OF run ok begun(2)])
    with B rec show ?thesis by (auto simp: live_def intro: sound_storeD)
  qed
  note first = own [OF L S assms(3)]
  have "live P cfg (ticket_run P cfg calls' st) \<and> sound_store P (ticket_run P cfg calls' st)"
    using first run_sound by blast
  with own assms(4) have second: "t_scope t' = ticket_scope (in_method inp') (in_target inp') (in_key inp')"
    by blast
  have "length (split_on newline (t_scope t)) = 3" using first unfolding sound_ticket_def by blast
  with first second assms(5) show ?thesis
    using scope_injective [of "in_method inp" "in_target inp" "in_key inp"] by metis
qed

theorem scopes_never_shared_witness:
  "in_method (demo_input ''r1'') = in_method (demo_input ''r1'') \<and> in_target (demo_input ''r1'')
     = in_target (demo_input ''r1'') \<and> in_key (demo_input ''r1'') = in_key (demo_input ''r1'')
   \<and> t_scope demo_ticket = demo_scope"
proof -
  have again: "ticket_begin demo_platform demo_ticket_config (demo_ticket_io 3) (demo_input ''r1'')
      (ticket_run demo_platform demo_ticket_config [] demo_submitted) = (Inr demo_ticket, demo_submitted)"
    by (simp add: ticket_run_def demo_begin_again)
  from scopes_never_shared [OF demo_recover, where calls = "[]" and t = demo_ticket and
      st = demo_submitted and ?io1.0 = "demo_ticket_io 0" and inp = "demo_input ''r1''",
      OF _ _ again] show ?thesis by (simp add: ticket_run_def demo_begin)
qed

text \<open>
  C7: The fingerprint of a command depends neither on its request identifier nor on the order of
  the keys of any object in it, at any depth.
\<close>

theorem fingerprint_ignores_request_and_key_order:
  assumes "same_json (without_key ''requestId'' c) (without_key ''requestId'' c')"
  shows "command_fingerprint P c = command_fingerprint P c'"
  using canonical_same [OF assms] by (simp add: command_fingerprint_def)

theorem fingerprint_ignores_request_and_key_order_witness:
  "command_fingerprint demo_platform (demo_delete ''r1'')
     = command_fingerprint demo_platform
        (JObj [(''sessionId'', JStr ''s''), (''requestId'', JStr ''r2''), (''operation'', JStr ''delete''),
           (''retainArtifacts'', JBool False), (''expectedRevision'', JNum 1), (''expectedGeneration'', JNum 1)])"
  by (rule fingerprint_ignores_request_and_key_order, unfold demo_delete_def)
     (auto intro!: same_obj list.rel_refl same_refl)

text \<open>
  Every version of a ticket the store writes is a record its recovery accepts: creation writes
  only validated records, and a transition keeps a valid record valid, with the error of a failed
  ticket sanitized to the form the validator demands (the host's collation being a total preorder
  and the error having a code).
\<close>

theorem written_records_are_valid:
  assumes "collation_ok P" and "valid_ticket_record P (ticket_json cur)"
    and "transition_locked P cfg io cur to patch rc st = (Inr t, st')"
    and "case patch of ErrorPatch e \<Rightarrow> ae_code e \<noteq> [] | _ \<Rightarrow> to \<noteq> Failed"
  shows "valid_ticket_record P (ticket_json t)"
proof -
  have "valid_ticket_record P (ticket_json (next_ticket P io to patch cur))"
    unfolding next_ticket_def by (rule applied_patch_valid [OF assms(1,2,4)])
  with assms(3,2) show ?thesis by (cases rule: transition_locked_cases) auto
qed

theorem written_records_are_valid_witness:
  "valid_ticket_record demo_platform (ticket_json demo_failed)"
proof (rule written_records_are_valid [OF _ demo_ticket_valid demo_failing])
  show "collation_ok demo_platform"
    by (auto simp: collation_ok_def demo_platform_def code_unit_le_def)
qed (simp add: demo_failure_def)

end
