(* ===== verification/TicketRuns.thy ===== *)
theory TicketRuns
  imports TicketProps
begin

text \<open>
  \<open>MutationTicketController\<close> of \<open>src/tickets.ts\<close>: it executes queued tickets, one run per ticket, and
  records what became of them.  A run is the promise \<open>#launch\<close> creates; its phases are the points at
  which it awaits the store or the executor, and an event lets one of them settle, so that runs,
  submissions and crashes interleave in every order.  \<open>submit\<close> is one event: between the store's
  answer and the launch it awaits nothing that performs I/O, so no run can settle in between.
\<close>

section \<open>State\<close>

datatype run_phase =
    Starting
  | Executing
  | RecordingResult "json option"
  | RecordingFailure api_error
  | RecordingOversize

text \<open>
  \<open>log\<close> and \<open>admitted\<close> are ghosts: the tickets the executor was called for, with the context it got,
  and the tickets that submissions without a retained ticket asked the store to create.
\<close>

record 'c controller =
  ctl_store :: ticket_store
  ctl_executor :: bool
  ctl_recovered :: bool
  ctl_draining :: bool
  ctl_runs :: "(string, run_phase) jsmap"
  ctl_contexts :: "(string, 'c) jsmap"
  ctl_log :: "(string \<times> 'c option) list"
  ctl_admitted :: "string list"

definition new_controller :: "directory \<Rightarrow> (string \<times> 'c option) list \<Rightarrow> string list \<Rightarrow> 'c controller" where
  "new_controller dir lg adm =
     \<lparr>ctl_store = empty_ticket_store dir, ctl_executor = False, ctl_recovered = False,
      ctl_draining = False, ctl_runs = [], ctl_contexts = [], ctl_log = lg, ctl_admitted = adm\<rparr>"

section \<open>Operations\<close>

definition launch :: "ticket \<Rightarrow> 'c controller \<Rightarrow> 'c controller" where
  "launch t c =
     (if map_has (ctl_runs c) (t_id t) then c
      else c\<lparr>ctl_runs := map_set (ctl_runs c) (t_id t) Starting\<rparr>)"

definition controller_recover ::
  "platform \<Rightarrow> ticket_config \<Rightarrow> ticket_io \<Rightarrow> 'c controller \<Rightarrow> ticket_recovery result \<times> 'c controller" where
  "controller_recover P cfg io c =
     (if ctl_recovered c then (Inl (ticket_error ''tickets_already_recovered''), c)
      else
        (case ticket_recover P cfg io (ctl_store c) of
           (Inl e, st) \<Rightarrow> (Inl e, c\<lparr>ctl_store := st, ctl_executor := True\<rparr>)
         | (Inr rec, st) \<Rightarrow>
             (Inr rec, fold launch (rec_queued rec)
                         (c\<lparr>ctl_store := st, ctl_executor := True, ctl_recovered := True\<rparr>))))"

text \<open>Whether a submission reaches the creation of a new ticket.\<close>

definition admits :: "platform \<Rightarrow> begin_input \<Rightarrow> ticket_store \<Rightarrow> bool" where
  "admits P inp st \<longleftrightarrow>
     map_get (scopes st) (ticket_scope (in_method inp) (in_target inp) (in_key inp)) = None"

definition submit ::
  "platform \<Rightarrow> ticket_config \<Rightarrow> ticket_io \<Rightarrow> begin_input \<Rightarrow> 'c option \<Rightarrow> 'c controller
   \<Rightarrow> ticket result \<times> 'c controller" where
  "submit P cfg io inp ctx c =
     (if ctl_draining c then (Inl (JsError TicketStoreError ''tickets_draining'' True), c)
      else if \<not> ctl_recovered c \<or> \<not> ctl_executor c
      then (Inl (ticket_error ''tickets_not_ready''), c)
      else
        (let c1 = (if admits P inp (ctl_store c)
                   then c\<lparr>ctl_admitted := mutation_ticket_id P
                            (ticket_scope (in_method inp) (in_target inp) (in_key inp)) # ctl_admitted c\<rparr>
                   else c)
         in case ticket_begin P cfg io inp (ctl_store c1) of
           (Inl e, st) \<Rightarrow> (Inl e, c1\<lparr>ctl_store := st\<rparr>)
         | (Inr t, st) \<Rightarrow>
             (let c2 = c1\<lparr>ctl_store := st\<rparr> in
              (Inr t,
               if t_state t = Queued
               then launch t (case ctx of None \<Rightarrow> c2
                     | Some x \<Rightarrow> c2\<lparr>ctl_contexts := map_set (ctl_contexts c2) (t_id t) x\<rparr>)
               else c2))))"

definition begin_drain :: "'c controller \<Rightarrow> 'c controller" where
  "begin_drain c = c\<lparr>ctl_draining := True\<rparr>"

definition pending_runs :: "'c controller \<Rightarrow> nat" where
  "pending_runs c = length (ctl_runs c)"

definition controller_reconcile ::
  "platform \<Rightarrow> ticket_config \<Rightarrow> ticket_io \<Rightarrow> string \<Rightarrow> reconcile_outcome \<Rightarrow> 'c controller
   \<Rightarrow> ticket result \<times> 'c controller" where
  "controller_reconcile P cfg io k outcome c =
     (let (r, st) = ticket_reconcile P cfg io k outcome (ctl_store c) in (r, c\<lparr>ctl_store := st\<rparr>))"

text \<open>The \<open>finally\<close> of a run that settled.\<close>

definition finish_run :: "string \<Rightarrow> 'c controller \<Rightarrow> 'c controller" where
  "finish_run k c =
     c\<lparr>ctl_runs := map_del (ctl_runs c) k, ctl_contexts := map_del (ctl_contexts c) k\<rparr>"

definition enter :: "string \<Rightarrow> run_phase \<Rightarrow> 'c controller \<Rightarrow> 'c controller" where
  "enter k ph c = c\<lparr>ctl_runs := map_set (ctl_runs c) k ph\<rparr>"

definition oversize_failure :: api_error where
  "oversize_failure =
     \<lparr>ae_code = ''terminal_result_too_large'',
      ae_message = ''terminal ticket result exceeds retention limit'',
      ae_retryable = False, ae_details = None\<rparr>"

text \<open>\<open>markRunning\<close> settles: the executor is called with the context of the submission, if any.\<close>

definition start_run ::
  "platform \<Rightarrow> ticket_config \<Rightarrow> ticket_io \<Rightarrow> string \<Rightarrow> 'c controller \<Rightarrow> 'c controller" where
  "start_run P cfg io k c =
     (case mark_running P cfg io k (ctl_store c) of
        (Inl e, st) \<Rightarrow> finish_run k (c\<lparr>ctl_store := st\<rparr>)
      | (Inr t, st) \<Rightarrow>
          enter k Executing
            (c\<lparr>ctl_store := st, ctl_log := (k, map_get (ctl_contexts c) k) # ctl_log c\<rparr>))"

text \<open>
  The store call of a run that is recording settles.  \<open>props\<close> and \<open>message\<close> are what
  \<open>safeTicketError\<close> reads of the exception, if \<open>markSucceeded\<close> throws one.
\<close>

definition record_run ::
  "platform \<Rightarrow> ticket_config \<Rightarrow> ticket_io \<Rightarrow> string \<Rightarrow> json option \<Rightarrow> string option \<Rightarrow> run_phase
   \<Rightarrow> 'c controller \<Rightarrow> 'c controller" where
  "record_run P cfg io k props message ph c =
     (case ph of
        RecordingResult r \<Rightarrow>
          (case mark_succeeded P cfg io k r (ctl_store c) of
             (Inl e, st) \<Rightarrow>
               enter k (RecordingFailure (safe_ticket_error P props message)) (c\<lparr>ctl_store := st\<rparr>)
           | (Inr _, st) \<Rightarrow> finish_run k (c\<lparr>ctl_store := st\<rparr>))
      | RecordingFailure err \<Rightarrow>
          (case mark_failed P cfg io k err (ctl_store c) of
             (Inl e, st) \<Rightarrow>
               if err_class e = TicketStoreError \<and> err_code e = ''ticket_record_too_large''
               then enter k RecordingOversize (c\<lparr>ctl_store := st\<rparr>)
               else finish_run k (c\<lparr>ctl_store := st\<rparr>)
           | (Inr _, st) \<Rightarrow> finish_run k (c\<lparr>ctl_store := st\<rparr>))
      | RecordingOversize \<Rightarrow>
          (let (_, st) = mark_failed P cfg io k oversize_failure (ctl_store c)
           in finish_run k (c\<lparr>ctl_store := st\<rparr>))
      | _ \<Rightarrow> c)"

section \<open>Events\<close>

datatype 'c controller_event =
    EvRecover ticket_io
  | EvSubmit ticket_io begin_input "'c option"
  | EvDrain
  | EvReconcile ticket_io string reconcile_outcome
  | EvPrune ticket_io
  | EvStart ticket_io string
  | EvReturn string "json option"
  | EvThrow string "json option" "string option"
  | EvRecord ticket_io string "json option" "string option"
  | EvCrash

fun controller_step ::
  "platform \<Rightarrow> ticket_config \<Rightarrow> 'c controller_event \<Rightarrow> 'c controller \<Rightarrow> 'c controller" where
  "controller_step P cfg (EvRecover io) c = snd (controller_recover P cfg io c)"
| "controller_step P cfg (EvSubmit io inp ctx) c = snd (submit P cfg io inp ctx c)"
| "controller_step P cfg EvDrain c = begin_drain c"
| "controller_step P cfg (EvReconcile io k out) c = snd (controller_reconcile P cfg io k out c)"
| "controller_step P cfg (EvPrune io) c = c\<lparr>ctl_store := snd (ticket_prune P cfg io (ctl_store c))\<rparr>"
| "controller_step P cfg (EvStart io k) c =
     (case map_get (ctl_runs c) k of Some Starting \<Rightarrow> start_run P cfg io k c | _ \<Rightarrow> c)"
| "controller_step P cfg (EvReturn k r) c =
     (case map_get (ctl_runs c) k of Some Executing \<Rightarrow> enter k (RecordingResult r) c | _ \<Rightarrow> c)"
| "controller_step P cfg (EvThrow k props message) c =
     (case map_get (ctl_runs c) k of
        Some Executing \<Rightarrow> enter k (RecordingFailure (safe_ticket_error P props message)) c
      | _ \<Rightarrow> c)"
| "controller_step P cfg (EvRecord io k props message) c =
     (case map_get (ctl_runs c) k of
        Some ph \<Rightarrow> record_run P cfg io k props message ph c
      | None \<Rightarrow> c)"
| "controller_step P cfg EvCrash c =
     new_controller (ticket_dir (ctl_store c)) (ctl_log c) (ctl_admitted c)"

definition controller_run ::
  "platform \<Rightarrow> ticket_config \<Rightarrow> 'c controller_event list \<Rightarrow> 'c controller \<Rightarrow> 'c controller" where
  "controller_run P cfg evs c = fold (controller_step P cfg) evs c"

definition executions :: "string \<Rightarrow> 'c controller \<Rightarrow> nat" where
  "executions k c = length (List.filter (\<lambda>e. fst e = k) (ctl_log c))"

definition admissions :: "string \<Rightarrow> 'c controller \<Rightarrow> nat" where
  "admissions k c = length (List.filter (\<lambda>j. j = k) (ctl_admitted c))"

end
