(* ===== verification/TicketRunLaws.thy ===== *)
theory TicketRunLaws
  imports TicketRuns
begin

text \<open>
  No ticket is executed more often than it was admitted, in any interleaving and across crashes: the
  invariant follows which tickets are queued in memory and on disk.
\<close>

section \<open>Queued in memory, queued on disk\<close>

definition queued :: "ticket_store \<Rightarrow> string \<Rightarrow> bool" where
  "queued st k \<longleftrightarrow> (\<exists>t. map_get (tickets st) k = Some t \<and> t_state t = Queued)"

definition queued_file :: "ticket_store \<Rightarrow> string \<Rightarrow> bool" where
  "queued_file st k \<longleftrightarrow>
     (\<exists>f v. map_get (ticket_dir st) (ticket_file k) = Some f \<and> file_text f = JsonText v
        \<and> t_state (ticket_of_json v) = Queued)"

text \<open>Nothing becomes queued, and what is queued outside \<open>A\<close> stays so.\<close>

definition quiet :: "string set \<Rightarrow> ticket_store \<Rightarrow> ticket_store \<Rightarrow> bool" where
  "quiet A st st' \<longleftrightarrow>
     (\<forall>k. queued st' k \<longrightarrow> queued st k) \<and> (\<forall>k. queued_file st' k \<longrightarrow> queued_file st k)
     \<and> (\<forall>k. k \<notin> A \<longrightarrow> queued st k \<longrightarrow> queued st' k)"

lemma quiet_refl [simp]: "quiet A st st"
  by (simp add: quiet_def)

lemma quiet_trans: "quiet A st st1 \<Longrightarrow> quiet A st1 st2 \<Longrightarrow> quiet A st st2"
  unfolding quiet_def by blast

lemma quiet_mono: "quiet A st st' \<Longrightarrow> A \<subseteq> B \<Longrightarrow> quiet B st st'"
  unfolding quiet_def by blast

lemma queued_file_write:
  assumes "ticket_write P cfg io k v st = (r, st')" and "queued_file st' j"
  shows "queued_file st j \<or> (j = k \<and> t_state (ticket_of_json v) = Queued)"
  using assms(1)
proof (cases rule: ticket_write_cases)
  case published
  with assms(2) show ?thesis by (auto simp: queued_file_def published_file_def split: if_splits)
qed (use assms(2) in auto)

lemma transition_locked_quiet:
  assumes run: "transition_locked P cfg io cur to patch rc st = (r, st')" and "to \<noteq> Queued"
    and idx: "map_get (tickets st) (t_id cur) = Some cur"
  shows "quiet {t_id cur} st st'"
    and "r = Inr t \<Longrightarrow> t_id t = t_id cur \<and> t_state t = to \<and> map_get (tickets st') (t_id cur) = Some t"
proof -
  have st: "t_state (ticket_of_json (ticket_json (next_ticket P io to patch cur))) = to"
    by (simp add: ticket_round_trip)
  from run show "quiet {t_id cur} st st'"
  proof (cases rule: transition_locked_cases)
    case (lost e)
    with st assms(2) show ?thesis
      by (auto simp: quiet_def queued_def queued_file_def published_file_def split: if_splits)
  next
    case moved
    with st assms(2) show ?thesis
      by (auto simp: quiet_def queued_def queued_file_def published_file_def split: if_splits)
  qed auto
  show "t_id t = t_id cur \<and> t_state t = to \<and> map_get (tickets st') (t_id cur) = Some t" if "r = Inr t"
    using run by (cases rule: transition_locked_cases) (use that idx in auto)
qed

lemma remove_expired_files:
  "queued_file (snd (remove_expired io ts n st)) k \<Longrightarrow> queued_file st k"
proof (induction ts arbitrary: n st)
  case (Cons t ts)
  show ?case
  proof (cases "io_rm io (ticket_file (t_id t))")
    case None
    with Cons show ?thesis by (fastforce simp: queued_file_def split: if_splits)
  qed (use Cons in simp)
qed simp

lemma prune_locked_quiet:
  assumes run: "prune_locked P cfg io st = (r, st')" and ok: "store_ok P cfg st"
  shows "quiet {} st st'"
proof -
  have idx: "index_ok P st" using ok by (simp add: store_ok_def)
  have got: "map_get (tickets st) (t_id t) = Some t" if "t \<in> set (expired_tickets P cfg (io_now io) st)" for t
    using idx expired_ticketsD(3) [OF that] by (rule index_ok_val)
  note all = remove_expired_ok [OF run [unfolded prune_locked_def] ok expired_distinct [OF idx] got]
  have live: "map_get (tickets st') k = map_get (tickets st) k" if k: "queued st k" for k
  proof -
    obtain t where t: "map_get (tickets st) k = Some t" "t_state t = Queued"
      using k by (auto simp: queued_def)
    have "k \<notin> t_id ` set (expired_tickets P cfg (io_now io) st)"
      using t got expired_ticketsD(1) by fastforce
    with all show ?thesis by blast
  qed
  have "queued st k" if "queued st' k" for k
    using that prune_locked_keeps [OF run ok] by (auto simp: queued_def)
  moreover have "queued_file st k" if "queued_file st' k" for k
    using remove_expired_files [of io "expired_tickets P cfg (io_now io) st" 0 st k] run that
    by (simp add: prune_locked_def)
  moreover have "queued st' k" if "queued st k" for k
    using that live [OF that] by (simp add: queued_def)
  ultimately show ?thesis by (simp add: quiet_def)
qed

lemma settle_ticket_quiet:
  assumes live: "live P cfg st" and run: "settle_ticket P cfg io k to patch st = (r, st')" and "to \<noteq> Queued"
  shows "quiet {k} st st'"
proof -
  obtain rec where rec: "recovery st = Some (Inr rec)" and ok: "store_ok P cfg st"
    using live by (auto simp: live_def)
  have idx: "index_ok P st" using ok by (simp add: store_ok_def)
  obtain r1 st1 where tr: "ticket_transition P cfg io k to patch st = (r1, st1)"
    by (cases "ticket_transition P cfg io k to patch st")
  note L = ticket_transition_live [OF live tr]
  have q1: "quiet {k} st st1"
  proof (cases "map_get (tickets st) k")
    case None
    with tr rec show ?thesis by (simp add: ticket_transition_def recovered_then_live)
  next
    case (Some cur)
    have "transition_locked P cfg io cur to patch False st = (r1, st1)"
      using tr rec Some by (simp add: ticket_transition_def recovered_then_live)
    from transition_locked_quiet(1) [OF this assms(3)] Some index_ok_id [OF idx Some]
    show ?thesis by simp
  qed
  obtain r2 st2 where pr: "prune_locked P cfg io st1 = (r2, st2)" by (cases "prune_locked P cfg io st1")
  have "st' = st1 \<or> st' = st2"
    using run tr pr rec L(3)
    by (cases r1; cases r2) (auto simp: settle_ticket_def ticket_prune_def recovered_then_live)
  moreover have "quiet {k} st st2"
    by (rule quiet_trans [OF q1 quiet_mono [OF prune_locked_quiet [OF pr L(1)]]]) simp
  ultimately show ?thesis using q1 by auto
qed

section \<open>Admission\<close>

definition input_id :: "platform \<Rightarrow> begin_input \<Rightarrow> string" where
  "input_id P inp = mutation_ticket_id P (ticket_scope (in_method inp) (in_target inp) (in_key inp))"

lemma create_ticket_files:
  assumes "create_ticket P cfg io inp st = (r, st')" and "queued_file st' k"
  shows "queued_file st k \<or> k = input_id P inp"
proof -
  let ?t = "new_ticket P (io_stamp io) inp"
  obtain r1 st1 where w: "ticket_write P cfg io (t_id ?t) (ticket_json ?t) st = (r1, st1)"
    by (cases "ticket_write P cfg io (t_id ?t) (ticket_json ?t) st")
  obtain r2 st2 where reg: "ticket_register ?t st1 = (r2, st2)" by (cases "ticket_register ?t st1")
  have dir: "ticket_dir st2 = ticket_dir st1" using ticket_register_dir [of ?t st1] reg by simp
  have "st' = st \<or> st' = st1 \<or> st' = st2"
    using assms(1) w reg unfolding create_ticket_def Let_def
    by (auto split: if_splits option.splits sum.splits simp del: new_ticket_facts)
  then have "queued_file st k \<or> queued_file st1 k" using assms(2) dir by (auto simp: queued_file_def)
  with queued_file_write [OF w, of k] show ?thesis by (auto simp: input_id_def)
qed

lemma begin_locked_queued:
  assumes run: "begin_locked P cfg io inp st = (r, st')" and ok: "store_ok P cfg st"
  shows "queued st' k \<Longrightarrow> queued st k \<or> (admits P inp st \<and> k = input_id P inp)"
    and "queued_file st' k \<Longrightarrow> queued_file st k \<or> (admits P inp st \<and> k = input_id P inp)"
    and "queued st k \<Longrightarrow> queued st' k"
proof -
  have idx: "index_ok P st" using ok by (simp add: store_ok_def)
  from run idx have "(queued st' k \<longrightarrow> queued st k \<or> (admits P inp st \<and> k = input_id P inp))
    \<and> (queued_file st' k \<longrightarrow> queued_file st k \<or> (admits P inp st \<and> k = input_id P inp))
    \<and> (queued st k \<longrightarrow> queued st' k)"
  proof (cases rule: begin_locked_cases)
    case (pruning e)
    from prune_locked_quiet [OF pruning(1) ok] show ?thesis unfolding quiet_def by blast
  next
    case (creating m st1)
    have adm: "admits P inp st" using creating(3) by (simp add: admits_def)
    have q: "quiet {} st st1" by (rule prune_locked_quiet [OF creating(1) ok])
    have ok1: "store_ok P cfg st1" by (rule prune_locked_ok(1) [OF creating(1) ok])
    have files: "queued_file st' k \<longrightarrow> queued_file st1 k \<or> k = input_id P inp"
      using create_ticket_files [OF creating(2)] by blast
    from creating(2) ok1 begin_locked_scope_free [OF creating(1) ok creating(3)] show ?thesis
    proof (cases rule: create_ticket_cases)
      case failed
      then have "queued st' k = queued st1 k" by (simp add: queued_def)
      with q files adm show ?thesis unfolding quiet_def by blast
    next
      case created
      then have "queued st' k \<longrightarrow> queued st1 k \<or> k = input_id P inp" "queued st1 k \<longrightarrow> queued st' k"
        by (auto simp: queued_def input_id_def map_add_def split: option.splits if_splits)
      with q files adm show ?thesis unfolding quiet_def by blast
    qed
  qed auto
  then show "queued st' k \<Longrightarrow> queued st k \<or> (admits P inp st \<and> k = input_id P inp)"
    and "queued_file st' k \<Longrightarrow> queued_file st k \<or> (admits P inp st \<and> k = input_id P inp)"
    and "queued st k \<Longrightarrow> queued st' k" by auto
qed

section \<open>Recovery\<close>

lemma migrate_state [simp]:
  "t_state (ticket_of_json (fst (migrate_legacy_record P v))) = t_state (ticket_of_json v)"
proof (cases "field v ''command''")
  case (Some c)
  have "str_field (set_field (set_field v ''command'' x) ''fingerprint'' y) ''state'' = str_field v ''state''"
    for x y by (cases v) (simp_all add: str_field_def)
  with Some show ?thesis by (auto simp: migrate_legacy_record_def ticket_of_json_def Let_def)
qed (simp add: migrate_legacy_record_def)

lemma load_files_files:
  "queued_file (snd (load_files P cfg io names bytes st)) k \<Longrightarrow> queued_file st k"
proof (induction names arbitrary: bytes st)
  case (Cons name names)
  let ?file = "map_get (ticket_dir st) name"
  let ?size = "case state_file_size ?file of None \<Rightarrow> 0 | Some n \<Rightarrow> n"
  show ?case
  proof (cases "?size > max_record_bytes cfg \<or> bytes + ?size > max_recovery_bytes cfg")
    case True
    with Cons.prems show ?thesis by (auto simp: Let_def split: if_splits)
  next
    case fits: False
    show ?thesis
    proof (cases "read_private_json_if_exists (current_uid P) ?file")
      case (Inl e)
      with Cons.prems fits show ?thesis by (simp add: Let_def)
    next
      case (Inr content)
      show ?thesis
      proof (cases content)
        case None
        with Cons.prems fits Inr have "queued_file (snd (load_files P cfg io names (bytes + ?size) st)) k"
          by (simp add: Let_def)
        then show ?thesis by (rule Cons.IH)
      next
        case (Some loaded)
        obtain v migrated where mig: "migrate_legacy_record P loaded = (v, migrated)"
          by (cases "migrate_legacy_record P loaded")
        let ?t = "ticket_of_json v"
        obtain r1 st1 where w: "(if migrated then ticket_write P cfg io (t_id ?t) v st else (Inr (), st)) = (r1, st1)"
          by (cases "if migrated then ticket_write P cfg io (t_id ?t) v st else (Inr (), st)")
        obtain r2 st2 where reg: "ticket_register ?t st1 = (r2, st2)" by (cases "ticket_register ?t st1")
        have dir: "ticket_dir st2 = ticket_dir st1" using ticket_register_dir [of ?t st1] reg by simp
        have txt1: "\<exists>f. ?file = Some f \<and> file_text f = JsonText loaded"
          using Inr Some by (auto simp: read_private_json_if_exists_def split: option.splits sum.splits file_text.splits)
        have st: "t_state ?t = t_state (ticket_of_json loaded)" using migrate_state [of P loaded] mig by simp
        have prior: "queued_file st j" if "queued_file st1 j" "name = ticket_file (t_id ?t)" for j
        proof (cases migrated)
          case True
          then have "ticket_write P cfg io (t_id ?t) v st = (r1, st1)" using w by simp
          from queued_file_write [OF this that(1)] txt1 st that(2) show ?thesis
            by (auto simp: queued_file_def)
        qed (use w that in simp)
        let ?z = "snd (load_files P cfg io (name # names) bytes st)"
        have "?z = st \<or> (name = ticket_file (t_id ?t)
            \<and> (?z = st1 \<or> ?z = st2 \<or> ?z = snd (load_files P cfg io names (bytes + ?size) st2)))"
          using fits Inr Some mig w reg
          by (cases "validate_ticket_record P v"; cases "name = ticket_file (t_id ?t)"; cases r1; cases r2)
             (simp_all add: Let_def)
        then consider (bad) "queued_file st k" | (named) "name = ticket_file (t_id ?t)" "queued_file st1 k"
          | (rest) "name = ticket_file (t_id ?t)" "queued_file (snd (load_files P cfg io names (bytes + ?size) st2)) k"
          using Cons.prems dir unfolding queued_file_def by metis
        then show ?thesis
        proof cases
          case rest
          from Cons.IH [OF rest(2)] dir have "queued_file st1 k" by (simp add: queued_file_def)
          with rest(1) prior show ?thesis by blast
        qed (use prior in auto)
      qed
    qed
  qed
qed simp

text \<open>After loading, a ticket queued in memory is one whose file was.\<close>

lemma load_files_queued:
  assumes "load_files P cfg io names bytes st = (Inr u, st')" and "queued st' k"
  shows "queued st k \<or> queued_file st k"
  using assms
proof (induction names arbitrary: bytes st)
  case (Cons name names)
  show ?case
  proof (cases "map_get (ticket_dir st) name")
    case None
    with Cons.prems have "load_files P cfg io names bytes st = (Inr u, st')"
      by (auto simp: Let_def state_file_size_def read_private_json_if_exists_def split: if_splits)
    with Cons show ?thesis by blast
  next
    case (Some f)
    obtain v where v: "file_text f = JsonText v" by (rule load_files_text [OF Cons.prems(1) Some])
    let ?w = "ticket_of_json (fst (migrate_legacy_record P v))"
    obtain st2 where step: "load_files P cfg io names (bytes + file_size f) st2 = (Inr u, st')"
        "name = ticket_file (t_id ?w)" "map_get (tickets st) (t_id ?w) = None"
        "tickets st2 = tickets st @ [(t_id ?w, ?w)]"
        "\<forall>n. n \<noteq> name \<longrightarrow> map_get (ticket_dir st2) n = map_get (ticket_dir st) n"
        "map_get (ticket_dir st2) name = Some f \<or> map_get (ticket_dir st2) name
           = Some (published_file (current_uid P) (fst (migrate_legacy_record P v)))"
      by (rule load_files_step [OF Cons.prems(1) Some v refl])
    from Cons.IH [OF step(1) Cons.prems(2)] show ?thesis
    proof
      assume "queued st2 k"
      with step(4) have "queued st k \<or> (k = t_id ?w \<and> t_state ?w = Queued)"
        by (auto simp: queued_def map_add_def split: option.splits if_splits)
      with Some v step(2) show ?thesis by (auto simp: queued_file_def)
    next
      assume "queued_file st2 k"
      with step(5,6) Some v show ?thesis
        by (cases "ticket_file k = name") (auto simp: queued_file_def published_file_def)
    qed
  qed
qed simp

lemma interrupt_running_quiet:
  assumes "interrupt_running P cfg io ts st = (r, st')" and "store_ok P cfg st"
    and "distinct (List.map t_id ts)" and "\<And>t. t \<in> set ts \<Longrightarrow> map_get (tickets st) (t_id t) = Some t"
  shows "(\<forall>k. queued st' k \<longrightarrow> queued st k) \<and> (\<forall>k. queued_file st' k \<longrightarrow> queued_file st k)"
  using assms
proof (induction ts arbitrary: st)
  case (Cons t ts)
  show ?case
  proof (cases "t_state t = Running")
    case False
    with Cons show ?thesis by simp
  next
    case True
    have t: "map_get (tickets st) (t_id t) = Some t" using Cons.prems(4) by simp
    obtain r1 st1 where tr: "transition_locked P cfg io t Indeterminate NoPatch True st = (r1, st1)"
      by (cases "transition_locked P cfg io t Indeterminate NoPatch True st")
    have q: "quiet {t_id t} st st1" using transition_locked_quiet(1) [OF tr _ t] by simp
    have ok1: "store_ok P cfg st1" by (rule transition_locked_ok(1) [OF Cons.prems(2) t tr])
    show ?thesis
    proof (cases r1)
      case (Inl e)
      with Cons.prems(1) tr True have "st' = st1" by simp
      with q show ?thesis by (simp add: quiet_def)
    next
      case (Inr n)
      with Cons.prems(1) tr True have run: "interrupt_running P cfg io ts st1 = (r, st')" by simp
      have "map_get (tickets st1) (t_id v) = Some v" if "v \<in> set ts" for v
        using tr
        by (cases rule: transition_locked_cases) (use that Cons.prems(3,4) in \<open>auto simp: image_iff\<close>)
      with Cons.IH [OF run ok1] Cons.prems(3) have
        "(\<forall>k. queued st' k \<longrightarrow> queued st1 k) \<and> (\<forall>k. queued_file st' k \<longrightarrow> queued_file st1 k)" by simp
      with q show ?thesis unfolding quiet_def by blast
    qed
  qed
qed simp

lemma ticket_load_files:
  assumes "ticket_load P cfg io st = (r, st')" and "queued_file st' k"
  shows "queued_file st k"
proof -
  let ?st = "st\<lparr>tickets := [], scopes := []\<rparr>" and ?names = "json_file_names (ticket_dir st)"
  obtain r1 st1 where l: "load_files P cfg io ?names 0 ?st = (r1, st1)"
    by (cases "load_files P cfg io ?names 0 ?st")
  obtain r2 st2 where i: "interrupt_running P cfg io (map_vals (tickets st1)) st1 = (r2, st2)"
    by (cases "interrupt_running P cfg io (map_vals (tickets st1)) st1")
  obtain r3 st3 where p: "prune_locked P cfg io st2 = (r3, st3)"
    by (cases "prune_locked P cfg io st2")
  have f1: "queued_file st k" if "queued_file st1 k" for k
    using load_files_files [of P cfg io ?names 0 ?st k] l that by (simp add: queued_file_def)
  show ?thesis
  proof (cases "is_ok (io_ready io) \<and> length ?names \<le> max_tickets cfg \<and> is_ok r1")
    case False
    then have "ticket_dir st' = ticket_dir st \<or> ticket_dir st' = ticket_dir st1"
      using assms(1) l by (auto simp: ticket_load_def Let_def split: sum.splits if_splits)
    with f1 assms(2) show ?thesis by (auto simp: queued_file_def)
  next
    case True
    then have r1: "r1 = Inr ()" by (cases r1) auto
    have empty: "index_ok P ?st" "disk_ok ?st" by (simp_all add: index_ok_def disk_ok_def)
    have ok1: "store_ok P cfg st1"
      using load_files_ok [OF l [unfolded r1] empty] True by (simp add: store_ok_def)
    then have idx: "index_ok P st1" by (simp add: store_ok_def)
    have dist: "distinct (List.map t_id (map_vals (tickets st1)))"
      unfolding index_ok_keys [OF idx] using index_ok_maps(1) [OF idx] by (simp add: js_map_def)
    note I = interrupt_running_quiet [OF i ok1 dist index_ok_val [OF idx]]
    have ok2: "store_ok P cfg st2"
      using interrupt_running_ok [OF i ok1 dist index_ok_val [OF idx]] by simp
    have "st' = st2 \<or> st' = st3"
      using assms(1) True l r1 i p
      by (cases r2; cases r3) (auto simp: ticket_load_def Let_def not_less split: sum.splits if_splits)
    with I f1 prune_locked_quiet [OF p ok2] assms(2) show ?thesis unfolding quiet_def by blast
  qed
qed

lemma ticket_load_queued:
  assumes load: "ticket_load P cfg io st = (Inr rec, st')" and "queued st' k"
  shows "queued_file st k"
proof -
  let ?st = "st\<lparr>tickets := [], scopes := []\<rparr>"
  obtain st1 st2 m where l: "length (json_file_names (ticket_dir st)) \<le> max_tickets cfg"
      "load_files P cfg io (json_file_names (ticket_dir st)) 0 ?st = (Inr (), st1)"
    and i: "interrupt_running P cfg io (map_vals (tickets st1)) st1 = (Inr (), st2)"
    and p: "prune_locked P cfg io st2 = (Inr m, st')"
    by (rule ticket_load_cases [OF load])
  have empty: "index_ok P ?st" "disk_ok ?st" by (simp_all add: index_ok_def disk_ok_def)
  have ok1: "store_ok P cfg st1" using load_files_ok [OF l(2) empty] l(1) by (simp add: store_ok_def)
  then have idx: "index_ok P st1" by (simp add: store_ok_def)
  have dist: "distinct (List.map t_id (map_vals (tickets st1)))"
    unfolding index_ok_keys [OF idx] using index_ok_maps(1) [OF idx] by (simp add: js_map_def)
  note I = interrupt_running_quiet [OF i ok1 dist index_ok_val [OF idx]]
  have ok2: "store_ok P cfg st2"
    using interrupt_running_ok [OF i ok1 dist index_ok_val [OF idx]] by simp
  have "queued st1 k" using assms(2) I prune_locked_quiet [OF p ok2] unfolding quiet_def by blast
  from load_files_queued [OF l(2) this] show ?thesis by (auto simp: queued_def queued_file_def)
qed

lemma ticket_load_lists:
  assumes "ticket_load P cfg io st = (Inr rec, st')" and "t \<in> set (rec_queued rec)"
  shows "map_get (tickets st') (t_id t) = Some t \<and> t_state t = Queued"
proof -
  have ok: "store_ok P cfg st'" by (rule ticket_load_ok(1) [OF assms(1)])
  then have idx: "index_ok P st'" by (simp add: store_ok_def)
  obtain n where "rec = recovery_lists P st' n"
    using assms(1) by (auto simp: ticket_load_def Let_def split: sum.splits prod.splits if_splits)
  with assms(2) have "t \<in> set (map_vals (tickets st'))" "t_state t = Queued"
    by (auto simp: recovery_lists_def Let_def)
  with index_ok_val [OF idx] show ?thesis by blast
qed

end
