(* ===== verification/TicketRunInv.thy ===== *)
theory TicketRunInv
  imports TicketRunLaws
begin

text \<open>The invariant of the controller and its preservation by every event.\<close>

lemma quiet_drop:
  assumes "quiet {k} st st'" and "\<not> queued st k"
  shows "quiet {} st st'"
proof -
  have "queued st' j" if "queued st j" for j
    using assms that by (cases "j = k") (simp_all add: quiet_def)
  with assms(1) show ?thesis by (simp add: quiet_def)
qed

section \<open>The invariant\<close>

definition run_inv :: "platform \<Rightarrow> ticket_config \<Rightarrow> 'c controller \<Rightarrow> bool" where
  "run_inv P cfg c \<longleftrightarrow>
     (\<forall>k. executions k c \<le> admissions k c)
     \<and> (\<forall>k. queued_file (ctl_store c) k \<longrightarrow> executions k c < admissions k c)
     \<and> (\<forall>rec. recovery (ctl_store c) = Some (Inr rec) \<longrightarrow>
          store_ok P cfg (ctl_store c) \<and> (\<forall>k. queued (ctl_store c) k \<longrightarrow> executions k c < admissions k c))
     \<and> (ctl_recovered c \<longrightarrow> (\<exists>rec. recovery (ctl_store c) = Some (Inr rec)))
     \<and> (\<not> ctl_recovered c \<longrightarrow> ctl_runs c = []
          \<and> (\<forall>rec. recovery (ctl_store c) = Some (Inr rec) \<longrightarrow>
               (\<forall>t \<in> set (rec_queued rec). queued (ctl_store c) (t_id t))))
     \<and> (\<forall>k. map_get (ctl_runs c) k = Some Starting \<longrightarrow> queued (ctl_store c) k)"

lemma run_invI:
  assumes "\<And>k. executions k c \<le> admissions k c"
    and "\<And>k. queued_file (ctl_store c) k \<Longrightarrow> executions k c < admissions k c"
    and "\<And>rec. recovery (ctl_store c) = Some (Inr rec) \<Longrightarrow> store_ok P cfg (ctl_store c)"
    and "\<And>rec k. recovery (ctl_store c) = Some (Inr rec) \<Longrightarrow> queued (ctl_store c) k \<Longrightarrow>
           executions k c < admissions k c"
    and "ctl_recovered c \<Longrightarrow> \<exists>rec. recovery (ctl_store c) = Some (Inr rec)"
    and "\<not> ctl_recovered c \<Longrightarrow> ctl_runs c = []"
    and "\<And>rec t. \<not> ctl_recovered c \<Longrightarrow> recovery (ctl_store c) = Some (Inr rec) \<Longrightarrow>
           t \<in> set (rec_queued rec) \<Longrightarrow> queued (ctl_store c) (t_id t)"
    and "\<And>k. map_get (ctl_runs c) k = Some Starting \<Longrightarrow> queued (ctl_store c) k"
  shows "run_inv P cfg c"
  using assms unfolding run_inv_def by blast

lemma run_invD:
  assumes "run_inv P cfg c"
  shows "executions k c \<le> admissions k c"
    and "queued_file (ctl_store c) k \<Longrightarrow> executions k c < admissions k c"
    and "recovery (ctl_store c) = Some (Inr rec) \<Longrightarrow> store_ok P cfg (ctl_store c)"
    and "recovery (ctl_store c) = Some (Inr rec) \<Longrightarrow> queued (ctl_store c) k \<Longrightarrow>
           executions k c < admissions k c"
    and "ctl_recovered c \<Longrightarrow> \<exists>rec. recovery (ctl_store c) = Some (Inr rec)"
    and "\<not> ctl_recovered c \<Longrightarrow> ctl_runs c = []"
    and "\<not> ctl_recovered c \<Longrightarrow> recovery (ctl_store c) = Some (Inr rec) \<Longrightarrow>
           t \<in> set (rec_queued rec) \<Longrightarrow> queued (ctl_store c) (t_id t)"
    and "map_get (ctl_runs c) k = Some Starting \<Longrightarrow> queued (ctl_store c) k"
  using assms unfolding run_inv_def by blast+

lemma counts_cong:
  "ctl_log c' = ctl_log c \<Longrightarrow> executions k c' = executions k c"
  "ctl_admitted c' = ctl_admitted c \<Longrightarrow> admissions k c' = admissions k c"
  by (simp_all add: executions_def admissions_def)

section \<open>Steps that admit and execute nothing\<close>

text \<open>A call on a recovered store that makes nothing queued.\<close>

lemma quiet_inv:
  assumes inv: "run_inv P cfg c" and rec: "recovery (ctl_store c) = Some (Inr rec)"
    and q: "quiet A (ctl_store c) (ctl_store c')" and ok: "store_ok P cfg (ctl_store c')"
    and same: "recovery (ctl_store c') = recovery (ctl_store c)" "ctl_log c' = ctl_log c"
      "ctl_admitted c' = ctl_admitted c" "ctl_recovered c' = ctl_recovered c"
    and runs: "\<And>k. map_get (ctl_runs c') k = Some Starting \<Longrightarrow>
        map_get (ctl_runs c) k = Some Starting \<and> k \<notin> A"
    and early: "\<not> ctl_recovered c \<Longrightarrow> ctl_runs c' = [] \<and> A = {}"
  shows "run_inv P cfg c'"
proof (rule run_invI)
  note I = run_invD [OF inv]
  note C = counts_cong(1) [OF same(2)] counts_cong(2) [OF same(3)]
  show "executions k c' \<le> admissions k c'" for k using I(1) by (simp add: C)
  show "executions k c' < admissions k c'" if "queued_file (ctl_store c') k" for k
    using q that I(2) by (simp add: C quiet_def)
  show "store_ok P cfg (ctl_store c')" by (rule ok)
  show "executions k c' < admissions k c'" if "queued (ctl_store c') k" for k
    using q that I(4) [OF rec] by (simp add: C quiet_def)
  show "\<exists>rec. recovery (ctl_store c') = Some (Inr rec)" using rec same(1) by simp
  show "ctl_runs c' = []" if "\<not> ctl_recovered c'" using early that same(4) by simp
  show "queued (ctl_store c') (t_id t)"
    if "\<not> ctl_recovered c'" "recovery (ctl_store c') = Some (Inr rec')" "t \<in> set (rec_queued rec')" for rec' t
    using early I(7) [of rec' t] that same q by (auto simp: quiet_def)
  show "queued (ctl_store c') k" if "map_get (ctl_runs c') k = Some Starting" for k
    using runs [OF that] I(8) q by (auto simp: quiet_def)
qed

lemma same_store_inv:
  assumes inv: "run_inv P cfg c" and same: "ctl_store c' = ctl_store c" "ctl_log c' = ctl_log c"
      "ctl_admitted c' = ctl_admitted c" "ctl_recovered c' = ctl_recovered c"
    and runs: "\<And>k. map_get (ctl_runs c') k = Some Starting \<Longrightarrow> map_get (ctl_runs c) k = Some Starting"
    and early: "\<not> ctl_recovered c \<Longrightarrow> ctl_runs c' = []"
  shows "run_inv P cfg c'"
  using inv runs early unfolding run_inv_def counts_cong(1) [OF same(2)] counts_cong(2) [OF same(3)] same
  by blast

text \<open>The first use of the store recovers it.\<close>

lemma recover_inv:
  assumes inv: "run_inv P cfg c" and run: "ticket_recover P cfg io (ctl_store c) = (r, st)"
  shows "run_inv P cfg (c\<lparr>ctl_store := st\<rparr>)" and "recovery st = Some r"
    and "r = Inr rec \<Longrightarrow> ctl_recovered c \<or> (\<forall>t \<in> set (rec_queued rec). queued st (t_id t))"
proof -
  note I = run_invD [OF inv]
  have "run_inv P cfg (c\<lparr>ctl_store := st\<rparr>) \<and> recovery st = Some r
    \<and> (\<forall>rec. r = Inr rec \<longrightarrow> ctl_recovered c \<or> (\<forall>t \<in> set (rec_queued rec). queued st (t_id t)))"
  proof (cases "recovery (ctl_store c)")
    case (Some r0)
    then have same: "st = ctl_store c" "r = r0" using run by (auto simp: ticket_recover_def)
    with Some inv I(7) show ?thesis by auto
  next
    case None
    then have fresh: "\<not> ctl_recovered c" using I(5) by auto
    obtain st1 where load: "ticket_load P cfg io (ctl_store c) = (r, st1)"
      and st: "st = st1\<lparr>recovery := Some r\<rparr>"
      using run None by (auto simp: ticket_recover_def split: prod.splits)
    have onfile: "queued_file (ctl_store c) k" if "queued_file st k" for k
      using ticket_load_files [OF load, of k] that st by (simp add: queued_file_def)
    have mem: "queued_file (ctl_store c) k" if "r = Inr rec" "queued st k" for k rec
      using ticket_load_queued [OF load [unfolded that(1)], of k] that(2) st by (simp add: queued_def)
    have ok: "store_ok P cfg st" if "r = Inr rec" for rec
      using ticket_load_ok(1) [OF load [unfolded that]] st
      by (simp add: store_ok_def disk_ok_def on_disk_def)
    have lists: "queued st (t_id t)" if "r = Inr rec" "t \<in> set (rec_queued rec)" for t rec
      using ticket_load_lists [OF load [unfolded that(1)] that(2)] st by (auto simp: queued_def)
    have rec: "recovery st = Some r" using st by simp
    have "run_inv P cfg (c\<lparr>ctl_store := st\<rparr>)"
    proof (rule run_invI)
      show "executions k (c\<lparr>ctl_store := st\<rparr>) \<le> admissions k (c\<lparr>ctl_store := st\<rparr>)" for k
        using I(1) by (simp add: executions_def admissions_def)
      show "executions k (c\<lparr>ctl_store := st\<rparr>) < admissions k (c\<lparr>ctl_store := st\<rparr>)"
        if "queued_file (ctl_store (c\<lparr>ctl_store := st\<rparr>)) k" for k
        using I(2) onfile that by (simp add: executions_def admissions_def)
      show "executions k (c\<lparr>ctl_store := st\<rparr>) < admissions k (c\<lparr>ctl_store := st\<rparr>)"
        if "recovery (ctl_store (c\<lparr>ctl_store := st\<rparr>)) = Some (Inr rec)"
          "queued (ctl_store (c\<lparr>ctl_store := st\<rparr>)) k" for k rec
        using I(2) mem that rec by (simp add: executions_def admissions_def)
    qed (use fresh I(6) ok rec lists in auto)
    with rec lists fresh show ?thesis by auto
  qed
  then show "run_inv P cfg (c\<lparr>ctl_store := st\<rparr>)" "recovery st = Some r"
    "r = Inr rec \<Longrightarrow> ctl_recovered c \<or> (\<forall>t \<in> set (rec_queued rec). queued st (t_id t))" by auto
qed

text \<open>Any call of the store that recovers it first and then makes nothing queued.\<close>

lemma recovered_then_inv:
  assumes inv: "run_inv P cfg c" and run: "recovered_then P cfg io op (ctl_store c) = (r, st)"
    and quiet: "\<And>s rec s' r'. recovery s = Some (Inr rec) \<Longrightarrow> store_ok P cfg s \<Longrightarrow> op s = (r', s') \<Longrightarrow>
       quiet {} s s' \<and> store_ok P cfg s' \<and> recovery s' = recovery s"
  shows "run_inv P cfg (c\<lparr>ctl_store := st\<rparr>)"
proof -
  obtain r1 s where rec: "ticket_recover P cfg io (ctl_store c) = (r1, s)"
    by (cases "ticket_recover P cfg io (ctl_store c)")
  note R = recover_inv [OF inv rec]
  show ?thesis
  proof (cases r1)
    case (Inl e)
    with run rec R show ?thesis by (simp add: recovered_then_def)
  next
    case (Inr rc)
    then have op: "op s = (r, st)" using run rec by (simp add: recovered_then_def)
    have live: "recovery s = Some (Inr rc)" using R(2) Inr by simp
    have "store_ok P cfg s" using run_invD(3) [OF R(1)] live by simp
    from quiet [OF live this op] have Q: "quiet {} s st" "store_ok P cfg st" "recovery st = recovery s"
      by auto
    show ?thesis
      using run_invD(6) [OF inv]
      by (intro quiet_inv [OF R(1), where A = "{}" and rec = rc]) (use Q live in auto)
  qed
qed

section \<open>Launching\<close>

lemma launch_fields [simp]:
  "ctl_store (launch t c) = ctl_store c" "ctl_log (launch t c) = ctl_log c"
  "ctl_admitted (launch t c) = ctl_admitted c" "ctl_recovered (launch t c) = ctl_recovered c"
  "ctl_executor (launch t c) = ctl_executor c"
  by (simp_all add: launch_def)

lemma launch_runs:
  "map_get (ctl_runs (launch t c)) k = Some Starting \<Longrightarrow> map_get (ctl_runs c) k = Some Starting \<or> k = t_id t"
  by (auto simp: launch_def split: if_splits)

lemma launch_inv:
  assumes inv: "run_inv P cfg c" and "ctl_recovered c" and "queued (ctl_store c) (t_id t)"
  shows "run_inv P cfg (launch t c)"
  using assms launch_runs [of t c] unfolding run_inv_def
  by (auto simp: counts_cong(1) [of "launch t c" c] counts_cong(2) [of "launch t c" c])

lemma launch_all_inv:
  "run_inv P cfg c \<Longrightarrow> ctl_recovered c \<Longrightarrow> \<forall>t \<in> set ts. queued (ctl_store c) (t_id t) \<Longrightarrow>
     run_inv P cfg (fold launch ts c)"
  by (induction ts arbitrary: c) (simp_all add: launch_inv)

section \<open>The events\<close>

lemma controller_recover_inv:
  assumes inv: "run_inv P cfg c"
  shows "run_inv P cfg (snd (controller_recover P cfg io c))"
proof (cases "ctl_recovered c")
  case True
  with inv show ?thesis by (simp add: controller_recover_def)
next
  case fresh: False
  obtain r st where run: "ticket_recover P cfg io (ctl_store c) = (r, st)"
    by (cases "ticket_recover P cfg io (ctl_store c)")
  note R = recover_inv [OF inv run]
  show ?thesis
  proof (cases r)
    case (Inl e)
    have "run_inv P cfg (c\<lparr>ctl_store := st, ctl_executor := True\<rparr>)"
      by (rule same_store_inv [OF R(1)]) (use run_invD(6) [OF inv] in auto)
    with fresh run Inl show ?thesis by (simp add: controller_recover_def)
  next
    case (Inr rec)
    let ?c = "c\<lparr>ctl_store := st, ctl_executor := True, ctl_recovered := True\<rparr>"
    have "run_inv P cfg ?c"
      using R(1,2) Inr run_invD(6) [OF inv fresh] unfolding run_inv_def
      by (auto simp: executions_def admissions_def)
    then have "run_inv P cfg (fold launch (rec_queued rec) ?c)"
      using R(3) [OF Inr] fresh by (intro launch_all_inv) auto
    with fresh run Inr show ?thesis by (simp add: controller_recover_def)
  qed
qed

lemma submit_inv:
  assumes inv: "run_inv P cfg c"
  shows "run_inv P cfg (snd (submit P cfg io inp ctx c))"
proof (cases "ctl_draining c \<or> \<not> ctl_recovered c \<or> \<not> ctl_executor c")
  case True
  with inv show ?thesis by (auto simp: submit_def)
next
  case False
  then have ready: "\<not> ctl_draining c" "ctl_recovered c" "ctl_executor c" by auto
  note I = run_invD [OF inv]
  obtain rec where rec: "recovery (ctl_store c) = Some (Inr rec)" using I(5) ready by auto
  note ok = I(3) [OF rec]
  let ?c1 = "if admits P inp (ctl_store c) then c\<lparr>ctl_admitted := input_id P inp # ctl_admitted c\<rparr> else c"
  obtain r st where run: "begin_locked P cfg io inp (ctl_store c) = (r, st)"
    by (cases "begin_locked P cfg io inp (ctl_store c)")
  then have begin_run: "ticket_begin P cfg io inp (ctl_store c) = (r, st)"
    by (simp add: ticket_begin_def recovered_then_live [OF rec])
  note B = begin_locked_ok(1,3) [OF run ok] and Q = begin_locked_queued [OF run ok]
  let ?c = "?c1\<lparr>ctl_store := st\<rparr>"
  have more: "admissions k c \<le> admissions k ?c"
    "admits P inp (ctl_store c) \<Longrightarrow> admissions (input_id P inp) ?c = Suc (admissions (input_id P inp) c)"
    "executions k ?c = executions k c" for k
    by (auto simp: admissions_def executions_def)
  have base: "run_inv P cfg ?c"
  proof (rule run_invI)
    show "executions k ?c \<le> admissions k ?c" for k using I(1) [of k] more(1) [of k] more(3) [of k] by simp
    show "executions k ?c < admissions k ?c" if "queued_file (ctl_store ?c) k" for k
      using Q(2) [of k] that I(1,2) [of k] more(1,3) [of k] more(2) by (auto simp: less_Suc_eq_le)
    show "executions k ?c < admissions k ?c" if "queued (ctl_store ?c) k" for k
      using Q(1) [of k] that I(1) [of k] I(4) [OF rec, of k] more(1,3) [of k] more(2)
      by (auto simp: less_Suc_eq_le)
    show "queued (ctl_store ?c) k" if "map_get (ctl_runs ?c) k = Some Starting" for k
      using I(8) [of k] Q(3) [of k] that by (simp split: if_splits)
  qed (use ready B rec in \<open>auto split: if_splits\<close>)
  show ?thesis
  proof (cases r)
    case (Inl e)
    with ready begin_run base show ?thesis
      by (auto simp: submit_def input_id_def [symmetric] Let_def)
  next
    case (Inr t)
    let ?d = "case ctx of None \<Rightarrow> ?c | Some x \<Rightarrow> ?c\<lparr>ctl_contexts := map_set (ctl_contexts ?c) (t_id t) x\<rparr>"
    have res: "snd (submit P cfg io inp ctx c) = (if t_state t = Queued then launch t ?d else ?c)"
      using ready begin_run Inr by (cases ctx) (auto simp: submit_def input_id_def Let_def)
    have "run_inv P cfg ?d"
      by (rule same_store_inv [OF base]) (auto simp: ready split: option.splits if_splits)
    moreover have "queued (ctl_store ?d) (t_id t)" if "t_state t = Queued"
      using begin_locked_ok(4) [OF run ok Inr] that by (auto simp: queued_def split: option.splits)
    moreover have "ctl_recovered ?d" using ready by (auto split: option.splits)
    ultimately show ?thesis unfolding res using base launch_inv [of P cfg ?d t] by auto
  qed
qed

lemma controller_reconcile_inv:
  assumes inv: "run_inv P cfg c"
  shows "run_inv P cfg (snd (controller_reconcile P cfg io k out c))"
proof -
  obtain r st where run: "ticket_reconcile P cfg io k out (ctl_store c) = (r, st)"
    by (cases "ticket_reconcile P cfg io k out (ctl_store c)")
  have "run_inv P cfg (c\<lparr>ctl_store := st\<rparr>)"
  proof (rule recovered_then_inv [OF inv run [unfolded ticket_reconcile_def]])
    fix s rec s' r'
    assume rec: "recovery s = Some (Inr rec)" and ok: "store_ok P cfg s"
      and op: "(case map_get (tickets s) k of None \<Rightarrow> (Inl (ticket_error ''ticket_not_found''), s)
         | Some cur \<Rightarrow>
             if t_state cur \<noteq> Indeterminate then (Inl (ticket_error ''ticket_not_indeterminate''), s)
             else transition_locked P cfg io cur (reconcile_state out) (reconcile_patch out) True s) = (r', s')"
    show "quiet {} s s' \<and> store_ok P cfg s' \<and> recovery s' = recovery s"
    proof (cases "\<exists>cur. map_get (tickets s) k = Some cur \<and> t_state cur = Indeterminate")
      case False
      with op ok show ?thesis by (auto split: option.splits if_splits)
    next
      case True
      then obtain cur where cur: "map_get (tickets s) k = Some cur" "t_state cur = Indeterminate" by blast
      have "index_ok P s" using ok by (simp add: store_ok_def)
      then have id: "t_id cur = k" using cur(1) by (rule index_ok_id)
      have tr: "transition_locked P cfg io cur (reconcile_state out) (reconcile_patch out) True s = (r', s')"
        using op cur by simp
      have "reconcile_state out \<noteq> Queued" by (cases out) auto
      then have "quiet {k} s s'" using transition_locked_quiet(1) [OF tr] cur id by simp
      moreover have "\<not> queued s k" using cur by (simp add: queued_def)
      ultimately have "quiet {} s s'" by (rule quiet_drop)
      moreover have "map_get (tickets s) (t_id cur) = Some cur" using cur(1) id by simp
      note T = transition_locked_ok [OF ok this tr]
      ultimately show ?thesis using T(1,3) by blast
    qed
  qed
  with run show ?thesis by (simp add: controller_reconcile_def)
qed

lemma prune_event_inv:
  assumes inv: "run_inv P cfg c"
  shows "run_inv P cfg (c\<lparr>ctl_store := snd (ticket_prune P cfg io (ctl_store c))\<rparr>)"
proof -
  obtain r st where run: "ticket_prune P cfg io (ctl_store c) = (r, st)"
    by (cases "ticket_prune P cfg io (ctl_store c)")
  have "run_inv P cfg (c\<lparr>ctl_store := st\<rparr>)"
    by (rule recovered_then_inv [OF inv run [unfolded ticket_prune_def]])
       (use prune_locked_quiet prune_locked_ok(1,3) in blast)
  with run show ?thesis by simp
qed

lemma start_run_inv:
  assumes inv: "run_inv P cfg c" and start: "map_get (ctl_runs c) k = Some Starting"
  shows "run_inv P cfg (start_run P cfg io k c)"
proof -
  note I = run_invD [OF inv]
  have recd: "ctl_recovered c" using I(6) start by (cases "ctl_recovered c") auto
  then obtain rec where rec: "recovery (ctl_store c) = Some (Inr rec)" using I(5) by auto
  note ok = I(3) [OF rec]
  obtain cur where cur: "map_get (tickets (ctl_store c)) k = Some cur" "t_state cur = Queued"
    using I(8) [OF start] by (auto simp: queued_def)
  have "index_ok P (ctl_store c)" using ok by (simp add: store_ok_def)
  then have id: "t_id cur = k" using cur(1) by (rule index_ok_id)
  obtain r st where tr: "transition_locked P cfg io cur Running NoPatch False (ctl_store c) = (r, st)"
    by (cases "transition_locked P cfg io cur Running NoPatch False (ctl_store c)")
  have run: "mark_running P cfg io k (ctl_store c) = (r, st)"
    using tr cur(1) by (simp add: mark_running_def ticket_transition_def recovered_then_live [OF rec])
  have got: "map_get (tickets (ctl_store c)) (t_id cur) = Some cur" using cur(1) id by simp
  note Q = transition_locked_quiet(1) [OF tr _ got]
  note T = transition_locked_ok(1,3) [OF ok got tr]
  show ?thesis
  proof (cases r)
    case (Inl e)
    have "run_inv P cfg (finish_run k (c\<lparr>ctl_store := st\<rparr>))"
      by (rule quiet_inv [OF inv rec, where A = "{k}"])
         (use Q T id recd in \<open>auto simp: finish_run_def split: if_splits\<close>)
    with run Inl show ?thesis by (simp add: start_run_def)
  next
    case (Inr t)
    have moved: "map_get (tickets st) k = Some t" "t_state t = Running" "\<not> queued_file st k"
      using tr
      by (cases rule: transition_locked_cases;
          use Inr cur id in \<open>auto simp: queued_file_def published_file_def ticket_round_trip\<close>)+
    let ?c = "enter k Executing (c\<lparr>ctl_store := st, ctl_log := (k, map_get (ctl_contexts c) k) # ctl_log c\<rparr>)"
    have E: "executions j ?c = executions j c + (if j = k then 1 else 0)" "admissions j ?c = admissions j c" for j
      by (auto simp: executions_def admissions_def enter_def)
    have strict: "executions k c < admissions k c" using I(4) [OF rec I(8) [OF start]] .
    have "run_inv P cfg ?c"
    proof (rule run_invI)
      show "executions j ?c \<le> admissions j ?c" for j
        using I(1) [of j] strict unfolding E by (cases "j = k") auto
      show "executions j ?c < admissions j ?c" if "queued_file (ctl_store ?c) j" for j
        using that moved(3) Q id I(2) [of j] unfolding E by (cases "j = k") (auto simp: enter_def quiet_def)
      show "executions j ?c < admissions j ?c" if "queued (ctl_store ?c) j" for j
        using that moved(1,2) Q id I(4) [OF rec, of j] unfolding E
        by (cases "j = k") (auto simp: enter_def quiet_def queued_def)
      show "queued (ctl_store ?c) j" if "map_get (ctl_runs ?c) j = Some Starting" for j
        using that I(8) [of j] Q id by (cases "j = k") (auto simp: enter_def quiet_def)
    qed (use recd rec T in \<open>auto simp: enter_def\<close>)
    with run Inr show ?thesis by (simp add: start_run_def)
  qed
qed

text \<open>A run that records only settles its own ticket.\<close>

lemma settled_run_inv:
  assumes inv: "run_inv P cfg c" and run: "settle_ticket P cfg io k to patch (ctl_store c) = (r, st)"
    and "to \<noteq> Queued" and ph: "map_get (ctl_runs c) k = Some ph" "ph \<noteq> Starting"
    and same: "ctl_store c' = st" "ctl_log c' = ctl_log c" "ctl_admitted c' = ctl_admitted c"
      "ctl_recovered c' = ctl_recovered c"
    and runs: "\<And>j. map_get (ctl_runs c') j = Some Starting \<Longrightarrow> map_get (ctl_runs c) j = Some Starting"
  shows "run_inv P cfg c'"
proof -
  note I = run_invD [OF inv]
  have recd: "ctl_recovered c" using I(6) ph(1) by (cases "ctl_recovered c") auto
  then obtain rec where rec: "recovery (ctl_store c) = Some (Inr rec)" using I(5) by auto
  have live: "live P cfg (ctl_store c)" using I(3) [OF rec] rec by (simp add: live_def)
  note S = settle_ticket_live [OF live run]
  have "quiet {k} (ctl_store c) st" by (rule settle_ticket_quiet [OF live run assms(3)])
  with S same show ?thesis
    by (intro quiet_inv [OF inv rec, where A = "{k}"]) (use runs ph recd in auto)
qed

lemma settled_exits:
  assumes "run_inv P cfg c" and "settle_ticket P cfg io k to patch (ctl_store c) = (r, st)"
    and "to \<noteq> Queued" and "map_get (ctl_runs c) k = Some ph" and "ph \<noteq> Starting"
  shows "run_inv P cfg (finish_run k (c\<lparr>ctl_store := st\<rparr>))"
    and "ph' \<noteq> Starting \<Longrightarrow> run_inv P cfg (enter k ph' (c\<lparr>ctl_store := st\<rparr>))"
  by (rule settled_run_inv [OF assms]; simp add: finish_run_def enter_def split: if_splits)+

lemma record_run_inv:
  assumes inv: "run_inv P cfg c" and ph: "map_get (ctl_runs c) k = Some ph"
  shows "run_inv P cfg (record_run P cfg io k props message ph c)"
proof (cases ph)
  case (RecordingResult x)
  obtain r st where run: "settle_ticket P cfg io k Succeeded (ResultPatch x) (ctl_store c) = (r, st)"
    by (cases "settle_ticket P cfg io k Succeeded (ResultPatch x) (ctl_store c)")
  from settled_exits [OF inv run _ ph] run RecordingResult show ?thesis
    by (cases r) (simp_all add: record_run_def mark_succeeded_def)
next
  case (RecordingFailure x)
  obtain r st where run: "settle_ticket P cfg io k Failed (ErrorPatch x) (ctl_store c) = (r, st)"
    by (cases "settle_ticket P cfg io k Failed (ErrorPatch x) (ctl_store c)")
  from settled_exits [OF inv run _ ph] run RecordingFailure show ?thesis
    by (cases r) (simp_all add: record_run_def mark_failed_def)
next
  case RecordingOversize
  obtain r st where run: "settle_ticket P cfg io k Failed (ErrorPatch oversize_failure) (ctl_store c) = (r, st)"
    by (cases "settle_ticket P cfg io k Failed (ErrorPatch oversize_failure) (ctl_store c)")
  from settled_exits [OF inv run _ ph] run RecordingOversize show ?thesis
    by (simp add: record_run_def mark_failed_def)
qed (use inv in \<open>simp_all add: record_run_def\<close>)

lemma enter_inv:
  assumes inv: "run_inv P cfg c" and "map_get (ctl_runs c) k = Some ph" and "ph' \<noteq> Starting"
  shows "run_inv P cfg (enter k ph' c)"
  using assms run_invD(6) [OF inv]
  by (intro same_store_inv [OF inv]) (auto simp: enter_def split: if_splits)

lemma crash_inv:
  assumes inv: "run_inv P cfg c"
  shows "run_inv P cfg (new_controller (ticket_dir (ctl_store c)) (ctl_log c) (ctl_admitted c))"
  using run_invD(1,2) [OF inv]
  by (intro run_invI)
     (auto simp: new_controller_def empty_ticket_store_def executions_def admissions_def queued_file_def)

lemma controller_step_inv:
  assumes "run_inv P cfg c"
  shows "run_inv P cfg (controller_step P cfg e c)"
proof (cases e)
  case (EvStart io k)
  with assms start_run_inv [of P cfg c k io] show ?thesis
    by (auto split: option.splits run_phase.splits)
next
  case (EvReturn k r)
  with assms enter_inv [of P cfg c k Executing] show ?thesis by (auto split: option.splits run_phase.splits)
next
  case (EvThrow k props message)
  with assms enter_inv [of P cfg c k Executing] show ?thesis by (auto split: option.splits run_phase.splits)
next
  case EvDrain
  have "run_inv P cfg (begin_drain c)"
    using run_invD(6) [OF assms] by (intro same_store_inv [OF assms]) (auto simp: begin_drain_def)
  with EvDrain show ?thesis by simp
next
  case (EvSubmit io inp ctx)
  with submit_inv [OF assms] show ?thesis by simp
next
  case (EvRecord io k props message)
  with assms record_run_inv [of P cfg c k] show ?thesis by (auto split: option.splits)
qed (use assms in \<open>simp_all add: controller_recover_inv controller_reconcile_inv prune_event_inv crash_inv\<close>)

lemma controller_run_inv:
  "run_inv P cfg c \<Longrightarrow> run_inv P cfg (controller_run P cfg evs c)"
  unfolding controller_run_def by (induction evs arbitrary: c) (auto simp: controller_step_inv)

lemma new_controller_inv: "run_inv P cfg (new_controller [] [] [])"
  by (intro run_invI)
     (auto simp: new_controller_def empty_ticket_store_def executions_def admissions_def queued_file_def)

end
