(* ===== verification/TicketRunProps.thy ===== *)
theory TicketRunProps
  imports TicketRunInv
begin

text \<open>Runs end, and a run whose executor answered leaves its ticket settled.\<close>

section \<open>Progress\<close>

fun phase_rank :: "run_phase \<Rightarrow> nat" where
  "phase_rank Starting = 5"
| "phase_rank Executing = 4"
| "phase_rank (RecordingResult r) = 3"
| "phase_rank (RecordingFailure e) = 2"
| "phase_rank RecordingOversize = 1"

definition run_rank :: "string \<Rightarrow> 'c controller \<Rightarrow> nat" where
  "run_rank k c = (case map_get (ctl_runs c) k of None \<Rightarrow> 0 | Some ph \<Rightarrow> phase_rank ph)"

text \<open>The events a run of \<open>k\<close> is waiting for in a phase.\<close>

fun awaited :: "string \<Rightarrow> run_phase \<Rightarrow> 'c controller_event \<Rightarrow> bool" where
  "awaited k Starting (EvStart io j) \<longleftrightarrow> j = k"
| "awaited k Executing (EvReturn j r) \<longleftrightarrow> j = k"
| "awaited k Executing (EvThrow j props message) \<longleftrightarrow> j = k"
| "awaited k (RecordingResult x) (EvRecord io j props message) \<longleftrightarrow> j = k"
| "awaited k (RecordingFailure x) (EvRecord io j props message) \<longleftrightarrow> j = k"
| "awaited k RecordingOversize (EvRecord io j props message) \<longleftrightarrow> j = k"
| "awaited k _ _ \<longleftrightarrow> False"

lemma rank_finish [simp]: "run_rank k (finish_run k c) = 0"
  by (simp add: run_rank_def finish_run_def)

lemma rank_enter [simp]: "run_rank k (enter k ph c) = phase_rank ph"
  by (simp add: run_rank_def enter_def)

lemma awaited_step:
  assumes ph: "map_get (ctl_runs c) k = Some ph" and "awaited k ph e"
  shows "run_rank k (controller_step P cfg e c) < run_rank k c"
proof -
  have rank: "run_rank k c = phase_rank ph" using ph by (simp add: run_rank_def)
  from assms(2) show ?thesis unfolding rank
    by (cases ph; cases e)
       (auto simp: ph start_run_def record_run_def split: sum.splits prod.splits)
qed

lemma run_rank_bounds: "run_rank k c \<le> 5" "map_get (ctl_runs c) k = Some ph \<Longrightarrow> 0 < run_rank k c"
proof -
  have "0 < phase_rank ph \<and> phase_rank ph \<le> 5" for ph by (cases ph) simp_all
  then show "run_rank k c \<le> 5" "map_get (ctl_runs c) k = Some ph \<Longrightarrow> 0 < run_rank k c"
    by (simp_all add: run_rank_def split: option.split)
qed

text \<open>Any other event but a crash leaves a live run in its phase: nothing launches it twice.\<close>

lemma launch_keeps:
  "map_get (ctl_runs c) k = Some ph \<Longrightarrow> map_get (ctl_runs (launch t c)) k = Some ph"
  by (auto simp: launch_def)

lemma launches_keep:
  "map_get (ctl_runs c) k = Some ph \<Longrightarrow> map_get (ctl_runs (fold launch ts c)) k = Some ph"
  by (induction ts arbitrary: c) (simp_all add: launch_keeps)

lemma submit_keeps:
  "map_get (ctl_runs c) k = Some ph \<Longrightarrow> map_get (ctl_runs (snd (submit P cfg io inp ctx c))) k = Some ph"
  by (auto simp: submit_def Let_def intro!: launch_keeps split: prod.split sum.split option.split)

lemma recover_keeps:
  "map_get (ctl_runs c) k = Some ph \<Longrightarrow> map_get (ctl_runs (snd (controller_recover P cfg io c))) k = Some ph"
  by (auto simp: controller_recover_def intro!: launches_keep split: prod.split sum.split)

lemma others_keep:
  assumes "j \<noteq> k"
  shows "map_get (ctl_runs (finish_run j c)) k = map_get (ctl_runs c) k"
    and "map_get (ctl_runs (enter j ph c)) k = map_get (ctl_runs c) k"
    and "map_get (ctl_runs (start_run P cfg io j c)) k = map_get (ctl_runs c) k"
    and "map_get (ctl_runs (record_run P cfg io j props message ph c)) k = map_get (ctl_runs c) k"
  using assms
  by (auto simp: finish_run_def enter_def start_run_def record_run_def Let_def
      split: run_phase.split prod.split sum.split)

lemma unawaited_step:
  assumes ph: "map_get (ctl_runs c) k = Some ph" and un: "\<not> awaited k ph e" and "e \<noteq> EvCrash"
  shows "map_get (ctl_runs (controller_step P cfg e c)) k = Some ph"
proof (cases e)
  case (EvStart io j)
  with ph un show ?thesis by (cases "j = k"; cases ph) (auto simp: others_keep split: option.split run_phase.split)
next
  case (EvReturn j r)
  with ph un show ?thesis by (cases "j = k"; cases ph) (auto simp: others_keep split: option.split run_phase.split)
next
  case (EvThrow j props message)
  with ph un show ?thesis by (cases "j = k"; cases ph) (auto simp: others_keep split: option.split run_phase.split)
next
  case (EvRecord io j props message)
  show ?thesis
  proof (cases "j = k")
    case True
    with EvRecord ph un show ?thesis by (cases ph) (simp_all add: record_run_def)
  qed (use EvRecord ph in \<open>simp add: others_keep split: option.split\<close>)
qed (use ph assms(3) in \<open>simp_all add: recover_keeps submit_keeps begin_drain_def controller_reconcile_def
    split: prod.split\<close>)

text \<open>
  The steps that the run of \<open>k\<close> which is live in \<open>c\<close> makes during a list of events, until it ends: the
  events it was waiting for, and any other that moves it.  \<open>run_over\<close> says that it ended.
\<close>

fun run_steps ::
  "platform \<Rightarrow> ticket_config \<Rightarrow> string \<Rightarrow> 'c controller_event list \<Rightarrow> 'c controller \<Rightarrow> nat" where
  "run_steps P cfg k [] c = 0"
| "run_steps P cfg k (e # es) c =
     (case map_get (ctl_runs c) k of
        None \<Rightarrow> 0
      | Some ph \<Rightarrow>
          (if awaited k ph e \<or> map_get (ctl_runs (controller_step P cfg e c)) k \<noteq> Some ph then 1 else 0)
            + run_steps P cfg k es (controller_step P cfg e c))"

fun run_over ::
  "platform \<Rightarrow> ticket_config \<Rightarrow> string \<Rightarrow> 'c controller_event list \<Rightarrow> 'c controller \<Rightarrow> bool" where
  "run_over P cfg k [] c \<longleftrightarrow> map_get (ctl_runs c) k = None"
| "run_over P cfg k (e # es) c \<longleftrightarrow>
     map_get (ctl_runs c) k = None \<or> run_over P cfg k es (controller_step P cfg e c)"

lemma run_step_rank:
  assumes ph: "map_get (ctl_runs c) k = Some ph"
  shows "run_rank k (controller_step P cfg e c)
      + (if awaited k ph e \<or> map_get (ctl_runs (controller_step P cfg e c)) k \<noteq> Some ph then 1 else 0)
      \<le> run_rank k c"
proof (cases "awaited k ph e")
  case True
  with awaited_step [OF ph True, of P cfg] show ?thesis by simp
next
  case False
  show ?thesis
  proof (cases "e = EvCrash")
    case True
    then show ?thesis using run_rank_bounds(2) [OF ph] by (simp add: run_rank_def new_controller_def)
  next
    case other: False
    show ?thesis using unawaited_step [OF ph False other, of P cfg] ph False by (simp add: run_rank_def)
  qed
qed

lemma run_steps_rank:
  "run_steps P cfg k es c + (if run_over P cfg k es c then 0 else 1) \<le> run_rank k c"
proof (induction es arbitrary: c)
  case Nil
  show ?case using run_rank_bounds(2) [of c k] by (cases "map_get (ctl_runs c) k") auto
next
  case (Cons e es)
  show ?case
  proof (cases "map_get (ctl_runs c) k")
    case (Some ph)
    from Cons.IH [of "controller_step P cfg e c"] run_step_rank [OF Some, of P cfg e] Some
    show ?thesis by simp
  qed simp
qed

section \<open>Recording\<close>

lemma settle_published:
  assumes live: "live P cfg st" and t: "map_get (tickets st) k = Some t" "t_state t = Running"
    and to: "to = Succeeded \<or> to = Failed" and io: "\<And>n v. io_write io n v = Published"
    and young: "\<not> ticket_expired cfg (io_now io) (t\<lparr>t_updated_at := to_iso (io_stamp io)\<rparr>)"
    and run: "settle_ticket P cfg io k to patch st = (r, st')"
  shows "if compact_size (ticket_json (next_ticket P io to patch t)) \<le> max_record_bytes cfg
         then map_get (tickets st') k = Some (next_ticket P io to patch t)
         else r = Inl (ticket_error ''ticket_record_too_large'') \<and> st' = st"
proof -
  obtain rec where rec: "recovery st = Some (Inr rec)" and ok: "store_ok P cfg st"
    using live by (auto simp: live_def)
  have idx: "index_ok P st" using ok by (simp add: store_ok_def)
  have id: "t_id t = k" using idx t(1) by (rule index_ok_id)
  let ?n = "next_ticket P io to patch t"
  have nxt: "apply_patch P patch (t\<lparr>t_state := to, t_updated_at := to_iso (io_stamp io)\<rparr>) = ?n"
    by (simp add: next_ticket_def)
  have tr: "ticket_transition P cfg io k to patch st = transition_locked P cfg io t to patch False st"
    using t rec by (simp add: ticket_transition_def recovered_then_live)
  have ids: "t_id ?n = k" using id by simp
  show ?thesis
  proof (cases "compact_size (ticket_json ?n) \<le> max_record_bytes cfg")
    case False
    then have "transition_locked P cfg io t to patch False st
        = (Inl (ticket_error ''ticket_record_too_large''), st)"
      using to t(2) ids by (auto simp: transition_locked_def nxt ticket_write_def Let_def)
    with run tr False show ?thesis by (simp add: settle_ticket_def)
  next
    case True
    let ?st1 = "st\<lparr>ticket_dir := map_set (ticket_dir st) (ticket_file k) (published_file (current_uid P) (ticket_json ?n)),
                  tickets := map_set (tickets st) k ?n\<rparr>"
    have moved: "transition_locked P cfg io t to patch False st = (Inr ?n, ?st1)"
      using to t(2) ids True by (auto simp: transition_locked_def nxt ticket_write_def Let_def io)
    have live1: "store_ok P cfg ?st1"
      using transition_locked_ok(1) [OF ok _ moved] t(1) id by simp
    then have idx1: "index_ok P ?st1" by (simp add: store_ok_def)
    obtain r2 st2 where pr: "prune_locked P cfg io ?st1 = (r2, st2)" by (cases "prune_locked P cfg io ?st1")
    have st': "st' = st2"
      using run tr moved pr rec
      by (cases r2) (simp_all add: settle_ticket_def ticket_prune_def recovered_then_def ticket_recover_def)
    have got: "map_get (tickets ?st1) (t_id v) = Some v"
      if "v \<in> set (expired_tickets P cfg (io_now io) ?st1)" for v
      using idx1 expired_ticketsD(3) [OF that] by (rule index_ok_val)
    have "\<not> ticket_expired cfg (io_now io) ?n"
      using young by (simp add: ticket_expired_def)
    then have "k \<notin> t_id ` set (expired_tickets P cfg (io_now io) ?st1)"
      using got expired_ticketsD(2) by fastforce
    then have "map_get (tickets st2) k = map_get (tickets ?st1) k"
      using remove_expired_ok [OF pr [unfolded prune_locked_def] live1 expired_distinct [OF idx1] got] by blast
    with True st' show ?thesis by simp
  qed
qed

text \<open>A call that would settle a ticket that is settled already leaves it alone.\<close>

lemma settle_settled:
  assumes live: "live P cfg st" and t: "map_get (tickets st) k = Some t" "t_state t = Succeeded \<or> t_state t = Failed"
    and young: "\<not> ticket_expired cfg (io_now io) t"
    and run: "settle_ticket P cfg io k Failed patch st = (r, st')"
  shows "map_get (tickets st') k = Some t"
    and "t_state t = Succeeded \<Longrightarrow> r = Inl (ticket_error ''invalid_ticket_transition'')"
proof -
  obtain rec where rec: "recovery st = Some (Inr rec)" and ok: "store_ok P cfg st"
    using live by (auto simp: live_def)
  have idx: "index_ok P st" using ok by (simp add: store_ok_def)
  have tr: "ticket_transition P cfg io k Failed patch st = transition_locked P cfg io t Failed patch False st"
    using t rec by (simp add: ticket_transition_def recovered_then_live)
  obtain r2 st2 where pr: "prune_locked P cfg io st = (r2, st2)" by (cases "prune_locked P cfg io st")
  have got: "map_get (tickets st) (t_id v) = Some v"
    if "v \<in> set (expired_tickets P cfg (io_now io) st)" for v
    using idx expired_ticketsD(3) [OF that] by (rule index_ok_val)
  have "k \<notin> t_id ` set (expired_tickets P cfg (io_now io) st)"
    using t(1) young got expired_ticketsD(2) by fastforce
  then have keep: "map_get (tickets st2) k = Some t"
    using remove_expired_ok [OF pr [unfolded prune_locked_def] ok expired_distinct [OF idx] got] t(1)
    by metis
  show "map_get (tickets st') k = Some t"
    using run tr t pr rec keep
    by (cases r2) (auto simp: settle_ticket_def ticket_prune_def recovered_then_live transition_locked_def)
  show "r = Inl (ticket_error ''invalid_ticket_transition'')" if "t_state t = Succeeded"
    using run tr that by (simp add: settle_ticket_def transition_locked_def)
qed

text \<open>A ticket that is settled, or running with room for the shortest failure.\<close>

definition settled_ticket :: "ticket_config \<Rightarrow> ticket_io \<Rightarrow> ticket \<Rightarrow> bool" where
  "settled_ticket cfg io t \<longleftrightarrow>
     (t_state t = Succeeded \<or> t_state t = Failed) \<and> \<not> ticket_expired cfg (io_now io) t"

definition recordable :: "platform \<Rightarrow> ticket_config \<Rightarrow> ticket_io \<Rightarrow> ticket \<Rightarrow> bool" where
  "recordable P cfg io t \<longleftrightarrow>
     t_state t = Running
     \<and> compact_size (ticket_json (next_ticket P io Failed (ErrorPatch oversize_failure) t)) \<le> max_record_bytes cfg"

lemma record_step:
  assumes inv: "run_inv P cfg c" and ph: "map_get (ctl_runs c) k = Some ph"
    and t: "map_get (tickets (ctl_store c)) k = Some t"
    and good: "recordable P cfg io t \<or> (settled_ticket cfg io t \<and> (\<forall>x. ph \<noteq> RecordingResult x))"
    and io: "\<And>n v. io_write io n v = Published"
    and young: "\<not> ticket_expired cfg (io_now io) (t\<lparr>t_updated_at := to_iso (io_stamp io)\<rparr>)"
    and rank: "phase_rank ph \<le> 3"
  shows "let c' = controller_step P cfg (EvRecord io k props message) c in
    (\<exists>u. map_get (tickets (ctl_store c')) k = Some u
      \<and> (settled_ticket cfg io u \<or> (u = t \<and> recordable P cfg io t \<and> map_get (ctl_runs c') k \<noteq> None))
      \<and> (\<forall>x. map_get (ctl_runs c') k \<noteq> Some (RecordingResult x)))
    \<and> run_rank k c' < phase_rank ph"
proof -
  note I = run_invD [OF inv]
  have "ctl_recovered c" using I(6) ph by (cases "ctl_recovered c") auto
  then obtain rec where rec: "recovery (ctl_store c) = Some (Inr rec)" using I(5) by auto
  have live: "live P cfg (ctl_store c)" using I(3) [OF rec] rec by (simp add: live_def)
  have less: "run_rank k (controller_step P cfg (EvRecord io k props message) c) < phase_rank ph"
    using awaited_step [OF ph, of "EvRecord io k props message" P cfg] rank ph
    by (cases ph) (simp_all add: run_rank_def)
  have next_settled: "settled_ticket cfg io (next_ticket P io to patch t)"
    if "to = Succeeded \<or> to = Failed" for to patch
    using that young by (simp add: settled_ticket_def ticket_expired_def)
  have outcome: "if t_state t = Running \<and> compact_size (ticket_json (next_ticket P io to patch t)) > max_record_bytes cfg
      then r = Inl (ticket_error ''ticket_record_too_large'') \<and> st = ctl_store c
      else \<exists>u. map_get (tickets st) k = Some u \<and> settled_ticket cfg io u"
    if "settle_ticket P cfg io k to patch (ctl_store c) = (r, st)"
      "to = Failed \<or> (to = Succeeded \<and> t_state t = Running)" for to patch r st
  proof (cases "t_state t = Running")
    case True
    have "to = Succeeded \<or> to = Failed" using that(2) by auto
    from settle_published [OF live t True this io young that(1)] next_settled [OF this] True
    show ?thesis by (auto split: if_splits)
  next
    case False
    with good that(2) have "settled_ticket cfg io t" "to = Failed" by (auto simp: recordable_def)
    with settle_settled(1) [OF live t, of io patch r st] that(1) False show ?thesis
      by (auto simp: settled_ticket_def)
  qed
  have runs: "map_get (ctl_runs (finish_run k d)) k = None"
    "map_get (ctl_runs (enter k ph' d)) k = Some ph'"
    "ctl_store (finish_run k d) = ctl_store d" "ctl_store (enter k ph' d) = ctl_store d" for d ph'
    by (simp_all add: finish_run_def enter_def)
  have "\<exists>u. map_get (tickets (ctl_store (record_run P cfg io k props message ph c))) k = Some u
      \<and> (settled_ticket cfg io u \<or> (u = t \<and> recordable P cfg io t
            \<and> map_get (ctl_runs (record_run P cfg io k props message ph c)) k \<noteq> None))
      \<and> (\<forall>x. map_get (ctl_runs (record_run P cfg io k props message ph c)) k \<noteq> Some (RecordingResult x))"
  proof (cases ph)
    case (RecordingResult x)
    obtain r st where run: "settle_ticket P cfg io k Succeeded (ResultPatch x) (ctl_store c) = (r, st)"
      by (cases "settle_ticket P cfg io k Succeeded (ResultPatch x) (ctl_store c)")
    have "recordable P cfg io t" using good RecordingResult by auto
    with outcome [OF run] run RecordingResult t show ?thesis
      by (cases r) (auto simp: record_run_def mark_succeeded_def runs recordable_def split: if_splits)
  next
    case (RecordingFailure x)
    obtain r st where run: "settle_ticket P cfg io k Failed (ErrorPatch x) (ctl_store c) = (r, st)"
      by (cases "settle_ticket P cfg io k Failed (ErrorPatch x) (ctl_store c)")
    with outcome [OF run] good RecordingFailure t show ?thesis
      by (cases r) (auto simp: record_run_def mark_failed_def runs recordable_def settled_ticket_def
          ticket_error_def split: if_splits)
  next
    case RecordingOversize
    obtain r st where run: "settle_ticket P cfg io k Failed (ErrorPatch oversize_failure) (ctl_store c) = (r, st)"
      by (cases "settle_ticket P cfg io k Failed (ErrorPatch oversize_failure) (ctl_store c)")
    with outcome [OF run] good RecordingOversize t show ?thesis
      by (auto simp: record_run_def mark_failed_def runs recordable_def settled_ticket_def not_less split: if_splits)
  qed (use rank in simp_all)
  with less ph show ?thesis by (simp add: Let_def)
qed

end
