(* ===== verification/RunClaims.thy ===== *)
theory RunClaims
  imports TicketRunProps Demo
begin

text \<open>The properties of the ticket controller.\<close>

text \<open>
  C8: At most one execution per admission.  In every interleaving of submissions, runs, drains,
  reconciliations, prunings, lost writes and crashes, the executor is called for a ticket at most
  once for each submission that found no ticket of its scope.
\<close>

theorem executed_at_most_once_per_admission:
  "executions k (controller_run P cfg evs (new_controller [] [] []))
     \<le> admissions k (controller_run P cfg evs (new_controller [] [] []))"
  by (rule run_invD(1) [OF controller_run_inv [OF new_controller_inv]])

text \<open>
  C9: A run makes at most five steps.  While a run of \<open>k\<close> is live, the events that come, in any order
  and with any outcome of their I/O, contain at most five that it was waiting for or that moved it, and
  at most four unless it is over by then.  Each event the run was waiting for moves it to a phase closer to
  its end or ends it; every other event but a crash, among them submissions and recoveries that find its
  ticket queued, leaves it in its phase.
\<close>

theorem run_makes_at_most_five_steps:
  assumes "map_get (ctl_runs c) k = Some ph"
  shows "run_steps P cfg k evs c + (if run_over P cfg k evs c then 0 else 1) \<le> 5
    \<and> (awaited k ph e \<longrightarrow> run_rank k (controller_step P cfg e c) < run_rank k c)
    \<and> (\<not> awaited k ph e \<and> e \<noteq> EvCrash
         \<longrightarrow> map_get (ctl_runs (controller_step P cfg e c)) k = Some ph)"
  using run_steps_rank [of P cfg k evs c] run_rank_bounds(1) [of k c] awaited_step [OF assms]
    unawaited_step [OF assms] by (auto intro: le_trans)

theorem run_makes_at_most_five_steps_witness:
  "\<exists>(c :: nat controller) evs. map_get (ctl_runs c) ''k'' = Some Executing
     \<and> run_steps demo_platform demo_ticket_config ''k'' evs c = 2
     \<and> run_steps demo_platform demo_ticket_config ''k'' evs c
         + (if run_over demo_platform demo_ticket_config ''k'' evs c then 0 else 1) \<le> 5
     \<and> run_rank ''k'' (controller_step demo_platform demo_ticket_config (EvReturn ''k'' (Some JNull)) c)
         < run_rank ''k'' c"
proof -
  define c :: "nat controller" where "c = (new_controller [] [] [])\<lparr>ctl_runs := [(''k'', Executing)]\<rparr>"
  define evs :: "nat controller_event list" where "evs = [EvDrain, EvReturn ''k'' (Some JNull), EvCrash]"
  have live: "map_get (ctl_runs c) ''k'' = Some Executing" by (simp add: c_def)
  have two: "run_steps demo_platform demo_ticket_config ''k'' evs c = 2"
    by (simp add: c_def evs_def begin_drain_def enter_def new_controller_def)
  have "awaited ''k'' Executing (EvReturn ''k'' (Some JNull) :: nat controller_event)" by simp
  with run_makes_at_most_five_steps [OF live, of demo_platform demo_ticket_config evs
      "EvReturn ''k'' (Some JNull)"] live two
  show ?thesis by blast
qed

text \<open>
  C10: A run whose executor returned leaves its ticket succeeded or failed.  Suppose that the ticket is
  still running, that its failure record with \<open>terminal_result_too_large\<close> fits the record limit, that the
  writes of the three calls are published, and that the ticket does not expire as it is settled.  Then three
  store calls suffice for any result, however large: a result or an error that does not fit is replaced
  by \<open>terminal_result_too_large\<close>, and the run is over.
\<close>

theorem answered_run_settles:
  assumes "c = controller_run P cfg evs (new_controller [] [] [])"
    and "map_get (ctl_runs c) k = Some (RecordingResult x)"
    and "map_get (tickets (ctl_store c)) k = Some t" and "recordable P cfg io t"
    and "\<And>n v. io_write io n v = Published"
    and "\<not> ticket_expired cfg (io_now io) (t\<lparr>t_updated_at := to_iso (io_stamp io)\<rparr>)"
  shows "\<exists>u. map_get (tickets (ctl_store (controller_run P cfg (replicate 3 (EvRecord io k props message)) c))) k
        = Some u \<and> (t_state u = Succeeded \<or> t_state u = Failed)
    \<and> map_get (ctl_runs (controller_run P cfg (replicate 3 (EvRecord io k props message)) c)) k = None"
proof -
  let ?e = "EvRecord io k props message" and ?step = "controller_step P cfg (EvRecord io k props message)"
  let ?good = "\<lambda>d. \<exists>u. map_get (tickets (ctl_store d)) k = Some u
      \<and> (settled_ticket cfg io u \<or> (u = t \<and> map_get (ctl_runs d) k \<noteq> None))
      \<and> (\<forall>x. map_get (ctl_runs d) k \<noteq> Some (RecordingResult x))"
  have inv: "run_inv P cfg c" using controller_run_inv [OF new_controller_inv] assms(1) by blast
  have "(\<exists>u. map_get (tickets (ctl_store (?step c))) k = Some u
      \<and> (settled_ticket cfg io u \<or> (u = t \<and> recordable P cfg io t \<and> map_get (ctl_runs (?step c)) k \<noteq> None))
      \<and> (\<forall>x. map_get (ctl_runs (?step c)) k \<noteq> Some (RecordingResult x)))
      \<and> run_rank k (?step c) < phase_rank (RecordingResult x)"
    using record_step [OF inv assms(2,3) disjI1 [OF assms(4)] assms(5,6), of props message]
    by (simp only: Let_def phase_rank.simps)
  then have first: "?good (?step c) \<and> run_rank k (?step c) < 3"
    unfolding phase_rank.simps by blast
  have later: "?good (?step d) \<and> run_rank k (?step d) \<le> run_rank k d - 1 \<and> run_inv P cfg (?step d)"
    if d: "run_inv P cfg d" "?good d" "run_rank k d < 3" for d
  proof (cases "map_get (ctl_runs d) k")
    case None
    with d show ?thesis by (simp add: run_rank_def)
  next
    case (Some ph)
    obtain u where u: "map_get (tickets (ctl_store d)) k = Some u" "settled_ticket cfg io u \<or> u = t"
      "\<forall>x. ph \<noteq> RecordingResult x"
      using d(2) Some by auto
    have good: "recordable P cfg io u \<or> (settled_ticket cfg io u \<and> (\<forall>x. ph \<noteq> RecordingResult x))"
      using u assms(4) by auto
    have young: "\<not> ticket_expired cfg (io_now io) (u\<lparr>t_updated_at := to_iso (io_stamp io)\<rparr>)"
      using assms(6) by (simp add: ticket_expired_def)
    have rank: "phase_rank ph \<le> 3" "run_rank k d = phase_rank ph"
      using d(3) Some by (simp_all add: run_rank_def)
    have step: "(\<exists>v. map_get (tickets (ctl_store (?step d))) k = Some v
      \<and> (settled_ticket cfg io v \<or> (v = u \<and> recordable P cfg io u \<and> map_get (ctl_runs (?step d)) k \<noteq> None))
      \<and> (\<forall>x. map_get (ctl_runs (?step d)) k \<noteq> Some (RecordingResult x)))
      \<and> run_rank k (?step d) < phase_rank ph"
      using record_step [OF d(1) Some u(1) good assms(5) young rank(1), of props message] by (simp only: Let_def)
    have "?good (?step d)" using step u(2) by blast
    moreover have "run_rank k (?step d) \<le> run_rank k d - 1" using step rank(2) by linarith
    ultimately show ?thesis using controller_step_inv [OF d(1)] by blast
  qed
  have i1: "run_inv P cfg (?step c)" by (rule controller_step_inv [OF inv])
  note second = later [OF i1 conjunct1 [OF first] conjunct2 [OF first]]
  have r2: "run_rank k (?step (?step c)) \<le> 1"
    using conjunct1 [OF conjunct2 [OF second]] conjunct2 [OF first] by linarith
  then have "run_rank k (?step (?step c)) < 3" by linarith
  note third = later [OF conjunct2 [OF conjunct2 [OF second]] conjunct1 [OF second] this]
  have r3: "run_rank k (?step (?step (?step c))) = 0"
    using conjunct1 [OF conjunct2 [OF third]] r2 by linarith
  have run: "controller_run P cfg (replicate 3 ?e) c = ?step (?step (?step c))"
    by (simp add: controller_run_def numeral_3_eq_3)
  have "map_get (ctl_runs (?step (?step (?step c)))) k = None"
    using r3 unfolding run_rank_def
    by (cases "map_get (ctl_runs (?step (?step (?step c)))) k") (auto elim: phase_rank.elims)
  with conjunct1 [OF third] show ?thesis unfolding run settled_ticket_def by blast
qed

text \<open>The example ticket up to the answer of its executor.\<close>

definition demo_running :: ticket where
  "demo_running = next_ticket demo_platform (demo_ticket_io 2) Running NoPatch demo_ticket"

definition demo_run_config :: ticket_config where
  "demo_run_config =
     \<lparr>max_tickets = 4,
      max_record_bytes = compact_size (ticket_json demo_ticket) + compact_size (ticket_json demo_running)
        + compact_size (ticket_json (next_ticket demo_platform (demo_ticket_io 5) Failed
            (ErrorPatch oversize_failure) demo_running)),
      max_recovery_bytes = 65536, retention_ms = 1000\<rparr>"

definition demo_run_store :: ticket_store where
  "demo_run_store = demo_submitted
     \<lparr>ticket_dir := [(ticket_file (t_id demo_ticket), published_file (Some 1000) (ticket_json demo_running))],
      tickets := [(t_id demo_ticket, demo_running)]\<rparr>"

definition demo_events :: "nat controller_event list" where
  "demo_events = [EvRecover (demo_ticket_io 0), EvSubmit (demo_ticket_io 0) (demo_input ''r1'') (Some 7),
     EvStart (demo_ticket_io 2) (t_id demo_ticket), EvReturn (t_id demo_ticket) (Some (JBool True))]"

lemma demo_mark_running:
  "mark_running demo_platform demo_run_config (demo_ticket_io 2) (t_id demo_ticket) demo_submitted
     = (Inr demo_running, demo_run_store)"
proof -
  have rec: "recovery demo_submitted = Some (Inr \<lparr>rec_queued = [], rec_indeterminate = [],
        rec_terminal = [], rec_pruned = 0\<rparr>)"
    by (simp add: demo_submitted_def demo_recovered_def)
  have nxt: "apply_patch demo_platform NoPatch
      (demo_ticket\<lparr>t_state := Running, t_updated_at := to_iso (io_stamp (demo_ticket_io 2))\<rparr>) = demo_running"
    by (simp add: demo_running_def next_ticket_def)
  have id: "t_id demo_running = t_id demo_ticket" by (simp add: demo_running_def)
  have fits: "compact_size (ticket_json demo_running) \<le> max_record_bytes demo_run_config"
    by (simp add: demo_run_config_def)
  have "transition_locked demo_platform demo_run_config (demo_ticket_io 2) demo_ticket Running NoPatch False
      demo_submitted = (Inr demo_running, demo_run_store)"
    unfolding transition_locked_def Let_def
    by (simp add: nxt id demo_write [OF fits] demo_run_store_def demo_submitted_def demo_recovered_def
        del: apply_patch.simps)
  moreover have "map_get (tickets demo_submitted) (t_id demo_ticket) = Some demo_ticket"
    by (simp add: demo_submitted_def)
  ultimately show ?thesis by (simp add: mark_running_def ticket_transition_def recovered_then_live [OF rec])
qed

lemma demo_answered:
  "controller_run demo_platform demo_run_config demo_events (new_controller [] [] [])
     = \<lparr>ctl_store = demo_run_store, ctl_executor = True, ctl_recovered = True, ctl_draining = False,
        ctl_runs = [(t_id demo_ticket, RecordingResult (Some (JBool True)))],
        ctl_contexts = [(t_id demo_ticket, 7)], ctl_log = [(t_id demo_ticket, Some 7)],
        ctl_admitted = [t_id demo_ticket]\<rparr>"
proof -
  have "ticket_begin demo_platform demo_run_config (demo_ticket_io 0) (demo_input ''r1'') demo_recovered
      = (Inr demo_ticket, demo_submitted)"
    by (intro demo_begin_any) (simp_all add: demo_run_config_def)
  moreover have "admits demo_platform (demo_input ''r1'') demo_recovered"
    by (simp add: admits_def demo_recovered_def)
  moreover have "mutation_ticket_id demo_platform (ticket_scope (in_method (demo_input ''r1''))
      (in_target (demo_input ''r1'')) (in_key (demo_input ''r1''))) = t_id demo_ticket"
    by (simp add: demo_ticket_def)
  ultimately show ?thesis
    by (simp add: controller_run_def demo_events_def controller_recover_def new_controller_def demo_recover
        submit_def launch_def start_run_def demo_mark_running enter_def Let_def)
qed

theorem answered_run_settles_witness:
  "\<exists>c u. c = controller_run demo_platform demo_run_config
       (replicate 3 (EvRecord (demo_ticket_io 5) (t_id demo_ticket) None None))
       (controller_run demo_platform demo_run_config demo_events (new_controller [] [] []))
     \<and> map_get (tickets (ctl_store c)) (t_id demo_ticket) = Some u
     \<and> (t_state u = Succeeded \<or> t_state u = Failed) \<and> map_get (ctl_runs c) (t_id demo_ticket) = None"
proof -
  have parse: "date_parse (to_iso 5) = Some 5" by code_simp
  have "\<exists>u. map_get (tickets (ctl_store (controller_run demo_platform demo_run_config
      (replicate 3 (EvRecord (demo_ticket_io 5) (t_id demo_ticket) None None))
      (controller_run demo_platform demo_run_config demo_events (new_controller [] [] []))))) (t_id demo_ticket)
      = Some u \<and> (t_state u = Succeeded \<or> t_state u = Failed)
    \<and> map_get (ctl_runs (controller_run demo_platform demo_run_config
      (replicate 3 (EvRecord (demo_ticket_io 5) (t_id demo_ticket) None None))
      (controller_run demo_platform demo_run_config demo_events (new_controller [] [] [])))) (t_id demo_ticket) = None"
  proof (rule answered_run_settles [OF refl, where t = demo_running])
    show "map_get (ctl_runs (controller_run demo_platform demo_run_config demo_events (new_controller [] [] [])))
        (t_id demo_ticket) = Some (RecordingResult (Some (JBool True)))"
      by (simp add: demo_answered)
    show "map_get (tickets (ctl_store (controller_run demo_platform demo_run_config demo_events
        (new_controller [] [] [])))) (t_id demo_ticket) = Some demo_running"
      by (simp add: demo_answered demo_run_store_def)
    show "recordable demo_platform demo_run_config (demo_ticket_io 5) demo_running"
      by (simp add: recordable_def demo_run_config_def) (simp add: demo_running_def)
    show "\<not> ticket_expired demo_run_config (io_now (demo_ticket_io 5))
        (demo_running\<lparr>t_updated_at := to_iso (io_stamp (demo_ticket_io 5))\<rparr>)"
      by (simp add: ticket_expired_def demo_ticket_io_def parse demo_run_config_def)
  qed (simp add: demo_ticket_io_def)
  then show ?thesis by blast
qed

end
