(* ===== verification/Bytes.thy ===== *)
theory Bytes
  imports Prelude "HOL-Library.Word"
begin

text \<open>
  Bytes and UTF-16 code units as fixed-width words, and the parts of \<open>Buffer\<close> and \<open>TextDecoder\<close> the
  wire formats use: UTF-8 encoding of a string, fatal UTF-8 decoding, big-endian integers.
\<close>

unbundle bit_operations_syntax

type_synonym byte = "8 word"
type_synonym bytes = "byte list"
type_synonym code_unit = "16 word"
type_synonym units = "code_unit list"

section \<open>UTF-8 encoding\<close>

definition is_high :: "code_unit \<Rightarrow> bool" where
  "is_high u \<longleftrightarrow> 0xD800 \<le> unat u \<and> unat u \<le> 0xDBFF"

definition is_low :: "code_unit \<Rightarrow> bool" where
  "is_low u \<longleftrightarrow> 0xDC00 \<le> unat u \<and> unat u \<le> 0xDFFF"

definition byte_of :: "nat \<Rightarrow> byte" where
  "byte_of n = of_nat n"

text \<open>The bytes of one code point.\<close>

definition utf8_point :: "nat \<Rightarrow> bytes" where
  "utf8_point n =
     (if n < 0x80 then [byte_of n]
      else if n < 0x800 then [byte_of (0xC0 + n div 64), byte_of (0x80 + n mod 64)]
      else if n < 0x10000 then
        [byte_of (0xE0 + n div 4096), byte_of (0x80 + n div 64 mod 64), byte_of (0x80 + n mod 64)]
      else
        [byte_of (0xF0 + n div 262144), byte_of (0x80 + n div 4096 mod 64),
         byte_of (0x80 + n div 64 mod 64), byte_of (0x80 + n mod 64)])"

definition surrogate_point :: "code_unit \<Rightarrow> code_unit \<Rightarrow> nat" where
  "surrogate_point u v = 0x10000 + (unat u - 0xD800) * 1024 + (unat v - 0xDC00)"

text \<open>\<open>Buffer.from(text, "utf8")\<close>: a lone surrogate becomes U+FFFD.\<close>

fun utf8_encode :: "units \<Rightarrow> bytes" where
  "utf8_encode [] = []"
| "utf8_encode [u] = (if is_high u \<or> is_low u then utf8_point 0xFFFD else utf8_point (unat u))"
| "utf8_encode (u # v # us) =
     (if is_high u \<and> is_low v then utf8_point (surrogate_point u v) @ utf8_encode us
      else if is_high u \<or> is_low u then utf8_point 0xFFFD @ utf8_encode (v # us)
      else utf8_point (unat u) @ utf8_encode (v # us))"

lemma length_utf8_point:
  "length (utf8_point n) = (if n < 0x80 then 1 else if n < 0x800 then 2 else if n < 0x10000 then 3 else 4)"
  by (simp add: utf8_point_def)

lemma utf8_encode_cons_plain:
  "\<not> is_high u \<Longrightarrow> utf8_encode (u # us) = (if is_low u then utf8_point 0xFFFD else utf8_point (unat u)) @ utf8_encode us"
  by (cases us) simp_all

text \<open>A text that does not end in a high surrogate is encoded piecewise.\<close>

lemma utf8_encode_append:
  "us = [] \<or> \<not> is_high (last us) \<Longrightarrow> utf8_encode (us @ vs) = utf8_encode us @ utf8_encode vs"
proof (induction us rule: utf8_encode.induct)
  case (2 u)
  then show ?case by (simp add: utf8_encode_cons_plain)
next
  case (3 u v us)
  have "\<not> is_low w" if "is_high w" for w using that by (auto simp: is_high_def is_low_def)
  with 3 show ?case by (cases us) (auto simp: utf8_encode_cons_plain)
qed simp

section \<open>Fatal UTF-8 decoding\<close>

definition is_cont :: "byte \<Rightarrow> bool" where
  "is_cont b \<longleftrightarrow> 0x80 \<le> unat b \<and> unat b \<le> 0xBF"

text \<open>
  The code points of a byte sequence, \<open>None\<close> where \<open>new TextDecoder("utf-8", {fatal: true})\<close> throws:
  overlong forms, surrogates, code points beyond U+10FFFF and truncated sequences are refused.
\<close>

fun utf8_points :: "bytes \<Rightarrow> nat list option" where
  "utf8_points [] = Some []"
| "utf8_points (a # bs) =
     (let n = unat a in
      if n < 0x80 then map_option ((#) n) (utf8_points bs)
      else if 0xC2 \<le> n \<and> n \<le> 0xDF then
        (case bs of
           b # bs' \<Rightarrow>
             if is_cont b then map_option ((#) ((n - 0xC0) * 64 + (unat b - 0x80))) (utf8_points bs')
             else None
         | _ \<Rightarrow> None)
      else if 0xE0 \<le> n \<and> n \<le> 0xEF then
        (case bs of
           b # c # bs' \<Rightarrow>
             if is_cont b \<and> is_cont c \<and> (n = 0xE0 \<longrightarrow> 0xA0 \<le> unat b) \<and> (n = 0xED \<longrightarrow> unat b \<le> 0x9F)
             then map_option ((#) ((n - 0xE0) * 4096 + (unat b - 0x80) * 64 + (unat c - 0x80))) (utf8_points bs')
             else None
         | _ \<Rightarrow> None)
      else if 0xF0 \<le> n \<and> n \<le> 0xF4 then
        (case bs of
           b # c # d # bs' \<Rightarrow>
             if is_cont b \<and> is_cont c \<and> is_cont d \<and> (n = 0xF0 \<longrightarrow> 0x90 \<le> unat b) \<and> (n = 0xF4 \<longrightarrow> unat b \<le> 0x8F)
             then map_option ((#) ((n - 0xF0) * 262144 + (unat b - 0x80) * 4096
                                   + (unat c - 0x80) * 64 + (unat d - 0x80))) (utf8_points bs')
             else None
         | _ \<Rightarrow> None)
      else None)"

text \<open>The decoder drops one leading byte order mark.\<close>

definition text_decode :: "bytes \<Rightarrow> nat list option" where
  "text_decode bs =
     map_option (\<lambda>ps. case ps of p # ps' \<Rightarrow> if p = 0xFEFF then ps' else ps | [] \<Rightarrow> []) (utf8_points bs)"

section \<open>Big-endian integers\<close>

fun be_value :: "nat \<Rightarrow> bytes \<Rightarrow> nat" where
  "be_value acc [] = acc"
| "be_value acc (b # bs) = be_value (acc * 256 + unat b) bs"

definition be16 :: "nat \<Rightarrow> bytes" where
  "be16 n = [byte_of (n div 256), byte_of n]"

definition be32 :: "nat \<Rightarrow> bytes" where
  "be32 n = [byte_of (n div 16777216), byte_of (n div 65536), byte_of (n div 256), byte_of n]"

lemma unat_byte_of [simp]: "unat (byte_of n) = n mod 256"
  by (simp add: byte_of_def unat_of_nat)

lemma be16_value: "n < 65536 \<Longrightarrow> be_value 0 (be16 n) = n"
  by (simp add: be16_def)

lemma be32_value:
  assumes "n < 4294967296"
  shows "be_value 0 (be32 n) = n"
proof -
  define a where "a = n div 256"
  define b where "b = a div 256"
  define c where "c = b div 256"
  have split: "n = a * 256 + n mod 256" "a = b * 256 + a mod 256" "b = c * 256 + b mod 256"
    by (simp_all add: a_def b_def c_def)
  have quot: "n div 65536 = b" "n div 16777216 = c"
    by (simp_all add: a_def b_def c_def div_mult2_eq [symmetric])
  have "c < 256" using assms unfolding quot(2) [symmetric] by (simp add: less_mult_imp_div_less)
  then have "be_value 0 (be32 n) = ((c * 256 + b mod 256) * 256 + a mod 256) * 256 + n mod 256"
    by (simp add: be32_def quot a_def [symmetric])
  with split show ?thesis by simp
qed

lemma be_lengths [simp]: "length (be16 n) = 2" "length (be32 n) = 4"
  by (simp_all add: be16_def be32_def)

end
