(* ===== verification/Wire.thy ===== *)
theory Wire
  imports Bytes
begin

text \<open>
  The line protocol of \<open>src/protocol.ts\<close>: \<open>encodeBoundedLine\<close>, which measures a record structurally
  before it serializes it, and \<open>NdjsonDecoder\<close>.  Strings are UTF-16 code units; \<open>JSON.stringify\<close> is
  modelled for the plain values the encoder lets through.
\<close>

section \<open>Values\<close>

text \<open>
  \<open>JsUndefined\<close> is \<open>undefined\<close>, a function, a symbol or a hole of an array; \<open>JsAccessor\<close> a property
  defined by an accessor; \<open>JsExotic\<close> an object with its own \<open>toJSON\<close> method, a non-plain prototype or a
  circular reference.  A number is the text it prints as (\<open>null\<close> when it is not finite).  The
  properties of an object are its own enumerable ones, in enumeration order.
\<close>

datatype js_value =
    JsUndefined
  | JsBigint
  | JsAccessor
  | JsExotic
  | JsNull
  | JsBool bool
  | JsNumber units
  | JsString units
  | JsArray "js_value list"
  | JsObject "(units \<times> js_value) list"

definition too_large :: js_error where
  "too_large = JsError ProtocolSerializationError ''outbound_record_too_large'' False"

definition not_serializable :: js_error where
  "not_serializable = JsError ProtocolSerializationError ''outbound_not_serializable'' False"

definition ascii :: "string \<Rightarrow> units" where
  "ascii s = List.map (\<lambda>c. of_nat (of_char c)) s"

section \<open>Measuring\<close>

definition bounded_add :: "nat \<Rightarrow> nat \<Rightarrow> nat \<Rightarrow> nat result" where
  "bounded_add current addition budget =
     (let total = current + addition in if total > budget then Inl too_large else Inr total)"

definition bounded_count :: "units \<Rightarrow> nat \<Rightarrow> nat result" where
  "bounded_count text budget =
     (let n = length (utf8_encode text) in if n > budget then Inl too_large else Inr n)"

text \<open>The bytes the code counts for a code unit that is not the first of a surrogate pair.\<close>

definition unit_width :: "code_unit \<Rightarrow> nat" where
  "unit_width u =
     (let code = unat u in
      if code = 0x22 \<or> code = 0x5C \<or> code \<in> set [8, 9, 10, 12, 13] then 2
      else if code \<le> 0x1F then 6
      else if code \<le> 0x7F then 1
      else if code \<le> 0x7FF then 2
      else if is_high u then 6
      else if is_low u then 6
      else 3)"

fun measure_units :: "nat \<Rightarrow> nat \<Rightarrow> units \<Rightarrow> nat result" where
  "measure_units budget bytes [] = Inr bytes"
| "measure_units budget bytes [u] = bounded_add bytes (unit_width u) budget"
| "measure_units budget bytes (u # v # us) =
     (if is_high u \<and> is_low v
      then bind (bounded_add bytes 4 budget) (\<lambda>n. measure_units budget n us)
      else bind (bounded_add bytes (unit_width u) budget) (\<lambda>n. measure_units budget n (v # us)))"

definition measure_json_string :: "units \<Rightarrow> nat \<Rightarrow> nat result" where
  "measure_json_string s budget = bind (bounded_add 0 2 budget) (\<lambda>n. measure_units budget n s)"

text \<open>\<open>prepareJsonValue\<close>: the bytes of a value and its plain copy, within a budget.\<close>

fun prepare :: "nat \<Rightarrow> js_value \<Rightarrow> (nat \<times> js_value) result"
  and prepare_elems :: "nat \<Rightarrow> nat \<Rightarrow> bool \<Rightarrow> js_value list \<Rightarrow> (nat \<times> js_value list) result"
  and prepare_props :: "nat \<Rightarrow> nat \<Rightarrow> bool \<Rightarrow> (units \<times> js_value) list
        \<Rightarrow> (nat \<times> (units \<times> js_value) list) result" where
  "prepare budget (JsString s) = bind (measure_json_string s budget) (\<lambda>n. Inr (n, JsString s))"
| "prepare budget (JsNumber t) = bind (bounded_count t budget) (\<lambda>n. Inr (n, JsNumber t))"
| "prepare budget (JsBool b) =
     bind (bounded_count (ascii (if b then ''true'' else ''false'')) budget) (\<lambda>n. Inr (n, JsBool b))"
| "prepare budget JsNull = bind (bounded_count (ascii ''null'') budget) (\<lambda>n. Inr (n, JsNull))"
| "prepare budget (JsArray vs) =
     bind (bounded_add 0 2 budget) (\<lambda>n. bind (prepare_elems budget n True vs)
       (\<lambda>(m, ws). Inr (m, JsArray ws)))"
| "prepare budget (JsObject kvs) =
     bind (bounded_add 0 2 budget) (\<lambda>n. bind (prepare_props budget n True kvs)
       (\<lambda>(m, kws). Inr (m, JsObject kws)))"
| "prepare budget _ = Inl not_serializable"
| "prepare_elems budget bytes first [] = Inr (bytes, [])"
| "prepare_elems budget bytes first (v # vs) =
     bind (if first then Inr bytes else bounded_add bytes 1 budget) (\<lambda>n.
       if v = JsAccessor then Inl not_serializable
       else if v = JsUndefined then
         bind (bounded_add n 4 budget) (\<lambda>m. bind (prepare_elems budget m False vs)
           (\<lambda>(k, ws). Inr (k, JsNull # ws)))
       else
         bind (prepare (budget - n) v) (\<lambda>(c, w). bind (bounded_add n c budget)
           (\<lambda>m. bind (prepare_elems budget m False vs) (\<lambda>(k, ws). Inr (k, w # ws)))))"
| "prepare_props budget bytes first [] = Inr (bytes, [])"
| "prepare_props budget bytes first ((key, v) # kvs) =
     (if v = JsAccessor then Inl not_serializable
      else if v = JsUndefined then prepare_props budget bytes first kvs
      else
        bind (if first then Inr bytes else bounded_add bytes 1 budget) (\<lambda>n.
        bind (measure_json_string key (budget - n)) (\<lambda>c.
        bind (bounded_add n c budget) (\<lambda>n1.
        bind (bounded_add n1 1 budget) (\<lambda>n2.
        bind (prepare (budget - n2) v) (\<lambda>(d, w).
        bind (bounded_add n2 d budget) (\<lambda>m.
        bind (prepare_props budget m False kvs) (\<lambda>(k, kws). Inr (k, (key, w) # kws)))))))))"

section \<open>Serializing\<close>

definition hex_unit :: "nat \<Rightarrow> code_unit" where
  "hex_unit d = of_nat (if d < 10 then 0x30 + d else 0x57 + d)"

definition backslash :: code_unit where
  "backslash = 0x5C"

text \<open>\<open>JSON.stringify\<close> of a string (well-formed: a lone surrogate is escaped).\<close>

definition escape_unit :: "code_unit \<Rightarrow> units" where
  "escape_unit u =
     (let n = unat u in
      if n = 0x22 \<or> n = 0x5C then [backslash, u]
      else if n = 8 then [backslash, 0x62]
      else if n = 9 then [backslash, 0x74]
      else if n = 10 then [backslash, 0x6E]
      else if n = 12 then [backslash, 0x66]
      else if n = 13 then [backslash, 0x72]
      else if n < 0x20 \<or> is_high u \<or> is_low u then
        [backslash, 0x75, hex_unit (n div 4096), hex_unit (n div 256 mod 16),
         hex_unit (n div 16 mod 16), hex_unit (n mod 16)]
      else [u])"

fun escape_units :: "units \<Rightarrow> units" where
  "escape_units [] = []"
| "escape_units [u] = escape_unit u"
| "escape_units (u # v # us) =
     (if is_high u \<and> is_low v then u # v # escape_units us
      else escape_unit u @ escape_units (v # us))"

definition json_string :: "units \<Rightarrow> units" where
  "json_string s = 0x22 # escape_units s @ [0x22]"

fun join_units :: "units list \<Rightarrow> units" where
  "join_units [] = []"
| "join_units [w] = w"
| "join_units (w # ws) = w @ ascii '','' @ join_units ws"

text \<open>\<open>JSON.stringify\<close> of a value the encoder prepared.\<close>

fun stringify_units :: "js_value \<Rightarrow> units" where
  "stringify_units JsNull = ascii ''null''"
| "stringify_units (JsBool b) = ascii (if b then ''true'' else ''false'')"
| "stringify_units (JsNumber t) = t"
| "stringify_units (JsString s) = json_string s"
| "stringify_units (JsArray vs) = ascii ''['' @ join_units (List.map stringify_units vs) @ ascii '']''"
| "stringify_units (JsObject kvs) =
     ascii ''{'' @ join_units (List.map (\<lambda>(k, v). json_string k @ ascii '':'' @ stringify_units v) kvs)
     @ ascii ''}''"
| "stringify_units _ = ascii ''null''"

text \<open>\<open>encodeBoundedLine\<close>, with the check of the actual bytes against the measured ones at its end.\<close>

definition line_feed :: byte where
  "line_feed = 0x0A"

definition encode_bounded_line :: "js_value \<Rightarrow> nat \<Rightarrow> bytes result" where
  "encode_bounded_line v max_bytes =
     (if max_bytes < 1 then Inl (JsError PlainError ''Error'' False)
      else
        bind (prepare (max_bytes - 1) v) (\<lambda>(bytes, w).
          let record_bytes = bytes + 1 in
          if record_bytes > max_bytes then Inl too_large
          else
            (let encoded = stringify_units w; actual = length (utf8_encode encoded) + 1 in
             if actual > max_bytes \<or> actual \<noteq> record_bytes then Inl too_large
             else Inr (utf8_encode encoded @ [line_feed]))))"

section \<open>Decoding lines\<close>

record ndjson_decoder =
  max_line_bytes :: nat
  nd_buffer :: bytes

definition line_too_large :: js_error where
  "line_too_large = JsError ProtocolValidationError ''line_too_large'' False"

text \<open>\<open>parse\<close> is \<open>JSON.parse\<close> on decoded text, \<open>None\<close> where it throws.\<close>

definition parse_line :: "(nat list \<Rightarrow> 'v option) \<Rightarrow> bytes \<Rightarrow> 'v result" where
  "parse_line parse line =
     (case text_decode line of
        None \<Rightarrow> Inl (JsError ProtocolValidationError ''invalid_utf8'' False)
      | Some text \<Rightarrow>
          (case parse text of
             None \<Rightarrow> Inl (JsError ProtocolValidationError ''invalid_json'' False)
           | Some v \<Rightarrow> Inr v))"

text \<open>The line before the first LF and what follows it.\<close>

fun split_line :: "bytes \<Rightarrow> (bytes \<times> bytes) option" where
  "split_line [] = None"
| "split_line (b # bs) =
     (if b = line_feed then Some ([], bs)
      else map_option (\<lambda>(l, r). (b # l, r)) (split_line bs))"

lemma split_line_length: "split_line bs = Some (l, r) \<Longrightarrow> length r < length bs"
  by (induction bs arbitrary: l r) (auto split: if_splits)

definition strip_cr :: "bytes \<Rightarrow> bytes" where
  "strip_cr line = (if line \<noteq> [] \<and> last line = 0x0D then butlast line else line)"

text \<open>
  The loop of \<open>push\<close>: the values so far, and the buffer it leaves when it ends or throws.  A line that
  does not parse has been taken off the buffer.
\<close>

function push_lines :: "(nat list \<Rightarrow> 'v option) \<Rightarrow> nat \<Rightarrow> bytes \<Rightarrow> 'v list result \<times> bytes" where
  "push_lines parse limit buf =
     (case split_line buf of
        None \<Rightarrow> (if length buf > limit then Inl line_too_large else Inr [], buf)
      | Some (raw, rest) \<Rightarrow>
          if length raw > limit then (Inl line_too_large, buf)
          else if strip_cr raw = [] then push_lines parse limit rest
          else
            (case parse_line parse (strip_cr raw) of
               Inl e \<Rightarrow> (Inl e, rest)
             | Inr v \<Rightarrow>
                 (case push_lines parse limit rest of
                    (Inl e, b) \<Rightarrow> (Inl e, b)
                  | (Inr vs, b) \<Rightarrow> (Inr (v # vs), b))))"
  by auto
termination
  by (relation "measure (\<lambda>(_, _, buf). length buf)") (auto dest: split_line_length)

declare push_lines.simps [simp del]

definition ndjson_push :: "(nat list \<Rightarrow> 'v option) \<Rightarrow> bytes \<Rightarrow> ndjson_decoder \<Rightarrow> 'v list result \<times> ndjson_decoder" where
  "ndjson_push parse chunk d =
     (let (r, b) = push_lines parse (max_line_bytes d) (nd_buffer d @ chunk) in (r, d\<lparr>nd_buffer := b\<rparr>))"

definition ndjson_finish :: "(nat list \<Rightarrow> 'v option) \<Rightarrow> ndjson_decoder \<Rightarrow> 'v list result \<times> ndjson_decoder" where
  "ndjson_finish parse d =
     (if nd_buffer d = [] then (Inr [], d)
      else (bind (parse_line parse (nd_buffer d)) (\<lambda>v. Inr [v]), d\<lparr>nd_buffer := []\<rparr>))"

end
