(* ===== verification/WireLaws.thy ===== *)
theory WireLaws
  imports Wire
begin

text \<open>
  The structural measure of \<open>encodeBoundedLine\<close> is exact, so its final check never fires, and the
  line decoder does not depend on how its input is cut into chunks.
\<close>

named_theorems wire_simps

section \<open>Bytes of a string literal\<close>

lemma unit_bound: "unat (u :: code_unit) < 65536"
  using unsigned_less [of u, where ?'a = nat] by simp

text \<open>A text after which encoding continues afresh.\<close>

definition closed :: "units \<Rightarrow> bool" where
  "closed us \<longleftrightarrow> us = [] \<or> \<not> is_high (last us)"

lemma closed_Nil [simp]: "closed []"
  by (simp add: closed_def)

lemma closed_append [simp]: "closed vs \<Longrightarrow> closed us \<Longrightarrow> closed (us @ vs)"
  by (cases "vs = []") (auto simp: closed_def)

lemma encode_append [wire_simps]: "closed us \<Longrightarrow> utf8_encode (us @ vs) = utf8_encode us @ utf8_encode vs"
  unfolding closed_def by (rule utf8_encode_append)

lemma high_not_low: "is_high u \<Longrightarrow> \<not> is_low u"
  by (auto simp: is_high_def is_low_def)

lemma low_not_high: "is_low u \<Longrightarrow> \<not> is_high u"
  by (auto simp: is_high_def is_low_def)

lemma plain_small: "unat u < 0x80 \<Longrightarrow> \<not> is_high u \<and> \<not> is_low u"
  by (auto simp: is_high_def is_low_def)

lemma ascii_encode:
  "\<forall>u \<in> set us. unat u < 0x80 \<Longrightarrow> length (utf8_encode us) = length us \<and> closed us"
proof (induction us)
  case (Cons u us)
  have u: "\<not> is_high u" "\<not> is_low u" "unat u < 0x80" using Cons.prems plain_small by auto
  with Cons have "length (utf8_encode us) = length us" "closed us" by auto
  with u show ?case
    by (auto simp: utf8_encode_cons_plain length_utf8_point closed_def)
qed simp

lemma ascii_units: "\<forall>c \<in> set s. (of_char c :: nat) < 128 \<Longrightarrow> \<forall>u \<in> set (ascii s). unat u < 0x80"
proof (intro ballI)
  fix u assume small: "\<forall>c \<in> set s. (of_char c :: nat) < 128" and "u \<in> set (ascii s)"
  then obtain c where c: "c \<in> set s" "u = of_nat (of_char c)" by (auto simp: ascii_def)
  then have "unat u = of_char c" using small by (auto simp: unat_of_nat)
  with small c(1) show "unat u < 0x80" by simp
qed

lemma ascii_words [simp]:
  "length (utf8_encode (ascii ''null'')) = 4" "length (utf8_encode (ascii ''true'')) = 4"
  "length (utf8_encode (ascii ''false'')) = 5" "length (utf8_encode (ascii '','')) = 1"
  "length (utf8_encode (ascii '':'')) = 1" "length (utf8_encode (ascii ''['')) = 1"
  "length (utf8_encode (ascii '']'')) = 1" "length (utf8_encode (ascii ''{'')) = 1"
  "length (utf8_encode (ascii ''}'')) = 1"
  "closed (ascii ''null'')" "closed (ascii ''true'')" "closed (ascii ''false'')" "closed (ascii '','')"
  "closed (ascii '':'')" "closed (ascii ''['')" "closed (ascii '']'')" "closed (ascii ''{'')"
  "closed (ascii ''}'')"
  by (simp_all add: ascii_def utf8_encode_cons_plain is_high_def is_low_def length_utf8_point closed_def)

lemma hex_unit_plain: "d < 16 \<Longrightarrow> unat (hex_unit d) < 0x80 \<and> 0x20 \<le> unat (hex_unit d)"
  by (simp add: hex_unit_def unat_of_nat)

lemma escape_unit_cases:
  obtains (short) w where "escape_unit u = [backslash, w]" and "unat w < 0x80" and "unit_width u = 2"
      and "0x20 \<le> unat w"
  | (hex) ws where "escape_unit u = backslash # ws" and "length ws = 5" and "\<forall>x \<in> set ws. unat x < 0x80"
      and "unit_width u = 6" and "\<forall>x \<in> set ws. 0x20 \<le> unat x"
  | (plain) "escape_unit u = [u]" and "\<not> is_high u" and "\<not> is_low u" and "0x20 \<le> unat u"
      and "unit_width u = (if unat u < 0x80 then 1 else if unat u < 0x800 then 2 else 3)"
proof -
  let ?n = "unat u"
  consider (quote) "?n = 0x22 \<or> ?n = 0x5C" | (named) "?n \<in> {8, 9, 10, 12, 13}"
    | (coded) "?n \<notin> {0x22, 0x5C, 8, 9, 10, 12, 13}" "?n < 0x20 \<or> is_high u \<or> is_low u"
    | (kept) "?n \<notin> {0x22, 0x5C, 8, 9, 10, 12, 13}" "0x20 \<le> ?n" "\<not> is_high u" "\<not> is_low u"
    by fastforce
  then show thesis
  proof cases
    case quote
    then have "escape_unit u = [backslash, u]" "unit_width u = 2" "?n < 0x80" "0x20 \<le> ?n"
      by (auto simp: escape_unit_def unit_width_def)
    then show thesis using short by blast
  next
    case named
    then have "escape_unit u \<in> {[backslash, 0x62], [backslash, 0x74], [backslash, 0x6E], [backslash, 0x66],
        [backslash, 0x72]}" "unit_width u = 2"
      by (auto simp: escape_unit_def unit_width_def)
    then show thesis using short by auto
  next
    case coded
    let ?ws = "[0x75, hex_unit (?n div 4096), hex_unit (?n div 256 mod 16), hex_unit (?n div 16 mod 16),
        hex_unit (?n mod 16)]"
    have "escape_unit u = backslash # ?ws" using coded by (auto simp: escape_unit_def Let_def)
    moreover have "unit_width u = 6"
      using coded by (auto simp: unit_width_def is_high_def is_low_def)
    moreover have "?n div 4096 < 16" using unit_bound [of u] by simp
    then have "\<forall>x \<in> set ?ws. unat x < 0x80 \<and> 0x20 \<le> unat x" by (simp add: hex_unit_plain)
    ultimately show thesis using hex [of ?ws] by simp
  next
    case kept
    then have "escape_unit u = [u]" by (auto simp: escape_unit_def)
    moreover have "unit_width u = (if ?n < 0x80 then 1 else if ?n < 0x800 then 2 else 3)"
      using kept by (auto simp: unit_width_def)
    ultimately show thesis using plain kept by blast
  qed
qed

lemma escape_unit_width:
  "length (utf8_encode (escape_unit u)) = unit_width u \<and> closed (escape_unit u)"
proof (cases rule: escape_unit_cases [of u])
  case (short w)
  then have "\<forall>x \<in> set [backslash, w]. unat x < 0x80" by (simp add: backslash_def)
  from ascii_encode [OF this] short show ?thesis by simp
next
  case (hex ws)
  then have "\<forall>x \<in> set (backslash # ws). unat x < 0x80" by (simp add: backslash_def)
  from ascii_encode [OF this] hex show ?thesis by simp
next
  case plain
  then show ?thesis using unit_bound [of u] by (simp add: length_utf8_point closed_def)
qed

lemmas escape_unit_facts = escape_unit_width [THEN conjunct1] escape_unit_width [THEN conjunct2]

fun units_width :: "units \<Rightarrow> nat" where
  "units_width [] = 0"
| "units_width [u] = unit_width u"
| "units_width (u # v # us) =
     (if is_high u \<and> is_low v then 4 + units_width us else unit_width u + units_width (v # us))"

lemma escape_units_closed: "closed (escape_units s)"
proof (induction s rule: escape_units.induct)
  case (3 u v us)
  show ?case
  proof (cases "is_high u \<and> is_low v")
    case True
    with 3(1) have "closed (escape_units us)" by simp
    with True low_not_high show ?thesis by (auto simp: closed_def)
  next
    case False
    with 3(2) escape_unit_facts(2) show ?thesis by auto
  qed
qed (simp_all add: escape_unit_facts)

lemma pair_width: "is_high u \<Longrightarrow> is_low v \<Longrightarrow> length (utf8_point (surrogate_point u v)) = 4"
  by (simp add: length_utf8_point surrogate_point_def)

lemma escape_units_width: "length (utf8_encode (escape_units s)) = units_width s"
proof (induction s rule: escape_units.induct)
  case (3 u v us)
  then show ?case
    by (cases "is_high u \<and> is_low v")
       (auto simp: pair_width encode_append escape_unit_facts)
qed (simp_all add: escape_unit_facts)

lemma json_string_width [wire_simps]: "length (utf8_encode (json_string s)) = 2 + units_width s"
  and json_string_closed [simp]: "closed (json_string s)"
proof -
  have q: "utf8_encode [0x22] = [0x22]"
    by (simp add: is_high_def is_low_def utf8_point_def byte_of_def)
  have s: "json_string s = [0x22] @ escape_units s @ [0x22]" by (simp add: json_string_def)
  have "closed [0x22 :: code_unit]" by (simp add: closed_def is_high_def)
  then show "length (utf8_encode (json_string s)) = 2 + units_width s" and "closed (json_string s)"
    unfolding s
    by (simp_all add: encode_append escape_units_closed escape_units_width q del: utf8_encode.simps append_Cons)
qed

section \<open>The measure of strings\<close>

lemma bounded_add_eq: "bounded_add a b budget = (if a + b \<le> budget then Inr (a + b) else Inl too_large)"
  by (simp add: bounded_add_def Let_def)

lemma bounded_count_eq:
  "bounded_count t budget = (if length (utf8_encode t) \<le> budget then Inr (length (utf8_encode t)) else Inl too_large)"
  by (simp add: bounded_count_def Let_def)

lemma measure_units_eq:
  "bytes \<le> budget \<Longrightarrow> measure_units budget bytes s =
     (if bytes + units_width s \<le> budget then Inr (bytes + units_width s) else Inl too_large)"
  by (induction budget bytes s rule: measure_units.induct) (auto simp: bounded_add_eq)

lemma measure_json_string_eq:
  "measure_json_string s budget = (if 2 + units_width s \<le> budget then Inr (2 + units_width s) else Inl too_large)"
  by (simp add: measure_json_string_def bounded_add_eq measure_units_eq)

section \<open>The measure of values\<close>

text \<open>A value with a JSON form: nothing the encoder refuses, at any depth.\<close>

fun serializable :: "js_value \<Rightarrow> bool" where
  "serializable (JsArray vs) \<longleftrightarrow> (\<forall>v \<in> set vs. v = JsUndefined \<or> serializable v)"
| "serializable (JsObject kvs) \<longleftrightarrow> (\<forall>kv \<in> set kvs. snd kv = JsUndefined \<or> serializable (snd kv))"
| "serializable v \<longleftrightarrow> v \<notin> {JsUndefined, JsBigint, JsAccessor, JsExotic}"

text \<open>What \<open>JSON.stringify\<close> leaves out of objects and replaces in arrays.\<close>

fun drop_undefined :: "js_value \<Rightarrow> js_value" where
  "drop_undefined (JsArray vs) =
     JsArray (List.map (\<lambda>v. if v = JsUndefined then JsNull else drop_undefined v) vs)"
| "drop_undefined (JsObject kvs) =
     JsObject (List.map (\<lambda>kv. (fst kv, drop_undefined (snd kv)))
       (List.filter (\<lambda>kv. snd kv \<noteq> JsUndefined) kvs))"
| "drop_undefined v = v"

definition json_text :: "js_value \<Rightarrow> units" where
  "json_text v = stringify_units (drop_undefined v)"

fun js_size :: "js_value \<Rightarrow> nat" and elems_size :: "bool \<Rightarrow> js_value list \<Rightarrow> nat"
  and props_size :: "bool \<Rightarrow> (units \<times> js_value) list \<Rightarrow> nat" where
  "js_size (JsString s) = 2 + units_width s"
| "js_size (JsNumber t) = length (utf8_encode t)"
| "js_size (JsBool b) = (if b then 4 else 5)"
| "js_size (JsArray vs) = 2 + elems_size True vs"
| "js_size (JsObject kvs) = 2 + props_size True kvs"
| "js_size _ = 4"
| "elems_size first [] = 0"
| "elems_size first (v # vs) =
     (if first then 0 else 1) + (if v = JsUndefined then 4 else js_size v) + elems_size False vs"
| "props_size first [] = 0"
| "props_size first ((k, v) # kvs) =
     (if v = JsUndefined then props_size first kvs
      else (if first then 0 else 1) + (2 + units_width k) + 1 + js_size v + props_size False kvs)"

text \<open>What preparing returns, for each of the three functions.\<close>

definition outcome :: "bool \<Rightarrow> nat \<Rightarrow> nat \<Rightarrow> 'a \<Rightarrow> (nat \<times> 'a) result \<Rightarrow> bool" where
  "outcome ok sz budget w r \<longleftrightarrow>
     (case r of
        Inr (n, x) \<Rightarrow> ok \<and> n = sz \<and> sz \<le> budget \<and> x = w
      | Inl e \<Rightarrow> \<not> ok \<or> (sz > budget \<and> e = too_large))"

lemma outcome_ok: "outcome ok sz budget w (Inr (n, x)) \<longleftrightarrow> ok \<and> n = sz \<and> sz \<le> budget \<and> x = w"
  by (simp add: outcome_def)

lemma outcome_err: "outcome ok sz budget w (Inl e) \<longleftrightarrow> \<not> ok \<or> (sz > budget \<and> e = too_large)"
  by (simp add: outcome_def)

lemma outcome_cases:
  assumes "outcome ok sz budget w r"
  obtains (fine) "ok" and "sz \<le> budget" and "r = Inr (sz, w)"
  | (refused) e where "\<not> ok" and "r = Inl e"
  | (large) "sz > budget" and "r = Inl too_large"
  using assms by (cases r) (auto simp: outcome_def)

lemma outcome_map:
  "outcome ok sz budget w r \<Longrightarrow> outcome ok sz budget (f w) (bind r (\<lambda>(m, x). Inr (m, f x)))"
  by (cases r) (auto simp: outcome_def)

text \<open>A step that adds to the bytes, and one that stops with the budget or a refusal.\<close>

lemma outcome_large: "budget < sz \<Longrightarrow> outcome ok sz budget w (Inl too_large)"
  by (simp add: outcome_def)

lemma outcome_refused: "\<not> ok \<Longrightarrow> outcome ok sz budget w (Inl e)"
  by (simp add: outcome_def)

lemma prepare_outcome:
  "outcome (serializable v) (js_size v) budget (drop_undefined v) (prepare budget v)"
  "bytes \<le> budget \<Longrightarrow> outcome (\<forall>v \<in> set vs. v = JsUndefined \<or> serializable v) (bytes + elems_size first vs) budget
     (List.map (\<lambda>v. if v = JsUndefined then JsNull else drop_undefined v) vs) (prepare_elems budget bytes first vs)"
  "bytes \<le> budget \<Longrightarrow> outcome (\<forall>kv \<in> set kvs. snd kv = JsUndefined \<or> serializable (snd kv)) (bytes + props_size first kvs) budget
     (List.map (\<lambda>kv. (fst kv, drop_undefined (snd kv))) (List.filter (\<lambda>kv. snd kv \<noteq> JsUndefined) kvs))
     (prepare_props budget bytes first kvs)"
proof (induction budget v and budget bytes first vs and budget bytes first kvs
    rule: prepare_prepare_elems_prepare_props.induct)
  case (1 budget s)
  then show ?case by (simp add: measure_json_string_eq outcome_def)
next
  case (2 budget t)
  then show ?case by (simp add: bounded_count_eq outcome_def)
next
  case (3 budget b)
  then show ?case by (cases b) (simp_all add: bounded_count_eq outcome_def)
next
  case (4 budget)
  then show ?case by (simp add: bounded_count_eq outcome_def)
next
  case (5 budget vs)
  show ?case
  proof (cases "2 \<le> budget")
    case True
    then have two: "bounded_add 0 2 budget = Inr 2" by (simp add: bounded_add_eq)
    from outcome_map [OF 5 [OF two True], of JsArray] show ?thesis by (simp add: two)
  qed (simp add: bounded_add_eq outcome_large)
next
  case (6 budget kvs)
  show ?case
  proof (cases "2 \<le> budget")
    case True
    then have two: "bounded_add 0 2 budget = Inr 2" by (simp add: bounded_add_eq)
    from outcome_map [OF 6 [OF two True], of JsObject] show ?thesis by (simp add: two)
  qed (simp add: bounded_add_eq outcome_large)
next
  case (9 budget bytes first v vs)
  let ?n = "bytes + (if first then 0 else 1)"
  let ?rest = "List.map (\<lambda>v. if v = JsUndefined then JsNull else drop_undefined v) vs"
  show ?case
  proof (cases "?n \<le> budget")
    case False
    with 9(4) show ?thesis by (auto simp: bounded_add_eq outcome_large split: if_splits)
  next
    case fits: True
    then have n: "(if first then Inr bytes else bounded_add bytes 1 budget) = Inr ?n"
      by (cases first) (simp_all add: bounded_add_eq)
    consider (acc) "v = JsAccessor" | (undef) "v = JsUndefined" | (val) "v \<noteq> JsAccessor" "v \<noteq> JsUndefined" by blast
    then show ?thesis
    proof cases
      case acc
      with n show ?thesis by (simp add: outcome_refused)
    next
      case undef
      show ?thesis
      proof (cases "?n + 4 \<le> budget")
        case False
        with n undef show ?thesis by (simp add: bounded_add_eq outcome_large)
      next
        case more: True
        then have m: "bounded_add ?n 4 budget = Inr (?n + 4)" by (simp add: bounded_add_eq)
        have "v \<noteq> JsAccessor" using undef by simp
        from outcome_map [OF 9(1) [OF n this undef m more], of "(#) JsNull"] show ?thesis
          using undef by (simp add: n m add_ac)
      qed
    next
      case val
      have inner: "outcome (serializable v) (js_size v) (budget - ?n) (drop_undefined v) (prepare (budget - ?n) v)"
        by (rule 9(2) [OF n val])
      then show ?thesis
      proof (cases rule: outcome_cases)
        case fine
        then have m: "bounded_add ?n (js_size v) budget = Inr (?n + js_size v)"
          using fits by (simp add: bounded_add_eq)
        have le: "?n + js_size v \<le> budget" using fine(2) fits by simp
        from outcome_map [OF 9(3) [OF n val fine(3) refl m le], of "(#) (drop_undefined v)"] show ?thesis
          using val fine by (simp add: n m add_ac)
      next
        case (refused e)
        with n val show ?thesis by (simp add: outcome_refused)
      next
        case large
        with n val fits show ?thesis by (simp add: outcome_large)
      qed
    qed
  qed
next
  case (11 budget bytes first k v kvs)
  let ?ok = "\<forall>kv \<in> set kvs. snd kv = JsUndefined \<or> serializable (snd kv)"
  consider (acc) "v = JsAccessor" | (undef) "v = JsUndefined" | (val) "v \<noteq> JsAccessor" "v \<noteq> JsUndefined" by blast
  then show ?case
  proof cases
    case acc
    then show ?thesis by (simp add: outcome_refused)
  next
    case undef
    with 11(1) 11(4) show ?thesis by simp
  next
    case val
    let ?n = "bytes + (if first then 0 else 1)" and ?c = "2 + units_width k"
    show ?thesis
    proof (cases "?n + ?c + 1 \<le> budget")
      case False
      then have "prepare_props budget bytes first ((k, v) # kvs) = Inl too_large"
        using val 11(4) by (auto simp: bounded_add_eq measure_json_string_eq)
      with val False show ?thesis by (simp add: outcome_large)
    next
      case True
      have n: "(if first then Inr bytes else bounded_add bytes 1 budget) = Inr ?n"
        using True by (cases first) (simp_all add: bounded_add_eq)
      have c: "measure_json_string k (budget - ?n) = Inr ?c"
        using True by (simp add: measure_json_string_eq)
      have n1: "bounded_add ?n ?c budget = Inr (?n + ?c)" using True by (simp add: bounded_add_eq)
      have n2: "bounded_add (?n + ?c) 1 budget = Inr (?n + ?c + 1)" using True by (simp add: bounded_add_eq)
      have inner: "outcome (serializable v) (js_size v) (budget - (?n + ?c + 1)) (drop_undefined v)
          (prepare (budget - (?n + ?c + 1)) v)"
        by (rule 11(2) [OF val n c n1 n2])
      then show ?thesis
      proof (cases rule: outcome_cases)
        case fine
        then have m: "bounded_add (?n + ?c + 1) (js_size v) budget = Inr (?n + ?c + 1 + js_size v)"
          using True by (simp add: bounded_add_eq)
        have le: "?n + ?c + 1 + js_size v \<le> budget" using fine(2) True by simp
        have step: "prepare_props budget bytes first ((k, v) # kvs)
            = bind (prepare_props budget (?n + ?c + 1 + js_size v) False kvs)
                (\<lambda>(m, kws). Inr (m, (k, drop_undefined v) # kws))"
          using val by (simp only: prepare_props.simps n c n1 n2 fine(3) m bind.simps if_False prod.case)
        from outcome_map [OF 11(3) [OF val n c n1 n2 fine(3) refl m le], of "(#) (k, drop_undefined v)"]
        show ?thesis
          unfolding step using val fine by (simp add: add_ac)
      next
        case (refused e)
        have step: "prepare_props budget bytes first ((k, v) # kvs) = Inl e"
          using val by (simp only: prepare_props.simps n c n1 n2 refused(2) bind.simps if_False)
        show ?thesis unfolding step using val refused by (simp add: outcome_refused)
      next
        case large
        have step: "prepare_props budget bytes first ((k, v) # kvs) = Inl too_large"
          using val by (simp only: prepare_props.simps n c n1 n2 large(2) bind.simps if_False)
        show ?thesis unfolding step using val large True by (simp add: outcome_large)
      qed
    qed
  qed
qed (auto simp: outcome_def)

end
