(* ===== verification/WireText.thy ===== *)
theory WireText
  imports WireLaws
begin

text \<open>The bytes of an encoded record: their number, their decoding, and the absence of line feeds.\<close>

section \<open>Numbers\<close>

text \<open>A number prints as visible ASCII characters (digits, sign, point, exponent, or \<open>null\<close>).\<close>

fun numbers_ok :: "js_value \<Rightarrow> bool" where
  "numbers_ok (JsNumber t) \<longleftrightarrow> t \<noteq> [] \<and> (\<forall>u \<in> set t. 0x20 \<le> unat u \<and> unat u < 0x80)"
| "numbers_ok (JsArray vs) \<longleftrightarrow> (\<forall>v \<in> set vs. numbers_ok v)"
| "numbers_ok (JsObject kvs) \<longleftrightarrow> (\<forall>kv \<in> set kvs. numbers_ok (snd kv))"
| "numbers_ok _ \<longleftrightarrow> True"

section \<open>The size of the text\<close>

definition joined :: "bool \<Rightarrow> units list \<Rightarrow> units" where
  "joined first ws = (if first \<or> ws = [] then join_units ws else ascii '','' @ join_units ws)"

lemma join_units_Cons: "join_units (w # ws) = w @ joined False ws"
  by (cases ws) (simp_all add: joined_def)

lemma joined_Cons: "joined first (w # ws) = (if first then [] else ascii '','') @ w @ joined False ws"
  by (simp add: joined_def join_units_Cons del: join_units.simps)

lemma joined_Nil [simp]: "joined first [] = []"
  by (simp add: joined_def)

definition elem_text :: "js_value \<Rightarrow> units" where
  "elem_text v = stringify_units (if v = JsUndefined then JsNull else drop_undefined v)"

definition prop_text :: "units \<times> js_value \<Rightarrow> units" where
  "prop_text kv = json_string (fst kv) @ ascii '':'' @ stringify_units (drop_undefined (snd kv))"

lemma stringify_array:
  "stringify_units (drop_undefined (JsArray vs)) = ascii ''['' @ joined True (List.map elem_text vs) @ ascii '']''"
  by (simp add: joined_def elem_text_def [abs_def] comp_def)

lemma stringify_object:
  "stringify_units (drop_undefined (JsObject kvs)) =
     ascii ''{'' @ joined True (List.map prop_text (List.filter (\<lambda>kv. snd kv \<noteq> JsUndefined) kvs)) @ ascii ''}''"
  by (simp add: joined_def prop_text_def [abs_def] comp_def case_prod_beta)

lemma text_size:
  "serializable v \<Longrightarrow> numbers_ok v \<Longrightarrow> closed (json_text v) \<and> length (utf8_encode (json_text v)) = js_size v"
  "\<forall>v \<in> set vs. v = JsUndefined \<or> serializable v \<Longrightarrow> \<forall>v \<in> set vs. numbers_ok v \<Longrightarrow>
     closed (joined first (List.map elem_text vs))
     \<and> length (utf8_encode (joined first (List.map elem_text vs))) = elems_size first vs"
  "\<forall>kv \<in> set kvs. snd kv = JsUndefined \<or> serializable (snd kv) \<Longrightarrow> \<forall>kv \<in> set kvs. numbers_ok (snd kv) \<Longrightarrow>
     closed (joined first (List.map prop_text (List.filter (\<lambda>kv. snd kv \<noteq> JsUndefined) kvs)))
     \<and> length (utf8_encode (joined first (List.map prop_text (List.filter (\<lambda>kv. snd kv \<noteq> JsUndefined) kvs))))
         = props_size first kvs"
proof (induction v and first vs and first kvs rule: js_size_elems_size_props_size.induct)
  case (1 s)
  then show ?case by (simp add: json_text_def json_string_width)
next
  case (2 t)
  then show ?case using ascii_encode [of t] by (auto simp: json_text_def)
next
  case (3 b)
  then show ?case by (simp add: json_text_def)
next
  case (4 vs)
  then have "closed (joined True (List.map elem_text vs))
     \<and> length (utf8_encode (joined True (List.map elem_text vs))) = elems_size True vs" by simp
  then show ?case by (simp add: json_text_def stringify_array encode_append del: drop_undefined.simps)
next
  case (5 kvs)
  then have "closed (joined True (List.map prop_text (List.filter (\<lambda>kv. snd kv \<noteq> JsUndefined) kvs)))
     \<and> length (utf8_encode (joined True (List.map prop_text (List.filter (\<lambda>kv. snd kv \<noteq> JsUndefined) kvs))))
         = props_size True kvs" by simp
  then show ?case by (simp add: json_text_def stringify_object encode_append del: drop_undefined.simps)
next
  case (8 first v vs)
  have elem: "closed (elem_text v) \<and> length (utf8_encode (elem_text v)) = (if v = JsUndefined then 4 else js_size v)"
    using 8(1,3,4) by (cases "v = JsUndefined") (auto simp: elem_text_def json_text_def)
  have rest: "closed (joined False (List.map elem_text vs))
     \<and> length (utf8_encode (joined False (List.map elem_text vs))) = elems_size False vs"
    using 8(2,3,4) by simp
  show ?case using elem rest by (simp add: joined_Cons encode_append)
next
  case (10 first k v kvs)
  show ?case
  proof (cases "v = JsUndefined")
    case True
    with 10 show ?thesis by simp
  next
    case False
    have "closed (json_text v) \<and> length (utf8_encode (json_text v)) = js_size v"
      using 10(2) False 10(4,5) by simp
    then have pr: "closed (prop_text (k, v)) \<and> length (utf8_encode (prop_text (k, v))) = 2 + units_width k + 1 + js_size v"
      by (simp add: prop_text_def encode_append json_string_width json_text_def)
    have "closed (joined False (List.map prop_text (List.filter (\<lambda>kv. snd kv \<noteq> JsUndefined) kvs)))
     \<and> length (utf8_encode (joined False (List.map prop_text (List.filter (\<lambda>kv. snd kv \<noteq> JsUndefined) kvs))))
         = props_size False kvs"
      using 10(3) False 10(4,5) by simp
    with pr False show ?thesis by (simp add: joined_Cons encode_append)
  qed
qed (simp_all add: json_text_def)

section \<open>Decoding what was encoded\<close>

text \<open>The code points of a text; a lone surrogate is read as U+FFFD.\<close>

fun units_points :: "units \<Rightarrow> nat list" where
  "units_points [] = []"
| "units_points [u] = [if is_high u \<or> is_low u then 0xFFFD else unat u]"
| "units_points (u # v # us) =
     (if is_high u \<and> is_low v then surrogate_point u v # units_points us
      else (if is_high u \<or> is_low u then 0xFFFD else unat u) # units_points (v # us))"

lemma digits64_3: "n = n div 4096 * 4096 + n div 64 mod 64 * 64 + n mod (64 :: nat)"
proof -
  have "n div 4096 = n div 64 div 64" by (simp add: div_mult2_eq [symmetric])
  then have "n div 64 = n div 4096 * 64 + n div 64 mod 64" by simp
  moreover have "n = n div 64 * 64 + n mod 64" by simp
  ultimately show ?thesis by linarith
qed

lemma digits64_4:
  "n = n div 262144 * 262144 + n div 4096 mod 64 * 4096 + n div 64 mod 64 * 64 + n mod (64 :: nat)"
proof -
  have "n div 262144 = n div 4096 div 64" by (simp add: div_mult2_eq [symmetric])
  then have "n div 4096 = n div 262144 * 64 + n div 4096 mod 64" by simp
  with digits64_3 [of n] show ?thesis by linarith
qed

lemma utf8_points_point:
  assumes "n < 0x110000" and "\<not> (0xD800 \<le> n \<and> n \<le> 0xDFFF)"
  shows "utf8_points (utf8_point n @ bs) = map_option ((#) n) (utf8_points bs)"
proof -
  consider "n < 0x80" | "0x80 \<le> n" "n < 0x800" | "0x800 \<le> n" "n < 0x10000" | "0x10000 \<le> n" by linarith
  then show ?thesis
  proof cases
    case 1
    then show ?thesis by (simp add: utf8_point_def)
  next
    case 2
    define q r where "q = n div 64" and "r = n mod 64"
    have n: "n = q * 64 + r" "r < 64" by (simp_all add: q_def r_def)
    with 2 have "2 \<le> q" "q < 32" by linarith+
    with n 2 show ?thesis
      by (simp add: utf8_point_def is_cont_def Let_def)
  next
    case 3
    define a b c where "a = n div 4096" and "b = n div 64 mod 64" and "c = n mod 64"
    have n: "n = a * 4096 + b * 64 + c" "b < 64" "c < 64"
      using digits64_3 [of n] by (simp_all add: a_def b_def c_def)
    have a: "a < 16" using n 3 by linarith
    have low: "a = 0 \<longrightarrow> 32 \<le> b" using n 3 by linarith
    have sur: "a = 13 \<longrightarrow> b \<le> 31" using n assms(2) by linarith
    show ?thesis
      using 3 a n(2,3) low sur
      by (simp add: utf8_point_def is_cont_def Let_def a_def [symmetric] b_def [symmetric] c_def [symmetric]
          n(1) [symmetric])
  next
    case 4
    define a b c d where "a = n div 262144" and "b = n div 4096 mod 64" and "c = n div 64 mod 64"
      and "d = n mod 64"
    have n: "n = a * 262144 + b * 4096 + c * 64 + d" "b < 64" "c < 64" "d < 64"
      using digits64_4 [of n] by (simp_all add: a_def b_def c_def d_def)
    have a: "a < 5" using n assms(1) by linarith
    have low: "a = 0 \<longrightarrow> 16 \<le> b" using n 4 by linarith
    have top: "a = 4 \<longrightarrow> b \<le> 15" using n assms(1) by linarith
    show ?thesis
      using 4 a n(2-4) low top
      by (simp add: utf8_point_def is_cont_def Let_def a_def [symmetric] b_def [symmetric] c_def [symmetric]
          d_def [symmetric] n(1) [symmetric])
  qed
qed

lemma surrogate_point_range: "is_high u \<Longrightarrow> is_low v \<Longrightarrow> 0x10000 \<le> surrogate_point u v \<and> surrogate_point u v < 0x110000"
  unfolding is_high_def is_low_def surrogate_point_def by linarith

lemma utf8_points_encode: "utf8_points (utf8_encode us) = Some (units_points us)"
proof (induction us rule: utf8_encode.induct)
  case (2 u)
  show ?case
    using utf8_points_point [of "0xFFFD" "[]"] utf8_points_point [of "unat u" "[]"] unit_bound [of u]
    by (auto simp: is_high_def is_low_def)
next
  case (3 u v us)
  consider (pair) "is_high u" "is_low v" | (lone) "\<not> (is_high u \<and> is_low v)" "is_high u \<or> is_low u"
    | (plain) "\<not> is_high u" "\<not> is_low u" by blast
  then show ?case
  proof cases
    case pair
    with 3(1) utf8_points_point [of "surrogate_point u v" "utf8_encode us"] surrogate_point_range [OF pair]
    show ?thesis by simp
  next
    case lone
    with 3(2) utf8_points_point [of "0xFFFD" "utf8_encode (v # us)"] show ?thesis by auto
  next
    case plain
    then have "\<not> (0xD800 \<le> unat u \<and> unat u \<le> 0xDFFF)" by (auto simp: is_high_def is_low_def)
    with plain 3(3) utf8_points_point [of "unat u" "utf8_encode (v # us)"] unit_bound [of u] show ?thesis by simp
  qed
qed simp

section \<open>No control character in a record\<close>

lemma control_point: "n < 0x110000 \<Longrightarrow> b \<in> set (utf8_point n) \<Longrightarrow> unat b < 0x20 \<Longrightarrow> n = unat b"
  by (auto simp: utf8_point_def split: if_splits)

lemma control_encode:
  "b \<in> set (utf8_encode us) \<Longrightarrow> unat b < 0x20 \<Longrightarrow> \<exists>u \<in> set us. unat u = unat b"
proof (induction us rule: utf8_encode.induct)
  case (2 u)
  then show ?case
    using control_point [of "0xFFFD" b] control_point [of "unat u" b] unit_bound [of u]
    by (auto split: if_splits)
next
  case (3 u v us)
  have pair: "b \<notin> set (utf8_point (surrogate_point u v))" if "is_high u" "is_low v"
    using control_point [of "surrogate_point u v" b] surrogate_point_range [OF that] 3(5) by auto
  have lone: "b \<notin> set (utf8_point 0xFFFD)" using control_point [of "0xFFFD" b] 3(5) by auto
  have plain: "b \<in> set (utf8_point (unat u)) \<Longrightarrow> unat u = unat b"
    using control_point [of "unat u" b] unit_bound [of u] 3(5) by auto
  from 3 pair lone plain show ?case by (auto split: if_splits)
qed simp

lemma escape_unit_visible: "x \<in> set (escape_unit u) \<Longrightarrow> 0x20 \<le> unat x"
  by (cases rule: escape_unit_cases [of u]) (auto simp: backslash_def)

lemma escape_units_visible: "x \<in> set (escape_units s) \<Longrightarrow> 0x20 \<le> unat x"
  by (induction s rule: escape_units.induct)
     (auto simp: is_high_def is_low_def dest: escape_unit_visible split: if_splits)

lemma json_string_visible: "x \<in> set (json_string s) \<Longrightarrow> 0x20 \<le> unat x"
  by (auto simp: json_string_def dest: escape_units_visible)

lemma join_units_set: "x \<in> set (join_units ws) \<Longrightarrow> (\<exists>w \<in> set ws. x \<in> set w) \<or> x \<in> set (ascii '','')"
  by (induction ws rule: join_units.induct) auto

lemma ascii_visible: "x \<in> set (ascii s) \<Longrightarrow> s \<in> {''null'', ''true'', ''false'', '','', '':'', ''['', '']'', ''{'', ''}''}
    \<Longrightarrow> 0x20 \<le> unat x"
  by (auto simp: ascii_def)

lemma stringify_visible: "numbers_ok v \<Longrightarrow> x \<in> set (stringify_units v) \<Longrightarrow> 0x20 \<le> unat x"
proof (induction v arbitrary: x rule: stringify_units.induct)
  case (5 vs)
  then show ?case
    using join_units_set [of x "List.map stringify_units vs"] by (auto dest: ascii_visible)
next
  case (6 kvs)
  then show ?case
    using join_units_set [of x "List.map (\<lambda>(k, v). json_string k @ ascii '':'' @ stringify_units v) kvs"]
    by (fastforce dest: ascii_visible json_string_visible)
qed (auto dest: ascii_visible json_string_visible split: if_splits)

lemma numbers_ok_drop: "numbers_ok v \<Longrightarrow> numbers_ok (drop_undefined v)"
  by (induction v rule: drop_undefined.induct) auto

lemma json_text_start:
  assumes "numbers_ok v"
  obtains u us where "json_text v = u # us" and "unat u < 0x80"
proof -
  have "\<exists>u us. stringify_units w = u # us \<and> unat u < 0x80" if "numbers_ok w" for w
    using that
  proof (cases w)
    case (JsNumber t)
    with that show ?thesis by (cases t) auto
  qed (auto simp: ascii_def json_string_def)
  from this [OF numbers_ok_drop [OF assms]] show thesis
    using that unfolding json_text_def by blast
qed

lemma text_bytes:
  assumes "numbers_ok v"
  shows "b \<in> set (utf8_encode (json_text v)) \<Longrightarrow> 0x20 \<le> unat b" and "utf8_encode (json_text v) \<noteq> []"
    and "text_decode (utf8_encode (json_text v)) = Some (units_points (json_text v))"
proof -
  show "0x20 \<le> unat b" if "b \<in> set (utf8_encode (json_text v))"
    using control_encode [OF that] stringify_visible [OF numbers_ok_drop [OF assms]]
    by (force simp: json_text_def)
  obtain u us where start: "json_text v = u # us" "unat u < 0x80" by (rule json_text_start [OF assms])
  then have plain: "\<not> is_high u" "\<not> is_low u" using plain_small by auto
  then show "utf8_encode (json_text v) \<noteq> []"
    using start by (simp add: utf8_encode_cons_plain utf8_point_def)
  have "units_points (json_text v) = unat u # units_points us"
    using start plain by (cases us) auto
  then show "text_decode (utf8_encode (json_text v)) = Some (units_points (json_text v))"
    using start(2) by (simp add: text_decode_def utf8_points_encode)
qed

section \<open>Lines\<close>

lemma encode_bounded_line_eq:
  assumes "numbers_ok v" and "1 \<le> max_bytes"
  shows "encode_bounded_line v max_bytes =
    (if serializable v \<and> length (utf8_encode (json_text v)) + 1 \<le> max_bytes
     then Inr (utf8_encode (json_text v) @ [line_feed])
     else Inl (case prepare (max_bytes - 1) v of Inl e \<Rightarrow> e | Inr _ \<Rightarrow> too_large))"
proof -
  have "outcome (serializable v) (js_size v) (max_bytes - 1) (drop_undefined v) (prepare (max_bytes - 1) v)"
    by (rule prepare_outcome(1))
  then show ?thesis
  proof (cases rule: outcome_cases)
    case fine
    have "js_size v + 1 \<le> max_bytes" using fine(2) assms(2) by linarith
    with fine text_size(1) [OF fine(1) assms(1)] assms(2) show ?thesis
      by (simp add: encode_bounded_line_def Let_def json_text_def)
  next
    case (refused e)
    with assms(2) show ?thesis by (simp add: encode_bounded_line_def)
  next
    case large
    have "length (utf8_encode (json_text v)) = js_size v" if "serializable v"
      using text_size(1) [OF that assms(1)] by simp
    with large assms(2) show ?thesis by (auto simp: encode_bounded_line_def)
  qed
qed

lemma split_line_at: "line_feed \<notin> set body \<Longrightarrow> split_line (body @ line_feed # rest) = Some (body, rest)"
  by (induction body) auto

lemma split_line_None: "split_line bs = None \<longleftrightarrow> line_feed \<notin> set bs"
  by (induction bs) auto

lemma split_line_Some: "split_line bs = Some (l, r) \<Longrightarrow> bs = l @ line_feed # r \<and> line_feed \<notin> set l"
  by (induction bs arbitrary: l r) (auto split: if_splits)

lemma split_line_append: "split_line bs = Some (l, r) \<Longrightarrow> split_line (bs @ cs) = Some (l, r @ cs)"
  using split_line_Some [of bs l r] split_line_at [of l "r @ cs"] by auto

lemma push_lines_append:
  "case push_lines parse limit buf of
     (Inr vs, b) \<Rightarrow> push_lines parse limit (buf @ cs) =
       (case push_lines parse limit (b @ cs) of (Inl e, b') \<Rightarrow> (Inl e, b') | (Inr ws, b') \<Rightarrow> (Inr (vs @ ws), b'))
   | (Inl e, b) \<Rightarrow> fst (push_lines parse limit (buf @ cs)) = Inl e"
proof (induction parse limit buf rule: push_lines.induct)
  case (1 parse limit buf)
  show ?case
  proof (cases "split_line buf")
    case None
    show ?thesis
    proof (cases "length buf > limit")
      case False
      with None show ?thesis
        by (subst push_lines.simps) (simp split: prod.splits sum.splits)
    next
      case True
      then have stop: "push_lines parse limit buf = (Inl line_too_large, buf)"
        using None by (subst push_lines.simps) simp
      have "length l > limit" if "split_line (buf @ cs) = Some (l, r)" for l r
      proof -
        have "buf @ cs = l @ line_feed # r" "line_feed \<notin> set buf"
          using split_line_Some [OF that] None by (simp_all add: split_line_None)
        then have "length buf \<le> length l"
          by (auto simp: append_eq_append_conv2 append_eq_Cons_conv)
        with True show ?thesis by simp
      qed
      with True stop show ?thesis
        by (subst push_lines.simps) (auto split: option.splits)
    qed
  next
    case (Some lr)
    then obtain raw rest where split: "split_line buf = Some (raw, rest)" by (cases lr) auto
    note more = split_line_append [OF split, of cs]
    consider (long) "length raw > limit" | (empty) "length raw \<le> limit" "strip_cr raw = []"
      | (one) "length raw \<le> limit" "strip_cr raw \<noteq> []" by linarith
    then show ?thesis
    proof cases
      case long
      with split more show ?thesis by (simp add: push_lines.simps [of _ _ buf] push_lines.simps [of _ _ "buf @ cs"])
    next
      case empty
      have same: "push_lines parse limit buf = push_lines parse limit rest"
        "push_lines parse limit (buf @ cs) = push_lines parse limit (rest @ cs)"
        using empty split more by (simp_all add: push_lines.simps [of _ _ buf] push_lines.simps [of _ _ "buf @ cs"])
      show ?thesis unfolding same using 1(1) [OF split refl] empty by simp
    next
      case one
      show ?thesis
      proof (cases "parse_line parse (strip_cr raw)")
        case (Inl e)
        with one split more show ?thesis
          by (simp add: push_lines.simps [of _ _ buf] push_lines.simps [of _ _ "buf @ cs"])
      next
        case (Inr v)
        have IH: "case push_lines parse limit rest of
           (Inr vs, b) \<Rightarrow> push_lines parse limit (rest @ cs) =
             (case push_lines parse limit (b @ cs) of (Inl e, b') \<Rightarrow> (Inl e, b') | (Inr ws, b') \<Rightarrow> (Inr (vs @ ws), b'))
         | (Inl e, b) \<Rightarrow> fst (push_lines parse limit (rest @ cs)) = Inl e"
          using 1(2) [OF split refl] one Inr by simp
        obtain r b where rb: "push_lines parse limit rest = (r, b)" by fastforce
        obtain r2 b2 where rb2: "push_lines parse limit (rest @ cs) = (r2, b2)" by fastforce
        obtain r3 b3 where rb3: "push_lines parse limit (b @ cs) = (r3, b3)" by fastforce
        show ?thesis
          using one split more Inr IH rb rb2 rb3
          by (cases r; cases r3)
             (auto simp: push_lines.simps [of _ _ buf] push_lines.simps [of _ _ "buf @ cs"])
      qed
    qed
  qed
qed

end
