(* ===== verification/WireClaims.thy ===== *)
theory WireClaims
  imports WireText
begin

text \<open>
  The properties of the line protocol: what the encoder emits, and that a stream of encoded records is
  decoded exactly, however the transport cuts it.
\<close>

section \<open>A decoder fed chunk by chunk\<close>

definition new_decoder :: "nat \<Rightarrow> ndjson_decoder" where
  "new_decoder limit = \<lparr>max_line_bytes = limit, nd_buffer = []\<rparr>"

text \<open>One \<open>push\<close> per chunk of the stream, up to the first one that throws.\<close>

fun ndjson_feed :: "(nat list \<Rightarrow> 'v option) \<Rightarrow> bytes list \<Rightarrow> ndjson_decoder \<Rightarrow> 'v list result \<times> ndjson_decoder" where
  "ndjson_feed parse [] d = (Inr [], d)"
| "ndjson_feed parse (c # cs) d =
     (case ndjson_push parse c d of
        (Inl e, d') \<Rightarrow> (Inl e, d')
      | (Inr vs, d') \<Rightarrow>
          (case ndjson_feed parse cs d' of
             (Inl e, d2) \<Rightarrow> (Inl e, d2)
           | (Inr ws, d2) \<Rightarrow> (Inr (vs @ ws), d2)))"

lemma push_lines_rest:
  "push_lines parse limit buf = (Inr vs, b) \<Longrightarrow> line_feed \<notin> set b \<and> length b \<le> limit"
proof (induction parse limit buf arbitrary: vs rule: push_lines.induct)
  case (1 parse limit buf)
  show ?case
  proof (cases "split_line buf")
    case None
    with 1(3) show ?thesis
      by (simp add: push_lines.simps [of _ _ buf] split_line_None split: if_splits)
  next
    case (Some lr)
    then obtain raw rest where split: "split_line buf = Some (raw, rest)" by (cases lr) auto
    have short: "\<not> length raw > limit"
      using 1(3) split by (auto simp: push_lines.simps [of _ _ buf])
    show ?thesis
    proof (cases "strip_cr raw = []")
      case True
      with 1(3) split short have "push_lines parse limit rest = (Inr vs, b)"
        by (simp add: push_lines.simps [of _ _ buf])
      with 1(1) [OF split refl short True] show ?thesis by simp
    next
      case False
      with 1(3) split short obtain v ws
        where "parse_line parse (strip_cr raw) = Inr v" "push_lines parse limit rest = (Inr ws, b)"
        by (auto simp: push_lines.simps [of _ _ buf] split: sum.splits prod.splits)
      with 1(2) [OF split refl short False] show ?thesis by simp
    qed
  qed
qed

lemma push_lines_partial:
  "line_feed \<notin> set b \<Longrightarrow> length b \<le> limit \<Longrightarrow> push_lines parse limit b = (Inr [], b)"
  by (simp add: push_lines.simps [of _ _ b] split_line_None [symmetric])

lemma feed_push_lines:
  assumes "line_feed \<notin> set (nd_buffer d)" and "length (nd_buffer d) \<le> max_line_bytes d"
  shows "(case push_lines parse (max_line_bytes d) (nd_buffer d @ concat cs) of
            (Inr vs, b) \<Rightarrow> ndjson_feed parse cs d = (Inr vs, d\<lparr>nd_buffer := b\<rparr>)
          | (Inl e, b) \<Rightarrow> fst (ndjson_feed parse cs d) = Inl e)"
  using assms
proof (induction cs arbitrary: d)
  case Nil
  then show ?case by (simp add: push_lines_partial)
next
  case (Cons c cs)
  obtain r b where rb: "push_lines parse (max_line_bytes d) (nd_buffer d @ c) = (r, b)" by fastforce
  obtain r3 b3 where rb3: "push_lines parse (max_line_bytes d) (b @ concat cs) = (r3, b3)" by fastforce
  have more: "case push_lines parse (max_line_bytes d) (nd_buffer d @ c) of
     (Inr vs, b) \<Rightarrow> push_lines parse (max_line_bytes d) ((nd_buffer d @ c) @ concat cs) =
       (case push_lines parse (max_line_bytes d) (b @ concat cs) of
          (Inl e, b') \<Rightarrow> (Inl e, b') | (Inr ws, b') \<Rightarrow> (Inr (vs @ ws), b'))
   | (Inl e, b) \<Rightarrow> fst (push_lines parse (max_line_bytes d) ((nd_buffer d @ c) @ concat cs)) = Inl e"
    by (rule push_lines_append)
  show ?case
  proof (cases r)
    case (Inl e)
    with more rb show ?thesis
      by (cases "push_lines parse (max_line_bytes d) (nd_buffer d @ c @ concat cs)")
         (simp add: ndjson_push_def)
  next
    case (Inr vs)
    let ?d = "d\<lparr>nd_buffer := b\<rparr>"
    have rest: "line_feed \<notin> set (nd_buffer ?d)" "length (nd_buffer ?d) \<le> max_line_bytes ?d"
      using push_lines_rest [of parse "max_line_bytes d"] rb Inr by simp_all
    note IH = Cons.IH [OF rest]
    have "case r3 of Inr ws \<Rightarrow> ndjson_feed parse cs ?d = (Inr ws, d\<lparr>nd_buffer := b3\<rparr>)
        | Inl e \<Rightarrow> fst (ndjson_feed parse cs ?d) = Inl e"
      using IH rb3 by (cases r3) simp_all
    with more rb rb3 Inr show ?thesis
      by (cases r3; cases "ndjson_feed parse cs ?d") (auto simp: ndjson_push_def)
  qed
qed

section \<open>A stream of records\<close>

lemma push_lines_record:
  assumes "line_feed \<notin> set body" and "length body \<le> limit" and "strip_cr body \<noteq> []"
    and "parse_line parse (strip_cr body) = Inr v" and "push_lines parse limit rest = (Inr vs, b)"
  shows "push_lines parse limit (body @ line_feed # rest) = (Inr (v # vs), b)"
  using assms by (simp add: push_lines.simps [of _ _ "body @ line_feed # rest"] split_line_at)

text \<open>What the encoder emitted is one line.\<close>

lemma encoded_body:
  assumes "numbers_ok v" and "parse (units_points (json_text v)) = Some x"
  defines "body \<equiv> utf8_encode (json_text v)"
  shows "line_feed \<notin> set body" and "strip_cr body = body" and "body \<noteq> []" and "parse_line parse body = Inr x"
proof -
  note facts = text_bytes [OF assms(1), folded body_def]
  show "line_feed \<notin> set body" using facts(1) [of line_feed] by (auto simp: line_feed_def)
  show "body \<noteq> []" by (rule facts(2))
  have "(0x0D :: byte) \<notin> set body" using facts(1) [of "0x0D"] by auto
  then show "strip_cr body = body" using last_in_set [of body] by (metis strip_cr_def)
  show "parse_line parse body = Inr x" using facts(3) assms(2) by (simp add: parse_line_def)
qed

lemma encoded_stream:
  assumes "list_all2 (\<lambda>v out. encode_bounded_line v max_bytes = Inr out) vs outs"
    and "\<And>v. v \<in> set vs \<Longrightarrow> numbers_ok v \<and> parse (units_points (json_text v)) = Some (value_of v)"
    and "max_bytes \<le> limit + 1" and "1 \<le> max_bytes"
  shows "push_lines parse limit (concat outs) = (Inr (List.map value_of vs), [])"
  using assms(1,2)
proof (induction vs outs rule: list_all2_induct)
  case Nil
  show ?case by (simp add: push_lines_partial)
next
  case (Cons v vs out outs)
  let ?body = "utf8_encode (json_text v)"
  have v: "numbers_ok v" "parse (units_points (json_text v)) = Some (value_of v)" using Cons by auto
  have out: "out = ?body @ [line_feed]" "length ?body + 1 \<le> max_bytes"
    using Cons(1) encode_bounded_line_eq [OF v(1) assms(4)] by (auto split: if_splits)
  note body = encoded_body [of v parse "value_of v", OF v]
  show ?case
    using push_lines_record [OF body(1) _ _ _ Cons.IH] body out assms(3) Cons.prems by simp
qed

section \<open>The errors of the encoder\<close>

lemma measure_units_error: "measure_units budget n us = Inl e \<Longrightarrow> e = too_large"
  by (induction budget n us rule: measure_units.induct)
     (auto simp: bind_err bounded_add_def Let_def split: if_splits)

lemma measure_json_string_error: "measure_json_string s budget = Inl e \<Longrightarrow> e = too_large"
  by (auto simp: measure_json_string_def bind_err bounded_add_def Let_def dest: measure_units_error split: if_splits)

lemma bounded_error:
  "bounded_add a b c = Inl e \<Longrightarrow> e = too_large" "bounded_count t c = Inl e \<Longrightarrow> e = too_large"
  by (auto simp: bounded_add_def bounded_count_def Let_def split: if_splits)

lemma prepare_error:
  "prepare budget v = Inl e \<Longrightarrow> e = too_large \<or> e = not_serializable"
  "prepare_elems budget n first vs = Inl e \<Longrightarrow> e = too_large \<or> e = not_serializable"
  "prepare_props budget n first kvs = Inl e \<Longrightarrow> e = too_large \<or> e = not_serializable"
  by (induction budget v and budget n first vs and budget n first kvs
        rule: prepare_prepare_elems_prepare_props.induct)
     (auto simp: bind_err dest: bounded_error measure_json_string_error split: if_splits)

section \<open>The properties\<close>

text \<open>
  C11: the encoder is exact.  When it returns, the value is plain JSON data and the output is its
  serialization and a line feed, within the limit and with no other line feed in it.  When it throws
  for plain JSON data, the error is \<open>outbound_record_too_large\<close> and the serialization indeed exceeds
  the limit: the structural measure never disagrees with the serializer.
\<close>

theorem encoded_line_exact:
  assumes "numbers_ok v" and "1 \<le> max_bytes"
  shows "case encode_bounded_line v max_bytes of
      Inr out \<Rightarrow> serializable v \<and> out = utf8_encode (json_text v) @ [line_feed]
        \<and> length out \<le> max_bytes \<and> line_feed \<notin> set (butlast out)
    | Inl e \<Rightarrow> (e = too_large \<or> e = not_serializable)
        \<and> (serializable v \<longrightarrow> e = too_large \<and> max_bytes < length (utf8_encode (json_text v)) + 1)"
proof -
  have clean: "line_feed \<notin> set (utf8_encode (json_text v))"
    using text_bytes(1) [OF assms(1), of line_feed] by (auto simp: line_feed_def)
  have out: "outcome (serializable v) (js_size v) (max_bytes - 1) (drop_undefined v) (prepare (max_bytes - 1) v)"
    by (rule prepare_outcome(1))
  have "(case prepare (max_bytes - 1) v of Inl e \<Rightarrow> e | Inr _ \<Rightarrow> too_large) = too_large" if "serializable v"
    using out that by (cases rule: outcome_cases) auto
  moreover have "(case prepare (max_bytes - 1) v of Inl e \<Rightarrow> e | Inr _ \<Rightarrow> too_large) \<in> {too_large, not_serializable}"
    using prepare_error(1) [of "max_bytes - 1" v] by (auto split: sum.splits)
  ultimately show ?thesis
    using clean unfolding encode_bounded_line_eq [OF assms] by (auto simp: not_le)
qed

text \<open>A stopped run: \<open>{"type":"done","n":2}\<close>, with an undefined property that is not sent.\<close>

definition demo_record :: js_value where
  "demo_record = JsObject [(ascii ''type'', JsString (ascii ''done'')), (ascii ''why'', JsUndefined),
     (ascii ''n'', JsArray [JsNumber (ascii ''2''), JsNull])]"

lemma demo_record_ok: "numbers_ok demo_record"
  by code_simp

lemma demo_record_line: "encode_bounded_line demo_record 32 = Inr (utf8_encode (json_text demo_record) @ [line_feed])"
proof -
  have size: "serializable demo_record" "js_size demo_record = 28"
    by (simp_all add: demo_record_def ascii_def unit_width_def is_high_def is_low_def length_utf8_point)
  show ?thesis
    using size text_size(1) [OF size(1) demo_record_ok] by (simp add: encode_bounded_line_eq [OF demo_record_ok])
qed

theorem encoded_line_exact_witness:
  "serializable demo_record \<and> line_feed \<notin> set (utf8_encode (json_text demo_record))"
  using encoded_line_exact [OF demo_record_ok, of 32] by (simp add: demo_record_line)

text \<open>
  C12: decoding does not depend on how the transport cuts the stream: feeding the chunks one by one
  yields the records, the error and the retained partial line that one \<open>push\<close> of the whole stream
  yields.
\<close>

theorem decoding_ignores_chunking:
  "case ndjson_push parse (concat cs) (new_decoder limit) of
     (Inr vs, d) \<Rightarrow> ndjson_feed parse cs (new_decoder limit) = (Inr vs, d)
   | (Inl e, d) \<Rightarrow> fst (ndjson_feed parse cs (new_decoder limit)) = Inl e"
  using feed_push_lines [of "new_decoder limit" parse cs]
  by (auto simp: ndjson_push_def new_decoder_def split: sum.splits prod.splits)

text \<open>
  C13: a stream of encoded records decodes to exactly those records, for every way the transport may
  cut it, and leaves nothing in the decoder.  \<open>parse\<close> stands for \<open>JSON.parse\<close>, of which it is used
  that it reads back what \<open>JSON.stringify\<close> printed.
\<close>

theorem records_roundtrip:
  assumes "list_all2 (\<lambda>v out. encode_bounded_line v max_bytes = Inr out) vs outs"
    and "\<And>v. v \<in> set vs \<Longrightarrow> numbers_ok v \<and> parse (units_points (json_text v)) = Some (value_of v)"
    and "max_bytes \<le> limit + 1" and "1 \<le> max_bytes" and "concat cs = concat outs"
  shows "ndjson_feed parse cs (new_decoder limit) = (Inr (List.map value_of vs), new_decoder limit)"
  using feed_push_lines [of "new_decoder limit" parse cs] encoded_stream [OF assms(1-4)] assms(5)
  by (simp add: new_decoder_def)

text \<open>Two records in three chunks; the reader knows the one text it meets.\<close>

theorem records_roundtrip_witness:
  defines "text \<equiv> units_points (json_text demo_record)"
    and "out \<equiv> utf8_encode (json_text demo_record) @ [line_feed]"
  shows "ndjson_feed (\<lambda>t. if t = text then Some True else None)
      [take 5 (out @ out), take 20 (drop 5 (out @ out)), drop 25 (out @ out)] (new_decoder 31)
    = (Inr [True, True], new_decoder 31)"
proof -
  have "concat [take 5 xs, take 20 (drop 5 xs), drop 25 xs] = xs" for xs :: bytes
    using append_take_drop_id [of 20 "drop 5 xs"] by simp
  from this [of "out @ out"]
  have cut: "concat [take 5 (out @ out), take 20 (drop 5 (out @ out)), drop 25 (out @ out)] = concat [out, out]"
    by simp
  have "list_all2 (\<lambda>v w. encode_bounded_line v 32 = Inr w) [demo_record, demo_record] [out, out]"
    by (simp add: demo_record_line out_def)
  from records_roundtrip [OF this _ _ _ cut, of "\<lambda>t. if t = text then Some True else None" "\<lambda>_. True" 31]
  show ?thesis by (simp add: demo_record_ok text_def)
qed

end
