(* ===== verification/Websocket.thy ===== *)
theory Websocket
  imports Wire
begin

text \<open>
  The WebSocket peer of \<open>src/websocket.ts\<close>: frames, the incremental parser, fragment reassembly, the
  bounded outbound queue and the keepalive.  The socket is a deterministic \<open>Writable\<close>: it counts the
  bytes it has not handed on and answers \<open>write\<close> by its high-water mark; what the kernel takes, what the
  client sends and when timers fire are events.  The application's message handler is a reaction: the
  calls it makes on the peer and whether it throws, as a function of the texts received so far.
\<close>

section \<open>Frames\<close>

definition frame :: "byte \<Rightarrow> bytes \<Rightarrow> bytes" where
  "frame opcode payload =
     (if length payload < 126 then [0x80 OR opcode, byte_of (length payload)]
      else if length payload \<le> 0xFFFF then [0x80 OR opcode, 126] @ be16 (length payload)
      else [0x80 OR opcode, 127] @ be32 0 @ be32 (length payload))
     @ payload"

text \<open>A read that needs more bytes, one that throws, and one that succeeds.\<close>

datatype 'a parsed = Incomplete | Malformed | Parsed 'a

text \<open>The payload offset and length: the second header byte and the bytes that may follow it.\<close>

definition frame_length :: "bytes \<Rightarrow> nat \<Rightarrow> (nat \<times> nat) parsed" where
  "frame_length buf short =
     (if short = 126 then
        (if length buf < 4 then Incomplete else Parsed (4, be_value 0 (take 2 (drop 2 buf))))
      else if short = 127 then
        (if length buf < 10 then Incomplete
         else
           (let high = be_value 0 (take 4 (drop 2 buf)); low = be_value 0 (take 4 (drop 6 buf)) in
            if high > 0x1FFFFF then Malformed else Parsed (10, high * 2 ^ 32 + low)))
      else Parsed (2, short))"

definition unmask :: "bytes \<Rightarrow> bytes \<Rightarrow> bytes" where
  "unmask key payload = List.map (\<lambda>i. payload ! i XOR key ! (i mod 4)) [0 ..< length payload]"

record ws_frame =
  f_opcode :: nat
  f_fin :: bool
  f_payload :: bytes

text \<open>
  The part of \<open>#parseFrame\<close> before it handles the frame: the frame and the buffer after it.
\<close>

definition read_frame :: "nat \<Rightarrow> bytes \<Rightarrow> (ws_frame \<times> bytes) parsed" where
  "read_frame max_message buf =
     (if length buf < 2 then Incomplete
      else
        (let first = buf ! 0; second = buf ! 1; fin = (first AND 0x80 \<noteq> 0); opcode = unat (first AND 0x0F) in
         if first AND 0x70 \<noteq> 0 then Malformed
         else if second AND 0x80 = 0 then Malformed
         else
           (case frame_length buf (unat (second AND 0x7F)) of
              Incomplete \<Rightarrow> Incomplete
            | Malformed \<Rightarrow> Malformed
            | Parsed (offset, len) \<Rightarrow>
                if 8 \<le> opcode \<and> (\<not> fin \<or> len > 125) then Malformed
                else if len > max_message then Malformed
                else if length buf < offset + 4 + len then Incomplete
                else
                  Parsed (\<lparr>f_opcode = opcode, f_fin = fin,
                           f_payload = unmask (take 4 (drop offset buf)) (take len (drop (offset + 4) buf))\<rparr>,
                          drop (offset + 4 + len) buf))))"

section \<open>The peer\<close>

record ws_limits =
  max_message_bytes :: nat
  max_outbound_bytes :: nat

text \<open>
  The fields of \<open>WebSocketPeer\<close>, then its socket (the frames written, \<open>writableLength\<close>, the high-water
  mark, whether it was ended or destroyed), then what the application saw.  \<open>p_accepted\<close> records the
  frames \<open>#enqueue\<close> accepted, which the code does not keep.
\<close>

record ws_peer =
  p_limits :: ws_limits
  p_buffer :: bytes
  p_queue :: "bytes list"
  p_queued_bytes :: int
  p_blocked :: bool
  p_closed :: bool
  p_fragment_opcode :: "nat option"
  p_fragment_bytes :: nat
  p_fragments :: "bytes list"
  p_awaiting_pong :: bool
  p_keep_alive :: bool
  p_handlers :: bool
  p_on_close :: bool
  s_written :: "bytes list"
  s_pending :: nat
  s_high_water :: nat
  s_ended :: bool
  s_destroyed :: bool
  a_texts :: "nat list list"
  a_closes :: nat
  p_accepted :: "bytes list"

text \<open>The socket may still hold bytes written before the peer, the handshake response.\<close>

definition new_peer :: "ws_limits \<Rightarrow> nat \<Rightarrow> nat \<Rightarrow> ws_peer" where
  "new_peer limits high_water pending =
     \<lparr>p_limits = limits, p_buffer = [], p_queue = [], p_queued_bytes = 0, p_blocked = False,
      p_closed = False, p_fragment_opcode = None, p_fragment_bytes = 0, p_fragments = [],
      p_awaiting_pong = False, p_keep_alive = True, p_handlers = False, p_on_close = False,
      s_written = [], s_pending = pending, s_high_water = high_water, s_ended = False, s_destroyed = False,
      a_texts = [], a_closes = 0, p_accepted = []\<rparr>"

definition set_handlers :: "ws_peer \<Rightarrow> ws_peer" where
  "set_handlers p = p\<lparr>p_handlers := True, p_on_close := True\<rparr>"

text \<open>\<open>socket.write\<close> answers whether the buffered bytes are below the high-water mark.\<close>

definition socket_write :: "bytes \<Rightarrow> ws_peer \<Rightarrow> bool \<times> ws_peer" where
  "socket_write value p =
     (let pending = s_pending p + length value in
      (pending < s_high_water p, p\<lparr>s_written := s_written p @ [value], s_pending := pending\<rparr>))"

text \<open>\<open>this.#onClose?.(); this.#onClose = undefined\<close>\<close>

definition notify_close :: "ws_peer \<Rightarrow> ws_peer" where
  "notify_close p = (if p_on_close p then p\<lparr>a_closes := a_closes p + 1, p_on_close := False\<rparr> else p)"

text \<open>The assignments \<open>close\<close>, \<open>#finish\<close> and \<open>#terminate\<close> share.\<close>

definition shut :: "ws_peer \<Rightarrow> ws_peer" where
  "shut p = p\<lparr>p_closed := True, p_keep_alive := False, p_queue := [], p_queued_bytes := 0\<rparr>"

definition ws_close :: "code_unit \<Rightarrow> units \<Rightarrow> ws_peer \<Rightarrow> ws_peer" where
  "ws_close code reason p =
     (if p_closed p then p
      else
        (let payload = be16 (unat code) @ take 123 (utf8_encode reason);
             (_, p1) = socket_write (frame 0x8 payload) (shut p)
         in notify_close (p1\<lparr>s_ended := True\<rparr>)))"

definition ws_finish :: "ws_peer \<Rightarrow> ws_peer" where
  "ws_finish p = (if p_closed p then p else notify_close (shut p))"

definition ws_terminate :: "ws_peer \<Rightarrow> ws_peer" where
  "ws_terminate p = (if p_closed p then p else notify_close ((shut p)\<lparr>s_destroyed := True\<rparr>))"

section \<open>Sending\<close>

definition enqueue :: "bytes \<Rightarrow> ws_peer \<Rightarrow> bool \<times> ws_peer" where
  "enqueue value p =
     (if p_closed p then (False, p)
      else if int (s_pending p) + p_queued_bytes p + int (length value) > int (max_outbound_bytes (p_limits p))
      then (False, p)
      else
        (let p1 = p\<lparr>p_accepted := p_accepted p @ [value]\<rparr> in
         if \<not> p_blocked p \<and> p_queue p = [] then
           (let (ready, p2) = socket_write value p1 in (True, p2\<lparr>p_blocked := \<not> ready\<rparr>))
         else
           (True, p1\<lparr>p_queue := p_queue p @ [value], p_queued_bytes := p_queued_bytes p + int (length value)\<rparr>)))"

definition enqueue_or_terminate :: "bytes \<Rightarrow> ws_peer \<Rightarrow> ws_peer" where
  "enqueue_or_terminate value p = (let (ok, p1) = enqueue value p in if ok then p1 else ws_terminate p1)"

definition send_json :: "js_value \<Rightarrow> ws_peer \<Rightarrow> js_error option \<times> ws_peer" where
  "send_json v p =
     (if p_closed p then (None, p)
      else
        (case encode_bounded_line v (max_message_bytes (p_limits p)) of
           Inl e \<Rightarrow> (Some (if err_class e = ProtocolSerializationError then e else not_serializable), p)
         | Inr line \<Rightarrow> (None, enqueue_or_terminate (frame 0x1 (butlast line)) p)))"

text \<open>The loop of \<open>#flush\<close>, over the queue.\<close>

fun flush_queue :: "bytes list \<Rightarrow> ws_peer \<Rightarrow> ws_peer" where
  "flush_queue [] p = p"
| "flush_queue (w # ws) p =
     (if p_blocked p then p
      else
        (let (ready, p1) = socket_write w (p\<lparr>p_queue := ws, p_queued_bytes := p_queued_bytes p - int (length w)\<rparr>)
         in flush_queue ws (p1\<lparr>p_blocked := \<not> ready\<rparr>)))"

definition ws_flush :: "ws_peer \<Rightarrow> ws_peer" where
  "ws_flush p =
     (if p_closed p \<and> p_queue p = [] then p else flush_queue (p_queue p) (p\<lparr>p_blocked := False\<rparr>))"

definition ws_ping :: "bytes \<Rightarrow> ws_peer \<Rightarrow> ws_peer" where
  "ws_ping random p =
     (if p_closed p then p
      else if p_awaiting_pong p then ws_close 1001 (ascii ''keepalive timeout'') p
      else enqueue_or_terminate (frame 0x9 random) (p\<lparr>p_awaiting_pong := True\<rparr>))"

section \<open>Receiving\<close>

datatype peer_call = CallSend js_value | CallClose code_unit units | CallTerminate

type_synonym reaction = "nat list list \<Rightarrow> peer_call list \<times> bool"

fun ws_call :: "peer_call \<Rightarrow> ws_peer \<Rightarrow> ws_peer" where
  "ws_call (CallSend v) p = snd (send_json v p)"
| "ws_call (CallClose code reason) p = ws_close code reason p"
| "ws_call CallTerminate p = ws_terminate p"

text \<open>\<open>this.#onMessage?.(text)\<close>; the flag of the result says that it threw.\<close>

definition deliver :: "reaction \<Rightarrow> nat list \<Rightarrow> ws_peer \<Rightarrow> bool \<times> ws_peer" where
  "deliver react content p =
     (if p_handlers p then
        (let p1 = p\<lparr>a_texts := a_texts p @ [content]\<rparr>; (calls, throws) = react (a_texts p1)
         in (throws, fold ws_call calls p1))
      else (False, p))"

definition handle_frame :: "reaction \<Rightarrow> ws_frame \<Rightarrow> ws_peer \<Rightarrow> bool \<times> ws_peer" where
  "handle_frame react f p =
     (let opcode = f_opcode f; payload = f_payload f in
      if opcode = 8 then (False, ws_close 1000 [] p)
      else if opcode = 9 then (False, enqueue_or_terminate (frame 0x0A payload) p)
      else if opcode = 10 then (False, p\<lparr>p_awaiting_pong := False\<rparr>)
      else if opcode = 2 then (True, p)
      else if opcode \<noteq> 0 \<and> opcode \<noteq> 1 then (True, p)
      else if opcode = 0 \<and> p_fragment_opcode p = None then (True, p)
      else if opcode = 1 \<and> p_fragment_opcode p \<noteq> None then (True, p)
      else
        (let p1 = (if opcode = 1 then p\<lparr>p_fragment_opcode := Some opcode\<rparr> else p);
             p2 = p1\<lparr>p_fragment_bytes := p_fragment_bytes p1 + length payload\<rparr> in
         if p_fragment_bytes p2 > max_message_bytes (p_limits p2) then (True, p2)
         else
           (let p3 = p2\<lparr>p_fragments := p_fragments p2 @ [payload]\<rparr> in
            if \<not> f_fin f then (False, p3)
            else
              (let message = concat (p_fragments p3);
                   p4 = p3\<lparr>p_fragments := [], p_fragment_bytes := 0, p_fragment_opcode := None\<rparr> in
               case text_decode message of
                 None \<Rightarrow> (True, p4)
               | Some content \<Rightarrow> deliver react content p4))))"

datatype progress = More | Done | Thrown

definition parse_frame :: "reaction \<Rightarrow> ws_peer \<Rightarrow> progress \<times> ws_peer" where
  "parse_frame react p =
     (case read_frame (max_message_bytes (p_limits p)) (p_buffer p) of
        Incomplete \<Rightarrow> (Done, p)
      | Malformed \<Rightarrow> (Thrown, p)
      | Parsed (f, rest) \<Rightarrow>
          (let (threw, p1) = handle_frame react f (p\<lparr>p_buffer := rest\<rparr>) in
           (if threw then Thrown else if \<not> p_closed p1 \<and> p_buffer p1 \<noteq> [] then More else Done, p1)))"

subsection \<open>What handling a frame leaves alone\<close>

text \<open>The buffer, the limits and the delivery state are out of reach of the sending operations.\<close>

definition input_side where
  "input_side p = (p_limits p, p_buffer p, p_fragment_opcode p, p_fragment_bytes p, p_fragments p,
     p_handlers p, a_texts p)"

lemma input_side_eqD:
  "input_side p = input_side q \<Longrightarrow> p_buffer p = p_buffer q \<and> p_limits p = p_limits q"
  by (simp add: input_side_def)

lemma input_side_sends [simp]:
  "input_side (snd (socket_write w p)) = input_side p" "input_side (notify_close p) = input_side p"
  "input_side (shut p) = input_side p" "input_side (ws_close code reason p) = input_side p"
  "input_side (ws_finish p) = input_side p" "input_side (ws_terminate p) = input_side p"
  "input_side (snd (enqueue w p)) = input_side p"
  by (simp_all add: input_side_def socket_write_def notify_close_def shut_def ws_close_def ws_finish_def
       ws_terminate_def enqueue_def Let_def)

lemma input_side_queue [simp]: "input_side (enqueue_or_terminate w p) = input_side p"
  using input_side_sends(7) [of w p]
  by (cases "enqueue w p") (simp add: enqueue_or_terminate_def)

lemma input_side_call [simp]: "input_side (ws_call c p) = input_side p"
  by (cases c) (auto simp: send_json_def split: sum.splits)

lemma input_side_calls [simp]: "input_side (fold ws_call cs p) = input_side p"
  by (induction cs arbitrary: p) simp_all

lemma deliver_buffer:
  "p_buffer (snd (deliver react content p)) = p_buffer p" "p_limits (snd (deliver react content p)) = p_limits p"
  using input_side_calls [of "fst (react (a_texts p @ [content]))" "p\<lparr>a_texts := a_texts p @ [content]\<rparr>"]
  by (auto simp: deliver_def input_side_def split: prod.splits)

lemma handle_frame_buffer:
  "p_buffer (snd (handle_frame react f p)) = p_buffer p" "p_limits (snd (handle_frame react f p)) = p_limits p"
  using input_side_eqD [OF input_side_sends(4), of 1000 "[]" p]
    input_side_eqD [OF input_side_queue, of "frame 0x0A (f_payload f)" p]
  by (auto simp: handle_frame_def Let_def deliver_buffer split: option.splits)

lemma read_frame_shorter:
  assumes "read_frame m buf = Parsed (f, rest)"
  shows "length rest < length buf"
  using assms by (auto simp: read_frame_def Let_def split: if_splits parsed.splits)

lemma parse_frame_cases:
  obtains (short) "read_frame (max_message_bytes (p_limits p)) (p_buffer p) = Incomplete"
      and "parse_frame react p = (Done, p)"
  | (bad) "read_frame (max_message_bytes (p_limits p)) (p_buffer p) = Malformed"
      and "parse_frame react p = (Thrown, p)"
  | (good) f rest threw q where "read_frame (max_message_bytes (p_limits p)) (p_buffer p) = Parsed (f, rest)"
      and "handle_frame react f (p\<lparr>p_buffer := rest\<rparr>) = (threw, q)" and "p_buffer q = rest"
      and "p_limits q = p_limits p"
      and "parse_frame react p = (if threw then Thrown else if \<not> p_closed q \<and> rest \<noteq> [] then More else Done, q)"
proof (cases "read_frame (max_message_bytes (p_limits p)) (p_buffer p)")
  case Incomplete
  then show thesis using short by (simp add: parse_frame_def)
next
  case Malformed
  then show thesis using bad by (simp add: parse_frame_def)
next
  case (Parsed fr)
  obtain f rest where fr: "fr = (f, rest)" by (cases fr)
  obtain threw q where h: "handle_frame react f (p\<lparr>p_buffer := rest\<rparr>) = (threw, q)" by fastforce
  have "p_buffer q = rest" "p_limits q = p_limits p"
    using handle_frame_buffer [of react f "p\<lparr>p_buffer := rest\<rparr>"] h by simp_all
  with Parsed fr h show thesis using good by (simp add: parse_frame_def)
qed

lemma parse_frame_shorter: "parse_frame react p = (More, q) \<Longrightarrow> length (p_buffer q) < length (p_buffer p)"
  by (cases rule: parse_frame_cases [of p react]) (auto dest: read_frame_shorter split: if_splits)

subsection \<open>Reading a chunk\<close>

function read_loop :: "reaction \<Rightarrow> ws_peer \<Rightarrow> progress \<times> ws_peer" where
  "read_loop react p =
     (case parse_frame react p of
        (More, q) \<Rightarrow> read_loop react q
      | (Done, q) \<Rightarrow> (Done, q)
      | (Thrown, q) \<Rightarrow> (Thrown, q))"
  by auto
termination
  by (relation "measure (\<lambda>(_, p). length (p_buffer p))") (auto dest: parse_frame_shorter [OF sym])

declare read_loop.simps [simp del]

definition ws_read :: "reaction \<Rightarrow> bytes \<Rightarrow> ws_peer \<Rightarrow> ws_peer" where
  "ws_read react chunk p =
     (if p_closed p then p
      else
        (let (r, q) = read_loop react (p\<lparr>p_buffer := p_buffer p @ chunk\<rparr>) in
         if r = Thrown \<or> length (p_buffer q) > max_message_bytes (p_limits q) + 14
         then ws_close 1002 (ascii ''invalid WebSocket frame'') q
         else q))"

section \<open>Events\<close>

text \<open>
  What can happen to a peer.  \<open>SocketTook n\<close>: the kernel takes \<open>n\<close> of the buffered bytes.  \<open>SocketDrain\<close>
  is the \<open>drain\<close> event, emitted with nothing left in the socket.  \<open>SocketEnds\<close> covers \<open>close\<close>, \<open>end\<close> and
  \<open>error\<close>.
\<close>

datatype ws_event =
    SocketData bytes
  | SocketTook nat
  | SocketDrain
  | SocketEnds
  | KeepAliveTick bytes
  | HandlersSet
  | Called peer_call

fun ws_step :: "reaction \<Rightarrow> ws_event \<Rightarrow> ws_peer \<Rightarrow> ws_peer" where
  "ws_step react (SocketData chunk) p = ws_read react chunk p"
| "ws_step react (SocketTook n) p = p\<lparr>s_pending := s_pending p - n\<rparr>"
| "ws_step react SocketDrain p = ws_flush (p\<lparr>s_pending := 0\<rparr>)"
| "ws_step react SocketEnds p = ws_finish p"
| "ws_step react (KeepAliveTick random) p = (if p_keep_alive p then ws_ping random p else p)"
| "ws_step react HandlersSet p = set_handlers p"
| "ws_step react (Called c) p = ws_call c p"

definition ws_run :: "reaction \<Rightarrow> ws_event list \<Rightarrow> ws_peer \<Rightarrow> ws_peer" where
  "ws_run react es p = fold (ws_step react) es p"

section \<open>The handshake\<close>

definition base64_alphabet :: string where
  "base64_alphabet = ''ABCDEFGHIJKLMNOPQRSTUVWXYZabcdefghijklmnopqrstuvwxyz0123456789+/''"

definition base64_char :: "nat \<Rightarrow> char" where
  "base64_char n = base64_alphabet ! (n mod 64)"

text \<open>\<open>buffer.toString("base64")\<close>\<close>

fun to_base64 :: "bytes \<Rightarrow> string" where
  "to_base64 (a # b # c # bs) =
     (let n = unat a * 65536 + unat b * 256 + unat c in
      [base64_char (n div 262144), base64_char (n div 4096), base64_char (n div 64), base64_char n]
      @ to_base64 bs)"
| "to_base64 [a, b] =
     (let n = unat a * 1024 + unat b * 4 in
      [base64_char (n div 4096), base64_char (n div 64), base64_char n, CHR ''='']) "
| "to_base64 [a] =
     (let n = unat a * 16 in [base64_char (n div 64), base64_char n, CHR ''='', CHR ''=''])"
| "to_base64 [] = []"

text \<open>\<open>toLowerCase\<close>, \<open>trim\<close> and \<open>split(",")\<close> on header values, which are Latin-1.\<close>

definition lower_char :: "char \<Rightarrow> char" where
  "lower_char c =
     (let n = of_char c :: nat in
      if 65 \<le> n \<and> n \<le> 90 \<or> 192 \<le> n \<and> n \<le> 222 \<and> n \<noteq> 215 then char_of (n + 32) else c)"

definition is_space :: "char \<Rightarrow> bool" where
  "is_space c \<longleftrightarrow> (of_char c :: nat) \<in> set [9, 10, 11, 12, 13, 32, 160]"

definition trim :: "string \<Rightarrow> string" where
  "trim s = rev (dropWhile is_space (rev (dropWhile is_space s)))"

fun split_commas :: "string \<Rightarrow> string list" where
  "split_commas [] = [[]]"
| "split_commas (c # s) =
     (if c = CHR '','' then [] # split_commas s
      else (case split_commas s of w # ws \<Rightarrow> (c # w) # ws | [] \<Rightarrow> [[c]]))"

record ws_request =
  rq_method :: string
  rq_upgrade :: "string option"
  rq_connection :: "string option"
  rq_version :: "string option"
  rq_key :: "string option"

text \<open>\<open>WebSocketHandshakeError\<close>: its status and code.\<close>

type_synonym handshake_error = "nat \<times> string"

text \<open>\<open>from_base64\<close> is \<open>Buffer.from(key, "base64")\<close>.\<close>

definition validate_websocket_handshake :: "(string \<Rightarrow> bytes) \<Rightarrow> ws_request \<Rightarrow> handshake_error + string" where
  "validate_websocket_handshake from_base64 r =
     (if rq_method r \<noteq> ''GET'' then Inl (400, ''invalid_websocket_method'')
      else if map_option (List.map lower_char) (rq_upgrade r) \<noteq> Some ''websocket''
      then Inl (426, ''websocket_upgrade_required'')
      else if (case rq_connection r of
                 None \<Rightarrow> True
               | Some c \<Rightarrow> ''upgrade'' \<notin> set (List.map (\<lambda>v. List.map lower_char (trim v)) (split_commas c)))
      then Inl (400, ''invalid_websocket_headers'')
      else if rq_version r \<noteq> Some ''13'' then Inl (426, ''unsupported_websocket_version'')
      else
        (case rq_key r of
           None \<Rightarrow> Inl (400, ''invalid_websocket_key'')
         | Some key \<Rightarrow>
             (let decoded = from_base64 key in
              if length decoded \<noteq> 16 \<or> to_base64 decoded \<noteq> key then Inl (400, ''invalid_websocket_key'')
              else Inr key)))"

definition crlf :: string where
  "crlf = [char_of (13 :: nat), char_of (10 :: nat)]"

text \<open>\<open>acceptWebSocket\<close>: the response it writes and the peer.\<close>

definition accept_websocket ::
  "(string \<Rightarrow> bytes) \<Rightarrow> string \<Rightarrow> string \<Rightarrow> ws_limits \<Rightarrow> nat \<Rightarrow> nat \<Rightarrow> string \<times> ws_peer" where
  "accept_websocket sha1 key protocol limits high_water pending =
     (let accept = to_base64 (sha1 (key @ ''258EAFA5-E914-47DA-95CA-C5AB0DC85B11''));
          response = ''HTTP/1.1 101 Switching Protocols'' @ crlf @ ''Upgrade: websocket'' @ crlf
            @ ''Connection: Upgrade'' @ crlf @ ''Sec-WebSocket-Accept: '' @ accept @ crlf
            @ ''Sec-WebSocket-Protocol: '' @ protocol @ crlf @ crlf
      in (response, new_peer limits high_water (pending + length response)))"

end
