(* ===== verification/WebsocketReads.thy ===== *)
theory WebsocketReads
  imports Websocket
begin

text \<open>The incremental parser of the WebSocket peer: cutting the stream differently changes nothing.\<close>

section \<open>Reading a frame from a longer buffer\<close>

lemma frame_length_append:
  "frame_length buf s = Parsed x \<Longrightarrow> frame_length (buf @ c) s = Parsed x"
  "frame_length buf s = Malformed \<Longrightarrow> frame_length (buf @ c) s = Malformed"
  by (auto simp: frame_length_def Let_def split: if_splits)

lemma frame_length_offset: "frame_length buf s = Parsed (offset, len) \<Longrightarrow> offset \<le> 10"
  by (auto simp: frame_length_def Let_def split: if_splits)

lemma frame_length_short: "frame_length buf s = Incomplete \<Longrightarrow> length buf < 10"
  by (auto simp: frame_length_def Let_def split: if_splits)

lemma read_frame_short [simp]: "read_frame m [] = Incomplete"
  by (simp add: read_frame_def)

lemma read_frame_append:
  "read_frame m buf = Parsed (f, rest) \<Longrightarrow> read_frame m (buf @ c) = Parsed (f, rest @ c)"
  "read_frame m buf = Malformed \<Longrightarrow> read_frame m (buf @ c) = Malformed"
proof -
  let ?n = "unat (buf ! 1 AND 0x7F)"
  have same: "(buf @ c) ! 0 = buf ! 0" "(buf @ c) ! 1 = buf ! 1" if "\<not> length buf < 2"
    using that by (auto simp: nth_append)
  show "read_frame m (buf @ c) = Parsed (f, rest @ c)" if *: "read_frame m buf = Parsed (f, rest)"
  proof (cases "length buf < 2")
    case False
    then obtain offset len where "frame_length buf ?n = Parsed (offset, len)"
      using * by (auto simp: read_frame_def Let_def split: parsed.splits if_splits)
    with * False same [OF False] frame_length_append(1) [OF this, of c] show ?thesis
      by (auto simp: read_frame_def Let_def simp del: One_nat_def split: if_splits)
  qed (use * in \<open>simp add: read_frame_def\<close>)
  show "read_frame m (buf @ c) = Malformed" if *: "read_frame m buf = Malformed"
  proof (cases "length buf < 2")
    case False
    with * same [OF False] show ?thesis
      by (cases "frame_length buf ?n")
         (auto simp: read_frame_def Let_def frame_length_append simp del: One_nat_def split: if_splits)
  qed (use * in \<open>simp add: read_frame_def\<close>)
qed

lemma read_frame_Incomplete: "read_frame m buf = Incomplete \<Longrightarrow> length buf < m + 14"
  using frame_length_short [of buf "unat (buf ! 1 AND 0x7F)"] frame_length_offset [of buf "unat (buf ! 1 AND 0x7F)"]
  by (cases "frame_length buf (unat (buf ! 1 AND 0x7F))") (auto simp: read_frame_def Let_def split: if_splits)

section \<open>Handling a frame does not look at the buffer\<close>

lemma buffer_sends:
  "ws_close code reason (p\<lparr>p_buffer := b\<rparr>) = (ws_close code reason p)\<lparr>p_buffer := b\<rparr>"
  "ws_terminate (p\<lparr>p_buffer := b\<rparr>) = (ws_terminate p)\<lparr>p_buffer := b\<rparr>"
  "enqueue w (p\<lparr>p_buffer := b\<rparr>) = (fst (enqueue w p), (snd (enqueue w p))\<lparr>p_buffer := b\<rparr>)"
  by (simp_all add: ws_close_def ws_terminate_def enqueue_def socket_write_def notify_close_def shut_def Let_def)

lemma buffer_queue: "enqueue_or_terminate w (p\<lparr>p_buffer := b\<rparr>) = (enqueue_or_terminate w p)\<lparr>p_buffer := b\<rparr>"
  by (simp add: enqueue_or_terminate_def buffer_sends split: prod.splits)

lemma buffer_call: "ws_call c (p\<lparr>p_buffer := b\<rparr>) = (ws_call c p)\<lparr>p_buffer := b\<rparr>"
  by (cases c) (auto simp: send_json_def buffer_sends buffer_queue split: sum.splits)

lemma buffer_calls: "fold ws_call cs (p\<lparr>p_buffer := b\<rparr>) = (fold ws_call cs p)\<lparr>p_buffer := b\<rparr>"
  by (induction cs arbitrary: p) (simp_all add: buffer_call)

lemma buffer_deliver:
  "deliver react content (p\<lparr>p_buffer := b\<rparr>) =
     (fst (deliver react content p), (snd (deliver react content p))\<lparr>p_buffer := b\<rparr>)"
proof -
  have swap: "p\<lparr>p_buffer := b, a_texts := ts\<rparr> = p\<lparr>a_texts := ts, p_buffer := b\<rparr>" for ts by simp
  obtain cs throws where "react (a_texts p @ [content]) = (cs, throws)" by fastforce
  then show ?thesis by (simp add: deliver_def swap buffer_calls)
qed

lemma buffer_handle:
  "handle_frame react f (p\<lparr>p_buffer := b\<rparr>) =
     (fst (handle_frame react f p), (snd (handle_frame react f p))\<lparr>p_buffer := b\<rparr>)"
proof -
  have swap: "p\<lparr>p_buffer := b, p_fragments := [], p_fragment_bytes := 0, p_fragment_opcode := None\<rparr>
    = p\<lparr>p_fragments := [], p_fragment_bytes := 0, p_fragment_opcode := None, p_buffer := b\<rparr>"
    by simp
  show ?thesis
    unfolding handle_frame_def
    by (auto simp: Let_def buffer_sends buffer_queue swap buffer_deliver split: option.splits)
qed

section \<open>The loop on a longer buffer\<close>

definition feed :: "bytes \<Rightarrow> ws_peer \<Rightarrow> ws_peer" where
  "feed c p = p\<lparr>p_buffer := p_buffer p @ c\<rparr>"

lemma feed_simps [simp]:
  "p_buffer (feed c p) = p_buffer p @ c" "p_limits (feed c p) = p_limits p" "p_closed (feed c p) = p_closed p"
  "feed d (feed c p) = feed (c @ d) p" "feed [] p = p"
  by (simp_all add: feed_def)

lemma parse_frame_feed:
  "parse_frame react p = (Thrown, q) \<Longrightarrow> parse_frame react (feed c p) = (Thrown, feed c q)"
  "parse_frame react p = (More, q) \<Longrightarrow> parse_frame react (feed c p) = (More, feed c q)"
  "parse_frame react p = (Done, q) \<Longrightarrow> p_closed q \<Longrightarrow> \<not> p_closed p
    \<Longrightarrow> parse_frame react (feed c p) = (Done, feed c q)"
  "parse_frame react p = (Done, q) \<Longrightarrow> \<not> p_closed q \<Longrightarrow>
    q = p \<and> read_frame (max_message_bytes (p_limits p)) (p_buffer p) = Incomplete
    \<or> p_buffer q = [] \<and> parse_frame react (feed c p) = (if c = [] then Done else More, feed c q)"
proof -
  have longer: "parse_frame react (feed c p) =
      (if threw then Thrown else if \<not> p_closed q \<and> rest @ c \<noteq> [] then More else Done, feed c q)"
    if "read_frame (max_message_bytes (p_limits p)) (p_buffer p) = Parsed (f, rest)"
      and "handle_frame react f (p\<lparr>p_buffer := rest\<rparr>) = (threw, q)" and "p_buffer q = rest" for f rest threw q
    using that read_frame_append(1) [OF that(1), of c]
      buffer_handle [where b = "rest @ c" and p = "p\<lparr>p_buffer := rest\<rparr>"]
    by (simp add: parse_frame_def feed_def)
  show "parse_frame react (feed c p) = (Thrown, feed c q)" if "parse_frame react p = (Thrown, q)"
    using that
  proof (cases rule: parse_frame_cases [of p react])
    case bad
    with that read_frame_append(2) [OF bad(1), of c] show ?thesis by (simp add: parse_frame_def)
  qed (auto simp: longer split: if_splits)
  show "parse_frame react (feed c p) = (More, feed c q)" if "parse_frame react p = (More, q)"
    using that by (cases rule: parse_frame_cases [of p react]) (auto simp: longer split: if_splits)
  show "parse_frame react (feed c p) = (Done, feed c q)"
    if "parse_frame react p = (Done, q)" "p_closed q" "\<not> p_closed p"
    using that by (cases rule: parse_frame_cases [of p react]) (auto simp: longer split: if_splits)
  show "q = p \<and> read_frame (max_message_bytes (p_limits p)) (p_buffer p) = Incomplete
    \<or> p_buffer q = [] \<and> parse_frame react (feed c p) = (if c = [] then Done else More, feed c q)"
    if "parse_frame react p = (Done, q)" "\<not> p_closed q"
    using that by (cases rule: parse_frame_cases [of p react]) (auto simp: longer split: if_splits)
qed

text \<open>The loop ends thrown, closed, or short of a frame.\<close>

lemma read_loop_result:
  "read_loop react p = (r, q) \<Longrightarrow>
    r = Thrown \<or> r = Done \<and> (p_closed q \<or> read_frame (max_message_bytes (p_limits q)) (p_buffer q) = Incomplete)"
proof (induction react p rule: read_loop.induct)
  case (1 react p)
  show ?case
  proof (cases "parse_frame react p")
    case (Pair s q1)
    show ?thesis
    proof (cases s)
      case More
      with 1 Pair show ?thesis by (simp add: read_loop.simps [of react p])
    next
      case Done
      with Pair 1(2) have "q1 = q" "r = Done" by (simp_all add: read_loop.simps [of react p])
      have "p_closed q \<or> q = p \<and> read_frame (max_message_bytes (p_limits p)) (p_buffer p) = Incomplete \<or> p_buffer q = []"
        using parse_frame_feed(4) [of react p q "[]"] Pair Done \<open>q1 = q\<close> by auto
      then show ?thesis using \<open>r = Done\<close> by (elim disjE conjE) simp_all
    next
      case Thrown
      with Pair 1(2) show ?thesis by (simp add: read_loop.simps [of react p])
    qed
  qed
qed

lemma read_loop_limits: "read_loop react p = (r, q) \<Longrightarrow> p_limits q = p_limits p"
proof (induction react p rule: read_loop.induct)
  case (1 react p)
  show ?case
    by (cases rule: parse_frame_cases [of p react])
       (use 1 in \<open>auto simp: read_loop.simps [of react p] split: if_splits\<close>)
qed

lemma read_loop_feed:
  assumes "\<not> p_closed p" and "read_loop react p = (r, q)"
  shows "read_loop react (feed c p) =
    (if r = Thrown then (Thrown, feed c q) else if p_closed q then (Done, feed c q) else read_loop react (feed c q))"
  using assms
proof (induction react p rule: read_loop.induct)
  case (1 react p)
  obtain s q1 where step: "parse_frame react p = (s, q1)" by fastforce
  show ?case
  proof (cases s)
    case More
    then have open1: "\<not> p_closed q1"
      using step by (cases rule: parse_frame_cases [of p react]) (auto split: if_splits)
    have "read_loop react q1 = (r, q)" using 1(3) step More by (simp add: read_loop.simps [of react p])
    with 1(1) [OF step [unfolded More, symmetric] refl open1] parse_frame_feed(2) [of react p q1 c] step More
    show ?thesis by (simp add: read_loop.simps [of react "feed c p"])
  next
    case Thrown
    with 1(3) step parse_frame_feed(1) [of react p q1 c] show ?thesis
      by (auto simp: read_loop.simps [of react p] read_loop.simps [of react "feed c p"])
  next
    case Done
    with 1(3) step have same: "q1 = q" "r = Done" by (simp_all add: read_loop.simps [of react p])
    show ?thesis
    proof (cases "p_closed q")
      case True
      with parse_frame_feed(3) [of react p q c] step Done same 1(2) show ?thesis
        by (simp add: read_loop.simps [of react "feed c p"])
    next
      case False
      then consider "q = p" | "p_buffer q = []" "parse_frame react (feed c p) = (if c = [] then Done else More, feed c q)"
        using parse_frame_feed(4) [of react p q c] step Done same by auto
      then show ?thesis
      proof cases
        case 1
        with False same show ?thesis by simp
      next
        case 2
        then have "read_loop react q = (Done, q)"
          by (simp add: read_loop.simps [of react q] parse_frame_def)
        with 2 False same step Done show ?thesis
          by (cases "c = []") (simp_all add: read_loop.simps [of react "feed c p"] read_loop.simps [of react p])
      qed
    qed
  qed
qed

section \<open>Reading chunk by chunk\<close>

text \<open>Equal but for the bytes a closed peer still holds.\<close>

definition ws_same :: "ws_peer \<Rightarrow> ws_peer \<Rightarrow> bool" where
  "ws_same p q \<longleftrightarrow> p\<lparr>p_buffer := []\<rparr> = q\<lparr>p_buffer := []\<rparr> \<and> (\<not> p_closed p \<longrightarrow> p = q)"

lemma ws_same_closed: "ws_same p q \<Longrightarrow> p_closed p = p_closed q"
  unfolding ws_same_def by (metis ws_peer.select_convs(6) ws_peer.surjective ws_peer.update_convs(2))

lemma ws_read_loop:
  assumes "\<not> p_closed p" and "read_loop react (feed c p) = (r, q)"
  shows "ws_read react c p = (if r = Thrown then ws_close 1002 (ascii ''invalid WebSocket frame'') q else q)"
proof -
  have "ws_close code reason q = q" if "p_closed q" for code reason using that by (simp add: ws_close_def)
  with assms read_loop_result [OF assms(2)] show ?thesis
    by (auto simp: ws_read_def feed_def dest: read_frame_Incomplete)
qed

lemma ws_same_feed: "ws_same (feed c p) q \<longleftrightarrow> ws_same p q" if "p_closed p"
  using that by (simp add: ws_same_def feed_def)

lemma ws_close_closes: "p_closed (ws_close code reason p)"
  by (simp add: ws_close_def socket_write_def notify_close_def shut_def Let_def)

lemma ws_read_append: "ws_same (ws_read react d (ws_read react c p)) (ws_read react (c @ d) p)"
proof (cases "p_closed p")
  case True
  then show ?thesis by (simp add: ws_read_def ws_same_def)
next
  case False
  obtain r q where first: "read_loop react (feed c p) = (r, q)" by fastforce
  note whole = read_loop_feed [of "feed c p", OF _ first, of d, simplified, OF False]
  have one: "ws_read react c p = (if r = Thrown then ws_close 1002 (ascii ''invalid WebSocket frame'') q else q)"
    by (rule ws_read_loop [OF False first])
  consider (threw) "r = Thrown" | (closed) "r \<noteq> Thrown" "p_closed q" | (going) "r \<noteq> Thrown" "\<not> p_closed q" by blast
  then show ?thesis
  proof cases
    case threw
    with whole have "read_loop react (feed (c @ d) p) = (Thrown, feed d q)" by simp
    from ws_read_loop [OF False this] one threw show ?thesis
      by (simp add: ws_read_def ws_close_closes ws_same_def feed_def buffer_sends)
  next
    case closed
    with whole have "read_loop react (feed (c @ d) p) = (Done, feed d q)" by simp
    from ws_read_loop [OF False this] one closed show ?thesis
      by (simp add: ws_read_def ws_same_def feed_def)
  next
    case going
    obtain r2 q2 where second: "read_loop react (feed d q) = (r2, q2)" by fastforce
    with whole going have "read_loop react (feed (c @ d) p) = (r2, q2)" by simp
    from ws_read_loop [OF False this] ws_read_loop [OF going(2) second] one going show ?thesis
      by (simp add: ws_same_def)
  qed
qed

lemma ws_read_same: "ws_same (ws_read react c p) (ws_read react c q)" if "ws_same p q"
proof (cases "p_closed p")
  case True
  with ws_same_closed [of p q] that show ?thesis by (simp add: ws_read_def)
next
  case False
  with that have "p = q" by (simp add: ws_same_def)
  then show ?thesis by (simp add: ws_same_def)
qed

lemma ws_same_trans: "ws_same p q \<Longrightarrow> ws_same q r \<Longrightarrow> ws_same p r"
  unfolding ws_same_def by metis

lemma ws_reads_same: "ws_same p q \<Longrightarrow> ws_same (fold (ws_read react) cs p) (fold (ws_read react) cs q)"
  by (induction cs arbitrary: p q) (simp_all add: ws_read_same)

lemma ws_reads_concat: "ws_same (fold (ws_read react) cs (ws_read react c p)) (ws_read react (c @ concat cs) p)"
proof (induction cs arbitrary: c)
  case Nil
  show ?case by (simp add: ws_same_def)
next
  case (Cons d cs)
  from ws_reads_same [OF ws_read_append, of react cs react d c p] Cons.IH [of "c @ d"]
  show ?case by (auto intro: ws_same_trans)
qed

end
