(* ===== verification/WebsocketInv.thy ===== *)
theory WebsocketInv
  imports WebsocketReads
begin

text \<open>
  The invariant of the WebSocket peer: outbound accounting and order, the single close notification,
  and the bound on reassembled fragments.
\<close>

section \<open>The outbound side\<close>

definition queue_size :: "bytes list \<Rightarrow> nat" where
  "queue_size ws = sum_list (List.map length ws)"

lemma queue_size_simps [simp]:
  "queue_size [] = 0" "queue_size (w # ws) = length w + queue_size ws" "queue_size (us @ ws) = queue_size us + queue_size ws"
  by (simp_all add: queue_size_def)

text \<open>\<open>B\<close> bounds what the process holds for a slow client.\<close>

definition out_open :: "nat \<Rightarrow> ws_peer \<Rightarrow> bool" where
  "out_open B p \<longleftrightarrow> p_queued_bytes p = int (queue_size (p_queue p)) \<and> s_pending p + queue_size (p_queue p) \<le> B
     \<and> p_accepted p = s_written p @ p_queue p \<and> (p_queue p \<noteq> [] \<longrightarrow> p_blocked p)
     \<and> p_keep_alive p \<and> \<not> s_ended p \<and> \<not> s_destroyed p \<and> a_closes p = 0"

definition out_closed :: "nat \<Rightarrow> ws_peer \<Rightarrow> bool" where
  "out_closed B p \<longleftrightarrow> p_queue p = [] \<and> p_queued_bytes p = 0 \<and> s_pending p \<le> B + 127
     \<and> (\<exists>k bye. s_written p = take k (p_accepted p) @ bye \<and> length bye \<le> 1 \<and> (bye \<noteq> [] \<longrightarrow> s_ended p))
     \<and> \<not> p_keep_alive p \<and> \<not> (s_ended p \<and> s_destroyed p) \<and> a_closes p \<le> 1"

definition out_ok :: "nat \<Rightarrow> ws_peer \<Rightarrow> bool" where
  "out_ok B p \<longleftrightarrow> max_outbound_bytes (p_limits p) \<le> B \<and> (if p_closed p then out_closed B p else out_open B p)"

lemma out_okI:
  "max_outbound_bytes (p_limits p) \<le> B \<Longrightarrow> \<not> p_closed p \<Longrightarrow> out_open B p \<Longrightarrow> out_ok B p"
  by (simp add: out_ok_def)

lemma close_frame_length: "length (frame 0x8 (be16 n @ take 123 bs)) \<le> 127"
  by (auto simp: frame_def min_def)

lemma out_shut:
  assumes "out_ok B p" and "\<not> p_closed p"
  shows "out_closed B (notify_close (shut p))" and "out_closed B (notify_close ((shut p)\<lparr>s_destroyed := True\<rparr>))"
    and "length bye \<le> 127 \<Longrightarrow> out_closed B (notify_close ((shut p)\<lparr>s_written := s_written p @ [bye],
           s_pending := s_pending p + length bye, s_ended := True\<rparr>))"
proof -
  have "out_open B p" using assms by (simp add: out_ok_def)
  then have *: "s_written p = take (length (s_written p)) (p_accepted p)" "s_pending p \<le> B" "a_closes p = 0"
    "\<not> s_ended p" "\<not> s_destroyed p"
    by (simp_all add: out_open_def)
  show "out_closed B (notify_close (shut p))" "out_closed B (notify_close ((shut p)\<lparr>s_destroyed := True\<rparr>))"
    using * by (auto simp: out_closed_def notify_close_def shut_def intro!: exI [of _ "length (s_written p)"])
  show "out_closed B (notify_close ((shut p)\<lparr>s_written := s_written p @ [bye],
           s_pending := s_pending p + length bye, s_ended := True\<rparr>))" if "length bye \<le> 127"
    using * that by (auto simp: out_closed_def notify_close_def shut_def
        intro!: exI [of _ "length (s_written p)"] exI [of _ "[bye]"])
qed

lemma closed_after [simp]: "p_closed (notify_close q) = p_closed q" "p_limits (notify_close q) = p_limits q"
  by (simp_all add: notify_close_def)

lemma out_ok_close: "out_ok B p \<Longrightarrow> out_ok B (ws_close code reason p)"
  using out_shut(3) [of B p "frame 0x8 (be16 (unat code) @ take 123 (utf8_encode reason))", OF _ _ close_frame_length]
  by (simp add: ws_close_def Let_def socket_write_def) (auto simp: out_ok_def shut_def)

lemma out_ok_finish: "out_ok B p \<Longrightarrow> out_ok B (ws_finish p)"
  using out_shut(1) [of B p] by (simp add: ws_finish_def) (auto simp: out_ok_def shut_def)

lemma out_ok_terminate: "out_ok B p \<Longrightarrow> out_ok B (ws_terminate p)"
  using out_shut(2) [of B p] by (simp add: ws_terminate_def) (auto simp: out_ok_def shut_def)

lemma out_ok_enqueue: "out_ok B p \<Longrightarrow> out_ok B (snd (enqueue w p))"
  by (auto simp: out_ok_def out_open_def enqueue_def socket_write_def Let_def)

lemma out_ok_queue: "out_ok B p \<Longrightarrow> out_ok B (enqueue_or_terminate w p)"
  using out_ok_enqueue [of B p w] by (cases "enqueue w p") (simp add: enqueue_or_terminate_def out_ok_terminate)

lemma out_ok_call: "out_ok B p \<Longrightarrow> out_ok B (ws_call c p)"
  by (cases c) (auto simp: send_json_def out_ok_close out_ok_terminate out_ok_queue split: sum.splits)

lemma out_ok_calls: "out_ok B p \<Longrightarrow> out_ok B (fold ws_call cs p)"
  by (induction cs arbitrary: p) (simp_all add: out_ok_call)

text \<open>The input side does not matter to it.\<close>

lemma out_ok_input:
  "out_ok B (p\<lparr>p_buffer := b\<rparr>) = out_ok B p" "out_ok B (p\<lparr>a_texts := ts\<rparr>) = out_ok B p"
  "out_ok B (p\<lparr>p_fragments := fs\<rparr>) = out_ok B p" "out_ok B (p\<lparr>p_fragment_bytes := n\<rparr>) = out_ok B p"
  "out_ok B (p\<lparr>p_fragment_opcode := opc\<rparr>) = out_ok B p" "out_ok B (p\<lparr>p_awaiting_pong := a\<rparr>) = out_ok B p"
  "out_ok B (set_handlers p) = out_ok B p"
  by (simp_all add: out_ok_def out_open_def out_closed_def set_handlers_def)

lemma out_ok_deliver: "out_ok B p \<Longrightarrow> out_ok B (snd (deliver react content p))"
  by (auto simp: deliver_def Let_def out_ok_input intro!: out_ok_calls split: prod.splits)

lemma out_ok_handle: "out_ok B p \<Longrightarrow> out_ok B (snd (handle_frame react f p))"
  unfolding handle_frame_def
  by (auto simp: Let_def out_ok_input out_ok_close out_ok_queue intro!: out_ok_deliver split: option.splits)

lemma out_ok_loop: "out_ok B p \<Longrightarrow> read_loop react p = (r, q) \<Longrightarrow> out_ok B q"
proof (induction react p rule: read_loop.induct)
  case (1 react p)
  show ?case
  proof (cases rule: parse_frame_cases [of p react])
    case (good f rest threw q1)
    have "out_ok B q1"
      using out_ok_handle [of B "p\<lparr>p_buffer := rest\<rparr>" react f] 1(2) good(2) by (simp add: out_ok_input)
    with 1 good show ?thesis by (auto simp: read_loop.simps [of react p] split: if_splits)
  qed (use 1 in \<open>auto simp: read_loop.simps [of react p]\<close>)
qed

lemma out_ok_read: "out_ok B p \<Longrightarrow> out_ok B (ws_read react c p)"
  using out_ok_loop [of B "p\<lparr>p_buffer := p_buffer p @ c\<rparr>" react]
  by (auto simp: ws_read_def out_ok_input out_ok_close split: prod.splits)

subsection \<open>Flushing\<close>

lemma out_ok_flush_queue:
  assumes "max_outbound_bytes (p_limits p) \<le> B" and "\<not> p_closed p" and "p_queue p = ws"
    and "p_queued_bytes p = int (queue_size ws)" and "s_pending p + queue_size ws \<le> B"
    and "p_accepted p = s_written p @ ws"
    and "p_keep_alive p" and "\<not> s_ended p" and "\<not> s_destroyed p" and "a_closes p = 0"
  shows "out_ok B (flush_queue ws p)"
  using assms
proof (induction ws p rule: flush_queue.induct)
  case (1 p)
  then show ?case by (simp add: out_ok_def out_open_def)
next
  case (2 w ws p)
  show ?case
  proof (cases "p_blocked p")
    case True
    with 2 show ?thesis by (simp add: out_ok_def out_open_def)
  next
    case False
    with 2 show ?thesis by (simp add: socket_write_def Let_def)
  qed
qed

lemma out_ok_flush: "out_ok B p \<Longrightarrow> out_ok B (ws_flush (p\<lparr>s_pending := 0\<rparr>))"
proof (cases "p_closed p")
  case True
  then show "out_ok B (ws_flush (p\<lparr>s_pending := 0\<rparr>))" if "out_ok B p"
    using that by (auto simp: ws_flush_def out_ok_def out_closed_def)
next
  case False
  show "out_ok B (ws_flush (p\<lparr>s_pending := 0\<rparr>))" if "out_ok B p"
  proof -
    have "out_ok B (flush_queue (p_queue p) (p\<lparr>s_pending := 0, p_blocked := False\<rparr>))"
      by (rule out_ok_flush_queue) (use that False in \<open>auto simp: out_ok_def out_open_def\<close>)
    with False show ?thesis by (simp add: ws_flush_def)
  qed
qed

lemma out_ok_ping: "out_ok B p \<Longrightarrow> out_ok B (ws_ping r p)"
  by (auto simp: ws_ping_def out_ok_input intro!: out_ok_close out_ok_queue)

lemma out_ok_step: "out_ok B p \<Longrightarrow> out_ok B (ws_step react e p)"
  by (cases e) (auto simp: out_ok_read out_ok_flush out_ok_finish out_ok_ping out_ok_call out_ok_input
      out_ok_def [of B "p\<lparr>s_pending := _\<rparr>"] out_ok_def [of B p] out_open_def out_closed_def)

lemma out_ok_new: "pending \<le> B \<Longrightarrow> max_outbound_bytes limits \<le> B \<Longrightarrow> out_ok B (new_peer limits high pending)"
  by (simp add: out_ok_def out_open_def new_peer_def)

section \<open>The inbound side\<close>

definition fragments_ok :: "ws_peer \<Rightarrow> bool" where
  "fragments_ok p \<longleftrightarrow> p_fragment_bytes p = queue_size (p_fragments p)
     \<and> p_fragment_bytes p \<le> max_message_bytes (p_limits p)
     \<and> (p_fragment_opcode p = None \<longrightarrow> p_fragments p = [])"

lemma fragments_input: "input_side p = input_side q \<Longrightarrow> fragments_ok p = fragments_ok q"
  by (simp add: input_side_def fragments_ok_def)

lemma fragments_sends [simp]:
  "fragments_ok (ws_close code reason p) = fragments_ok p" "fragments_ok (enqueue_or_terminate w p) = fragments_ok p"
  "fragments_ok (fold ws_call cs p) = fragments_ok p" "fragments_ok (ws_call c p) = fragments_ok p"
  "fragments_ok (ws_finish p) = fragments_ok p"
  by (rule fragments_input; simp)+

lemma fragments_simps [simp]:
  "fragments_ok (p\<lparr>p_buffer := b\<rparr>) = fragments_ok p" "fragments_ok (p\<lparr>a_texts := ts\<rparr>) = fragments_ok p"
  "fragments_ok (p\<lparr>p_awaiting_pong := a\<rparr>) = fragments_ok p" "fragments_ok (p\<lparr>s_pending := n\<rparr>) = fragments_ok p"
  by (simp_all add: fragments_ok_def)

lemma fragments_deliver: "fragments_ok p \<Longrightarrow> fragments_ok (snd (deliver react content p))"
  by (auto simp: deliver_def Let_def split: prod.splits)

lemma fragments_reset: "fragments_ok (p\<lparr>p_fragments := [], p_fragment_bytes := 0, p_fragment_opcode := None\<rparr>)"
  by (simp add: fragments_ok_def)

lemma fragments_handle:
  "fragments_ok p \<Longrightarrow> handle_frame react f p = (False, q) \<Longrightarrow> fragments_ok q"
proof -
  assume ok: "fragments_ok p" and handle: "handle_frame react f p = (False, q)"
  have whole: "fragments_ok q'"
    if "deliver react content (p\<lparr>p_fragments := [], p_fragment_bytes := 0, p_fragment_opcode := None\<rparr>) = (b, q')"
    for content b q'
    using fragments_deliver [OF fragments_reset, of react content p] that by simp
  show "fragments_ok q"
    using ok handle
    by (auto simp: handle_frame_def Let_def intro: whole split: if_splits option.splits)
       (auto simp: fragments_ok_def)
qed

lemma fragments_loop:
  "fragments_ok p \<Longrightarrow> read_loop react p = (r, q) \<Longrightarrow> r = Thrown \<or> fragments_ok q"
proof (induction react p rule: read_loop.induct)
  case (1 react p)
  show ?case
  proof (cases rule: parse_frame_cases [of p react])
    case (good f rest threw q1)
    then show ?thesis
      using 1 fragments_handle [of "p\<lparr>p_buffer := rest\<rparr>" react f q1]
      by (auto simp: read_loop.simps [of react p] split: if_splits)
  qed (use 1 in \<open>auto simp: read_loop.simps [of react p]\<close>)
qed

text \<open>An open peer holds less than one frame, and fragments of at most one message.\<close>

definition in_ok :: "ws_peer \<Rightarrow> bool" where
  "in_ok p \<longleftrightarrow> p_closed p \<or> fragments_ok p \<and> length (p_buffer p) < max_message_bytes (p_limits p) + 14"

lemma in_ok_read: "in_ok p \<Longrightarrow> in_ok (ws_read react c p)"
proof (cases "p_closed p")
  case False
  assume "in_ok p"
  obtain r q where loop: "read_loop react (feed c p) = (r, q)" by fastforce
  have "fragments_ok (feed c p)" using \<open>in_ok p\<close> False by (simp add: in_ok_def feed_def)
  from fragments_loop [OF this loop] read_loop_result [OF loop] show "in_ok (ws_read react c p)"
    unfolding ws_read_loop [OF False loop]
    by (auto simp: in_ok_def ws_close_closes dest: read_frame_Incomplete)
qed (simp add: ws_read_def)

lemma in_ok_input:
  "input_side p = input_side q \<Longrightarrow> p_closed p \<longrightarrow> p_closed q \<Longrightarrow> in_ok p \<Longrightarrow> in_ok q"
  using fragments_input [of p q] input_side_eqD [of p q] by (auto simp: in_ok_def)

subsection \<open>Closed peers stay as they are\<close>

definition silent where
  "silent p = (s_written p, a_texts p, a_closes p, p_accepted p, p_queue p, s_ended p, s_destroyed p, p_keep_alive p)"

lemma closed_sends [simp]:
  "p_closed p \<Longrightarrow> ws_close code reason p = p" "p_closed p \<Longrightarrow> ws_terminate p = p" "p_closed p \<Longrightarrow> ws_finish p = p"
  "p_closed p \<Longrightarrow> enqueue_or_terminate w p = p" "p_closed p \<Longrightarrow> ws_read react chunk p = p"
  "p_closed p \<Longrightarrow> ws_ping r p = p"
  by (simp_all add: ws_close_def ws_terminate_def ws_finish_def enqueue_or_terminate_def enqueue_def
       ws_read_def ws_ping_def)

lemma closed_call [simp]: "p_closed p \<Longrightarrow> ws_call c p = p"
  by (cases c) (simp_all add: send_json_def)

lemma closed_step:
  assumes "p_closed p" and "p_queue p = []"
  shows "p_closed (ws_step react e p) \<and> silent (ws_step react e p) = silent p"
  using assms by (cases e) (auto simp: silent_def ws_flush_def set_handlers_def)

lemma flush_queue_frame:
  "p_closed (flush_queue ws p) = p_closed p \<and> input_side (flush_queue ws p) = input_side p
    \<and> a_closes (flush_queue ws p) = a_closes p \<and> p_on_close (flush_queue ws p) = p_on_close p"
  by (induction ws p rule: flush_queue.induct) (auto simp: socket_write_def Let_def input_side_def)

lemma flush_frame:
  "p_closed (ws_flush p) = p_closed p \<and> input_side (ws_flush p) = input_side p
    \<and> a_closes (ws_flush p) = a_closes p \<and> p_on_close (ws_flush p) = p_on_close p"
  using flush_queue_frame [of "p_queue p" "p\<lparr>p_blocked := False\<rparr>"] by (simp add: ws_flush_def input_side_def)

lemma in_ok_step: "in_ok p \<Longrightarrow> in_ok (ws_step react e p)"
proof (cases "p_closed p")
  case True
  then show ?thesis
    using flush_frame [of "p\<lparr>s_pending := 0\<rparr>"] by (cases e) (simp_all add: in_ok_def set_handlers_def)
next
  case False
  assume "in_ok p"
  then have both: "fragments_ok p" "length (p_buffer p) < max_message_bytes (p_limits p) + 14"
    using False by (simp_all add: in_ok_def)
  have same: "in_ok q" if "input_side q = input_side p" for q
    using both fragments_input [OF that] input_side_eqD [OF that] by (simp add: in_ok_def)
  show ?thesis
  proof (cases e)
    case (SocketData c)
    with \<open>in_ok p\<close> show ?thesis by (simp add: in_ok_read)
  next
    case SocketDrain
    have "input_side (ws_flush (p\<lparr>s_pending := 0\<rparr>)) = input_side p"
      using flush_frame [of "p\<lparr>s_pending := 0\<rparr>"] by (simp add: input_side_def)
    with SocketDrain same show ?thesis by simp
  next
    case (KeepAliveTick r)
    have "input_side (ws_ping r p) = input_side p"
      by (auto simp: ws_ping_def) (simp add: input_side_def)
    with KeepAliveTick same \<open>in_ok p\<close> show ?thesis by simp
  next
    case HandlersSet
    then show ?thesis using both by (simp add: in_ok_def set_handlers_def fragments_ok_def)
  next
    case (SocketTook n)
    then show ?thesis using same [of "p\<lparr>s_pending := s_pending p - n\<rparr>"] by (simp add: input_side_def)
  qed (simp_all add: same)
qed

section \<open>The close notification\<close>

definition notified :: "ws_peer \<Rightarrow> bool" where
  "notified p \<longleftrightarrow> p_on_close p = (\<not> p_closed p) \<and> a_closes p = (if p_closed p then 1 else 0)"

lemma notified_frame:
  "p_on_close q = p_on_close p \<Longrightarrow> p_closed q = p_closed p \<Longrightarrow> a_closes q = a_closes p \<Longrightarrow> notified q = notified p"
  by (simp add: notified_def)

lemma notified_sends:
  "notified p \<Longrightarrow> notified (ws_close code reason p)" "notified p \<Longrightarrow> notified (ws_terminate p)"
  "notified p \<Longrightarrow> notified (ws_finish p)" "notified p \<Longrightarrow> notified (snd (enqueue w p))"
  by (auto simp: notified_def ws_close_def ws_terminate_def ws_finish_def shut_def notify_close_def
       socket_write_def Let_def enqueue_def)

lemma notified_queue: "notified p \<Longrightarrow> notified (enqueue_or_terminate w p)"
  using notified_sends(4) [of p w] by (cases "enqueue w p") (simp add: enqueue_or_terminate_def notified_sends)

lemma notified_call: "notified p \<Longrightarrow> notified (ws_call c p)"
  by (cases c) (auto simp: send_json_def notified_sends notified_queue split: sum.splits)

lemma notified_calls: "notified p \<Longrightarrow> notified (fold ws_call cs p)"
  by (induction cs arbitrary: p) (simp_all add: notified_call)

lemma notified_simps [simp]:
  "notified (p\<lparr>p_buffer := b\<rparr>) = notified p" "notified (p\<lparr>a_texts := ts\<rparr>) = notified p"
  "notified (p\<lparr>p_fragments := fs\<rparr>) = notified p" "notified (p\<lparr>p_fragment_bytes := n\<rparr>) = notified p"
  "notified (p\<lparr>p_fragment_opcode := opc\<rparr>) = notified p" "notified (p\<lparr>p_awaiting_pong := a\<rparr>) = notified p"
  "notified (p\<lparr>s_pending := n\<rparr>) = notified p"
  by (simp_all add: notified_def)

lemma notified_handle: "notified p \<Longrightarrow> notified (snd (handle_frame react f p))"
  unfolding handle_frame_def deliver_def
  by (auto simp: Let_def notified_sends notified_queue intro!: notified_calls split: option.splits prod.splits)

lemma notified_loop: "notified p \<Longrightarrow> read_loop react p = (r, q) \<Longrightarrow> notified q"
proof (induction react p rule: read_loop.induct)
  case (1 react p)
  show ?case
  proof (cases rule: parse_frame_cases [of p react])
    case (good f rest threw q1)
    have "notified q1" using notified_handle [of "p\<lparr>p_buffer := rest\<rparr>" react f] 1(2) good(2) by simp
    with 1 good show ?thesis by (auto simp: read_loop.simps [of react p] split: if_splits)
  qed (use 1 in \<open>auto simp: read_loop.simps [of react p]\<close>)
qed

lemma notified_step: "notified p \<Longrightarrow> e \<noteq> HandlersSet \<Longrightarrow> notified (ws_step react e p)"
proof (cases e)
  case (SocketData c)
  assume "notified p"
  with SocketData show ?thesis
    using notified_loop [of "p\<lparr>p_buffer := p_buffer p @ c\<rparr>" react]
    by (auto simp: ws_read_def notified_sends split: prod.splits)
next
  case SocketDrain
  assume "notified p"
  with SocketDrain show ?thesis
    using notified_frame [of "ws_flush (p\<lparr>s_pending := 0\<rparr>)" p] flush_frame [of "p\<lparr>s_pending := 0\<rparr>"] by simp
next
  case (KeepAliveTick r)
  assume "notified p"
  with KeepAliveTick show ?thesis by (auto simp: ws_ping_def intro!: notified_sends notified_queue)
qed (auto simp: notified_sends notified_call)

end
