(* ===== verification/WebsocketClaims.thy ===== *)
theory WebsocketClaims
  imports WebsocketInv
begin

text \<open>The properties of the WebSocket peer.\<close>

section \<open>Header bytes\<close>

lemma low_bits:
  "unat ((0x80 OR byte_of n) AND 0x7F) = n mod 128" "unat (byte_of n AND 0x7F) = n mod 128"
  "unat (byte_of n AND 0x0F) = n mod 16" "unat ((0x80 OR byte_of n) AND 0x0F) = n mod 16"
proof -
  have masks: "(0x7F :: byte) = mask 7" "(0x0F :: byte) = mask 4" by (simp_all add: mask_eq_exp_minus_1)
  show *: "unat (byte_of n AND 0x7F) = n mod 128" "unat (byte_of n AND 0x0F) = n mod 16"
    unfolding masks take_bit_eq_mask [symmetric] unsigned_take_bit_eq
    by (simp_all add: take_bit_eq_mod mod_mod_cancel)
  have "(0x80 OR byte_of n) AND 0x7F = byte_of n AND 0x7F" "(0x80 OR byte_of n) AND 0x0F = byte_of n AND 0x0F"
    by (simp_all add: bit.conj_disj_distrib2)
  with * show "unat ((0x80 OR byte_of n) AND 0x7F) = n mod 128" "unat ((0x80 OR byte_of n) AND 0x0F) = n mod 16"
    by simp_all
qed

lemma high_bits:
  "(0x80 OR w) AND 0x80 \<noteq> (0 :: byte)"
  "n < 16 \<Longrightarrow> byte_of n AND 0x70 = 0" "n < 16 \<Longrightarrow> (0x80 OR byte_of n) AND 0x70 = 0"
  "n < 16 \<Longrightarrow> byte_of n AND 0x80 = 0" "n < 128 \<Longrightarrow> byte_of n AND 0x80 = 0"
proof -
  have small: "byte_of n = byte_of n AND mask k" if "n < 2 ^ k" "k \<le> 7" for k n
  proof -
    have "n mod 256 = n" using that power_increasing [of k 7 "2 :: nat"] by simp
    with that have "unat (take_bit k (byte_of n)) = unat (byte_of n)"
      by (simp add: unsigned_take_bit_eq take_bit_nat_eq_self)
    then show ?thesis by (simp add: word_unat_eq_iff take_bit_eq_mask)
  qed
  have masks: "(mask 4 :: byte) = 0x0F" "(mask 7 :: byte) = 0x7F" by (simp_all add: mask_eq_exp_minus_1)
  show "(0x80 OR w) AND 0x80 \<noteq> (0 :: byte)" by (simp add: bit.conj_disj_distrib2 or_eq_0_iff)
  show a: "byte_of n AND 0x70 = 0" "byte_of n AND 0x80 = 0" if "n < 16"
    using that arg_cong [OF small [of n 4], of "\<lambda>w. w AND 0x70"] arg_cong [OF small [of n 4], of "\<lambda>w. w AND 0x80"]
    by (simp_all add: masks and.assoc)
  show "(0x80 OR byte_of n) AND 0x70 = 0" if "n < 16"
    using a(1) [OF that] by (simp add: bit.conj_disj_distrib2)
  show "byte_of n AND 0x80 = 0" if "n < 128"
    using that arg_cong [OF small [of n 7], of "\<lambda>w. w AND 0x80"] by (simp add: masks and.assoc)
qed

section \<open>The other end\<close>

text \<open>The frames of a client, masked with its key (RFC 6455, section 5.2).\<close>

definition client_frame :: "bytes \<Rightarrow> ws_frame \<Rightarrow> bytes" where
  "client_frame key f =
     (let n = length (f_payload f); first = (if f_fin f then 0x80 OR byte_of (f_opcode f) else byte_of (f_opcode f)) in
      (if n < 126 then [first, 0x80 OR byte_of n]
       else if n < 2 ^ 16 then [first, 0x80 OR byte_of 126] @ be16 n
       else [first, 0x80 OR byte_of 127] @ be32 (n div 2 ^ 32) @ be32 (n mod 2 ^ 32))
      @ key @ unmask key (f_payload f))"

text \<open>A frame a client may send to a peer with this message limit.\<close>

definition sendable :: "nat \<Rightarrow> bytes \<Rightarrow> ws_frame \<Rightarrow> bool" where
  "sendable m key f \<longleftrightarrow> length key = 4 \<and> f_opcode f < 16 \<and> length (f_payload f) \<le> m
     \<and> length (f_payload f) < 2 ^ 53 \<and> (8 \<le> f_opcode f \<longrightarrow> f_fin f \<and> length (f_payload f) \<le> 125)"

text \<open>How a client reads the unmasked frames of the peer: opcode, payload and what follows.\<close>

definition client_read :: "bytes \<Rightarrow> (nat \<times> bytes \<times> bytes) option" where
  "client_read buf =
     (if length buf < 2 then None
      else
        (case frame_length buf (unat (buf ! 1)) of
           Parsed (offset, len) \<Rightarrow>
             if length buf < offset + len then None
             else Some (unat (buf ! 0 AND 0x0F), take len (drop offset buf), drop (offset + len) buf)
         | _ \<Rightarrow> None))"

fun client_reads :: "nat \<Rightarrow> bytes \<Rightarrow> (nat \<times> bytes) list" where
  "client_reads 0 buf = []"
| "client_reads (Suc n) buf =
     (case client_read buf of Some (opcode, payload, rest) \<Rightarrow> (opcode, payload) # client_reads n rest | None \<Rightarrow> [])"

lemma unmask_unmask [simp]: "unmask key (unmask key payload) = payload"
  by (rule nth_equalityI) (simp_all add: unmask_def xor.assoc)

lemma length_unmask [simp]: "length (unmask key payload) = length payload"
  by (simp add: unmask_def)

lemma read_frame_parts:
  assumes "buf = hdr @ key @ body @ rest" and "length key = 4" and "2 \<le> length hdr"
    and "frame_length buf (unat (hdr ! 1 AND 0x7F)) = Parsed (length hdr, length body)"
    and "hdr ! 0 AND 0x70 = 0" and "hdr ! 1 AND 0x80 \<noteq> 0"
    and "8 \<le> unat (hdr ! 0 AND 0x0F) \<longrightarrow> hdr ! 0 AND 0x80 \<noteq> 0 \<and> length body \<le> 125" and "length body \<le> m"
  shows "read_frame m buf = Parsed (\<lparr>f_opcode = unat (hdr ! 0 AND 0x0F), f_fin = (hdr ! 0 AND 0x80 \<noteq> 0),
    f_payload = unmask key body\<rparr>, rest)"
proof -
  have "buf ! 0 = hdr ! 0" "buf ! 1 = hdr ! 1" "\<not> length buf < 2"
    using assms(1,3) by (auto simp: nth_append)
  moreover have "take 4 (drop (length hdr) buf) = key" "take (length body) (drop (length hdr + 4) buf) = body"
    "drop (length hdr + 4 + length body) buf = rest" "\<not> length buf < length hdr + 4 + length body"
    using assms(1,2) by simp_all
  ultimately show ?thesis
    using assms(4-8) by (auto simp: read_frame_def Let_def simp del: One_nat_def)
qed

lemma be64: "n < 2 ^ 53 \<Longrightarrow> be_value 0 (be32 (n div 2 ^ 32)) = n div 2 ^ 32 \<and> be_value 0 (be32 (n mod 2 ^ 32)) = n mod 2 ^ 32
    \<and> n div 2 ^ 32 \<le> 0x1FFFFF"
  using be32_value [of "n div 2 ^ 32"] be32_value [of "n mod 2 ^ 32"] by (auto simp: less_mult_imp_div_less)

lemma frame_length_medium: "n < 2 ^ 16 \<Longrightarrow> frame_length (a # b # be16 n @ rest) 126 = Parsed (4, n)"
  using be16_value [of n] by (simp add: frame_length_def)

lemma frame_length_long:
  assumes "be_value 0 (be32 h) = h" "be_value 0 (be32 l) = l" "h \<le> 0x1FFFFF"
  shows "frame_length (a # b # be32 h @ be32 l @ rest) 127 = Parsed (10, h * 2 ^ 32 + l)"
  using assms by (simp add: frame_length_def Let_def)

lemma frame_length_small: "n < 126 \<Longrightarrow> frame_length buf n = Parsed (2, n)"
  by (simp add: frame_length_def)

lemma read_client_frame:
  assumes "sendable m key f"
  shows "read_frame m (client_frame key f @ rest) = Parsed (f, rest)"
proof -
  let ?n = "length (f_payload f)"
  define first where "first = (if f_fin f then 0x80 OR byte_of (f_opcode f) else byte_of (f_opcode f))"
  have op: "f_opcode f < 16" and key: "length key = 4" and n: "?n \<le> m" "?n < 2 ^ 53"
    and control: "8 \<le> f_opcode f \<longrightarrow> f_fin f \<and> ?n \<le> 125"
    using assms by (simp_all add: sendable_def)
  have bits: "unat (first AND 0x0F) = f_opcode f" "(first AND 0x80 \<noteq> 0) = f_fin f" "first AND 0x70 = 0"
    using op high_bits(2-4) [OF op] high_bits(1) by (simp_all add: first_def low_bits)
  define hdr where "hdr = (if ?n < 126 then [first, 0x80 OR byte_of ?n]
       else if ?n < 2 ^ 16 then [first, 0x80 OR byte_of 126] @ be16 ?n
       else [first, 0x80 OR byte_of 127] @ be32 (?n div 2 ^ 32) @ be32 (?n mod 2 ^ 32))"
  let ?buf = "hdr @ key @ unmask key (f_payload f) @ rest"
  have hdr: "hdr ! 0 = first" "2 \<le> length hdr" "hdr ! 1 AND 0x80 \<noteq> 0"
    using high_bits(1) by (simp_all add: hdr_def)
  have "frame_length ?buf (unat (hdr ! 1 AND 0x7F)) = Parsed (length hdr, ?n)"
  proof -
    consider "?n < 126" | "126 \<le> ?n" "?n < 2 ^ 16" | "2 ^ 16 \<le> ?n" by linarith
    then show ?thesis
    proof cases
      case 1
      then show ?thesis by (simp add: hdr_def low_bits frame_length_small)
    next
      case 2
      then show ?thesis by (simp add: hdr_def low_bits(1) frame_length_medium)
    next
      case 3
      with be64 [OF n(2)] show ?thesis by (simp add: hdr_def low_bits(1) frame_length_long)
    qed
  qed
  then have "read_frame m ?buf = Parsed (\<lparr>f_opcode = f_opcode f, f_fin = f_fin f, f_payload = f_payload f\<rparr>, rest)"
    using read_frame_parts [OF refl key hdr(2), of "unmask key (f_payload f)" rest m] hdr bits control n by simp
  moreover have "client_frame key f @ rest = ?buf" by (simp add: client_frame_def hdr_def first_def Let_def)
  ultimately show ?thesis by simp
qed

lemma client_read_parts:
  assumes "buf = hdr @ payload @ rest" and "2 \<le> length hdr"
    and "frame_length buf (unat (hdr ! 1)) = Parsed (length hdr, length payload)"
  shows "client_read buf = Some (unat (hdr ! 0 AND 0x0F), payload, rest)"
proof -
  have "buf ! 0 = hdr ! 0" "buf ! 1 = hdr ! 1" "\<not> length buf < 2"
    using assms(1,2) by (auto simp: nth_append)
  moreover have "take (length payload) (drop (length hdr) buf) = payload"
    "drop (length hdr + length payload) buf = rest" "\<not> length buf < length hdr + length payload"
    using assms(1) by simp_all
  ultimately show ?thesis
    using assms(3) by (auto simp: client_read_def simp del: One_nat_def)
qed

lemma client_read_frame:
  assumes "opcode < 16" and "length payload < 2 ^ 32"
  shows "client_read (frame (byte_of opcode) payload @ rest) = Some (opcode, payload, rest)"
proof -
  let ?n = "length payload"
  define hdr where "hdr = (if ?n < 126 then [0x80 OR byte_of opcode, byte_of ?n]
      else if ?n \<le> 0xFFFF then [0x80 OR byte_of opcode, 126] @ be16 ?n
      else [0x80 OR byte_of opcode, 127] @ be32 0 @ be32 ?n)"
  have zero: "be_value 0 (be32 0) = 0" by (simp add: be32_def)
  have "frame_length (hdr @ payload @ rest) (unat (hdr ! 1)) = Parsed (length hdr, ?n)"
  proof -
    consider "?n < 126" | "126 \<le> ?n" "?n < 2 ^ 16" | "2 ^ 16 \<le> ?n" by linarith
    then show ?thesis
    proof cases
      case 3
      then show ?thesis
        using frame_length_long [OF zero be32_value [of ?n]] assms(2) by (simp add: hdr_def)
    qed (simp_all add: hdr_def frame_length_small frame_length_medium)
  qed
  from client_read_parts [OF refl _ this] show ?thesis
    using assms(1) by (simp add: hdr_def frame_def low_bits split: if_splits)
qed

section \<open>Runs\<close>

lemma ws_run_ok:
  assumes "out_ok B p" and "in_ok p"
  shows "out_ok B (ws_run react es p) \<and> in_ok (ws_run react es p)"
  using assms unfolding ws_run_def by (induction es arbitrary: p) (simp_all add: out_ok_step in_ok_step)

lemma limits_sends [simp]:
  "p_limits (ws_close code reason p) = p_limits p" "p_limits (ws_finish p) = p_limits p"
  "p_limits (ws_call c p) = p_limits p" "p_limits (enqueue_or_terminate w p) = p_limits p"
  by (simp_all add: input_side_eqD [OF input_side_sends(4)] input_side_eqD [OF input_side_sends(5)]
      input_side_eqD [OF input_side_call] input_side_eqD [OF input_side_queue])

lemma ws_step_limits: "p_limits (ws_step react e p) = p_limits p"
proof (cases e)
  case (SocketData c)
  obtain r q where loop: "read_loop react (p\<lparr>p_buffer := p_buffer p @ c\<rparr>) = (r, q)" by fastforce
  from read_loop_limits [OF this] loop SocketData show ?thesis by (simp add: ws_read_def)
next
  case SocketDrain
  have "input_side (ws_flush (p\<lparr>s_pending := 0\<rparr>)) = input_side p"
    using flush_frame [of "p\<lparr>s_pending := 0\<rparr>"] by (simp add: input_side_def)
  from input_side_eqD [OF this] SocketDrain show ?thesis by simp
qed (simp_all add: ws_ping_def set_handlers_def)

lemma ws_run_limits: "p_limits (ws_run react es p) = p_limits p"
  unfolding ws_run_def by (induction es arbitrary: p) (simp_all add: ws_step_limits)

lemma in_ok_new: "in_ok (new_peer limits high pending)"
  by (simp add: in_ok_def fragments_ok_def new_peer_def)

lemma new_peer_limits: "p_limits (new_peer limits high pending) = limits"
  by (simp add: new_peer_def)

lemma closed_run:
  "p_closed p \<Longrightarrow> p_queue p = [] \<Longrightarrow> p_closed (ws_run react es p) \<and> silent (ws_run react es p) = silent p"
proof (induction es arbitrary: p)
  case (Cons e es)
  have step: "p_closed (ws_step react e p)" "silent (ws_step react e p) = silent p"
    using closed_step [OF Cons.prems, of react e] by simp_all
  then have "p_queue (ws_step react e p) = []" using Cons.prems(2) by (simp add: silent_def)
  from Cons.IH [OF step(1) this] step show ?case by (simp add: ws_run_def)
qed (simp add: ws_run_def)

lemma notified_run:
  "notified p \<Longrightarrow> HandlersSet \<notin> set es \<Longrightarrow> notified (ws_run react es p)"
  unfolding ws_run_def by (induction es arbitrary: p) (auto simp: notified_step)

lemma closed_bounds:
  "out_closed B p \<Longrightarrow> p_queue p = [] \<and> s_pending p \<le> B + 127
    \<and> (\<exists>k bye. s_written p = take k (p_accepted p) @ bye \<and> length bye \<le> 1)"
  unfolding out_closed_def by blast

lemma open_bounds:
  "out_open B p \<Longrightarrow> \<not> p_closed p \<Longrightarrow> in_ok p \<Longrightarrow> p_accepted p = s_written p @ p_queue p
    \<and> s_pending p + queue_size (p_queue p) \<le> B \<and> p_queued_bytes p = int (queue_size (p_queue p))
    \<and> queue_size (p_fragments p) \<le> max_message_bytes (p_limits p)
    \<and> length (p_buffer p) < max_message_bytes (p_limits p) + 14"
  by (simp add: out_open_def in_ok_def fragments_ok_def)

subsection \<open>Waiting for a pong\<close>

definition waiting :: "ws_peer \<Rightarrow> bool" where
  "waiting p \<longleftrightarrow> p_closed p \<or> p_awaiting_pong p"

lemma waiting_sends:
  "waiting p \<Longrightarrow> waiting (snd (enqueue w p))" "waiting (ws_close code reason p)" "waiting (ws_terminate p)"
  "waiting (ws_finish p)"
  by (auto simp: waiting_def enqueue_def ws_close_def ws_terminate_def ws_finish_def socket_write_def
       notify_close_def shut_def Let_def)

lemma waiting_queue: "waiting p \<Longrightarrow> waiting (enqueue_or_terminate w p)"
  using waiting_sends(1) [of p w] by (cases "enqueue w p") (simp add: enqueue_or_terminate_def waiting_sends)

lemma waiting_call: "waiting p \<Longrightarrow> waiting (ws_call c p)"
  by (cases c) (auto simp: send_json_def waiting_sends waiting_queue split: sum.splits)

lemma waiting_ping: "waiting (ws_ping r p)"
proof -
  have "waiting (p\<lparr>p_awaiting_pong := True\<rparr>)" by (simp add: waiting_def)
  then show ?thesis by (auto simp: ws_ping_def waiting_sends waiting_queue) (simp add: waiting_def)
qed

lemma awaiting_flush: "p_awaiting_pong (flush_queue ws p) = p_awaiting_pong p"
  by (induction ws p rule: flush_queue.induct) (auto simp: socket_write_def Let_def)

fun is_data :: "ws_event \<Rightarrow> bool" where
  "is_data (SocketData c) = True"
| "is_data _ = False"

lemma waiting_step: "waiting p \<Longrightarrow> \<not> is_data e \<Longrightarrow> waiting (ws_step react e p)"
proof (cases e)
  case SocketDrain
  assume "waiting p"
  then show ?thesis
    using SocketDrain flush_frame [of "p\<lparr>s_pending := 0\<rparr>"] awaiting_flush [of "p_queue p" "p\<lparr>s_pending := 0, p_blocked := False\<rparr>"]
    by (auto simp: waiting_def ws_flush_def)
next
  case (KeepAliveTick r)
  assume "waiting p"
  then show ?thesis using KeepAliveTick by (simp add: waiting_ping)
qed (auto simp: waiting_call waiting_sends, auto simp: waiting_def set_handlers_def)

lemma waiting_run: "waiting p \<Longrightarrow> list_all (\<lambda>e. \<not> is_data e) es \<Longrightarrow> waiting (ws_run react es p)"
  unfolding ws_run_def by (induction es arbitrary: p) (auto simp: waiting_step)

lemma ws_run_append: "ws_run react (es @ fs) p = ws_run react fs (ws_run react es p)"
  by (simp add: ws_run_def)

section \<open>The properties\<close>

text \<open>
  C14: a masked frame of a client, whatever follows it in the buffer, is read back exactly: opcode, FIN
  bit and payload, for payloads of every length class up to the message limit.
\<close>

theorem client_frames_received:
  assumes "sendable m key f"
  shows "read_frame m (client_frame key f @ rest) = Parsed (f, rest)"
  by (rule read_client_frame [OF assms])

theorem client_frames_received_witness:
  "read_frame 200 (client_frame [1, 2, 3, 4] \<lparr>f_opcode = 1, f_fin = True, f_payload = replicate 130 65\<rparr> @ [7])
    = Parsed (\<lparr>f_opcode = 1, f_fin = True, f_payload = replicate 130 65\<rparr>, [7])"
  by (rule client_frames_received) (simp add: sendable_def)

text \<open>
  the stream of frames the peer writes is read back by a client as exactly those frames, in order:
  no payload can shift the boundaries of the frames after it.
\<close>

theorem written_frames_readable:
  assumes "\<And>opcode payload. (opcode, payload) \<in> set fs \<Longrightarrow> opcode < 16 \<and> length payload < 2 ^ 32"
  shows "client_reads (length fs) (concat (List.map (\<lambda>(opcode, payload). frame (byte_of opcode) payload) fs)) = fs"
  using assms
proof (induction fs)
  case (Cons f fs)
  obtain opcode payload where f: "f = (opcode, payload)" by fastforce
  with Cons.prems have "opcode < 16" "length payload < 2 ^ 32" by auto
  note here = client_read_frame [OF this]
  have "client_reads (length fs) (concat (List.map (\<lambda>(opcode, payload). frame (byte_of opcode) payload) fs)) = fs"
    by (rule Cons.IH) (use Cons.prems in auto)
  with f here show ?case by simp
qed simp

theorem written_frames_readable_witness:
  "client_reads 2 (concat [frame (byte_of 1) [72, 105], frame (byte_of 8) (be16 1000)]) = [(1, [72, 105]), (8, be16 1000)]"
proof -
  let ?fs = "[(1 :: nat, [72, 105]), (8, be16 1000)]"
  have "client_reads (length ?fs) (concat (List.map (\<lambda>(opcode, payload). frame (byte_of opcode) payload) ?fs)) = ?fs"
    by (rule written_frames_readable) auto
  then show ?thesis by (simp add: numeral_2_eq_2 del: client_reads.simps)
qed

text \<open>
  C15: reading does not depend on how the transport cuts the stream: handing the chunks to \<open>#read\<close> one
  by one has the effects of handing over their concatenation, except for the bytes a closed peer
  still holds.  In particular the limit on a partial frame never refuses a frame within the limits.
\<close>

theorem reading_ignores_segmentation:
  assumes "cs \<noteq> []"
  shows "ws_same (fold (ws_read react) cs p) (ws_read react (concat cs) p)"
  using assms ws_reads_concat [of react "tl cs" "hd cs" p] by (cases cs) simp_all

theorem reading_ignores_segmentation_witness:
  "let react = (\<lambda>_. ([], False)); p = new_peer \<lparr>max_message_bytes = 64, max_outbound_bytes = 64\<rparr> 16 0 in
    ws_same (fold (ws_read react) [[0x81], [0x80, 1, 2, 3, 4]] p) (ws_read react [0x81, 0x80, 1, 2, 3, 4] p)"
  using reading_ignores_segmentation [of "[[0x81], [0x80, 1, 2, 3, 4]]" "\<lambda>_. ([], False)"
    "new_peer \<lparr>max_message_bytes = 64, max_outbound_bytes = 64\<rparr> 16 0"]
  by (simp add: Let_def)

text \<open>
  C16: after any events, an open peer has handed its accepted frames to the socket in order and
  without loss, the rest being queued; what socket and queue hold never exceeds the outbound limit (or
  the bytes pending when the peer was made), a partial frame and the collected fragments never exceed
  the message limit.  A closed peer holds no queue, and has written a prefix of the accepted frames
  and at most one close frame.
\<close>

theorem peer_bounds:
  "let p = ws_run react es (new_peer limits high pending); bound = max pending (max_outbound_bytes limits) in
    if p_closed p
    then p_queue p = [] \<and> s_pending p \<le> bound + 127
      \<and> (\<exists>k bye. s_written p = take k (p_accepted p) @ bye \<and> length bye \<le> 1)
    else p_accepted p = s_written p @ p_queue p \<and> s_pending p + queue_size (p_queue p) \<le> bound
      \<and> p_queued_bytes p = int (queue_size (p_queue p))
      \<and> queue_size (p_fragments p) \<le> max_message_bytes limits
      \<and> length (p_buffer p) < max_message_bytes limits + 14"
proof -
  let ?p = "ws_run react es (new_peer limits high pending)" and ?B = "max pending (max_outbound_bytes limits)"
  have ok: "out_ok ?B ?p" "in_ok ?p"
    using ws_run_ok [OF out_ok_new in_ok_new, of pending ?B limits react es high] by simp_all
  have limits: "p_limits ?p = limits" by (simp add: ws_run_limits new_peer_limits)
  show ?thesis
  proof (cases "p_closed ?p")
    case True
    with ok(1) have "out_closed ?B ?p" by (simp add: out_ok_def)
    from closed_bounds [OF this] True show ?thesis by (simp add: Let_def)
  next
    case False
    with ok limits open_bounds [of ?B ?p] show ?thesis by (simp add: Let_def out_ok_def)
  qed
qed

text \<open>
  C17: the application that installed its handlers is told of the close exactly once, when the peer
  closes, and a closed peer stays closed and never writes, delivers or notifies again.
\<close>

theorem closes_once:
  assumes "HandlersSet \<notin> set es"
  shows "let p = ws_run react (HandlersSet # es) (new_peer limits high pending) in
    a_closes p = (if p_closed p then 1 else 0)
    \<and> (p_closed p \<longrightarrow> p_closed (ws_run react later p) \<and> silent (ws_run react later p) = silent p)"
proof -
  let ?start = "new_peer limits high pending" and ?B = "max pending (max_outbound_bytes limits)"
  have "notified (set_handlers ?start)" by (simp add: notified_def set_handlers_def new_peer_def)
  from notified_run [OF this assms(1), of react]
  have "notified (ws_run react (HandlersSet # es) ?start)" by (simp add: ws_run_def)
  moreover have "out_ok ?B (ws_run react (HandlersSet # es) ?start)"
    using ws_run_ok [OF out_ok_new in_ok_new] by simp
  ultimately show ?thesis
    using closed_run [of "ws_run react (HandlersSet # es) ?start" react later]
    by (auto simp: Let_def notified_def out_ok_def out_closed_def)
qed

theorem closes_once_witness:
  "a_closes (ws_run (\<lambda>_. ([], False)) [HandlersSet, SocketEnds, SocketEnds]
     (new_peer \<lparr>max_message_bytes = 10, max_outbound_bytes = 10\<rparr> 16 0)) = 1"
proof -
  let ?p = "ws_run (\<lambda>_. ([], False)) [HandlersSet, SocketEnds, SocketEnds]
     (new_peer \<lparr>max_message_bytes = 10, max_outbound_bytes = 10\<rparr> 16 0)"
  have "p_closed ?p"
    by (simp add: ws_run_def ws_finish_def notify_close_def shut_def set_handlers_def new_peer_def)
  moreover have "let p = ?p in a_closes p = (if p_closed p then 1 else 0)
    \<and> (p_closed p \<longrightarrow> p_closed (ws_run (\<lambda>_. ([], False)) [] p) \<and> silent (ws_run (\<lambda>_. ([], False)) [] p) = silent p)"
    by (rule closes_once) simp
  ultimately show ?thesis unfolding Let_def by simp
qed

text \<open>
  C18: a client from which nothing arrives is disconnected within two keepalive ticks, whatever the
  application sends meanwhile.
\<close>

theorem silent_client_closed:
  assumes "list_all (\<lambda>e. \<not> is_data e) es"
  shows "p_closed (ws_run react (before @ KeepAliveTick r1 # es @ [KeepAliveTick r2]) (new_peer limits high pending))"
proof -
  let ?B = "max pending (max_outbound_bytes limits)"
  let ?p = "ws_run react before (new_peer limits high pending)"
  let ?q = "ws_run react (KeepAliveTick r1 # es) ?p"
  have all: "out_ok ?B (ws_run react fs (new_peer limits high pending))" for fs
    using ws_run_ok [OF out_ok_new in_ok_new] by simp
  have alive: "p_keep_alive (ws_run react fs (new_peer limits high pending))"
    if "\<not> p_closed (ws_run react fs (new_peer limits high pending))" for fs
    using all [of fs] that by (simp add: out_ok_def out_open_def)
  have "waiting (ws_step react (KeepAliveTick r1) ?p)"
    by (cases "p_closed ?p") (simp_all add: alive waiting_ping, simp add: waiting_def)
  from waiting_run [OF this assms, of react] have "waiting ?q" by (simp add: ws_run_def)
  moreover have "p_keep_alive ?q" if "\<not> p_closed ?q"
    using alive [of "before @ KeepAliveTick r1 # es"] that by (simp add: ws_run_append)
  ultimately have "p_closed (ws_step react (KeepAliveTick r2) ?q)"
    by (cases "p_closed ?q") (simp_all add: waiting_def ws_ping_def ws_close_closes)
  moreover have "ws_run react (before @ KeepAliveTick r1 # es @ [KeepAliveTick r2]) (new_peer limits high pending)
    = ws_step react (KeepAliveTick r2) ?q"
    by (simp add: ws_run_def)
  ultimately show ?thesis by simp
qed

theorem silent_client_closed_witness:
  "p_closed (ws_run (\<lambda>_. ([], False))
     [SocketData [], KeepAliveTick [1, 2, 3, 4], Called (CallSend JsNull), KeepAliveTick [5, 6, 7, 8]]
     (new_peer \<lparr>max_message_bytes = 64, max_outbound_bytes = 64\<rparr> 16 0))"
  using silent_client_closed [of "[Called (CallSend JsNull)]" "\<lambda>_. ([], False)" "[SocketData []]"] by simp

end
