(* ===== verification/Machine.thy ===== *)
theory Machine
  imports Prelude
begin

text \<open>
  What the event-driven components share: a step function and what it keeps.  A fact that every
  step keeps holds after every run, and a run only moves along the steps' relation.
\<close>

locale machine =
  fixes step :: "'e \<Rightarrow> 's \<Rightarrow> 's"
    and good :: "'s \<Rightarrow> bool"
  assumes keeps: "good s \<Longrightarrow> good (step e s)"
begin

lemma run: "good s \<Longrightarrow> good (fold step es s)"
  by (induction es arbitrary: s) (simp_all add: keeps)

lemma run_prefix: "good s \<Longrightarrow> good (fold step (take i es) s)"
  by (rule run)

end

text \<open>A machine with an order its steps go up in.\<close>

locale monotone_machine = machine step good
  for step :: "'e \<Rightarrow> 's \<Rightarrow> 's" and good :: "'s \<Rightarrow> bool" +
  fixes below :: "'s \<Rightarrow> 's \<Rightarrow> bool"
  assumes refl: "below s s"
    and trans: "below s t \<Longrightarrow> below t u \<Longrightarrow> below s u"
    and up: "good s \<Longrightarrow> below s (step e s)"
begin

lemma run_up: "good s \<Longrightarrow> below s (fold step es s)"
proof (induction es arbitrary: s)
  case (Cons e es)
  from trans [OF up [OF Cons.prems] Cons.IH [OF keeps [OF Cons.prems]]] show ?case by simp
qed (simp add: refl)

end

end
