(* ===== verification/RpcHub.thy ===== *)
theory RpcHub
  imports Json Machine
begin

text \<open>
  The attachment hub of \<open>src/rpc-attachments.ts\<close>: the connections of one session generation, the
  controller role, the retained events and their replay, and the dispatch of client frames.

  A connection is in \<open>#connections\<close> exactly while its peer is open, because closing the peer runs
  \<open>#remove\<close>.  What a \<open>sendJson\<close> does to the peer (sent, closed by backpressure, refused by the encoder)
  is given per call by the environment, as are the snapshot, the answers of the controller and of
  its UI requests.  \<open>h_log\<close>, \<open>h_handled\<close>, \<open>h_cancels\<close> and \<open>h_released\<close> record effects.
\<close>

section \<open>Types\<close>

datatype rpc_role = Controller | Observer

datatype rpc_protocol = RawRpc | FramedRpc

record rpc_limits =
  max_hubs :: int
  max_replay_events :: int
  max_replay_bytes :: int
  max_total_replay_bytes :: int
  rpc_max_message_bytes :: int
  max_outbound_bytes_per_connection :: int
  max_in_flight :: int
  rpc_keep_alive_ms :: int
  residency_lease_ttl_ms :: int

record rpc_cursor =
  cu_host :: string
  cu_session :: string
  cu_generation :: int
  cu_sequence :: nat

record retained_event =
  re_sequence :: nat
  re_cursor :: rpc_cursor
  re_event :: json
  re_bytes :: nat

text \<open>The frames the hub sends; the snapshot of \<open>attach_ready\<close> is left out.\<close>

datatype gap_reason = Cursor_expired | Host_restarted | Generation_changed

datatype rpc_frame =
    RawFrame json
  | EventFrame rpc_cursor nat json
  | ReadyFrame rpc_role rpc_cursor "rpc_cursor option"
  | GapFrame gap_reason rpc_cursor "rpc_cursor option" rpc_cursor
  | ControlFrame string "string option"
  | ResponseFrame json
  | TreeFrame string json

text \<open>A promise the controller has not settled yet.\<close>

datatype pending_call = PendingCommand json | PendingTree string

record rpc_conn =
  c_protocol :: rpc_protocol
  c_role :: rpc_role
  c_ready :: bool
  c_in_flight :: nat
  c_cursor :: "rpc_cursor option"
  c_denied :: bool
  c_boundary :: "nat option"
  c_pending :: "pending_call list"

datatype send_outcome = SendOk | SendCloses | SendFails string

record rpc_hub =
  h_host :: string
  h_session :: string
  h_generation :: int
  h_limits :: rpc_limits
  h_conns :: "(string, rpc_conn) jsmap"
  h_events :: "retained_event list"
  h_controller :: "string option"
  h_sequence :: nat
  h_replay_bytes :: int
  h_disposed :: bool
  h_outcomes :: "send_outcome list"
  h_log :: "(string \<times> rpc_frame) list"
  h_handled :: "(string \<times> rpc_role \<times> json) list"
  h_cancels :: nat
  h_released :: "string list"

definition new_hub :: "string \<Rightarrow> string \<Rightarrow> int \<Rightarrow> rpc_limits \<Rightarrow> rpc_hub" where
  "new_hub host session generation limits =
     \<lparr>h_host = host, h_session = session, h_generation = generation, h_limits = limits, h_conns = [],
      h_events = [], h_controller = None, h_sequence = 0, h_replay_bytes = 0, h_disposed = False,
      h_outcomes = [], h_log = [], h_handled = [], h_cancels = 0, h_released = []\<rparr>"

definition hub_has_controller :: "rpc_hub \<Rightarrow> bool" where
  "hub_has_controller h \<longleftrightarrow> h_controller h \<noteq> None"

definition connection_count :: "rpc_hub \<Rightarrow> nat" where
  "connection_count h = length (h_conns h)"

section \<open>Client frames\<close>

definition read_only_commands :: "string list" where
  "read_only_commands = [''get_state'', ''get_available_models'', ''get_session_stats'', ''get_fork_messages'',
     ''get_entries'', ''get_tree'', ''get_last_assistant_text'', ''get_messages'', ''get_commands'']"

definition kind_is :: "string \<Rightarrow> json \<Rightarrow> bool" where
  "kind_is k v \<longleftrightarrow> is_record v \<and> field v ''kind'' = Some (JStr k)"

fun correlation_pattern :: "string \<Rightarrow> bool" where
  "correlation_pattern [] = False"
| "correlation_pattern (c # cs) \<longleftrightarrow>
     is_alnum c \<and> length cs \<le> 255 \<and> list_all (\<lambda>d. is_alnum d \<or> d \<in> set ''._:-'') cs"

definition is_command_frame :: "json \<Rightarrow> bool" where
  "is_command_frame v \<longleftrightarrow> kind_is ''command'' v \<and> is_record_field (field v ''command'')"

definition is_extension_ui_response :: "json \<Rightarrow> bool" where
  "is_extension_ui_response v \<longleftrightarrow>
     is_record v \<and> field v ''type'' = Some (JStr ''extension_ui_response'') \<and> as_string (field v ''id'') \<noteq> None"

definition is_extension_ui_response_frame :: "json \<Rightarrow> bool" where
  "is_extension_ui_response_frame v \<longleftrightarrow> kind_is ''extension_ui_response'' v
     \<and> (case field v ''response'' of Some r \<Rightarrow> is_extension_ui_response r | None \<Rightarrow> False)"

definition is_tree_navigate_frame :: "json \<Rightarrow> bool" where
  "is_tree_navigate_frame v \<longleftrightarrow> kind_is ''tree_navigate'' v
     \<and> (case as_string (field v ''correlationId'') of Some s \<Rightarrow> correlation_pattern s | None \<Rightarrow> False)
     \<and> is_record_field (field v ''request'')"

definition is_control_frame :: "json \<Rightarrow> bool" where
  "is_control_frame v \<longleftrightarrow> kind_is ''control'' v
     \<and> as_string (field v ''action'') \<in> {Some ''request_control'', Some ''release_control''}"

definition is_extension_ui_request :: "json \<Rightarrow> bool" where
  "is_extension_ui_request v \<longleftrightarrow> is_record v \<and> field v ''type'' = Some (JStr ''extension_ui_request'')"

definition rpc_type :: "json \<Rightarrow> string" where
  "rpc_type v = (if is_record v then (case as_string (field v ''type'') of Some t \<Rightarrow> t | None \<Rightarrow> ''unknown'')
                 else ''unknown'')"

definition denied_response :: "json \<Rightarrow> string \<Rightarrow> json" where
  "denied_response v err =
     (let r = (if is_record v then (case field v ''response'' of Some w \<Rightarrow> if is_record w then w else v | None \<Rightarrow> v)
               else v) in
      JObj ([(''type'', JStr ''response''), (''command'', JStr (rpc_type r)), (''success'', JBool False)]
        @ (case as_string (field r ''id'') of Some i \<Rightarrow> [(''id'', JStr i)] | None \<Rightarrow> [])
        @ [(''error'', JStr err)]))"

definition overloaded_response :: "json \<Rightarrow> json" where
  "overloaded_response v = denied_response v ''rpc_in_flight_capacity''"

definition tree_error :: "string \<Rightarrow> bool \<Rightarrow> json" where
  "tree_error code retryable =
     JObj [(''error'', JObj [(''code'', JStr code), (''retryable'', JBool retryable)])]"

section \<open>Sizes of outputs\<close>

text \<open>An output of the controller: plain JSON data, or something the encoder refuses, of this type.\<close>

datatype rpc_output = PlainOutput json | OtherOutput string

definition encoded_line_size :: "json \<Rightarrow> int" where
  "encoded_line_size v = int (compact_size v) + 1"

definition event_dropped :: "string \<Rightarrow> string \<Rightarrow> json" where
  "event_dropped original code =
     JObj [(''type'', JStr ''rpc_event_dropped''), (''originalType'', JStr original),
           (''error'', JObj [(''code'', JStr code)])]"

definition safe_output :: "rpc_output \<Rightarrow> int \<Rightarrow> json" where
  "safe_output out max_bytes =
     (case out of
        PlainOutput v \<Rightarrow>
          if encoded_line_size v \<le> max 1 (max_bytes - 2048) then v
          else event_dropped (rpc_type v) ''outbound_record_too_large''
      | OtherOutput t \<Rightarrow> event_dropped t ''outbound_not_serializable'')"

definition encoded_bytes :: "json \<Rightarrow> int \<Rightarrow> nat" where
  "encoded_bytes v max_bytes = (if encoded_line_size v \<le> max_bytes then nat (encoded_line_size v) else 0)"

section \<open>Sending\<close>

definition cancel_pending_ui :: "rpc_hub \<Rightarrow> rpc_hub" where
  "cancel_pending_ui h = h\<lparr>h_cancels := h_cancels h + 1\<rparr>"

definition hub_remove :: "string \<Rightarrow> rpc_hub \<Rightarrow> rpc_hub" where
  "hub_remove i h =
     (if \<not> map_has (h_conns h) i then h
      else
        (let h1 = h\<lparr>h_conns := map_del (h_conns h) i, h_released := h_released h @ [i]\<rparr> in
         if h_controller h1 = Some i then cancel_pending_ui (h1\<lparr>h_controller := None\<rparr>) else h1))"

text \<open>Closing a peer runs its close handler.\<close>

definition close_conn :: "string \<Rightarrow> rpc_hub \<Rightarrow> rpc_hub" where
  "close_conn i h = hub_remove i h"

fun next_outcome :: "send_outcome list \<Rightarrow> send_outcome" where
  "next_outcome [] = SendOk"
| "next_outcome (x # xs) = x"

text \<open>\<open>connection.peer.sendJson(value)\<close>: the failure it returns.\<close>

definition peer_send :: "string \<Rightarrow> rpc_frame \<Rightarrow> rpc_hub \<Rightarrow> string option \<times> rpc_hub" where
  "peer_send i frame h =
     (if \<not> map_has (h_conns h) i then (None, h)
      else
        (let h1 = h\<lparr>h_outcomes := tl (h_outcomes h)\<rparr> in
         case next_outcome (h_outcomes h) of
           SendOk \<Rightarrow> (None, h1\<lparr>h_log := h_log h1 @ [(i, frame)]\<rparr>)
         | SendCloses \<Rightarrow> (None, close_conn i h1)
         | SendFails code \<Rightarrow> (Some code, h1)))"

definition hub_send :: "string \<Rightarrow> rpc_frame \<Rightarrow> (string \<Rightarrow> rpc_frame) option \<Rightarrow> rpc_hub \<Rightarrow> rpc_hub" where
  "hub_send i frame fallback h =
     (case peer_send i frame h of
        (None, h1) \<Rightarrow> h1
      | (Some code, h1) \<Rightarrow>
          (case fallback of
             None \<Rightarrow> close_conn i h1
           | Some f \<Rightarrow>
               (case peer_send i (f code) h1 of
                  (None, h2) \<Rightarrow> h2
                | (Some _, h2) \<Rightarrow> close_conn i h2)))"

definition response_frame :: "rpc_protocol \<Rightarrow> json \<Rightarrow> rpc_frame" where
  "response_frame protocol response = (case protocol of RawRpc \<Rightarrow> RawFrame response | FramedRpc \<Rightarrow> ResponseFrame response)"

text \<open>The response sent when the response itself cannot be encoded.\<close>

definition fallback_response :: "json \<Rightarrow> string \<Rightarrow> json" where
  "fallback_response response code =
     JObj ([(''type'', JStr ''response'')]
       @ (case field response ''command'' of Some c \<Rightarrow> [(''command'', c)] | None \<Rightarrow> [])
       @ [(''success'', JBool False)]
       @ (case field response ''id'' of Some i \<Rightarrow> [(''id'', i)] | None \<Rightarrow> [])
       @ [(''error'', JStr code)])"

definition send_response :: "string \<Rightarrow> rpc_protocol \<Rightarrow> json \<Rightarrow> rpc_hub \<Rightarrow> rpc_hub" where
  "send_response i protocol response h =
     hub_send i (response_frame protocol response)
       (Some (\<lambda>code. response_frame protocol (fallback_response response code))) h"

definition send_event :: "string \<Rightarrow> rpc_protocol \<Rightarrow> retained_event \<Rightarrow> rpc_hub \<Rightarrow> rpc_hub" where
  "send_event i protocol e h =
     hub_send i
       (case protocol of
          RawRpc \<Rightarrow> RawFrame (re_event e)
        | FramedRpc \<Rightarrow> EventFrame (re_cursor e) (re_sequence e) (re_event e)) None h"

section \<open>Cursors and replay\<close>

definition hub_cursor :: "rpc_hub \<Rightarrow> nat \<Rightarrow> rpc_cursor" where
  "hub_cursor h n = \<lparr>cu_host = h_host h, cu_session = h_session h, cu_generation = h_generation h, cu_sequence = n\<rparr>"

definition oldest_cursor :: "rpc_hub \<Rightarrow> rpc_cursor option" where
  "oldest_cursor h = (case h_events h of e # _ \<Rightarrow> Some (re_cursor e) | [] \<Rightarrow> None)"

text \<open>The test of \<open>#replayDecision\<close> for a requested cursor.\<close>

definition gap_reason_of :: "rpc_hub \<Rightarrow> rpc_cursor \<Rightarrow> gap_reason option" where
  "gap_reason_of h requested =
     (if cu_host requested \<noteq> h_host h then Some Host_restarted
      else if cu_session requested \<noteq> h_session h \<or> cu_generation requested \<noteq> h_generation h
      then Some Generation_changed
      else if cu_sequence requested > h_sequence h
        \<or> (case h_events h of e # _ \<Rightarrow> int (cu_sequence requested) < int (re_sequence e) - 1 | [] \<Rightarrow> False)
      then Some Cursor_expired
      else None)"

definition replay_decision :: "rpc_hub \<Rightarrow> rpc_cursor option \<Rightarrow> nat \<Rightarrow> nat \<times> rpc_frame option" where
  "replay_decision h requested boundary =
     (case requested of
        None \<Rightarrow> (boundary, None)
      | Some c \<Rightarrow>
          (case gap_reason_of h c of
             None \<Rightarrow> (cu_sequence c, None)
           | Some r \<Rightarrow> (boundary, Some (GapFrame r c (oldest_cursor h) (hub_cursor h boundary)))))"

section \<open>Attaching\<close>

definition set_conn :: "string \<Rightarrow> rpc_conn \<Rightarrow> rpc_hub \<Rightarrow> rpc_hub" where
  "set_conn i c h = h\<lparr>h_conns := map_set (h_conns h) i c\<rparr>"

definition update_conn :: "string \<Rightarrow> (rpc_conn \<Rightarrow> rpc_conn) \<Rightarrow> rpc_hub \<Rightarrow> rpc_hub" where
  "update_conn i f h = (case map_get (h_conns h) i of Some c \<Rightarrow> set_conn i (f c) h | None \<Rightarrow> h)"

text \<open>\<open>add\<close> up to its first \<open>await\<close>.\<close>

definition hub_add :: "string \<Rightarrow> rpc_protocol \<Rightarrow> rpc_role \<Rightarrow> rpc_cursor option \<Rightarrow> rpc_hub \<Rightarrow> rpc_hub" where
  "hub_add i protocol requested_role requested_cursor h =
     (if h_disposed h then h\<lparr>h_released := h_released h @ [i]\<rparr>
      else
        (let granted = (requested_role = Controller \<and> \<not> hub_has_controller h);
             conn = \<lparr>c_protocol = protocol, c_role = (if granted then Controller else Observer),
                     c_ready = (protocol = RawRpc), c_in_flight = 0, c_cursor = requested_cursor,
                     c_denied = (requested_role = Controller \<and> \<not> granted), c_boundary = None, c_pending = []\<rparr>;
             h1 = (if granted then h\<lparr>h_controller := Some i\<rparr> else h)
         in set_conn i conn h1))"

text \<open>\<open>#snapshot\<close>: the boundary, or the failure that closes the peer.\<close>

definition hub_snapshot :: "string \<Rightarrow> bool \<Rightarrow> rpc_hub \<Rightarrow> rpc_hub" where
  "hub_snapshot i ok h =
     (case map_get (h_conns h) i of
        Some c \<Rightarrow>
          if c_protocol c = FramedRpc \<and> \<not> c_ready c \<and> c_boundary c = None then
            (if ok then set_conn i (c\<lparr>c_boundary := Some (h_sequence h)\<rparr>) h else close_conn i h)
          else h
      | None \<Rightarrow> h)"

fun send_events :: "string \<Rightarrow> nat \<Rightarrow> retained_event list \<Rightarrow> rpc_hub \<Rightarrow> rpc_hub" where
  "send_events i after [] h = h"
| "send_events i after (e # es) h =
     send_events i after es (if re_sequence e > after then send_event i FramedRpc e h else h)"

text \<open>The rest of \<open>#initializeFramed\<close> and of \<open>add\<close>, once the snapshot is there.\<close>

definition hub_initialize :: "string \<Rightarrow> rpc_hub \<Rightarrow> rpc_hub" where
  "hub_initialize i h =
     (case map_get (h_conns h) i of
        None \<Rightarrow> h
      | Some c \<Rightarrow>
          (case c_boundary c of
             None \<Rightarrow> h
           | Some boundary \<Rightarrow>
               if c_ready c then h
               else
                 (let (after, gap) = replay_decision h (c_cursor c) boundary;
                      h1 = (case gap of Some g \<Rightarrow> hub_send i g None h | None \<Rightarrow> h);
                      h2 = hub_send i (ReadyFrame (c_role c) (hub_cursor h1 boundary) (oldest_cursor h1)) None h1;
                      h3 = send_events i after (h_events h2) h2;
                      h4 = update_conn i (\<lambda>d. d\<lparr>c_ready := True\<rparr>) h3
                  in if c_denied c then hub_send i (ControlFrame ''control_denied'' (Some ''controller_busy'')) None h4
                     else h4)))"

section \<open>Client messages\<close>

definition handle_control :: "string \<Rightarrow> string \<Rightarrow> rpc_hub \<Rightarrow> rpc_hub" where
  "handle_control i action h =
     (if action = ''request_control'' then
        (if h_controller h = None \<or> h_controller h = Some i then
           hub_send i (ControlFrame ''control_granted'' None) None
             (update_conn i (\<lambda>c. c\<lparr>c_role := Controller\<rparr>) (h\<lparr>h_controller := Some i\<rparr>))
         else hub_send i (ControlFrame ''control_denied'' (Some ''controller_busy'')) None h)
      else if action = ''release_control'' \<and> h_controller h = Some i then
        hub_send i (ControlFrame ''release_control'' (Some ''released'')) None
          (cancel_pending_ui (update_conn i (\<lambda>c. c\<lparr>c_role := Observer\<rparr>) (h\<lparr>h_controller := None\<rparr>)))
      else h)"

text \<open>\<open>accepts\<close> is the answer of \<open>respondToExtensionUi\<close>.\<close>

definition handle_extension_ui_response :: "string \<Rightarrow> rpc_conn \<Rightarrow> bool \<Rightarrow> rpc_hub \<Rightarrow> rpc_hub" where
  "handle_extension_ui_response i c accepts h =
     (let accepted = (c_role c = Controller \<and> accepts) in
      send_response i (c_protocol c)
        (JObj ([(''type'', JStr ''response''), (''command'', JStr ''extension_ui_response''), (''success'', JBool accepted)]
          @ (if accepted then []
             else [(''error'', JStr (if c_role c = Controller then ''unknown_ui_request'' else ''controller_required''))]))) h)"

definition dispatch :: "string \<Rightarrow> json \<Rightarrow> pending_call \<Rightarrow> rpc_hub \<Rightarrow> rpc_hub" where
  "dispatch i v call h =
     (case map_get (h_conns h) i of
        None \<Rightarrow> h
      | Some c \<Rightarrow>
          set_conn i (c\<lparr>c_in_flight := c_in_flight c + 1, c_pending := c_pending c @ [call]\<rparr>)
            (h\<lparr>h_handled := h_handled h @ [(i, c_role c, v)]\<rparr>))"

definition correlation_of :: "json \<Rightarrow> string" where
  "correlation_of v = (case as_string (field v ''correlationId'') of Some s \<Rightarrow> s | None \<Rightarrow> [])"

definition handle_tree_navigate :: "string \<Rightarrow> rpc_conn \<Rightarrow> json \<Rightarrow> rpc_hub \<Rightarrow> rpc_hub" where
  "handle_tree_navigate i c v h =
     (if c_role c \<noteq> Controller then hub_send i (TreeFrame (correlation_of v) (tree_error ''controller_required'' True)) None h
      else dispatch i v (PendingTree (correlation_of v)) h)"

text \<open>\<open>#onMessage\<close>, for the parsed text (\<open>None\<close> where \<open>JSON.parse\<close> throws).\<close>

definition hub_message :: "string \<Rightarrow> json option \<Rightarrow> bool \<Rightarrow> rpc_hub \<Rightarrow> rpc_hub" where
  "hub_message i parsed accepts h =
     (case map_get (h_conns h) i of
        None \<Rightarrow> h
      | Some c \<Rightarrow>
          (case parsed of
             None \<Rightarrow> close_conn i h
           | Some v \<Rightarrow>
               if int (c_in_flight c) \<ge> max_in_flight (h_limits h) then
                 (if c_protocol c = FramedRpc \<and> is_tree_navigate_frame v
                  then hub_send i (TreeFrame (correlation_of v) (tree_error ''rpc_in_flight_capacity'' True)) None h
                  else send_response i (c_protocol c) (overloaded_response v) h)
               else if c_protocol c = FramedRpc \<and> is_control_frame v then
                 (case as_string (field v ''action'') of Some a \<Rightarrow> handle_control i a h | None \<Rightarrow> h)
               else if c_protocol c = FramedRpc \<and> is_extension_ui_response_frame v then
                 handle_extension_ui_response i c accepts h
               else if c_protocol c = FramedRpc \<and> is_tree_navigate_frame v then
                 handle_tree_navigate i c v h
               else
                 (case (if c_protocol c = FramedRpc \<and> is_command_frame v then field v ''command''
                        else if c_protocol c = RawRpc then Some v else None) of
                    None \<Rightarrow> close_conn i h
                  | Some command \<Rightarrow>
                      if is_extension_ui_response command then handle_extension_ui_response i c accepts h
                      else if c_role c \<noteq> Controller \<and> rpc_type command \<notin> set read_only_commands then
                        send_response i (c_protocol c) (denied_response command ''controller_required'') h
                      else dispatch i command (PendingCommand command) h)))"

text \<open>A promise of the controller settles: with a value, or rejected.\<close>

definition settle_frame :: "pending_call \<Rightarrow> json option \<Rightarrow> rpc_protocol \<Rightarrow> string \<Rightarrow> rpc_hub \<Rightarrow> rpc_hub" where
  "settle_frame call answer protocol i h =
     (case call of
        PendingCommand command \<Rightarrow>
          send_response i protocol
            (case answer of Some r \<Rightarrow> r | None \<Rightarrow> denied_response command ''rpc_dispatch_failed'') h
      | PendingTree correlation \<Rightarrow>
          hub_send i (TreeFrame correlation
            (case answer of Some r \<Rightarrow> JObj [(''result'', r)] | None \<Rightarrow> tree_error ''tree_navigation_failed'' False)) None h)"

definition drop_nth :: "nat \<Rightarrow> 'a list \<Rightarrow> 'a list" where
  "drop_nth n xs = take n xs @ drop (Suc n) xs"

definition hub_settle :: "string \<Rightarrow> nat \<Rightarrow> json option \<Rightarrow> rpc_hub \<Rightarrow> rpc_hub" where
  "hub_settle i n answer h =
     (case map_get (h_conns h) i of
        None \<Rightarrow> h
      | Some c \<Rightarrow>
          if n < length (c_pending c) then
            update_conn i (\<lambda>d. d\<lparr>c_in_flight := c_in_flight d - 1, c_pending := drop_nth n (c_pending d)\<rparr>)
              (settle_frame (c_pending c ! n) answer (c_protocol c) i h)
          else h)"

section \<open>Publishing\<close>

text \<open>The loop that shifts events off until both limits hold.\<close>

fun evict :: "int \<Rightarrow> int \<Rightarrow> retained_event list \<Rightarrow> int \<Rightarrow> retained_event list \<times> int" where
  "evict max_events max_bytes [] bytes = ([], bytes)"
| "evict max_events max_bytes (e # es) bytes =
     (if int (length (e # es)) > max_events \<or> bytes > max_bytes
      then evict max_events max_bytes es (bytes - int (re_bytes e))
      else (e # es, bytes))"

fun publish_to :: "retained_event \<Rightarrow> string list \<Rightarrow> rpc_hub \<Rightarrow> rpc_hub" where
  "publish_to e [] h = h"
| "publish_to e (i # is) h =
     publish_to e is
       (case map_get (h_conns h) i of
          Some c \<Rightarrow> if c_ready c then send_event i (c_protocol c) e h else h
        | None \<Rightarrow> h)"

definition retain :: "json \<Rightarrow> rpc_hub \<Rightarrow> retained_event \<times> rpc_hub" where
  "retain event h =
     (let n = h_sequence h + 1;
          e = \<lparr>re_sequence = n, re_cursor = hub_cursor h n, re_event = event,
               re_bytes = encoded_bytes event (rpc_max_message_bytes (h_limits h))\<rparr>;
          (es, bytes) = evict (max_replay_events (h_limits h)) (max_replay_bytes (h_limits h))
            (h_events h @ [e]) (h_replay_bytes h + int (re_bytes e))
      in (e, h\<lparr>h_sequence := n, h_events := es, h_replay_bytes := bytes\<rparr>))"

definition hub_publish :: "rpc_output \<Rightarrow> rpc_hub \<Rightarrow> rpc_hub" where
  "hub_publish out h =
     (if h_disposed h then h
      else
        (let event = safe_output out (rpc_max_message_bytes (h_limits h));
             (e, h1) = retain event h;
             h2 = publish_to e (map_keys (h_conns h1)) h1
         in if is_extension_ui_request event \<and> h_controller h2 = None then cancel_pending_ui h2 else h2))"

section \<open>Disposal and events\<close>

definition hub_dispose :: "rpc_hub \<Rightarrow> rpc_hub" where
  "hub_dispose h =
     (if h_disposed h then h
      else
        (let h1 = h\<lparr>h_disposed := True\<rparr>;
             h2 = (if h_controller h1 \<noteq> None then cancel_pending_ui h1 else h1);
             h3 = h2\<lparr>h_controller := None\<rparr>;
             h4 = fold (\<lambda>i g. close_conn i (g\<lparr>h_released := h_released g @ [i]\<rparr>)) (map_keys (h_conns h3)) h3
         in h4\<lparr>h_conns := [], h_events := [], h_replay_bytes := 0\<rparr>))"

text \<open>Connection identifiers are fresh UUIDs: one that was used is not attached again.\<close>

datatype hub_call =
    HubAdd string rpc_protocol rpc_role "rpc_cursor option"
  | HubSnapshot string bool
  | HubInitialize string
  | HubMessage string "json option" bool
  | HubSettle string nat "json option"
  | HubOutput rpc_output
  | HubPeerClosed string
  | HubDispose

fun hub_event :: "hub_call \<Rightarrow> rpc_hub \<Rightarrow> rpc_hub" where
  "hub_event (HubAdd i protocol role cursor) h =
     (if map_has (h_conns h) i \<or> i \<in> set (h_released h) then h else hub_add i protocol role cursor h)"
| "hub_event (HubSnapshot i ok) h = hub_snapshot i ok h"
| "hub_event (HubInitialize i) h = hub_initialize i h"
| "hub_event (HubMessage i parsed accepts) h = hub_message i parsed accepts h"
| "hub_event (HubSettle i n answer) h = hub_settle i n answer h"
| "hub_event (HubOutput out) h = hub_publish out h"
| "hub_event (HubPeerClosed i) h = hub_remove i h"
| "hub_event HubDispose h = hub_dispose h"

text \<open>A step: an event, with the outcomes of the sends it makes.\<close>

definition hub_step :: "send_outcome list \<times> hub_call \<Rightarrow> rpc_hub \<Rightarrow> rpc_hub" where
  "hub_step oe h = (case oe of (outcomes, e) \<Rightarrow> hub_event e (h\<lparr>h_outcomes := outcomes\<rparr>))"

end
