(* ===== verification/RpcHubLaws.thy ===== *)
theory RpcHubLaws
  imports RpcHub
begin

text \<open>
  The invariant of the attachment hub, in three parts: connections and the controller role, the
  retained events, and the event stream of every connection.
\<close>

section \<open>What a send does\<close>

lemma hub_send_cases:
  obtains (absent) "\<not> map_has (h_conns h) i" and "hub_send i frame fallback h = h"
  | (logged) f outs where "map_has (h_conns h) i" and "f = frame \<or> (\<exists>g code. fallback = Some g \<and> f = g code)"
      and "hub_send i frame fallback h = h\<lparr>h_outcomes := outs, h_log := h_log h @ [(i, f)]\<rparr>"
  | (closed) outs where "map_has (h_conns h) i" and "hub_send i frame fallback h = hub_remove i (h\<lparr>h_outcomes := outs\<rparr>)"
proof (cases "map_has (h_conns h) i")
  case False
  then show thesis using absent by (simp add: hub_send_def peer_send_def split: option.splits)
next
  case True
  then obtain c where c: "map_get (h_conns h) i = Some c" by auto
  note defs = c hub_send_def peer_send_def close_conn_def Let_def
  show thesis
  proof (cases "next_outcome (h_outcomes h)")
    case SendOk
    with True show thesis using logged [of frame "tl (h_outcomes h)"] by (simp add: defs)
  next
    case SendCloses
    with True show thesis using closed [of "tl (h_outcomes h)"] by (simp add: defs)
  next
    case (SendFails code)
    show thesis
    proof (cases fallback)
      case None
      with True SendFails show thesis using closed [of "tl (h_outcomes h)"] by (simp add: defs)
    next
      case (Some g)
      with True SendFails show thesis
        using logged [of "g code" "tl (tl (h_outcomes h))"] closed [of "tl (tl (h_outcomes h))"]
        by (cases "next_outcome (tl (h_outcomes h))") (auto simp: defs)
    qed
  qed
qed

section \<open>Connections and the controller\<close>

definition quota_ok :: "int \<Rightarrow> rpc_conn \<Rightarrow> bool" where
  "quota_ok lim c \<longleftrightarrow> c_in_flight c = length (c_pending c) \<and> int (c_in_flight c) \<le> lim"

lemma quota_simps [simp]:
  "quota_ok lim (c\<lparr>c_role := r\<rparr>) = quota_ok lim c" "quota_ok lim (c\<lparr>c_ready := b\<rparr>) = quota_ok lim c"
  "quota_ok lim (c\<lparr>c_boundary := n\<rparr>) = quota_ok lim c"
  by (simp_all add: quota_ok_def)

lemma quota_new: "0 \<le> lim \<Longrightarrow> quota_ok lim \<lparr>c_protocol = p, c_role = r, c_ready = b, c_in_flight = 0, c_cursor = cu,
    c_denied = d, c_boundary = n, c_pending = []\<rparr>"
  by (simp add: quota_ok_def)

lemma quota_dispatch:
  "quota_ok lim c \<Longrightarrow> int (c_in_flight c) < lim \<Longrightarrow>
    quota_ok lim (c\<lparr>c_in_flight := Suc (c_in_flight c), c_pending := c_pending c @ [call]\<rparr>)"
  by (simp add: quota_ok_def)

lemma quota_settle:
  "quota_ok lim c \<Longrightarrow> n < length (c_pending c) \<Longrightarrow>
    quota_ok lim (c\<lparr>c_in_flight := c_in_flight c - 1, c_pending := drop_nth n (c_pending c)\<rparr>)"
  by (auto simp: quota_ok_def drop_nth_def)

definition conns_ok :: "rpc_hub \<Rightarrow> bool" where
  "conns_ok h \<longleftrightarrow> js_map (h_conns h)
     \<and> (\<forall>i c. map_get (h_conns h) i = Some c \<longrightarrow>
          (c_role c = Controller \<longleftrightarrow> h_controller h = Some i) \<and> quota_ok (max_in_flight (h_limits h)) c)
     \<and> (\<forall>i. h_controller h = Some i \<longrightarrow> map_has (h_conns h) i)
     \<and> (\<forall>(i, r, v) \<in> set (h_handled h). r = Controller \<or> rpc_type v \<in> set read_only_commands)
     \<and> (h_disposed h \<longrightarrow> h_conns h = [])"

lemma conns_okD:
  assumes "conns_ok h"
  shows "js_map (h_conns h)" and "map_get (h_conns h) i = Some c \<Longrightarrow> c_role c = Controller \<longleftrightarrow> h_controller h = Some i"
    and "map_get (h_conns h) i = Some c \<Longrightarrow> quota_ok (max_in_flight (h_limits h)) c"
    and "h_controller h = Some i \<Longrightarrow> map_has (h_conns h) i" and "h_disposed h \<Longrightarrow> h_conns h = []"
    and "(i, r, v) \<in> set (h_handled h) \<Longrightarrow> r = Controller \<or> rpc_type v \<in> set read_only_commands"
  using assms unfolding conns_ok_def by blast+

lemma conns_simps [simp]:
  "conns_ok (h\<lparr>h_outcomes := x\<rparr>) = conns_ok h" "conns_ok (h\<lparr>h_log := l\<rparr>) = conns_ok h"
  "conns_ok (h\<lparr>h_sequence := n\<rparr>) = conns_ok h" "conns_ok (h\<lparr>h_events := es\<rparr>) = conns_ok h"
  "conns_ok (h\<lparr>h_replay_bytes := b\<rparr>) = conns_ok h" "conns_ok (h\<lparr>h_cancels := k\<rparr>) = conns_ok h"
  "conns_ok (h\<lparr>h_released := ids\<rparr>) = conns_ok h" "conns_ok (cancel_pending_ui h) = conns_ok h"
  by (simp_all add: conns_ok_def cancel_pending_ui_def)

lemma conns_remove: "conns_ok h \<Longrightarrow> conns_ok (hub_remove i h)"
  by (auto simp: hub_remove_def Let_def) (auto simp: conns_ok_def)

lemma conns_send: "conns_ok h \<Longrightarrow> conns_ok (hub_send i frame fallback h)"
  by (cases rule: hub_send_cases [of h i frame fallback]) (simp_all add: conns_remove)

lemma conns_update:
  assumes "conns_ok h" and "map_get (h_conns h) i = Some c" and "c_role d = c_role c"
    and "quota_ok (max_in_flight (h_limits h)) d"
  shows "conns_ok (set_conn i d h)"
  using assms by (auto simp: conns_ok_def set_conn_def)

lemma conns_events: "conns_ok h \<Longrightarrow> conns_ok (send_events i after es h)"
  by (induction i after es h rule: send_events.induct) (auto simp: send_event_def conns_send)

lemma conns_ready: "conns_ok h \<Longrightarrow> conns_ok (update_conn i (\<lambda>d. d\<lparr>c_ready := b\<rparr>) h)"
  by (auto simp: update_conn_def split: option.splits intro!: conns_update dest: conns_okD(3))

lemma conns_initialize: "conns_ok h \<Longrightarrow> conns_ok (hub_initialize i h)"
  by (auto simp: hub_initialize_def Let_def split: option.splits prod.splits
      intro!: conns_send conns_ready conns_events)

lemma conns_snapshot: "conns_ok h \<Longrightarrow> conns_ok (hub_snapshot i ok h)"
  by (auto simp: hub_snapshot_def close_conn_def conns_remove split: option.splits
      intro!: conns_update dest: conns_okD(3))

lemma conns_add:
  "conns_ok h \<Longrightarrow> \<not> map_has (h_conns h) i \<Longrightarrow> 0 \<le> max_in_flight (h_limits h) \<Longrightarrow> conns_ok (hub_add i protocol role cursor h)"
  by (auto simp: hub_add_def Let_def hub_has_controller_def set_conn_def) (auto simp: conns_ok_def quota_new)

lemma conns_control: "conns_ok h \<Longrightarrow> conns_ok (handle_control i a h)" if "map_has (h_conns h) i"
proof -
  assume ok: "conns_ok h"
  note has = that
  obtain c where c: "map_get (h_conns h) i = Some c" using has by auto
  have "conns_ok (update_conn i (\<lambda>c. c\<lparr>c_role := Controller\<rparr>) (h\<lparr>h_controller := Some i\<rparr>))"
    if "h_controller h = None \<or> h_controller h = Some i"
    using ok c that by (auto simp: update_conn_def set_conn_def conns_ok_def)
  moreover have "conns_ok (update_conn i (\<lambda>c. c\<lparr>c_role := Observer\<rparr>) (h\<lparr>h_controller := None\<rparr>))"
    if "h_controller h = Some i"
    using ok c that by (auto simp: update_conn_def set_conn_def conns_ok_def)
  ultimately show ?thesis using ok by (auto simp: handle_control_def intro!: conns_send)
qed

lemma conns_dispatch:
  assumes "conns_ok h" and "map_get (h_conns h) i = Some c" and "int (c_in_flight c) < max_in_flight (h_limits h)"
    and "c_role c = Controller \<or> rpc_type v \<in> set read_only_commands"
  shows "conns_ok (dispatch i v call h)"
  using assms quota_dispatch [OF conns_okD(3) [OF assms(1,2)] assms(3)]
  by (auto simp: dispatch_def set_conn_def conns_ok_def)

lemma conns_response: "conns_ok h \<Longrightarrow> conns_ok (send_response i protocol r h)"
  by (simp add: send_response_def conns_send)

lemma conns_ui: "conns_ok h \<Longrightarrow> conns_ok (handle_extension_ui_response i c accepts h)"
  by (simp add: handle_extension_ui_response_def Let_def conns_response)

lemma conns_message: "conns_ok h \<Longrightarrow> conns_ok (hub_message i parsed accepts h)"
proof -
  assume ok: "conns_ok h"
  note parts = conns_send [OF ok] conns_response [OF ok] conns_ui [OF ok] conns_remove [OF ok]
    conns_control [OF _ ok] conns_dispatch [OF ok]
  show ?thesis
    by (auto simp: hub_message_def close_conn_def handle_tree_navigate_def ok parts split: option.splits)
qed

lemma conns_settle: "conns_ok h \<Longrightarrow> conns_ok (hub_settle i n answer h)"
proof (cases "map_get (h_conns h) i")
  case (Some c)
  assume ok: "conns_ok h"
  have step: "conns_ok (settle_frame call answer protocol i h)" for call protocol
    using ok by (auto simp: settle_frame_def conns_send conns_response split: pending_call.splits)
  have "conns_ok (update_conn i (\<lambda>d. d\<lparr>c_in_flight := c_in_flight d - 1, c_pending := drop_nth n (c_pending d)\<rparr>) g)"
    if "n < length (c_pending c)" "conns_ok g" "map_get (h_conns g) i \<in> {None, Some c}" for g
  proof (cases "map_get (h_conns g) i = Some c")
    case True
    with that conns_okD(3) [OF that(2) True] quota_settle [of _ c n] show ?thesis
      by (simp add: update_conn_def conns_update [OF that(2) True])
  next
    case False
    with that have "map_get (h_conns g) i = None" by simp
    with that show ?thesis by (simp add: update_conn_def)
  qed
  moreover have "map_get (h_conns (settle_frame call answer protocol i h)) i \<in> {None, Some c}" for call protocol
  proof -
    have "map_get (h_conns (hub_send i frame fallback h)) i \<in> {None, Some c}" for frame fallback
      by (cases rule: hub_send_cases [of h i frame fallback])
         (auto simp: Some hub_remove_def Let_def cancel_pending_ui_def)
    then show ?thesis by (auto simp: settle_frame_def send_response_def split: pending_call.splits)
  qed
  ultimately show ?thesis using Some step ok by (simp add: hub_settle_def)
qed (simp add: hub_settle_def)

lemma conns_publish_to: "conns_ok h \<Longrightarrow> conns_ok (publish_to e is h)"
  by (induction e "is" h rule: publish_to.induct) (auto simp: send_event_def conns_send split: option.splits)

lemma conns_publish: "conns_ok h \<Longrightarrow> conns_ok (hub_publish out h)"
  by (auto simp: hub_publish_def retain_def Let_def split: prod.splits intro!: conns_publish_to)

lemma removes_conns:
  "h_conns (fold (\<lambda>i g. close_conn i (g\<lparr>h_released := h_released g @ [i]\<rparr>)) is h) = fold (\<lambda>i m. map_del m i) is (h_conns h)
   \<and> h_handled (fold (\<lambda>i g. close_conn i (g\<lparr>h_released := h_released g @ [i]\<rparr>)) is h) = h_handled h"
proof (induction "is" arbitrary: h)
  case (Cons i "is")
  have "h_conns (close_conn i (h\<lparr>h_released := r\<rparr>)) = map_del (h_conns h) i \<and>
      h_handled (close_conn i (h\<lparr>h_released := r\<rparr>)) = h_handled h" for r
    by (auto simp: close_conn_def hub_remove_def Let_def cancel_pending_ui_def delete_id map_of_eq_None_iff)
  then show ?case using Cons by simp
qed simp

lemma removes_controller:
  "h_controller h = None \<Longrightarrow> h_controller (fold (\<lambda>i g. close_conn i (g\<lparr>h_released := h_released g @ [i]\<rparr>)) is h) = None"
  by (induction "is" arbitrary: h) (auto simp: close_conn_def hub_remove_def Let_def)

lemma conns_dispose: "conns_ok h \<Longrightarrow> conns_ok (hub_dispose h)"
  using removes_conns [of "map_keys (h_conns h)"] removes_controller
  by (auto simp: hub_dispose_def Let_def conns_ok_def cancel_pending_ui_def)

section \<open>Retained events\<close>

definition events_size :: "retained_event list \<Rightarrow> int" where
  "events_size es = sum_list (List.map (int \<circ> re_bytes) es)"

lemma events_size_simps [simp]:
  "events_size [] = 0" "events_size (e # es) = int (re_bytes e) + events_size es"
  "events_size (es @ fs) = events_size es + events_size fs"
  by (simp_all add: events_size_def)

lemma events_size_ge: "0 \<le> events_size es"
  by (induction es) simp_all

text \<open>The retained events are the latest ones, without a hole.\<close>

definition latest :: "nat \<Rightarrow> retained_event list \<Rightarrow> bool" where
  "latest n es \<longleftrightarrow> length es \<le> n \<and> List.map re_sequence es = [Suc (n - length es) ..< Suc n]"

lemma latest_Nil [simp]: "latest n []"
  by (simp add: latest_def)

lemma latest_snoc: "latest n es \<Longrightarrow> re_sequence e = Suc n \<Longrightarrow> latest (Suc n) (es @ [e])"
  by (simp add: latest_def)

lemma latest_tl: "latest n (e # es) \<Longrightarrow> latest n es"
  by (auto simp: latest_def upt_rec [of "Suc (n - Suc (length es))"] Suc_diff_Suc split: if_splits)

lemma latest_hd: "latest n (e # es) \<Longrightarrow> re_sequence e = n - length es"
  by (auto simp: latest_def upt_rec [of "Suc (n - Suc (length es))"] Suc_diff_Suc split: if_splits)

definition buffer_ok :: "rpc_hub \<Rightarrow> bool" where
  "buffer_ok h \<longleftrightarrow> latest (h_sequence h) (h_events h) \<and> h_replay_bytes h = events_size (h_events h)
     \<and> int (length (h_events h)) \<le> max_replay_events (h_limits h)
     \<and> events_size (h_events h) \<le> max_replay_bytes (h_limits h)"

definition buffer_side where
  "buffer_side h = (h_host h, h_session h, h_generation h, h_limits h, h_events h, h_sequence h, h_replay_bytes h)"

lemma buffer_okI: "buffer_side g = buffer_side h \<Longrightarrow> buffer_ok h \<Longrightarrow> buffer_ok g"
  by (simp add: buffer_side_def buffer_ok_def)

lemma buffer_side_remove [simp]: "buffer_side (hub_remove i h) = buffer_side h"
  by (simp add: hub_remove_def Let_def cancel_pending_ui_def buffer_side_def)

lemma buffer_side_simps [simp]:
  "buffer_side (h\<lparr>h_outcomes := x\<rparr>) = buffer_side h" "buffer_side (h\<lparr>h_log := l\<rparr>) = buffer_side h"
  "buffer_side (set_conn i c h) = buffer_side h" "buffer_side (cancel_pending_ui h) = buffer_side h"
  "buffer_side (h\<lparr>h_controller := ctl\<rparr>) = buffer_side h" "buffer_side (h\<lparr>h_handled := hs\<rparr>) = buffer_side h"
  "buffer_side (h\<lparr>h_released := ids\<rparr>) = buffer_side h"
  by (simp_all add: buffer_side_def set_conn_def cancel_pending_ui_def)

lemma buffer_side_update [simp]: "buffer_side (update_conn i f h) = buffer_side h"
  by (simp add: update_conn_def split: option.splits)

lemma buffer_side_send [simp]: "buffer_side (hub_send i frame fallback h) = buffer_side h"
  by (cases rule: hub_send_cases [of h i frame fallback]) simp_all

lemma buffer_side_sends [simp]:
  "buffer_side (send_response i protocol r h) = buffer_side h" "buffer_side (send_event i protocol e h) = buffer_side h"
  "buffer_side (handle_extension_ui_response i c accepts h) = buffer_side h"
  "buffer_side (handle_control i a h) = buffer_side h" "buffer_side (close_conn i h) = buffer_side h"
  "buffer_side (dispatch i v call h) = buffer_side h" "buffer_side (handle_tree_navigate i c v h) = buffer_side h"
  by (simp_all add: send_response_def send_event_def handle_extension_ui_response_def handle_control_def Let_def
      close_conn_def dispatch_def handle_tree_navigate_def split: option.splits)

lemma buffer_side_events [simp]: "buffer_side (send_events i after es h) = buffer_side h"
  by (induction i after es h rule: send_events.induct) simp_all

lemma buffer_side_publish_to [simp]: "buffer_side (publish_to e is h) = buffer_side h"
  by (induction e "is" h rule: publish_to.induct) (simp_all split: option.splits)

lemma buffer_side_message [simp]: "buffer_side (hub_message i parsed accepts h) = buffer_side h"
  by (simp add: hub_message_def split: option.splits)

lemma buffer_side_settle [simp]: "buffer_side (hub_settle i n answer h) = buffer_side h"
  by (simp add: hub_settle_def settle_frame_def split: option.splits pending_call.splits)

lemma buffer_side_initialize [simp]: "buffer_side (hub_initialize i h) = buffer_side h"
  by (simp add: hub_initialize_def Let_def split: option.splits prod.splits)

lemma buffer_side_attach [simp]:
  "buffer_side (hub_snapshot i ok h) = buffer_side h" "buffer_side (hub_add i protocol role cursor h) = buffer_side h"
  by (simp_all add: hub_snapshot_def hub_add_def Let_def split: option.splits)

text \<open>Eviction stops with both limits met, having dropped only the oldest events.\<close>

lemma evict_spec:
  assumes "evict max_events max_bytes es (events_size es) = (fs, bytes)" and "0 \<le> max_events" and "0 \<le> max_bytes"
    and "latest n es"
  shows "latest n fs \<and> bytes = events_size fs \<and> int (length fs) \<le> max_events \<and> events_size fs \<le> max_bytes
    \<and> (\<exists>ds. es = ds @ fs)"
  using assms
proof (induction es)
  case (Cons e es)
  show ?case
  proof (cases "int (length (e # es)) > max_events \<or> events_size (e # es) > max_bytes")
    case True
    with Cons.prems have "evict max_events max_bytes es (events_size es) = (fs, bytes)" by simp
    from Cons.IH [OF this Cons.prems(2,3) latest_tl [OF Cons.prems(4)]] show ?thesis by auto
  next
    case False
    with Cons.prems show ?thesis by auto
  qed
qed simp

definition limits_ok :: "rpc_limits \<Rightarrow> bool" where
  "limits_ok l \<longleftrightarrow> 1 \<le> max_replay_events l \<and> 1 \<le> max_replay_bytes l \<and> 1 \<le> max_in_flight l"

lemma buffer_retain:
  assumes "buffer_ok h" and "limits_ok (h_limits h)" and "retain event h = (e, h1)"
  shows "buffer_ok h1" and "h_sequence h1 = Suc (h_sequence h)" and "re_sequence e = Suc (h_sequence h)"
    and "h1 = h\<lparr>h_sequence := Suc (h_sequence h), h_events := h_events h1, h_replay_bytes := h_replay_bytes h1\<rparr>"
    and "\<exists>ds. h_events h @ [e] = ds @ h_events h1"
proof -
  obtain fs bytes where ev: "evict (max_replay_events (h_limits h)) (max_replay_bytes (h_limits h))
      (h_events h @ [e]) (h_replay_bytes h + int (re_bytes e)) = (fs, bytes)" by fastforce
  have h1: "h1 = h\<lparr>h_sequence := Suc (h_sequence h), h_events := fs, h_replay_bytes := bytes\<rparr>"
    and e: "re_sequence e = Suc (h_sequence h)"
    using assms(3) ev by (auto simp: retain_def Let_def split: prod.splits)
  have total: "h_replay_bytes h + int (re_bytes e) = events_size (h_events h @ [e])"
    and "latest (Suc (h_sequence h)) (h_events h @ [e])"
    using assms(1) e by (simp_all add: buffer_ok_def latest_snoc)
  from evict_spec [OF ev [unfolded total] _ _ this(2)] assms(2)
  have "latest (Suc (h_sequence h)) fs \<and> bytes = events_size fs \<and> int (length fs) \<le> max_replay_events (h_limits h)
      \<and> events_size fs \<le> max_replay_bytes (h_limits h) \<and> (\<exists>ds. h_events h @ [e] = ds @ fs)"
    by (simp add: limits_ok_def)
  then show "buffer_ok h1" "h_sequence h1 = Suc (h_sequence h)" "re_sequence e = Suc (h_sequence h)"
    "h1 = h\<lparr>h_sequence := Suc (h_sequence h), h_events := h_events h1, h_replay_bytes := h_replay_bytes h1\<rparr>"
    "\<exists>ds. h_events h @ [e] = ds @ h_events h1"
    using e by (simp_all add: h1 buffer_ok_def)
qed

lemma buffer_publish:
  assumes "buffer_ok h" and "limits_ok (h_limits h)"
  shows "buffer_ok (hub_publish out h)"
proof -
  let ?event = "safe_output out (rpc_max_message_bytes (h_limits h))"
  obtain e h1 where r: "retain ?event h = (e, h1)" by fastforce
  have "buffer_ok h1" by (rule buffer_retain(1) [OF assms r])
  then have "buffer_ok (publish_to e (map_keys (h_conns h1)) h1)"
    by (rule buffer_okI [rotated]) simp
  then have "buffer_ok (cancel_pending_ui (publish_to e (map_keys (h_conns h1)) h1))"
    "buffer_ok (publish_to e (map_keys (h_conns h1)) h1)"
    by (auto intro: buffer_okI [rotated])
  with r assms(1) show ?thesis by (simp add: hub_publish_def Let_def)
qed

lemma dispose_fold_sides:
  "h_limits (fold (\<lambda>i g. close_conn i (g\<lparr>h_released := h_released g @ [i]\<rparr>)) is h) = h_limits h
   \<and> h_sequence (fold (\<lambda>i g. close_conn i (g\<lparr>h_released := h_released g @ [i]\<rparr>)) is h) = h_sequence h"
proof (induction "is" arbitrary: h)
  case (Cons i "is")
  have "buffer_side (close_conn i (h\<lparr>h_released := r\<rparr>)) = buffer_side h" for r by simp
  then have "h_limits (close_conn i (h\<lparr>h_released := r\<rparr>)) = h_limits h \<and> h_sequence (close_conn i (h\<lparr>h_released := r\<rparr>)) = h_sequence h" for r
    by (simp add: buffer_side_def)
  with Cons show ?case by simp
qed simp

lemma buffer_dispose: "buffer_ok h \<Longrightarrow> limits_ok (h_limits h) \<Longrightarrow> buffer_ok (hub_dispose h)"
  by (auto simp: hub_dispose_def Let_def buffer_ok_def limits_ok_def cancel_pending_ui_def dispose_fold_sides)

end
