(* ===== verification/RpcHubStreams.thy ===== *)
theory RpcHubStreams
  imports RpcHubLaws
begin

text \<open>The event stream of each connection of the hub: consecutive sequence numbers, without a hole.\<close>

section \<open>What was sent\<close>

fun event_number :: "string \<Rightarrow> string \<times> rpc_frame \<Rightarrow> nat option" where
  "event_number i (j, EventFrame c n e) = (if j = i then Some n else None)"
| "event_number i _ = None"

text \<open>The sequence numbers of the event frames sent to a connection, in order.\<close>

definition sent :: "string \<Rightarrow> rpc_hub \<Rightarrow> nat list" where
  "sent i h = List.map_filter (event_number i) (h_log h)"

fun is_event :: "rpc_frame \<Rightarrow> bool" where
  "is_event (EventFrame c n e) = True"
| "is_event _ = False"

lemma event_number_other: "\<not> is_event f \<or> j \<noteq> i \<Longrightarrow> event_number i (j, f) = None"
  by (cases f) auto

text \<open>Consecutive numbers up to the latest one.\<close>

definition gapless :: "nat \<Rightarrow> nat list \<Rightarrow> bool" where
  "gapless n ns \<longleftrightarrow> (\<exists>k\<le>n. ns = [Suc k ..< Suc n])"

definition conn_stream :: "nat \<Rightarrow> rpc_conn \<Rightarrow> nat list \<Rightarrow> bool" where
  "conn_stream n c ns \<longleftrightarrow>
     (\<forall>b. c_boundary c = Some b \<longrightarrow> b \<le> n) \<and> (\<not> c_ready c \<longrightarrow> c_protocol c = FramedRpc)
     \<and> (if c_protocol c = FramedRpc \<and> c_ready c then gapless n ns else ns = [])"

definition stream_at :: "nat \<Rightarrow> string \<Rightarrow> rpc_hub \<Rightarrow> bool" where
  "stream_at n i h \<longleftrightarrow> (\<forall>c. map_get (h_conns h) i = Some c \<longrightarrow> conn_stream n c (sent i h))"

text \<open>A connection that is not there yet has been sent nothing.\<close>

definition log_ok :: "rpc_hub \<Rightarrow> bool" where
  "log_ok h \<longleftrightarrow> (\<forall>i f. (i, f) \<in> set (h_log h) \<longrightarrow> map_has (h_conns h) i \<or> i \<in> set (h_released h))"

definition streams_ok :: "rpc_hub \<Rightarrow> bool" where
  "streams_ok h \<longleftrightarrow> log_ok h \<and> (\<forall>i. stream_at (h_sequence h) i h)"

section \<open>Sends that are no events\<close>

lemma sent_simps [simp]:
  "sent i (h\<lparr>h_outcomes := x\<rparr>) = sent i h" "sent i (set_conn j c h) = sent i h"
  "sent i (h\<lparr>h_controller := ctl\<rparr>) = sent i h" "sent i (cancel_pending_ui h) = sent i h"
  "sent i (h\<lparr>h_handled := hs\<rparr>) = sent i h" "sent i (h\<lparr>h_released := ids\<rparr>) = sent i h"
  "sent i (h\<lparr>h_conns := m\<rparr>) = sent i h" "sent i (h\<lparr>h_cancels := q\<rparr>) = sent i h" "sent i (h\<lparr>h_sequence := s, h_events := es, h_replay_bytes := b\<rparr>) = sent i h"
  by (simp_all add: sent_def set_conn_def cancel_pending_ui_def)

lemma sent_log: "sent i (h\<lparr>h_outcomes := x, h_log := h_log h @ [(j, f)]\<rparr>) =
    sent i h @ (case event_number i (j, f) of Some n \<Rightarrow> [n] | None \<Rightarrow> [])"
  by (simp add: sent_def map_filter_def split: option.splits)

lemma sent_remove [simp]: "sent i (hub_remove j h) = sent i h"
  by (simp add: hub_remove_def Let_def)

lemma sent_update [simp]: "sent i (update_conn j f h) = sent i h"
  by (simp add: update_conn_def split: option.splits)

lemma remove_conns [simp]: "map_get (h_conns (hub_remove j h)) i = (if i = j then None else map_get (h_conns h) i)"
  by (simp add: hub_remove_def Let_def cancel_pending_ui_def)

lemma stream_simps [simp]:
  "stream_at n i (h\<lparr>h_outcomes := x\<rparr>) = stream_at n i h" "stream_at n i (h\<lparr>h_controller := ctl\<rparr>) = stream_at n i h"
  "stream_at n i (cancel_pending_ui h) = stream_at n i h" "stream_at n i (h\<lparr>h_handled := hs\<rparr>) = stream_at n i h"
  "stream_at n i (h\<lparr>h_released := ids\<rparr>) = stream_at n i h"
  "stream_at n i (h\<lparr>h_sequence := s, h_events := es, h_replay_bytes := b\<rparr>) = stream_at n i h"
  by (simp_all add: stream_at_def cancel_pending_ui_def)

lemma stream_remove: "stream_at n i h \<Longrightarrow> stream_at n i (hub_remove j h)"
  by (simp add: stream_at_def)

lemma log_remove: "log_ok h \<Longrightarrow> log_ok (hub_remove j h)"
  by (auto simp: log_ok_def hub_remove_def Let_def cancel_pending_ui_def)

lemma log_simps [simp]:
  "log_ok (h\<lparr>h_outcomes := x\<rparr>) = log_ok h" "log_ok (h\<lparr>h_controller := ctl\<rparr>) = log_ok h"
  "log_ok (cancel_pending_ui h) = log_ok h" "log_ok (h\<lparr>h_handled := hs\<rparr>) = log_ok h"
  "log_ok (h\<lparr>h_sequence := s, h_events := es, h_replay_bytes := b\<rparr>) = log_ok h"
  by (simp_all add: log_ok_def cancel_pending_ui_def)

lemma log_set: "log_ok h \<Longrightarrow> log_ok (set_conn i c h)"
  by (auto simp: log_ok_def set_conn_def)

lemma log_update: "log_ok h \<Longrightarrow> log_ok (update_conn i f h)"
  by (simp add: update_conn_def log_set split: option.splits)

lemma log_send: "log_ok h \<Longrightarrow> log_ok (hub_send i frame fallback h)"
  by (cases rule: hub_send_cases [of h i frame fallback]) (auto simp: log_remove, auto simp: log_ok_def)

text \<open>A connection's data are changed by the events of that connection alone.\<close>

lemma stream_set:
  assumes "stream_at n i h" and "map_get (h_conns h) j = Some c" and "c_boundary d = c_boundary c"
    and "c_protocol d = c_protocol c" and "c_ready d = c_ready c"
  shows "stream_at n i (set_conn j d h)"
proof -
  have "sent i (set_conn j d h) = sent i h" by simp
  moreover have "conn_stream n d ns = conn_stream n c ns" for ns using assms(3-5) by (simp add: conn_stream_def)
  ultimately show ?thesis using assms(1,2) unfolding stream_at_def by (cases "i = j") (auto simp: set_conn_def)
qed

lemma stream_update:
  "stream_at n i h \<Longrightarrow> (\<And>c. c_boundary (f c) = c_boundary c \<and> c_protocol (f c) = c_protocol c \<and> c_ready (f c) = c_ready c)
    \<Longrightarrow> stream_at n i (update_conn j f h)"
  by (auto simp: update_conn_def split: option.splits intro!: stream_set)

definition no_event :: "rpc_frame \<Rightarrow> (string \<Rightarrow> rpc_frame) option \<Rightarrow> bool" where
  "no_event frame fallback \<longleftrightarrow> \<not> is_event frame \<and> (\<forall>g code. fallback = Some g \<longrightarrow> \<not> is_event (g code))"

lemma stream_send:
  assumes "stream_at n i h" and "no_event frame fallback \<or> j \<noteq> i"
  shows "stream_at n i (hub_send j frame fallback h)"
proof (cases rule: hub_send_cases [of h j frame fallback])
  case (logged f outs)
  have "\<not> is_event f \<or> j \<noteq> i" using logged(2) assms(2) by (auto simp: no_event_def)
  then have "sent i (hub_send j frame fallback h) = sent i h"
    by (simp add: logged(3) sent_log event_number_other)
  with assms(1) show ?thesis by (simp add: logged(3) stream_at_def)
qed (use assms in \<open>simp_all add: stream_remove\<close>)

lemma no_event_frames [simp]:
  "no_event (GapFrame a b c d) None" "no_event (ReadyFrame role b c) None" "no_event (ControlFrame act why) None"
  "no_event (TreeFrame corr v) None" "no_event (response_frame protocol r) (Some (\<lambda>code. response_frame protocol (g code)))"
  by (cases protocol; simp add: no_event_def response_frame_def)+

lemma stream_response: "stream_at n i h \<Longrightarrow> stream_at n i (send_response j protocol r h)"
  by (simp add: send_response_def stream_send)

section \<open>One published event\<close>

lemma send_event_other: "stream_at n i h \<Longrightarrow> j \<noteq> i \<Longrightarrow> stream_at n i (send_event j protocol e h)"
  by (simp add: send_event_def stream_send)

lemma send_event_log: "log_ok h \<Longrightarrow> log_ok (send_event j protocol e h)"
  by (simp add: send_event_def log_send)

lemma gapless_snoc: "gapless n ns \<Longrightarrow> gapless (Suc n) (ns @ [Suc n])"
proof -
  assume "gapless n ns"
  then obtain k where "k \<le> n" "ns = [Suc k ..< Suc n]" by (auto simp: gapless_def)
  then have "ns @ [Suc n] = [Suc k ..< Suc (Suc n)]" "k \<le> Suc n" by simp_all
  then show ?thesis unfolding gapless_def by blast
qed

lemma conn_stream_next:
  assumes "conn_stream n c ns" and "c_ready c"
  shows "conn_stream (Suc n) c (ns @ (if c_protocol c = FramedRpc then [Suc n] else []))"
proof (cases "c_protocol c = FramedRpc")
  case True
  with assms have "gapless (Suc n) (ns @ [Suc n])" by (auto simp: conn_stream_def intro: gapless_snoc)
  with True assms show ?thesis by (auto simp: conn_stream_def)
qed (use assms in \<open>auto simp: conn_stream_def\<close>)

lemma send_event_self:
  assumes "stream_at n i h" and "map_get (h_conns h) i = Some c" and "c_ready c" and "re_sequence e = Suc n"
  shows "stream_at (Suc n) i (send_event i (c_protocol c) e h)"
proof (cases rule: hub_send_cases [of h i "case c_protocol c of RawRpc \<Rightarrow> RawFrame (re_event e)
        | FramedRpc \<Rightarrow> EventFrame (re_cursor e) (re_sequence e) (re_event e)" None])
  case (logged f outs)
  have "sent i (send_event i (c_protocol c) e h) = sent i h @ (if c_protocol c = FramedRpc then [Suc n] else [])"
    using logged assms(4) by (cases "c_protocol c") (auto simp: send_event_def sent_log)
  moreover have "conn_stream n c (sent i h)" using assms(1,2) by (simp add: stream_at_def)
  then have "conn_stream (Suc n) c (sent i h @ (if c_protocol c = FramedRpc then [Suc n] else []))"
    using assms(3) by (rule conn_stream_next)
  ultimately show ?thesis
    using assms(2) logged(3) by (simp add: stream_at_def send_event_def)
next
  case (closed outs)
  then show ?thesis by (simp add: send_event_def stream_at_def)
qed (use assms in simp)

lemma publish_streams:
  assumes "distinct is" and "re_sequence e = Suc n" and "log_ok h"
    and "\<And>i. i \<in> set is \<Longrightarrow> stream_at n i h"
  shows "log_ok (publish_to e is h) \<and> (\<forall>i. (i \<in> set is \<longrightarrow> stream_at (Suc n) i (publish_to e is h))
    \<and> (i \<notin> set is \<longrightarrow> (\<forall>m. stream_at m i h \<longrightarrow> stream_at m i (publish_to e is h))))"
  using assms
proof (induction e "is" h rule: publish_to.induct)
  case (2 e j js h)
  define g where "g = (case map_get (h_conns h) j of
          Some c \<Rightarrow> if c_ready c then send_event j (c_protocol c) e h else h
        | None \<Rightarrow> h)"
  have log: "log_ok g" using 2 by (simp add: g_def send_event_log split: option.splits)
  have other: "stream_at m i g" if "i \<noteq> j" "stream_at m i h" for m i
    using that by (simp add: g_def send_event_other split: option.splits)
  have self: "stream_at (Suc n) j g"
  proof (cases "map_get (h_conns h) j")
    case None
    then show ?thesis by (simp add: g_def stream_at_def)
  next
    case (Some c)
    have at: "stream_at n j h" using 2 by simp
    show ?thesis
    proof (cases "c_ready c")
      case True
      with Some send_event_self [OF at Some True] 2 show ?thesis by (simp add: g_def)
    next
      case False
      with Some at show ?thesis by (auto simp: g_def stream_at_def conn_stream_def)
    qed
  qed
  have rest: "stream_at n i g" if "i \<in> set js" for i
    using that 2(2,5) by (intro other) auto
  have "distinct js" using 2(2) by simp
  note IH = 2(1) [folded g_def, OF this 2(3) log rest]
  have "publish_to e (j # js) h = publish_to e js g" by (simp add: g_def)
  then show ?case using IH other self 2(2) by (metis distinct.simps(2) set_ConsD list.set_intros)
qed simp

section \<open>The replay of one connection\<close>

lemma hub_send_self:
  assumes "map_get (h_conns h) i = Some c" and "g = hub_send i frame None h"
  shows "map_get (h_conns g) i = None \<or> map_get (h_conns g) i = Some c
    \<and> sent i g = sent i h @ (case event_number i (i, frame) of Some n \<Rightarrow> [n] | None \<Rightarrow> [])"
proof (cases rule: hub_send_cases [of h i frame None])
  case (logged f outs)
  then show ?thesis using assms by (auto simp: sent_log)
next
  case (closed outs)
  then show ?thesis using assms by simp
qed (use assms in simp)

lemma send_events_self:
  "map_get (h_conns h) i = Some c \<Longrightarrow> g = send_events i after es h \<Longrightarrow>
    map_get (h_conns g) i = None \<or> map_get (h_conns g) i = Some c
    \<and> sent i g = sent i h @ List.map re_sequence (filter (\<lambda>e. after < re_sequence e) es)"
proof (induction i after es h rule: send_events.induct)
  case (2 i after e es h)
  show ?case
  proof (cases "after < re_sequence e")
    case True
    define h1 where "h1 = send_event i FramedRpc e h"
    have one: "map_get (h_conns h1) i = None \<or> map_get (h_conns h1) i = Some c \<and> sent i h1 = sent i h @ [re_sequence e]"
      using hub_send_self [OF 2(2) refl, of "EventFrame (re_cursor e) (re_sequence e) (re_event e)"]
      by (simp add: h1_def send_event_def)
    show ?thesis
    proof (cases "map_get (h_conns h1) i")
      case None
      have "map_get (h_conns (send_events i after es h1)) i = None"
        using None by (induction i after es h1 rule: send_events.induct)
          (auto simp: send_event_def hub_send_def peer_send_def)
      with 2(3) True show ?thesis by (simp add: h1_def)
    next
      case (Some d)
      with one have "map_get (h_conns h1) i = Some c" "sent i h1 = sent i h @ [re_sequence e]" by auto
      with 2(1) 2(3) True show ?thesis by (simp add: h1_def)
    qed
  qed (use 2 in simp)
qed simp

lemma send_events_other: "stream_at n i h \<Longrightarrow> j \<noteq> i \<Longrightarrow> stream_at n i (send_events j after es h)"
  by (induction j after es h rule: send_events.induct) (simp_all add: send_event_other)

lemma send_events_log: "log_ok h \<Longrightarrow> log_ok (send_events j after es h)"
  by (induction j after es h rule: send_events.induct) (simp_all add: send_event_log)

lemma filter_above: "filter (\<lambda>m. a < m) [Suc b ..< k] = [Suc (max a b) ..< k]"
  by (induction k) (auto simp: max_def not_less)

text \<open>Of the latest events, those after a number.\<close>

lemma latest_after:
  assumes "latest n es"
  shows "List.map re_sequence (filter (\<lambda>e. after < re_sequence e) es) = [Suc (max after (n - length es)) ..< Suc n]"
proof -
  have "List.map re_sequence (filter (\<lambda>e. after < re_sequence e) es) = filter (\<lambda>m. after < m) (List.map re_sequence es)"
    by (simp add: filter_map o_def)
  also have "\<dots> = filter (\<lambda>m. after < m) [Suc (n - length es) ..< Suc n]" using assms by (simp add: latest_def)
  also have "\<dots> = [Suc (max after (n - length es)) ..< Suc n]"
    by (rule filter_above)
  finally show ?thesis .
qed

section \<open>Every event keeps the streams\<close>

lemma streams_okI: "log_ok h \<Longrightarrow> (\<And>i. stream_at (h_sequence h) i h) \<Longrightarrow> streams_ok h"
  by (simp add: streams_ok_def)

lemma streams_okD: "streams_ok h \<Longrightarrow> log_ok h \<and> stream_at (h_sequence h) i h"
  by (simp add: streams_ok_def)

lemma sequence_side: "buffer_side g = buffer_side h \<Longrightarrow> h_sequence g = h_sequence h"
  by (simp add: buffer_side_def)

text \<open>An operation that keeps the sequence number keeps the streams pointwise.\<close>

lemma streams_pointwise:
  assumes "streams_ok h" and "buffer_side g = buffer_side h" and "log_ok h \<Longrightarrow> log_ok g"
    and "\<And>i. stream_at (h_sequence h) i h \<Longrightarrow> stream_at (h_sequence h) i g"
  shows "streams_ok g"
  using assms(1,3,4) sequence_side [OF assms(2)] by (simp add: streams_ok_def)

lemma streams_remove: "streams_ok h \<Longrightarrow> streams_ok (hub_remove j h)"
  by (rule streams_pointwise [of h]) (simp_all add: log_remove stream_remove)

lemma streams_send: "streams_ok h \<Longrightarrow> no_event frame fallback \<Longrightarrow> streams_ok (hub_send j frame fallback h)"
  by (rule streams_pointwise [of h]) (simp_all add: log_send stream_send)

lemma streams_response: "streams_ok h \<Longrightarrow> streams_ok (send_response j protocol r h)"
  by (simp add: send_response_def streams_send)

lemma streams_simps [simp]:
  "streams_ok (h\<lparr>h_outcomes := x\<rparr>) = streams_ok h" "streams_ok (h\<lparr>h_controller := ctl\<rparr>) = streams_ok h"
  "streams_ok (cancel_pending_ui h) = streams_ok h" "streams_ok (h\<lparr>h_handled := hs\<rparr>) = streams_ok h"
  by (simp_all add: streams_ok_def) (simp_all add: cancel_pending_ui_def)

lemma streams_set:
  assumes "streams_ok h" and "map_get (h_conns h) j = Some c" and "c_boundary d = c_boundary c"
    and "c_protocol d = c_protocol c" and "c_ready d = c_ready c"
  shows "streams_ok (set_conn j d h)"
  using assms(1) by (rule streams_pointwise) (simp_all add: log_set stream_set [OF _ assms(2-5)])

lemma streams_update:
  assumes "streams_ok h" and "\<And>c. c_boundary (f c) = c_boundary c \<and> c_protocol (f c) = c_protocol c \<and> c_ready (f c) = c_ready c"
  shows "streams_ok (update_conn j f h)"
  using assms(1) by (rule streams_pointwise) (simp_all add: log_update stream_update assms(2))

lemma streams_control: "streams_ok h \<Longrightarrow> streams_ok (handle_control i a h)"
  by (auto simp: handle_control_def intro!: streams_send streams_update)

lemma streams_ui: "streams_ok h \<Longrightarrow> streams_ok (handle_extension_ui_response i c accepts h)"
  by (simp add: handle_extension_ui_response_def Let_def streams_response)

lemma streams_dispatch: "streams_ok h \<Longrightarrow> streams_ok (dispatch i v call h)"
  by (auto simp: dispatch_def intro!: streams_set split: option.splits)

lemma streams_message: "streams_ok h \<Longrightarrow> streams_ok (hub_message i parsed accepts h)"
proof -
  assume ok: "streams_ok h"
  note parts = streams_send [OF ok] streams_response [OF ok] streams_ui [OF ok] streams_remove [OF ok]
    streams_control [OF ok] streams_dispatch [OF ok]
  show ?thesis
    by (auto simp: hub_message_def close_conn_def handle_tree_navigate_def ok parts split: option.splits)
qed

lemma streams_settle: "streams_ok h \<Longrightarrow> streams_ok (hub_settle i n answer h)"
  by (auto simp: hub_settle_def settle_frame_def streams_send streams_response intro!: streams_update
      split: option.splits pending_call.splits)

lemma conn_stream_boundary: "conn_stream n c ns \<Longrightarrow> b \<le> n \<Longrightarrow> conn_stream n (c\<lparr>c_boundary := Some b\<rparr>) ns"
  by (simp add: conn_stream_def)

lemma streams_snapshot: "streams_ok h \<Longrightarrow> streams_ok (hub_snapshot i ok h)"
proof -
  assume s: "streams_ok h"
  have "streams_ok (set_conn i (c\<lparr>c_boundary := Some (h_sequence h)\<rparr>) h)"
    if "map_get (h_conns h) i = Some c" for c
  proof (rule streams_pointwise [OF s])
    fix j assume at: "stream_at (h_sequence h) j h"
    have "sent j (set_conn i (c\<lparr>c_boundary := Some (h_sequence h)\<rparr>) h) = sent j h" by simp
    with at that show "stream_at (h_sequence h) j (set_conn i (c\<lparr>c_boundary := Some (h_sequence h)\<rparr>) h)"
      unfolding stream_at_def using that by (cases "j = i") (auto simp: set_conn_def conn_stream_boundary)
  qed (simp_all add: log_set)
  then show ?thesis
    using s streams_remove [OF s] by (auto simp: hub_snapshot_def close_conn_def split: option.splits)
qed

lemma streams_add:
  assumes "streams_ok h" and "\<not> map_has (h_conns h) i" and "i \<notin> set (h_released h)"
  shows "streams_ok (hub_add i protocol role cursor h)"
proof (cases "h_disposed h")
  case True
  have "streams_ok (h\<lparr>h_released := h_released h @ [i]\<rparr>)"
    by (rule streams_pointwise [OF assms(1)]) (auto simp: log_ok_def)
  with True show ?thesis by (simp add: hub_add_def)
next
  case False
  have quiet: "sent i h = []"
  proof -
    have "event_number i x = None" if "x \<in> set (h_log h)" for x
    proof (cases x)
      case (Pair j f)
      with that assms show ?thesis by (auto simp: streams_ok_def log_ok_def intro!: event_number_other)
    qed
    then show ?thesis by (simp add: sent_def map_filter_def)
  qed
  have "streams_ok (set_conn i c h)" if "c_boundary c = None" "c_ready c = (c_protocol c = RawRpc)" for c :: rpc_conn
  proof (rule streams_pointwise [OF assms(1)])
    fix j assume at: "stream_at (h_sequence h) j h"
    have "sent j (set_conn i c h) = sent j h" by simp
    with at that quiet show "stream_at (h_sequence h) j (set_conn i c h)"
      unfolding stream_at_def
      by (cases "j = i"; cases "c_protocol c") (auto simp: set_conn_def conn_stream_def)
  qed (simp_all add: log_set)
  moreover have "set_conn i c (h\<lparr>h_controller := ctl\<rparr>) = (set_conn i c h)\<lparr>h_controller := ctl\<rparr>" for c ctl
    by (simp add: set_conn_def)
  ultimately show ?thesis using False by (simp add: hub_add_def Let_def)
qed

lemma streams_publish:
  assumes "streams_ok h" and "buffer_ok h" and "limits_ok (h_limits h)" and "conns_ok h"
  shows "streams_ok (hub_publish out h)"
proof -
  let ?event = "safe_output out (rpc_max_message_bytes (h_limits h))"
  obtain e h1 where r: "retain ?event h = (e, h1)" by fastforce
  note kept = buffer_retain [OF assms(2,3) r]
  let ?h2 = "publish_to e (map_keys (h_conns h1)) h1"
  have conns: "h_conns h1 = h_conns h" by (subst kept(4)) simp
  have at: "stream_at (h_sequence h) i h1" for i
    using assms(1) by (subst kept(4)) (simp add: streams_ok_def)
  have "log_ok h1" using assms(1) by (subst kept(4)) (simp add: streams_ok_def)
  moreover have "distinct (map_keys (h_conns h1))" using assms(4) conns by (simp add: conns_ok_def js_map_def)
  ultimately have all: "log_ok ?h2 \<and> (\<forall>i. (i \<in> set (map_keys (h_conns h1)) \<longrightarrow> stream_at (Suc (h_sequence h)) i ?h2)
      \<and> (i \<notin> set (map_keys (h_conns h1)) \<longrightarrow> (\<forall>m. stream_at m i h1 \<longrightarrow> stream_at m i ?h2)))"
    using publish_streams [OF _ kept(3) _ at] by blast
  have "stream_at (Suc (h_sequence h)) i h1" if "i \<notin> set (map_keys (h_conns h1))" for i
    using that by (simp add: stream_at_def map_of_eq_None_iff [THEN iffD2])
  with all have "stream_at (Suc (h_sequence h)) i ?h2" for i by blast
  moreover have "h_sequence ?h2 = Suc (h_sequence h)"
    using sequence_side [OF buffer_side_publish_to] kept(2) by simp
  ultimately have "streams_ok ?h2" using all by (simp add: streams_ok_def)
  with r assms(1) show ?thesis by (simp add: hub_publish_def Let_def)
qed

subsection \<open>Initializing a connection\<close>

lemma hub_send_gone: "map_get (h_conns h) i = None \<Longrightarrow> hub_send i frame fallback h = h"
  by (simp add: hub_send_def peer_send_def)

lemma send_events_gone: "map_get (h_conns h) i = None \<Longrightarrow> send_events i after es h = h"
  by (induction i after es h rule: send_events.induct) (simp_all add: send_event_def hub_send_gone)

text \<open>What a connection is sent between two states: it is gone, or unchanged and was sent these events.\<close>

definition reached :: "string \<Rightarrow> rpc_conn \<Rightarrow> nat list \<Rightarrow> rpc_hub \<Rightarrow> bool" where
  "reached i c ns h \<longleftrightarrow> map_get (h_conns h) i = None \<or> map_get (h_conns h) i = Some c \<and> sent i h = ns"

lemma reached_send: "reached i c ns h \<Longrightarrow> no_event frame None \<Longrightarrow> reached i c ns (hub_send i frame None h)"
proof (cases "map_get (h_conns h) i")
  case (Some d)
  assume r: "reached i c ns h" and n: "no_event frame None"
  have "event_number i (i, frame) = None" using n event_number_other [of frame i i] by (simp add: no_event_def)
  with hub_send_self [OF Some refl, of frame] r Some show ?thesis by (auto simp: reached_def)
qed (simp add: reached_def hub_send_gone)

lemma reached_events:
  "reached i c ns h \<Longrightarrow>
    reached i c (ns @ List.map re_sequence (filter (\<lambda>e. after < re_sequence e) es)) (send_events i after es h)"
proof (cases "map_get (h_conns h) i")
  case (Some d)
  assume "reached i c ns h"
  with send_events_self [OF Some refl, of after es] Some show ?thesis by (auto simp: reached_def)
qed (simp add: reached_def send_events_gone)

lemma reached_ready:
  "reached i c ns h \<Longrightarrow> reached i (c\<lparr>c_ready := True\<rparr>) ns (update_conn i (\<lambda>d. d\<lparr>c_ready := True\<rparr>) h)"
  by (auto simp: reached_def update_conn_def set_conn_def)

lemma initialize_reached:
  assumes "streams_ok h" and "buffer_ok h" and "map_get (h_conns h) i = Some c" and "c_boundary c = Some b"
    and "\<not> c_ready c"
  shows "reached i (c\<lparr>c_ready := True\<rparr>)
    [Suc (max (fst (replay_decision h (c_cursor c) b)) (h_sequence h - length (h_events h))) ..< Suc (h_sequence h)]
    (hub_initialize i h)"
proof -
  obtain after gap where decision: "replay_decision h (c_cursor c) b = (after, gap)" by fastforce
  define h1 where "h1 = (case gap of Some g \<Rightarrow> hub_send i g None h | None \<Rightarrow> h)"
  define h2 where "h2 = hub_send i (ReadyFrame (c_role c) (hub_cursor h1 b) (oldest_cursor h1)) None h1"
  define h3 where "h3 = send_events i after (h_events h2) h2"
  define h4 where "h4 = update_conn i (\<lambda>d. d\<lparr>c_ready := True\<rparr>) h3"
  have "conn_stream (h_sequence h) c (sent i h)" using assms(1,3) by (simp add: streams_ok_def stream_at_def)
  then have "reached i c [] h" using assms(3,5) by (simp add: reached_def conn_stream_def)
  moreover have "no_event g None" if "gap = Some g" for g
    using decision that by (auto simp: replay_decision_def split: option.splits)
  ultimately have "reached i c [] h1" by (auto simp: h1_def reached_send split: option.splits)
  then have "reached i c [] h2" by (simp add: h2_def reached_send)
  from reached_events [OF this, of after "h_events h2"]
  have "reached i c (List.map re_sequence (filter (\<lambda>e. after < re_sequence e) (h_events h2))) h3" by (simp add: h3_def)
  then have four: "reached i (c\<lparr>c_ready := True\<rparr>)
      (List.map re_sequence (filter (\<lambda>e. after < re_sequence e) (h_events h2))) h4"
    unfolding h4_def by (rule reached_ready)
  have "buffer_side h2 = buffer_side h" by (simp add: h2_def h1_def split: option.splits)
  then have "h_events h2 = h_events h" by (simp add: buffer_side_def)
  moreover have "latest (h_sequence h) (h_events h)" using assms(2) by (simp add: buffer_ok_def)
  ultimately have seqs: "List.map re_sequence (filter (\<lambda>e. after < re_sequence e) (h_events h2))
      = [Suc (max after (h_sequence h - length (h_events h))) ..< Suc (h_sequence h)]"
    by (simp add: latest_after)
  have "hub_initialize i h =
      (if c_denied c then hub_send i (ControlFrame ''control_denied'' (Some ''controller_busy'')) None h4 else h4)"
    using assms(3-5) decision by (simp add: hub_initialize_def Let_def h1_def h2_def h3_def h4_def)
  with four seqs decision show ?thesis by (simp add: reached_send)
qed

lemma initialize_others:
  "j \<noteq> i \<Longrightarrow> stream_at n j h \<Longrightarrow> stream_at n j (hub_initialize i h)"
proof -
  assume other: "j \<noteq> i" and at: "stream_at n j h"
  have ready: "stream_at n j (update_conn i (\<lambda>d. d\<lparr>c_ready := True\<rparr>) g)" if "stream_at n j g" for g
    using that other by (auto simp: update_conn_def stream_at_def set_conn_def split: option.splits)
  have sends: "stream_at n j (hub_send i frame fallback g)" if "stream_at n j g" for g frame fallback
    using that other by (simp add: stream_send)
  show ?thesis
    using at other by (auto simp: hub_initialize_def Let_def split: option.splits prod.splits
        intro!: ready sends send_events_other)
qed

lemma replay_after_le:
  assumes "b \<le> h_sequence h"
  shows "fst (replay_decision h cursor b) \<le> h_sequence h"
  using assms by (auto simp: replay_decision_def gap_reason_of_def split: option.splits if_splits)

lemma streams_initialize:
  assumes "streams_ok h" and "buffer_ok h"
  shows "streams_ok (hub_initialize i h)"
proof (rule streams_pointwise [OF assms(1)])
  show "log_ok (hub_initialize i h)" if "log_ok h"
    using that by (auto simp: hub_initialize_def Let_def split: option.splits prod.splits
        intro!: log_send log_update send_events_log)
  fix j assume at: "stream_at (h_sequence h) j h"
  show "stream_at (h_sequence h) j (hub_initialize i h)"
  proof (cases "j = i")
    case False
    with at show ?thesis by (rule initialize_others [rotated])
  next
    case True
    show ?thesis
    proof (cases "\<exists>c b. map_get (h_conns h) i = Some c \<and> c_boundary c = Some b \<and> \<not> c_ready c")
      case False
      then have "hub_initialize i h = h" by (auto simp: hub_initialize_def split: option.splits)
      with at show ?thesis by simp
    next
      case True
      then obtain c b where c: "map_get (h_conns h) i = Some c" "c_boundary c = Some b" "\<not> c_ready c" by blast
      have cs: "conn_stream (h_sequence h) c (sent i h)" using c(1) assms(1) by (simp add: streams_ok_def stream_at_def)
      then have "b \<le> h_sequence h" "c_protocol c = FramedRpc" using c by (simp_all add: conn_stream_def)
      let ?k = "max (fst (replay_decision h (c_cursor c) b)) (h_sequence h - length (h_events h))"
      have "?k \<le> h_sequence h" using replay_after_le [OF \<open>b \<le> h_sequence h\<close>] by simp
      then have "gapless (h_sequence h) [Suc ?k ..< Suc (h_sequence h)]" unfolding gapless_def by blast
      then have "conn_stream (h_sequence h) (c\<lparr>c_ready := True\<rparr>) [Suc ?k ..< Suc (h_sequence h)]"
        using c \<open>b \<le> h_sequence h\<close> \<open>c_protocol c = FramedRpc\<close> by (simp add: conn_stream_def del: upt_Suc)
      with initialize_reached [OF assms c] \<open>j = i\<close> show ?thesis by (auto simp: stream_at_def reached_def)
    qed
  qed
qed simp

subsection \<open>Disposal\<close>

lemma delete_all: "fold (\<lambda>i m. map_del m i) is m = filter (\<lambda>kv. fst kv \<notin> set is) m"
  by (induction "is" arbitrary: m) (auto simp: AList.delete_eq split_def intro!: filter_cong)

lemma dispose_fold_log:
  "log_ok h \<Longrightarrow> log_ok (fold (\<lambda>i g. close_conn i (g\<lparr>h_released := h_released g @ [i]\<rparr>)) is h)"
proof (induction "is" arbitrary: h)
  case (Cons i "is")
  have "log_ok (h\<lparr>h_released := h_released h @ [i]\<rparr>)" using Cons.prems by (auto simp: log_ok_def)
  from Cons.IH [OF log_remove [OF this, of i]] show ?case by (simp add: close_conn_def)
qed simp

lemma streams_dispose: "streams_ok h \<Longrightarrow> streams_ok (hub_dispose h)"
proof (cases "h_disposed h")
  case False
  assume ok: "streams_ok h"
  define h3 where "h3 = (if h_controller h \<noteq> None then cancel_pending_ui (h\<lparr>h_disposed := True\<rparr>)
      else h\<lparr>h_disposed := True\<rparr>)\<lparr>h_controller := None\<rparr>"
  define h4 where "h4 = fold (\<lambda>i g. close_conn i (g\<lparr>h_released := h_released g @ [i]\<rparr>)) (map_keys (h_conns h3)) h3"
  have "log_ok h3" using ok by (simp add: streams_ok_def h3_def) (simp add: log_ok_def cancel_pending_ui_def)
  then have "log_ok h4" unfolding h4_def by (rule dispose_fold_log)
  moreover have "h_conns h4 = []"
    unfolding h4_def by (simp add: removes_conns delete_all filter_empty_conv)
  ultimately have "streams_ok (h4\<lparr>h_conns := [], h_events := [], h_replay_bytes := 0\<rparr>)"
    by (simp add: streams_ok_def log_ok_def stream_at_def)
  with False show ?thesis by (simp add: hub_dispose_def Let_def h3_def h4_def)
qed (simp add: hub_dispose_def)

section \<open>The invariant of every run\<close>

definition hub_ok :: "rpc_hub \<Rightarrow> bool" where
  "hub_ok h \<longleftrightarrow> limits_ok (h_limits h) \<and> conns_ok h \<and> buffer_ok h \<and> streams_ok h"

lemma hub_ok_event: "hub_ok h \<Longrightarrow> hub_ok (hub_event e h)"
proof -
  assume ok: "hub_ok h"
  then have parts: "limits_ok (h_limits h)" "conns_ok h" "buffer_ok h" "streams_ok h" by (simp_all add: hub_ok_def)
  have flight: "0 \<le> max_in_flight (h_limits h)" using parts(1) by (simp add: limits_ok_def)
  have step: "hub_ok g" if "buffer_side g = buffer_side h" "conns_ok g" "streams_ok g" for g
    using that parts buffer_okI [OF that(1)] by (simp add: hub_ok_def buffer_side_def)
  show ?thesis
  proof (cases e)
    case (HubAdd i protocol role cursor)
    with ok show ?thesis by (auto intro!: step conns_add [OF parts(2) _ flight] streams_add [OF parts(4)])
  next
    case (HubOutput out)
    have "h_limits (hub_publish out h) = h_limits h"
    proof -
      obtain ev h1 where r: "retain (safe_output out (rpc_max_message_bytes (h_limits h))) h = (ev, h1)" by fastforce
      have "h_limits h1 = h_limits h" by (subst buffer_retain(4) [OF parts(3,1) r]) simp
      moreover have "buffer_side (publish_to ev (map_keys (h_conns h1)) h1) = buffer_side h1" by simp
      ultimately show ?thesis using r by (simp add: hub_publish_def Let_def buffer_side_def cancel_pending_ui_def)
    qed
    with HubOutput parts show ?thesis
      by (simp add: hub_ok_def conns_publish buffer_publish streams_publish)
  next
    case HubDispose
    have "h_limits (hub_dispose h) = h_limits h"
      by (simp add: hub_dispose_def Let_def dispose_fold_sides cancel_pending_ui_def)
    with HubDispose parts show ?thesis by (simp add: hub_ok_def conns_dispose buffer_dispose streams_dispose)
  qed (simp_all add: step parts conns_snapshot streams_snapshot conns_initialize streams_initialize
      conns_message streams_message conns_settle streams_settle conns_remove streams_remove)
qed

lemma hub_ok_outcomes [simp]: "hub_ok (h\<lparr>h_outcomes := os\<rparr>) = hub_ok h"
proof -
  have "buffer_ok (h\<lparr>h_outcomes := os\<rparr>) = buffer_ok h" by (simp add: buffer_ok_def)
  then show ?thesis by (simp add: hub_ok_def)
qed

interpretation hub: machine hub_step hub_ok
  by unfold_locales (auto simp: hub_step_def hub_ok_event)

lemma hub_ok_new: "limits_ok limits \<Longrightarrow> hub_ok (new_hub host session generation limits)"
  by (simp add: hub_ok_def new_hub_def conns_ok_def buffer_ok_def streams_ok_def log_ok_def stream_at_def)
     (simp add: limits_ok_def)

end
