(* ===== verification/RpcManager.thy ===== *)
theory RpcManager
  imports RpcHubStreams Websocket
begin

text \<open>
  \<open>RpcAttachmentManager\<close> of \<open>src/rpc-attachments.ts\<close>: limits, the parameters of an attachment, the
  map of hubs with its capacity and eviction, and the multiplexer events that end a hub.  A hub in
  the map carries a number, so that an attachment that awaited its lease still refers to the hub it
  was opened for.
\<close>

section \<open>Limits\<close>

definition default_rpc_limits :: rpc_limits where
  "default_rpc_limits = \<lparr>max_hubs = 32, max_replay_events = 512, max_replay_bytes = 2 * 1024 * 1024,
     max_total_replay_bytes = 64 * 1024 * 1024, rpc_max_message_bytes = 1024 * 1024,
     max_outbound_bytes_per_connection = 4 * 1024 * 1024, max_in_flight = 8, rpc_keep_alive_ms = 30000,
     residency_lease_ttl_ms = 60000\<rparr>"

definition limit_values :: "rpc_limits \<Rightarrow> int list" where
  "limit_values l = [max_hubs l, max_replay_events l, max_replay_bytes l, max_total_replay_bytes l,
     rpc_max_message_bytes l, max_outbound_bytes_per_connection l, max_in_flight l, rpc_keep_alive_ms l,
     residency_lease_ttl_ms l]"

text \<open>\<open>resolveLimits\<close>, of the defaults with the overrides spread over them.\<close>

definition resolve_limits :: "rpc_limits \<Rightarrow> rpc_limits option" where
  "resolve_limits l =
     (if list_ex (\<lambda>v. \<not> safe_int v \<or> v < 1) (limit_values l) then None
      else if rpc_max_message_bytes l < 4096 then None
      else if \<not> safe_int (max_replay_bytes l * max_hubs l)
        \<or> max_replay_bytes l * max_hubs l > max_total_replay_bytes l then None
      else if rpc_max_message_bytes l > max_outbound_bytes_per_connection l then None
      else Some l)"

section \<open>The parameters of an attachment\<close>

text \<open>\<open>RpcAttachmentError\<close>: status, code, retryable.\<close>

type_synonym attachment_error = "nat \<times> string \<times> bool"

definition parse_role :: "string option \<Rightarrow> attachment_error + rpc_role" where
  "parse_role v =
     (case v of
        None \<Rightarrow> Inr Observer
      | Some s \<Rightarrow>
          if s = ''controller'' then Inr Controller
          else if s = ''observer'' then Inr Observer
          else Inl (400, ''invalid_attachment_role'', False))"

definition parse_generation :: "string option \<Rightarrow> attachment_error + int option" where
  "parse_generation v =
     (case v of
        None \<Rightarrow> Inr None
      | Some s \<Rightarrow>
          (case (if s = [] then None else digits_value 0 s) of
             None \<Rightarrow> Inl (400, ''invalid_generation'', False)
           | Some n \<Rightarrow>
               if \<not> safe_int (int n) then Inl (400, ''invalid_generation'', False) else Inr (Some (int n))))"

definition parse_hydrate :: "string option \<Rightarrow> attachment_error + bool" where
  "parse_hydrate v =
     (if v = None \<or> v = Some ''false'' then Inr False
      else if v = Some ''true'' then Inr True
      else Inl (400, ''invalid_hydration_mode'', False))"

text \<open>\<open>decode\<close> is \<open>JSON.parse(Buffer.from(value, "base64url").toString("utf8"))\<close>, \<open>None\<close> where it throws.\<close>

definition parse_requested_cursor ::
  "(string \<Rightarrow> json option) \<Rightarrow> string option \<Rightarrow> attachment_error + rpc_cursor option" where
  "parse_requested_cursor decode v =
     (case v of
        None \<Rightarrow> Inr None
      | Some s \<Rightarrow>
          if length s < 1 \<or> length s > 1024 then Inl (400, ''invalid_cursor'', False)
          else
            (case decode s of
               None \<Rightarrow> Inl (400, ''invalid_cursor'', False)
             | Some d \<Rightarrow>
                 (case (as_string (field d ''h''), as_string (field d ''s''), as_int (field d ''g''), as_int (field d ''q'')) of
                    (Some h, Some se, Some g, Some q) \<Rightarrow>
                      if is_record d \<and> field d ''v'' = Some (JNum 1) \<and> safe_int g \<and> safe_int q \<and> 0 \<le> g \<and> 0 \<le> q
                      then Inr (Some \<lparr>cu_host = h, cu_session = se, cu_generation = g, cu_sequence = nat q\<rparr>)
                      else Inl (400, ''invalid_cursor'', False)
                  | _ \<Rightarrow> Inl (400, ''invalid_cursor'', False))))"

text \<open>\<open>encode\<close> is \<open>Buffer.from(text, "utf8").toString("base64url")\<close>.\<close>

definition cursor_json :: "rpc_cursor \<Rightarrow> json" where
  "cursor_json c = JObj [(''v'', JNum 1), (''h'', JStr (cu_host c)), (''s'', JStr (cu_session c)),
     (''g'', JNum (cu_generation c)), (''q'', JNum (int (cu_sequence c)))]"

definition encode_cursor :: "(string \<Rightarrow> string) \<Rightarrow> rpc_cursor \<Rightarrow> string" where
  "encode_cursor encode c = encode (stringify (cursor_json c))"

definition protocol_of :: "string \<Rightarrow> rpc_protocol option" where
  "protocol_of s =
     (if s = ''pi-rpc.v1'' then Some RawRpc else if s = ''pi-daemon-rpc.v1'' then Some FramedRpc else None)"

text \<open>\<open>selectSubprotocol\<close>, of the joined header values.\<close>

definition select_subprotocol :: "string option \<Rightarrow> attachment_error + rpc_protocol" where
  "select_subprotocol v =
     (let offered = filter (\<lambda>s. s \<noteq> []) (List.map trim (split_commas (case v of Some s \<Rightarrow> s | None \<Rightarrow> []))) in
      case List.map_filter protocol_of offered of
        p # _ \<Rightarrow> Inr p
      | [] \<Rightarrow> Inl (426, ''rpc_subprotocol_required'', False))"

section \<open>The map of hubs\<close>

record rpc_manager =
  m_limits :: rpc_limits
  m_host :: string
  m_hubs :: "(string, nat \<times> rpc_hub) jsmap"
  m_next :: nat
  m_disposed :: bool

definition new_manager :: "rpc_limits \<Rightarrow> string \<Rightarrow> rpc_manager" where
  "new_manager limits host = \<lparr>m_limits = limits, m_host = host, m_hubs = [], m_next = 0, m_disposed = False\<rparr>"

definition hub_key :: "string \<Rightarrow> int \<Rightarrow> string" where
  "hub_key session generation = session @ [char_of (0 :: nat)] @ int_str generation"

definition manager_has_controller :: "string \<Rightarrow> rpc_manager \<Rightarrow> bool" where
  "manager_has_controller session m \<longleftrightarrow>
     list_ex (\<lambda>(_, h). h_session h = session \<and> hub_has_controller h) (map_vals (m_hubs m))"

text \<open>The first hub without a connection.\<close>

definition idle_hub :: "rpc_manager \<Rightarrow> string option" where
  "idle_hub m = (case filter (\<lambda>(_, _, h). connection_count h = 0) (m_hubs m) of (k, _) # _ \<Rightarrow> Some k | [] \<Rightarrow> None)"

text \<open>\<open>#hub\<close>: the number of the hub, after evicting an idle one at capacity.\<close>

definition manager_hub :: "string \<Rightarrow> int \<Rightarrow> rpc_manager \<Rightarrow> (attachment_error + nat) \<times> rpc_manager" where
  "manager_hub session generation m =
     (let key = hub_key session generation in
      case map_get (m_hubs m) key of
        Some (n, _) \<Rightarrow> (Inr n, m)
      | None \<Rightarrow>
          (let room = (if int (length (m_hubs m)) \<ge> max_hubs (m_limits m) then
                         (case idle_hub m of
                            None \<Rightarrow> None
                          | Some k \<Rightarrow> Some (map_del (m_hubs m) k))
                       else Some (m_hubs m)) in
           case room of
             None \<Rightarrow> (Inl (503, ''attachment_capacity'', True), m)
           | Some hubs \<Rightarrow>
               (Inr (m_next m),
                m\<lparr>m_hubs := map_set hubs key (m_next m, new_hub (m_host m) session generation (m_limits m)),
                  m_next := m_next m + 1\<rparr>)))"

text \<open>The first check of \<open>attach\<close>, before anything is awaited.\<close>

definition attach_start :: "rpc_manager \<Rightarrow> (attachment_error + unit)" where
  "attach_start m = (if m_disposed m then Inl (503, ''server_stopping'', True) else Inr ())"

text \<open>
  \<open>attach\<close> from the session record to the acquisition of the residency lease.  The manager may have
  been disposed of meanwhile, which is not checked again.
\<close>

definition attach_open ::
  "rpc_protocol \<Rightarrow> rpc_role \<Rightarrow> string \<Rightarrow> int \<Rightarrow> rpc_manager \<Rightarrow> (attachment_error + nat) \<times> rpc_manager" where
  "attach_open protocol role session generation m =
     (case manager_hub session generation m of
        (Inl e, m1) \<Rightarrow> (Inl e, m1)
      | (Inr n, m1) \<Rightarrow>
          if protocol = RawRpc \<and> role = Controller
            \<and> (case map_get (m_hubs m1) (hub_key session generation) of
                 Some (_, h) \<Rightarrow> hub_has_controller h | None \<Rightarrow> False)
          then (Inl (409, ''controller_busy'', True), m1)
          else (Inr n, m1))"

text \<open>A step of one hub, if it is still the one with this number.\<close>

definition with_hub :: "string \<Rightarrow> nat \<Rightarrow> (rpc_hub \<Rightarrow> rpc_hub) \<Rightarrow> rpc_manager \<Rightarrow> rpc_manager" where
  "with_hub key n f m =
     (case map_get (m_hubs m) key of
        Some (k, h) \<Rightarrow> if k = n then m\<lparr>m_hubs := map_set (m_hubs m) key (k, f h)\<rparr> else m
      | None \<Rightarrow> m)"

text \<open>\<open>#onMultiplexerEvent\<close>: the hubs it disposes and deletes.\<close>

definition ends_hub :: "string \<Rightarrow> int \<Rightarrow> string \<Rightarrow> rpc_hub \<Rightarrow> bool" where
  "ends_hub session generation event h \<longleftrightarrow>
     h_session h = session
     \<and> (h_generation h \<noteq> generation \<or> event \<in> set [''sessionClosed'', ''sessionDormant'', ''sessionDeleted''])"

definition on_multiplexer_event :: "string \<Rightarrow> int \<Rightarrow> string \<Rightarrow> rpc_manager \<Rightarrow> rpc_manager" where
  "on_multiplexer_event session generation event m =
     m\<lparr>m_hubs := filter (\<lambda>(_, _, h). \<not> ends_hub session generation event h) (m_hubs m)\<rparr>"

definition manager_dispose :: "rpc_manager \<Rightarrow> rpc_manager" where
  "manager_dispose m = (if m_disposed m then m else m\<lparr>m_disposed := True, m_hubs := []\<rparr>)"

datatype manager_call =
    AttachOpen rpc_protocol rpc_role string int
  | HubCall string nat "send_outcome list" hub_call
  | MultiplexerEvent string int string
  | ManagerDispose

fun manager_step :: "manager_call \<Rightarrow> rpc_manager \<Rightarrow> rpc_manager" where
  "manager_step (AttachOpen protocol role session generation) m =
     snd (attach_open protocol role session generation m)"
| "manager_step (HubCall key n outcomes e) m = with_hub key n (hub_step (outcomes, e)) m"
| "manager_step (MultiplexerEvent session generation event) m =
     (if m_disposed m then m else on_multiplexer_event session generation event m)"
| "manager_step ManagerDispose m = manager_dispose m"

section \<open>The invariant of the manager\<close>

definition manager_ok :: "rpc_manager \<Rightarrow> bool" where
  "manager_ok m \<longleftrightarrow> resolve_limits (m_limits m) = Some (m_limits m) \<and> js_map (m_hubs m)
     \<and> int (length (m_hubs m)) \<le> max_hubs (m_limits m)
     \<and> (\<forall>k n h. (k, n, h) \<in> set (m_hubs m) \<longrightarrow> hub_ok h \<and> h_limits h = m_limits m)"

lemma resolve_limits_ok:
  assumes "resolve_limits l = Some l'"
  shows "l' = l" and "limits_ok l" and "1 \<le> max_hubs l" and "max_replay_bytes l * max_hubs l \<le> max_total_replay_bytes l"
  using assms by (auto simp: resolve_limits_def limit_values_def limits_ok_def split: if_splits)

lemma hub_limits_step: "hub_ok h \<Longrightarrow> h_limits (hub_step oe h) = h_limits h"
proof -
  assume ok: "hub_ok h"
  obtain os e where oe: "oe = (os, e)" by fastforce
  let ?h = "h\<lparr>h_outcomes := os\<rparr>"
  have same: "h_limits g = h_limits h" if "buffer_side g = buffer_side ?h" for g
    using that by (simp add: buffer_side_def)
  have "h_limits (hub_event e ?h) = h_limits h"
  proof (cases e)
    case (HubOutput out)
    have parts: "buffer_ok ?h" "limits_ok (h_limits ?h)"
      using ok by (simp_all add: hub_ok_def buffer_ok_def)
    obtain ev h1 where r: "retain (safe_output out (rpc_max_message_bytes (h_limits ?h))) ?h = (ev, h1)" by fastforce
    have "h_limits h1 = h_limits h" by (subst buffer_retain(4) [OF parts r]) simp
    moreover have "buffer_side (publish_to ev (map_keys (h_conns h1)) h1) = buffer_side h1" by simp
    ultimately show ?thesis using HubOutput r by (simp add: hub_publish_def Let_def buffer_side_def cancel_pending_ui_def)
  next
    case HubDispose
    then show ?thesis by (simp add: hub_dispose_def Let_def dispose_fold_sides cancel_pending_ui_def)
  qed (auto intro!: same simp del: buffer_side_simps(1))
  then show ?thesis by (simp add: oe hub_step_def)
qed

lemma hubs_okD:
  "manager_ok m \<Longrightarrow> map_get (m_hubs m) k = Some (n, h) \<Longrightarrow> hub_ok h \<and> h_limits h = m_limits m"
  by (auto simp: manager_ok_def dest: map_get_in)

lemma hubs_okI:
  assumes "manager_ok m" and "js_map hubs" and "int (length hubs) \<le> max_hubs (m_limits m)"
    and "\<And>k n h. (k, n, h) \<in> set hubs \<Longrightarrow> hub_ok h \<and> h_limits h = m_limits m"
  shows "manager_ok (m\<lparr>m_hubs := hubs, m_next := i\<rparr>)" and "manager_ok (m\<lparr>m_hubs := hubs\<rparr>)"
    and "manager_ok (m\<lparr>m_disposed := b, m_hubs := hubs\<rparr>)"
  using assms by (simp_all add: manager_ok_def)

lemma set_map_set: "x \<in> set (map_set m k v) \<Longrightarrow> x = (k, v) \<or> x \<in> set m"
  by (induction m) (auto split: if_splits)

lemma set_map_del: "x \<in> set (map_del m k) \<Longrightarrow> x \<in> set m"
  by (auto simp: AList.delete_eq)

lemma idle_hub_in: "idle_hub m = Some k \<Longrightarrow> \<exists>n h. (k, n, h) \<in> set (m_hubs m) \<and> connection_count h = 0"
proof -
  assume "idle_hub m = Some k"
  then obtain n h rest where "filter (\<lambda>(_, _, h). connection_count h = 0) (m_hubs m) = (k, n, h) # rest"
    by (auto simp: idle_hub_def split: list.splits)
  then have "(k, n, h) \<in> set (filter (\<lambda>(_, _, h). connection_count h = 0) (m_hubs m))" by simp
  then show ?thesis by auto
qed

lemma map_del_shorter: "js_map m \<Longrightarrow> map_has m k \<Longrightarrow> length (map_del m k) < length m"
proof -
  assume "map_has m k"
  then obtain v where "(k, v) \<in> set m" by (auto dest: map_get_in)
  then show ?thesis unfolding AList.delete_eq by (intro length_filter_less [of "(k, v)"]) auto
qed

lemma manager_ok_hub:
  assumes "manager_ok m"
  shows "manager_ok (snd (manager_hub session generation m))"
proof (cases "map_get (m_hubs m) (hub_key session generation)")
  case None
  let ?new = "\<lambda>hubs. m\<lparr>m_hubs := map_set hubs (hub_key session generation)
      (m_next m, new_hub (m_host m) session generation (m_limits m)), m_next := m_next m + 1\<rparr>"
  have limits: "limits_ok (m_limits m)" "1 \<le> max_hubs (m_limits m)"
    using assms resolve_limits_ok [of "m_limits m"] by (auto simp: manager_ok_def)
  have fresh: "manager_ok (?new hubs)"
    if "js_map hubs" "int (length hubs) < max_hubs (m_limits m)" "set hubs \<subseteq> set (m_hubs m)" for hubs
  proof (rule hubs_okI(1) [OF assms])
    note given = that
    show "js_map (map_set hubs (hub_key session generation)
        (m_next m, new_hub (m_host m) session generation (m_limits m)))" using that(1) by simp
    show "int (length (map_set hubs (hub_key session generation)
        (m_next m, new_hub (m_host m) session generation (m_limits m)))) \<le> max_hubs (m_limits m)"
      using that(2) by (simp add: map_set_length)
    fix k n h
    assume "(k, n, h) \<in> set (map_set hubs (hub_key session generation)
        (m_next m, new_hub (m_host m) session generation (m_limits m)))"
    then consider "h = new_hub (m_host m) session generation (m_limits m)" | "(k, n, h) \<in> set (m_hubs m)"
      using set_map_set [of "(k, n, h)"] given(3) by fastforce
    then show "hub_ok h \<and> h_limits h = m_limits m"
      by cases (use assms limits hub_ok_new in \<open>auto simp: manager_ok_def new_hub_def\<close>)
  qed
  show ?thesis
  proof (cases "int (length (m_hubs m)) \<ge> max_hubs (m_limits m)")
    case True
    show ?thesis
    proof (cases "idle_hub m")
      case (Some k)
      obtain n h where "(k, n, h) \<in> set (m_hubs m)" using idle_hub_in [OF Some] by blast
      then have "map_has (m_hubs m) k" by (metis fst_conv image_eqI map_of_eq_None_iff)
      then have "int (length (map_del (m_hubs m) k)) < max_hubs (m_limits m)"
        using map_del_shorter [of "m_hubs m" k] assms by (auto simp: manager_ok_def)
      moreover have "set (map_del (m_hubs m) k) \<subseteq> set (m_hubs m)" using set_map_del by fast
      ultimately have "manager_ok (?new (map_del (m_hubs m) k))"
        using assms by (intro fresh) (simp_all add: manager_ok_def)
      with None True Some show ?thesis by (simp add: manager_hub_def Let_def)
    qed (use assms None True in \<open>simp add: manager_hub_def Let_def\<close>)
  next
    case False
    then have "manager_ok (?new (m_hubs m))" using assms by (intro fresh) (simp_all add: manager_ok_def)
    with None False show ?thesis by (simp add: manager_hub_def Let_def)
  qed
qed (use assms in \<open>auto simp: manager_hub_def\<close>)

lemma manager_ok_open: "manager_ok m \<Longrightarrow> manager_ok (snd (attach_open protocol role session generation m))"
  using manager_ok_hub [of m session generation] by (auto simp: attach_open_def split: prod.splits sum.splits)

lemma manager_ok_with:
  assumes "manager_ok m"
  shows "manager_ok (with_hub key n (hub_step oe) m)"
proof (cases "map_get (m_hubs m) key")
  case (Some kh)
  obtain k h where kh: "kh = (k, h)" by fastforce
  have h: "hub_ok h" "h_limits h = m_limits m" using hubs_okD [OF assms] Some kh by auto
  have "manager_ok (m\<lparr>m_hubs := map_set (m_hubs m) key (k, hub_step oe h)\<rparr>)"
  proof (rule hubs_okI(2) [OF assms])
    show "js_map (map_set (m_hubs m) key (k, hub_step oe h))" using assms by (simp add: manager_ok_def)
    show "int (length (map_set (m_hubs m) key (k, hub_step oe h))) \<le> max_hubs (m_limits m)"
      using assms Some by (auto simp: manager_ok_def map_set_length)
    fix k' n' h'
    assume "(k', n', h') \<in> set (map_set (m_hubs m) key (k, hub_step oe h))"
    then consider "h' = hub_step oe h" | "(k', n', h') \<in> set (m_hubs m)" using set_map_set by fastforce
    then show "hub_ok h' \<and> h_limits h' = m_limits m"
      by cases (use assms h hub.keeps [OF h(1)] hub_limits_step [OF h(1)] in \<open>auto simp: manager_ok_def\<close>)
  qed
  with Some kh assms show ?thesis by (auto simp: with_hub_def)
qed (use assms in \<open>simp add: with_hub_def\<close>)

lemma manager_ok_event: "manager_ok m \<Longrightarrow> manager_ok (on_multiplexer_event session generation event m)"
  unfolding on_multiplexer_event_def
  by (rule hubs_okI(2))
     (auto simp: manager_ok_def js_map_def distinct_map_filter intro: order_trans [OF of_nat_mono [OF length_filter_le]])

lemma manager_limits: "m_limits (manager_step e m) = m_limits m"
proof -
  have "m_limits (snd (manager_hub session generation m)) = m_limits m" for session generation
    by (simp add: manager_hub_def Let_def split: option.splits prod.splits)
  then have room: "m_limits m1 = m_limits m" if "manager_hub session generation m = (r, m1)" for session generation r m1
    using that by (metis snd_conv)
  have "m_limits (snd (attach_open protocol role session generation m)) = m_limits m"
    for protocol role session generation
    by (cases "manager_hub session generation m") (auto simp: attach_open_def room split: sum.splits)
  then show ?thesis
    by (cases e) (auto simp: with_hub_def on_multiplexer_event_def manager_dispose_def split: option.splits)
qed

interpretation manager: monotone_machine manager_step manager_ok "\<lambda>m m'. m_limits m' = m_limits m"
proof
  fix m e
  assume ok: "manager_ok m"
  have "manager_ok (manager_dispose m)"
    using ok hubs_okI(3) [OF ok, of "[]" True] resolve_limits_ok(3) [of "m_limits m" "m_limits m"]
    by (auto simp: manager_dispose_def manager_ok_def)
  with ok show "manager_ok (manager_step e m)"
    by (cases e) (auto simp: manager_ok_open manager_ok_with manager_ok_event)
qed (simp_all add: manager_limits)

lemma manager_ok_new:
  "resolve_limits limits = Some limits \<Longrightarrow> manager_ok (new_manager limits host)"
  using resolve_limits_ok(3) [of limits limits] by (simp add: manager_ok_def new_manager_def)

end
