(* ===== verification/RpcClaims.thy ===== *)
theory RpcClaims
  imports RpcManager
begin

text \<open>The properties of the attachment hubs.\<close>

definition hub_run :: "(send_outcome list \<times> hub_call) list \<Rightarrow> rpc_hub \<Rightarrow> rpc_hub" where
  "hub_run es h = fold hub_step es h"

lemma hub_run_ok: "limits_ok limits \<Longrightarrow> hub_ok (hub_run es (new_hub host session generation limits))"
  unfolding hub_run_def by (rule hub.run) (rule hub_ok_new)

lemma hub_okD:
  "hub_ok h \<Longrightarrow> limits_ok (h_limits h)" "hub_ok h \<Longrightarrow> conns_ok h" "hub_ok h \<Longrightarrow> buffer_ok h" "hub_ok h \<Longrightarrow> streams_ok h"
  by (simp_all add: hub_ok_def)

section \<open>A hub to look at\<close>

definition demo_limits :: rpc_limits where
  "demo_limits = default_rpc_limits\<lparr>max_replay_bytes := 10, max_hubs := 2\<rparr>"

lemma demo_limits_ok: "limits_ok demo_limits" "resolve_limits demo_limits = Some demo_limits"
  by (simp_all add: demo_limits_def default_rpc_limits_def limits_ok_def resolve_limits_def limit_values_def
      safe_int_def max_safe_integer_def)

definition demo_cursor :: "nat \<Rightarrow> rpc_cursor" where
  "demo_cursor n = \<lparr>cu_host = ''h'', cu_session = ''s'', cu_generation = 1, cu_sequence = n\<rparr>"

definition demo_event :: rpc_output where
  "demo_event = PlainOutput (JObj [(''type'', JStr ''x'')])"

definition roomy_limits :: rpc_limits where
  "roomy_limits = default_rpc_limits"

lemma roomy_limits_ok: "limits_ok roomy_limits"
  by (simp add: roomy_limits_def default_rpc_limits_def limits_ok_def)

section \<open>The properties\<close>

text \<open>
  C19: in every state of a hub the connections with the controller role are exactly the recorded
  holder, so there is at most one; and every command handed to the session came from a connection
  that held the role at that moment, or is one of the read-only commands.
\<close>

theorem one_controller:
  assumes "limits_ok limits"
  shows "let h = hub_run es (new_hub host session generation limits) in
    (\<forall>i c. map_get (h_conns h) i = Some c \<longrightarrow> (c_role c = Controller \<longleftrightarrow> h_controller h = Some i))
    \<and> list_all (\<lambda>(i, role, v). role = Controller \<or> rpc_type v \<in> set read_only_commands) (h_handled h)"
proof -
  let ?h = "hub_run es (new_hub host session generation limits)"
  note ok = hub_okD(2) [OF hub_run_ok [OF assms, of es host session generation]]
  have "list_all (\<lambda>(i, role, v). role = Controller \<or> rpc_type v \<in> set read_only_commands) (h_handled ?h)"
    using conns_okD(6) [OF ok] by (auto simp: list_all_iff)
  with conns_okD(2) [OF ok] show ?thesis unfolding Let_def by blast
qed

theorem one_controller_witness:
  "let h = hub_run [([], HubAdd ''a'' RawRpc Controller None), ([], HubAdd ''b'' RawRpc Controller None)]
      (new_hub ''h'' ''s'' 1 roomy_limits) in
    h_controller h = Some ''a'' \<and> (\<forall>c. map_get (h_conns h) ''b'' = Some c \<longrightarrow> c_role c \<noteq> Controller)"
proof -
  let ?h = "hub_run [([], HubAdd ''a'' RawRpc Controller None), ([], HubAdd ''b'' RawRpc Controller None)]
      (new_hub ''h'' ''s'' 1 roomy_limits)"
  have "h_controller ?h = Some ''a''"
    by (simp add: hub_run_def hub_step_def new_hub_def hub_add_def Let_def hub_has_controller_def set_conn_def)
  moreover have "\<forall>i c. map_get (h_conns ?h) i = Some c \<longrightarrow> (c_role c = Controller \<longleftrightarrow> h_controller ?h = Some i)"
    using one_controller [OF roomy_limits_ok] unfolding Let_def by blast
  ultimately show ?thesis unfolding Let_def by auto
qed

text \<open>
  C20: whatever is published, sent, refused or disconnected, and however attachments interleave, the
  event frames an attached framed connection has received carry consecutive sequence numbers up to
  the latest event: none is lost, repeated or reordered while it is attached.
\<close>

theorem event_stream_gapless:
  assumes "limits_ok limits" and "h = hub_run es (new_hub host session generation limits)"
    and "map_get (h_conns h) i = Some c" and "c_protocol c = FramedRpc" and "c_ready c"
  shows "\<exists>k \<le> h_sequence h. sent i h = [Suc k ..< Suc (h_sequence h)]"
proof -
  have "streams_ok h" unfolding assms(2) by (rule hub_okD(4) [OF hub_run_ok [OF assms(1)]])
  then have "conn_stream (h_sequence h) c (sent i h)" using assms(3) by (simp add: streams_ok_def stream_at_def)
  with assms(4,5) show ?thesis by (simp only: conn_stream_def gapless_def simp_thms if_True)
qed

text \<open>An attachment that sees one event published before it and one after.\<close>

definition attached_hub :: rpc_hub where
  "attached_hub = hub_run (List.map (Pair []) [HubOutput demo_event, HubAdd ''a'' FramedRpc Observer None, HubSnapshot ''a'' True,
     HubInitialize ''a'', HubOutput demo_event]) (new_hub ''h'' ''s'' 1 roomy_limits)"

lemma attached_conn:
  "map_option (\<lambda>c. (c_protocol c, c_ready c)) (map_get (h_conns attached_hub) ''a'') = Some (FramedRpc, True)"
  by code_simp

theorem event_stream_gapless_witness:
  "\<exists>k \<le> h_sequence attached_hub. sent ''a'' attached_hub = [Suc k ..< Suc (h_sequence attached_hub)]"
proof -
  obtain c where "map_get (h_conns attached_hub) ''a'' = Some c" "c_protocol c = FramedRpc" "c_ready c"
    using attached_conn by (auto simp: map_option_eq_Some)
  then show ?thesis by (rule event_stream_gapless [OF roomy_limits_ok attached_hub_def])
qed

text \<open>
  C21: replay is complete: a connection that attaches with a cursor for which no gap is announced, when
  events are retained or the cursor is the latest one, has after its initialization been sent every
  event after its cursor, unless its peer was closed on the way.
\<close>

theorem replay_is_complete:
  assumes "limits_ok limits" and "h = hub_run es (new_hub host session generation limits)"
    and "map_get (h_conns h) i = Some c" and "c_boundary c = Some b" and "\<not> c_ready c" and "c_cursor c = Some q"
    and "gap_reason_of h q = None" and "h_events h \<noteq> [] \<or> cu_sequence q = h_sequence h"
  shows "map_has (h_conns (hub_initialize i h)) i \<longrightarrow>
    sent i (hub_initialize i h) = [Suc (cu_sequence q) ..< Suc (h_sequence h)]"
proof -
  have ok: "hub_ok h" unfolding assms(2) by (rule hub_run_ok [OF assms(1)])
  have latest: "latest (h_sequence h) (h_events h)" using hub_okD(3) [OF ok] by (simp add: buffer_ok_def)
  have "h_sequence h - length (h_events h) \<le> cu_sequence q"
  proof (cases "h_events h")
    case Nil
    with assms(8) show ?thesis by simp
  next
    case (Cons e rest)
    with latest_hd [of "h_sequence h" e rest] latest have "re_sequence e = h_sequence h - length rest" by simp
    with assms(7) Cons show ?thesis by (auto simp: gap_reason_of_def split: if_splits)
  qed
  moreover have "fst (replay_decision h (c_cursor c) b) = cu_sequence q"
    using assms(6,7) by (simp add: replay_decision_def)
  ultimately have "reached i (c\<lparr>c_ready := True\<rparr>) [Suc (cu_sequence q) ..< Suc (h_sequence h)] (hub_initialize i h)"
    using initialize_reached [OF hub_okD(4) [OF ok] hub_okD(3) [OF ok] assms(3-5)] by (simp only: max_absorb1)
  then show ?thesis unfolding reached_def by auto
qed

definition behind_hub :: rpc_hub where
  "behind_hub = hub_run (List.map (Pair []) [HubOutput demo_event, HubOutput demo_event,
     HubAdd ''a'' FramedRpc Observer (Some (demo_cursor 1)), HubSnapshot ''a'' True]) (new_hub ''h'' ''s'' 1 roomy_limits)"

theorem replay_is_complete_witness:
  "sent ''a'' (hub_initialize ''a'' behind_hub) = [Suc (cu_sequence (demo_cursor 1)) ..< Suc (h_sequence behind_hub)]"
proof -
  have "map_option (\<lambda>c. (c_boundary c, c_ready c, c_cursor c)) (map_get (h_conns behind_hub) ''a'')
      = Some (Some 2, False, Some (demo_cursor 1))"
    by code_simp
  then obtain c where c: "map_get (h_conns behind_hub) ''a'' = Some c" "c_boundary c = Some 2" "\<not> c_ready c"
    "c_cursor c = Some (demo_cursor 1)"
    by (auto simp: map_option_eq_Some)
  have "gap_reason_of behind_hub (demo_cursor 1) = None" by code_simp
  moreover have "h_events behind_hub \<noteq> []" by code_simp
  ultimately have "map_has (h_conns (hub_initialize ''a'' behind_hub)) ''a'' \<longrightarrow>
      sent ''a'' (hub_initialize ''a'' behind_hub) = [Suc (cu_sequence (demo_cursor 1)) ..< Suc (h_sequence behind_hub)]"
    by (intro replay_is_complete [OF roomy_limits_ok behind_hub_def c]) simp_all
  moreover have "map_has (h_conns (hub_initialize ''a'' behind_hub)) ''a''" by code_simp
  ultimately show ?thesis by blast
qed

text \<open>Calls that publish nothing leave an empty replay buffer empty, and number nothing.\<close>

fun publishes :: "hub_call \<Rightarrow> bool" where
  "publishes (HubOutput out) \<longleftrightarrow> True"
| "publishes _ \<longleftrightarrow> False"

definition empty_at :: "rpc_hub \<Rightarrow> rpc_hub \<Rightarrow> bool" where
  "empty_at g k \<longleftrightarrow> h_events k = [] \<and> h_sequence k = h_sequence g \<and> hub_cursor k = hub_cursor g"

lemma empty_at_side: "empty_at g h \<Longrightarrow> buffer_side k = buffer_side h \<Longrightarrow> empty_at g k"
  by (auto simp: empty_at_def buffer_side_def hub_cursor_def fun_eq_iff)

lemma closes_side: "buffer_side (fold (\<lambda>i g. close_conn i (g\<lparr>h_released := h_released g @ [i]\<rparr>)) is h) = buffer_side h"
  by (induction "is" arbitrary: h) simp_all

lemma empty_at_event:
  assumes "empty_at g h" and "\<not> publishes e"
  shows "empty_at g (hub_event e h)"
proof (cases e)
  case HubDispose
  show ?thesis
  proof (cases "h_disposed h")
    case False
    let ?h1 = "if h_controller h \<noteq> None then cancel_pending_ui (h\<lparr>h_disposed := True\<rparr>) else h\<lparr>h_disposed := True\<rparr>"
    let ?h2 = "fold (\<lambda>i g. close_conn i (g\<lparr>h_released := h_released g @ [i]\<rparr>)) (map_keys (h_conns h))
      (?h1\<lparr>h_controller := None\<rparr>)"
    have "buffer_side ?h2 = buffer_side h" by (simp only: closes_side) (simp add: buffer_side_def cancel_pending_ui_def)
    then have "empty_at g ?h2" by (rule empty_at_side [OF assms(1)])
    then have "empty_at g (?h2\<lparr>h_conns := [], h_events := [], h_replay_bytes := 0\<rparr>)"
      by (simp add: empty_at_def hub_cursor_def fun_eq_iff)
    moreover have "hub_event e h = ?h2\<lparr>h_conns := [], h_events := [], h_replay_bytes := 0\<rparr>"
      using False by (simp add: HubDispose hub_dispose_def Let_def cancel_pending_ui_def)
    ultimately show ?thesis by simp
  qed (use HubDispose assms(1) in \<open>simp add: hub_dispose_def\<close>)
qed (use assms in \<open>auto elim: empty_at_side\<close>)

lemma empty_at_run:
  "empty_at g h \<Longrightarrow> list_all (\<lambda>oe. \<not> publishes (snd oe)) es \<Longrightarrow> empty_at g (hub_run es h)"
proof (induction es arbitrary: h)
  case (Cons oe es)
  obtain os e where oe: "oe = (os, e)" by fastforce
  have "empty_at g (h\<lparr>h_outcomes := os\<rparr>)" by (rule empty_at_side [OF Cons.prems(1)]) simp
  then have "empty_at g (hub_step oe h)" using empty_at_event Cons.prems(2) by (simp add: hub_step_def oe)
  with Cons show ?case by (simp add: hub_run_def)
qed (simp add: hub_run_def)

lemma oversized_empties:
  assumes "hub_ok h" and "\<not> h_disposed h"
    and "event = safe_output out (rpc_max_message_bytes (h_limits h))"
    and "max_replay_bytes (h_limits h) < int (encoded_bytes event (rpc_max_message_bytes (h_limits h)))"
  shows "h_events (hub_publish out h) = []" and "h_sequence (hub_publish out h) = Suc (h_sequence h)"
    and "hub_cursor (hub_publish out h) = hub_cursor h"
proof -
  let ?g = "hub_publish out h"
  obtain e h1 where r: "retain event h = (e, h1)" by fastforce
  note kept = buffer_retain [OF hub_okD(3) [OF assms(1)] hub_okD(1) [OF assms(1)] r]
  have big: "max_replay_bytes (h_limits h) < int (re_bytes e)"
    using r assms(4) by (auto simp: retain_def Let_def split: prod.splits)
  have events: "h_events h1 = []"
  proof (rule ccontr)
    assume "h_events h1 \<noteq> []"
    obtain ds where "h_events h @ [e] = ds @ h_events h1" using kept(5) by blast
    with \<open>h_events h1 \<noteq> []\<close> obtain es' where "h_events h1 = es' @ [e]"
      by (metis append_butlast_last_id last_appendR last_snoc)
    then have "int (re_bytes e) \<le> events_size (h_events h1)" using events_size_ge [of es'] by simp
    moreover have "events_size (h_events h1) \<le> max_replay_bytes (h_limits h1)" using kept(1) by (simp add: buffer_ok_def)
    moreover have "h_limits h1 = h_limits h" by (subst kept(4)) simp
    ultimately show False using big by simp
  qed
  have "buffer_side ?g = buffer_side h1" using r assms(2,3) by (simp add: hub_publish_def Let_def)
  moreover have "hub_cursor h1 = hub_cursor h" by (subst kept(4)) (simp add: hub_cursor_def fun_eq_iff)
  ultimately show "h_events ?g = []" "h_sequence ?g = Suc (h_sequence h)" "hub_cursor ?g = hub_cursor h"
    using events kept(2) by (auto simp: buffer_side_def hub_cursor_def fun_eq_iff)
qed

text \<open>
  C22: an event larger than \<open>maxReplayBytes\<close> empties the replay buffer, and an empty buffer expires no
  cursor.  After such an event and any further calls that publish nothing, a client that has attached with
  a cursor from before the event, whether before or after the event was published, and that is
  initialized now, is told of no gap and is sent no event, though it missed at least this one.
\<close>

theorem oversized_event_lost:
  assumes "limits_ok limits" and "h = hub_run es (new_hub host session generation limits)" and "\<not> h_disposed h"
    and "event = safe_output out (rpc_max_message_bytes (h_limits h))"
    and "max_replay_bytes (h_limits h) < int (encoded_bytes event (rpc_max_message_bytes (h_limits h)))"
    and "list_all (\<lambda>oe. \<not> publishes (snd oe)) later" and "k = hub_run later (hub_publish out h)"
    and "map_get (h_conns k) i = Some c" and "c_boundary c = Some b" and "\<not> c_ready c"
    and "c_cursor c = Some (hub_cursor h n)" and "n \<le> h_sequence h"
  shows "n < h_sequence k \<and> replay_decision k (c_cursor c) b = (n, None)
    \<and> (map_has (h_conns (hub_initialize i k)) i \<longrightarrow> sent i (hub_initialize i k) = [])"
proof -
  have ok: "hub_ok h" unfolding assms(2) by (rule hub_run_ok [OF assms(1)])
  note g = oversized_empties [OF ok assms(3,4,5)]
  have "empty_at (hub_publish out h) k" unfolding assms(7)
    by (rule empty_at_run [OF _ assms(6)]) (simp add: empty_at_def g(1))
  then have k: "h_events k = []" "h_sequence k = Suc (h_sequence h)" "hub_cursor k = hub_cursor h"
    by (simp_all add: empty_at_def g)
  have "hub_ok (hub_publish out h)" using hub_ok_event [OF ok, of "HubOutput out"] by simp
  then have okk: "hub_ok k" unfolding assms(7) hub_run_def by (rule hub.run)
  have "gap_reason_of k (hub_cursor k n) = None"
    using k(1,2) assms(12) by (simp add: gap_reason_of_def hub_cursor_def)
  then have decision: "replay_decision k (c_cursor c) b = (n, None)"
    by (simp add: replay_decision_def assms(11) k(3)) (simp add: hub_cursor_def)
  from initialize_reached [OF hub_okD(4) [OF okk] hub_okD(3) [OF okk] assms(8-10)] decision k
  have "map_has (h_conns (hub_initialize i k)) i \<longrightarrow> sent i (hub_initialize i k) = []"
    using assms(12) by (auto simp: reached_def)
  with decision k assms(12) show ?thesis by simp
qed

text \<open>A client that comes back, with the cursor it started from, after the event was published.\<close>

definition small_hub :: rpc_hub where
  "small_hub = hub_run [] (new_hub ''h'' ''s'' 1 demo_limits)"

definition late_attach :: "(send_outcome list \<times> hub_call) list" where
  "late_attach = List.map (Pair []) [HubAdd ''a'' FramedRpc Observer (Some (demo_cursor 0)), HubSnapshot ''a'' True]"

theorem oversized_event_lost_witness:
  "let k = hub_run late_attach (hub_publish demo_event small_hub) in
    0 < h_sequence k \<and> map_has (h_conns (hub_initialize ''a'' k)) ''a'' \<and> sent ''a'' (hub_initialize ''a'' k) = []"
proof -
  let ?k = "hub_run late_attach (hub_publish demo_event small_hub)"
  have "map_option (\<lambda>c. (c_boundary c, c_ready c, c_cursor c)) (map_get (h_conns ?k) ''a'')
      = Some (Some 1, False, Some (hub_cursor small_hub 0))"
    by code_simp
  then obtain c where c: "map_get (h_conns ?k) ''a'' = Some c" "c_boundary c = Some 1" "\<not> c_ready c"
    "c_cursor c = Some (hub_cursor small_hub 0)"
    by (auto simp: map_option_eq_Some)
  have hub: "\<not> h_disposed small_hub" by code_simp
  have big: "max_replay_bytes (h_limits small_hub) <
      int (encoded_bytes (safe_output demo_event (rpc_max_message_bytes (h_limits small_hub)))
        (rpc_max_message_bytes (h_limits small_hub)))"
    by code_simp
  have quiet: "list_all (\<lambda>oe. \<not> publishes (snd oe)) late_attach" by (simp add: late_attach_def)
  have "map_has (h_conns (hub_initialize ''a'' ?k)) ''a''" by code_simp
  with oversized_event_lost [OF demo_limits_ok(1) small_hub_def hub refl big quiet refl c] show ?thesis
    by (simp add: Let_def)
qed

lemma sum_list_bound: "(\<And>x. x \<in> set xs \<Longrightarrow> f x \<le> (b :: int)) \<Longrightarrow> sum_list (List.map f xs) \<le> b * int (length xs)"
proof (induction xs)
  case (Cons x xs)
  have "f x \<le> b" "sum_list (List.map f xs) \<le> b * int (length xs)" using Cons by auto
  then show ?case by (simp add: algebra_simps)
qed simp

text \<open>
  C23: whatever attaches and is published, the manager keeps at most \<open>maxHubs\<close> hubs, and the replay
  buffers of all of them together hold at most \<open>maxTotalReplayBytes\<close> bytes of events.
\<close>

theorem replay_memory_bounded:
  assumes "resolve_limits limits = Some limits"
  shows "let m = fold manager_step calls (new_manager limits host) in
    int (length (m_hubs m)) \<le> max_hubs limits
    \<and> sum_list (List.map (\<lambda>(k, n, h). events_size (h_events h)) (m_hubs m)) \<le> max_total_replay_bytes limits"
proof -
  let ?m = "fold manager_step calls (new_manager limits host)"
  have ok: "manager_ok ?m" by (rule manager.run) (rule manager_ok_new [OF assms])
  have limits: "m_limits ?m = limits"
    using manager.run_up [OF manager_ok_new [OF assms]] by (simp add: new_manager_def)
  have "events_size (h_events h) \<le> max_replay_bytes limits" if "(k, n, h) \<in> set (m_hubs ?m)" for k n h
  proof -
    have "hub_ok h" "h_limits h = limits" using that ok limits by (auto simp: manager_ok_def)
    then show ?thesis using hub_okD(3) [of h] by (simp add: buffer_ok_def)
  qed
  then have "sum_list (List.map (\<lambda>(k, n, h). events_size (h_events h)) (m_hubs ?m))
      \<le> max_replay_bytes limits * int (length (m_hubs ?m))"
    by (intro sum_list_bound) auto
  also have "\<dots> \<le> max_replay_bytes limits * max_hubs limits"
    using ok limits resolve_limits_ok(2) [OF assms] by (intro mult_left_mono) (auto simp: manager_ok_def limits_ok_def)
  also have "\<dots> \<le> max_total_replay_bytes limits" by (rule resolve_limits_ok(4) [OF assms])
  finally show ?thesis using ok limits by (simp add: Let_def manager_ok_def)
qed

theorem replay_memory_bounded_witness:
  "int (length (m_hubs (fold manager_step [AttachOpen RawRpc Observer ''s'' 1] (new_manager demo_limits ''h'')))) \<le> 2"
  using replay_memory_bounded [OF demo_limits_ok(2), of "[AttachOpen RawRpc Observer ''s'' 1]" "''h''"]
  by (simp add: Let_def demo_limits_def)

text \<open>A hub at capacity one, evicted and made again, and a client that comes back to it.\<close>

definition eviction_calls :: "manager_call list" where
  "eviction_calls =
     (let key = hub_key ''s'' 1; on = (\<lambda>n e. HubCall key n [] e) in
      [AttachOpen FramedRpc Observer ''s'' 1, on 0 (HubAdd ''a'' FramedRpc Observer None), on 0 (HubSnapshot ''a'' True),
       on 0 (HubInitialize ''a''), on 0 (HubOutput demo_event), on 0 (HubPeerClosed ''a''),
       AttachOpen FramedRpc Observer ''t'' 1, AttachOpen FramedRpc Observer ''s'' 1,
       on 2 (HubOutput demo_event), on 2 (HubAdd ''b'' FramedRpc Observer (Some (demo_cursor 1))),
       on 2 (HubSnapshot ''b'' True), on 2 (HubInitialize ''b'')])"

text \<open>
  a hub that is evicted and made again numbers its events from one, while cursors name only host,
  session and generation.  A client that saw the first event of the first hub and comes back with its
  cursor to the second one is told of no gap, and is not sent the first event of the second hub.
\<close>

theorem evicted_hub_accepts_old_cursor:
  "(case map_get (m_hubs (fold manager_step (take 5 eviction_calls)
       (new_manager (roomy_limits\<lparr>max_hubs := 1\<rparr>) ''h''))) (hub_key ''s'' 1) of
     Some (n, h) \<Rightarrow> sent ''a'' h = [1] \<and> re_cursor (hd (h_events h)) = demo_cursor 1
   | None \<Rightarrow> False)
   \<and> (case map_get (m_hubs (fold manager_step eviction_calls
       (new_manager (roomy_limits\<lparr>max_hubs := 1\<rparr>) ''h''))) (hub_key ''s'' 1) of
     Some (n, h) \<Rightarrow> n = 2 \<and> h_sequence h = 1 \<and> map_has (h_conns h) ''b'' \<and> sent ''b'' h = []
       \<and> list_all (\<lambda>(i, f). case f of GapFrame r c old new \<Rightarrow> False | _ \<Rightarrow> True) (h_log h)
   | None \<Rightarrow> False)"
  by code_simp

end
