(* ===== verification/JournalRecords.thy ===== *)
theory JournalRecords
  imports TicketStore
begin

text \<open>
  The records of \<open>src/durability.ts\<close>: journal entries and session manifests with their validators, the
  file names derived from session identifiers, fingerprints, and the policy summary that replaces a
  tool adapter's descriptor on disk.
\<close>

section \<open>Session directories and journal names\<close>

definition char_bytes :: "char \<Rightarrow> nat list" where
  "char_bytes c = (let n = char_code c in if n < 128 then [n] else [192 + n div 64, 128 + n mod 64])"

text \<open>\<open>Buffer.from(s, "utf8")\<close>, for code units below 256.\<close>

definition utf8_bytes :: "string \<Rightarrow> nat list" where
  "utf8_bytes s = List.concat (List.map char_bytes s)"

fun sextets :: "nat list \<Rightarrow> nat list" where
  "sextets [] = []"
| "sextets [a] = [a div 4, a mod 4 * 16]"
| "sextets [a, b] = [a div 4, a mod 4 * 16 + b div 16, b mod 16 * 4]"
| "sextets (a # b # c # r) =
     a div 4 # (a mod 4 * 16 + b div 16) # (b mod 16 * 4 + c div 64) # c mod 64 # sextets r"

definition b64url_char :: "nat \<Rightarrow> char" where
  "b64url_char n =
     (if n < 26 then char_of (65 + n) else if n < 52 then char_of (71 + n)
      else if n < 62 then char_of (n - 4) else if n = 62 then CHR ''-'' else CHR ''_'')"

definition base64url :: "nat list \<Rightarrow> string" where
  "base64url bs = List.map b64url_char (sextets bs)"

definition plain_error :: "string \<Rightarrow> js_error" where
  "plain_error code = JsError PlainError code False"

definition encoded_session_id :: "string \<Rightarrow> string result" where
  "encoded_session_id s =
     (if s = [] then Inl (plain_error ''Error'') else Inr (''s-'' @ base64url (utf8_bytes s)))"

definition journal_path :: "string \<Rightarrow> string result" where
  "journal_path s = bind (encoded_session_id s) (\<lambda>e. Inr (e @ ''.jsonl''))"

text \<open>Different sessions have different names.\<close>

fun unsextets :: "nat list \<Rightarrow> nat list" where
  "unsextets [x, y] = [x * 4 + y div 16]"
| "unsextets [x, y, z] = [x * 4 + y div 16, y mod 16 * 16 + z div 4]"
| "unsextets (x # y # z # w # r) = (x * 4 + y div 16) # (y mod 16 * 16 + z div 4) # (z mod 4 * 64 + w) # unsextets r"
| "unsextets _ = []"

lemma unsextets_sextets: "list_all (\<lambda>b. b < 256) bs \<Longrightarrow> unsextets (sextets bs) = bs"
proof (induction bs rule: sextets.induct)
  case (4 a b c r)
  have "b div 16 < 16" "c div 64 < 4" using 4 by auto
  with 4 show ?case by (cases "sextets r") auto
qed auto

lemma sextets_range: "list_all (\<lambda>b. b < 256) bs \<Longrightarrow> list_all (\<lambda>n. n < 64) (sextets bs)"
proof (induction bs rule: sextets.induct)
  case (4 a b c r)
  have "b div 16 < 16" "c div 64 < 4" "a div 4 < 64" "a mod 4 < 4" "b mod 16 < 16" using 4 by auto
  with 4 show ?case by auto
next
  case (3 a b)
  have "b div 16 < 16" using 3 by auto
  then show ?case using 3 by auto
qed auto

lemma b64url_char_inj: "inj_on b64url_char {n. n < 64}"
proof (rule inj_onI)
  define code where "code n = (if n < 26 then 65 + n else if n < 52 then 71 + n
    else if n < 62 then n - 4 else if n = 62 then 45 else 95 :: nat)" for n :: nat
  have "b64url_char n = char_of (code n) \<and> code n < 256" if "n < 64" for n
    using that by (auto simp: b64url_char_def code_def char_of_def bit_Suc_0_iff)
  moreover have "(char_of a :: char) = char_of b \<longleftrightarrow> a = b" if "a < 256" "b < 256" for a b :: nat
    using that by (metis of_char_of mod_less)
  moreover have "code a = code b \<Longrightarrow> a < 64 \<Longrightarrow> b < 64 \<Longrightarrow> a = b" for a b
    by (auto simp: code_def split: if_splits)
  ultimately show "a = b" if "b64url_char a = b64url_char b" "a \<in> {n. n < 64}" "b \<in> {n. n < 64}" for a b
    using that by (metis mem_Collect_eq)
qed

lemma base64url_inj:
  assumes "base64url xs = base64url ys" "list_all (\<lambda>b. b < 256) xs" "list_all (\<lambda>b. b < 256) ys"
  shows "xs = ys"
proof -
  have "set (sextets xs) \<union> set (sextets ys) \<subseteq> {n. n < 64}"
    using sextets_range assms(2,3) by (auto simp: list_all_iff)
  then have "sextets xs = sextets ys"
    using assms(1) unfolding base64url_def by (metis inj_on_map_eq_map inj_on_subset b64url_char_inj)
  then show ?thesis using assms(2,3) by (metis unsextets_sextets)
qed

fun unutf8 :: "nat list \<Rightarrow> string" where
  "unutf8 [] = []"
| "unutf8 [n] = [char_of n]"
| "unutf8 (n # m # r) =
     (if n < 128 then char_of n # unutf8 (m # r) else char_of ((n - 192) * 64 + (m - 128)) # unutf8 r)"

lemma char_code_less [simp]: "char_code c < 256"
  by simp

lemma unutf8_small: "n < 128 \<Longrightarrow> unutf8 (n # r) = char_of n # unutf8 r"
  by (cases r) simp_all

lemma unutf8_utf8: "unutf8 (utf8_bytes s) = s"
proof (induction s)
  case (Cons c s)
  have "char_of ((192 + char_code c div 64 - 192) * 64 + (128 + char_code c mod 64 - 128)) = c"
    by simp
  with Cons show ?case
    by (auto simp: utf8_bytes_def char_bytes_def Let_def unutf8_small simp del: char_code.simps)
qed (simp add: utf8_bytes_def)

lemma utf8_bytes_range: "list_all (\<lambda>b. b < 256) (utf8_bytes s)"
proof -
  have "char_code c div 64 < 4" for c
    using char_code_less [of c] by (simp only: div_less_iff_less_mult)
  then have "char_code c div 64 < 64" for c
    by (rule less_trans) simp
  then have "192 + char_code c div 64 < 256" "128 + char_code c mod 64 < 256" for c
    by (simp_all del: char_code.simps)
  then show ?thesis
    by (auto simp: list_all_iff utf8_bytes_def char_bytes_def Let_def simp del: char_code.simps split: if_splits)
qed

lemma encoded_session_id_inj:
  "encoded_session_id s = Inr n \<Longrightarrow> encoded_session_id t = Inr n \<Longrightarrow> s = t"
  by (auto simp: encoded_session_id_def split: if_splits)
     (metis base64url_inj utf8_bytes_range unutf8_utf8)

lemma journal_path_inj: "journal_path s = Inr n \<Longrightarrow> journal_path t = Inr n \<Longrightarrow> s = t"
  by (auto simp: journal_path_def bind_ok dest: encoded_session_id_inj)

lemma journal_path_ok: "s \<noteq> [] \<Longrightarrow> \<exists>n. journal_path s = Inr n"
  by (simp add: journal_path_def encoded_session_id_def)

section \<open>Journal entries\<close>

datatype journal_state = JQueued | JAccepted | JCompleted | JFailed | JIndeterminate

fun journal_state_str :: "journal_state \<Rightarrow> string" where
  "journal_state_str JQueued = ''queued''"
| "journal_state_str JAccepted = ''accepted''"
| "journal_state_str JCompleted = ''completed''"
| "journal_state_str JFailed = ''failed''"
| "journal_state_str JIndeterminate = ''indeterminate''"

definition journal_state_of :: "string \<Rightarrow> journal_state option" where
  "journal_state_of s =
     (if s = ''queued'' then Some JQueued else if s = ''accepted'' then Some JAccepted
      else if s = ''completed'' then Some JCompleted else if s = ''failed'' then Some JFailed
      else if s = ''indeterminate'' then Some JIndeterminate else None)"

definition is_journal_state :: "json option \<Rightarrow> bool" where
  "is_journal_state v \<longleftrightarrow> (case as_string v of Some s \<Rightarrow> journal_state_of s \<noteq> None | None \<Rightarrow> False)"

fun journal_transition_allowed :: "journal_state \<Rightarrow> journal_state \<Rightarrow> bool \<Rightarrow> bool" where
  "journal_transition_allowed JQueued to reconciliation \<longleftrightarrow> to = JAccepted \<or> to = JFailed"
| "journal_transition_allowed JAccepted to reconciliation \<longleftrightarrow>
     to = JCompleted \<or> to = JFailed \<or> to = JIndeterminate"
| "journal_transition_allowed _ to reconciliation \<longleftrightarrow> reconciliation \<and> (to = JCompleted \<or> to = JFailed)"

fun is_terminal_journal :: "journal_state \<Rightarrow> bool" where
  "is_terminal_journal s \<longleftrightarrow> s = JCompleted \<or> s = JFailed \<or> s = JIndeterminate"

text \<open>\<open>e_error\<close> is the object with \<open>code\<close>, \<open>message\<close> and \<open>retryable\<close>, which the store never reads.\<close>

record journal_entry =
  e_session :: string
  e_generation :: int
  e_key :: string
  e_request_id :: string
  e_fingerprint :: string
  e_state :: journal_state
  e_command :: json
  e_created :: string
  e_updated :: string
  e_result :: "json option"
  e_error :: "json option"

text \<open>The line \<open>JSON.stringify\<close> prints; undefined properties are left out.\<close>

definition entry_json :: "journal_entry \<Rightarrow> json" where
  "entry_json e =
     JObj ([(''formatVersion'', JNum 1), (''sessionId'', JStr (e_session e)), (''generation'', JNum (e_generation e)),
            (''idempotencyKey'', JStr (e_key e)), (''requestId'', JStr (e_request_id e)),
            (''fingerprint'', JStr (e_fingerprint e)), (''state'', JStr (journal_state_str (e_state e))),
            (''command'', e_command e), (''createdAt'', JStr (e_created e)), (''updatedAt'', JStr (e_updated e))]
           @ (case e_result e of None \<Rightarrow> [] | Some r \<Rightarrow> [(''result'', r)])
           @ (case e_error e of None \<Rightarrow> [] | Some r \<Rightarrow> [(''error'', r)]))"

definition entry_of_json :: "json \<Rightarrow> journal_entry" where
  "entry_of_json v =
     \<lparr>e_session = str_field v ''sessionId'',
      e_generation = (case as_int (field v ''generation'') of Some g \<Rightarrow> g | None \<Rightarrow> 0),
      e_key = str_field v ''idempotencyKey'', e_request_id = str_field v ''requestId'',
      e_fingerprint = str_field v ''fingerprint'',
      e_state = (case journal_state_of (str_field v ''state'') of Some s \<Rightarrow> s | None \<Rightarrow> JFailed),
      e_command = (case field v ''command'' of Some c \<Rightarrow> c | None \<Rightarrow> JNull),
      e_created = str_field v ''createdAt'', e_updated = str_field v ''updatedAt'',
      e_result = field v ''result'', e_error = field v ''error''\<rparr>"

text \<open>\<open>validateJournalEntry\<close>; every violation throws \<open>corrupt_state\<close>.\<close>

definition valid_journal_entry :: "json \<Rightarrow> bool" where
  "valid_journal_entry v \<longleftrightarrow>
     is_record v
     \<and> field v ''formatVersion'' = Some (JNum 1)
     \<and> list_all (\<lambda>k. nonempty_string (field v k)) [''sessionId'', ''idempotencyKey'', ''requestId'', ''fingerprint'']
     \<and> safe_int_from 0 (field v ''generation'')
     \<and> is_journal_state (field v ''state'')
     \<and> (case field v ''command'' of
          Some c \<Rightarrow> is_record c \<and> field c ''operation'' = Some (JStr ''wake'') | None \<Rightarrow> False)
     \<and> as_string (field v ''createdAt'') \<noteq> None \<and> as_string (field v ''updatedAt'') \<noteq> None"

definition validate_journal_entry :: "json \<Rightarrow> unit result" where
  "validate_journal_entry v = require (valid_journal_entry v) corrupt_state"

text \<open>\<open>compareJournalEntries(a, b) <= 0\<close>.\<close>

definition compare_journal_entries :: "platform \<Rightarrow> journal_entry \<Rightarrow> journal_entry \<Rightarrow> bool" where
  "compare_journal_entries P a b =
     (if collate P (e_created a) (e_created b) \<and> collate P (e_created b) (e_created a)
      then collate P (e_key a) (e_key b)
      else collate P (e_created a) (e_created b))"

definition wake_ticket_id :: "platform \<Rightarrow> string \<Rightarrow> string \<Rightarrow> string" where
  "wake_ticket_id P session key =
     ''ticket-'' @ take 43 (sha256_b64url P (''WAKE'' @ [newline] @ session @ [newline] @ key))"

text \<open>The command as far as a retry must repeat it: without its wait mode and its request identifier.\<close>

definition request_fingerprint :: "platform \<Rightarrow> json \<Rightarrow> string" where
  "request_fingerprint P c =
     sha256_hex P (canonical_json (collate P)
       (JObj [(''sessionId'', JStr (str_field c ''sessionId'')),
              (''generation'', case field c ''generation'' of Some g \<Rightarrow> g | None \<Rightarrow> JNull),
              (''idempotencyKey'', JStr (str_field c ''idempotencyKey'')),
              (''payload'', case field c ''payload'' of Some p \<Rightarrow> without_key ''waitForTerminal'' p | None \<Rightarrow> JNull)]))"

lemma journal_state_round_trip [simp]: "journal_state_of (journal_state_str s) = Some s"
  by (cases s) (simp_all add: journal_state_of_def)

lemma entry_round_trip [simp]: "entry_of_json (entry_json e) = e"
  by (cases e) (auto simp: entry_of_json_def entry_json_def str_field_def split: option.splits)

end
