(* ===== verification/Manifests.thy ===== *)
theory Manifests
  imports JournalRecords
begin

text \<open>
  Session manifests of \<open>src/durability.ts\<close>: the record a restarted host reopens a session from, its
  validator, and the redaction of a tool adapter's policy (\<open>durableToolAdapterSummary\<close>,
  \<open>durableOpenPayload\<close>): the descriptor's endpoint, binding and capability handle stay in memory.
\<close>

section \<open>Patterns\<close>

text \<open>A nonempty run of digits, \<open>\d+\<close>; \<open>0|[1-9]\d*\<close>; the pattern \<open>^\d+\.\d+$\<close>.\<close>

definition digits :: "string \<Rightarrow> bool" where
  "digits s \<longleftrightarrow> s \<noteq> [] \<and> list_all is_digit s"

definition version_number :: "string \<Rightarrow> bool" where
  "version_number s \<longleftrightarrow> digits s \<and> (hd s = CHR ''0'' \<longrightarrow> s = ''0'')"

definition dotted_version :: "string \<Rightarrow> bool" where
  "dotted_version s \<longleftrightarrow> (case split_on (CHR ''.'') s of [a, b] \<Rightarrow> digits a \<and> digits b | _ \<Rightarrow> False)"

text \<open>
  \<open>SEMVER_PATTERN\<close>: the core has neither \<open>-\<close> nor \<open>+\<close> and the pre-release part no \<open>+\<close>, so the first \<open>+\<close>
  opens the build part and the first \<open>-\<close> before it the pre-release part.
\<close>

definition label_char :: "char \<Rightarrow> bool" where
  "label_char c \<longleftrightarrow> is_alnum c \<or> c = CHR ''.'' \<or> c = CHR ''-''"

definition label_part :: "char \<Rightarrow> string \<Rightarrow> bool" where
  "label_part mark s \<longleftrightarrow> s = [] \<or> (hd s = mark \<and> tl s \<noteq> [] \<and> list_all label_char (tl s))"

definition semver_pattern :: "string \<Rightarrow> bool" where
  "semver_pattern s =
     (let plain = takeWhile (\<lambda>c. c \<noteq> CHR ''+'') s; build = dropWhile (\<lambda>c. c \<noteq> CHR ''+'') s;
          core = takeWhile (\<lambda>c. c \<noteq> CHR ''-'') plain; pre = dropWhile (\<lambda>c. c \<noteq> CHR ''-'') plain
      in (case split_on (CHR ''.'') core of
            [a, b, c] \<Rightarrow> version_number a \<and> version_number b \<and> version_number c
          | _ \<Rightarrow> False)
         \<and> label_part (CHR ''-'') pre \<and> label_part (CHR ''+'') build)"

text \<open>The pattern \<open>^[A-Za-z0-9][A-Za-z0-9._-]{0,127}$\<close>.\<close>

fun adapter_id_pattern :: "string \<Rightarrow> bool" where
  "adapter_id_pattern [] = False"
| "adapter_id_pattern (c # cs) \<longleftrightarrow>
     is_alnum c \<and> length cs \<le> 127 \<and> list_all (\<lambda>d. is_alnum d \<or> d \<in> set ''._-'') cs"

text \<open>\<open>isAbsolute(p) && resolve(p) === p\<close>, for the paths of a POSIX system.\<close>

definition resolved_path :: "string \<Rightarrow> bool" where
  "resolved_path p \<longleftrightarrow>
     p = ''/'' \<or> (p \<noteq> [] \<and> hd p = CHR ''/'' \<and> list_all (\<lambda>w. w \<notin> {[], ''.'', ''..''}) (split_on (CHR ''/'') (tl p)))"

section \<open>The policy of a tool adapter\<close>

definition neutral_tool_operations :: "string list" where
  "neutral_tool_operations = [''fs.list'', ''fs.stat'', ''fs.read'', ''fs.search'', ''fs.write'', ''fs.edit'']"

definition tool_adapter_limit_bounds :: "(string \<times> int \<times> int) list" where
  "tool_adapter_limit_bounds =
     [(''maxRequestBytes'', 2048, 4194304), (''maxResponseBytes'', 1024, 4194304), (''maxConcurrentRequests'', 1, 64),
      (''maxQueuedRequests'', 0, 256), (''requestTimeoutMs'', 100, 120000), (''maxIdempotencyKeys'', 1, 4096),
      (''idempotencyTtlMs'', 1000, 86400000)]"

definition tool_adapter_limit_fields :: "string list" where
  "tool_adapter_limit_fields =
     [''maxRequestBytes'', ''maxResponseBytes'', ''maxConcurrentRequests'', ''maxQueuedRequests'', ''requestTimeoutMs'',
      ''maxIdempotencyKeys'', ''idempotencyTtlMs'']"

definition valid_tool_adapter_limit :: "string \<Rightarrow> json option \<Rightarrow> bool" where
  "valid_tool_adapter_limit k v =
     (case (map_of tool_adapter_limit_bounds k, as_int v) of
        (Some (lo, hi), Some n) \<Rightarrow> safe_int n \<and> lo \<le> n \<and> n \<le> hi
      | _ \<Rightarrow> False)"

text \<open>What the validators of a descriptor and of its summary share.\<close>

definition adapter_identity_ok :: "json \<Rightarrow> bool" where
  "adapter_identity_ok v \<longleftrightarrow>
     field v ''protocolVersion'' = Some (JStr ''1.0'')
     \<and> (case as_string (field v ''adapterId'') of Some s \<Rightarrow> adapter_id_pattern s | None \<Rightarrow> False)
     \<and> (case as_string (field v ''adapterVersion'') of Some s \<Rightarrow> semver_pattern s | None \<Rightarrow> False)"

definition operations_ok :: "json option \<Rightarrow> bool" where
  "operations_ok v =
     (case v of
        Some (JArr ops) \<Rightarrow>
          distinct ops \<and> list_all (\<lambda>w. case w of JStr s \<Rightarrow> s \<in> set neutral_tool_operations | _ \<Rightarrow> False) ops
      | _ \<Rightarrow> False)"

definition invalid_tool_adapter_policy :: js_error where
  "invalid_tool_adapter_policy = durability_error ''invalid_tool_adapter_policy''"

definition summary_limits :: "json \<Rightarrow> json" where
  "summary_limits limits =
     JObj (List.map (\<lambda>k. (k, case field limits k of Some v \<Rightarrow> v | None \<Rightarrow> JNull)) tool_adapter_limit_fields)"

definition durable_tool_adapter_summary :: "json \<Rightarrow> json option result" where
  "durable_tool_adapter_summary payload =
     (let tools = (case field payload ''resources'' of Some r \<Rightarrow> field r ''tools'' | None \<Rightarrow> None) in
      if \<not> is_record_field tools then Inr None
      else if field (the tools) ''mode'' \<noteq> Some (JStr ''host-adapter'')
        \<or> \<not> is_record_field (field (the tools) ''descriptor'')
      then Inl invalid_tool_adapter_policy
      else
        (let d = the (field (the tools) ''descriptor'') in
         if \<not> adapter_identity_ok d \<or> \<not> operations_ok (field d ''operations'') \<or> \<not> is_record_field (field d ''limits'')
         then Inl invalid_tool_adapter_policy
         else if \<not> list_all (\<lambda>k. valid_tool_adapter_limit k (field (the (field d ''limits'')) k)) tool_adapter_limit_fields
         then Inl invalid_tool_adapter_policy
         else Inr (Some (JObj
           [(''protocolVersion'', the (field d ''protocolVersion'')), (''adapterId'', the (field d ''adapterId'')),
            (''adapterVersion'', the (field d ''adapterVersion'')), (''operations'', the (field d ''operations'')),
            (''limits'', summary_limits (the (field d ''limits'')))]))))"

definition durable_open_payload :: "json \<Rightarrow> bool \<Rightarrow> json" where
  "durable_open_payload payload redact =
     (case field payload ''resources'' of
        None \<Rightarrow> payload
      | Some r \<Rightarrow> if redact then set_field payload ''resources'' (set_field r ''tools'' (JStr ''none'')) else payload)"

section \<open>Validation of a manifest\<close>

definition valid_tool_adapter_summary :: "json \<Rightarrow> bool" where
  "valid_tool_adapter_summary v \<longleftrightarrow>
     is_record v \<and> adapter_identity_ok v
     \<and> operations_ok (field v ''operations'') \<and> field v ''operations'' \<noteq> Some (JArr [])
     \<and> is_record_field (field v ''limits'')
     \<and> list_all (\<lambda>k. valid_tool_adapter_limit k (field (the (field v ''limits'')) k)) tool_adapter_limit_fields"

definition valid_conversation :: "json \<Rightarrow> bool" where
  "valid_conversation v \<longleftrightarrow>
     is_record v \<and> nonempty_string (field v ''sessionId'')
     \<and> (case as_string (field v ''sessionFile'') of Some p \<Rightarrow> resolved_path p | None \<Rightarrow> False)"

definition valid_manifest :: "json \<Rightarrow> bool" where
  "valid_manifest v \<longleftrightarrow>
     is_record v
     \<and> field v ''formatVersion'' = Some (JNum 1)
     \<and> (case field v ''protocolVersion'' of
          None \<Rightarrow> True | Some p \<Rightarrow> (case as_string (Some p) of Some s \<Rightarrow> dotted_version s | None \<Rightarrow> False))
     \<and> nonempty_string (field v ''sessionId'')
     \<and> safe_int_from 0 (field v ''generation'')
     \<and> (case field v ''payload'' of
          None \<Rightarrow> False
        | Some p \<Rightarrow>
            is_record p
            \<and> (let tools = (case field p ''resources'' of Some r \<Rightarrow> field r ''tools'' | None \<Rightarrow> None) in
               \<not> is_record_field tools
               \<and> (case field v ''toolAdapter'' of
                    None \<Rightarrow> True
                  | Some s \<Rightarrow> valid_tool_adapter_summary s \<and> tools = Some (JStr ''none''))))
     \<and> (case field v ''conversation'' of None \<Rightarrow> True | Some c \<Rightarrow> valid_conversation c)
     \<and> as_string (field v ''createdAt'') \<noteq> None \<and> as_string (field v ''updatedAt'') \<noteq> None"

definition validate_manifest :: "json \<Rightarrow> unit result" where
  "validate_manifest v = require (valid_manifest v) corrupt_state"

text \<open>The manifest \<open>saveManifest\<close> builds.\<close>

definition manifest_json :: "json \<Rightarrow> json option \<Rightarrow> json option \<Rightarrow> string \<Rightarrow> string \<Rightarrow> json" where
  "manifest_json command summary conversation created now =
     JObj ([(''formatVersion'', JNum 1)]
       @ (case field command ''protocolVersion'' of Some p \<Rightarrow> [(''protocolVersion'', p)] | None \<Rightarrow> [])
       @ [(''sessionId'', JStr (str_field command ''sessionId'')),
          (''generation'', case field command ''generation'' of Some g \<Rightarrow> g | None \<Rightarrow> JNull),
          (''payload'', durable_open_payload (case field command ''payload'' of Some p \<Rightarrow> p | None \<Rightarrow> JNull) (summary \<noteq> None))]
       @ (case summary of Some s \<Rightarrow> [(''toolAdapter'', s)] | None \<Rightarrow> [])
       @ (case conversation of Some c \<Rightarrow> [(''conversation'', c)] | None \<Rightarrow> [])
       @ [(''createdAt'', JStr created), (''updatedAt'', JStr now)])"

section \<open>Reading what was set\<close>

lemma map_set_twice [simp]: "map_set (map_set m k a) k b = map_set m k b"
  by (induction m) auto

lemma set_field_twice [simp]: "set_field (set_field v k a) k b = set_field v k b"
  by (cases v) simp_all

lemma field_set [simp]: "is_record v \<Longrightarrow> field (set_field v k x) k' = (if k' = k then Some x else field v k')"
  by (cases v) (simp_all add: update_conv')

lemma is_record_set [simp]: "is_record (set_field v k x) = is_record v"
  by (cases v) simp_all

end
