(* ===== verification/Effects.thy ===== *)
theory Effects
  imports Prelude
begin

text \<open>
  Statements of the stores that change a state and may throw: a function from the state to a result
  and the next state.  Sequencing stops at the first throw and keeps what was changed before it; a
  loop runs its body over a list.  The lemmas lift an invariant, or a relation between the states
  before and after, from the parts of a statement to the whole.
\<close>

named_theorems keeps_intros
named_theorems moves_intros

type_synonym ('st, 'a) effect = "'st \<Rightarrow> 'a result \<times> 'st"

definition give :: "'a \<Rightarrow> ('st, 'a) effect" where
  "give x st = (Inr x, st)"

definition throw :: "js_error \<Rightarrow> ('st, 'a) effect" where
  "throw e st = (Inl e, st)"

definition lift_result :: "'a result \<Rightarrow> ('st, 'a) effect" where
  "lift_result r st = (r, st)"

definition change :: "('st \<Rightarrow> 'st) \<Rightarrow> ('st, unit) effect" where
  "change f st = (Inr (), f st)"

definition then_do :: "('st, 'a) effect \<Rightarrow> ('a \<Rightarrow> ('st, 'b) effect) \<Rightarrow> ('st, 'b) effect" where
  "then_do m f st = (case m st of (Inl e, st') \<Rightarrow> (Inl e, st') | (Inr x, st') \<Rightarrow> f x st')"

definition reading :: "('st \<Rightarrow> ('st, 'a) effect) \<Rightarrow> ('st, 'a) effect" where
  "reading f st = f st st"

fun for_each :: "('x \<Rightarrow> ('st, unit) effect) \<Rightarrow> 'x list \<Rightarrow> ('st, unit) effect" where
  "for_each body [] st = (Inr (), st)"
| "for_each body (x # xs) st = then_do (body x) (\<lambda>_. for_each body xs) st"

lemma effect_simps [simp]:
  "give x st = (Inr x, st)" "throw e st = (Inl e, st)" "lift_result r st = (r, st)" "change f st = (Inr (), f st)"
  "reading g st = g st st"
  by (simp_all add: give_def throw_def lift_result_def change_def reading_def)

lemma then_do_ok:
  "then_do m f st = (Inr y, st2) \<longleftrightarrow> (\<exists>x st1. m st = (Inr x, st1) \<and> f x st1 = (Inr y, st2))"
  by (auto simp: then_do_def split: prod.splits sum.splits)

lemma then_do_err:
  "then_do m f st = (Inl e, st2) \<longleftrightarrow> m st = (Inl e, st2) \<or> (\<exists>x st1. m st = (Inr x, st1) \<and> f x st1 = (Inl e, st2))"
  by (auto simp: then_do_def split: prod.splits sum.splits)

lemma then_do_Inr [simp]: "m st = (Inr x, st1) \<Longrightarrow> then_do m f st = f x st1"
  by (simp add: then_do_def)

lemma then_do_Inl [simp]: "m st = (Inl e, st1) \<Longrightarrow> then_do m f st = (Inl e, st1)"
  by (simp add: then_do_def)

section \<open>Invariants of statements\<close>

definition keeps :: "('st \<Rightarrow> bool) \<Rightarrow> ('st, 'a) effect \<Rightarrow> bool" where
  "keeps I m \<longleftrightarrow> (\<forall>st. I st \<longrightarrow> I (snd (m st)))"

lemma keepsI: "(\<And>st. I st \<Longrightarrow> I (snd (m st))) \<Longrightarrow> keeps I m"
  by (simp add: keeps_def)

lemma keepsD: "keeps I m \<Longrightarrow> I st \<Longrightarrow> I (snd (m st))"
  by (simp add: keeps_def)

lemma keeps_simple [keeps_intros]: "keeps I (give x)" "keeps I (throw e)" "keeps I (lift_result r)"
  by (simp_all add: keeps_def)

lemma keeps_then [keeps_intros]: "keeps I m \<Longrightarrow> (\<And>x. keeps I (f x)) \<Longrightarrow> keeps I (then_do m f)"
  by (auto simp: keeps_def then_do_def split: prod.splits sum.splits)

text \<open>A continuation that relies on what the statement before it has established.\<close>

lemma keeps_after:
  assumes "keeps I m" and "\<And>st st' x. I st \<Longrightarrow> m st = (Inr x, st') \<Longrightarrow> I st' \<Longrightarrow> I (snd (f x st'))"
  shows "keeps I (then_do m f)"
proof (rule keepsI)
  fix st
  assume I: "I st"
  obtain r st1 where m: "m st = (r, st1)" by fastforce
  with keepsD [OF assms(1) I] have "I st1" by simp
  with m I assms(2) show "I (snd (then_do m f st))" by (cases r) simp_all
qed

lemma keeps_lift: "(\<And>x. r = Inr x \<Longrightarrow> keeps I (f x)) \<Longrightarrow> keeps I (then_do (lift_result r) f)"
  by (cases r) (simp_all add: keeps_def)

lemma keeps_reading [keeps_intros]: "(\<And>x. keeps I (f x)) \<Longrightarrow> keeps I (reading f)"
  by (simp add: keeps_def)

lemma keeps_change: "(\<And>st. I st \<Longrightarrow> I (f st)) \<Longrightarrow> keeps I (change f)"
  by (simp add: keeps_def)

lemma keeps_for_each [keeps_intros]: "(\<And>x. keeps I (body x)) \<Longrightarrow> keeps I (for_each body xs)"
proof (induction xs)
  case Nil
  show ?case by (simp add: keeps_def)
next
  case (Cons x xs)
  have "keeps I (then_do (body x) (\<lambda>_. for_each body xs))" using Cons by (intro keeps_then) auto
  then show ?case by (simp add: keeps_def)
qed

lemma for_each_ok:
  assumes "for_each body xs st = (Inr u, st')" and "I st"
    and "\<And>x st st1 v. x \<in> set xs \<Longrightarrow> I st \<Longrightarrow> body x st = (Inr v, st1) \<Longrightarrow> I st1"
  shows "I st'"
  using assms by (induction xs arbitrary: st) (auto simp: then_do_ok)

lemma for_each_all_ok:
  assumes "for_each body xs st = (Inr u, st')" and "x \<in> set xs" and "I st"
    and "\<And>x. keeps I (body x)"
  shows "\<exists>st1 v st2. I st1 \<and> body x st1 = (Inr v, st2)"
  using assms
proof (induction xs arbitrary: st)
  case (Cons y ys)
  then obtain v st1 where y: "body y st = (Inr v, st1)" "for_each body ys st1 = (Inr u, st')"
    by (auto simp: then_do_ok)
  show ?case
  proof (cases "x = y")
    case True
    with y(1) Cons.prems(3) show ?thesis by blast
  next
    case False
    have "I st1" using keepsD [OF Cons.prems(4) Cons.prems(3), of y] y(1) by simp
    with Cons.IH [OF y(2) _ _ Cons.prems(4)] Cons.prems(2) False show ?thesis by simp
  qed
qed simp

section \<open>Relations between before and after\<close>

definition moves :: "('st \<Rightarrow> 'st \<Rightarrow> bool) \<Rightarrow> ('st, 'a) effect \<Rightarrow> bool" where
  "moves R m \<longleftrightarrow> (\<forall>st. R st (snd (m st)))"

lemma movesD: "moves R m \<Longrightarrow> R st (snd (m st))"
  by (simp add: moves_def)

lemma moves_simple [moves_intros]: "reflp R \<Longrightarrow> moves R (give x)" "reflp R \<Longrightarrow> moves R (throw e)"
  "reflp R \<Longrightarrow> moves R (lift_result r)"
  by (simp_all add: moves_def reflp_def)

lemma moves_then [moves_intros]:
  assumes "transp R" and "moves R m" and "\<And>x. moves R (f x)"
  shows "moves R (then_do m f)"
proof (unfold moves_def, rule allI)
  fix st
  obtain r st1 where m: "m st = (r, st1)" by fastforce
  then have "R st st1" using assms(2) by (metis movesD snd_conv)
  then show "R st (snd (then_do m f st))"
    using m assms(1,3) by (cases r) (auto simp: moves_def dest: transpD)
qed

lemma moves_reading [moves_intros]: "(\<And>x. moves R (f x)) \<Longrightarrow> moves R (reading f)"
  by (simp add: moves_def)

lemma moves_for_each [moves_intros]:
  assumes "reflp R" and "transp R" and "\<And>x. moves R (body x)"
  shows "moves R (for_each body xs)"
proof (induction xs)
  case Nil
  show ?case using assms(1) by (simp add: moves_def reflp_def)
next
  case (Cons x xs)
  have "moves R (then_do (body x) (\<lambda>_. for_each body xs))" using assms Cons by (intro moves_then) auto
  then show ?case by (simp add: moves_def)
qed

end
