(* ===== verification/Journal.thy ===== *)
theory Journal
  imports Manifests Effects
begin

text \<open>
  \<open>FileDurabilityStore\<close> of \<open>src/durability.ts\<close>: the append-only request journal of every session, its
  replay, and the session manifests.

  A journal file is the list of its lines, as far as \<open>JSON.parse\<close> is concerned, with its size in bytes
  and whether its last line lacks the final newline; empty lines, which the loader skips, are left
  out.  The operations of one session run one after another (the \<open>#serialize\<close> tail), so each is a
  function of the store; \<open>journal_io\<close> holds what one call gets from the file system and the clock.
\<close>

section \<open>Configuration\<close>

record journal_config =
  max_terminal_entries :: nat
  terminal_retention_ms :: int
  max_journal_record_bytes :: nat
  max_journal_file_bytes :: nat
  max_manifest_bytes :: nat
  max_recovered_sessions :: nat
  max_recovered_bytes :: nat

record durability_options =
  opt_terminal_entries :: "int option"
  opt_terminal_retention :: "int option"
  opt_record_bytes :: "int option"
  opt_file_bytes :: "int option"
  opt_manifest_bytes :: "int option"
  opt_recovered_sessions :: "int option"
  opt_recovery_bytes :: "int option"

definition make_journal_config :: "string \<Rightarrow> durability_options \<Rightarrow> journal_config result" where
  "make_journal_config state_dir opts =
     (if state_dir = [] then Inl (plain_error ''Error'')
      else
        bind (positive_integer (or_default (opt_terminal_entries opts) 256)) (\<lambda>terminal.
        bind (non_negative_integer (or_default (opt_terminal_retention opts) 604800000)) (\<lambda>retention.
        bind (positive_integer (or_default (opt_record_bytes opts) 1048576)) (\<lambda>recd.
        bind (positive_integer (or_default (opt_file_bytes opts) 67108864)) (\<lambda>file.
        bind (positive_integer (or_default (opt_manifest_bytes opts) 1048576)) (\<lambda>manifest.
        bind (positive_integer (or_default (opt_recovered_sessions opts) 4096)) (\<lambda>sessions.
        bind (positive_integer (or_default (opt_recovery_bytes opts) 268435456)) (\<lambda>bytes.
          Inr \<lparr>max_terminal_entries = nat terminal, terminal_retention_ms = retention,
               max_journal_record_bytes = nat recd, max_journal_file_bytes = nat file,
               max_manifest_bytes = nat manifest, max_recovered_sessions = nat sessions,
               max_recovered_bytes = nat bytes\<rparr>))))))))"

section \<open>State\<close>

record journal_file =
  jf_info :: path_info
  jf_lines :: "file_text list"
  jf_size :: nat
  jf_torn :: bool

record session_dir =
  sd_info :: path_info
  sd_files :: directory

type_synonym entries = "(string, journal_entry) jsmap"

record journal_store =
  j_entries :: "(string, entries) jsmap"
  j_tickets :: "(string, string \<times> string) jsmap"
  j_loaded :: "string list"
  j_initialized :: bool
  j_scanned :: bool
  j_recovery_bytes :: nat
  j_files :: "(string, journal_file) jsmap"
  j_sessions :: "(string, session_dir) jsmap"

text \<open>A store over these directories: what the constructor makes, and what a restarted process has.\<close>

definition fresh_store :: "(string, journal_file) jsmap \<Rightarrow> (string, session_dir) jsmap \<Rightarrow> journal_store" where
  "fresh_store files sessions =
     \<lparr>j_entries = [], j_tickets = [], j_loaded = [], j_initialized = False, j_scanned = False,
      j_recovery_bytes = 0, j_files = files, j_sessions = sessions\<rparr>"

definition reopened :: "journal_store \<Rightarrow> journal_store" where
  "reopened st = fresh_store (j_files st) (j_sessions st)"

definition lookup_entry :: "journal_store \<Rightarrow> string \<times> string \<Rightarrow> journal_entry option" where
  "lookup_entry st sk =
     (case map_get (j_entries st) (fst sk) of None \<Rightarrow> None | Some m \<Rightarrow> map_get m (snd sk))"

text \<open>
  The ends of an append: done; the entry is no JSON; the file could not be opened; some bytes of the
  line were written and then an error was thrown (all but the newline at most); the whole line was
  written and then \<open>sync\<close>, \<open>close\<close> or \<open>chmod\<close> threw.
\<close>

datatype append_outcome =
    Appended | NotSerializable | NotOpened js_error | TornAppend nat js_error | AppendThrew js_error

record journal_io =
  jio_ready :: "unit result"
  jio_now :: int
  jio_stamp :: "string \<Rightarrow> int"
  jio_append :: "string \<Rightarrow> append_outcome"
  jio_rewrite :: write_outcome
  jio_manifest :: write_outcome
  jio_rm :: "nat \<Rightarrow> js_error option"

text \<open>
  \<open>jio_stamp\<close> and \<open>jio_append\<close> are given per idempotency key, since a recovery appends several
  entries; \<open>jio_rm\<close> per removal of one call.
\<close>

section \<open>Files\<close>

definition own_info :: "uid option \<Rightarrow> node_kind \<Rightarrow> mode \<Rightarrow> path_info" where
  "own_info current kind m =
     \<lparr>node_kind = kind, node_uid = (case current of None \<Rightarrow> 0 | Some u \<Rightarrow> u), node_mode = m\<rparr>"

definition opened_file :: "uid option \<Rightarrow> journal_file option \<Rightarrow> journal_file" where
  "opened_file current f =
     (case f of
        Some g \<Rightarrow> g
      | None \<Rightarrow> \<lparr>jf_info = own_info current RegularFile 384, jf_lines = [], jf_size = 0, jf_torn = False\<rparr>)"

definition line_size :: "json \<Rightarrow> nat" where
  "line_size v = compact_size v + 1"

text \<open>A line appended after a torn one continues it: neither can be read any more.\<close>

definition with_line :: "json \<Rightarrow> journal_file \<Rightarrow> journal_file" where
  "with_line v f =
     f\<lparr>jf_lines := (if jf_torn f then butlast (jf_lines f) @ [BadText] else jf_lines f @ [JsonText v]),
       jf_size := jf_size f + line_size v, jf_torn := False\<rparr>"

definition with_torn_line :: "nat \<Rightarrow> json \<Rightarrow> journal_file \<Rightarrow> journal_file" where
  "with_torn_line n v f =
     (if n = 0 then f
      else f\<lparr>jf_lines :=
               (if jf_torn f then butlast (jf_lines f) @ [BadText]
                else jf_lines f @ [if n \<ge> compact_size v then JsonText v else BadText]),
             jf_size := jf_size f + min n (compact_size v), jf_torn := True\<rparr>)"

text \<open>The file \<open>atomicWriteLines\<close> publishes; it holds a single newline when there is no line.\<close>

definition rewritten_file :: "uid option \<Rightarrow> json list \<Rightarrow> journal_file" where
  "rewritten_file current vs =
     \<lparr>jf_info = own_info current RegularFile 384, jf_lines = List.map JsonText vs,
      jf_size = (if vs = [] then 1 else sum_list (List.map line_size vs)), jf_torn = False\<rparr>"

definition put_file :: "string \<Rightarrow> journal_file \<Rightarrow> journal_store \<Rightarrow> journal_store" where
  "put_file name f st = st\<lparr>j_files := map_set (j_files st) name f\<rparr>"

definition atomic_write_lines ::
  "uid option \<Rightarrow> write_outcome \<Rightarrow> string \<Rightarrow> json list \<Rightarrow> (journal_store, unit) effect" where
  "atomic_write_lines current outcome name vs st =
     (case outcome of
        Published \<Rightarrow> (Inr (), put_file name (rewritten_file current vs) st)
      | NotPublished e \<Rightarrow> (Inl e, st)
      | PublishedThrew e \<Rightarrow> (Inl e, put_file name (rewritten_file current vs) st))"

section \<open>Internal steps\<close>

definition journal_initialize :: "journal_io \<Rightarrow> (journal_store, unit) effect" where
  "journal_initialize io st =
     (if j_initialized st then (Inr (), st)
      else case jio_ready io of
        Inl e \<Rightarrow> (Inl e, st)
      | Inr _ \<Rightarrow> (Inr (), st\<lparr>j_initialized := True\<rparr>))"

definition claim_recovery_bytes :: "journal_config \<Rightarrow> nat \<Rightarrow> (journal_store, unit) effect" where
  "claim_recovery_bytes cfg n st =
     (let st' = st\<lparr>j_recovery_bytes := j_recovery_bytes st + n\<rparr> in
      if j_recovery_bytes st' > max_recovered_bytes cfg then (Inl (durability_error ''recovery_bytes_exceeded''), st')
      else (Inr (), st'))"

text \<open>Opening the file for appending, writing the line, \<open>sync\<close>, \<open>close\<close> and \<open>chmod\<close>.\<close>

definition write_line :: "append_outcome \<Rightarrow> string \<Rightarrow> json \<Rightarrow> journal_file \<Rightarrow> (journal_store, unit) effect" where
  "write_line outcome name v g st =
     (case outcome of
        NotOpened err \<Rightarrow> (Inl err, st)
      | TornAppend n err \<Rightarrow> (Inl err, put_file name (with_torn_line n v g) st)
      | AppendThrew err \<Rightarrow> (Inl err, put_file name (with_line v g) st)
      | _ \<Rightarrow> (Inr (), put_file name ((with_line v g)\<lparr>jf_info := (jf_info g)\<lparr>node_mode := 384\<rparr>\<rparr>) st))"

definition journal_append ::
  "platform \<Rightarrow> journal_config \<Rightarrow> journal_io \<Rightarrow> journal_entry \<Rightarrow> (journal_store, unit) effect" where
  "journal_append P cfg io e st =
     (case journal_path (e_session e) of
        Inl err \<Rightarrow> (Inl err, st)
      | Inr name \<Rightarrow>
          (let f = map_get (j_files st) name; v = entry_json e;
               current_bytes = (case f of Some g \<Rightarrow> jf_size g | None \<Rightarrow> 0)
           in
           if jio_append io (e_key e) = NotSerializable
           then (Inl (durability_error ''journal_serialization_failed''), st)
           else case validate_private_file_if_exists (current_uid P) (map_option jf_info f) of
             Inl err \<Rightarrow> (Inl err, st)
           | Inr _ \<Rightarrow>
               if line_size v > max_journal_record_bytes cfg
               then (Inl (durability_error ''journal_record_too_large''), st)
               else if current_bytes + line_size v > max_journal_file_bytes cfg
               then (Inl (durability_error ''journal_too_large''), st)
               else write_line (jio_append io (e_key e)) name v (opened_file (current_uid P) f) st))"

definition index_ticket :: "platform \<Rightarrow> journal_entry \<Rightarrow> (journal_store, unit) effect" where
  "index_ticket P e st =
     (let ticket_id = wake_ticket_id P (e_session e) (e_key e) in
      case map_get (j_tickets st) ticket_id of
        Some ref \<Rightarrow>
          if ref \<noteq> (e_session e, e_key e) then (Inl (durability_error ''ticket_id_collision''), st)
          else (Inr (), st\<lparr>j_tickets := map_set (j_tickets st) ticket_id (e_session e, e_key e)\<rparr>)
      | None \<Rightarrow> (Inr (), st\<lparr>j_tickets := map_set (j_tickets st) ticket_id (e_session e, e_key e)\<rparr>))"

text \<open>What replaces the entries of one session.\<close>

definition put_entries :: "string \<Rightarrow> entries \<Rightarrow> journal_store \<Rightarrow> journal_store" where
  "put_entries s m st = st\<lparr>j_entries := map_set (j_entries st) s m\<rparr>"

definition entries_of :: "journal_store \<Rightarrow> string \<Rightarrow> entries" where
  "entries_of st s = (case map_get (j_entries st) s of Some m \<Rightarrow> m | None \<Rightarrow> [])"

definition set_entry :: "journal_entry \<Rightarrow> journal_store \<Rightarrow> journal_store" where
  "set_entry e st = put_entries (e_session e) (map_set (entries_of st (e_session e)) (e_key e) e) st"

definition add_loaded :: "string \<Rightarrow> journal_store \<Rightarrow> journal_store" where
  "add_loaded s st = st\<lparr>j_loaded := List.insert s (j_loaded st)\<rparr>"

text \<open>One line of a journal that is loaded.\<close>

definition load_line ::
  "platform \<Rightarrow> string \<Rightarrow> string option \<Rightarrow> file_text \<Rightarrow> (journal_store, unit) effect" where
  "load_line P name expected t st =
     (case t of
        BadText \<Rightarrow> (Inl (durability_error ''corrupt_journal''), st)
      | JsonText v \<Rightarrow>
          (let e = entry_of_json v in
           case validate_journal_entry v of
             Inl err \<Rightarrow> (Inl err, st)
           | Inr _ \<Rightarrow>
               if journal_path (e_session e) \<noteq> Inr name then (Inl (durability_error ''corrupt_journal''), st)
               else if expected \<noteq> None \<and> expected \<noteq> Some (e_session e)
               then (Inl (durability_error ''corrupt_journal''), st)
               else then_do (index_ticket P e) (\<lambda>_. change (add_loaded (e_session e))) (set_entry e st)))"

definition load_journal_file ::
  "platform \<Rightarrow> journal_config \<Rightarrow> string \<Rightarrow> string option \<Rightarrow> bool \<Rightarrow> (journal_store, unit) effect" where
  "load_journal_file P cfg name expected recovery_scan st =
     (let f = map_get (j_files st) name in
      case validate_private_file_if_exists (current_uid P) (map_option jf_info f) of
        Inl e \<Rightarrow> (Inl e, st)
      | Inr _ \<Rightarrow>
          if (case f of Some g \<Rightarrow> jf_size g > max_journal_file_bytes cfg | None \<Rightarrow> False)
          then (Inl (durability_error ''journal_too_large''), st)
          else
            then_do
              (if recovery_scan then claim_recovery_bytes cfg (case f of Some g \<Rightarrow> jf_size g | None \<Rightarrow> 0) else give ())
              (\<lambda>_. case f of
                     None \<Rightarrow> give ()
                   | Some g \<Rightarrow> for_each (load_line P name expected) (jf_lines g)) st)"

definition ends_with :: "string \<Rightarrow> string \<Rightarrow> bool" where
  "ends_with suffix s \<longleftrightarrow> length suffix \<le> length s \<and> drop (length s - length suffix) s = suffix"

definition journal_names :: "journal_store \<Rightarrow> string list" where
  "journal_names st = sort_by code_unit_le (List.filter (ends_with ''.jsonl'') (map_keys (j_files st)))"

definition scan_journal_files :: "platform \<Rightarrow> journal_config \<Rightarrow> (journal_store, unit) effect" where
  "scan_journal_files P cfg st =
     (if j_scanned st then (Inr (), st)
      else if length (journal_names st) > max_recovered_sessions cfg
      then (Inl (durability_error ''recovery_session_capacity''), st)
      else
        then_do (for_each (\<lambda>name. load_journal_file P cfg name None True) (journal_names st))
          (\<lambda>_. change (\<lambda>st. st\<lparr>j_scanned := True\<rparr>)) st)"

definition load_session_journal :: "platform \<Rightarrow> journal_config \<Rightarrow> string \<Rightarrow> (journal_store, unit) effect" where
  "load_session_journal P cfg session st =
     (if session \<in> set (j_loaded st) then (Inr (), st)
      else case journal_path session of
        Inl e \<Rightarrow> (Inl e, st)
      | Inr name \<Rightarrow>
          then_do (load_journal_file P cfg name (Some session) False)
            (\<lambda>_. change (\<lambda>st. add_loaded session
               (if map_has (j_entries st) session then st else put_entries session [] st))) st)"

datatype journal_patch = JNoPatch | JResult "json option" | JError json

fun patched :: "journal_patch \<Rightarrow> journal_entry \<Rightarrow> journal_entry" where
  "patched JNoPatch e = e\<lparr>e_result := None, e_error := None\<rparr>"
| "patched (JResult r) e = e\<lparr>e_result := r, e_error := None\<rparr>"
| "patched (JError r) e = e\<lparr>e_result := None, e_error := Some r\<rparr>"

definition journal_transition ::
  "platform \<Rightarrow> journal_config \<Rightarrow> journal_io \<Rightarrow> string \<Rightarrow> string \<Rightarrow> journal_state \<Rightarrow> journal_patch \<Rightarrow> bool
   \<Rightarrow> (journal_store, journal_entry) effect" where
  "journal_transition P cfg io session key to patch reconciliation st =
     (case lookup_entry st (session, key) of
        None \<Rightarrow> (Inl (durability_error ''journal_entry_missing''), st)
      | Some cur \<Rightarrow>
          if \<not> journal_transition_allowed (e_state cur) to reconciliation then
            (if e_state cur = to then (Inr cur, st)
             else (Inl (durability_error ''invalid_journal_transition''), st))
          else
            (let nxt = patched patch (cur\<lparr>e_state := to, e_updated := to_iso (jio_stamp io key)\<rparr>) in
             then_do (journal_append P cfg io nxt)
               (\<lambda>_ st. (Inr nxt, put_entries session (map_set (entries_of st session) key nxt) st)) st))"

section \<open>Requests\<close>

definition new_entry :: "platform \<Rightarrow> journal_io \<Rightarrow> json \<Rightarrow> journal_entry" where
  "new_entry P io c =
     (let key = str_field c ''idempotencyKey''; now = to_iso (jio_stamp io key) in
      \<lparr>e_session = str_field c ''sessionId'',
       e_generation = (case as_int (field c ''generation'') of Some g \<Rightarrow> g | None \<Rightarrow> 0),
       e_key = key, e_request_id = str_field c ''requestId'', e_fingerprint = request_fingerprint P c,
       e_state = JQueued, e_command = c, e_created = now, e_updated = now, e_result = None, e_error = None\<rparr>)"

definition begin_request ::
  "platform \<Rightarrow> journal_config \<Rightarrow> journal_io \<Rightarrow> json \<Rightarrow> (journal_store, journal_entry) effect" where
  "begin_request P cfg io c =
     then_do (journal_initialize io) (\<lambda>_.
     then_do (load_session_journal P cfg (str_field c ''sessionId'')) (\<lambda>_ st.
       case lookup_entry st (str_field c ''sessionId'', str_field c ''idempotencyKey'') of
         Some e \<Rightarrow>
           if e_fingerprint e \<noteq> request_fingerprint P c
           then (Inl (durability_error ''idempotency_conflict''), st)
           else (Inr e, st)
       | None \<Rightarrow>
           (let e = new_entry P io c in
            then_do (journal_append P cfg io e) (\<lambda>_.
            then_do (change (set_entry e)) (\<lambda>_.
            then_do (index_ticket P e) (\<lambda>_. give e))) st)))"

text \<open>What a pruning keeps: entries that are not settled, and the latest settled ones that are recent enough.\<close>

definition prune_keep :: "platform \<Rightarrow> journal_config \<Rightarrow> int \<Rightarrow> entries \<Rightarrow> string list" where
  "prune_keep P cfg now m =
     List.map e_key (List.filter
       (\<lambda>e. case date_parse (e_updated e) of Some at \<Rightarrow> now - at \<le> terminal_retention_ms cfg | None \<Rightarrow> False)
       (take (max_terminal_entries cfg)
         (sort_by (\<lambda>a b. collate P (e_updated b) (e_updated a))
           (List.filter (\<lambda>e. is_terminal_journal (e_state e)) (map_vals m)))))"

definition prune_retained :: "platform \<Rightarrow> journal_config \<Rightarrow> int \<Rightarrow> entries \<Rightarrow> journal_entry list" where
  "prune_retained P cfg now m =
     sort_by (compare_journal_entries P)
       (List.filter (\<lambda>e. \<not> is_terminal_journal (e_state e) \<or> e_key e \<in> set (prune_keep P cfg now m)) (map_vals m))"

definition prune_tickets :: "platform \<Rightarrow> entries \<Rightarrow> journal_entry list \<Rightarrow> journal_store \<Rightarrow> journal_store" where
  "prune_tickets P m retained st =
     st\<lparr>j_tickets := fold (\<lambda>e ts. map_del ts (wake_ticket_id P (e_session e) (e_key e)))
       (List.filter (\<lambda>e. e_key e \<notin> e_key ` set retained) (map_vals m)) (j_tickets st)\<rparr>"

text \<open>\<open>pruneSession\<close> on a loaded session.\<close>

definition prune_loaded :: "platform \<Rightarrow> journal_config \<Rightarrow> journal_io \<Rightarrow> string \<Rightarrow> (journal_store, nat) effect" where
  "prune_loaded P cfg io s st =
     (let m = entries_of st s; retained = prune_retained P cfg (jio_now io) m; removed = length m - length retained in
      if removed = 0 then (Inr 0, st)
      else
        then_do (lift_result (journal_path s)) (\<lambda>name.
        then_do (atomic_write_lines (current_uid P) (jio_rewrite io) name (List.map entry_json retained)) (\<lambda>_ st.
          (Inr removed, put_entries s (List.map (\<lambda>e. (e_key e, e)) retained) (prune_tickets P m retained st)))) st)"

definition prune_session ::
  "platform \<Rightarrow> journal_config \<Rightarrow> journal_io \<Rightarrow> string \<Rightarrow> (journal_store, nat) effect" where
  "prune_session P cfg io s =
     then_do (journal_initialize io) (\<lambda>_. then_do (load_session_journal P cfg s) (\<lambda>_. prune_loaded P cfg io s))"

definition mark_accepted ::
  "platform \<Rightarrow> journal_config \<Rightarrow> journal_io \<Rightarrow> string \<Rightarrow> string \<Rightarrow> (journal_store, journal_entry) effect" where
  "mark_accepted P cfg io session key =
     then_do (load_session_journal P cfg session)
       (\<lambda>_. journal_transition P cfg io session key JAccepted JNoPatch False)"

definition settle_request ::
  "platform \<Rightarrow> journal_config \<Rightarrow> journal_io \<Rightarrow> string \<Rightarrow> string \<Rightarrow> journal_state \<Rightarrow> journal_patch
   \<Rightarrow> (journal_store, journal_entry) effect" where
  "settle_request P cfg io session key to patch =
     then_do (load_session_journal P cfg session) (\<lambda>_.
     then_do (journal_transition P cfg io session key to patch False) (\<lambda>e.
     then_do (prune_session P cfg io session) (\<lambda>_. give e)))"

definition mark_completed ::
  "platform \<Rightarrow> journal_config \<Rightarrow> journal_io \<Rightarrow> string \<Rightarrow> string \<Rightarrow> json option
   \<Rightarrow> (journal_store, journal_entry) effect" where
  "mark_completed P cfg io session key r = settle_request P cfg io session key JCompleted (JResult r)"

definition mark_request_failed ::
  "platform \<Rightarrow> journal_config \<Rightarrow> journal_io \<Rightarrow> string \<Rightarrow> string \<Rightarrow> json \<Rightarrow> (journal_store, journal_entry) effect" where
  "mark_request_failed P cfg io session key err = settle_request P cfg io session key JFailed (JError err)"

definition get_request ::
  "platform \<Rightarrow> journal_config \<Rightarrow> journal_io \<Rightarrow> string \<Rightarrow> string \<Rightarrow> (journal_store, journal_entry option) effect" where
  "get_request P cfg io session key =
     then_do (journal_initialize io) (\<lambda>_.
     then_do (load_session_journal P cfg session) (\<lambda>_ st. (Inr (lookup_entry st (session, key)), st)))"

definition get_request_by_ticket ::
  "platform \<Rightarrow> journal_config \<Rightarrow> journal_io \<Rightarrow> string \<Rightarrow> (journal_store, journal_entry option) effect" where
  "get_request_by_ticket P cfg io ticket_id =
     then_do (journal_initialize io) (\<lambda>_.
     then_do (scan_journal_files P cfg) (\<lambda>_ st.
       case map_get (j_tickets st) ticket_id of
         None \<Rightarrow> (Inr None, st)
       | Some (session, key) \<Rightarrow> get_request P cfg io session key st))"

fun outcome_state :: "json option + json \<Rightarrow> journal_state" where
  "outcome_state (Inl r) = JCompleted"
| "outcome_state (Inr e) = JFailed"

fun outcome_patch :: "json option + json \<Rightarrow> journal_patch" where
  "outcome_patch (Inl r) = JResult r"
| "outcome_patch (Inr e) = JError e"

text \<open>The outcome is \<open>Inl\<close> of a result or \<open>Inr\<close> of an error.\<close>

definition reconcile_request ::
  "platform \<Rightarrow> journal_config \<Rightarrow> journal_io \<Rightarrow> string \<Rightarrow> json option + json \<Rightarrow> (journal_store, journal_entry) effect" where
  "reconcile_request P cfg io ticket_id outcome =
     then_do (journal_initialize io) (\<lambda>_.
     then_do (scan_journal_files P cfg) (\<lambda>_ st.
       case map_get (j_tickets st) ticket_id of
         None \<Rightarrow> (Inl (durability_error ''ticket_not_found''), st)
       | Some (session, key) \<Rightarrow>
           then_do (load_session_journal P cfg session) (\<lambda>_.
           then_do (\<lambda>st. if map_option e_state (lookup_entry st (session, key)) \<noteq> Some JIndeterminate
                         then (Inl (durability_error ''ticket_not_indeterminate''), st)
                         else journal_transition P cfg io session key (outcome_state outcome) (outcome_patch outcome) True st)
             (\<lambda>e. then_do (prune_session P cfg io session) (\<lambda>_. give e))) st))"

section \<open>Session directories\<close>

text \<open>
  \<open>ensurePrivateDirectory\<close> of a session directory: \<open>mkdir\<close> makes it when it is missing and throws when
  something that is no directory has its name.
\<close>

definition ensure_session_dir :: "platform \<Rightarrow> string \<Rightarrow> (journal_store, unit) effect" where
  "ensure_session_dir P name st =
     (case map_get (j_sessions st) name of
        None \<Rightarrow>
          (Inr (), st\<lparr>j_sessions := map_set (j_sessions st) name
             \<lparr>sd_info = own_info (current_uid P) RealDirectory 448, sd_files = []\<rparr>\<rparr>)
      | Some d \<Rightarrow>
          if node_kind (sd_info d) = RegularFile \<or> node_kind (sd_info d) = OtherNode then (Inl (plain_error ''EEXIST''), st)
          else (case ensure_private_directory (current_uid P) False (sd_info d) (sd_info d) of
                  Inl e \<Rightarrow> (Inl e, st) | Inr _ \<Rightarrow> (Inr (), st)))"

definition session_files :: "journal_store \<Rightarrow> string \<Rightarrow> directory" where
  "session_files st name = (case map_get (j_sessions st) name of Some d \<Rightarrow> sd_files d | None \<Rightarrow> [])"

definition put_session_files :: "string \<Rightarrow> directory \<Rightarrow> journal_store \<Rightarrow> journal_store" where
  "put_session_files name files st =
     (case map_get (j_sessions st) name of
        Some d \<Rightarrow> st\<lparr>j_sessions := map_set (j_sessions st) name (d\<lparr>sd_files := files\<rparr>)\<rparr>
      | None \<Rightarrow> st)"

definition read_manifest :: "platform \<Rightarrow> string \<Rightarrow> (journal_store, json option) effect" where
  "read_manifest P name st =
     (case read_private_json_if_exists (current_uid P) (map_get (session_files st name) ''manifest.json'') of
        Inl e \<Rightarrow> (Inl e, st)
      | Inr None \<Rightarrow> (Inr None, st)
      | Inr (Some v) \<Rightarrow> (case validate_manifest v of Inl e \<Rightarrow> (Inl e, st) | Inr _ \<Rightarrow> (Inr (Some v), st)))"

definition remove_manifest :: "journal_io \<Rightarrow> string \<Rightarrow> (journal_store, unit) effect" where
  "remove_manifest io name st =
     (case jio_rm io 0 of
        Some e \<Rightarrow> (Inl e, st)
      | None \<Rightarrow> (Inr (), put_session_files name (map_del (session_files st name) ''manifest.json'') st))"

definition manifest_too_large :: js_error where
  "manifest_too_large = durability_error ''manifest_too_large''"

definition write_manifest ::
  "platform \<Rightarrow> journal_config \<Rightarrow> journal_io \<Rightarrow> string \<Rightarrow> json \<Rightarrow> (journal_store, json option) effect" where
  "write_manifest P cfg io name v st =
     (case validate_manifest v of
        Inl e \<Rightarrow> (Inl e, st)
      | Inr _ \<Rightarrow>
          if compact_size v > max_manifest_bytes cfg then (Inl manifest_too_large, st)
          else
            (case atomic_write_private_json (current_uid P) (jio_manifest io) ''manifest.json'' v (session_files st name) of
               (Inl e, files) \<Rightarrow> (Inl e, put_session_files name files st)
             | (Inr _, files) \<Rightarrow> (Inr (Some v), put_session_files name files st)))"

definition save_manifest ::
  "platform \<Rightarrow> journal_config \<Rightarrow> journal_io \<Rightarrow> json \<Rightarrow> json option \<Rightarrow> (journal_store, json option) effect" where
  "save_manifest P cfg io command conversation =
     then_do (journal_initialize io) (\<lambda>_.
     then_do (lift_result (encoded_session_id (str_field command ''sessionId''))) (\<lambda>name.
     then_do (ensure_session_dir P name) (\<lambda>_.
     then_do (read_manifest P name) (\<lambda>previous.
       if (case conversation of Some c \<Rightarrow> field c ''sessionFile'' = None | None \<Rightarrow> False)
       then then_do (remove_manifest io name) (\<lambda>_. give None)
       else
         (let now = to_iso (jio_stamp io []);
              payload = (case field command ''payload'' of Some p \<Rightarrow> p | None \<Rightarrow> JNull);
              created = (case previous of Some m \<Rightarrow> str_field m ''createdAt'' | None \<Rightarrow> now)
          in then_do (lift_result (durable_tool_adapter_summary payload)) (\<lambda>summary.
               write_manifest P cfg io name (manifest_json command summary conversation created now)))))))"

definition remove_session :: "platform \<Rightarrow> journal_io \<Rightarrow> string \<Rightarrow> string \<Rightarrow> (journal_store, unit) effect" where
  "remove_session P io session name st =
     (case jio_rm io 1 of
        Some e \<Rightarrow> (Inl e, st)
      | None \<Rightarrow>
          (let st1 = st\<lparr>j_sessions := map_del (j_sessions st) name\<rparr> in
           case jio_rm io 2 of
             Some e \<Rightarrow> (Inl e, st1)
           | None \<Rightarrow>
               (Inr (), st1\<lparr>j_files := map_del (j_files st1) (name @ ''.jsonl''),
                  j_tickets := fold (\<lambda>e ts. map_del ts (wake_ticket_id P (e_session e) (e_key e)))
                    (case map_get (j_entries st1) session of Some m \<Rightarrow> map_vals m | None \<Rightarrow> []) (j_tickets st1),
                  j_entries := map_del (j_entries st1) session,
                  j_loaded := List.filter (\<lambda>s. s \<noteq> session) (j_loaded st1)\<rparr>)))"

definition close_session ::
  "platform \<Rightarrow> journal_io \<Rightarrow> string \<Rightarrow> bool \<Rightarrow> (journal_store, unit) effect" where
  "close_session P io session retain_artifacts =
     then_do (journal_initialize io) (\<lambda>_.
     then_do (lift_result (encoded_session_id session)) (\<lambda>name.
     then_do (remove_manifest io name) (\<lambda>_.
       if retain_artifacts then give () else remove_session P io session name)))"

section \<open>Recovery\<close>

definition load_manifest ::
  "platform \<Rightarrow> journal_config \<Rightarrow> string \<Rightarrow> (journal_store, json option) effect" where
  "load_manifest P cfg name =
     then_do (ensure_session_dir P name) (\<lambda>_. reading (\<lambda>st.
       (let size = state_file_size (map_get (session_files st name) ''manifest.json'') in
        if (case size of Some n \<Rightarrow> n > max_manifest_bytes cfg | None \<Rightarrow> False) then throw manifest_too_large
        else
          then_do (claim_recovery_bytes cfg (case size of Some n \<Rightarrow> n | None \<Rightarrow> 0)) (\<lambda>_.
          then_do (read_manifest P name) (\<lambda>m.
            case m of
              None \<Rightarrow> give None
            | Some v \<Rightarrow>
                if encoded_session_id (str_field v ''sessionId'') \<noteq> Inr name then throw corrupt_state
                else give (Some v))))))"

fun load_manifest_names ::
  "platform \<Rightarrow> journal_config \<Rightarrow> string list \<Rightarrow> (journal_store, json list) effect" where
  "load_manifest_names P cfg [] st = (Inr [], st)"
| "load_manifest_names P cfg (name # names) st =
     then_do (load_manifest P cfg name) (\<lambda>m.
     then_do (load_manifest_names P cfg names) (\<lambda>ms.
       give (case m of Some v \<Rightarrow> v # ms | None \<Rightarrow> ms))) st"

definition load_manifests :: "platform \<Rightarrow> journal_config \<Rightarrow> (journal_store, json list) effect" where
  "load_manifests P cfg st =
     (let names = sort_by code_unit_le (map_keys (j_sessions st)) in
      if length names > max_recovered_sessions cfg
      then (Inl (durability_error ''recovery_session_capacity''), st)
      else load_manifest_names P cfg names st)"

record recovery_snapshot =
  snap_manifests :: "json list"
  snap_queued :: "journal_entry list"
  snap_indeterminate :: "journal_entry list"

text \<open>
  The loop of \<open>recover\<close> over all entries: a request that was accepted when the process ended becomes
  indeterminate, a queued one may be replayed.
\<close>

fun recover_entries ::
  "platform \<Rightarrow> journal_config \<Rightarrow> journal_io \<Rightarrow> (string \<times> string) list
   \<Rightarrow> (journal_store, journal_entry list \<times> journal_entry list) effect" where
  "recover_entries P cfg io [] st = (Inr ([], []), st)"
| "recover_entries P cfg io ((session, key) # rest) st =
     (case map_option e_state (lookup_entry st (session, key)) of
        Some JAccepted \<Rightarrow>
          then_do (journal_transition P cfg io session key JIndeterminate JNoPatch False) (\<lambda>e.
          then_do (recover_entries P cfg io rest) (\<lambda>(queued, indeterminate). give (queued, e # indeterminate))) st
      | Some JQueued \<Rightarrow>
          then_do (recover_entries P cfg io rest) (\<lambda>(queued, indeterminate).
            give (the (lookup_entry st (session, key)) # queued, indeterminate)) st
      | Some JIndeterminate \<Rightarrow>
          then_do (recover_entries P cfg io rest) (\<lambda>(queued, indeterminate).
            give (queued, the (lookup_entry st (session, key)) # indeterminate)) st
      | _ \<Rightarrow> recover_entries P cfg io rest st)"

definition all_requests :: "journal_store \<Rightarrow> (string \<times> string) list" where
  "all_requests st = List.concat (List.map (\<lambda>(s, m). List.map (\<lambda>(k, e). (s, k)) m) (j_entries st))"

definition journal_recover ::
  "platform \<Rightarrow> journal_config \<Rightarrow> journal_io \<Rightarrow> (journal_store, recovery_snapshot) effect" where
  "journal_recover P cfg io =
     then_do (journal_initialize io) (\<lambda>_.
     then_do (load_manifests P cfg) (\<lambda>manifests.
     then_do (scan_journal_files P cfg) (\<lambda>_.
     then_do (reading (\<lambda>st. recover_entries P cfg io (all_requests st))) (\<lambda>(queued, indeterminate).
     then_do (reading (\<lambda>st. for_each (\<lambda>s. then_do (prune_session P cfg io s) (\<lambda>_. give ())) (map_keys (j_entries st)))) (\<lambda>_.
       give \<lparr>snap_manifests =
               sort_by (\<lambda>a b. collate P (str_field a ''sessionId'') (str_field b ''sessionId'')) manifests,
             snap_queued = sort_by (compare_journal_entries P) queued,
             snap_indeterminate = sort_by (compare_journal_entries P) indeterminate\<rparr>)))))"

end
