(* ===== verification/JournalLaws.thy ===== *)
theory JournalLaws
  imports Journal
begin

text \<open>
  What happens to a request in the journal: whatever a call meets in its environment, an entry of a
  loaded session stays as it is, or is moved by the call that names it along the life cycle of requests,
  and leaves the store only when it is settled or its session is closed.
\<close>

section \<open>Well-formed stores\<close>

definition entries_ok :: "string \<Rightarrow> entries \<Rightarrow> bool" where
  "entries_ok s m \<longleftrightarrow> js_map m \<and> (\<forall>k e. map_get m k = Some e \<longrightarrow> e_session e = s \<and> e_key e = k)"

definition journal_ok :: "journal_store \<Rightarrow> bool" where
  "journal_ok st \<longleftrightarrow> (\<forall>s m. map_get (j_entries st) s = Some m \<longrightarrow> entries_ok s m)"

lemma entries_ok_Nil [simp]: "entries_ok s []"
  by (simp add: entries_ok_def)

lemma entries_ok_get: "entries_ok s m \<Longrightarrow> map_get m k = Some e \<Longrightarrow> e_session e = s \<and> e_key e = k"
  by (simp add: entries_ok_def)

lemma entries_ok_set: "entries_ok s m \<Longrightarrow> e_session e = s \<Longrightarrow> e_key e = k \<Longrightarrow> entries_ok s (map_set m k e)"
  by (simp add: entries_ok_def)

lemma entries_ok_vals: "entries_ok s m \<Longrightarrow> e \<in> set (map_vals m) \<longleftrightarrow> map_get m (e_key e) = Some e"
  by (force simp: entries_ok_def map_get_iff)

lemma lookup_entry_conv:
  "lookup_entry st (s, k) = Some e \<longleftrightarrow> (\<exists>m. map_get (j_entries st) s = Some m \<and> map_get m k = Some e)"
  by (simp add: lookup_entry_def split: option.splits)

lemma journal_ok_lookup: "journal_ok st \<Longrightarrow> lookup_entry st (s, k) = Some e \<Longrightarrow> e_session e = s \<and> e_key e = k"
  by (auto simp: lookup_entry_conv journal_ok_def dest: entries_ok_get)

lemma lookup_put [simp]:
  "lookup_entry (put_entries s m st) (s', k) = (if s' = s then map_get m k else lookup_entry st (s', k))"
  by (simp add: lookup_entry_def put_entries_def)

lemma put_entries_fields [simp]:
  "j_loaded (put_entries s m st) = j_loaded st" "j_scanned (put_entries s m st) = j_scanned st"
  "j_tickets (put_entries s m st) = j_tickets st" "j_files (put_entries s m st) = j_files st"
  "j_sessions (put_entries s m st) = j_sessions st" "j_initialized (put_entries s m st) = j_initialized st"
  by (simp_all add: put_entries_def)

lemma entries_of_put [simp]: "entries_of (put_entries s m st) s' = (if s' = s then m else entries_of st s')"
  by (simp add: entries_of_def put_entries_def)

lemma entries_of_ok: "journal_ok st \<Longrightarrow> entries_ok s (entries_of st s)"
  by (simp add: entries_of_def journal_ok_def split: option.splits)

lemma entries_of_lookup: "map_get (entries_of st s) k = lookup_entry st (s, k)"
  by (simp add: entries_of_def lookup_entry_def split: option.splits)

lemma set_entry_put: "set_entry e st = put_entries (e_session e) (map_set (entries_of st (e_session e)) (e_key e) e) st"
  by (simp add: set_entry_def)

lemma journal_ok_put: "journal_ok st \<Longrightarrow> entries_ok s m \<Longrightarrow> journal_ok (put_entries s m st)"
  by (simp add: journal_ok_def put_entries_def)

section \<open>How a request moves\<close>

text \<open>
  The life cycle of a request, and what a reconciliation may do to it: the specification that the
  transitions of the store are held against.
\<close>

definition life :: "bool \<Rightarrow> (journal_state \<times> journal_state) set" where
  "life reconciling =
     (if reconciling then {(JIndeterminate, JCompleted), (JIndeterminate, JFailed)}
      else {(JQueued, JAccepted), (JQueued, JFailed), (JAccepted, JCompleted), (JAccepted, JFailed),
            (JAccepted, JIndeterminate)})"

lemma allowed_life:
  "journal_transition_allowed from to r \<Longrightarrow> (r \<Longrightarrow> from = JIndeterminate) \<Longrightarrow> (from, to) \<in> life r"
  by (cases "from"; cases r) (auto simp: life_def)

definition settled :: "journal_entry \<Rightarrow> bool" where
  "settled e \<longleftrightarrow> is_terminal_journal (e_state e)"

text \<open>
  What a call asks of a request: the state to move it to, with what patch, and whether it reconciles.
  \<open>transited\<close> says that exactly this was done, \<open>moved\<close> that it was done or nothing was.
\<close>

type_synonym aim = "(journal_state \<times> journal_patch \<times> bool) option"

fun transited :: "aim \<Rightarrow> journal_entry \<Rightarrow> journal_entry \<Rightarrow> bool" where
  "transited None e e' \<longleftrightarrow> False"
| "transited (Some (to, patch, reconciling)) e e' \<longleftrightarrow> (e_state e, to) \<in> life reconciling
     \<and> e' = patched patch (e\<lparr>e_state := to, e_updated := e_updated e'\<rparr>)"

definition moved :: "aim \<Rightarrow> journal_entry \<Rightarrow> journal_entry \<Rightarrow> bool" where
  "moved w e e' \<longleftrightarrow> e' = e \<or> transited w e e'"

lemma patched_fields [simp]:
  "e_session (patched p e) = e_session e" "e_key (patched p e) = e_key e" "e_generation (patched p e) = e_generation e"
  "e_request_id (patched p e) = e_request_id e" "e_fingerprint (patched p e) = e_fingerprint e"
  "e_command (patched p e) = e_command e" "e_created (patched p e) = e_created e" "e_state (patched p e) = e_state e"
  "e_updated (patched p e) = e_updated e"
  by (cases p; simp)+

lemma moved_refl [simp]: "moved w e e"
  by (simp add: moved_def)

lemma transited_state: "transited w e e' \<Longrightarrow> \<exists>to patch r. w = Some (to, patch, r) \<and> e_state e' = to \<and> (e_state e, to) \<in> life r"
proof (cases w)
  case (Some a)
  moreover obtain to patch r where "a = (to, patch, r)" by (cases a)
  ultimately have w: "w = Some (to, patch, r)" by simp
  assume "transited w e e'"
  then have "e' = patched patch (e\<lparr>e_state := to, e_updated := e_updated e'\<rparr>)" "(e_state e, to) \<in> life r"
    unfolding w transited.simps by blast+
  moreover from this(1) have "e_state e' = to" by (metis patched_fields(8) journal_entry.select_convs(6)
      journal_entry.surjective journal_entry.update_convs(6) journal_entry.update_convs(9))
  ultimately show ?thesis using w by blast
qed simp

text \<open>A request that a call has moved is not moved by it again.\<close>

lemma transited_once: "transited w e e' \<Longrightarrow> \<not> transited w e' e''"
proof
  assume "transited w e e'" "transited w e' e''"
  from transited_state [OF this(1)] transited_state [OF this(2)] show False
    by (auto simp: life_def split: if_splits)
qed

lemma moved_trans: "moved w e e' \<Longrightarrow> moved w e' e'' \<Longrightarrow> moved w e e''"
  using transited_once [of w e e' e''] by (auto simp: moved_def)

text \<open>The requests of loaded sessions; no later load touches them.\<close>

definition tracked :: "journal_store \<Rightarrow> string \<times> string \<Rightarrow> journal_entry option" where
  "tracked st sk = (if fst sk \<in> set (j_loaded st) then lookup_entry st sk else None)"

definition journal_live :: "journal_store \<Rightarrow> bool" where
  "journal_live st \<longleftrightarrow> j_scanned st \<and> journal_ok st"

text \<open>
  One request before and after a part of a call.  A part may make requests, or drop settled ones, and
  none does both.
\<close>

fun entry_evolves :: "bool \<Rightarrow> aim \<Rightarrow> journal_entry option \<Rightarrow> journal_entry option \<Rightarrow> bool" where
  "entry_evolves makes w None None \<longleftrightarrow> True"
| "entry_evolves makes w None (Some e') \<longleftrightarrow> makes"
| "entry_evolves makes w (Some e) (Some e') \<longleftrightarrow> moved w e e'"
| "entry_evolves makes w (Some e) None \<longleftrightarrow> \<not> makes \<and> (\<exists>e'. moved w e e' \<and> settled e')"

lemma entry_evolves_refl [simp]: "entry_evolves makes w x x"
  by (cases x) simp_all

lemma entry_evolves_trans: "entry_evolves makes w x y \<Longrightarrow> entry_evolves makes w y z \<Longrightarrow> entry_evolves makes w x z"
  by (cases x; cases y; cases z) (auto intro: moved_trans)

text \<open>\<open>X\<close> holds the sessions that may be closed, \<open>W\<close> what is asked of each request.\<close>

definition lives_on :: "string set \<Rightarrow> bool \<Rightarrow> (string \<times> string \<Rightarrow> aim) \<Rightarrow> journal_store \<Rightarrow> journal_store \<Rightarrow> bool" where
  "lives_on X makes W st st' \<longleftrightarrow> (journal_live st \<longrightarrow> journal_live st'
     \<and> (\<forall>s k. s \<notin> X \<longrightarrow> s \<in> set (j_loaded st) \<longrightarrow> s \<in> set (j_loaded st')
          \<and> entry_evolves makes (W (s, k)) (lookup_entry st (s, k)) (lookup_entry st' (s, k))))"

lemma lives_onI:
  assumes "journal_live st \<Longrightarrow> journal_live st'"
    and "\<And>s. s \<notin> X \<Longrightarrow> s \<in> set (j_loaded st) \<Longrightarrow> s \<in> set (j_loaded st')"
    and "\<And>s k. journal_live st \<Longrightarrow> s \<notin> X \<Longrightarrow> s \<in> set (j_loaded st) \<Longrightarrow>
      entry_evolves makes (W (s, k)) (lookup_entry st (s, k)) (lookup_entry st' (s, k))"
  shows "lives_on X makes W st st'"
  using assms by (simp add: lives_on_def)

lemma lives_on_refl: "reflp (lives_on X makes W)"
  by (rule reflpI) (simp add: lives_on_def)

lemma lives_on_trans: "transp (lives_on X makes W)"
  by (rule transpI) (simp add: lives_on_def, meson entry_evolves_trans)

lemmas lives_moves = moves_then [OF lives_on_trans] moves_simple [OF lives_on_refl] moves_reading
  moves_for_each [OF lives_on_refl lives_on_trans]

text \<open>Steps that do not touch what the store holds in memory.\<close>

definition memory :: "journal_store \<Rightarrow> (string, entries) jsmap \<times> string list \<times> bool" where
  "memory st = (j_entries st, j_loaded st, j_scanned st)"

lemma memory_fields:
  "memory st' = memory st \<Longrightarrow> entries_of st' s = entries_of st s" "memory st' = memory st \<Longrightarrow> journal_live st' = journal_live st"
  "memory st' = memory st \<Longrightarrow> lookup_entry st' sk = lookup_entry st sk" "memory st' = memory st \<Longrightarrow> j_loaded st' = j_loaded st"
  by (simp_all add: memory_def entries_of_def journal_live_def journal_ok_def lookup_entry_def)

lemma lives_on_memory: "memory st' = memory st \<Longrightarrow> lives_on X makes W st st'"
proof -
  assume m: "memory st' = memory st"
  have "journal_live st' = journal_live st" "j_loaded st' = j_loaded st" "lookup_entry st' sk = lookup_entry st sk" for sk
    using memory_fields [OF m] by blast+
  then show ?thesis by (simp add: lives_on_def)
qed

lemma moves_memory: "(\<And>st. memory (snd (m st)) = memory st) \<Longrightarrow> moves (lives_on X makes W) m"
  by (simp add: moves_def lives_on_memory)

lemma memory_put_file [simp]: "memory (put_file name f st) = memory st"
  by (simp add: memory_def put_file_def)

lemma memory_write_line [simp]: "memory (snd (write_line outcome name v g st)) = memory st"
  by (simp add: write_line_def split: append_outcome.splits)

text \<open>An append throws before it touches the file, or writes a line to it.\<close>

lemma append_cases:
  obtains (refused) "\<exists>err. journal_append P cfg io e st = (Inl err, st)"
  | (wrote) name where "journal_path (e_session e) = Inr name"
      and "validate_private_file_if_exists (current_uid P) (map_option jf_info (map_get (j_files st) name)) = Inr ()"
      and "line_size (entry_json e) \<le> max_journal_record_bytes cfg"
      and "(case map_get (j_files st) name of Some g \<Rightarrow> jf_size g | None \<Rightarrow> 0) + line_size (entry_json e) \<le> max_journal_file_bytes cfg"
      and "jio_append io (e_key e) \<noteq> NotSerializable"
      and "journal_append P cfg io e st = write_line (jio_append io (e_key e)) name (entry_json e)
             (opened_file (current_uid P) (map_get (j_files st) name)) st"
proof (cases "journal_path (e_session e)")
  case (Inl err)
  then show ?thesis by (intro refused) (simp add: journal_append_def)
next
  case (Inr name)
  show ?thesis
  proof (cases "validate_private_file_if_exists (current_uid P) (map_option jf_info (map_get (j_files st) name))")
    case (Inl err)
    with Inr show ?thesis by (intro refused) (simp add: journal_append_def Let_def)
  next
    case (Inr u)
    note inner = Inr \<open>journal_path (e_session e) = Inr name\<close>
    consider "jio_append io (e_key e) = NotSerializable" | "line_size (entry_json e) > max_journal_record_bytes cfg"
      | "(case map_get (j_files st) name of Some g \<Rightarrow> jf_size g | None \<Rightarrow> 0) + line_size (entry_json e) > max_journal_file_bytes cfg"
      | "jio_append io (e_key e) \<noteq> NotSerializable" "line_size (entry_json e) \<le> max_journal_record_bytes cfg"
        "(case map_get (j_files st) name of Some g \<Rightarrow> jf_size g | None \<Rightarrow> 0) + line_size (entry_json e) \<le> max_journal_file_bytes cfg"
      by linarith
    then show ?thesis
    proof cases
      case 4
      with inner show ?thesis by (intro wrote [of name]) (simp_all add: journal_append_def Let_def)
    qed (intro refused, simp add: journal_append_def Let_def inner)+
  qed
qed

lemma memory_initialize [simp]: "memory (snd (journal_initialize io st)) = memory st"
  by (simp add: memory_def journal_initialize_def split: sum.splits)

lemma memory_append [simp]: "memory (snd (journal_append P cfg io e st)) = memory st"
  by (rule append_cases [of P cfg io e st]) auto

lemma memory_claim [simp]: "memory (snd (claim_recovery_bytes cfg n st)) = memory st"
  by (simp add: memory_def claim_recovery_bytes_def Let_def)

lemma memory_index [simp]: "memory (snd (index_ticket P e st)) = memory st"
  by (simp add: memory_def index_ticket_def Let_def split: option.splits)

lemma memory_rewrite [simp]: "memory (snd (atomic_write_lines current w name vs st)) = memory st"
  by (cases w) (simp_all add: atomic_write_lines_def)

lemma memory_put_session_files [simp]: "memory (put_session_files name files st) = memory st"
  by (simp add: memory_def put_session_files_def split: option.splits)

lemma memory_ensure [simp]: "memory (snd (ensure_session_dir P name st)) = memory st"
  by (simp add: memory_def ensure_session_dir_def split: option.splits sum.splits)

lemma memory_read_manifest [simp]: "memory (snd (read_manifest P name st)) = memory st"
  by (simp add: read_manifest_def split: option.splits sum.splits)

lemma memory_remove_manifest [simp]: "memory (snd (remove_manifest io name st)) = memory st"
  by (simp add: remove_manifest_def split: option.splits)

lemma memory_write_manifest [simp]: "memory (snd (write_manifest P cfg io name v st)) = memory st"
  by (simp add: write_manifest_def split: sum.splits prod.splits)

lemmas moves_plain = moves_memory [OF memory_initialize] moves_memory [OF memory_append] moves_memory [OF memory_claim]
  moves_memory [OF memory_index] moves_memory [OF memory_rewrite] moves_memory [OF memory_ensure]
  moves_memory [OF memory_read_manifest] moves_memory [OF memory_remove_manifest] moves_memory [OF memory_write_manifest]

section \<open>Every operation moves requests forward\<close>

subsection \<open>Loading\<close>

text \<open>A load of one session changes what is known of that session only.\<close>

definition only_session :: "string \<Rightarrow> journal_store \<Rightarrow> journal_store \<Rightarrow> bool" where
  "only_session s st st' \<longleftrightarrow> j_scanned st' = j_scanned st \<and> (journal_ok st \<longrightarrow> journal_ok st')
     \<and> (\<forall>s'. s' \<noteq> s \<longrightarrow> map_get (j_entries st') s' = map_get (j_entries st) s'
          \<and> (s' \<in> set (j_loaded st') \<longleftrightarrow> s' \<in> set (j_loaded st)))"

lemma only_session_refl: "reflp (only_session s)"
  by (rule reflpI) (simp add: only_session_def)

lemma only_session_trans: "transp (only_session s)"
  by (rule transpI) (simp add: only_session_def)

lemma only_session_memory: "memory st' = memory st \<Longrightarrow> only_session s st st'"
  by (simp add: only_session_def memory_def journal_ok_def)

lemma only_session_lives:
  assumes "only_session s st st'" and "s \<notin> set (j_loaded st)"
  shows "lives_on X makes W st st'"
proof (rule lives_onI)
  show "journal_live st \<Longrightarrow> journal_live st'" using assms(1) by (simp add: journal_live_def only_session_def)
next
  fix s'
  assume "s' \<in> set (j_loaded st)"
  with assms(2) have "s' \<noteq> s" by auto
  with assms(1) have same: "map_get (j_entries st') s' = map_get (j_entries st) s'"
      "s' \<in> set (j_loaded st') \<longleftrightarrow> s' \<in> set (j_loaded st)"
    by (simp_all add: only_session_def)
  with \<open>s' \<in> set (j_loaded st)\<close> show "s' \<in> set (j_loaded st')" by simp
  show "entry_evolves makes (W (s', k)) (lookup_entry st (s', k)) (lookup_entry st' (s', k))" for k
    by (simp add: lookup_entry_def same(1))
qed

lemma add_loaded_fields [simp]:
  "j_entries (add_loaded s st) = j_entries st" "j_scanned (add_loaded s st) = j_scanned st"
  "set (j_loaded (add_loaded s st)) = insert s (set (j_loaded st))"
  "j_files (add_loaded s st) = j_files st" "j_tickets (add_loaded s st) = j_tickets st"
  "j_sessions (add_loaded s st) = j_sessions st" "j_initialized (add_loaded s st) = j_initialized st"
  by (simp_all add: add_loaded_def)

lemma only_session_add: "only_session s st (add_loaded s st)"
  by (simp add: only_session_def journal_ok_def)

lemma only_session_put: "(journal_ok st \<Longrightarrow> entries_ok s m) \<Longrightarrow> only_session s st (put_entries s m st)"
  by (simp add: only_session_def journal_ok_put) (simp add: put_entries_def)

lemma only_session_load_line:
  assumes "expected = Some s"
  shows "moves (only_session s) (load_line P name expected t)"
proof (unfold moves_def, rule allI)
  fix st
  have set: "only_session s st (set_entry e st)" if "e_session e = s" for e
    using that by (simp add: set_entry_put only_session_put entries_ok_set entries_of_ok)
  have tail: "moves (only_session s) (then_do (index_ticket P e) (\<lambda>_. change (add_loaded s)))" for e
    by (intro moves_then only_session_trans; simp add: moves_def only_session_memory only_session_add)
  show "only_session s st (snd (load_line P name expected t st))"
  proof (cases t)
    case BadText
    then show ?thesis using only_session_refl by (simp add: load_line_def reflp_def)
  next
    case (JsonText v)
    have "only_session s st (snd (then_do (index_ticket P (entry_of_json v)) (\<lambda>_. change (add_loaded (e_session (entry_of_json v))))
        (set_entry (entry_of_json v) st)))" if "s = e_session (entry_of_json v)"
      using transpD [OF only_session_trans set movesD [OF tail]] that by simp
    with JsonText assms only_session_refl show ?thesis
      by (auto simp: load_line_def Let_def reflp_def split: sum.splits)
  qed
qed

lemma only_session_load_file:
  "moves (only_session s) (load_journal_file P cfg name (Some s) scan)"
proof (unfold moves_def, rule allI)
  fix st
  note loop = moves_for_each [OF only_session_refl only_session_trans only_session_load_line [OF refl]]
  have "moves (only_session s) (then_do (if scan then claim_recovery_bytes cfg n else give ())
      (\<lambda>_. case f of None \<Rightarrow> give () | Some g \<Rightarrow> for_each (load_line P name (Some s)) (jf_lines g)))" for n f
    by (intro moves_then only_session_trans)
       (auto simp: moves_def only_session_memory movesD [OF loop] split: option.split)
  from movesD [OF this] show "only_session s st (snd (load_journal_file P cfg name (Some s) scan st))"
    using only_session_refl by (auto simp: load_journal_file_def Let_def reflp_def split: sum.splits)
qed

lemma moves_load: "moves (lives_on X makes W) (load_session_journal P cfg s)"
proof (unfold moves_def, rule allI)
  fix st
  have "moves (only_session s) (then_do (load_journal_file P cfg name (Some s) False)
      (\<lambda>_. change (\<lambda>st. add_loaded s
         (if map_has (j_entries st) s then st else put_entries s [] st))))" for name
  proof (intro moves_then only_session_trans only_session_load_file, unfold moves_def, rule allI)
    fix st1 :: journal_store
    have "only_session s st1 (put_entries s [] st1)" by (simp add: only_session_put)
    then have "only_session s st1 (add_loaded s (put_entries s [] st1))"
      by (rule transpD [OF only_session_trans _ only_session_add])
    then show "only_session s st1 (snd (change (\<lambda>st. add_loaded s
         (if map_has (j_entries st) s then st else put_entries s [] st)) st1))"
      by (simp add: only_session_add)
  qed
  from movesD [OF this] have "s \<notin> set (j_loaded st) \<Longrightarrow> only_session s st (snd (load_session_journal P cfg s st))"
    using only_session_refl by (auto simp: load_session_journal_def reflp_def split: sum.splits)
  then show "lives_on X makes W st (snd (load_session_journal P cfg s st))"
    using lives_on_refl only_session_lives by (cases "s \<in> set (j_loaded st)") (auto simp: load_session_journal_def reflp_def)
qed

lemma moves_scan: "moves (lives_on X makes W) (scan_journal_files P cfg)"
  by (auto simp: moves_def scan_journal_files_def lives_on_def journal_live_def)

subsection \<open>Requests\<close>

lemma lives_on_put:
  assumes "journal_live st \<Longrightarrow> entries_ok s m"
    and "\<And>k. journal_live st \<Longrightarrow> s \<in> set (j_loaded st) \<Longrightarrow> entry_evolves makes (W (s, k)) (lookup_entry st (s, k)) (map_get m k)"
  shows "lives_on X makes W st (put_entries s m st)"
proof (rule lives_onI)
  show "journal_live st \<Longrightarrow> journal_live (put_entries s m st)" using assms(1) by (simp add: journal_live_def journal_ok_put)
next
  fix s' k
  assume "journal_live st" "s' \<in> set (j_loaded st)"
  then show "entry_evolves makes (W (s', k)) (lookup_entry st (s', k)) (lookup_entry (put_entries s m st) (s', k))"
    using assms(2) [of k] by (cases "s' = s") simp_all
qed simp

lemma transition_cases:
  obtains (refused) "memory (snd (journal_transition P cfg io s k to patch r st)) = memory st"
      and "(\<exists>err. fst (journal_transition P cfg io s k to patch r st) = Inl err)
        \<or> (\<exists>e. lookup_entry st (s, k) = Some e \<and> e_state e = to \<and> \<not> journal_transition_allowed to to r
              \<and> journal_transition P cfg io s k to patch r st = (Inr e, st))"
  | (moved) e e' st1 where "lookup_entry st (s, k) = Some e" and "memory st1 = memory st"
      and "journal_transition_allowed (e_state e) to r" and "journal_append P cfg io e' st = (Inr (), st1)"
      and "e' = patched patch (e\<lparr>e_state := to, e_updated := to_iso (jio_stamp io k)\<rparr>)"
      and "journal_transition P cfg io s k to patch r st = (Inr e', put_entries s (map_set (entries_of st s) k e') st1)"
proof (cases "lookup_entry st (s, k)")
  case None
  then show ?thesis by (intro refused) (auto simp: journal_transition_def)
next
  case (Some e)
  show ?thesis
  proof (cases "journal_transition_allowed (e_state e) to r")
    case False
    with Some show ?thesis by (intro refused) (auto simp: journal_transition_def)
  next
    case True
    define e' where "e' = patched patch (e\<lparr>e_state := to, e_updated := to_iso (jio_stamp io k)\<rparr>)"
    obtain a st1 where a: "journal_append P cfg io e' st = (a, st1)" by fastforce
    have m: "memory st1 = memory st" using memory_append [of P cfg io e' st] a by simp
    show ?thesis
    proof (cases a)
      case (Inl err)
      with a have "journal_transition P cfg io s k to patch r st = (Inl err, st1)"
        using Some True by (simp add: journal_transition_def Let_def e'_def)
      with m show ?thesis by (intro refused) simp_all
    next
      case (Inr u)
      with a have "journal_transition P cfg io s k to patch r st = (Inr e', put_entries s (map_set (entries_of st1 s) k e') st1)"
        using Some True by (simp add: journal_transition_def Let_def e'_def)
      with a Inr m Some True show ?thesis
        by (intro moved [of e st1 e']) (simp_all add: memory_fields(1) [OF m] e'_def)
    qed
  qed
qed

lemma lives_transition:
  assumes "r \<Longrightarrow> map_option e_state (lookup_entry st (s, k)) = Some JIndeterminate" and "W (s, k) = Some (to, patch, r)"
  shows "lives_on X makes W st (snd (journal_transition P cfg io s k to patch r st))"
proof (cases rule: transition_cases [of P cfg io s k to patch r st])
  case refused
  from lives_on_memory [OF refused(1)] show ?thesis .
next
  case (moved e e' st1)
  have "(e_state e, to) \<in> life r" by (rule allowed_life [OF moved(3)]) (use assms(1) moved(1) in simp)
  then have adv: "moved (W (s, k)) e e'" by (simp add: assms(2) moved_def moved(5))
  have "lives_on X makes W st1 (put_entries s (map_set (entries_of st s) k e') st1)"
  proof (rule lives_on_put)
    assume "journal_live st1"
    then have "journal_ok st" using memory_fields(2) [OF moved(2)] by (simp add: journal_live_def)
    then show "entries_ok s (map_set (entries_of st s) k e')"
      using journal_ok_lookup [OF _ moved(1)] by (intro entries_ok_set entries_of_ok) (simp_all add: moved(5))
  next
    fix k'
    show "entry_evolves makes (W (s, k')) (lookup_entry st1 (s, k')) (map_get (map_set (entries_of st s) k e') k')"
      using adv moved(1) by (simp add: memory_fields(3) [OF moved(2)] entries_of_lookup)
  qed
  with lives_on_memory [OF moved(2)] have "lives_on X makes W st (put_entries s (map_set (entries_of st s) k e') st1)"
    by (rule transpD [OF lives_on_trans])
  with moved(6) show ?thesis by simp
qed

lemma moves_transition:
  "W (s, k) = Some (to, patch, False) \<Longrightarrow> moves (lives_on X makes W) (journal_transition P cfg io s k to patch False)"
  by (simp add: moves_def lives_transition)

text \<open>The rest of \<open>beginRequest\<close>, of \<open>pruneSession\<close> and of \<open>reconcileRequest\<close> after loading.\<close>

lemma lives_new:
  assumes "lookup_entry st (e_session e, e_key e) = None"
  shows "lives_on X True W st (snd (then_do (journal_append P cfg io e) (\<lambda>_.
    then_do (change (set_entry e)) (\<lambda>_. then_do (index_ticket P e) (\<lambda>_. give e))) st))"
proof -
  obtain a st1 where a: "journal_append P cfg io e st = (a, st1)" by fastforce
  have m: "memory st1 = memory st" using memory_append [of P cfg io e st] a by simp
  show ?thesis
  proof (cases a)
    case (Inl err)
    with a show ?thesis by (simp add: lives_on_memory [OF m])
  next
    case (Inr u)
    have "lives_on X True W st1 (set_entry e st1)"
      unfolding set_entry_put using assms memory_fields(3) [OF m]
      by (intro lives_on_put) (auto simp: entries_of_lookup journal_live_def intro!: entries_ok_set entries_of_ok)
    moreover have "moves (lives_on X True W) (then_do (index_ticket P e) (\<lambda>_. give e))"
      by (intro lives_moves moves_plain)
    ultimately have "lives_on X True W st (snd (then_do (index_ticket P e) (\<lambda>_. give e) (set_entry e st1)))"
      using lives_on_memory [OF m] movesD transpD [OF lives_on_trans] by metis
    with a Inr show ?thesis by (simp add: then_do_def)
  qed
qed

lemma moves_begin: "moves (lives_on X True W) (begin_request P cfg io c)"
  unfolding begin_request_def
  by (intro lives_moves moves_plain moves_load, unfold moves_def)
     (auto simp: Let_def new_entry_def split: option.split intro!: lives_new reflpD [OF lives_on_refl])

lemma map_of_values:
  assumes "distinct (List.map e_key es)"
  shows "map_of (List.map (\<lambda>e. (e_key e, e)) es) k = Some e \<longleftrightarrow> e \<in> set es \<and> e_key e = k"
proof -
  have "distinct (List.map fst (List.map (\<lambda>e. (e_key e, e)) es))" using assms by (simp add: comp_def)
  then have "map_of (List.map (\<lambda>e. (e_key e, e)) es) k = Some e \<longleftrightarrow> (k, e) \<in> set (List.map (\<lambda>e. (e_key e, e)) es)"
    by (rule map_of_eq_Some_iff)
  then show ?thesis by auto
qed

text \<open>What a pruning keeps.\<close>

lemma retained_ok:
  assumes "entries_ok s m" and "set es \<subseteq> set (map_vals m)" and "distinct es"
  shows "entries_ok s (List.map (\<lambda>e. (e_key e, e)) es)"
    and "map_get (List.map (\<lambda>e. (e_key e, e)) es) k = Some e \<longleftrightarrow> e \<in> set es \<and> e_key e = k"
proof -
  have "inj_on e_key (set (map_vals m))"
    by (rule inj_onI) (use entries_ok_vals [OF assms(1)] in force)
  then have keys: "distinct (List.map e_key es)"
    using assms(2,3) by (simp add: distinct_map inj_on_subset)
  then show get: "map_get (List.map (\<lambda>e. (e_key e, e)) es) k = Some e \<longleftrightarrow> e \<in> set es \<and> e_key e = k" for k e
    by (rule map_of_values)
  have "e_session e = s" if "e \<in> set es" for e
    using that assms(2) entries_ok_vals [OF assms(1)] entries_ok_get [OF assms(1)] by blast
  with get keys show "entries_ok s (List.map (\<lambda>e. (e_key e, e)) es)"
    by (auto simp: entries_ok_def js_map_def comp_def)
qed

lemma entries_ok_keys:
  assumes "entries_ok s m"
  shows "distinct (List.map e_key (map_vals m))" "distinct (map_vals m)"
proof -
  have "e_key e = k" if "(k, e) \<in> set m" for k e
    using assms that by (simp add: entries_ok_def flip: map_get_iff)
  then have "List.map e_key (map_vals m) = map_keys m" by (auto simp: comp_def)
  with assms show keys: "distinct (List.map e_key (map_vals m))"
    by (metis entries_ok_def js_map_def)
  then show "distinct (map_vals m)" by (simp only: distinct_map [of e_key])
qed

lemma memory_prune_tickets [simp]: "memory (prune_tickets P m retained st) = memory st"
  by (simp add: prune_tickets_def memory_def)

lemma retained_subset: "set (prune_retained P cfg now m) \<subseteq> set (map_vals m)"
  by (auto simp: prune_retained_def)

lemma retained_open: "e \<in> set (map_vals m) \<Longrightarrow> \<not> settled e \<Longrightarrow> e \<in> set (prune_retained P cfg now m)"
  by (simp add: prune_retained_def settled_def)

lemma retained_distinct: "entries_ok s m \<Longrightarrow> distinct (prune_retained P cfg now m)"
  by (simp add: prune_retained_def entries_ok_keys(2))

lemma moves_prune_loaded: "moves (lives_on X False W) (prune_loaded P cfg io s)"
proof (unfold moves_def, rule allI)
  fix st
  define m where "m = entries_of st s"
  define retained where "retained = prune_retained P cfg (jio_now io) m"
  let ?m = "List.map (\<lambda>e. (e_key e, e)) retained"
  have put: "lives_on X False W st1 (put_entries s ?m st2)" if mem: "memory st1 = memory st" "memory st2 = memory st" for st1 st2
  proof (rule transpD [OF lives_on_trans])
    show "lives_on X False W st1 st2" by (rule lives_on_memory) (simp add: mem)
    show "lives_on X False W st2 (put_entries s ?m st2)"
    proof (rule lives_on_put)
      assume "journal_live st2"
      then have ok: "entries_ok s m" using memory_fields(2) [OF mem(2)] by (simp add: m_def journal_live_def entries_of_ok)
      note kept = retained_ok [OF ok retained_subset retained_distinct [OF ok]]
      show "entries_ok s ?m" unfolding retained_def by (rule kept(1))
      show "entry_evolves False (W (s, k)) (lookup_entry st2 (s, k)) (map_get ?m k)" for k
      proof -
        have before: "lookup_entry st2 (s, k) = map_get m k"
          by (simp add: m_def entries_of_lookup memory_fields(3) [OF mem(2)])
        have found: "e \<in> set (map_vals m) \<and> e_key e = k" if "map_get m k = Some e" for e
          using that entries_ok_get [OF ok that] entries_ok_vals [OF ok] by auto
        have stays: "map_get ?m k = Some e \<longleftrightarrow> e \<in> set retained \<and> e_key e = k" for e
          unfolding retained_def by (rule kept(2))
        show ?thesis
        proof (cases "map_get m k")
          case None
          have "map_get ?m k \<noteq> Some e" for e
            using None stays [of e] retained_subset [of P cfg "jio_now io" m] entries_ok_vals [OF ok, of e]
            by (auto simp: retained_def)
          with None before show ?thesis by (cases "map_get ?m k") auto
        next
          case (Some e)
          from found [OF Some] have "map_get ?m k = Some e \<or> settled e"
            using stays [of e] retained_open unfolding retained_def by blast
          moreover have "map_get ?m k = Some e' \<Longrightarrow> e' = e" for e'
            using stays [of e'] found [OF Some] retained_subset [of P cfg "jio_now io" m] entries_ok_vals [OF ok, of e'] Some
            by (auto simp: retained_def)
          ultimately show ?thesis using before Some by (cases "map_get ?m k") (auto intro: exI [of _ e])
        qed
      qed
    qed
  qed
  have "lives_on X False W st (snd (prune_loaded P cfg io s st))"
  proof (cases "length m - length retained = 0 \<or> (\<exists>e. journal_path s = Inl e)")
    case True
    then show ?thesis
      using lives_on_refl by (auto simp: prune_loaded_def Let_def reflp_def then_do_def simp flip: m_def retained_def)
  next
    case False
    then obtain name where name: "journal_path s = Inr name" by (cases "journal_path s") auto
    obtain a st1 where w: "atomic_write_lines (current_uid P) (jio_rewrite io) name (List.map entry_json retained) st = (a, st1)"
      by fastforce
    have mem: "memory st1 = memory st"
      using memory_rewrite [of "current_uid P" "jio_rewrite io" name "List.map entry_json retained" st] w by simp
    then have "memory (prune_tickets P m retained st1) = memory st" by simp
    from put [OF refl this] lives_on_memory [OF mem] w name False show ?thesis
      by (cases a) (auto simp: prune_loaded_def Let_def then_do_def simp flip: m_def retained_def)
  qed
  then show "lives_on X False W st (snd (prune_loaded P cfg io s st))" .
qed

lemma moves_prune: "moves (lives_on X False W) (prune_session P cfg io s)"
  unfolding prune_session_def by (intro lives_moves moves_plain moves_load moves_prune_loaded)

subsection \<open>The other operations\<close>

lemma moves_accept:
  "W (s, k) = Some (JAccepted, JNoPatch, False) \<Longrightarrow> moves (lives_on X makes W) (mark_accepted P cfg io s k)"
  unfolding mark_accepted_def by (intro lives_moves moves_load moves_transition)

lemma moves_settle:
  "W (s, k) = Some (to, patch, False) \<Longrightarrow> moves (lives_on X False W) (settle_request P cfg io s k to patch)"
  unfolding settle_request_def by (intro lives_moves moves_load moves_transition moves_prune)

lemma moves_get: "moves (lives_on X makes W) (get_request P cfg io s k)"
  unfolding get_request_def by (intro lives_moves moves_plain moves_load) (simp add: moves_memory)

lemma moves_get_ticket: "moves (lives_on X makes W) (get_request_by_ticket P cfg io t)"
  unfolding get_request_by_ticket_def
  by (intro lives_moves moves_plain moves_scan, unfold moves_def)
     (auto simp: movesD [OF moves_get] reflpD [OF lives_on_refl] split: option.split)

text \<open>A reconciliation moves the request its ticket names.\<close>

definition reconcile_loaded ::
  "platform \<Rightarrow> journal_config \<Rightarrow> journal_io \<Rightarrow> string \<Rightarrow> string \<Rightarrow> json option + json \<Rightarrow> (journal_store, journal_entry) effect" where
  "reconcile_loaded P cfg io s k outcome =
     then_do (load_session_journal P cfg s) (\<lambda>_.
     then_do (\<lambda>st. if map_option e_state (lookup_entry st (s, k)) \<noteq> Some JIndeterminate
                   then (Inl (durability_error ''ticket_not_indeterminate''), st)
                   else journal_transition P cfg io s k (outcome_state outcome) (outcome_patch outcome) True st)
       (\<lambda>e. then_do (prune_session P cfg io s) (\<lambda>_. give e)))"

lemma moves_reconcile_loaded:
  assumes "W (s, k) = Some (outcome_state outcome, outcome_patch outcome, True)"
  shows "moves (lives_on X False W) (reconcile_loaded P cfg io s k outcome)"
proof -
  have "moves (lives_on X False W) (\<lambda>st. if map_option e_state (lookup_entry st (s, k)) \<noteq> Some JIndeterminate
      then (Inl (durability_error ''ticket_not_indeterminate''), st)
      else journal_transition P cfg io s k (outcome_state outcome) (outcome_patch outcome) True st)"
    using assms by (simp add: moves_def lives_transition reflpD [OF lives_on_refl])
  then show ?thesis unfolding reconcile_loaded_def by (intro lives_moves moves_load moves_prune)
qed

lemma reconcile_live:
  assumes "journal_live st"
  obtains (stopped) "memory (snd (reconcile_request P cfg io t outcome st)) = memory st"
      and "\<exists>err. fst (reconcile_request P cfg io t outcome st) = Inl err"
  | (found) s k st1 where "map_get (j_tickets st) t = Some (s, k)" and "memory st1 = memory st"
      and "reconcile_request P cfg io t outcome st = reconcile_loaded P cfg io s k outcome st1"
proof (cases "fst (journal_initialize io st)")
  case (Inl err)
  then have "journal_initialize io st = (Inl err, snd (journal_initialize io st))" by (simp add: prod_eq_iff)
  then have "reconcile_request P cfg io t outcome st = (Inl err, snd (journal_initialize io st))"
    by (simp add: reconcile_request_def)
  then show ?thesis by (intro stopped) simp_all
next
  case (Inr u)
  define st1 where "st1 = snd (journal_initialize io st)"
  have i: "journal_initialize io st = (Inr u, st1)" using Inr by (simp add: st1_def prod_eq_iff)
  have m: "memory st1 = memory st" by (simp add: st1_def)
  have tickets: "j_tickets st1 = j_tickets st"
    using i by (auto simp: journal_initialize_def split: if_splits sum.splits)
  have "j_scanned st1" using assms m by (simp add: journal_live_def memory_def)
  then have scan: "scan_journal_files P cfg st1 = (Inr (), st1)" by (simp add: scan_journal_files_def)
  show ?thesis
  proof (cases "map_get (j_tickets st) t")
    case None
    then show ?thesis by (intro stopped) (simp_all add: reconcile_request_def i scan tickets m)
  next
    case (Some sk)
    moreover obtain s k where "sk = (s, k)" by fastforce
    ultimately show ?thesis using m by (intro found [of s k st1]) (simp_all add: reconcile_request_def reconcile_loaded_def i scan tickets)
  qed
qed

lemma lives_reconcile:
  assumes "\<And>s k. map_get (j_tickets st) t = Some (s, k) \<Longrightarrow> W (s, k) = Some (outcome_state outcome, outcome_patch outcome, True)"
  shows "lives_on X False W st (snd (reconcile_request P cfg io t outcome st))"
proof (cases "journal_live st")
  case True
  then show ?thesis
  proof (cases rule: reconcile_live [of st P cfg io t outcome])
    case stopped
    from lives_on_memory [OF stopped(1)] show ?thesis .
  next
    case (found s k st1)
    from movesD [OF moves_reconcile_loaded [where W = W, OF assms [OF found(1)]]] lives_on_memory [OF found(2)] show ?thesis
      unfolding found(3) by (meson lives_on_trans transpD)
  qed
qed (simp add: lives_on_def)

lemma moves_save_manifest: "moves (lives_on X makes W) (save_manifest P cfg io c conversation)"
  unfolding save_manifest_def Let_def by (auto intro!: lives_moves moves_plain)

lemma moves_close:
  assumes "retain \<or> s \<in> X"
  shows "moves (lives_on X makes W) (close_session P io s retain)"
proof -
  have remove: "lives_on X makes W st (snd (remove_session P io s name st))" if "s \<in> X" for st name
  proof -
    have m: "memory (st\<lparr>j_sessions := d\<rparr>) = memory st" for d by (simp add: memory_def)
    have closed: "lives_on X makes W st (st\<lparr>j_sessions := d, j_files := f, j_tickets := t, j_entries := map_del (j_entries st) s,
        j_loaded := List.filter (\<lambda>s'. s' \<noteq> s) (j_loaded st)\<rparr>)" for d f t
      using that by (intro lives_onI) (auto simp: journal_live_def journal_ok_def lookup_entry_def split: if_splits)
    show ?thesis
      by (simp add: remove_session_def Let_def closed lives_on_memory [OF m] reflpD [OF lives_on_refl] split: option.split)
  qed
  have "moves (lives_on X makes W) (if retain then give () else remove_session P io s name)" for name
    using assms remove by (auto simp: moves_def reflpD [OF lives_on_refl])
  then show ?thesis unfolding close_session_def by (intro lives_moves moves_plain)
qed

lemma moves_manifests: "moves (lives_on X makes W) (load_manifest_names P cfg names)"
proof (induction names)
  case Nil
  then show ?case by (simp add: moves_memory)
next
  case (Cons name names)
  have "moves (lives_on X makes W) (load_manifest P cfg name)"
    unfolding load_manifest_def Let_def by (intro lives_moves moves_plain) (auto intro!: lives_moves moves_plain split: option.split)
  then have "moves (lives_on X makes W) (then_do (load_manifest P cfg name) (\<lambda>m.
      then_do (load_manifest_names P cfg names) (\<lambda>ms. give (case m of Some v \<Rightarrow> v # ms | None \<Rightarrow> ms))))"
    using Cons by (intro lives_moves)
  then show ?case by (simp add: moves_def)
qed

definition sweeping :: "string \<times> string \<Rightarrow> aim" where
  "sweeping sk = Some (JIndeterminate, JNoPatch, False)"

lemma moves_recover_entries: "moves (lives_on X makes sweeping) (recover_entries P cfg io rs)"
proof (induction rs)
  case Nil
  then show ?case by (simp add: moves_memory)
next
  case (Cons sk rs)
  obtain s k where sk: "sk = (s, k)" by fastforce
  have rest: "moves (lives_on X makes sweeping) (then_do (recover_entries P cfg io rs) (\<lambda>(q, i). give (f q i)))"
    for f :: "journal_entry list \<Rightarrow> journal_entry list \<Rightarrow> journal_entry list \<times> journal_entry list"
    using Cons by (auto intro!: lives_moves)
  have "moves (lives_on X makes sweeping) (then_do (journal_transition P cfg io s k JIndeterminate JNoPatch False)
      (\<lambda>e. then_do (recover_entries P cfg io rs) (\<lambda>(q, i). give (q, e # i))))"
    by (intro lives_moves moves_transition rest) (simp add: sweeping_def)
  then show ?case
    using movesD [OF rest [of "\<lambda>q i. (e # q, i)" for e]] movesD [OF rest [of "\<lambda>q i. (q, e # i)" for e]] movesD [OF Cons]
    by (auto simp: moves_def sk split: option.split journal_state.split)
qed

lemma moves_recover: "moves (lives_on X False sweeping) (journal_recover P cfg io)"
proof -
  have "moves (lives_on X False sweeping) (load_manifests P cfg)"
    using movesD [OF moves_manifests] by (simp add: moves_def load_manifests_def Let_def reflpD [OF lives_on_refl])
  then show ?thesis
    unfolding journal_recover_def
    by (auto intro!: lives_moves moves_plain moves_scan moves_recover_entries moves_prune)
qed

section \<open>Sequences of calls\<close>

datatype journal_call =
    BeginRequest journal_io json
  | MarkAccepted journal_io string string
  | MarkCompleted journal_io string string "json option"
  | MarkFailed journal_io string string json
  | GetRequest journal_io string string
  | GetByTicket journal_io string
  | ReconcileRequest journal_io string "json option + json"
  | PruneSession journal_io string
  | SaveManifest journal_io json "json option"
  | CloseSession journal_io string bool
  | Recover journal_io

fun journal_step :: "platform \<Rightarrow> journal_config \<Rightarrow> journal_call \<Rightarrow> journal_store \<Rightarrow> journal_store" where
  "journal_step P cfg (BeginRequest io c) st = snd (begin_request P cfg io c st)"
| "journal_step P cfg (MarkAccepted io s k) st = snd (mark_accepted P cfg io s k st)"
| "journal_step P cfg (MarkCompleted io s k r) st = snd (mark_completed P cfg io s k r st)"
| "journal_step P cfg (MarkFailed io s k e) st = snd (mark_request_failed P cfg io s k e st)"
| "journal_step P cfg (GetRequest io s k) st = snd (get_request P cfg io s k st)"
| "journal_step P cfg (GetByTicket io t) st = snd (get_request_by_ticket P cfg io t st)"
| "journal_step P cfg (ReconcileRequest io t outcome) st = snd (reconcile_request P cfg io t outcome st)"
| "journal_step P cfg (PruneSession io s) st = snd (prune_session P cfg io s st)"
| "journal_step P cfg (SaveManifest io c conversation) st = snd (save_manifest P cfg io c conversation st)"
| "journal_step P cfg (CloseSession io s retain) st = snd (close_session P io s retain st)"
| "journal_step P cfg (Recover io) st = snd (journal_recover P cfg io st)"

fun closes :: "journal_call \<Rightarrow> string set" where
  "closes (CloseSession io s retain) = (if retain then {} else {s})"
| "closes _ = {}"

text \<open>What a call asks of a request, and the calls that may make one.\<close>

fun aim_of :: "journal_call \<Rightarrow> journal_store \<Rightarrow> string \<times> string \<Rightarrow> aim" where
  "aim_of (MarkAccepted io s k) st sk = (if sk = (s, k) then Some (JAccepted, JNoPatch, False) else None)"
| "aim_of (MarkCompleted io s k r) st sk = (if sk = (s, k) then Some (JCompleted, JResult r, False) else None)"
| "aim_of (MarkFailed io s k e) st sk = (if sk = (s, k) then Some (JFailed, JError e, False) else None)"
| "aim_of (ReconcileRequest io t outcome) st sk =
     (if map_get (j_tickets st) t = Some sk then Some (outcome_state outcome, outcome_patch outcome, True) else None)"
| "aim_of (Recover io) st sk = sweeping sk"
| "aim_of _ st sk = None"

fun begins :: "journal_call \<Rightarrow> bool" where
  "begins (BeginRequest io c) \<longleftrightarrow> True"
| "begins _ \<longleftrightarrow> False"

lemma lives_step: "closes c \<subseteq> X \<Longrightarrow> lives_on X (begins c) (aim_of c st) st (journal_step P cfg c st)"
proof (cases c)
  case (Recover io)
  have "aim_of c st = sweeping" by (simp add: Recover fun_eq_iff)
  then show ?thesis by (simp add: Recover movesD [OF moves_recover])
qed (auto simp: mark_completed_def mark_request_failed_def movesD [OF moves_begin] movesD [OF moves_accept]
       movesD [OF moves_settle] movesD [OF moves_get] movesD [OF moves_get_ticket] lives_reconcile
       movesD [OF moves_prune] movesD [OF moves_save_manifest]
       intro!: movesD [OF moves_close] split: if_splits)

definition journal_run :: "platform \<Rightarrow> journal_config \<Rightarrow> journal_call list \<Rightarrow> journal_store \<Rightarrow> journal_store" where
  "journal_run P cfg cs st = fold (journal_step P cfg) cs st"

lemma journal_run_live: "journal_live st \<Longrightarrow> journal_live (journal_run P cfg cs st)"
proof (induction cs arbitrary: st)
  case (Cons c cs)
  have "journal_live (journal_step P cfg c st)"
    using lives_step [of c UNIV st P cfg] Cons.prems by (simp add: lives_on_def)
  with Cons.IH show ?case by (simp add: journal_run_def)
qed (simp add: journal_run_def)

end
