(* ===== verification/JournalReplay.thy ===== *)
theory JournalReplay
  imports JournalLaws
begin

text \<open>
  The journal files are the requests: as long as every append either happens or does not, replaying
  the lines of a session's file gives exactly the entries the store holds for it, so a restarted
  process finds every request as it was.
\<close>

section \<open>Replaying a log\<close>

definition replay :: "journal_entry list \<Rightarrow> entries" where
  "replay es = fold (\<lambda>e m. map_set m (e_key e) e) es []"

lemma replay_Nil [simp]: "replay [] = []"
  by (simp add: replay_def)

lemma replay_snoc [simp]: "replay (es @ [e]) = map_set (replay es) (e_key e) e"
  by (simp add: replay_def)

lemma replay_sub: "map_get (replay es) k = Some e \<Longrightarrow> e \<in> set es \<and> e_key e = k"
  by (induction es rule: rev_induct) (auto split: if_splits)

lemma replay_has: "e \<in> set es \<Longrightarrow> map_has (replay es) (e_key e)"
  by (induction es rule: rev_induct) auto

lemma replay_js_map: "js_map (replay es)"
  by (induction es rule: rev_induct) auto

lemma replay_ok: "(\<And>e. e \<in> set es \<Longrightarrow> e_session e = s) \<Longrightarrow> entries_ok s (replay es)"
  by (auto simp: entries_ok_def replay_js_map dest: replay_sub)

text \<open>A compacted log, whose keys are distinct, replays to itself.\<close>

lemma replay_distinct: "distinct (List.map e_key es) \<Longrightarrow> replay es = List.map (\<lambda>e. (e_key e, e)) es"
proof (induction es rule: rev_induct)
  case (snoc e es)
  then have "map_get (List.map (\<lambda>e. (e_key e, e)) es) (e_key e) = None"
    by (auto simp: map_of_eq_None_iff comp_def)
  with snoc show ?case by (simp add: map_set_absent)
qed simp

lemma sum_set_le: "sum f (set ys) \<le> sum_list (List.map f (ys :: 'a list))" for f :: "'a \<Rightarrow> nat"
  by (induction ys) (auto simp: sum.insert_if)

lemma sum_list_sub:
  fixes f :: "'a \<Rightarrow> nat"
  assumes "distinct xs" and "set xs \<subseteq> set ys"
  shows "sum_list (List.map f xs) \<le> sum_list (List.map f ys)"
proof -
  have "sum_list (List.map f xs) = sum f (set xs)" using assms(1) by (simp add: sum_list_distinct_conv_sum_set)
  also have "\<dots> \<le> sum f (set ys)" using assms(2) by (intro sum_mono2) auto
  finally show ?thesis using sum_set_le [of f ys] by linarith
qed

section \<open>Stores that agree with their files\<close>

definition log_of :: "platform \<Rightarrow> journal_config \<Rightarrow> journal_file option \<Rightarrow> journal_entry list \<Rightarrow> bool" where
  "log_of P cfg f es \<longleftrightarrow>
     (case f of
        None \<Rightarrow> es = []
      | Some g \<Rightarrow> jf_lines g = List.map (\<lambda>e. JsonText (entry_json e)) es \<and> \<not> jf_torn g
          \<and> sum_list (List.map (\<lambda>e. line_size (entry_json e)) es) \<le> jf_size g \<and> jf_size g \<le> max_journal_file_bytes cfg
          \<and> validate_private_file_if_exists (current_uid P) (Some (jf_info g)) = Inr ())"

definition session_synced :: "platform \<Rightarrow> journal_config \<Rightarrow> string \<Rightarrow> entries \<Rightarrow> journal_file option \<Rightarrow> bool" where
  "session_synced P cfg s m f \<longleftrightarrow>
     (\<exists>es. log_of P cfg f es \<and> replay es = m \<and> (\<forall>e \<in> set es. e_session e = s \<and> valid_journal_entry (entry_json e)))"

definition journal_file_of :: "journal_store \<Rightarrow> string \<Rightarrow> journal_file option" where
  "journal_file_of st s = (case journal_path s of Inr name \<Rightarrow> map_get (j_files st) name | Inl _ \<Rightarrow> None)"

definition synced :: "platform \<Rightarrow> journal_config \<Rightarrow> journal_store \<Rightarrow> bool" where
  "synced P cfg st \<longleftrightarrow> j_scanned st
     \<and> (\<forall>s. s \<in> set (j_loaded st) \<longleftrightarrow> map_has (j_entries st) s)
     \<and> (\<forall>s. session_synced P cfg s (entries_of st s) (journal_file_of st s))"

lemma journal_file_of_cong: "j_files st' = j_files st \<Longrightarrow> journal_file_of st' = journal_file_of st"
  by (rule ext) (simp add: journal_file_of_def split: sum.split)

lemma entries_of_cong: "j_entries st' = j_entries st \<Longrightarrow> entries_of st' = entries_of st"
  by (rule ext) (simp add: entries_of_def)

lemma session_synced_ok: "session_synced P cfg s m f \<Longrightarrow> entries_ok s m"
  unfolding session_synced_def by (auto intro: replay_ok)

lemma synced_journal_ok: "synced P cfg st \<Longrightarrow> journal_ok st"
  unfolding synced_def journal_ok_def
  by (metis entries_of_def option.simps(5) session_synced_ok)

text \<open>Steps that change neither files nor memory.\<close>

definition journal_side :: "journal_store \<Rightarrow> (string, journal_file) jsmap \<times> (string, entries) jsmap \<times> string list \<times> bool" where
  "journal_side st = (j_files st, j_entries st, j_loaded st, j_scanned st)"

lemma synced_side: "journal_side st' = journal_side st \<Longrightarrow> synced P cfg st \<Longrightarrow> synced P cfg st'"
proof -
  assume "journal_side st' = journal_side st" and ok: "synced P cfg st"
  then have eqs: "j_files st' = j_files st" "j_entries st' = j_entries st" "j_loaded st' = j_loaded st"
    "j_scanned st' = j_scanned st"
    by (simp_all add: journal_side_def)
  with ok show ?thesis
    by (simp only: synced_def journal_file_of_cong [OF eqs(1)] entries_of_cong [OF eqs(2)] eqs simp_thms)
qed

lemma keeps_side: "(\<And>st. journal_side (snd (m st)) = journal_side st) \<Longrightarrow> keeps (synced P cfg) m"
  by (rule keepsI) (rule synced_side)

lemma side_steps [simp]:
  "journal_side (snd (journal_initialize io st)) = journal_side st"
  "journal_side (snd (claim_recovery_bytes cfg n st)) = journal_side st"
  "journal_side (snd (index_ticket P e st)) = journal_side st"
  "journal_side (put_session_files name files st) = journal_side st"
  "journal_side (prune_tickets P m es st) = journal_side st"
  by (simp_all add: journal_side_def journal_initialize_def claim_recovery_bytes_def index_ticket_def Let_def
      put_session_files_def prune_tickets_def split: sum.splits option.splits)

lemma side_ensure [simp]: "journal_side (snd (ensure_session_dir P name st)) = journal_side st"
  by (simp add: journal_side_def ensure_session_dir_def split: option.splits sum.splits)

lemma side_manifest [simp]:
  "journal_side (snd (read_manifest P name st)) = journal_side st"
  "journal_side (snd (remove_manifest io name st)) = journal_side st"
  by (simp_all add: read_manifest_def remove_manifest_def split: option.splits sum.splits)

lemma side_write_manifest [simp]: "journal_side (snd (write_manifest P cfg io name v st)) = journal_side st"
  by (simp add: write_manifest_def split: sum.splits prod.splits)

lemmas keeps_plain = keeps_side [OF side_steps(1)] keeps_side [OF side_steps(2)] keeps_side [OF side_steps(3)]
  keeps_side [OF side_ensure] keeps_side [OF side_manifest(1)] keeps_side [OF side_manifest(2)]
  keeps_side [OF side_write_manifest]

text \<open>A step that replaces the file and the entries of one session.\<close>

lemma journal_file_of_put:
  assumes "journal_path s = Inr name"
  shows "journal_file_of (put_file name f st) s' = (if s' = s then Some f else journal_file_of st s')"
proof (cases "journal_path s'")
  case (Inr name')
  then have "name' = name \<longleftrightarrow> s' = s" using assms journal_path_inj by auto
  with Inr show ?thesis by (simp add: journal_file_of_def put_file_def)
next
  case (Inl e)
  with assms show ?thesis by (auto simp: journal_file_of_def)
qed

lemma put_file_fields [simp]:
  "j_entries (put_file name f st) = j_entries st" "j_loaded (put_file name f st) = j_loaded st"
  "j_scanned (put_file name f st) = j_scanned st" "entries_of (put_file name f st) = entries_of st"
  by (simp_all add: put_file_def entries_of_def fun_eq_iff)

lemma journal_file_of_put_entries [simp]: "journal_file_of (put_entries s m st) = journal_file_of st"
  by (rule journal_file_of_cong) simp

lemma synced_replace:
  assumes "synced P cfg st" and "journal_path s = Inr name" and "s \<in> set (j_loaded st)"
    and "session_synced P cfg s m (Some f)"
  shows "synced P cfg (put_entries s m (put_file name f st))"
proof -
  let ?st = "put_entries s m (put_file name f st)"
  have "map_has (j_entries st) s" using assms(1,3) by (simp add: synced_def)
  then have "map_has (j_entries ?st) s' = map_has (j_entries st) s'" for s'
    by (auto simp: put_entries_def)
  moreover have "session_synced P cfg s' (entries_of ?st s') (journal_file_of ?st s')" for s'
    using assms(1,4) by (simp add: journal_file_of_put [OF assms(2)] synced_def)
  ultimately show ?thesis using assms(1) by (simp add: synced_def)
qed

section \<open>Appending\<close>

fun clean_append :: "append_outcome \<Rightarrow> bool" where
  "clean_append (TornAppend n e) = False"
| "clean_append (AppendThrew e) = False"
| "clean_append _ = True"

text \<open>Every append and every rewriting of a journal happens as a whole or not at all.\<close>

definition clean_io :: "journal_io \<Rightarrow> bool" where
  "clean_io io \<longleftrightarrow> (\<forall>k. clean_append (jio_append io k)) \<and> (\<forall>e. jio_rewrite io \<noteq> PublishedThrew e)"

lemma validate_own [simp]:
  "validate_private_file_if_exists current (Some (own_info current RegularFile 384)) = Inr ()"
  by (auto simp: validate_private_file_if_exists_def own_info_def has_foreign_path_owner_def
      is_permitted_path_owner_def has_forbidden_exposure_def split: option.splits)

lemma validate_chmod:
  "validate_private_file_if_exists current (Some i) = Inr () \<Longrightarrow>
     validate_private_file_if_exists current (Some (i\<lparr>node_mode := 384\<rparr>)) = Inr ()"
  by (simp add: validate_private_file_ok has_forbidden_exposure_def)

lemma clean_write:
  assumes "clean_append outcome" and "outcome \<noteq> NotSerializable" and "write_line outcome name v g st = (r, st1)"
  shows "(\<exists>e. r = Inl e) \<and> st1 = st
    \<or> r = Inr () \<and> st1 = put_file name ((with_line v g)\<lparr>jf_info := (jf_info g)\<lparr>node_mode := 384\<rparr>\<rparr>) st"
  using assms by (cases outcome) (auto simp: write_line_def)

lemma clean_append_throws: "clean_io io \<Longrightarrow> journal_append P cfg io e st = (Inl err, st1) \<Longrightarrow> st1 = st"
proof (cases rule: append_cases [of P cfg io e st])
  case (wrote name)
  assume "clean_io io" "journal_append P cfg io e st = (Inl err, st1)"
  with clean_write [of "jio_append io (e_key e)" name "entry_json e" _ st "Inl err" st1] wrote(5,6) show ?thesis
    by (auto simp: clean_io_def)
qed auto

lemma log_of_append:
  assumes "log_of P cfg f es" and "validate_private_file_if_exists (current_uid P) (map_option jf_info f) = Inr ()"
    and "(case f of Some g \<Rightarrow> jf_size g | None \<Rightarrow> 0) + line_size (entry_json e) \<le> max_journal_file_bytes cfg"
  shows "log_of P cfg (Some ((with_line (entry_json e) (opened_file (current_uid P) f))
    \<lparr>jf_info := (jf_info (opened_file (current_uid P) f))\<lparr>node_mode := 384\<rparr>\<rparr>)) (es @ [e])"
  using assms by (cases f) (auto simp: log_of_def opened_file_def with_line_def intro: validate_chmod)

lemma append_synced:
  assumes "synced P cfg st" and "e_session e \<in> set (j_loaded st)" and "clean_io io"
    and "valid_journal_entry (entry_json e)" and "journal_append P cfg io e st = (Inr u, st1)"
  shows "synced P cfg (put_entries (e_session e) (map_set (entries_of st (e_session e)) (e_key e) e) st1)"
proof (cases rule: append_cases [of P cfg io e st])
  case refused
  with assms(5) show ?thesis by simp
next
  case (wrote name)
  let ?s = "e_session e" and ?f = "map_get (j_files st) name"
  let ?g = "(with_line (entry_json e) (opened_file (current_uid P) ?f))
    \<lparr>jf_info := (jf_info (opened_file (current_uid P) ?f))\<lparr>node_mode := 384\<rparr>\<rparr>"
  have st1: "st1 = put_file name ?g st"
  proof -
    have "write_line (jio_append io (e_key e)) name (entry_json e) (opened_file (current_uid P) ?f) st = (Inr u, st1)"
      using wrote(6) assms(5) by simp
    from clean_write [OF _ wrote(5) this] show ?thesis using assms(3) by (simp add: clean_io_def)
  qed
  have "journal_file_of st ?s = ?f" using wrote(1) by (simp add: journal_file_of_def)
  then obtain es where es: "log_of P cfg ?f es" "replay es = entries_of st ?s"
    "\<forall>e' \<in> set es. e_session e' = ?s \<and> valid_journal_entry (entry_json e')"
    using assms(1) unfolding synced_def session_synced_def by metis
  have "session_synced P cfg ?s (map_set (entries_of st ?s) (e_key e) e) (Some ?g)"
    unfolding session_synced_def
    using log_of_append [OF es(1) wrote(2,4)] es(2,3) assms(4) by (intro exI [of _ "es @ [e]"]) auto
  from synced_replace [OF assms(1) wrote(1) assms(2) this] show ?thesis unfolding st1 .
qed

section \<open>Every operation keeps files and memory together\<close>

lemma validate_none: "validate_private_file_if_exists current None = Inr ()"
  by (simp add: validate_private_file_if_exists_def)

text \<open>A session the store does not hold has no lines.\<close>

lemma load_empty:
  assumes "synced P cfg st" and "s \<notin> set (j_loaded st)" and "journal_path s = Inr name"
  shows "load_journal_file P cfg name (Some s) False st = (Inr (), st) \<and> log_of P cfg (journal_file_of st s) []"
proof -
  have "entries_of st s = []" using assms(1,2) by (simp add: synced_def entries_of_def)
  then obtain es where es: "log_of P cfg (journal_file_of st s) es" "replay es = []"
    using assms(1) unfolding synced_def session_synced_def by metis
  have "es = []"
  proof (rule ccontr)
    assume "es \<noteq> []"
    with replay_has [of "hd es" es] es(2) show False by simp
  qed
  moreover have "journal_file_of st s = map_get (j_files st) name" using assms(3) by (simp add: journal_file_of_def)
  ultimately show ?thesis
    using es(1)
    by (cases "map_get (j_files st) name")
       (simp_all add: log_of_def load_journal_file_def Let_def validate_none then_do_def give_def)
qed

lemma load_synced:
  assumes "synced P cfg st" and "load_session_journal P cfg s st = (r, st1)"
  shows "synced P cfg st1 \<and> ((\<exists>u. r = Inr u) \<longrightarrow> s \<in> set (j_loaded st1))"
proof (cases "s \<in> set (j_loaded st) \<or> (\<exists>e. journal_path s = Inl e)")
  case True
  with assms show ?thesis by (auto simp: load_session_journal_def split: if_splits)
next
  case False
  then obtain name where name: "s \<notin> set (j_loaded st)" "journal_path s = Inr name" by (cases "journal_path s") auto
  note load = load_empty [OF assms(1) name]
  have new: "\<not> map_has (j_entries st) s" using assms(1) name(1) by (simp add: synced_def)
  let ?st = "add_loaded s (put_entries s [] st)"
  have st1: "r = Inr ()" "st1 = ?st"
    using assms(2) name new load by (simp_all add: load_session_journal_def then_do_def)
  have "journal_file_of ?st = journal_file_of st" by (rule journal_file_of_cong) simp
  moreover have "session_synced P cfg s [] (journal_file_of st s)"
    using load by (auto simp: session_synced_def intro: exI [of _ "[]"])
  moreover have "entries_of ?st s' = (if s' = s then [] else entries_of st s')" for s'
    using entries_of_cong [of ?st "put_entries s [] st"] by simp
  moreover have "s' \<in> set (j_loaded ?st) \<longleftrightarrow> map_has (j_entries ?st) s'" for s'
    using assms(1) by (auto simp: put_entries_def synced_def)
  ultimately have "synced P cfg ?st" using assms(1) by (simp add: synced_def)
  then show ?thesis unfolding st1 by simp
qed

lemma keeps_load: "keeps (synced P cfg) (load_session_journal P cfg s)"
  by (rule keepsI) (metis load_synced prod.collapse)

text \<open>Commands as \<open>parseCommand\<close> admits them.\<close>

definition wake_command :: "json \<Rightarrow> bool" where
  "wake_command c \<longleftrightarrow> is_record c \<and> field c ''operation'' = Some (JStr ''wake'')
     \<and> list_all (\<lambda>k. nonempty_string (field c k)) [''sessionId'', ''idempotencyKey'', ''requestId'']
     \<and> safe_int_from 0 (field c ''generation'')"

definition digests_ok :: "platform \<Rightarrow> bool" where
  "digests_ok P \<longleftrightarrow> (\<forall>s. sha256_hex P s \<noteq> [])"

lemma nonempty_str_field: "nonempty_string (field v k) \<Longrightarrow> str_field v k \<noteq> []"
  by (auto simp: nonempty_string_def str_field_def split: option.splits)

lemma valid_entry_json:
  "valid_journal_entry (entry_json e) \<longleftrightarrow>
     e_session e \<noteq> [] \<and> e_key e \<noteq> [] \<and> e_request_id e \<noteq> [] \<and> e_fingerprint e \<noteq> []
     \<and> safe_int (e_generation e) \<and> 0 \<le> e_generation e
     \<and> is_record (e_command e) \<and> field (e_command e) ''operation'' = Some (JStr ''wake'')"
  by (auto simp: valid_journal_entry_def entry_json_def nonempty_string_def safe_int_from_def is_journal_state_def)

lemma valid_new:
  assumes "wake_command c" and "digests_ok P"
  shows "valid_journal_entry (entry_json (new_entry P io c))"
  using assms
  by (auto simp: valid_entry_json new_entry_def Let_def wake_command_def safe_int_from_def request_fingerprint_def
      digests_ok_def nonempty_str_field split: option.splits)

lemma valid_patched: "valid_journal_entry (entry_json e) \<Longrightarrow>
    valid_journal_entry (entry_json (patched p (e\<lparr>e_state := to, e_updated := u\<rparr>)))"
  by (simp add: valid_entry_json)

lemma synced_valid:
  assumes "synced P cfg st" and "lookup_entry st (s, k) = Some e"
  shows "valid_journal_entry (entry_json e) \<and> e_session e = s \<and> e_key e = k \<and> s \<in> set (j_loaded st)"
proof -
  obtain es where "replay es = entries_of st s" "\<forall>e' \<in> set es. e_session e' = s \<and> valid_journal_entry (entry_json e')"
    using assms(1) unfolding synced_def session_synced_def by metis
  moreover have "map_get (entries_of st s) k = Some e" using assms(2) by (simp add: entries_of_lookup)
  ultimately have "valid_journal_entry (entry_json e) \<and> e_session e = s \<and> e_key e = k"
    using replay_sub [of es k e] by auto
  moreover have "map_has (j_entries st) s" using assms(2) by (auto simp: lookup_entry_conv)
  ultimately show ?thesis using assms(1) by (simp add: synced_def)
qed

lemma keeps_transition: "clean_io io \<Longrightarrow> keeps (synced P cfg) (journal_transition P cfg io s k to patch r)"
proof (rule keepsI)
  fix st
  assume clean: "clean_io io" and ok: "synced P cfg st"
  show "synced P cfg (snd (journal_transition P cfg io s k to patch r st))"
  proof (cases "lookup_entry st (s, k)")
    case None
    with ok show ?thesis by (simp add: journal_transition_def)
  next
    case (Some e)
    define e' where "e' = patched patch (e\<lparr>e_state := to, e_updated := to_iso (jio_stamp io k)\<rparr>)"
    note valid = synced_valid [OF ok Some]
    have e': "e_session e' = s" "e_key e' = k" "valid_journal_entry (entry_json e')"
      using valid valid_patched unfolding e'_def by simp_all
    obtain a st1 where a: "journal_append P cfg io e' st = (a, st1)" by fastforce
    have same: "entries_of st1 s = entries_of st s"
      using memory_append [of P cfg io e' st] a by (intro memory_fields(1)) simp
    have run: "snd (journal_transition P cfg io s k to patch r st) =
        (if journal_transition_allowed (e_state e) to r
         then case a of Inl err \<Rightarrow> st1 | Inr _ \<Rightarrow> put_entries s (map_set (entries_of st s) k e') st1 else st)"
      using a same by (cases a) (simp_all add: journal_transition_def Some Let_def e'_def [symmetric])
    show ?thesis
    proof (cases a)
      case (Inl err)
      have "st1 = st" using clean_append_throws [OF clean] a Inl by blast
      with run Inl ok show ?thesis by simp
    next
      case (Inr u)
      from append_synced [OF ok _ clean e'(3) a [unfolded Inr]] valid
      have "synced P cfg (put_entries s (map_set (entries_of st s) k e') st1)" by (simp add: e'(1,2))
      with run Inr ok show ?thesis by simp
    qed
  qed
qed

lemma begin_tail:
  assumes "synced P cfg st" and "e_session e \<in> set (j_loaded st)" and "clean_io io" and "valid_journal_entry (entry_json e)"
  shows "synced P cfg (snd (then_do (journal_append P cfg io e) (\<lambda>_.
    then_do (change (set_entry e)) (\<lambda>_. then_do (index_ticket P e) (\<lambda>_. give e))) st))"
proof -
  obtain a st1 where a: "journal_append P cfg io e st = (a, st1)" by fastforce
  show ?thesis
  proof (cases a)
    case (Inl err)
    have "st1 = st" using clean_append_throws [OF assms(3)] a Inl by blast
    with a Inl assms(1) show ?thesis by simp
  next
    case (Inr u)
    have "entries_of st1 (e_session e) = entries_of st (e_session e)"
      using memory_append [of P cfg io e st] a by (intro memory_fields(1)) simp
    with append_synced [OF assms(1,2,3,4) a [unfolded Inr]] have "synced P cfg (set_entry e st1)"
      by (simp add: set_entry_def)
    moreover have "keeps (synced P cfg) (then_do (index_ticket P e) (\<lambda>_. give e))"
      by (intro keeps_intros keeps_plain)
    ultimately have "synced P cfg (snd (then_do (index_ticket P e) (\<lambda>_. give e) (set_entry e st1)))"
      by (rule keepsD [rotated])
    with a Inr show ?thesis by (simp add: then_do_def)
  qed
qed

lemma new_entry_session [simp]: "e_session (new_entry P io c) = str_field c ''sessionId''"
  by (simp add: new_entry_def Let_def)

lemma keeps_begin:
  assumes "clean_io io" and "wake_command c" and "digests_ok P"
  shows "keeps (synced P cfg) (begin_request P cfg io c)"
  unfolding begin_request_def
proof (rule keeps_then [OF keeps_plain(1)], rule keeps_after [OF keeps_load])
  fix st st' :: journal_store and u
  assume "synced P cfg st" and load: "load_session_journal P cfg (str_field c ''sessionId'') st = (Inr u, st')"
    and ok: "synced P cfg st'"
  then have "str_field c ''sessionId'' \<in> set (j_loaded st')" using load_synced by blast
  with ok assms valid_new [OF assms(2,3), of io] show "synced P cfg (snd (case lookup_entry st' (str_field c ''sessionId'', str_field c ''idempotencyKey'') of
       Some e \<Rightarrow> if e_fingerprint e \<noteq> request_fingerprint P c then (Inl (durability_error ''idempotency_conflict''), st') else (Inr e, st')
     | None \<Rightarrow> (let e = new_entry P io c in
         then_do (journal_append P cfg io e) (\<lambda>_.
         then_do (change (set_entry e)) (\<lambda>_.
         then_do (index_ticket P e) (\<lambda>_. give e))) st')))"
    by (simp add: begin_tail Let_def split: option.split)
qed

lemma log_of_rewritten:
  assumes "log_of P cfg f es" and "f \<noteq> None" and "distinct xs" and "set xs \<subseteq> set es" and "0 < max_journal_file_bytes cfg"
  shows "log_of P cfg (Some (rewritten_file (current_uid P) (List.map entry_json xs))) xs"
  using assms sum_list_sub [OF assms(3,4), of "\<lambda>e. line_size (entry_json e)"]
  by (auto simp: log_of_def rewritten_file_def comp_def split: option.splits)

lemma prune_synced:
  assumes "synced P cfg st" and "0 < max_journal_file_bytes cfg" and "journal_path s = Inr name"
    and "retained = prune_retained P cfg now (entries_of st s)" and "length retained < length (entries_of st s)"
  shows "synced P cfg (put_entries s (List.map (\<lambda>e. (e_key e, e)) retained)
    (put_file name (rewritten_file (current_uid P) (List.map entry_json retained)) st))"
proof (rule synced_replace [OF assms(1,3)])
  obtain es where es: "log_of P cfg (journal_file_of st s) es" "replay es = entries_of st s"
    "\<forall>e' \<in> set es. e_session e' = s \<and> valid_journal_entry (entry_json e')"
    using assms(1) unfolding synced_def session_synced_def by metis
  have nonempty: "entries_of st s \<noteq> []" using assms(5) by auto
  then show "s \<in> set (j_loaded st)" using assms(1) by (auto simp: synced_def entries_of_def split: option.splits)
  have ok: "entries_ok s (entries_of st s)" using es(2,3) replay_ok by metis
  have sub: "set retained \<subseteq> set es"
  proof
    fix e
    assume "e \<in> set retained"
    then have "e \<in> set (map_vals (entries_of st s))" using assms(4) retained_subset by blast
    then have "map_get (replay es) (e_key e) = Some e" using entries_ok_vals [OF ok] es(2) by simp
    then show "e \<in> set es" using replay_sub by blast
  qed
  have keys: "distinct (List.map e_key retained)"
  proof -
    have "inj_on e_key (set (map_vals (entries_of st s)))" using entries_ok_keys(1) [OF ok] by (simp only: distinct_map)
    then show ?thesis
      unfolding assms(4) using retained_distinct [OF ok] retained_subset by (metis distinct_map inj_on_subset)
  qed
  have "journal_file_of st s \<noteq> None" using es(1,2) nonempty
    by (cases "journal_file_of st s") (auto simp: log_of_def)
  from log_of_rewritten [OF es(1) this _ sub assms(2)] keys es(3) sub
  show "session_synced P cfg s (List.map (\<lambda>e. (e_key e, e)) retained)
      (Some (rewritten_file (current_uid P) (List.map entry_json retained)))"
    unfolding session_synced_def by (intro exI [of _ retained]) (auto simp: replay_distinct distinct_map)
qed

lemma keeps_prune_loaded:
  assumes "clean_io io" and "0 < max_journal_file_bytes cfg"
  shows "keeps (synced P cfg) (prune_loaded P cfg io s)"
proof (rule keepsI)
  fix st
  assume ok: "synced P cfg st"
  define m where "m = entries_of st s"
  define retained where "retained = prune_retained P cfg (jio_now io) m"
  have same: "journal_side (put_entries s x (prune_tickets P m retained st')) = journal_side (put_entries s x st')" for x st'
    by (simp add: journal_side_def prune_tickets_def put_entries_def)
  show "synced P cfg (snd (prune_loaded P cfg io s st))"
  proof (cases "length m - length retained = 0 \<or> (\<exists>e. journal_path s = Inl e)")
    case True
    with ok show ?thesis by (auto simp: prune_loaded_def Let_def then_do_def simp flip: m_def retained_def)
  next
    case False
    then obtain name where name: "journal_path s = Inr name" by (cases "journal_path s") auto
    from False have less: "length retained < length (entries_of st s)" by (simp add: m_def)
    have "synced P cfg (put_entries s (List.map (\<lambda>e. (e_key e, e)) retained) (prune_tickets P m retained
        (put_file name (rewritten_file (current_uid P) (List.map entry_json retained)) st)))"
      by (rule synced_side [OF same prune_synced [OF ok assms(2) name _ less]]) (simp add: retained_def m_def)
    moreover have "jio_rewrite io = Published \<or> (\<exists>e. jio_rewrite io = NotPublished e)"
      using assms(1) by (cases "jio_rewrite io") (auto simp: clean_io_def)
    ultimately show ?thesis
      using ok name False
      by (auto simp: prune_loaded_def Let_def then_do_def atomic_write_lines_def simp flip: m_def retained_def)
  qed
qed

lemma keeps_prune:
  "clean_io io \<Longrightarrow> 0 < max_journal_file_bytes cfg \<Longrightarrow> keeps (synced P cfg) (prune_session P cfg io s)"
  unfolding prune_session_def by (intro keeps_intros keeps_plain keeps_load keeps_prune_loaded)

subsection \<open>The other operations\<close>

lemma keeps_scan: "keeps (synced P cfg) (scan_journal_files P cfg)"
  by (auto simp: keeps_def scan_journal_files_def synced_def)

lemma keeps_settle:
  "clean_io io \<Longrightarrow> 0 < max_journal_file_bytes cfg \<Longrightarrow> keeps (synced P cfg) (settle_request P cfg io s k to patch)"
  unfolding settle_request_def by (intro keeps_intros keeps_load keeps_transition keeps_prune)

lemma keeps_get: "keeps (synced P cfg) (get_request P cfg io s k)"
  unfolding get_request_def by (intro keeps_intros keeps_plain keeps_load) (simp add: keeps_def)

lemma keeps_get_ticket: "keeps (synced P cfg) (get_request_by_ticket P cfg io t)"
  unfolding get_request_by_ticket_def
  by (intro keeps_intros keeps_plain keeps_scan) (auto simp: keeps_def intro: keepsD [OF keeps_get] split: option.split)

lemma keeps_reconcile:
  assumes "clean_io io" and "0 < max_journal_file_bytes cfg"
  shows "keeps (synced P cfg) (reconcile_request P cfg io t outcome)"
proof -
  have "keeps (synced P cfg) (then_do (load_session_journal P cfg s) (\<lambda>_.
      then_do (\<lambda>st. if map_option e_state (lookup_entry st (s, k)) \<noteq> Some JIndeterminate
        then (Inl (durability_error ''ticket_not_indeterminate''), st)
        else journal_transition P cfg io s k (outcome_state outcome) (outcome_patch outcome) True st)
      (\<lambda>e. then_do (prune_session P cfg io s) (\<lambda>_. give e))))" for s k
    using keepsD [OF keeps_transition [OF assms(1)]] assms
    by (intro keeps_intros keeps_load keeps_prune) (auto simp: keeps_def)
  then show ?thesis
    unfolding reconcile_request_def
    by (intro keeps_intros keeps_plain keeps_scan) (auto simp: keeps_def split: option.split)
qed

lemma keeps_save_manifest: "keeps (synced P cfg) (save_manifest P cfg io c conversation)"
  unfolding save_manifest_def Let_def by (auto intro!: keeps_intros keeps_plain)

lemma journal_file_of_del:
  assumes "journal_path s = Inr name" and "j_files st' = map_del (j_files st) name"
  shows "journal_file_of st' s' = (if s' = s then None else journal_file_of st s')"
proof (cases "journal_path s'")
  case (Inr name')
  then have "name' = name \<longleftrightarrow> s' = s" using assms(1) journal_path_inj by auto
  with Inr show ?thesis by (simp add: journal_file_of_def assms(2))
next
  case (Inl e)
  with assms show ?thesis by (auto simp: journal_file_of_def)
qed

lemma remove_synced:
  assumes "synced P cfg st" and "encoded_session_id s = Inr name"
  shows "synced P cfg (snd (remove_session P io s name st))"
proof -
  have path: "journal_path s = Inr (name @ ''.jsonl'')" using assms(2) by (simp add: journal_path_def)
  have side: "synced P cfg (st\<lparr>j_sessions := d\<rparr>)" for d
    by (rule synced_side [OF _ assms(1)]) (simp add: journal_side_def)
  let ?st = "\<lambda>d t. st\<lparr>j_sessions := d, j_files := map_del (j_files st) (name @ ''.jsonl''), j_tickets := t,
      j_entries := map_del (j_entries st) s, j_loaded := List.filter (\<lambda>s'. s' \<noteq> s) (j_loaded st)\<rparr>"
  have "synced P cfg (?st d t)" for d t
  proof -
    have "journal_file_of (?st d t) s' = (if s' = s then None else journal_file_of st s')" for s'
      by (rule journal_file_of_del [OF path]) simp
    moreover have "entries_of (?st d t) s' = (if s' = s then [] else entries_of st s')" for s'
      by (simp add: entries_of_def)
    moreover have "session_synced P cfg s [] None"
      by (auto simp: session_synced_def log_of_def intro: exI [of _ "[]"])
    ultimately have "session_synced P cfg s' (entries_of (?st d t) s') (journal_file_of (?st d t) s')" for s'
      using assms(1) by (simp add: synced_def)
    then show ?thesis using assms(1) by (auto simp: synced_def)
  qed
  with assms(1) side show ?thesis by (auto simp: remove_session_def Let_def split: option.split)
qed

lemma keeps_close: "keeps (synced P cfg) (close_session P io s retain)"
proof -
  have "keeps (synced P cfg) (then_do (remove_manifest io name) (\<lambda>_. if retain then give () else remove_session P io s name))"
    if "encoded_session_id s = Inr name" for name
    using remove_synced [OF _ that] by (intro keeps_intros keeps_plain) (auto simp: keeps_def)
  then show ?thesis
    unfolding close_session_def by (rule keeps_then [OF keeps_plain(1) keeps_lift])
qed

lemma keeps_manifests: "keeps (synced P cfg) (load_manifest_names P cfg names)"
proof (induction names)
  case Nil
  then show ?case by (simp add: keeps_def)
next
  case (Cons name names)
  have "keeps (synced P cfg) (load_manifest P cfg name)"
    unfolding load_manifest_def Let_def
    by (intro keeps_intros keeps_plain) (auto intro!: keeps_intros keeps_plain split: option.split)
  then have "keeps (synced P cfg) (then_do (load_manifest P cfg name) (\<lambda>m.
      then_do (load_manifest_names P cfg names) (\<lambda>ms. give (case m of Some v \<Rightarrow> v # ms | None \<Rightarrow> ms))))"
    using Cons by (intro keeps_intros)
  then show ?case by (simp add: keeps_def)
qed

lemma keeps_recover_entries: "clean_io io \<Longrightarrow> keeps (synced P cfg) (recover_entries P cfg io rs)"
proof (induction rs)
  case Nil
  then show ?case by (simp add: keeps_def)
next
  case (Cons sk rs)
  obtain s k where sk: "sk = (s, k)" by fastforce
  have rest: "keeps (synced P cfg) (then_do (recover_entries P cfg io rs) (\<lambda>(q, i). give (f q i)))"
    for f :: "journal_entry list \<Rightarrow> journal_entry list \<Rightarrow> journal_entry list \<times> journal_entry list"
    using Cons by (auto intro!: keeps_intros)
  have "keeps (synced P cfg) (then_do (journal_transition P cfg io s k JIndeterminate JNoPatch False)
      (\<lambda>e. then_do (recover_entries P cfg io rs) (\<lambda>(q, i). give (q, e # i))))"
    by (intro keeps_intros keeps_transition rest Cons.prems)
  then show ?case
    using keepsD [OF rest [of "\<lambda>q i. (e # q, i)" for e]] keepsD [OF rest [of "\<lambda>q i. (q, e # i)" for e]]
      keepsD [OF Cons.IH [OF Cons.prems]]
    by (auto simp: keeps_def sk split: option.split journal_state.split)
qed

lemma keeps_recover:
  assumes "clean_io io" and "0 < max_journal_file_bytes cfg"
  shows "keeps (synced P cfg) (journal_recover P cfg io)"
proof -
  have "keeps (synced P cfg) (load_manifests P cfg)"
    using keepsD [OF keeps_manifests] by (auto simp: keeps_def load_manifests_def Let_def)
  then show ?thesis
    unfolding journal_recover_def using assms
    by (auto intro!: keeps_intros keeps_plain keeps_scan keeps_recover_entries keeps_prune)
qed

section \<open>Restarting\<close>

fun call_io :: "journal_call \<Rightarrow> journal_io" where
  "call_io (BeginRequest io c) = io" | "call_io (MarkAccepted io s k) = io" | "call_io (MarkCompleted io s k r) = io"
| "call_io (MarkFailed io s k e) = io" | "call_io (GetRequest io s k) = io" | "call_io (GetByTicket io t) = io"
| "call_io (ReconcileRequest io t out) = io" | "call_io (PruneSession io s) = io"
| "call_io (SaveManifest io c conversation) = io" | "call_io (CloseSession io s retain) = io" | "call_io (Recover io) = io"

definition clean_call :: "journal_call \<Rightarrow> bool" where
  "clean_call c \<longleftrightarrow> clean_io (call_io c) \<and> (case c of BeginRequest io v \<Rightarrow> wake_command v | _ \<Rightarrow> True)"

lemma synced_step:
  assumes "clean_call c" and "digests_ok P" and "0 < max_journal_file_bytes cfg" and "synced P cfg st"
  shows "synced P cfg (journal_step P cfg c st)"
proof -
  have accept: "keeps (synced P cfg) (mark_accepted P cfg io s k)" if "clean_io io" for io s k
    unfolding mark_accepted_def using that by (intro keeps_intros keeps_load keeps_transition)
  show ?thesis
    using assms
    by (cases c)
       (auto simp: clean_call_def mark_completed_def mark_request_failed_def
         intro!: keepsD [OF keeps_begin] keepsD [OF accept] keepsD [OF keeps_settle] keepsD [OF keeps_get]
           keepsD [OF keeps_get_ticket] keepsD [OF keeps_reconcile] keepsD [OF keeps_prune]
           keepsD [OF keeps_save_manifest] keepsD [OF keeps_close] keepsD [OF keeps_recover])
qed

text \<open>The store after a recovery that found empty directories.\<close>

definition booted_store :: journal_store where
  "booted_store = (fresh_store [] [])\<lparr>j_initialized := True, j_scanned := True\<rparr>"

lemma booted: "jio_ready io = Inr () \<Longrightarrow>
    journal_recover P cfg io (fresh_store [] []) = (Inr \<lparr>snap_manifests = [], snap_queued = [], snap_indeterminate = []\<rparr>, booted_store)"
  by (simp add: journal_recover_def booted_store_def fresh_store_def journal_initialize_def then_do_def load_manifests_def
      scan_journal_files_def journal_names_def all_requests_def)

lemma synced_booted: "synced P cfg booted_store"
proof -
  have "journal_file_of booted_store s = None" for s
    by (simp add: journal_file_of_def booted_store_def fresh_store_def split: sum.split)
  moreover have "session_synced P cfg s [] None" for s
    by (auto simp: session_synced_def log_of_def intro: exI [of _ "[]"])
  moreover have "entries_of booted_store s = []" for s
    by (simp add: entries_of_def booted_store_def fresh_store_def)
  ultimately show ?thesis by (simp add: synced_def) (simp add: booted_store_def fresh_store_def)
qed

lemma synced_run:
  assumes "\<And>c. c \<in> set cs \<Longrightarrow> clean_call c" and "digests_ok P" and "0 < max_journal_file_bytes cfg" and "synced P cfg st"
  shows "synced P cfg (journal_run P cfg cs st)"
  using assms(1,4) unfolding journal_run_def
  by (induction cs arbitrary: st) (simp_all add: synced_step [OF _ assms(2,3)])

text \<open>Loading the lines of a log puts its replay into memory, unless two keys share a ticket.\<close>

definition tickets_from :: "platform \<Rightarrow> string \<Rightarrow> journal_entry list \<Rightarrow> journal_store \<Rightarrow> bool" where
  "tickets_from P s es st \<longleftrightarrow> (\<forall>t ref. map_get (j_tickets st) t = Some ref \<longrightarrow>
     (\<exists>e \<in> set es. t = wake_ticket_id P s (e_key e) \<and> ref = (s, e_key e)))"

lemma load_line_step:
  assumes "journal_path s = Inr name" and "e_session e = s" and "valid_journal_entry (entry_json e)"
    and "tickets_from P s es st" and "entries_of st s = replay es"
    and "\<And>e'. e' \<in> set es \<Longrightarrow> wake_ticket_id P s (e_key e') = wake_ticket_id P s (e_key e) \<Longrightarrow> e_key e' = e_key e"
  shows "\<exists>st'. load_line P name (Some s) (JsonText (entry_json e)) st = (Inr (), st')
    \<and> tickets_from P s (es @ [e]) st' \<and> entries_of st' s = replay (es @ [e])"
proof -
  let ?t = "wake_ticket_id P s (e_key e)"
  let ?st = "set_entry e st"
  let ?st' = "?st\<lparr>j_tickets := map_set (j_tickets ?st) ?t (s, e_key e)\<rparr>"
  have tickets: "j_tickets ?st = j_tickets st" by (simp add: set_entry_def)
  have "ref = (s, e_key e)" if ref: "map_get (j_tickets st) ?t = Some ref" for ref
  proof -
    obtain e' where "e' \<in> set es" "?t = wake_ticket_id P s (e_key e')" "ref = (s, e_key e')"
      using ref assms(4) unfolding tickets_from_def by blast
    with assms(6) [of e'] show ?thesis by simp
  qed
  then have "index_ticket P e ?st = (Inr (), ?st')"
    by (auto simp: index_ticket_def Let_def assms(2) tickets split: option.split)
  then have "load_line P name (Some s) (JsonText (entry_json e)) st = (Inr (), add_loaded s ?st')"
    using assms(1-3) by (simp add: load_line_def Let_def validate_journal_entry_def require_def)
  moreover have "tickets_from P s (es @ [e]) (add_loaded s ?st')"
    using assms(4) by (auto simp: tickets_from_def tickets)
  moreover have "entries_of (add_loaded s ?st') s = replay (es @ [e])"
    using assms(2,5) by (simp add: entries_of_cong [of "add_loaded s ?st'" ?st]) (simp add: set_entry_def)
  ultimately show ?thesis by blast
qed

lemma load_lines_replay:
  assumes "journal_path s = Inr name" and "\<And>e. e \<in> set es \<Longrightarrow> e_session e = s \<and> valid_journal_entry (entry_json e)"
    and "tickets_from P s es0 st" and "entries_of st s = replay es0"
    and "\<And>e e'. e \<in> set (es0 @ es) \<Longrightarrow> e' \<in> set (es0 @ es) \<Longrightarrow>
      wake_ticket_id P s (e_key e') = wake_ticket_id P s (e_key e) \<Longrightarrow> e_key e' = e_key e"
  shows "\<exists>st'. for_each (load_line P name (Some s)) (List.map (\<lambda>e. JsonText (entry_json e)) es) st = (Inr (), st')
    \<and> entries_of st' s = replay (es0 @ es)"
  using assms(2-5)
proof (induction es arbitrary: es0 st)
  case (Cons e es)
  obtain st1 where st1: "load_line P name (Some s) (JsonText (entry_json e)) st = (Inr (), st1)"
      "tickets_from P s (es0 @ [e]) st1" "entries_of st1 s = replay (es0 @ [e])"
    using load_line_step [OF assms(1) _ _ Cons.prems(2,3), of e] Cons.prems(1,4) by auto
  from Cons.IH [OF _ st1(2,3)] Cons.prems(1,4) st1(1) show ?case by auto
qed simp

lemma load_reopened:
  assumes "synced P cfg st" and "map_has (j_entries st) s"
    and "\<And>k k'. lookup_entry st (s, k) \<noteq> None \<Longrightarrow> lookup_entry st (s, k') \<noteq> None \<Longrightarrow>
      wake_ticket_id P s k = wake_ticket_id P s k' \<Longrightarrow> k = k'"
    and "journal_path s = Inr name"
    and "st0 = (reopened st)\<lparr>j_initialized := i\<rparr>"
  shows "\<exists>st'. load_session_journal P cfg s st0 = (Inr (), st') \<and> entries_of st' s = entries_of st s"
proof -
  obtain es where es: "log_of P cfg (map_get (j_files st) name) es" "replay es = entries_of st s"
      "\<forall>e \<in> set es. e_session e = s \<and> valid_journal_entry (entry_json e)"
    using assms(1,4) unfolding synced_def session_synced_def by (metis journal_file_of_def sum.simps(6))
  have st0: "j_loaded st0 = []" "j_entries st0 = []" "j_tickets st0 = []" "j_files st0 = j_files st"
    by (simp_all add: assms(5) reopened_def fresh_store_def)
  have "lookup_entry st (s, e_key e) \<noteq> None" if "e \<in> set es" for e
    using replay_has [OF that] es(2) entries_of_lookup [of st s] by simp
  then have inj: "e_key e' = e_key e" if "e \<in> set es" "e' \<in> set es" "wake_ticket_id P s (e_key e') = wake_ticket_id P s (e_key e)" for e e'
    using assms(3) that by blast
  have "tickets_from P s [] st0" "entries_of st0 s = replay []" by (simp_all add: tickets_from_def st0 entries_of_def)
  from load_lines_replay [OF assms(4) _ this, of es] es(3) inj
  obtain st1 where st1: "for_each (load_line P name (Some s)) (List.map (\<lambda>e. JsonText (entry_json e)) es) st0 = (Inr (), st1)"
      "entries_of st1 s = replay es" by auto
  have "\<exists>st2. load_journal_file P cfg name (Some s) False st0 = (Inr (), st2) \<and> entries_of st2 s = replay es"
  proof (cases "map_get (j_files st) name")
    case None
    with es(1) have "es = []" by (simp add: log_of_def)
    moreover have "load_journal_file P cfg name (Some s) False st0 = (Inr (), st0)"
      using None by (simp add: load_journal_file_def Let_def st0 validate_none then_do_def give_def)
    ultimately show ?thesis by (simp add: st0 entries_of_def)
  next
    case (Some g)
    with es(1) st1 show ?thesis
      by (simp add: log_of_def load_journal_file_def Let_def st0 then_do_def give_def)
  qed
  then obtain st2 where st2: "load_journal_file P cfg name (Some s) False st0 = (Inr (), st2)" "entries_of st2 s = replay es"
    by blast
  define st3 where "st3 = (if map_has (j_entries st2) s then st2 else put_entries s [] st2)"
  have "load_session_journal P cfg s st0 = (Inr (), add_loaded s st3)"
    using st2(1) assms(4) by (simp add: load_session_journal_def st0 st3_def)
  moreover have "entries_of st3 s = replay es"
    using st2(2) by (cases "map_get (j_entries st2) s") (simp_all add: st3_def, simp add: entries_of_def)
  then have "entries_of (add_loaded s st3) s = entries_of st s"
    using es(2) by (simp add: entries_of_cong [of "add_loaded s st3" st3])
  ultimately show ?thesis by blast
qed

end
