(* ===== verification/JournalRecovery.thy ===== *)
theory JournalRecovery
  imports JournalReplay
begin

text \<open>
  What a recovery that succeeds has done, and what makes every recovery fail.
\<close>

section \<open>Loading every journal\<close>

definition all_loaded :: "journal_store \<Rightarrow> bool" where
  "all_loaded st \<longleftrightarrow> journal_ok st \<and> js_map (j_entries st) \<and> (\<forall>s. map_has (j_entries st) s \<longrightarrow> s \<in> set (j_loaded st))"

lemma all_loaded_memory: "memory st' = memory st \<Longrightarrow> all_loaded st' = all_loaded st"
  by (simp add: all_loaded_def memory_def journal_ok_def)

lemma journal_ok_set_entry: "journal_ok st \<Longrightarrow> journal_ok (set_entry e st)"
  by (simp add: set_entry_def journal_ok_put entries_ok_set entries_of_ok)

lemma all_loaded_add_entry:
  "all_loaded st \<Longrightarrow> memory st1 = memory (set_entry e st) \<Longrightarrow> all_loaded (add_loaded (e_session e) st1)"
  using journal_ok_set_entry [of st e]
  by (auto simp: all_loaded_def memory_def journal_ok_def set_entry_def put_entries_def split: if_splits)

lemma all_loaded_line:
  assumes "all_loaded st" and "load_line P name expected t st = (Inr u, st')"
  shows "all_loaded st'"
proof (cases t)
  case BadText
  with assms(2) show ?thesis by (simp add: load_line_def)
next
  case (JsonText v)
  let ?e = "entry_of_json v"
  obtain w st1 where i: "index_ticket P ?e (set_entry ?e st) = (w, st1)" by fastforce
  have "memory st1 = memory (set_entry ?e st)" using memory_index [of P ?e "set_entry ?e st"] i by simp
  from all_loaded_add_entry [OF assms(1) this] show ?thesis
    using assms(2) JsonText i by (cases w) (auto simp: load_line_def Let_def split: sum.splits if_splits)
qed

lemma all_loaded_file:
  assumes "all_loaded st" and "load_journal_file P cfg name expected scan st = (Inr u, st')"
  shows "all_loaded st'"
proof -
  define n where "n = (case map_get (j_files st) name of Some g \<Rightarrow> jf_size g | None \<Rightarrow> 0)"
  obtain v st1 where c: "(if scan then claim_recovery_bytes cfg n else give ()) st = (Inr v, st1)"
    and st1: "(case map_get (j_files st) name of None \<Rightarrow> give () | Some g \<Rightarrow> for_each (load_line P name expected) (jf_lines g)) st1 = (Inr u, st')"
    using assms(2) by (auto simp: load_journal_file_def Let_def then_do_ok n_def split: sum.splits if_splits)
  have "memory st1 = memory st"
    using c by (auto simp: claim_recovery_bytes_def Let_def memory_def split: if_splits)
  then have "all_loaded st1" using all_loaded_memory assms(1) by blast
  with st1 show ?thesis
    by (cases "map_get (j_files st) name") (auto intro: for_each_ok [where I = all_loaded] all_loaded_line)
qed

lemma all_loaded_scan:
  assumes "all_loaded st" and "scan_journal_files P cfg st = (Inr u, st')"
  shows "all_loaded st' \<and> j_scanned st'"
proof (cases "j_scanned st")
  case False
  then obtain st1 where loop: "for_each (\<lambda>name. load_journal_file P cfg name None True) (journal_names st) st = (Inr (), st1)"
      "st' = st1\<lparr>j_scanned := True\<rparr>"
    using assms(2) by (auto simp: scan_journal_files_def then_do_ok split: if_splits)
  have "all_loaded st1" by (rule for_each_ok [where I = all_loaded, OF loop(1) assms(1)]) (rule all_loaded_file)
  then show ?thesis by (simp add: loop(2) all_loaded_def journal_ok_def)
qed (use assms in \<open>simp add: scan_journal_files_def\<close>)

section \<open>Classifying what was found\<close>

text \<open>The state every request has after the loop: nothing accepted is left, nothing else moves.\<close>

definition swept :: "journal_entry \<Rightarrow> journal_entry \<Rightarrow> bool" where
  "swept e e' \<longleftrightarrow> (e_state e = JAccepted \<and> e_state e' = JIndeterminate) \<or> (e_state e \<noteq> JAccepted \<and> e' = e)"

text \<open>One request before and after; \<open>seen\<close> says whether the loop has visited it.\<close>

definition fate :: "bool \<Rightarrow> journal_entry list \<Rightarrow> journal_entry list \<Rightarrow> journal_entry option \<Rightarrow> journal_entry option \<Rightarrow> bool" where
  "fate seen queued indeterminate before after \<longleftrightarrow>
     (case before of
        None \<Rightarrow> after = None
      | Some e \<Rightarrow> (\<exists>e'. after = Some e' \<and>
          (if seen
           then swept e e' \<and> (e_state e' = JQueued \<longrightarrow> e' \<in> set queued) \<and> (e_state e' = JIndeterminate \<longrightarrow> e' \<in> set indeterminate)
           else e' = e)))"

text \<open>What the loop offers: entries of the store it leaves, one for each of some of the visited requests.\<close>

definition offered :: "(string \<times> string) list \<Rightarrow> journal_store \<Rightarrow> journal_entry list \<Rightarrow> bool" where
  "offered sks st es \<longleftrightarrow> (\<exists>ks. List.map Some es = List.map (lookup_entry st) ks \<and> set ks \<subseteq> set sks
     \<and> (distinct sks \<longrightarrow> distinct ks))"

lemma offered_Nil [simp]: "offered sks st []"
  unfolding offered_def by (rule exI [of _ "[]"]) simp

lemma offered_skip: "offered sks st es \<Longrightarrow> offered (sk # sks) st es"
  unfolding offered_def by auto

lemma offered_Cons: "offered sks st es \<Longrightarrow> lookup_entry st sk = Some e \<Longrightarrow> offered (sk # sks) st (e # es)"
proof -
  assume "offered sks st es" and e: "lookup_entry st sk = Some e"
  then obtain ks where ks: "List.map Some es = List.map (lookup_entry st) ks" "set ks \<subseteq> set sks"
      "distinct sks \<longrightarrow> distinct ks"
    unfolding offered_def by blast
  then show "offered (sk # sks) st (e # es)"
    unfolding offered_def using e by (intro exI [of _ "sk # ks"]) auto
qed

lemma offered_in: "offered sks st es \<Longrightarrow> e \<in> set es \<Longrightarrow> \<exists>sk. lookup_entry st sk = Some e"
proof -
  assume "offered sks st es" "e \<in> set es"
  then obtain ks where ks: "List.map Some es = List.map (lookup_entry st) ks" unfolding offered_def by blast
  have "Some e \<in> set (List.map Some es)" using \<open>e \<in> set es\<close> by simp
  then obtain sk where "lookup_entry st sk = Some e" unfolding ks by (metis imageE list.set_map)
  then show ?thesis by blast
qed

lemma offered_distinct:
  assumes "offered sks st es" and "distinct sks" and "journal_ok st"
  shows "distinct es"
proof -
  obtain ks where ks: "List.map Some es = List.map (lookup_entry st) ks" "distinct ks"
    using assms(1,2) unfolding offered_def by blast
  have "inj_on (lookup_entry st) (set ks)"
  proof (rule inj_onI)
    fix a b
    assume a: "a \<in> set ks" and same: "lookup_entry st a = lookup_entry st b"
    from a have "lookup_entry st a \<in> set (List.map (lookup_entry st) ks)" by (simp only: list.set_map imageI)
    then obtain e where "lookup_entry st a = Some e" unfolding ks(1) [symmetric] by auto
    with same journal_ok_lookup [OF assms(3)] show "a = b" by (cases a; cases b) metis
  qed
  then have "distinct (List.map Some es)" unfolding ks(1) using ks(2) by (simp add: distinct_map)
  then show ?thesis by (simp add: distinct_map)
qed

definition recovered :: "journal_store \<Rightarrow> (string \<times> string) list \<Rightarrow> journal_entry list \<Rightarrow> journal_entry list \<Rightarrow> journal_store \<Rightarrow> bool" where
  "recovered st sks queued indeterminate st' \<longleftrightarrow>
     (\<forall>e \<in> set queued. e_state e = JQueued) \<and> (\<forall>e \<in> set indeterminate. e_state e = JIndeterminate)
     \<and> offered sks st' queued \<and> offered sks st' indeterminate
     \<and> map_keys (j_entries st') = map_keys (j_entries st) \<and> j_loaded st' = j_loaded st
     \<and> (\<forall>sk. fate (sk \<in> set sks) queued indeterminate (lookup_entry st sk) (lookup_entry st' sk))"

lemma fate_unseen: "fate False q i o1 o2 \<longleftrightarrow> o2 = o1"
  by (auto simp: fate_def split: option.splits)

lemma fate_mono: "fate seen q i o1 o2 \<Longrightarrow> set q \<subseteq> set q' \<Longrightarrow> set i \<subseteq> set i' \<Longrightarrow> fate seen q' i' o1 o2"
  by (cases o1; cases seen) (auto simp: fate_def)

lemma recovered_fate: "recovered st sks q i st' \<Longrightarrow> fate (sk \<in> set sks) q i (lookup_entry st sk) (lookup_entry st' sk)"
  unfolding recovered_def by blast

lemma fate_same:
  "fate seen q i (Some e) o2 \<Longrightarrow> e_state e \<noteq> JAccepted \<Longrightarrow> (e_state e = JQueued \<Longrightarrow> e \<in> set q) \<Longrightarrow>
     (e_state e = JIndeterminate \<Longrightarrow> e \<in> set i) \<Longrightarrow> fate True q i (Some e) o2"
  by (auto simp: fate_def swept_def split: if_splits)

lemma fate_accepted:
  "fate seen q i (Some e1) o2 \<Longrightarrow> e_state e = JAccepted \<Longrightarrow> e_state e1 = JIndeterminate \<Longrightarrow> e1 \<in> set i \<Longrightarrow>
     fate True q i (Some e) o2"
  by (auto simp: fate_def swept_def split: if_splits)

lemma map_keys_set_present: "map_has m k \<Longrightarrow> map_keys (map_set m k v) = map_keys m"
  by (induction m) auto

lemma transition_ok:
  assumes "journal_transition P cfg io s k JIndeterminate JNoPatch False st = (Inr e', st1)"
    and "lookup_entry st (s, k) = Some e" and "e_state e = JAccepted"
  shows "e_state e' = JIndeterminate \<and> j_loaded st1 = j_loaded st \<and> map_keys (j_entries st1) = map_keys (j_entries st)
    \<and> lookup_entry st1 sk = (if sk = (s, k) then Some e' else lookup_entry st sk)"
proof (cases rule: transition_cases [of P cfg io s k JIndeterminate JNoPatch False st])
  case refused
  with assms show ?thesis by auto
next
  case (moved e0 e'' st2)
  have has: "map_has (j_entries st) s" using assms(2) by (auto simp: lookup_entry_conv)
  have st1: "st1 = put_entries s (map_set (entries_of st s) k e') st2" "e'' = e'" using moved(6) assms(1) by simp_all
  have fields: "j_loaded st2 = j_loaded st" "j_entries st2 = j_entries st" using moved(2) by (simp_all add: memory_def)
  have "e_state e' = JIndeterminate" using moved(5) st1(2) by simp
  moreover have "map_keys (j_entries st1) = map_keys (j_entries st)"
    using has by (simp add: st1(1) put_entries_def fields map_keys_set_present)
  moreover have "lookup_entry st1 sk = (if sk = (s, k) then Some e' else lookup_entry st sk)"
    by (cases sk) (auto simp: st1(1) memory_fields(3) [OF moved(2)] entries_of_lookup)
  ultimately show ?thesis by (simp add: st1(1) fields)
qed

lemma fate_none: "fate seen q i None o2 \<Longrightarrow> fate seen' q i None o2"
  by (simp add: fate_def)

text \<open>A visited request that stays as it is, and one that becomes indeterminate.\<close>

lemma fate_kept: "fate seen q i (Some e) o2 \<Longrightarrow> e_state e \<noteq> JAccepted \<Longrightarrow> o2 = Some e"
  by (auto simp: fate_def swept_def split: if_splits)

lemma recovered_skip:
  assumes "recovered st rest q i st'"
    and "q' = q \<or> (\<exists>e. q' = e # q \<and> e_state e = JQueued \<and> lookup_entry st sk = Some e)"
    and "i' = i \<or> (\<exists>e. i' = e # i \<and> e_state e = JIndeterminate \<and> lookup_entry st sk = Some e)"
    and "\<And>e. lookup_entry st sk = Some e \<Longrightarrow> e_state e \<noteq> JAccepted \<and> (e_state e = JQueued \<longrightarrow> e \<in> set q')
           \<and> (e_state e = JIndeterminate \<longrightarrow> e \<in> set i')"
  shows "recovered st (sk # rest) q' i' st'"
proof -
  have subs: "set q \<subseteq> set q'" "set i \<subseteq> set i'" using assms(2,3) by auto
  have f: "fate (sk' \<in> set rest) q' i' (lookup_entry st sk') (lookup_entry st' sk')" for sk'
    by (rule fate_mono [OF recovered_fate [OF assms(1)] subs])
  have "fate (sk' \<in> set (sk # rest)) q' i' (lookup_entry st sk') (lookup_entry st' sk')" for sk'
  proof (cases "sk' = sk")
    case True
    with f [of sk'] assms(4) show ?thesis
      by (cases "lookup_entry st sk") (auto intro: fate_same fate_none)
  qed (use f [of sk'] in simp)
  moreover have kept: "lookup_entry st' sk = Some e" if "lookup_entry st sk = Some e" for e
    using fate_kept [of "sk \<in> set rest" q' i' e] f [of sk] that assms(4) [OF that] by simp
  have old: "offered rest st' q" "offered rest st' i" "\<forall>e \<in> set q. e_state e = JQueued" "\<forall>e \<in> set i. e_state e = JIndeterminate"
    using assms(1) by (simp_all add: recovered_def)
  have "offered (sk # rest) st' q' \<and> (\<forall>e \<in> set q'. e_state e = JQueued)"
    using assms(2) old(1,3) kept by (auto intro: offered_skip offered_Cons)
  moreover have "offered (sk # rest) st' i' \<and> (\<forall>e \<in> set i'. e_state e = JIndeterminate)"
    using assms(3) old(2,4) kept by (auto intro: offered_skip offered_Cons)
  ultimately show ?thesis using assms(1) by (simp add: recovered_def)
qed

lemma recovered_sweep:
  assumes "recovered st1 rest q i st'" and "lookup_entry st sk = Some e" and "e_state e = JAccepted"
    and "\<And>sk'. lookup_entry st1 sk' = (if sk' = sk then Some e1 else lookup_entry st sk')" and "e_state e1 = JIndeterminate"
    and "map_keys (j_entries st1) = map_keys (j_entries st)" and "j_loaded st1 = j_loaded st"
  shows "recovered st (sk # rest) q (e1 # i) st'"
proof -
  have f: "fate (sk' \<in> set rest) q (e1 # i) (lookup_entry st1 sk') (lookup_entry st' sk')" for sk'
    by (rule fate_mono [OF recovered_fate [OF assms(1)]]) auto
  have "fate (sk' \<in> set (sk # rest)) q (e1 # i) (lookup_entry st sk') (lookup_entry st' sk')" for sk'
    using f [of sk'] assms(2-5) by (cases "sk' = sk") (auto intro: fate_accepted)
  moreover have "lookup_entry st' sk = Some e1"
    using fate_kept [of "sk \<in> set rest" q "e1 # i" e1] f [of sk] assms(4,5) by simp
  ultimately show ?thesis using assms(1,5-7) by (simp add: recovered_def offered_skip offered_Cons)
qed

lemma recover_entries_ok:
  "recover_entries P cfg io sks st = (Inr (q, i), st') \<Longrightarrow> recovered st sks q i st'"
proof (induction sks arbitrary: st q i)
  case Nil
  then show ?case by (simp add: recovered_def fate_unseen)
next
  case (Cons sk rest)
  obtain s k where sk: "sk = (s, k)" by fastforce
  show ?case
  proof (cases "map_option e_state (lookup_entry st (s, k)) = Some JAccepted")
    case True
    then obtain e where e: "lookup_entry st (s, k) = Some e" "e_state e = JAccepted" by auto
    then obtain e1 st1 i' where step: "journal_transition P cfg io s k JIndeterminate JNoPatch False st = (Inr e1, st1)"
        "recover_entries P cfg io rest st1 = (Inr (q, i'), st')" "i = e1 # i'"
      using Cons.prems by (auto simp: sk then_do_ok)
    note t = transition_ok [OF step(1) e]
    show ?thesis
      unfolding sk step(3) by (rule recovered_sweep [OF Cons.IH [OF step(2)] e]) (use t in auto)
  next
    case False
    consider (queued) e where "lookup_entry st (s, k) = Some e" "e_state e = JQueued"
      | (indeterminate) e where "lookup_entry st (s, k) = Some e" "e_state e = JIndeterminate"
      | (other) "\<And>e. lookup_entry st (s, k) = Some e \<Longrightarrow> e_state e \<in> {JCompleted, JFailed}"
      using False by (cases "lookup_entry st (s, k)") (auto, metis journal_state.exhaust)
    then show ?thesis
    proof cases
      case queued
      then obtain q' where q': "recover_entries P cfg io rest st = (Inr (q', i), st')" "q = e # q'"
        using Cons.prems by (auto simp: sk then_do_ok)
      note r = Cons.IH [OF q'(1)]
      show ?thesis unfolding q'(2) sk
        by (rule recovered_skip [OF r]) (use queued in auto)
    next
      case indeterminate
      then obtain i' where i': "recover_entries P cfg io rest st = (Inr (q, i'), st')" "i = e # i'"
        using Cons.prems by (auto simp: sk then_do_ok)
      note r = Cons.IH [OF i'(1)]
      show ?thesis unfolding i'(2) sk
        by (rule recovered_skip [OF r]) (use indeterminate in auto)
    next
      case other
      then have "recover_entries P cfg io rest st = (Inr (q, i), st')"
        using Cons.prems by (cases "lookup_entry st (s, k)") (auto simp: sk split: journal_state.splits)
      note r = Cons.IH [OF this]
      show ?thesis unfolding sk
        by (rule recovered_skip [OF r]) (use other in fastforce)+
    qed
  qed
qed

section \<open>A recovery that succeeds\<close>

definition same_memory :: "journal_store \<Rightarrow> journal_store \<Rightarrow> bool" where
  "same_memory st st' \<longleftrightarrow> memory st' = memory st"

lemma same_memory_rel: "reflp same_memory" "transp same_memory"
  by (auto simp: same_memory_def intro: reflpI transpI)

lemmas same_memory_moves = moves_then [OF same_memory_rel(2)] moves_simple [OF same_memory_rel(1)] moves_reading

lemma same_memory_plain:
  "moves same_memory (claim_recovery_bytes cfg n)" "moves same_memory (ensure_session_dir P name)"
  "moves same_memory (read_manifest P name)" "moves same_memory (journal_initialize io)"
  by (simp_all add: moves_def same_memory_def)

lemma load_manifest_memory: "moves same_memory (load_manifest P cfg name)"
  unfolding load_manifest_def Let_def
  by (intro same_memory_moves same_memory_plain) (auto intro!: same_memory_moves same_memory_plain split: option.split)

lemma load_manifest_names_memory: "moves same_memory (load_manifest_names P cfg names)"
proof (induction names)
  case Nil
  then show ?case by (simp add: moves_def same_memory_def)
next
  case (Cons name names)
  have "moves same_memory (then_do (load_manifest P cfg name) (\<lambda>m.
      then_do (load_manifest_names P cfg names) (\<lambda>ms. give (case m of Some v \<Rightarrow> v # ms | None \<Rightarrow> ms))))"
    by (intro same_memory_moves load_manifest_memory Cons)
  then show ?case by (simp add: moves_def)
qed

lemma load_manifests_memory: "memory (snd (load_manifests P cfg st)) = memory st"
  using movesD [OF load_manifest_names_memory, where st = st]
  unfolding same_memory_def by (simp add: load_manifests_def Let_def)

text \<open>Pruning only removes, and only what is settled.\<close>

definition thinned :: "journal_store \<Rightarrow> journal_store \<Rightarrow> bool" where
  "thinned st st' \<longleftrightarrow> all_loaded st' \<and> j_scanned st' = j_scanned st \<and> j_loaded st' = j_loaded st
     \<and> (\<forall>sk e. lookup_entry st' sk = Some e \<longrightarrow> lookup_entry st sk = Some e)
     \<and> (\<forall>sk e. lookup_entry st sk = Some e \<longrightarrow> \<not> settled e \<longrightarrow> lookup_entry st' sk = Some e)"

lemma thinned_refl: "all_loaded st \<Longrightarrow> thinned st st"
  by (simp add: thinned_def)

lemma thinnedD:
  "thinned st st' \<Longrightarrow> all_loaded st'" "thinned st st' \<Longrightarrow> j_scanned st' = j_scanned st" "thinned st st' \<Longrightarrow> j_loaded st' = j_loaded st"
  "thinned st st' \<Longrightarrow> lookup_entry st' sk = Some e \<Longrightarrow> lookup_entry st sk = Some e"
  "thinned st st' \<Longrightarrow> lookup_entry st sk = Some e \<Longrightarrow> \<not> settled e \<Longrightarrow> lookup_entry st' sk = Some e"
  unfolding thinned_def by blast+

lemma thinnedI:
  assumes "all_loaded st'" "j_scanned st' = j_scanned st" "j_loaded st' = j_loaded st"
    and "\<And>sk e. lookup_entry st' sk = Some e \<Longrightarrow> lookup_entry st sk = Some e"
    and "\<And>sk e. lookup_entry st sk = Some e \<Longrightarrow> \<not> settled e \<Longrightarrow> lookup_entry st' sk = Some e"
  shows "thinned st st'"
  using assms unfolding thinned_def by blast

lemma thinned_trans: "thinned a b \<Longrightarrow> thinned b c \<Longrightarrow> thinned a c"
  by (rule thinnedI) (auto simp: thinnedD(2,3) intro: thinnedD(1) dest: thinnedD(4) thinnedD(5))

lemma prune_loaded_cases:
  assumes "prune_loaded P cfg io s st = (Inr n, st')"
  obtains (none) "st' = st"
  | (some) st1 retained where "memory st1 = memory st" and "retained = prune_retained P cfg (jio_now io) (entries_of st s)"
      and "entries_of st s \<noteq> []" and "st' = put_entries s (List.map (\<lambda>e. (e_key e, e)) retained) st1"
proof (cases "length (entries_of st s) - length (prune_retained P cfg (jio_now io) (entries_of st s)) = 0")
  case True
  with assms show ?thesis by (intro none) (simp add: prune_loaded_def Let_def)
next
  case False
  define retained where "retained = prune_retained P cfg (jio_now io) (entries_of st s)"
  obtain name st1 where w: "atomic_write_lines (current_uid P) (jio_rewrite io) name (List.map entry_json retained) st = (Inr (), st1)"
    and st': "st' = put_entries s (List.map (\<lambda>e. (e_key e, e)) retained) (prune_tickets P (entries_of st s) retained st1)"
    using assms False by (auto simp: prune_loaded_def Let_def then_do_ok retained_def)
  have "memory st1 = memory st"
    using memory_rewrite [of "current_uid P" "jio_rewrite io" name "List.map entry_json retained" st] w by simp
  then show ?thesis using False st' by (intro some [of "prune_tickets P (entries_of st s) retained st1" retained]) (auto simp: retained_def)
qed

lemma thinned_prune:
  assumes "all_loaded st" and "s \<in> set (j_loaded st)" and "prune_session P cfg io s st = (Inr n, st')"
  shows "thinned st st'"
proof -
  obtain st1 where st1: "memory st1 = memory st" "prune_loaded P cfg io s st1 = (Inr n, st')"
  proof -
    obtain u st1 where i: "journal_initialize io st = (Inr u, st1)" "then_do (load_session_journal P cfg s) (\<lambda>_. prune_loaded P cfg io s) st1 = (Inr n, st')"
      using assms(3) by (auto simp: prune_session_def then_do_ok)
    have m: "memory st1 = memory st" using memory_initialize [of io st] i(1) by simp
    with assms(2) have "s \<in> set (j_loaded st1)" by (simp add: memory_def)
    with i(2) have "prune_loaded P cfg io s st1 = (Inr n, st')" by (simp add: load_session_journal_def)
    with m show thesis by (rule that)
  qed
  have ok: "all_loaded st1" using all_loaded_memory [OF st1(1)] assms(1) by simp
  have base: "lookup_entry st1 = lookup_entry st" "j_loaded st1 = j_loaded st" "j_scanned st1 = j_scanned st"
    using st1(1) by (auto simp: memory_def lookup_entry_def fun_eq_iff)
  from st1(2) show ?thesis
  proof (cases rule: prune_loaded_cases)
    case none
    with ok base show ?thesis by (simp add: thinned_def)
  next
    case (some st2 retained)
    have eok: "entries_ok s (entries_of st1 s)" using ok by (simp add: all_loaded_def entries_of_ok)
    note kept = retained_ok [OF eok retained_subset retained_distinct [OF eok]]
    have mem: "lookup_entry st2 = lookup_entry st1" "j_loaded st2 = j_loaded st1" "j_scanned st2 = j_scanned st1"
      using some(1) by (auto simp: memory_def lookup_entry_def fun_eq_iff)
    have ok2: "journal_ok st2" "\<And>s. map_has (j_entries st2) s \<Longrightarrow> s \<in> set (j_loaded st2)"
      using all_loaded_memory [OF some(1)] ok by (auto simp: all_loaded_def)
    have get: "map_get (List.map (\<lambda>e. (e_key e, e)) retained) k = Some e \<longleftrightarrow> e \<in> set retained \<and> e_key e = k" for k e
      unfolding some(2) by (rule kept(2))
    have vals: "e \<in> set (map_vals (entries_of st1 s)) \<longleftrightarrow> lookup_entry st1 (s, e_key e) = Some e" for e
      using entries_ok_vals [OF eok] by (simp add: entries_of_lookup)
    show ?thesis
    proof (rule thinnedI)
      show "j_scanned st' = j_scanned st" "j_loaded st' = j_loaded st" by (simp_all add: some(4) mem base)
      have "journal_ok st'" unfolding some(4) some(2) by (rule journal_ok_put [OF ok2(1) kept(1)])
      moreover have "s' \<in> set (j_loaded st')" if "map_has (j_entries st') s'" for s'
        using that ok2(2) assms(2) by (auto simp: some(4) put_entries_def mem(2) base(2) split: if_splits)
      moreover have "js_map (j_entries st')"
        using all_loaded_memory [OF some(1)] ok by (simp add: some(4) put_entries_def all_loaded_def)
      ultimately show "all_loaded st'" by (simp add: all_loaded_def)
    next
      fix sk e
      assume "lookup_entry st' sk = Some e"
      then show "lookup_entry st sk = Some e"
        using retained_subset [of P cfg "jio_now io" "entries_of st1 s"] vals [of e]
        by (cases sk) (auto simp: some(4) mem(1) base(1) get simp flip: some(2) split: if_splits)
    next
      fix sk e
      assume e: "lookup_entry st sk = Some e" "\<not> settled e"
      obtain s' k where sk: "sk = (s', k)" by fastforce
      show "lookup_entry st' sk = Some e"
      proof (cases "s' = s")
        case True
        with e sk have "lookup_entry st1 (s, k) = Some e" by (simp add: base(1))
        moreover from this have "e_key e = k" using eok entries_ok_get by (simp flip: entries_of_lookup)
        ultimately have "e \<in> set retained" "e_key e = k"
          unfolding some(2) using retained_open [of e "entries_of st1 s"] e(2) vals [of e] by blast+
        with True sk show ?thesis by (simp add: some(4) get)
      next
        case False
        with e sk show ?thesis by (simp add: some(4) mem(1) base(1))
      qed
    qed
  qed
qed

text \<open>What a recovery of the directories a process finds has done when it succeeds.\<close>

lemma recover_entries_live: "journal_live st \<Longrightarrow> recover_entries P cfg io sks st = (r, st') \<Longrightarrow> journal_live st'"
  using movesD [OF moves_recover_entries [of "{}" False P cfg io sks], where st = st] by (simp add: lives_on_def)

lemma fate_seen:
  "fate True q i (Some e0) (Some e) \<Longrightarrow> e_state e \<noteq> JAccepted \<and> (e_state e = JQueued \<longrightarrow> e \<in> set q) \<and> (e_state e = JIndeterminate \<longrightarrow> e \<in> set i)"
  by (auto simp: fate_def swept_def)

lemma fate_before: "fate seen q i before (Some e) \<Longrightarrow> \<exists>e0. before = Some e0"
  by (cases before) (simp_all add: fate_def)

lemma all_requests_lookup: "lookup_entry st sk = Some e \<Longrightarrow> sk \<in> set (all_requests st)"
  by (cases sk) (force simp: all_requests_def lookup_entry_conv dest!: map_get_in)

lemma all_requests_distinct:
  assumes "all_loaded st"
  shows "distinct (all_requests st)"
proof -
  have "distinct (List.concat (List.map (\<lambda>(s, m). List.map (\<lambda>(k, e). (s, k)) m) es))"
    if "js_map es" "\<And>s m. (s, m) \<in> set es \<Longrightarrow> js_map m" for es :: "(string, entries) jsmap"
    using that
  proof (induction es)
    case (Cons sm es)
    obtain s m where sm: "sm = (s, m)" by fastforce
    have "js_map m" using Cons.prems(2) [of s m] sm by simp
    then have "distinct (List.map (Pair s) (map_keys m))"
      by (simp add: js_map_def distinct_map inj_on_def del: List.map_map)
    moreover have "List.map (\<lambda>(k, e). (s, k)) m = List.map (Pair s) (map_keys m)" by (induction m) auto
    ultimately have "distinct (List.map (\<lambda>(k, e). (s, k)) m)" by (simp only:)
    moreover have "js_map es" "s \<notin> fst ` set es" using Cons.prems(1) by (auto simp: js_map_def sm)
    moreover have "distinct (List.concat (List.map (\<lambda>(s, m). List.map (\<lambda>(k, e). (s, k)) m) es))"
      using Cons.prems by (intro Cons.IH) (auto simp: js_map_def)
    ultimately show ?case by (force simp: sm)
  qed simp
  moreover have "js_map (j_entries st)" "\<And>s m. (s, m) \<in> set (j_entries st) \<Longrightarrow> js_map m"
    using assms by (auto simp: all_loaded_def journal_ok_def entries_ok_def map_get_iff)
  ultimately show ?thesis unfolding all_requests_def by blast
qed

lemma journal_recover_parts:
  assumes "journal_recover P cfg io (fresh_store files sessions) = (Inr snap, st')"
  obtains st1 st2 q i where "all_loaded st1" and "j_scanned st1"
    and "recover_entries P cfg io (all_requests st1) st1 = (Inr (q, i), st2)" and "thinned st2 st'"
    and "snap_queued snap = sort_by (compare_journal_entries P) q"
    and "snap_indeterminate snap = sort_by (compare_journal_entries P) i"
proof -
  obtain u0 st0 ms st01 u1 st1 q i st2 u2 where
      i: "journal_initialize io (fresh_store files sessions) = (Inr u0, st0)"
    and m: "load_manifests P cfg st0 = (Inr ms, st01)"
    and s: "scan_journal_files P cfg st01 = (Inr u1, st1)"
    and r: "recover_entries P cfg io (all_requests st1) st1 = (Inr (q, i), st2)"
    and p: "for_each (\<lambda>s. then_do (prune_session P cfg io s) (\<lambda>_. give ())) (map_keys (j_entries st2)) st2 = (Inr u2, st')"
    and snap: "snap_queued snap = sort_by (compare_journal_entries P) q"
      "snap_indeterminate snap = sort_by (compare_journal_entries P) i"
    using assms unfolding journal_recover_def by (auto simp: then_do_ok)
  have "memory st01 = memory (fresh_store files sessions)"
    using load_manifests_memory [of P cfg st0] memory_initialize [of io "fresh_store files sessions"] i m by simp
  then have "all_loaded st01" by (simp add: all_loaded_def memory_def fresh_store_def journal_ok_def)
  from all_loaded_scan [OF this s] have st1: "all_loaded st1" "j_scanned st1" by simp_all
  have rec: "recovered st1 (all_requests st1) q i st2" by (rule recover_entries_ok [OF r])
  have "journal_live st1" using st1 by (simp add: journal_live_def all_loaded_def)
  then have "journal_live st2" by (rule recover_entries_live [OF _ r])
  moreover have "map_keys (j_entries st2) = map_keys (j_entries st1)" "j_loaded st2 = j_loaded st1"
    using rec by (simp_all add: recovered_def)
  then have keys: "s \<in> set (j_loaded st2)" if "s \<in> set (map_keys (j_entries st2))" for s
    using that st1(1) by (auto simp: all_loaded_def map_of_eq_None_iff simp flip: set_map)
  moreover have "s \<in> set (map_keys (j_entries st2))" if "map_has (j_entries st2) s" for s
    using that by (force dest: map_get_in)
  moreover have "js_map (j_entries st2)" using rec st1(1) by (simp add: recovered_def all_loaded_def js_map_def)
  ultimately have "all_loaded st2" by (auto simp: all_loaded_def journal_live_def)
  have "thinned st2 st'"
  proof (rule for_each_ok [where I = "thinned st2", OF p thinned_refl [OF \<open>all_loaded st2\<close>]])
    fix s st st1 v
    assume s: "s \<in> set (map_keys (j_entries st2))" and t: "thinned st2 st"
      and "then_do (prune_session P cfg io s) (\<lambda>_. give ()) st = (Inr v, st1)"
    then obtain n where "prune_session P cfg io s st = (Inr n, st1)" by (auto simp: then_do_ok)
    from thinned_prune [OF thinnedD(1) [OF t] _ this] keys [OF s] t show "thinned st2 st1"
      by (simp add: thinnedD(3) thinned_trans)
  qed
  with st1 r snap show thesis by (intro that)
qed

lemma journal_recover_live:
  assumes "journal_recover P cfg io (fresh_store files sessions) = (Inr snap, st')"
  shows "journal_live st' \<and> all_loaded st'"
proof -
  obtain st1 st2 q i where st: "all_loaded st1" "j_scanned st1"
    "recover_entries P cfg io (all_requests st1) st1 = (Inr (q, i), st2)" "thinned st2 st'"
    by (rule journal_recover_parts [OF assms])
  then have "journal_live st1" by (simp add: journal_live_def all_loaded_def)
  then have "journal_live st2" by (rule recover_entries_live [OF _ st(3)])
  with st(4) show ?thesis using thinnedD(1,2) [OF st(4)] by (simp add: journal_live_def all_loaded_def)
qed

lemma recover_classifies:
  assumes "journal_recover P cfg io (fresh_store files sessions) = (Inr snap, st')"
  shows "set (snap_queued snap) = {e. e_state e = JQueued \<and> (\<exists>sk. lookup_entry st' sk = Some e)}"
    and "distinct (snap_queued snap)" and "distinct (snap_indeterminate snap)"
    and "e \<in> set (snap_indeterminate snap) \<Longrightarrow> e_state e = JIndeterminate
      \<and> (lookup_entry st' (e_session e, e_key e) = Some e \<or> lookup_entry st' (e_session e, e_key e) = None)"
    and "lookup_entry st' sk = Some e \<Longrightarrow> e_state e \<noteq> JAccepted
      \<and> (e_state e = JIndeterminate \<longrightarrow> e \<in> set (snap_indeterminate snap))"
proof -
  obtain st1 st2 q i where st: "all_loaded st1" "j_scanned st1"
    "recover_entries P cfg io (all_requests st1) st1 = (Inr (q, i), st2)"
    "thinned st2 st'" "snap_queued snap = sort_by (compare_journal_entries P) q"
    "snap_indeterminate snap = sort_by (compare_journal_entries P) i"
    by (rule journal_recover_parts [OF assms])
  note r = recover_entries_ok [OF st(3)]
  have "journal_live st2" by (rule recover_entries_live [OF _ st(3)]) (use st(1,2) in \<open>simp add: journal_live_def all_loaded_def\<close>)
  then have ok: "journal_ok st2" by (simp add: journal_live_def)
  have offers: "offered (all_requests st1) st2 q" "offered (all_requests st1) st2 i"
    and states: "\<And>e. e \<in> set q \<Longrightarrow> e_state e = JQueued" "\<And>e. e \<in> set i \<Longrightarrow> e_state e = JIndeterminate"
    using r unfolding recovered_def by blast+
  show "distinct (snap_queued snap)" "distinct (snap_indeterminate snap)"
    using offered_distinct [OF _ all_requests_distinct [OF st(1)] ok] offers by (simp_all add: st(5,6))
  have seen: "e_state e \<noteq> JAccepted \<and> (e_state e = JQueued \<longrightarrow> e \<in> set q) \<and> (e_state e = JIndeterminate \<longrightarrow> e \<in> set i)"
    if "lookup_entry st' sk = Some e" for sk e
  proof -
    have now: "lookup_entry st2 sk = Some e" by (rule thinnedD(4) [OF st(4) that])
    then have f: "fate (sk \<in> set (all_requests st1)) q i (lookup_entry st1 sk) (Some e)"
      using recovered_fate [OF r, of sk] by simp
    then obtain e0 where e0: "lookup_entry st1 sk = Some e0" using fate_before by blast
    show ?thesis by (rule fate_seen) (use f e0 all_requests_lookup [OF e0] in simp)
  qed
  have "\<exists>sk. lookup_entry st' sk = Some e" if e: "e \<in> set q" for e
  proof -
    obtain sk where "lookup_entry st2 sk = Some e" using offered_in [OF offers(1) e] by blast
    moreover have "\<not> settled e" using states(1) [OF e] by (simp add: settled_def)
    ultimately show ?thesis using thinnedD(5) [OF st(4)] by blast
  qed
  with seen states(1) show "set (snap_queued snap) = {e. e_state e = JQueued \<and> (\<exists>sk. lookup_entry st' sk = Some e)}"
    unfolding st(5) set_sort_by by blast
  show "e_state e = JIndeterminate
      \<and> (lookup_entry st' (e_session e, e_key e) = Some e \<or> lookup_entry st' (e_session e, e_key e) = None)"
    if e: "e \<in> set (snap_indeterminate snap)"
  proof -
    from e have "e \<in> set i" by (simp add: st(6))
    then obtain sk where sk: "lookup_entry st2 sk = Some e" using offered_in [OF offers(2)] by blast
    then have "sk = (e_session e, e_key e)" using journal_ok_lookup [OF ok] by (cases sk) auto
    with sk thinnedD(4) [OF st(4), of sk] states(2) [OF \<open>e \<in> set i\<close>] show ?thesis
      by (cases "lookup_entry st' sk") auto
  qed
  show "e_state e \<noteq> JAccepted \<and> (e_state e = JIndeterminate \<longrightarrow> e \<in> set (snap_indeterminate snap))"
    if "lookup_entry st' sk = Some e"
    using seen [OF that] by (simp add: st(6))
qed

section \<open>Files no recovery survives\<close>

definition files_are :: "(string, journal_file) jsmap \<Rightarrow> journal_store \<Rightarrow> bool" where
  "files_are files st \<longleftrightarrow> j_files st = files"

lemma files_are_plain:
  "keeps (files_are files) (claim_recovery_bytes cfg n)" "keeps (files_are files) (ensure_session_dir P name)"
  "keeps (files_are files) (read_manifest P name)" "keeps (files_are files) (journal_initialize io)"
  "keeps (files_are files) (index_ticket P e)" "keeps (files_are files) (change (add_loaded s))"
  by (simp_all add: keeps_def files_are_def claim_recovery_bytes_def ensure_session_dir_def read_manifest_def
      journal_initialize_def index_ticket_def Let_def split: option.splits sum.splits)

lemma files_are_load_line: "keeps (files_are files) (load_line P name expected t)"
proof (rule keepsI)
  fix st
  assume st: "files_are files st"
  have "files_are files (set_entry e st)" for e using st by (simp add: files_are_def set_entry_def)
  then have "files_are files (snd (then_do (index_ticket P e) (\<lambda>_. change (add_loaded (e_session e))) (set_entry e st)))" for e
    by (rule keepsD [rotated]) (intro keeps_intros files_are_plain)
  with st show "files_are files (snd (load_line P name expected t st))"
    by (simp add: load_line_def Let_def split: file_text.split sum.split)
qed

lemma files_are_load_file: "keeps (files_are files) (load_journal_file P cfg name expected scan)"
proof (rule keepsI)
  fix st
  assume st: "files_are files st"
  have "keeps (files_are files) (then_do (if scan then claim_recovery_bytes cfg n else give ())
      (\<lambda>_. case f of None \<Rightarrow> give () | Some g \<Rightarrow> for_each (load_line P name expected) (jf_lines g)))" for n f
    by (auto intro!: keeps_intros files_are_plain files_are_load_line split: option.split)
  note body = keepsD [OF this st]
  show "files_are files (snd (load_journal_file P cfg name expected scan st))"
    using st body [of _ "map_get (j_files st) name"]
    by (cases scan) (simp_all add: load_journal_file_def Let_def del: effect_simps(1) split: sum.split)
qed

lemma files_are_manifests: "keeps (files_are files) (load_manifests P cfg)"
proof -
  have "keeps (files_are files) (load_manifest P cfg name)" for name
    unfolding load_manifest_def Let_def
    by (intro keeps_intros files_are_plain) (auto intro!: keeps_intros files_are_plain split: option.split)
  then have "keeps (files_are files) (load_manifest_names P cfg names)" for names
  proof (induction names)
    case (Cons name names)
    have "keeps (files_are files) (load_manifest_names P cfg names)" by (rule Cons.IH) (rule Cons.prems)
    then have "keeps (files_are files) (then_do (load_manifest P cfg name) (\<lambda>m.
        then_do (load_manifest_names P cfg names) (\<lambda>ms. give (case m of Some v \<Rightarrow> v # ms | None \<Rightarrow> ms))))"
      by (intro keeps_intros Cons.prems)
    then show ?case by (simp add: keeps_def)
  qed (simp add: keeps_def)
  from keepsD [OF this] show ?thesis by (auto simp: keeps_def load_manifests_def Let_def)
qed

text \<open>A line that is no JSON, in any journal.\<close>

lemma bad_line_blocks:
  assumes "map_get files name = Some f" and "BadText \<in> set (jf_lines f)" and "ends_with ''.jsonl'' name"
  shows "\<exists>e. fst (journal_recover P cfg io (fresh_store files sessions)) = Inl e"
proof (rule ccontr)
  assume "\<not> ?thesis"
  then obtain snap st' where "journal_recover P cfg io (fresh_store files sessions) = (Inr snap, st')"
    by (metis sum.exhaust surjective_pairing)
  then obtain u0 st0 ms st1 u1 st2 where i: "journal_initialize io (fresh_store files sessions) = (Inr u0, st0)"
    and m: "load_manifests P cfg st0 = (Inr ms, st1)" and s: "scan_journal_files P cfg st1 = (Inr u1, st2)"
    unfolding journal_recover_def by (auto simp: then_do_ok)
  have "files_are files (fresh_store files sessions)" by (simp add: files_are_def fresh_store_def)
  then have "files_are files st1"
    using keepsD [OF files_are_plain(4)] keepsD [OF files_are_manifests] i m by (metis snd_conv)
  moreover have "\<not> j_scanned st1"
    using load_manifests_memory [of P cfg st0] memory_initialize [of io "fresh_store files sessions"] i m
    by (simp add: memory_def fresh_store_def)
  ultimately obtain st3 where loop: "for_each (\<lambda>name. load_journal_file P cfg name None True) (journal_names st1) st1 = (Inr (), st3)"
      and st1: "files_are files st1"
    using s by (auto simp: scan_journal_files_def then_do_ok split: if_splits)
  have "name \<in> set (journal_names st1)"
    using map_get_in [OF assms(1)] assms(3) st1 by (force simp: journal_names_def files_are_def)
  from for_each_all_ok [where I = "files_are files", OF loop this st1 files_are_load_file]
  obtain st4 v st5 where "files_are files st4" "load_journal_file P cfg name None True st4 = (Inr v, st5)" by blast
  then obtain st6 w st7 where "for_each (load_line P name None) (jf_lines f) st6 = (Inr w, st7)"
    using assms(1) by (auto simp: load_journal_file_def files_are_def Let_def then_do_ok split: sum.splits if_splits)
  from for_each_all_ok [where I = "\<lambda>_. True", OF this assms(2)] show False
    by (auto simp: keeps_def load_line_def)
qed

text \<open>A manifest larger than the limit.\<close>

definition dir_is :: "string \<Rightarrow> session_dir \<Rightarrow> journal_store \<Rightarrow> bool" where
  "dir_is name d st \<longleftrightarrow> map_get (j_sessions st) name = Some d"

lemma dir_is_load_manifest: "keeps (dir_is name d) (load_manifest P cfg x)"
proof -
  have plain: "keeps (dir_is name d) (claim_recovery_bytes cfg n)" "keeps (dir_is name d) (ensure_session_dir P x)"
    "keeps (dir_is name d) (read_manifest P x)" for n
    by (auto simp: keeps_def dir_is_def claim_recovery_bytes_def ensure_session_dir_def read_manifest_def Let_def
        split: option.splits sum.splits)
  show ?thesis
    unfolding load_manifest_def Let_def
    by (intro keeps_intros plain) (auto intro!: keeps_intros plain split: option.split)
qed

lemma load_manifest_names_all:
  "load_manifest_names P cfg names st = (Inr ms, st') \<Longrightarrow> name \<in> set names \<Longrightarrow> dir_is name d st \<Longrightarrow>
     \<exists>st1 m st2. dir_is name d st1 \<and> load_manifest P cfg name st1 = (Inr m, st2)"
proof (induction names arbitrary: st ms)
  case (Cons x names)
  then obtain m st1 ms1 where x: "load_manifest P cfg x st = (Inr m, st1)" "load_manifest_names P cfg names st1 = (Inr ms1, st')"
    by (auto simp: then_do_ok)
  show ?case
  proof (cases "name = x")
    case True
    with x(1) Cons.prems(3) show ?thesis by blast
  next
    case False
    have "dir_is name d st1" using keepsD [OF dir_is_load_manifest Cons.prems(3), of P cfg x] x(1) by simp
    with Cons.IH [OF x(2)] Cons.prems(2) False show ?thesis by simp
  qed
qed simp

lemma large_manifest_blocks:
  assumes "map_get sessions name = Some d" and "map_get (sd_files d) ''manifest.json'' = Some f"
    and "file_size f > max_manifest_bytes cfg"
  shows "\<exists>e. fst (journal_recover P cfg io (fresh_store files sessions)) = Inl e"
proof (rule ccontr)
  assume "\<not> ?thesis"
  then obtain snap st' where "journal_recover P cfg io (fresh_store files sessions) = (Inr snap, st')"
    by (metis sum.exhaust surjective_pairing)
  then obtain u0 st0 ms st1 where i: "journal_initialize io (fresh_store files sessions) = (Inr u0, st0)"
    and m: "load_manifests P cfg st0 = (Inr ms, st1)"
    unfolding journal_recover_def by (auto simp: then_do_ok)
  have st0: "j_sessions st0 = sessions"
    using i by (auto simp: journal_initialize_def fresh_store_def split: sum.splits if_splits)
  have "load_manifest_names P cfg (sort_by code_unit_le (map_keys sessions)) st0 = (Inr ms, st1)"
    using m by (simp add: load_manifests_def Let_def st0 split: if_splits)
  moreover have "name \<in> set (sort_by code_unit_le (map_keys sessions))"
    using map_get_in [OF assms(1)] by force
  moreover have "dir_is name d st0" using assms(1) by (simp add: dir_is_def st0)
  ultimately obtain st2 v st3 where st2: "dir_is name d st2" "load_manifest P cfg name st2 = (Inr v, st3)"
    using load_manifest_names_all by blast
  obtain w st4 where e: "ensure_session_dir P name st2 = (w, st4)" by fastforce
  then have "st4 = st2" using st2(1) by (auto simp: ensure_session_dir_def dir_is_def split: if_splits sum.splits)
  with e st2 assms(2,3) show False
    by (cases w) (auto simp: load_manifest_def Let_def session_files_def dir_is_def state_file_size_def)
qed

end
