(* ===== verification/RequestLives.thy ===== *)
theory RequestLives
  imports JournalRecovery
begin

text \<open>
  One call of a running journal and one request: what the request is afterwards, and what the caller was
  told when the call settled a request and dropped it at once, because nothing settled is retained.
\<close>

text \<open>
  \<open>reports\<close>: the entry is what the call returned.  A recovery that throws after it has pruned a journal
  returns nothing.
\<close>

fun reports :: "platform \<Rightarrow> journal_config \<Rightarrow> journal_call \<Rightarrow> journal_store \<Rightarrow> journal_entry \<Rightarrow> bool" where
  "reports P cfg (MarkCompleted io s k r) st e \<longleftrightarrow> fst (mark_completed P cfg io s k r st) = Inr e"
| "reports P cfg (MarkFailed io s k err) st e \<longleftrightarrow> fst (mark_request_failed P cfg io s k err st) = Inr e"
| "reports P cfg (Recover io) st e \<longleftrightarrow>
     (case fst (journal_recover P cfg io st) of Inl err \<Rightarrow> True | Inr snap \<Rightarrow> e \<in> set (snap_indeterminate snap))"
| "reports P cfg c st e \<longleftrightarrow> False"

lemma prune_threw:
  assumes "s \<in> set (j_loaded st)" and "prune_session P cfg io s st = (Inl err, st')"
  shows "memory st' = memory st"
proof -
  obtain a st1 where i: "journal_initialize io st = (a, st1)" by fastforce
  then have m: "memory st1 = memory st" using memory_initialize [of io st] by simp
  with assms(1) have "s \<in> set (j_loaded st1)" by (simp add: memory_def)
  then have load: "load_session_journal P cfg s st1 = (Inr (), st1)" by (simp add: load_session_journal_def)
  have "memory st' = memory st1" if "prune_loaded P cfg io s st1 = (Inl err, st')"
  proof -
    have "memory st2 = memory st1" if "atomic_write_lines (current_uid P) (jio_rewrite io) name vs st1 = (Inl err, st2)" for name vs st2
      using memory_rewrite [of "current_uid P" "jio_rewrite io" name vs st1] that by simp
    with that show ?thesis by (auto simp: prune_loaded_def Let_def then_do_err split: if_splits)
  qed
  with assms(2) i m load show ?thesis by (cases a) (auto simp: prune_session_def)
qed

text \<open>A request that is settled and gone after one call was returned by it.\<close>

lemma settle_reports:
  assumes "s \<in> set (j_loaded st)" and e: "lookup_entry st (s, k) = Some e" and "\<not> settled e" and "is_terminal_journal to"
    and gone: "lookup_entry (snd (settle_request P cfg io s k to patch st)) (s, k) = None"
  shows "\<exists>e'. fst (settle_request P cfg io s k to patch st) = Inr e' \<and> transited (Some (to, patch, False)) e e'"
proof -
  let ?T = "journal_transition P cfg io s k to patch False"
  have load: "load_session_journal P cfg s st = (Inr (), st)" using assms(1) by (simp add: load_session_journal_def)
  then have run: "settle_request P cfg io s k to patch st = then_do ?T (\<lambda>e. then_do (prune_session P cfg io s) (\<lambda>_. give e)) st"
    by (simp add: settle_request_def)
  show ?thesis
  proof (cases rule: transition_cases [of P cfg io s k to patch False st])
    case refused
    have "e_state e \<noteq> to" using assms(3,4) by (auto simp: settled_def)
    with refused(2) e obtain err where "?T st = (Inl err, snd (?T st))" by (auto simp: prod_eq_iff)
    then have "snd (settle_request P cfg io s k to patch st) = snd (?T st)" by (simp add: run)
    with gone e memory_fields(3) [OF refused(1)] show ?thesis by simp
  next
    case (moved e0 e' st1)
    let ?st2 = "put_entries s (map_set (entries_of st s) k e') st1"
    have e0: "e0 = e" using moved(1) e by simp
    have "transited (Some (to, patch, False)) e e'"
      using allowed_life [OF moved(3)] by (simp add: moved(5) e0)
    moreover obtain a st3 where p: "prune_session P cfg io s ?st2 = (a, st3)" by fastforce
    moreover have "\<exists>n. a = Inr n"
    proof (cases a)
      case (Inl err)
      have "s \<in> set (j_loaded ?st2)" using assms(1) memory_fields(4) [OF moved(2)] by simp
      from prune_threw [OF this] p Inl have "memory st3 = memory ?st2" by blast
      then have "lookup_entry st3 (s, k) = Some e'" by (simp add: memory_fields(3))
      with gone p Inl moved(6) show ?thesis by (simp add: run)
    qed simp
    ultimately show ?thesis using moved(6) by (auto simp: run)
  qed
qed

lemma recover_reports:
  assumes live: "journal_live st" and "s \<in> set (j_loaded st)" and e: "lookup_entry st (s, k) = Some e"
    and aim: "transited (sweeping (s, k)) e e0" and run: "fst (journal_recover P cfg io st) = Inr snap"
  shows "\<exists>e'. transited (sweeping (s, k)) e e' \<and> settled e' \<and> e' \<in> set (snap_indeterminate snap)"
proof -
  have accepted: "e_state e = JAccepted"
    using transited_state [OF aim] by (auto simp: sweeping_def life_def)
  have "journal_recover P cfg io st = (Inr snap, snd (journal_recover P cfg io st))" using run by (simp add: prod_eq_iff)
  then obtain u0 st0 ms st01 u1 st1 q i st2 where
      i: "journal_initialize io st = (Inr u0, st0)" "load_manifests P cfg st0 = (Inr ms, st01)"
        "scan_journal_files P cfg st01 = (Inr u1, st1)"
    and r: "recover_entries P cfg io (all_requests st1) st1 = (Inr (q, i), st2)"
    and snap: "set (snap_indeterminate snap) = set i"
    unfolding journal_recover_def by (fastforce simp: then_do_ok)
  have m: "memory st01 = memory st"
    using load_manifests_memory [of P cfg st0] memory_initialize [of io st] i(1,2) by simp
  then have "j_scanned st01" using live by (simp add: memory_def journal_live_def)
  then have "st1 = st01" using i(3) by (simp add: scan_journal_files_def)
  with m have m1: "memory st1 = memory st" by simp
  have look: "lookup_entry st1 (s, k) = Some e" using e memory_fields(3) [OF m1] by simp
  from recovered_fate [OF recover_entries_ok [OF r], of "(s, k)"] look all_requests_lookup [OF look]
  obtain e' where e': "lookup_entry st2 (s, k) = Some e'" "swept e e'" "e_state e' = JIndeterminate \<longrightarrow> e' \<in> set i"
    by (auto simp: fate_def)
  have ind: "e_state e' = JIndeterminate" using e'(2) accepted by (simp add: swept_def)
  have "lives_on {} False sweeping st1 st2"
    using movesD [OF moves_recover_entries [of "{}" False P cfg io "all_requests st1"], where st = st1] r by simp
  moreover have "journal_live st1" "s \<in> set (j_loaded st1)"
    using live assms(2) memory_fields(2,4) [OF m1] by simp_all
  ultimately have "entry_evolves False (sweeping (s, k)) (lookup_entry st1 (s, k)) (lookup_entry st2 (s, k))"
    unfolding lives_on_def by blast
  then have "moved (sweeping (s, k)) e e'" by (simp add: look e'(1))
  with ind accepted have "transited (sweeping (s, k)) e e'" by (auto simp: moved_def)
  with e'(3) ind snap show ?thesis by (auto simp: settled_def)
qed

text \<open>What one call makes of one request.\<close>

lemma life_step:
  assumes live: "journal_live st" and t: "tracked st (s, k) = Some e" and "s \<notin> closes c"
  shows "case tracked (journal_step P cfg c st) (s, k) of
      Some e' \<Rightarrow> moved (aim_of c st (s, k)) e e'
    | None \<Rightarrow> settled e \<or> (\<exists>e'. transited (aim_of c st (s, k)) e e' \<and> settled e' \<and> reports P cfg c st e')"
proof -
  let ?st' = "journal_step P cfg c st"
  have e: "s \<in> set (j_loaded st)" "lookup_entry st (s, k) = Some e" using t by (auto simp: tracked_def split: if_splits)
  have "lives_on (closes c) (begins c) (aim_of c st) st ?st'" by (rule lives_step) simp
  with live assms(3) e have after: "s \<in> set (j_loaded ?st')"
      "entry_evolves (begins c) (aim_of c st (s, k)) (Some e) (lookup_entry ?st' (s, k))"
    by (auto simp: lives_on_def) (metis e(2))
  show ?thesis
  proof (cases "lookup_entry ?st' (s, k)")
    case (Some e')
    with after show ?thesis by (simp add: tracked_def)
  next
    case None
    with after(2) obtain e0 where e0: "moved (aim_of c st (s, k)) e e0" "settled e0" by auto
    have "\<exists>e'. transited (aim_of c st (s, k)) e e' \<and> settled e' \<and> reports P cfg c st e'" if unsettled: "\<not> settled e"
    proof -
      from e0 unsettled have aim: "transited (aim_of c st (s, k)) e e0" by (auto simp: moved_def)
      from transited_state [OF aim] obtain to patch r where w: "aim_of c st (s, k) = Some (to, patch, r)"
          "e_state e0 = to" "(e_state e, to) \<in> life r" by blast
      have r: "\<not> r" using w(3) unsettled by (auto simp: life_def settled_def)
      have ends: "is_terminal_journal to" using e0(2) w(2) by (simp add: settled_def)
      have tells: "settled e'" if "transited (Some (to, patch, False)) e e'" for e'
        using transited_state [OF that] ends by (auto simp: settled_def)
      show ?thesis
      proof (cases c)
        case (MarkCompleted io s' k' x)
        with w have c: "s' = s" "k' = k" "to = JCompleted" "patch = JResult x" "r = False" by (auto split: if_splits)
        have run: "?st' = snd (settle_request P cfg io s k to patch st)"
          by (simp add: MarkCompleted c mark_completed_def)
        obtain e' where e': "fst (settle_request P cfg io s k to patch st) = Inr e'" "transited (Some (to, patch, False)) e e'"
          using settle_reports [OF e unsettled ends None [unfolded run]] by blast
        then have "reports P cfg c st e'" by (simp add: MarkCompleted c mark_completed_def)
        with e'(2) tells w(1) c(5) show ?thesis by auto
      next
        case (MarkFailed io s' k' x)
        with w have c: "s' = s" "k' = k" "to = JFailed" "patch = JError x" "r = False" by (auto split: if_splits)
        have run: "?st' = snd (settle_request P cfg io s k to patch st)"
          by (simp add: MarkFailed c mark_request_failed_def)
        obtain e' where e': "fst (settle_request P cfg io s k to patch st) = Inr e'" "transited (Some (to, patch, False)) e e'"
          using settle_reports [OF e unsettled ends None [unfolded run]] by blast
        then have "reports P cfg c st e'" by (simp add: MarkFailed c mark_request_failed_def)
        with e'(2) tells w(1) c(5) show ?thesis by auto
      next
        case (Recover io)
        then have "transited (sweeping (s, k)) e e0" using aim by simp
        from recover_reports [OF live e this, of P cfg io] e0(2) this show ?thesis
          by (cases "fst (journal_recover P cfg io st)") (auto simp: Recover)
      qed (use w r ends in \<open>auto split: if_splits\<close>)
    qed
    with None show ?thesis by (auto simp: tracked_def)
  qed
qed

end
