(* ===== verification/JournalClaims.thy ===== *)
theory JournalClaims
  imports RequestLives Demo
begin

text \<open>The properties of the request journal and the session manifests.\<close>

section \<open>Concrete inputs\<close>

definition demo_wake :: "string \<Rightarrow> json" where
  "demo_wake key =
     JObj [(''operation'', JStr ''wake''), (''sessionId'', JStr ''s''), (''idempotencyKey'', JStr key),
           (''requestId'', JStr ''r''), (''generation'', JNum 1), (''payload'', JObj [(''prompt'', JStr ''p'')])]"

definition demo_journal_io :: "append_outcome \<Rightarrow> journal_io" where
  "demo_journal_io outcome =
     \<lparr>jio_ready = Inr (), jio_now = 0, jio_stamp = (\<lambda>_. 0), jio_append = (\<lambda>_. outcome), jio_rewrite = Published,
      jio_manifest = Published, jio_rm = (\<lambda>_. None)\<rparr>"

definition demo_io :: journal_io where
  "demo_io = demo_journal_io Appended"

definition demo_digests :: platform where
  "demo_digests = demo_platform\<lparr>sha256_hex := (\<lambda>s. CHR ''d'' # s)\<rparr>"

definition demo_entry :: journal_entry where
  "demo_entry = new_entry demo_digests demo_io (demo_wake ''k'')"

definition demo_accepted :: journal_entry where
  "demo_accepted = patched JNoPatch (demo_entry\<lparr>e_state := JAccepted, e_updated := to_iso 0\<rparr>)"

text \<open>Limits that just hold the queued and the accepted record.\<close>

definition demo_journal_config :: journal_config where
  "demo_journal_config =
     (let n = line_size (entry_json demo_entry) + line_size (entry_json demo_accepted) in
      \<lparr>max_terminal_entries = 2, terminal_retention_ms = 1000, max_journal_record_bytes = n,
       max_journal_file_bytes = n, max_manifest_bytes = 4096, max_recovered_sessions = 4, max_recovered_bytes = n\<rparr>)"

lemma demo_digests_ok: "digests_ok demo_digests"
  by (simp add: digests_ok_def demo_digests_def)

lemma demo_wake_ok: "wake_command (demo_wake ''k'')"
  by (simp add: wake_command_def demo_wake_def nonempty_string_def safe_int_from_def safe_int_def max_safe_integer_def)

lemma demo_io_clean: "clean_io demo_io"
  by (simp add: clean_io_def demo_io_def demo_journal_io_def)

lemma demo_wake_fields [simp]:
  "str_field (demo_wake k) ''sessionId'' = ''s''" "str_field (demo_wake k) ''idempotencyKey'' = k"
  by (simp_all add: demo_wake_def str_field_def)

section \<open>The first request of a session\<close>

definition one_request :: "platform \<Rightarrow> string \<Rightarrow> journal_entry list \<Rightarrow> journal_entry \<Rightarrow> journal_store" where
  "one_request P name es e =
     \<lparr>j_entries = [(e_session e, [(e_key e, e)])],
      j_tickets = [(wake_ticket_id P (e_session e) (e_key e), (e_session e, e_key e))],
      j_loaded = [e_session e], j_initialized = True, j_scanned = True, j_recovery_bytes = 0,
      j_files = [(name, \<lparr>jf_info = own_info (current_uid P) RegularFile 384, jf_lines = List.map (\<lambda>e. JsonText (entry_json e)) es,
        jf_size = sum_list (List.map (\<lambda>e. line_size (entry_json e)) es), jf_torn = False\<rparr>)],
      j_sessions = []\<rparr>"

lemma own_info_mode [simp]: "(own_info u k m)\<lparr>node_mode := m'\<rparr> = own_info u k m'"
  by (simp add: own_info_def)

lemma new_entry_key [simp]: "e_key (new_entry P io c) = str_field c ''idempotencyKey''"
  by (simp add: new_entry_def Let_def)

lemma append_first:
  assumes "journal_path (e_session e) = Inr name" and "jio_append io (e_key e) = Appended" and "map_get (j_files st) name = None"
    and "line_size (entry_json e) \<le> max_journal_record_bytes cfg" and "line_size (entry_json e) \<le> max_journal_file_bytes cfg"
  shows "journal_append P cfg io e st = (Inr (), put_file name \<lparr>jf_info = own_info (current_uid P) RegularFile 384,
    jf_lines = [JsonText (entry_json e)], jf_size = line_size (entry_json e), jf_torn = False\<rparr> st)"
  using assms by (simp add: journal_append_def Let_def validate_none write_line_def opened_file_def with_line_def)

lemma begin_booted:
  assumes "journal_path (str_field c ''sessionId'') = Inr name" and "jio_append io (str_field c ''idempotencyKey'') = Appended"
    and "e = new_entry P io c"
    and "line_size (entry_json e) \<le> max_journal_record_bytes cfg" and "line_size (entry_json e) \<le> max_journal_file_bytes cfg"
  shows "begin_request P cfg io c booted_store = (Inr e, one_request P name [e] e)"
proof -
  let ?s = "str_field c ''sessionId''"
  let ?st = "add_loaded ?s (put_entries ?s [] booted_store)"
  have "load_session_journal P cfg ?s booted_store = (Inr (), ?st)"
    using assms(1) by (simp add: load_session_journal_def booted_store_def fresh_store_def load_journal_file_def Let_def
        validate_none then_do_def)
  moreover have "journal_append P cfg io e ?st = (Inr (), put_file name \<lparr>jf_info = own_info (current_uid P) RegularFile 384,
      jf_lines = [JsonText (entry_json e)], jf_size = line_size (entry_json e), jf_torn = False\<rparr> ?st)"
    by (rule append_first) (use assms in \<open>simp_all add: booted_store_def fresh_store_def\<close>)
  moreover have "lookup_entry ?st (?s, str_field c ''idempotencyKey'') = None"
    by (simp add: lookup_entry_def booted_store_def fresh_store_def put_entries_def)
  moreover have "journal_initialize io booted_store = (Inr (), booted_store)"
    by (simp add: journal_initialize_def booted_store_def)
  ultimately show ?thesis
    by (simp add: begin_request_def assms(3) Let_def index_ticket_def set_entry_def one_request_def booted_store_def
        fresh_store_def put_entries_def entries_of_def put_file_def add_loaded_def)
qed

lemma accept_first:
  assumes "journal_path (e_session e) = Inr name" and "jio_append io (e_key e) = Appended" and "e_state e = JQueued"
    and "e' = patched JNoPatch (e\<lparr>e_state := JAccepted, e_updated := to_iso (jio_stamp io (e_key e))\<rparr>)"
    and "line_size (entry_json e') \<le> max_journal_record_bytes cfg"
    and "line_size (entry_json e) + line_size (entry_json e') \<le> max_journal_file_bytes cfg"
  shows "mark_accepted P cfg io (e_session e) (e_key e) (one_request P name [e] e) = (Inr e', one_request P name [e, e'] e')"
proof -
  let ?st = "one_request P name [e] e"
  have "journal_append P cfg io e' ?st =
      (Inr (), ?st\<lparr>j_files := j_files (one_request P name [e, e'] e')\<rparr>)"
    using assms(1,2,5,6) unfolding assms(4)
    by (simp add: journal_append_def Let_def one_request_def write_line_def opened_file_def with_line_def put_file_def)
  moreover have "load_session_journal P cfg (e_session e) ?st = (Inr (), ?st)"
    by (simp add: load_session_journal_def one_request_def)
  moreover have "lookup_entry ?st (e_session e, e_key e) = Some e"
    by (simp add: lookup_entry_def one_request_def)
  ultimately have "mark_accepted P cfg io (e_session e) (e_key e) ?st =
      (Inr e', put_entries (e_session e) (map_set (entries_of ?st (e_session e)) (e_key e) e')
        (?st\<lparr>j_files := j_files (one_request P name [e, e'] e')\<rparr>))"
    using assms(3,4) by (simp add: mark_accepted_def journal_transition_def Let_def)
      (simp add: put_entries_def entries_of_def)
  then show ?thesis unfolding assms(4) by (simp add: one_request_def put_entries_def entries_of_def)
qed

lemma demo_begin_request:
  assumes "journal_path ''s'' = Inr name"
  shows "begin_request demo_digests demo_journal_config demo_io (demo_wake ''k'') booted_store
    = (Inr demo_entry, one_request demo_digests name [demo_entry] demo_entry)"
  by (rule begin_booted)
     (use assms in \<open>simp_all add: demo_io_def demo_journal_io_def demo_entry_def demo_journal_config_def Let_def\<close>)

lemma demo_tracked:
  "tracked (journal_run demo_digests demo_journal_config [BeginRequest demo_io (demo_wake ''k'')] booted_store) (''s'', ''k'')
    = Some demo_entry"
proof -
  obtain name where name: "journal_path ''s'' = Inr name" using journal_path_ok [of "''s''"] by auto
  have fields: "e_session demo_entry = ''s''" "e_key demo_entry = ''k''" by (simp_all add: demo_entry_def)
  show ?thesis
    using demo_begin_request [OF name] by (simp add: journal_run_def tracked_def lookup_entry_def one_request_def fields)
qed

section \<open>The life of a request\<close>

text \<open>
  C24: the life of a request.  Take any store a successful recovery and any further calls lead to, a
  request it holds, and any call that does not remove the request's session, with any outcome of its I/O.
  After the call the request is as it was, or the call asked for its move, the move is one of the life
  cycle \<open>life\<close> (or a reconciliation of an indeterminate request), and nothing but its state, result,
  error and time has changed.  So no request becomes queued again, and a completed or failed one never changes.
  It leaves the store only when it was settled before, or when the call moved it to a settled state
  and pruned it at once; a completion or failure then returned the settled request, and a recovery
  reported it as indeterminate unless it threw.
\<close>

theorem request_lifecycle:
  assumes "journal_recover P cfg io (fresh_store files sessions) = (Inr snap, st0)"
    and "st = journal_run P cfg before st0" and "tracked st (s, k) = Some e" and "s \<notin> closes c"
  shows "case tracked (journal_step P cfg c st) (s, k) of
      Some e' \<Rightarrow> (e' = e \<or> transited (aim_of c st (s, k)) e e')
        \<and> (e_state e' = JQueued \<longrightarrow> e' = e) \<and> (e_state e \<in> {JCompleted, JFailed} \<longrightarrow> e' = e)
    | None \<Rightarrow> settled e \<or> (\<exists>e'. transited (aim_of c st (s, k)) e e' \<and> settled e' \<and> reports P cfg c st e')"
proof -
  have "journal_live st0" using journal_recover_live [OF assms(1)] by simp
  then have "journal_live st" unfolding assms(2) by (rule journal_run_live)
  note step = life_step [OF this assms(3,4), of P cfg]
  have "e_state e' \<noteq> JQueued \<and> e_state e \<notin> {JCompleted, JFailed}" if "transited w e e'" for w e'
    using transited_state [OF that] by (auto simp: life_def split: if_splits)
  with step show ?thesis by (auto simp: moved_def split: option.splits)
qed

theorem request_lifecycle_witness:
  "case tracked (journal_step demo_digests demo_journal_config (MarkAccepted demo_io ''s'' ''k'')
       (journal_run demo_digests demo_journal_config [BeginRequest demo_io (demo_wake ''k'')] booted_store)) (''s'', ''k'') of
     Some e' \<Rightarrow> e' = demo_entry \<or> transited (Some (JAccepted, JNoPatch, False)) demo_entry e'
   | None \<Rightarrow> False"
proof -
  have "jio_ready demo_io = Inr ()" by (simp add: demo_io_def demo_journal_io_def)
  moreover have "\<not> settled demo_entry" by (simp add: settled_def demo_entry_def new_entry_def Let_def)
  ultimately show ?thesis
    using request_lifecycle [OF booted [of demo_io demo_digests demo_journal_config] refl demo_tracked,
        of "MarkAccepted demo_io ''s'' ''k''"]
    by (auto split: option.splits)
qed

text \<open>
  C25: durability: when every append and rewriting of a journal happens as a whole or not at all, a
  process restarted over the same files reads every request of every session exactly as the old
  process knew it, whatever calls were made before (two keys of the session whose ticket identifiers
  collide would make the load throw).
\<close>

theorem restart_restores_requests:
  assumes "digests_ok P" and "0 < max_journal_file_bytes cfg" and "\<And>c. c \<in> set calls \<Longrightarrow> clean_call c"
    and "st = journal_run P cfg calls booted_store" and "map_has (j_entries st) s" and "jio_ready io = Inr ()"
    and "\<And>k k'. lookup_entry st (s, k) \<noteq> None \<Longrightarrow> lookup_entry st (s, k') \<noteq> None \<Longrightarrow>
      wake_ticket_id P s k = wake_ticket_id P s k' \<Longrightarrow> k = k'"
    and "s \<noteq> []"
  shows "fst (get_request P cfg io s k (reopened st)) = Inr (lookup_entry st (s, k))"
proof -
  have ok: "synced P cfg st" unfolding assms(4) by (rule synced_run [OF assms(3,1,2) synced_booted])
  obtain name where name: "journal_path s = Inr name" using journal_path_ok [OF assms(8)] by blast
  obtain st' where st': "load_session_journal P cfg s ((reopened st)\<lparr>j_initialized := True\<rparr>) = (Inr (), st')"
      "entries_of st' s = entries_of st s"
    using load_reopened [OF ok assms(5,7) name refl] by blast
  have "journal_initialize io (reopened st) = (Inr (), (reopened st)\<lparr>j_initialized := True\<rparr>)"
    using assms(6) by (simp add: journal_initialize_def reopened_def fresh_store_def)
  with st'(1) have "fst (get_request P cfg io s k (reopened st)) = Inr (lookup_entry st' (s, k))"
    by (simp add: get_request_def)
  then show ?thesis using st'(2) by (simp flip: entries_of_lookup)
qed

theorem restart_restores_requests_witness:
  "fst (get_request demo_digests demo_journal_config demo_io ''s'' ''k''
     (reopened (journal_run demo_digests demo_journal_config [BeginRequest demo_io (demo_wake ''k'')] booted_store)))
   = Inr (Some demo_entry)"
proof -
  let ?st = "journal_run demo_digests demo_journal_config [BeginRequest demo_io (demo_wake ''k'')] booted_store"
  obtain name where name: "journal_path ''s'' = Inr name" using journal_path_ok [of "''s''"] by auto
  have st: "?st = one_request demo_digests name [demo_entry] demo_entry"
    using demo_begin_request [OF name] by (simp add: journal_run_def)
  have keys: "e_session demo_entry = ''s''" "e_key demo_entry = ''k''" by (simp_all add: demo_entry_def)
  have lookup: "lookup_entry ?st (''s'', k) = (if k = ''k'' then Some demo_entry else None)" for k
    by (simp add: st lookup_entry_def one_request_def keys)
  have "fst (get_request demo_digests demo_journal_config demo_io ''s'' ''k'' (reopened ?st)) = Inr (lookup_entry ?st (''s'', ''k''))"
  proof (rule restart_restores_requests [OF demo_digests_ok _ _ refl])
    show "0 < max_journal_file_bytes demo_journal_config"
      by (simp add: demo_journal_config_def Let_def line_size_def)
    show "clean_call c" if "c \<in> set [BeginRequest demo_io (demo_wake ''k'')]" for c
      using that by (simp add: clean_call_def demo_io_clean demo_wake_ok)
    show "map_has (j_entries ?st) ''s''" by (simp add: st one_request_def keys)
    show "jio_ready demo_io = Inr ()" by (simp add: demo_io_def demo_journal_io_def)
  qed (simp_all add: lookup split: if_splits)
  then show ?thesis by (simp add: lookup)
qed

section \<open>Recovery\<close>

lemma recover_one:
  assumes "journal_path (e_session e) = Inr name" and "valid_journal_entry (entry_json e)" and "e_state e = JQueued"
    and "jio_ready io = Inr ()" and "1 \<le> max_recovered_sessions cfg"
    and "line_size (entry_json e) \<le> max_journal_file_bytes cfg" and "line_size (entry_json e) \<le> max_recovered_bytes cfg"
  obtains st where "journal_recover P cfg io (reopened (one_request P name [e] e))
      = (Inr \<lparr>snap_manifests = [], snap_queued = [e], snap_indeterminate = []\<rparr>, st)"
    and "lookup_entry st (e_session e, e_key e) = Some e"
proof -
  let ?st = "(one_request P name [e] e)\<lparr>j_recovery_bytes := line_size (entry_json e)\<rparr>"
  let ?init = "(reopened (one_request P name [e] e))\<lparr>j_initialized := True\<rparr>"
  have "ends_with ''.jsonl'' name"
    using assms(1) by (auto simp: journal_path_def bind_ok ends_with_def)
  then have names: "journal_names ?init = [name]"
    by (simp add: journal_names_def reopened_def one_request_def fresh_store_def)
  have "load_journal_file P cfg name None True ?init = (Inr (), ?st\<lparr>j_scanned := False\<rparr>)"
    using assms by (simp add: load_journal_file_def Let_def reopened_def one_request_def fresh_store_def validate_own claim_recovery_bytes_def
        load_line_def validate_journal_entry_def require_def index_ticket_def set_entry_def put_entries_def entries_of_def add_loaded_def)
  then have scan: "scan_journal_files P cfg ?init = (Inr (), ?st)"
    using assms(5) names by (simp add: scan_journal_files_def) (simp add: reopened_def one_request_def fresh_store_def)
  have prune: "prune_session P cfg io (e_session e) ?st = (Inr 0, ?st)"
    using assms(3) by (simp add: prune_session_def journal_initialize_def load_session_journal_def prune_loaded_def prune_retained_def
        entries_of_def one_request_def)
  have init: "journal_initialize io (reopened (one_request P name [e] e)) = (Inr (), ?init)"
    using assms(4) by (simp add: journal_initialize_def reopened_def fresh_store_def)
  have manifests: "load_manifests P cfg ?init = (Inr [], ?init)"
    by (simp add: load_manifests_def reopened_def fresh_store_def one_request_def)
  have entries: "j_entries ?st = [(e_session e, [(e_key e, e)])]" by (simp add: one_request_def)
  have "recover_entries P cfg io (all_requests ?st) ?st = (Inr ([e], []), ?st)"
    using assms(3) by (simp add: all_requests_def entries lookup_entry_def)
  with init manifests scan prune have "journal_recover P cfg io (reopened (one_request P name [e] e))
      = (Inr \<lparr>snap_manifests = [], snap_queued = [e], snap_indeterminate = []\<rparr>, ?st)"
    unfolding journal_recover_def by (simp add: entries then_do_def)
  then show thesis by (rule that) (simp add: lookup_entry_def entries)
qed

text \<open>
  C26: nothing that may have reached the provider is replayed.  A recovery that succeeds offers for replay
  exactly the requests that its store holds as queued, each once; it leaves none accepted, and reports
  each request in doubt once: every one the store holds, and besides those only ones that the
  same recovery pruned.
\<close>

theorem recovery_replays_only_queued:
  assumes "journal_recover P cfg io (fresh_store files sessions) = (Inr snap, st)"
  shows "set (snap_queued snap) = {e. e_state e = JQueued \<and> (\<exists>sk. lookup_entry st sk = Some e)}
    \<and> distinct (snap_queued snap) \<and> distinct (snap_indeterminate snap)
    \<and> (\<forall>e \<in> set (snap_indeterminate snap). e_state e = JIndeterminate
        \<and> lookup_entry st (e_session e, e_key e) \<in> {Some e, None})
    \<and> (\<forall>sk e. lookup_entry st sk = Some e \<longrightarrow> e_state e \<noteq> JAccepted
        \<and> (e_state e = JIndeterminate \<longrightarrow> e \<in> set (snap_indeterminate snap)))"
  using recover_classifies [OF assms] by blast

theorem recovery_replays_only_queued_witness:
  "\<exists>st. journal_recover demo_digests demo_journal_config demo_io
       (reopened (journal_run demo_digests demo_journal_config [BeginRequest demo_io (demo_wake ''k'')] booted_store))
     = (Inr \<lparr>snap_manifests = [], snap_queued = [demo_entry], snap_indeterminate = []\<rparr>, st)
   \<and> e_state demo_entry = JQueued \<and> e_state (the (lookup_entry st (''s'', ''k''))) \<noteq> JAccepted"
proof -
  obtain name where name: "journal_path ''s'' = Inr name" using journal_path_ok [of "''s''"] by auto
  have keys: "e_session demo_entry = ''s''" "e_key demo_entry = ''k''" by (simp_all add: demo_entry_def)
  have "journal_run demo_digests demo_journal_config [BeginRequest demo_io (demo_wake ''k'')] booted_store
      = one_request demo_digests name [demo_entry] demo_entry"
    using demo_begin_request [OF name] by (simp add: journal_run_def)
  moreover obtain st where st: "journal_recover demo_digests demo_journal_config demo_io (reopened (one_request demo_digests name [demo_entry] demo_entry))
      = (Inr \<lparr>snap_manifests = [], snap_queued = [demo_entry], snap_indeterminate = []\<rparr>, st)"
      "lookup_entry st (''s'', ''k'') = Some demo_entry"
  proof (rule recover_one [where e = demo_entry and name = name and io = demo_io and P = demo_digests and cfg = demo_journal_config])
    show "valid_journal_entry (entry_json demo_entry)"
      unfolding demo_entry_def using valid_new [OF demo_wake_ok demo_digests_ok] by (simp add: valid_entry_json)
    show "e_state demo_entry = JQueued" by (simp add: demo_entry_def new_entry_def Let_def)
  qed (use name keys in \<open>simp_all add: demo_io_def demo_journal_io_def demo_journal_config_def Let_def\<close>)
  moreover note recovery_replays_only_queued [OF st(1) [unfolded reopened_def]]
  ultimately show ?thesis by auto
qed

text \<open>
  C27: a journal does not survive an append that was cut short: when a process dies (or the disk fills)
  with part of a line written, every later recovery of that directory throws, with any limits and in
  any environment, and so the host does not start.  A record that is appended after it and
  acknowledged does not change that: it continues the torn line and is lost with it.
\<close>

theorem torn_append_blocks_recovery:
  assumes "journal_append P cfg io e st = (Inl err, st1)" and "jio_append io (e_key e) = TornAppend n err"
    and "0 < n" and "n < compact_size (entry_json e)" and "st1 \<noteq> st"
    and "st2 = st1 \<or> (\<exists>io' e'. journal_append P cfg io' e' st1 = (Inr (), st2) \<and> e_session e' = e_session e)"
  shows "\<exists>err'. fst (journal_recover P' cfg' io' (reopened st2)) = Inl err'"
proof (cases rule: append_cases [of P cfg io e st])
  case refused
  with assms(1,5) show ?thesis by auto
next
  case (wrote name)
  let ?g = "with_torn_line n (entry_json e) (opened_file (current_uid P) (map_get (j_files st) name))"
  have st1: "st1 = put_file name ?g st"
    using assms(1,2) wrote(6) by (simp add: write_line_def)
  have last: "BadText \<in> set (jf_lines ?g)" "jf_torn ?g"
    using assms(3,4) by (auto simp: with_torn_line_def)
  have stored: "map_get (j_files st1) name = Some ?g" by (simp add: st1 put_file_def)
  obtain f where f: "map_get (j_files st2) name = Some f" "BadText \<in> set (jf_lines f)"
  proof (cases "st2 = st1")
    case True
    with stored last(1) that show thesis by blast
  next
    case False
    then obtain io' e' where app: "journal_append P cfg io' e' st1 = (Inr (), st2)" "e_session e' = e_session e"
      using assms(6) by blast
    show thesis
    proof (cases rule: append_cases [of P cfg io' e' st1])
      case refused
      with app(1) show thesis by simp
    next
      case (wrote name')
      have "name' = name" using wrote(1) \<open>journal_path (e_session e) = Inr name\<close> app(2) by simp
      then have "map_get (j_files st2) name = Some ((with_line (entry_json e') ?g)\<lparr>jf_info := (jf_info ?g)\<lparr>node_mode := 384\<rparr>\<rparr>)"
        using app(1) wrote(5,6) stored
        by (auto simp: write_line_def opened_file_def put_file_def split: append_outcome.splits)
      with last(2) that show thesis by (simp add: with_line_def)
    qed
  qed
  have "ends_with ''.jsonl'' name"
    using wrote(1) by (auto simp: journal_path_def bind_ok ends_with_def)
  from bad_line_blocks [OF f this] show ?thesis by (simp add: reopened_def)
qed

theorem torn_append_blocks_recovery_witness:
  "\<exists>err'. fst (journal_recover demo_digests demo_journal_config demo_io
     (reopened (snd (journal_append demo_digests demo_journal_config (demo_journal_io (TornAppend 1 insecure_state_path)) demo_entry booted_store)))) = Inl err'"
proof -
  let ?io = "demo_journal_io (TornAppend 1 insecure_state_path)"
  obtain name where name: "journal_path ''s'' = Inr name" using journal_path_ok [of "''s''"] by auto
  let ?g = "with_torn_line 1 (entry_json demo_entry) (opened_file (current_uid demo_digests) None)"
  have fits: "line_size (entry_json demo_entry) \<le> max_journal_record_bytes demo_journal_config"
    "line_size (entry_json demo_entry) \<le> max_journal_file_bytes demo_journal_config"
    by (simp_all add: demo_journal_config_def Let_def)
  have big: "1 < compact_size (entry_json demo_entry)"
    by (simp add: compact_size_def entry_json_def quote_def)
  have app: "journal_append demo_digests demo_journal_config ?io demo_entry booted_store
      = (Inl insecure_state_path, put_file name ?g booted_store)"
  proof -
    have "e_session demo_entry = ''s''" by (simp add: demo_entry_def)
    with name fits show ?thesis
      by (simp add: journal_append_def Let_def demo_journal_io_def write_line_def validate_none booted_store_def fresh_store_def)
  qed
  have "put_file name ?g booted_store \<noteq> booted_store"
    by (simp add: put_file_def booted_store_def fresh_store_def)
  from torn_append_blocks_recovery [OF app _ _ big this disjI1 [OF refl]] app show ?thesis
    by (simp add: demo_journal_io_def)
qed

lemma append_full:
  assumes "journal_path (e_session e) = Inr name" and "map_get (j_files st) name = Some f" and "max_journal_file_bytes cfg \<le> jf_size f"
  shows "\<exists>err. journal_append P cfg io e st = (Inl err, st)"
proof (cases rule: append_cases [of P cfg io e st])
  case (wrote name')
  then have "jf_size f + line_size (entry_json e) \<le> max_journal_file_bytes cfg" using assms(1,2) by simp
  with assms(3) show ?thesis by (simp add: line_size_def)
qed

lemma transition_full:
  assumes "lookup_entry st (s, k) = Some e" and "e_session e = s" and "journal_transition_allowed (e_state e) to r"
    and "journal_path s = Inr name" and "map_get (j_files st) name = Some f" and "max_journal_file_bytes cfg \<le> jf_size f"
  shows "\<exists>err. journal_transition P cfg io s k to patch r st = (Inl err, st)"
proof -
  obtain err where "journal_append P cfg io (patched patch (e\<lparr>e_state := to, e_updated := to_iso (jio_stamp io k)\<rparr>)) st = (Inl err, st)"
    using append_full [OF _ assms(5,6)] assms(2,4) by fastforce
  with assms(1,3) show ?thesis by (simp add: journal_transition_def Let_def)
qed

lemma load_two:
  assumes "journal_path (e_session e) = Inr name" and "e_session e' = e_session e" and "e_key e' = e_key e"
    and "valid_journal_entry (entry_json e)" and "valid_journal_entry (entry_json e')"
    and "j_entries st = []" and "j_tickets st = []" and "j_loaded st = []"
  shows "for_each (load_line P name None) [JsonText (entry_json e), JsonText (entry_json e')] st =
    (Inr (), st\<lparr>j_entries := [(e_session e, [(e_key e, e')])], j_loaded := [e_session e],
      j_tickets := [(wake_ticket_id P (e_session e) (e_key e), (e_session e, e_key e))]\<rparr>)"
  using assms
  by (simp add: load_line_def Let_def validate_journal_entry_def require_def index_ticket_def set_entry_def put_entries_def
      entries_of_def add_loaded_def)

text \<open>
  the journal's size limit counts against settling, too: a request may be queued and accepted up to
  the limit, and then its end, which needs one more record, can be recorded neither by the process
  nor by a recovery, which throws, so that the host does not start.
\<close>

theorem full_journal_blocks_recovery:
  assumes "wake_command c" and "digests_ok P" and "\<And>k. jio_append io k = Appended" and "jio_ready io = Inr ()"
    and "e = new_entry P io c"
    and "e' = patched JNoPatch (e\<lparr>e_state := JAccepted, e_updated := to_iso (jio_stamp io (e_key e))\<rparr>)"
    and "max_journal_file_bytes cfg = line_size (entry_json e) + line_size (entry_json e')"
    and "line_size (entry_json e) \<le> max_journal_record_bytes cfg" and "line_size (entry_json e') \<le> max_journal_record_bytes cfg"
  shows "\<exists>st1 st2. begin_request P cfg io c booted_store = (Inr e, st1)
    \<and> mark_accepted P cfg io (e_session e) (e_key e) st1 = (Inr e', st2)
    \<and> (\<exists>err. fst (mark_completed P cfg io (e_session e) (e_key e) r st2) = Inl err)
    \<and> (\<exists>err. fst (journal_recover P cfg io (reopened st2)) = Inl err)"
proof -
  have session: "e_session e \<noteq> []" "valid_journal_entry (entry_json e)" 
    using valid_new [OF assms(1,2), of io] by (simp_all add: assms(5) valid_entry_json)
  obtain name where name: "journal_path (e_session e) = Inr name" using journal_path_ok [OF session(1)] by blast
  let ?st1 = "one_request P name [e] e" and ?st2 = "one_request P name [e, e'] e'"
  have e': "e_session e' = e_session e" "e_key e' = e_key e" "e_state e' = JAccepted"
    unfolding assms(6) by simp_all
  have valid: "valid_journal_entry (entry_json e')" unfolding assms(6) by (rule valid_patched [OF session(2)])
  have began: "begin_request P cfg io c booted_store = (Inr e, ?st1)"
    by (rule begin_booted) (use name assms in simp_all)
  have accept: "mark_accepted P cfg io (e_session e) (e_key e) ?st1 = (Inr e', ?st2)"
    by (rule accept_first [OF name assms(3) _ assms(6,9)]) (simp_all add: assms(5,7) new_entry_def Let_def)
  let ?f = "snd (hd (j_files ?st2))"
  have full: "map_get (j_files ?st2) name = Some ?f" "max_journal_file_bytes cfg \<le> jf_size ?f"
    by (simp_all add: one_request_def assms(7))
  have lookup: "lookup_entry ?st2 (e_session e, e_key e) = Some e'"
    using e' by (simp add: lookup_entry_def one_request_def)
  obtain err where "journal_transition P cfg io (e_session e) (e_key e) JCompleted (JResult r) False ?st2 = (Inl err, ?st2)"
    using transition_full [OF lookup e'(1) _ name full] e'(3) by fastforce
  then have completed: "\<exists>err. fst (mark_completed P cfg io (e_session e) (e_key e) r ?st2) = Inl err"
    using e'(1) by (simp add: mark_completed_def settle_request_def load_session_journal_def one_request_def)
  have "\<exists>err. fst (journal_recover P cfg io (reopened ?st2)) = Inl err"
  proof (rule ccontr)
    assume "\<not> ?thesis"
    then obtain snap st' where "journal_recover P cfg io (fresh_store [(name, ?f)] []) = (Inr snap, st')"
      by (auto simp: reopened_def one_request_def) (metis sum.exhaust surjective_pairing)
    then obtain st0 ms st1 u st2 q i st3 where i: "journal_initialize io (fresh_store [(name, ?f)] []) = (Inr (), st0)"
      and m: "load_manifests P cfg st0 = (Inr ms, st1)" and s: "scan_journal_files P cfg st1 = (Inr u, st2)"
      and r: "recover_entries P cfg io (all_requests st2) st2 = (Inr (q, i), st3)"
      unfolding journal_recover_def by (auto simp: then_do_ok)
    have "st1 = (fresh_store [(name, ?f)] [])\<lparr>j_initialized := True\<rparr>"
      using i m assms(4) by (auto simp: journal_initialize_def fresh_store_def load_manifests_def Let_def)
    then have st1: "j_entries st1 = []" "j_tickets st1 = []" "j_loaded st1 = []" "j_files st1 = [(name, ?f)]" "\<not> j_scanned st1"
      by (simp_all add: fresh_store_def)
    have "journal_names st1 = [name]"
      using name by (auto simp: journal_names_def st1 journal_path_def bind_ok ends_with_def)
    then obtain st4 where "load_journal_file P cfg name None True st1 = (Inr (), st4)" "st2 = st4\<lparr>j_scanned := True\<rparr>"
      using s st1(5) by (auto simp: scan_journal_files_def then_do_ok split: if_splits)
    then have "st2 = st1\<lparr>j_recovery_bytes := j_recovery_bytes st1 + jf_size ?f, j_scanned := True,
        j_entries := [(e_session e, [(e_key e, e')])], j_loaded := [e_session e],
        j_tickets := [(wake_ticket_id P (e_session e) (e_key e), (e_session e, e_key e))]\<rparr>"
      using load_two [OF name e'(1,2) session(2) valid, of "st1\<lparr>j_recovery_bytes := j_recovery_bytes st1 + jf_size ?f\<rparr>" P] st1
      by (auto simp: load_journal_file_def Let_def then_do_ok claim_recovery_bytes_def one_request_def split: sum.splits if_splits)
    then have st2: "all_requests st2 = [(e_session e, e_key e)]" "lookup_entry st2 (e_session e, e_key e) = Some e'"
        "map_get (j_files st2) name = Some ?f"
      by (simp_all add: all_requests_def lookup_entry_def st1(4))
    obtain err where "journal_transition P cfg io (e_session e) (e_key e) JIndeterminate JNoPatch False st2 = (Inl err, st2)"
      using transition_full [OF st2(2) e'(1) _ name st2(3) full(2)] e'(3) by fastforce
    with r st2(1,2) e'(3) show False by (simp add: then_do_def)
  qed
  with began accept completed show ?thesis by blast
qed

theorem full_journal_blocks_recovery_witness:
  "\<exists>st1 st2. begin_request demo_digests demo_journal_config demo_io (demo_wake ''k'') booted_store = (Inr demo_entry, st1)
    \<and> mark_accepted demo_digests demo_journal_config demo_io ''s'' ''k'' st1 = (Inr demo_accepted, st2)
    \<and> (\<exists>err. fst (mark_completed demo_digests demo_journal_config demo_io ''s'' ''k'' None st2) = Inl err)
    \<and> (\<exists>err. fst (journal_recover demo_digests demo_journal_config demo_io (reopened st2)) = Inl err)"
proof -
  have io: "jio_append demo_io k = Appended" "jio_ready demo_io = Inr ()" "to_iso (jio_stamp demo_io k) = to_iso 0" for k
    by (simp_all add: demo_io_def demo_journal_io_def)
  have "e_session demo_entry = ''s''" "e_key demo_entry = ''k''" by (simp_all add: demo_entry_def)
  with full_journal_blocks_recovery [OF demo_wake_ok demo_digests_ok io(1,2) demo_entry_def, of demo_accepted demo_journal_config None]
  show ?thesis by (simp add: demo_accepted_def io(3) demo_journal_config_def Let_def)
qed

end
