(* ===== verification/ManifestClaims.thy ===== *)
theory ManifestClaims
  imports JournalRecovery Demo
begin

text \<open>The properties of the session manifests: what is kept out of them, and their size limit.\<close>

section \<open>The command that opens a session\<close>

definition command_resources :: "json \<Rightarrow> json option" where
  "command_resources command =
     (case field command ''payload'' of Some p \<Rightarrow> field p ''resources'' | None \<Rightarrow> None)"

definition open_command :: "json \<Rightarrow> bool" where
  "open_command command \<longleftrightarrow>
     is_record command \<and> is_record_field (field command ''payload'') \<and> is_record_field (command_resources command)"

definition with_tools :: "json \<Rightarrow> json \<Rightarrow> json" where
  "with_tools command tools =
     set_field command ''payload'' (set_field (the (field command ''payload'')) ''resources''
       (set_field (the (command_resources command)) ''tools'' tools))"

text \<open>Two tool policies that agree on everything a manifest may keep of them.\<close>

definition same_policy :: "json \<Rightarrow> json \<Rightarrow> bool" where
  "same_policy t t' \<longleftrightarrow>
     is_record t \<and> is_record t' \<and> field t ''mode'' = field t' ''mode''
     \<and> (\<exists>d d'. field t ''descriptor'' = Some d \<and> field t' ''descriptor'' = Some d'
          \<and> (is_record d \<longleftrightarrow> is_record d')
          \<and> (\<forall>k \<in> {''protocolVersion'', ''adapterId'', ''adapterVersion'', ''operations''}. field d k = field d' k)
          \<and> (\<exists>l l'. field d ''limits'' = Some l \<and> field d' ''limits'' = Some l' \<and> (is_record l \<longleftrightarrow> is_record l')
               \<and> (\<forall>k \<in> set tool_adapter_limit_fields. field l k = field l' k)))"

lemma limits_cong:
  assumes "\<forall>k \<in> set tool_adapter_limit_fields. field l k = field l' k"
  shows "summary_limits l = summary_limits l'"
    and "list_all (\<lambda>k. valid_tool_adapter_limit k (field l k)) tool_adapter_limit_fields
      = list_all (\<lambda>k. valid_tool_adapter_limit k (field l' k)) tool_adapter_limit_fields"
  using assms by (simp_all add: summary_limits_def list_all_iff)

lemma summary_cong:
  assumes "same_policy t t'" and "is_record p" and "is_record r"
  shows "durable_tool_adapter_summary (set_field p ''resources'' (set_field r ''tools'' t))
    = durable_tool_adapter_summary (set_field p ''resources'' (set_field r ''tools'' t'))"
proof -
  obtain d d' l l' where t: "is_record t" "is_record t'" "field t ''mode'' = field t' ''mode''"
    "field t ''descriptor'' = Some d" "field t' ''descriptor'' = Some d'" "is_record d \<longleftrightarrow> is_record d'"
    and d: "field d ''protocolVersion'' = field d' ''protocolVersion''" "field d ''adapterId'' = field d' ''adapterId''"
    "field d ''adapterVersion'' = field d' ''adapterVersion''" "field d ''operations'' = field d' ''operations''"
    and l: "field d ''limits'' = Some l" "field d' ''limits'' = Some l'" "is_record l \<longleftrightarrow> is_record l'"
    and fields: "\<forall>k \<in> set tool_adapter_limit_fields. field l k = field l' k"
    using assms(1) unfolding same_policy_def by auto
  have "adapter_identity_ok d = adapter_identity_ok d'" by (simp add: adapter_identity_ok_def d)
  with assms(2,3) show ?thesis
    unfolding durable_tool_adapter_summary_def Let_def
    by (simp add: t d l limits_cong [OF fields])
qed

lemma redacted_cong:
  assumes "is_record p" and "is_record r"
  shows "durable_open_payload (set_field p ''resources'' (set_field r ''tools'' t)) True
    = set_field p ''resources'' (set_field r ''tools'' (JStr ''none''))"
  using assms by (simp add: durable_open_payload_def)

lemma summary_of_record:
  assumes "durable_tool_adapter_summary payload = Inr s"
    and "is_record_field (case field payload ''resources'' of Some r \<Rightarrow> field r ''tools'' | None \<Rightarrow> None)"
  shows "s \<noteq> None"
  using assms unfolding durable_tool_adapter_summary_def Let_def by (auto split: if_splits)

section \<open>What a manifest keeps of the tool policy\<close>

text \<open>
  C28: a session's tool policy is redacted before it is stored: saving the manifest has the same result
  and writes the same bytes for any two policies with the same mode, identity, operations and limits,
  whatever else their descriptors hold (endpoint, binding, capability handle).
\<close>

theorem manifest_policy_redacted:
  assumes "open_command command" and "same_policy t t'"
  shows "save_manifest P cfg io (with_tools command t) conversation st
    = save_manifest P cfg io (with_tools command t') conversation st"
proof -
  obtain p where p: "field command ''payload'' = Some p" "is_record command" "is_record p"
    using assms(1) by (auto simp: open_command_def elim!: is_record_field.elims)
  obtain r where r: "field p ''resources'' = Some r" "is_record r"
    using assms(1) p(1) by (auto simp: open_command_def command_resources_def elim!: is_record_field.elims)
  let ?p = "\<lambda>t. set_field p ''resources'' (set_field r ''tools'' t)"
  have with_tools: "with_tools command t = set_field command ''payload'' (?p t)" for t
    using p r by (simp add: with_tools_def command_resources_def)
  have "is_record t" "is_record t'" using assms(2) by (auto simp: same_policy_def)
  have summary: "durable_tool_adapter_summary (?p t) = durable_tool_adapter_summary (?p t')"
    using summary_cong [OF assms(2) p(3) r(2)] .
  have manifest: "manifest_json (with_tools command t) (Some s) conversation created now
      = manifest_json (with_tools command t') (Some s) conversation created now" for s created now
    using p r by (simp add: with_tools manifest_json_def redacted_cong str_field_def)
  have "then_do (lift_result (durable_tool_adapter_summary (?p t')))
       (\<lambda>s. write_manifest P cfg io name (manifest_json (with_tools command t) s conversation created now))
     = then_do (lift_result (durable_tool_adapter_summary (?p t')))
       (\<lambda>s. write_manifest P cfg io name (manifest_json (with_tools command t') s conversation created now))"
    for name created now
  proof (cases "durable_tool_adapter_summary (?p t')")
    case (Inr s)
    with \<open>is_record t'\<close> p r have "s \<noteq> None" by (auto dest!: summary_of_record)
    with Inr manifest show ?thesis by auto
  next
    case (Inl e)
    then show ?thesis by (intro ext) simp
  qed
  moreover have "str_field (with_tools command t) ''sessionId'' = str_field (with_tools command t') ''sessionId''"
    "(case field (with_tools command x) ''payload'' of Some p \<Rightarrow> p | None \<Rightarrow> JNull) = ?p x" for x
    using p by (simp_all add: with_tools str_field_def)
  ultimately show ?thesis
    unfolding save_manifest_def Let_def by (simp add: summary cong: if_cong)
qed

text \<open>A policy with every field a host may give, by its endpoint and its capability handle.\<close>

definition demo_policy :: "string \<Rightarrow> json" where
  "demo_policy secret =
     JObj [(''mode'', JStr ''host-adapter''),
           (''descriptor'', JObj [(''protocolVersion'', JStr ''1.0''), (''adapterId'', JStr ''a''),
              (''adapterVersion'', JStr ''1.0.0''), (''operations'', JArr [JStr ''fs.read'']),
              (''endpoint'', JStr secret), (''capabilityHandle'', JStr secret),
              (''limits'', JObj [(''maxRequestBytes'', JNum 2048), (''maxResponseBytes'', JNum 1024),
                 (''maxConcurrentRequests'', JNum 1), (''maxQueuedRequests'', JNum 0), (''requestTimeoutMs'', JNum 100),
                 (''maxIdempotencyKeys'', JNum 1), (''idempotencyTtlMs'', JNum 1000)])])]"

definition demo_open :: json where
  "demo_open =
     JObj [(''operation'', JStr ''open''), (''sessionId'', JStr ''s''), (''generation'', JNum 1),
           (''payload'', JObj [(''resources'', JObj [])])]"

definition demo_manifest_io :: journal_io where
  "demo_manifest_io =
     \<lparr>jio_ready = Inr (), jio_now = 0, jio_stamp = (\<lambda>_. 0), jio_append = (\<lambda>_. Appended), jio_rewrite = Published,
      jio_manifest = Published, jio_rm = (\<lambda>_. None)\<rparr>"

definition demo_manifest :: json where
  "demo_manifest = manifest_json demo_open None None (to_iso 0) (to_iso 0)"

text \<open>The limit is the manifest's size as the save measures it.\<close>

definition demo_manifest_config :: journal_config where
  "demo_manifest_config =
     \<lparr>max_terminal_entries = 2, terminal_retention_ms = 1000, max_journal_record_bytes = 4096,
      max_journal_file_bytes = 4096, max_manifest_bytes = compact_size demo_manifest, max_recovered_sessions = 4,
      max_recovered_bytes = 8192\<rparr>"

theorem manifest_policy_redacted_witness:
  "save_manifest demo_platform demo_manifest_config demo_manifest_io (with_tools demo_open (demo_policy ''unix:a'')) None (fresh_store [] [])
   = save_manifest demo_platform demo_manifest_config demo_manifest_io (with_tools demo_open (demo_policy ''unix:b'')) None (fresh_store [] [])"
proof (rule manifest_policy_redacted)
  show "open_command demo_open"
    by (simp add: open_command_def command_resources_def demo_open_def)
  show "same_policy (demo_policy ''unix:a'') (demo_policy ''unix:b'')"
    by (simp add: same_policy_def demo_policy_def tool_adapter_limit_fields_def)
qed

section \<open>The size of a manifest\<close>

lemma save_manifest_stored:
  assumes "save_manifest P cfg io command conversation st = (Inr (Some v), st')"
  shows "compact_size v \<le> max_manifest_bytes cfg \<and>
    (\<exists>name d. map_get (j_sessions st') name = Some d
       \<and> map_get (sd_files d) ''manifest.json'' = Some (published_file (current_uid P) v))"
proof -
  obtain name st1 st2 previous m where parts:
    "ensure_session_dir P name st1 = (Inr (), st2)" "read_manifest P name st2 = (Inr previous, st2)"
    "write_manifest P cfg io name m st2 = (Inr (Some v), st')"
    using assms unfolding save_manifest_def Let_def
    by (auto simp: then_do_ok read_manifest_def remove_manifest_def split: if_splits sum.splits option.splits)
  obtain d where d: "map_get (j_sessions st2) name = Some d"
    using parts(1) by (auto simp: ensure_session_dir_def split: option.splits if_splits sum.splits)
  have "v = m \<and> compact_size m \<le> max_manifest_bytes cfg
      \<and> st' = put_session_files name (map_set (session_files st2 name) ''manifest.json'' (published_file (current_uid P) m)) st2"
    using parts(3) unfolding write_manifest_def
    by (cases "jio_manifest io") (auto split: if_splits sum.splits)
  then show ?thesis using d by (auto simp: put_session_files_def intro!: exI [of _ name])
qed

text \<open>
  the size of a manifest is checked as compact JSON when it is saved and as the indented file when it
  is loaded: a manifest whose file is larger than the limit can be saved without an error, and then
  every recovery of the state directory throws, so that the host does not start.
\<close>

theorem oversized_manifest_blocks_recovery:
  assumes "save_manifest P cfg io command conversation st = (Inr (Some v), st')"
    and "max_manifest_bytes cfg < published_size v"
  shows "compact_size v \<le> max_manifest_bytes cfg
    \<and> (\<exists>err. fst (journal_recover P cfg io' (reopened st')) = Inl err)"
proof -
  obtain name d where "compact_size v \<le> max_manifest_bytes cfg" "map_get (j_sessions st') name = Some d"
    "map_get (sd_files d) ''manifest.json'' = Some (published_file (current_uid P) v)"
    using save_manifest_stored [OF assms(1)] by blast
  with large_manifest_blocks [OF this(2,3)] assms(2) show ?thesis by (simp add: reopened_def)
qed

lemma demo_manifest_saved:
  "\<exists>st'. save_manifest demo_platform demo_manifest_config demo_manifest_io demo_open None (fresh_store [] [])
     = (Inr (Some demo_manifest), st')"
proof -
  have valid: "validate_manifest demo_manifest = Inr ()"
    by (simp add: validate_manifest_def require_def valid_manifest_def demo_manifest_def manifest_json_def demo_open_def
        durable_open_payload_def str_field_def nonempty_string_def safe_int_from_def safe_int_def max_safe_integer_def)
  have summary: "durable_tool_adapter_summary (JObj [(''resources'', JObj [])]) = Inr None"
    by (simp add: durable_tool_adapter_summary_def)
  have payload: "field demo_open ''payload'' = Some (JObj [(''resources'', JObj [])])" "str_field demo_open ''sessionId'' = ''s''"
    by (simp_all add: demo_open_def str_field_def)
  have io: "jio_ready demo_manifest_io = Inr ()" "jio_stamp demo_manifest_io [] = 0" "jio_manifest demo_manifest_io = Published"
    by (simp_all add: demo_manifest_io_def)
  obtain name where name: "encoded_session_id ''s'' = Inr name" by (simp add: encoded_session_id_def)
  have limit: "max_manifest_bytes demo_manifest_config = compact_size demo_manifest" by (simp add: demo_manifest_config_def)
  show ?thesis
    by (simp add: save_manifest_def Let_def journal_initialize_def io payload name summary ensure_session_dir_def fresh_store_def
        read_manifest_def session_files_def read_private_json_if_exists_def validate_none write_manifest_def limit valid
        flip: demo_manifest_def)
qed

theorem oversized_manifest_blocks_recovery_witness:
  "\<exists>st'. save_manifest demo_platform demo_manifest_config demo_manifest_io demo_open None (fresh_store [] []) = (Inr (Some demo_manifest), st')
   \<and> (\<exists>err. fst (journal_recover demo_platform demo_manifest_config demo_manifest_io (reopened st')) = Inl err)"
proof -
  obtain st' where st': "save_manifest demo_platform demo_manifest_config demo_manifest_io demo_open None (fresh_store [] [])
      = (Inr (Some demo_manifest), st')"
    using demo_manifest_saved by blast
  have "max_manifest_bytes demo_manifest_config < published_size demo_manifest"
    by (simp add: demo_manifest_config_def published_gt_compact)
  from oversized_manifest_blocks_recovery [OF st' this, of demo_manifest_io] st' show ?thesis by blast
qed

end
