(* ===== verification/Commands.thy ===== *)
theory Commands
  imports Manifests
begin

text \<open>
  The commands of \<open>src/protocol.ts\<close>: the validation of one incoming command (\<open>parseCommand\<close> and its
  helpers) and the envelopes of responses and events.  A validator is a function to a result whose
  error carries the \<open>code\<close> of the \<open>ProtocolValidationError\<close>; the message and the details are left out.
\<close>

section \<open>Fields\<close>

definition protocol_error :: "string \<Rightarrow> js_error" where
  "protocol_error code = JsError ProtocolValidationError code False"

definition invalid_field :: js_error where
  "invalid_field = protocol_error ''invalid_field''"

definition protocol_operations :: "string list" where
  "protocol_operations =
     [''handshake'', ''open'', ''wake'', ''steer'', ''followUp'', ''status'', ''abort'', ''attach'', ''detach'',
      ''close'', ''drain'']"

text \<open>\<open>DEFAULT_MAX_PROMPT_CHARS\<close>.\<close>

definition default_max_prompt_chars :: nat where
  "default_max_prompt_chars = 262144"

fun record_value :: "json option \<Rightarrow> json result" where
  "record_value (Some (JObj kvs)) = Inr (JObj kvs)"
| "record_value _ = Inl invalid_field"

definition string_field :: "json \<Rightarrow> string \<Rightarrow> nat \<Rightarrow> nat \<Rightarrow> bool \<Rightarrow> string option result" where
  "string_field source f lo hi is_optional =
     (if field source f = None \<and> is_optional then Inr None
      else case as_string (field source f) of
        None \<Rightarrow> Inl invalid_field
      | Some s \<Rightarrow> if length s < lo \<or> length s > hi then Inl invalid_field else Inr (Some s))"

definition integer_field :: "json \<Rightarrow> string \<Rightarrow> int \<Rightarrow> int \<Rightarrow> bool \<Rightarrow> int option result" where
  "integer_field source f lo hi is_optional =
     (if field source f = None \<and> is_optional then Inr None
      else case as_int (field source f) of
        None \<Rightarrow> Inl invalid_field
      | Some n \<Rightarrow>
          if \<not> safe_int n then Inl invalid_field
          else if n < lo \<or> n > hi then Inl invalid_field
          else Inr (Some n))"

text \<open>The \<open>typeof v !== "boolean"\<close> tests of optional flags.\<close>

definition optional_flag :: "json option \<Rightarrow> unit result" where
  "optional_flag v = require (v = None \<or> is_boolean v) invalid_field"

section \<open>Validation\<close>

definition protocol_major :: "string \<Rightarrow> nat option" where
  "protocol_major version =
     (case split_on (CHR ''.'') version of
        [a, b] \<Rightarrow> if digits a \<and> digits b then digits_value 0 a else None
      | _ \<Rightarrow> None)"

definition validate_base :: "json \<Rightarrow> json result" where
  "validate_base v =
     bind (record_value (Some v)) (\<lambda>command.
     bind (string_field command ''protocolVersion'' 1 32 False) (\<lambda>version.
       case protocol_major (the version) of
         None \<Rightarrow> Inl (protocol_error ''invalid_protocol_version'')
       | Some major \<Rightarrow>
           if major \<noteq> 1 then Inl (protocol_error ''incompatible_protocol'')
           else
             bind (string_field command ''requestId'' 1 128 False) (\<lambda>_.
             bind (string_field command ''operation'' 1 32 False) (\<lambda>operation.
               if the operation \<notin> set protocol_operations then Inl (protocol_error ''unknown_operation'')
               else bind (record_value (field command ''payload'')) (\<lambda>_. Inr command)))))"

definition validate_session_identity :: "json \<Rightarrow> bool \<Rightarrow> unit result" where
  "validate_session_identity command idempotent =
     bind (string_field command ''sessionId'' 1 256 False) (\<lambda>_.
     bind (integer_field command ''generation'' 0 max_safe_integer False) (\<lambda>_.
       if idempotent then bind (string_field command ''idempotencyKey'' 1 512 False) (\<lambda>_. Inr ())
       else Inr ()))"

definition thinking_levels :: "string list" where
  "thinking_levels = [''off'', ''minimal'', ''low'', ''medium'', ''high'', ''xhigh'', ''max'']"

definition validate_model :: "json option \<Rightarrow> unit result" where
  "validate_model v =
     (if v = None then Inr ()
      else
        bind (record_value v) (\<lambda>model.
        bind (string_field model ''provider'' 1 128 False) (\<lambda>_.
        bind (string_field model ''id'' 1 256 False) (\<lambda>_.
        bind (string_field model ''thinkingLevel'' 1 16 True) (\<lambda>thinking.
          require (case thinking of None \<Rightarrow> True | Some t \<Rightarrow> t \<in> set thinking_levels) invalid_field)))))"

definition resource_fields :: "string list" where
  "resource_fields = [''extensions'', ''skills'', ''promptTemplates'', ''themes'', ''contextFiles'', ''tools'']"

fun all_none :: "json \<Rightarrow> string list \<Rightarrow> unit result" where
  "all_none resources [] = Inr ()"
| "all_none resources (f # fs) =
     bind (string_field resources f 1 16 False) (\<lambda>v.
       if v \<noteq> Some ''none'' then Inl (protocol_error ''unsupported_resource_policy'') else all_none resources fs)"

definition validate_resources :: "json option \<Rightarrow> unit result" where
  "validate_resources v =
     (if v = None then Inr ()
      else
        bind (record_value v) (\<lambda>resources.
        bind (all_none resources resource_fields) (\<lambda>_.
        bind (string_field resources ''systemPrompt'' 0 262144 True) (\<lambda>_. Inr ()))))"

definition session_modes :: "string list" where
  "session_modes = [''new'', ''open'', ''continue'', ''memory'']"

definition validate_open :: "json \<Rightarrow> json \<Rightarrow> unit result" where
  "validate_open command payload =
     bind (validate_session_identity command False) (\<lambda>_.
     bind (string_field payload ''cwd'' 1 4096 False) (\<lambda>_.
     bind (string_field payload ''name'' 1 128 True) (\<lambda>_.
     bind (string_field payload ''agentDir'' 1 4096 True) (\<lambda>_.
     bind (record_value (field payload ''session'')) (\<lambda>session.
     bind (string_field session ''mode'' 1 16 False) (\<lambda>mode.
       if the mode \<notin> set session_modes then Inl invalid_field
       else
         bind (string_field session ''path'' 1 4096 True) (\<lambda>path.
         bind (string_field session ''sessionDir'' 1 4096 True) (\<lambda>_.
           if the mode = ''open'' \<and> path = None then Inl invalid_field
           else
             bind (validate_model (field payload ''model'')) (\<lambda>_.
             validate_resources (field payload ''resources''))))))))))"

definition validate_wake :: "nat \<Rightarrow> json \<Rightarrow> json \<Rightarrow> unit result" where
  "validate_wake max_prompt command payload =
     bind (validate_session_identity command True) (\<lambda>_.
     bind (string_field payload ''prompt'' 1 max_prompt False) (\<lambda>_.
     bind (string_field payload ''source'' 1 128 True) (\<lambda>_.
     optional_flag (field payload ''waitForTerminal''))))"

definition validate_message :: "nat \<Rightarrow> json \<Rightarrow> json \<Rightarrow> unit result" where
  "validate_message max_prompt command payload =
     bind (validate_session_identity command True) (\<lambda>_.
     bind (string_field payload ''message'' 1 max_prompt False) (\<lambda>_. Inr ()))"

text \<open>\<open>parseCommand\<close>; \<open>limit\<close> is \<open>limits.maxPromptChars\<close>.\<close>

definition parse_command :: "nat option \<Rightarrow> json \<Rightarrow> json result" where
  "parse_command limit v =
     bind (validate_base v) (\<lambda>command.
       let operation = str_field command ''operation'';
           payload = the (field command ''payload'');
           max_prompt = (case limit of Some n \<Rightarrow> n | None \<Rightarrow> default_max_prompt_chars)
       in bind
            (if operation = ''handshake'' then Inr ()
             else if operation = ''open'' then validate_open command payload
             else if operation = ''wake'' then validate_wake max_prompt command payload
             else if operation = ''steer'' \<or> operation = ''followUp'' then validate_message max_prompt command payload
             else if operation = ''status'' then bind (string_field command ''sessionId'' 1 256 True) (\<lambda>_. Inr ())
             else if operation \<in> {''abort'', ''attach'', ''detach''} then validate_session_identity command False
             else if operation = ''close'' then
               bind (validate_session_identity command False) (\<lambda>_. optional_flag (field payload ''retainSession''))
             else bind (integer_field payload ''timeoutMs'' 0 86400000 True) (\<lambda>_. Inr ()))
            (\<lambda>_. Inr command))"

section \<open>Envelopes\<close>

definition opt_entry :: "string \<Rightarrow> json option \<Rightarrow> (string \<times> json) list" where
  "opt_entry k v = (case v of Some x \<Rightarrow> [(k, x)] | None \<Rightarrow> [])"

record response_options =
  ro_session :: "string option"
  ro_sequence :: "int option"
  ro_protocol :: "string option"

definition version_or_default :: "string option \<Rightarrow> json" where
  "version_or_default v = JStr (case v of Some p \<Rightarrow> p | None \<Rightarrow> ''1.0'')"

definition response_head :: "string \<Rightarrow> string \<Rightarrow> response_options \<Rightarrow> (string \<times> json) list" where
  "response_head request host opts =
     [(''protocolVersion'', version_or_default (ro_protocol opts)), (''kind'', JStr ''response''),
      (''requestId'', JStr request), (''hostInstanceId'', JStr host)]
     @ opt_entry ''sessionId'' (map_option JStr (ro_session opts))
     @ opt_entry ''sequence'' (map_option JNum (ro_sequence opts))"

definition success_response :: "string \<Rightarrow> string \<Rightarrow> json \<Rightarrow> response_options \<Rightarrow> json" where
  "success_response request host data opts =
     JObj (response_head request host opts @ [(''ok'', JBool True), (''data'', data)])"

definition error_response :: "string \<Rightarrow> string \<Rightarrow> json \<Rightarrow> response_options \<Rightarrow> json" where
  "error_response request host err opts =
     JObj (response_head request host opts @ [(''ok'', JBool False), (''error'', err)])"

record event_input =
  ei_protocol :: "string option"
  ei_event :: string
  ei_host :: string
  ei_session :: string
  ei_generation :: int
  ei_sequence :: int
  ei_request :: "string option"
  ei_data :: "json option"

definition event_envelope :: "event_input \<Rightarrow> json" where
  "event_envelope i =
     JObj ([(''protocolVersion'', version_or_default (ei_protocol i)), (''kind'', JStr ''event''),
            (''event'', JStr (ei_event i)), (''hostInstanceId'', JStr (ei_host i)),
            (''sessionId'', JStr (ei_session i)), (''generation'', JNum (ei_generation i)),
            (''sequence'', JNum (ei_sequence i))]
           @ opt_entry ''requestId'' (map_option JStr (ei_request i)) @ opt_entry ''data'' (ei_data i))"

section \<open>What an accepted command holds\<close>

lemma record_value_ok: "record_value v = Inr r \<longleftrightarrow> v = Some r \<and> is_record r"
  by (cases v; cases r) (auto elim: record_value.elims)

lemma string_field_ok:
  "string_field source f lo hi b = Inr r \<longleftrightarrow>
     (b \<and> field source f = None \<and> r = None)
     \<or> (\<exists>s. field source f = Some (JStr s) \<and> lo \<le> length s \<and> length s \<le> hi \<and> r = Some s)"
  by (cases "field source f" rule: option.exhaust [of _ "?thesis"]; cases "the (field source f)")
     (auto simp: string_field_def)

lemma integer_field_ok:
  "integer_field source f lo hi b = Inr r \<longleftrightarrow>
     (b \<and> field source f = None \<and> r = None)
     \<or> (\<exists>n. field source f = Some (JNum n) \<and> safe_int n \<and> lo \<le> n \<and> n \<le> hi \<and> r = Some n)"
  by (cases "field source f" rule: option.exhaust [of _ "?thesis"]; cases "the (field source f)")
     (auto simp: integer_field_def)

end
