(* ===== verification/ToolAdapters.thy ===== *)
theory ToolAdapters
  imports Commands
begin

text \<open>
  The validators of \<open>src/tool-adapter-protocol.ts\<close>: the descriptor a host grants a session's tools with,
  the frames of the adapter's wire protocol, and the payloads of its file operations.  A validator
  returns the value it rebuilds from what it has checked.  A reader is the check of one field: it gets
  \<open>source[field]\<close> and gives the value to keep, nothing for an absent optional field, or an error.
\<close>

section \<open>Patterns\<close>

definition has_control_characters :: "string \<Rightarrow> bool" where
  "has_control_characters s \<longleftrightarrow> list_ex (\<lambda>c. char_code c < 32 \<or> char_code c = 127) s"

text \<open>\<open>^[A-Za-z0-9][extra]*$\<close>; \<open>^[a-z][a-z0-9_]*$\<close>; \<open>^[a-f0-9]{64}$\<close>.\<close>

fun starts_alnum :: "char list \<Rightarrow> string \<Rightarrow> bool" where
  "starts_alnum extra [] = False"
| "starts_alnum extra (c # cs) \<longleftrightarrow> is_alnum c \<and> list_all (\<lambda>d. is_alnum d \<or> d \<in> set extra) cs"

fun error_code_pattern :: "string \<Rightarrow> bool" where
  "error_code_pattern [] = False"
| "error_code_pattern (c # cs) \<longleftrightarrow> is_lower c \<and> list_all (\<lambda>d. is_lower d \<or> is_digit d \<or> d = CHR ''_'') cs"

definition digest_pattern :: "string \<Rightarrow> bool" where
  "digest_pattern s \<longleftrightarrow> length s = 64 \<and> list_all (\<lambda>c. is_digit c \<or> (CHR ''a'' \<le> c \<and> c \<le> CHR ''f'')) s"

text \<open>\<open>TIMESTAMP_PATTERN\<close>: the template's \<open>d\<close> stands for a digit, then an optional fraction and \<open>Z\<close>.\<close>

definition timestamp_pattern :: "string \<Rightarrow> bool" where
  "timestamp_pattern s \<longleftrightarrow>
     list_all2 (\<lambda>t c. if t = CHR ''d'' then is_digit c else c = t) ''dddd-dd-ddTdd:dd:dd'' (take 19 s)
     \<and> (let rest = drop 19 s in
        rest = ''Z''
        \<or> (rest \<noteq> [] \<and> hd rest = CHR ''.'' \<and> last rest = CHR ''Z''
           \<and> (let ds = butlast (tl rest) in 1 \<le> length ds \<and> length ds \<le> 9 \<and> list_all is_digit ds)))"

text \<open>
  \<open>posix.normalize\<close>: empty and \<open>.\<close> segments are dropped, \<open>..\<close> takes back the segment before it, or stays
  at the front of a relative path.
\<close>

fun normal_segments :: "bool \<Rightarrow> string list \<Rightarrow> string list \<Rightarrow> string list" where
  "normal_segments up acc [] = acc"
| "normal_segments up acc (w # ws) =
     normal_segments up
       (if w = [] \<or> w = ''.'' then acc
        else if w \<noteq> ''..'' then acc @ [w]
        else if acc \<noteq> [] \<and> last acc \<noteq> ''..'' then butlast acc
        else if up then acc @ [w]
        else acc) ws"

definition posix_absolute :: "string \<Rightarrow> bool" where
  "posix_absolute p \<longleftrightarrow> p \<noteq> [] \<and> hd p = CHR ''/''"

definition posix_normalize :: "string \<Rightarrow> string" where
  "posix_normalize p =
     (if p = [] then ''.''
      else
        (let absolute = posix_absolute p; trailing = (last p = CHR ''/'');
             body = join_with ''/'' (normal_segments (\<not> absolute) [] (split_on (CHR ''/'') p))
         in if body = [] then (if absolute then ''/'' else if trailing then ''./'' else ''.'')
            else (if absolute then ''/'' else []) @ body @ (if trailing then ''/'' else [])))"

section \<open>Readers of fields\<close>

type_synonym reader = "json option \<Rightarrow> json option result"

type_synonym shape = "(string \<times> reader) list"

text \<open>The object literal \<open>{ f: r(source.f), ... }\<close>, evaluated from the first field to the last.\<close>

fun build :: "shape \<Rightarrow> json \<Rightarrow> (string \<times> json) list result" where
  "build [] source = Inr []"
| "build ((f, r) # rest) source =
     bind (r (field source f)) (\<lambda>x.
     bind (build rest source) (\<lambda>kvs. Inr (case x of Some v \<Rightarrow> (f, v) # kvs | None \<Rightarrow> kvs)))"

definition object_value :: "string \<Rightarrow> json option \<Rightarrow> json result" where
  "object_value code v =
     (case v of Some w \<Rightarrow> if is_record w then Inr w else Inl (protocol_error code) | None \<Rightarrow> Inl (protocol_error code))"

definition only_keys :: "string \<Rightarrow> string list \<Rightarrow> json \<Rightarrow> unit result" where
  "only_keys code allowed v = require (set (obj_keys v) \<subseteq> set allowed) (protocol_error code)"

text \<open>An object of exactly these fields: \<open>objectValue\<close>, \<open>onlyKeys\<close> and the literal.\<close>

definition typed_object :: "string \<Rightarrow> shape \<Rightarrow> json option \<Rightarrow> json result" where
  "typed_object code shp v =
     bind (object_value code v) (\<lambda>source.
     bind (only_keys code (List.map fst shp) source) (\<lambda>_.
     bind (build shp source) (\<lambda>kvs. Inr (JObj kvs))))"

definition object_reader :: "string \<Rightarrow> shape \<Rightarrow> reader" where
  "object_reader code shp v = bind (typed_object code shp v) (\<lambda>w. Inr (Some w))"

definition optional_reader :: "reader \<Rightarrow> reader" where
  "optional_reader r v = (if v = None then Inr None else r v)"

text \<open>A string that satisfies a test, \<open>code\<close> being the error otherwise.\<close>

definition string_reader :: "string \<Rightarrow> (string \<Rightarrow> bool) \<Rightarrow> reader" where
  "string_reader code ok v =
     (case as_string v of
        Some s \<Rightarrow> if ok s then Inr v else Inl (protocol_error code)
      | None \<Rightarrow> Inl (protocol_error code))"

definition required_string :: "nat \<Rightarrow> nat \<Rightarrow> reader" where
  "required_string lo hi = string_reader ''invalid_tool_adapter_field'' (\<lambda>s. lo \<le> length s \<and> length s \<le> hi)"

text \<open>A second check of a string that was read.\<close>

definition and_check :: "reader \<Rightarrow> string \<Rightarrow> (string \<Rightarrow> bool) \<Rightarrow> reader" where
  "and_check r code ok v = bind (r v) (\<lambda>_. string_reader code ok v)"

definition bounded_identifier :: "nat \<Rightarrow> reader" where
  "bounded_identifier hi = and_check (required_string 1 hi) ''invalid_tool_adapter_message'' (starts_alnum ''._:-'')"

definition bounded_opaque_identifier :: "nat \<Rightarrow> nat \<Rightarrow> reader" where
  "bounded_opaque_identifier lo hi =
     and_check (required_string lo hi) ''invalid_tool_adapter_binding'' (\<lambda>s. \<not> has_control_characters s)"

definition required_integer :: "string \<Rightarrow> int \<Rightarrow> int \<Rightarrow> reader" where
  "required_integer f lo hi v =
     (let e = protocol_error (if map_of tool_adapter_limit_bounds f \<noteq> None then ''invalid_tool_adapter_limit''
                              else ''invalid_tool_adapter_field'')
      in case as_int v of
           Some n \<Rightarrow> if safe_int n \<and> lo \<le> n \<and> n \<le> hi then Inr v else Inl e
         | None \<Rightarrow> Inl e)"

definition required_boolean :: reader where
  "required_boolean v = (if is_boolean v then Inr v else Inl (protocol_error ''invalid_tool_adapter_field''))"

definition required_digest :: reader where
  "required_digest = and_check (required_string 64 64) ''invalid_tool_adapter_field'' digest_pattern"

definition timestamp_reader :: reader where
  "timestamp_reader = and_check (required_string 20 64) ''invalid_tool_adapter_result'' timestamp_pattern"

text \<open>\<open>TOOL_ADAPTER_MAX_CONTENT_BYTES\<close>.\<close>

definition max_content_bytes :: nat where
  "max_content_bytes = 4194304"

definition bounded_content :: "nat \<Rightarrow> reader" where
  "bounded_content lo =
     string_reader ''invalid_tool_adapter_payload'' (\<lambda>s. lo \<le> length s \<and> utf8_length s \<le> max_content_bytes)"

definition file_type_reader :: reader where
  "file_type_reader = string_reader ''invalid_tool_adapter_result'' (\<lambda>s. s = ''file'' \<or> s = ''directory'')"

definition relative_path_ok :: "string \<Rightarrow> bool" where
  "relative_path_ok s \<longleftrightarrow>
     1 \<le> length s \<and> utf8_length s \<le> 4096
     \<and> CHR 0x00 \<notin> set s \<and> CHR 0x5C \<notin> set s \<and> \<not> has_control_characters s
     \<and> \<not> posix_absolute s \<and> posix_normalize s = s \<and> ''..'' \<notin> set (split_on (CHR ''/'') s)"

definition relative_path :: reader where
  "relative_path = string_reader ''invalid_tool_adapter_path'' relative_path_ok"

text \<open>An array whose length is in bounds, each element rebuilt.\<close>

fun map_values :: "(json \<Rightarrow> json result) \<Rightarrow> json list \<Rightarrow> json list result" where
  "map_values g [] = Inr []"
| "map_values g (v # vs) = bind (g v) (\<lambda>w. bind (map_values g vs) (\<lambda>ws. Inr (w # ws)))"

definition array_reader :: "string \<Rightarrow> nat \<Rightarrow> nat \<Rightarrow> (json \<Rightarrow> json result) \<Rightarrow> reader" where
  "array_reader code lo hi g v =
     (case v of
        Some (JArr vs) \<Rightarrow>
          if length vs < lo \<or> length vs > hi then Inl (protocol_error code)
          else bind (map_values g vs) (\<lambda>ws. Inr (Some (JArr ws)))
      | _ \<Rightarrow> Inl (protocol_error code))"

section \<open>The descriptor\<close>

definition unsupported_tool_operation :: js_error where
  "unsupported_tool_operation = protocol_error ''unsupported_tool_operation''"

definition is_neutral_operation :: "json option \<Rightarrow> bool" where
  "is_neutral_operation v =
     (case as_string v of Some s \<Rightarrow> s \<in> set neutral_tool_operations | None \<Rightarrow> False)"

definition validate_operations :: reader where
  "validate_operations v =
     (case v of
        Some (JArr ops) \<Rightarrow>
          if length ops < 1 \<or> length ops > length neutral_tool_operations then Inl unsupported_tool_operation
          else if list_all (\<lambda>w. is_neutral_operation (Some w)) ops \<and> distinct ops then Inr v
          else Inl unsupported_tool_operation
      | _ \<Rightarrow> Inl unsupported_tool_operation)"

definition limit_shape :: shape where
  "limit_shape = List.map (\<lambda>(f, lo, hi). (f, required_integer f lo hi)) tool_adapter_limit_bounds"

definition validate_limits :: reader where
  "validate_limits = object_reader ''invalid_tool_adapter_limit'' limit_shape"

definition capability_reader :: reader where
  "capability_reader =
     string_reader ''invalid_tool_adapter_capability''
       (\<lambda>s. 32 \<le> length s \<and> length s \<le> 512 \<and> list_all is_b64url s)"

definition socket_path_ok :: "string \<Rightarrow> bool" where
  "socket_path_ok p \<longleftrightarrow>
     utf8_length p \<le> 100 \<and> p \<noteq> ''/'' \<and> posix_absolute p \<and> posix_normalize p = p \<and> CHR 0x00 \<notin> set p
     \<and> \<not> has_control_characters p"

definition validate_endpoint :: reader where
  "validate_endpoint =
     object_reader ''invalid_tool_adapter_endpoint''
       [(''transport'', string_reader ''invalid_tool_adapter_endpoint'' (\<lambda>s. s = ''unix'')),
        (''path'', and_check (required_string 1 4096) ''invalid_tool_adapter_endpoint'' socket_path_ok)]"

definition binding_shape :: shape where
  "binding_shape =
     [(''hostInstanceId'', bounded_opaque_identifier 1 128), (''sessionId'', bounded_opaque_identifier 1 256),
      (''generation'', required_integer ''generation'' 0 max_safe_integer), (''capabilityHandle'', capability_reader)]"

text \<open>The expected binding is an object of some of the four fields.\<close>

definition binding_matches :: "json \<Rightarrow> json \<Rightarrow> bool" where
  "binding_matches expected binding \<longleftrightarrow>
     list_all (\<lambda>f. field expected f = None \<or> field expected f = field binding f)
       [''hostInstanceId'', ''sessionId'', ''generation'', ''capabilityHandle'']"

definition validate_binding :: "json \<Rightarrow> reader" where
  "validate_binding expected v =
     bind (typed_object ''invalid_tool_adapter_binding'' binding_shape v) (\<lambda>binding.
       if binding_matches expected binding then Inr (Some binding)
       else Inl (protocol_error ''tool_adapter_binding_mismatch''))"

definition version_reader :: reader where
  "version_reader = and_check (required_string 1 16) ''unsupported_tool_adapter_version'' (\<lambda>s. s = ''1.0'')"

definition descriptor_shape :: "json \<Rightarrow> shape" where
  "descriptor_shape expected =
     [(''protocolVersion'', version_reader),
      (''adapterId'', and_check (required_string 1 128) ''invalid_tool_adapter_identity'' (starts_alnum ''._-'')),
      (''adapterVersion'', and_check (required_string 1 64) ''invalid_tool_adapter_identity'' semver_pattern),
      (''endpoint'', validate_endpoint), (''binding'', validate_binding expected),
      (''operations'', validate_operations), (''limits'', validate_limits)]"

text \<open>The identity fields every frame carries, with the descriptor's values.\<close>

definition frame_identity :: "json \<Rightarrow> (string \<times> json) list" where
  "frame_identity d =
     (let b = the (field d ''binding'') in
      [(''protocolVersion'', JStr ''1.0''), (''adapterId'', the (field d ''adapterId'')),
       (''adapterVersion'', the (field d ''adapterVersion'')), (''hostInstanceId'', the (field b ''hostInstanceId'')),
       (''sessionId'', the (field b ''sessionId'')), (''generation'', the (field b ''generation''))])"

definition json_line_bytes :: "json \<Rightarrow> int" where
  "json_line_bytes v = int (compact_size v) + 1"

definition limit_of :: "json \<Rightarrow> string \<Rightarrow> int" where
  "limit_of limits f = (case as_int (field limits f) of Some n \<Rightarrow> n | None \<Rightarrow> 0)"

definition validate_lifecycle_bounds :: "json \<Rightarrow> unit result" where
  "validate_lifecycle_bounds d =
     (let limits = the (field d ''limits'');
          ops = (''operations'', the (field d ''operations'')); lims = (''limits'', limits);
          bind_frame = JObj (frame_identity d @ [(''kind'', JStr ''bind''),
            (''capabilityHandle'', the (field (the (field d ''binding'')) ''capabilityHandle'')), ops, lims]);
          bound_frame = JObj (frame_identity d @ [(''kind'', JStr ''bound''), ops, lims])
      in checks
           [(json_line_bytes bind_frame \<le> limit_of limits ''maxRequestBytes'', protocol_error ''invalid_tool_adapter_limit''),
            (json_line_bytes bound_frame \<le> limit_of limits ''maxResponseBytes'', protocol_error ''invalid_tool_adapter_limit'')])"

definition validate_descriptor :: "json \<Rightarrow> json option \<Rightarrow> json result" where
  "validate_descriptor expected v =
     bind (typed_object ''invalid_tool_adapter_descriptor'' (descriptor_shape expected) v) (\<lambda>d.
     bind (validate_lifecycle_bounds d) (\<lambda>_. Inr d))"

end
