(* ===== verification/ToolFrames.thy ===== *)
theory ToolFrames
  imports ToolAdapters
begin

text \<open>
  The frames of the adapter's wire protocol (\<open>parseHostToolAdapterMessage\<close> of
  \<open>src/tool-adapter-protocol.ts\<close>): identity, lifecycle frames, invocations and results with the payloads
  of the six file operations.
\<close>

section \<open>Payloads\<close>

abbreviation payload_error :: string where
  "payload_error \<equiv> ''invalid_tool_adapter_payload''"

abbreviation result_error :: string where
  "result_error \<equiv> ''invalid_tool_adapter_result''"

definition optional_integer :: "string \<Rightarrow> int \<Rightarrow> int \<Rightarrow> string \<times> reader" where
  "optional_integer f lo hi = (f, optional_reader (required_integer f lo hi))"

definition optional_boolean :: "string \<Rightarrow> string \<times> reader" where
  "optional_boolean f = (f, optional_reader required_boolean)"

definition optional_digest :: "string \<Rightarrow> string \<times> reader" where
  "optional_digest f = (f, optional_reader required_digest)"

definition optional_timestamp :: "string \<Rightarrow> string \<times> reader" where
  "optional_timestamp f = (f, optional_reader timestamp_reader)"

definition edits_reader :: reader where
  "edits_reader =
     array_reader payload_error 1 256
       (\<lambda>v. typed_object payload_error [(''oldText'', bounded_content 1), (''newText'', bounded_content 0)] (Some v))"

definition request_shape :: "string \<Rightarrow> shape" where
  "request_shape operation =
     (if operation = ''fs.list'' then [(''path'', relative_path), optional_integer ''maxEntries'' 1 10000]
      else if operation = ''fs.stat'' then [(''path'', relative_path)]
      else if operation = ''fs.read'' then
        [(''path'', relative_path), optional_integer ''offset'' 0 max_safe_integer,
         optional_integer ''maxBytes'' 1 (int max_content_bytes)]
      else if operation = ''fs.search'' then
        [(''path'', relative_path), (''query'', required_string 1 4096), optional_integer ''maxResults'' 1 10000]
      else if operation = ''fs.write'' then
        [(''path'', relative_path), (''content'', bounded_content 0), optional_boolean ''create'',
         optional_boolean ''overwrite'', optional_digest ''expectedDigest'']
      else [(''path'', relative_path), (''edits'', edits_reader), optional_digest ''expectedDigest''])"

text \<open>The edits are checked before the path.\<close>

definition validate_request_payload :: "string \<Rightarrow> json option \<Rightarrow> json result" where
  "validate_request_payload operation v =
     bind (object_value payload_error v) (\<lambda>payload.
     bind (only_keys payload_error (List.map fst (request_shape operation)) payload) (\<lambda>_.
     bind (if operation = ''fs.edit'' then edits_reader (field payload ''edits'') else Inr None) (\<lambda>_.
     bind (build (request_shape operation) payload) (\<lambda>kvs. Inr (JObj kvs)))))"

definition entry_name_ok :: "string \<Rightarrow> bool" where
  "entry_name_ok s \<longleftrightarrow> s \<noteq> ''.'' \<and> s \<noteq> ''..'' \<and> CHR ''/'' \<notin> set s \<and> \<not> has_control_characters s"

definition list_entry_shape :: shape where
  "list_entry_shape =
     [(''name'', and_check (required_string 1 255) result_error entry_name_ok), (''type'', file_type_reader),
      optional_integer ''size'' 0 max_safe_integer, optional_timestamp ''modifiedAt'']"

definition search_match_shape :: shape where
  "search_match_shape =
     [(''path'', relative_path), (''line'', required_integer ''line'' 1 max_safe_integer),
      (''column'', required_integer ''column'' 1 max_safe_integer), (''text'', required_string 0 4096)]"

definition result_shape :: "string \<Rightarrow> shape" where
  "result_shape operation =
     (if operation = ''fs.list'' then
        [(''entries'', array_reader result_error 0 10000 (\<lambda>v. typed_object result_error list_entry_shape (Some v))),
         (''truncated'', required_boolean)]
      else if operation = ''fs.stat'' then
        [(''type'', file_type_reader), (''size'', required_integer ''size'' 0 max_safe_integer),
         optional_timestamp ''modifiedAt'']
      else if operation = ''fs.read'' then
        [(''content'', bounded_content 0), (''bytesRead'', required_integer ''bytesRead'' 0 (int max_content_bytes)),
         (''eof'', required_boolean)]
      else if operation = ''fs.search'' then
        [(''matches'', array_reader result_error 0 10000 (\<lambda>v. typed_object result_error search_match_shape (Some v))),
         (''truncated'', required_boolean)]
      else if operation = ''fs.write'' then
        [(''created'', required_boolean), (''bytesWritten'', required_integer ''bytesWritten'' 0 (int max_content_bytes)),
         (''digest'', required_digest)]
      else [(''replacements'', required_integer ''replacements'' 0 256), (''digest'', required_digest)])"

definition validate_result_payload :: "string \<Rightarrow> json option \<Rightarrow> json result" where
  "validate_result_payload operation = typed_object result_error (result_shape operation)"

definition error_body_shape :: shape where
  "error_body_shape =
     [(''code'', and_check (required_string 1 128) result_error error_code_pattern),
      (''message'', required_string 1 1024), (''retryable'', required_boolean)]"

definition validate_error_body :: "json option \<Rightarrow> json result" where
  "validate_error_body = typed_object result_error error_body_shape"

section \<open>Identity\<close>

definition wire_kinds :: "string list" where
  "wire_kinds = [''bind'', ''bound'', ''invoke'', ''result'', ''revoke'', ''revoked'', ''abort'', ''aborted'']"

definition message_error :: js_error where
  "message_error = protocol_error ''invalid_tool_adapter_message''"

text \<open>The first identity field that differs from the descriptor's decides the error.\<close>

fun identity_echo :: "(string \<times> json) list \<Rightarrow> (string \<times> json) list \<Rightarrow> unit result" where
  "identity_echo result [] = Inr ()"
| "identity_echo result ((f, x) # expected) =
     (if map_of result f \<noteq> Some x
      then Inl (protocol_error (if f = ''adapterId'' \<or> f = ''adapterVersion'' then ''tool_adapter_identity_mismatch''
                                else ''tool_adapter_binding_mismatch''))
      else identity_echo result expected)"

definition string_at :: "(string \<times> json) list \<Rightarrow> string \<Rightarrow> string" where
  "string_at kvs f = (case as_string (map_of kvs f) of Some s \<Rightarrow> s | None \<Rightarrow> [])"

definition operation_name :: "json \<Rightarrow> string" where
  "operation_name v = (case as_string (Some v) of Some s \<Rightarrow> s | None \<Rightarrow> [])"

definition validate_wire_identity :: "json \<Rightarrow> json option \<Rightarrow> (string \<times> json) list result" where
  "validate_wire_identity m expected =
     bind (build [(''protocolVersion'', version_reader)] m) (\<lambda>version.
     bind (build [(''adapterId'', required_string 1 128), (''adapterVersion'', required_string 1 64)] m) (\<lambda>adapter.
     if \<not> starts_alnum ''._-'' (string_at adapter ''adapterId'') \<or> \<not> semver_pattern (string_at adapter ''adapterVersion'')
     then Inl (protocol_error ''invalid_tool_adapter_identity'')
     else
       bind (build [(''hostInstanceId'', required_string 1 128), (''sessionId'', required_string 1 256)] m) (\<lambda>session.
       if has_control_characters (string_at session ''hostInstanceId'') \<or> has_control_characters (string_at session ''sessionId'')
       then Inl (protocol_error ''invalid_tool_adapter_binding'')
       else
         bind (build [(''generation'', required_integer ''generation'' 0 max_safe_integer)] m) (\<lambda>generation.
         let result = version @ adapter @ session @ generation in
         bind (case expected of Some d \<Rightarrow> identity_echo result (tl (frame_identity d)) | None \<Rightarrow> Inr ()) (\<lambda>_.
           Inr result)))))"

definition validate_operation :: "json option \<Rightarrow> json option \<Rightarrow> json result" where
  "validate_operation v expected =
     (if \<not> is_neutral_operation v then Inl unsupported_tool_operation
      else if (case expected of
                 Some d \<Rightarrow> (case field d ''operations'' of Some (JArr ops) \<Rightarrow> the v \<notin> set ops | _ \<Rightarrow> True)
               | None \<Rightarrow> False)
      then Inl unsupported_tool_operation
      else Inr (the v))"

definition validate_contract_echo :: "json option \<Rightarrow> json option \<Rightarrow> json option \<Rightarrow> unit result" where
  "validate_contract_echo operations limits expected =
     (case expected of
        None \<Rightarrow> Inr ()
      | Some d \<Rightarrow>
          require (operations = field d ''operations''
              \<and> list_all (\<lambda>(f, _). field (the limits) f = field (the (field d ''limits'')) f) tool_adapter_limit_bounds)
            (protocol_error ''tool_adapter_contract_mismatch''))"

section \<open>Frames\<close>

definition common_keys :: "string list" where
  "common_keys =
     [''protocolVersion'', ''kind'', ''adapterId'', ''adapterVersion'', ''hostInstanceId'', ''sessionId'', ''generation'']"

definition frame_keys :: "string \<Rightarrow> string list" where
  "frame_keys kind =
     common_keys
     @ (if kind = ''bind'' then [''capabilityHandle'', ''operations'', ''limits'']
        else if kind = ''bound'' then [''operations'', ''limits'']
        else if kind = ''invoke'' then [''requestId'', ''idempotencyKey'', ''operation'', ''payload'']
        else if kind = ''result'' then [''requestId'', ''idempotencyKey'', ''operation'', ''ok'', ''data'', ''error'']
        else if kind = ''abort'' then [''requestId'', ''targetRequestId'']
        else if kind = ''aborted'' then [''requestId'', ''targetRequestId'', ''aborted'', ''error'']
        else [])"

definition parse_contract :: "string \<Rightarrow> json \<Rightarrow> (string \<times> json) list \<Rightarrow> json option \<Rightarrow> json result" where
  "parse_contract kind m capability expected =
     bind (build [(''operations'', validate_operations), (''limits'', validate_limits)] m) (\<lambda>contract.
       let frame = JObj (capability @ contract); limits = map_of contract ''limits'' in
       if json_line_bytes frame > limit_of (the limits) (if kind = ''bind'' then ''maxRequestBytes'' else ''maxResponseBytes'')
       then Inl (protocol_error ''invalid_tool_adapter_limit'')
       else bind (validate_contract_echo (map_of contract ''operations'') limits expected) (\<lambda>_. Inr frame))"

definition parse_bind :: "json \<Rightarrow> (string \<times> json) list \<Rightarrow> json option \<Rightarrow> json result" where
  "parse_bind m head expected =
     bind (build [(''capabilityHandle'', capability_reader)] m) (\<lambda>capability.
       if (case expected of
             Some d \<Rightarrow> map_of capability ''capabilityHandle'' \<noteq> field (the (field d ''binding'')) ''capabilityHandle''
           | None \<Rightarrow> False)
       then Inl (protocol_error ''tool_adapter_binding_mismatch'')
       else parse_contract ''bind'' m (head @ capability) expected)"

definition request_head :: shape where
  "request_head = [(''requestId'', bounded_identifier 128), (''idempotencyKey'', bounded_identifier 512)]"

definition parse_invoke :: "json \<Rightarrow> (string \<times> json) list \<Rightarrow> json option \<Rightarrow> json result" where
  "parse_invoke m head expected =
     bind (build request_head m) (\<lambda>request.
     bind (validate_operation (field m ''operation'') expected) (\<lambda>operation.
     bind (validate_request_payload (operation_name operation) (field m ''payload'')) (\<lambda>payload.
       Inr (JObj (head @ request @ [(''operation'', operation), (''payload'', payload)])))))"

definition parse_result :: "json \<Rightarrow> (string \<times> json) list \<Rightarrow> json option \<Rightarrow> json result" where
  "parse_result m head expected =
     bind (build request_head m) (\<lambda>request.
     bind (validate_operation (field m ''operation'') expected) (\<lambda>operation.
     let base = head @ request @ [(''operation'', operation)] in
       if \<not> is_boolean (field m ''ok'') then Inl message_error
       else if field m ''ok'' = Some (JBool True) then
         if field m ''data'' = None \<or> field m ''error'' \<noteq> None then Inl message_error
         else bind (validate_result_payload (operation_name operation) (field m ''data'')) (\<lambda>data.
           Inr (JObj (base @ [(''ok'', JBool True), (''data'', data)])))
       else if field m ''error'' = None \<or> field m ''data'' \<noteq> None then Inl message_error
       else bind (validate_error_body (field m ''error'')) (\<lambda>err.
         Inr (JObj (base @ [(''ok'', JBool False), (''error'', err)])))))"

definition abort_head :: shape where
  "abort_head = [(''requestId'', bounded_identifier 128), (''targetRequestId'', bounded_identifier 128)]"

definition parse_aborted :: "json \<Rightarrow> (string \<times> json) list \<Rightarrow> json result" where
  "parse_aborted m head =
     bind (required_boolean (field m ''aborted'')) (\<lambda>aborted.
       if aborted = Some (JBool True) \<and> field m ''error'' \<noteq> None then Inl message_error
       else
         bind (build (abort_head @ [(''aborted'', required_boolean),
                 (''error'', optional_reader (object_reader result_error error_body_shape))]) m) (\<lambda>kvs.
           Inr (JObj (head @ kvs))))"

definition parse_kind :: "string \<Rightarrow> json \<Rightarrow> (string \<times> json) list \<Rightarrow> json option \<Rightarrow> json result" where
  "parse_kind kind m head expected =
     (if kind = ''bind'' then parse_bind m head expected
      else if kind = ''bound'' then parse_contract kind m head expected
      else if kind = ''invoke'' then parse_invoke m head expected
      else if kind = ''result'' then parse_result m head expected
      else if kind = ''abort'' then bind (build abort_head m) (\<lambda>kvs. Inr (JObj (head @ kvs)))
      else if kind = ''aborted'' then parse_aborted m head
      else Inr (JObj head))"

definition parse_host_tool_adapter_message :: "json \<Rightarrow> json option \<Rightarrow> json result" where
  "parse_host_tool_adapter_message v expected =
     bind (object_value ''invalid_tool_adapter_message'' (Some v)) (\<lambda>m.
     bind (build [(''kind'', required_string 1 16)] m) (\<lambda>kinds.
       let kind = string_at kinds ''kind'' in
       if kind \<notin> set wire_kinds then Inl message_error
       else
         bind (validate_wire_identity m expected) (\<lambda>identity.
         bind (only_keys ''invalid_tool_adapter_message'' (frame_keys kind) m) (\<lambda>_.
           parse_kind kind m (identity @ kinds) expected))))"

end
