(* ===== verification/CommandsV2.thy ===== *)
theory CommandsV2
  imports ToolAdapters
begin

text \<open>
  The second protocol version of \<open>src/protocol-v2.ts\<close>: an \<open>open\<close> may grant a host's tool adapter, whose
  descriptor is validated and bound to the session; everything else is checked by the first version's
  parser.
\<close>

record parse_options =
  po_max_prompt :: "nat option"
  po_host :: "string option"

text \<open>The pattern \<open>^2\.\d+$\<close>.\<close>

definition second_version :: "string \<Rightarrow> bool" where
  "second_version s \<longleftrightarrow> take 2 s = ''2.'' \<and> digits (drop 2 s)"

definition validate_through_v1 :: "parse_options \<Rightarrow> json \<Rightarrow> json result" where
  "validate_through_v1 opts command = parse_command (po_max_prompt opts) (set_field command ''protocolVersion'' (JStr ''1.0''))"

text \<open>The binding a descriptor must have, from the fields of the command that are well typed.\<close>

definition expected_binding :: "parse_options \<Rightarrow> json \<Rightarrow> json" where
  "expected_binding opts command =
     JObj (opt_entry ''hostInstanceId'' (map_option JStr (po_host opts))
       @ (case as_string (field command ''sessionId'') of Some s \<Rightarrow> [(''sessionId'', JStr s)] | None \<Rightarrow> [])
       @ (case as_int (field command ''generation'') of Some n \<Rightarrow> if safe_int n then [(''generation'', JNum n)] else [] | None \<Rightarrow> []))"

definition validated_policy :: "parse_options \<Rightarrow> json \<Rightarrow> json \<Rightarrow> json \<Rightarrow> json result" where
  "validated_policy opts command payload resources =
     (if field resources ''tools'' = Some (JStr ''none'') then Inr (JStr ''none'')
      else
        bind (object_value ''invalid_field'' (field resources ''tools'')) (\<lambda>policy.
        bind (only_keys ''invalid_tool_adapter_descriptor'' [''mode'', ''descriptor''] policy) (\<lambda>_.
          if field policy ''mode'' \<noteq> Some (JStr ''host-adapter'')
          then Inl (protocol_error ''unsupported_resource_policy'')
          else
            bind (if as_string (field command ''sessionId'') = None
                    \<or> \<not> (case as_int (field command ''generation'') of Some n \<Rightarrow> safe_int n | None \<Rightarrow> False)
                  then validate_through_v1 opts
                    (set_field command ''payload''
                      (set_field payload ''resources'' (set_field resources ''tools'' (JStr ''none''))))
                  else Inr command) (\<lambda>_.
            bind (validate_descriptor (expected_binding opts command) (field policy ''descriptor'')) (\<lambda>descriptor.
              Inr (JObj [(''mode'', JStr ''host-adapter''), (''descriptor'', descriptor)]))))))"

definition parse_v2_open :: "parse_options \<Rightarrow> json \<Rightarrow> json result" where
  "parse_v2_open opts command =
     bind (object_value ''invalid_field'' (field command ''payload'')) (\<lambda>payload.
       case field payload ''resources'' of
         None \<Rightarrow> bind (validate_through_v1 opts (set_field command ''payload'' payload)) (\<lambda>_. Inr command)
       | Some r \<Rightarrow>
           bind (object_value ''invalid_field'' (Some r)) (\<lambda>resources.
           bind (validated_policy opts command payload resources) (\<lambda>policy.
           bind (validate_through_v1 opts
                  (set_field command ''payload''
                    (set_field payload ''resources'' (set_field resources ''tools'' (JStr ''none''))))) (\<lambda>_.
             Inr (set_field command ''payload''
                   (set_field payload ''resources'' (set_field resources ''tools'' policy)))))))"

definition parse_protocol_v2_command :: "parse_options \<Rightarrow> json \<Rightarrow> json result" where
  "parse_protocol_v2_command opts v =
     bind (object_value ''invalid_field'' (Some v)) (\<lambda>command.
       case as_string (field command ''protocolVersion'') of
         None \<Rightarrow> Inl (protocol_error ''invalid_protocol_version'')
       | Some version \<Rightarrow>
           if \<not> second_version version
           then Inl (protocol_error (if dotted_version version then ''incompatible_protocol'' else ''invalid_protocol_version''))
           else if field command ''operation'' \<noteq> Some (JStr ''open'')
           then bind (validate_through_v1 opts command) (\<lambda>_. Inr command)
           else parse_v2_open opts command)"

definition parse_supported_command :: "parse_options \<Rightarrow> json \<Rightarrow> json result" where
  "parse_supported_command opts v =
     bind (object_value ''invalid_field'' (Some v)) (\<lambda>command.
       if (case as_string (field command ''protocolVersion'') of Some s \<Rightarrow> second_version s | None \<Rightarrow> False)
       then parse_protocol_v2_command opts v
       else parse_command (po_max_prompt opts) v)"

end
