(* ===== verification/CommandLaws.thy ===== *)
theory CommandLaws
  imports ToolFrames CommandsV2
begin

text \<open>
  What validation gives: the fields of an object rebuilt from a shape, readers that keep the value they
  read, and readers whose result passes unchanged when it is read again.
\<close>

section \<open>Rebuilt objects\<close>

lemma build_names: "build shp source = Inr kvs \<Longrightarrow> set (List.map fst kvs) \<subseteq> set (List.map fst shp)"
proof (induction shp arbitrary: kvs)
  case (Cons s shp)
  obtain g q where s: "s = (g, q)" by fastforce
  with Cons.prems obtain x kvs' where parts: "build shp source = Inr kvs'" "kvs = (case x of Some v \<Rightarrow> (g, v) # kvs' | None \<Rightarrow> kvs')"
    by (auto simp: bind_ok)
  have "set (List.map fst kvs') \<subseteq> set (List.map fst shp)" by (rule Cons.IH [OF parts(1)])
  with s parts(2) show ?case by (cases x) auto
qed simp

lemma build_field:
  assumes "build shp source = Inr kvs" and "distinct (List.map fst shp)" and "(f, r) \<in> set shp"
  shows "r (field source f) = Inr (map_of kvs f)"
  using assms
proof (induction shp arbitrary: kvs)
  case (Cons s shp)
  obtain g q where s: "s = (g, q)" by fastforce
  with Cons.prems(1) obtain x kvs' where parts: "q (field source g) = Inr x" "build shp source = Inr kvs'"
    "kvs = (case x of Some v \<Rightarrow> (g, v) # kvs' | None \<Rightarrow> kvs')"
    by (auto simp: bind_ok)
  have fresh: "g \<notin> fst ` set kvs'" using build_names [OF parts(2)] Cons.prems(2) s by auto
  show ?case
  proof (cases "(f, r) = (g, q)")
    case True
    have "map_of kvs' g = None" using fresh by (simp add: map_of_eq_None_iff)
    with True parts show ?thesis by (auto split: option.splits)
  next
    case False
    then have "(f, r) \<in> set shp" using Cons.prems(3) s by auto
    moreover from this have "f \<noteq> g" using Cons.prems(2) s by force
    ultimately show ?thesis using Cons.IH [OF parts(2)] Cons.prems(2) parts(3) by (auto split: option.splits)
  qed
qed simp

definition stable :: "reader \<Rightarrow> bool" where
  "stable r \<longleftrightarrow> (\<forall>x y. r x = Inr y \<longrightarrow> r y = Inr y)"

definition keeps_value :: "reader \<Rightarrow> bool" where
  "keeps_value r \<longleftrightarrow> (\<forall>x y. r x = Inr y \<longrightarrow> y = x)"

named_theorems reader_intros

lemma keeps_value_stable: "keeps_value r \<Longrightarrow> stable r"
  unfolding keeps_value_def stable_def by blast

lemma build_again:
  assumes "build shp source = Inr kvs" and "distinct (List.map fst shp)" and "list_all (\<lambda>(f, r). stable r) shp"
    and "\<And>f. f \<in> set (List.map fst shp) \<Longrightarrow> field w f = map_of kvs f"
  shows "build shp w = Inr kvs"
  using assms
proof (induction shp arbitrary: kvs)
  case (Cons s shp)
  obtain g q where s: "s = (g, q)" by fastforce
  with Cons.prems(1) obtain x kvs' where parts: "q (field source g) = Inr x" "build shp source = Inr kvs'"
    "kvs = (case x of Some v \<Rightarrow> (g, v) # kvs' | None \<Rightarrow> kvs')"
    by (auto simp: bind_ok)
  have fresh: "g \<notin> fst ` set kvs'" using build_names [OF parts(2)] Cons.prems(2) s by auto
  then have "map_of kvs' g = None" by (simp add: map_of_eq_None_iff)
  then have "field w g = x" using Cons.prems(4) [of g] s parts(3) by (auto split: option.splits)
  then have "q (field w g) = Inr x" using Cons.prems(3) s parts(1) by (auto simp: stable_def)
  moreover have "build shp w = Inr kvs'"
  proof (rule Cons.IH [OF parts(2)])
    fix f
    assume f: "f \<in> set (List.map fst shp)"
    then have "f \<noteq> g" using Cons.prems(2) s by auto
    with f Cons.prems(4) [of f] s parts(3) show "field w f = map_of kvs' f" by (auto split: option.splits)
  qed (use Cons.prems s in auto)
  ultimately show ?case using s parts(3) by simp
qed simp

lemma typed_object_parts:
  assumes "typed_object code shp v = Inr w"
  obtains source kvs where "v = Some source" "is_record source" "build shp source = Inr kvs" "w = JObj kvs"
  using assms by (auto simp: typed_object_def object_value_def bind_ok split: option.splits if_splits)

lemma typed_object_field:
  assumes "typed_object code shp v = Inr w" and "distinct (List.map fst shp)" and "(f, r) \<in> set shp"
  shows "is_record w" and "\<exists>x. r x = Inr (field w f)"
proof -
  obtain source kvs where "build shp source = Inr kvs" "w = JObj kvs" using assms(1) by (rule typed_object_parts)
  with build_field [OF _ assms(2,3)] show "is_record w" "\<exists>x. r x = Inr (field w f)" by auto
qed

lemma typed_object_again:
  assumes "typed_object code shp v = Inr w" and "distinct (List.map fst shp)" and "list_all (\<lambda>(f, r). stable r) shp"
  shows "typed_object code shp (Some w) = Inr w"
proof -
  obtain source kvs where parts: "build shp source = Inr kvs" "w = JObj kvs" using assms(1) by (rule typed_object_parts)
  have "build shp w = Inr kvs" by (rule build_again [OF parts(1) assms(2,3)]) (simp add: parts(2))
  with parts build_names [OF parts(1)] show ?thesis
    by (auto simp: typed_object_def object_value_def only_keys_def require_def)
qed

section \<open>Readers\<close>

lemma as_string_string: "as_string v = Some s \<longleftrightarrow> v = Some (JStr s)"
  by (auto elim: as_string.elims)

lemma as_int_number: "as_int v = Some n \<longleftrightarrow> v = Some (JNum n)"
  by (auto elim: as_int.elims)

lemma string_reader_ok: "string_reader code ok v = Inr y \<longleftrightarrow> (\<exists>s. v = Some (JStr s) \<and> ok s \<and> y = v)"
  by (auto simp: string_reader_def as_string_string split: option.splits if_splits)

lemma and_check_ok: "and_check r code ok v = Inr y \<longleftrightarrow> (\<exists>s x. r v = Inr x \<and> v = Some (JStr s) \<and> ok s \<and> y = v)"
  by (auto simp: and_check_def bind_ok string_reader_ok)

lemma required_integer_ok:
  "required_integer f lo hi v = Inr y \<longleftrightarrow> (\<exists>n. v = Some (JNum n) \<and> safe_int n \<and> lo \<le> n \<and> n \<le> hi \<and> y = v)"
  by (auto simp: required_integer_def Let_def as_int_number split: option.splits if_splits)

lemma keeps_string_reader: "keeps_value (string_reader code ok)"
  by (auto simp: keeps_value_def string_reader_def split: option.splits if_splits)

lemma keeps_and_check: "keeps_value (and_check r code ok)"
  by (auto simp: keeps_value_def and_check_def bind_ok string_reader_def split: option.splits if_splits)

lemma keeps_integer: "keeps_value (required_integer f lo hi)"
  by (auto simp: keeps_value_def required_integer_def Let_def split: option.splits if_splits)

lemma keeps_boolean: "keeps_value required_boolean"
  by (auto simp: keeps_value_def required_boolean_def split: if_splits)

lemma keeps_operations: "keeps_value validate_operations"
  by (auto simp: keeps_value_def validate_operations_def split: option.splits json.splits if_splits)

lemma keeps_named:
  "keeps_value (required_string lo hi)" "keeps_value (bounded_identifier hi)" "keeps_value (bounded_opaque_identifier lo hi)"
  "keeps_value required_digest" "keeps_value timestamp_reader" "keeps_value (bounded_content lo)"
  "keeps_value file_type_reader" "keeps_value relative_path" "keeps_value capability_reader" "keeps_value version_reader"
  unfolding required_string_def bounded_identifier_def bounded_opaque_identifier_def required_digest_def timestamp_reader_def
    bounded_content_def file_type_reader_def relative_path_def capability_reader_def version_reader_def
  by (rule keeps_string_reader keeps_and_check)+

lemmas keeps_all = keeps_string_reader keeps_and_check keeps_integer keeps_boolean keeps_operations keeps_named

lemmas stable_all [simp, intro] = keeps_all [THEN keeps_value_stable]

lemma stable_optional [simp, intro]: "stable r \<Longrightarrow> stable (optional_reader r)"
  by (auto simp: stable_def optional_reader_def)

lemma stable_object [simp, intro]:
  "distinct (List.map fst shp) \<Longrightarrow> list_all (\<lambda>(f, r). stable r) shp \<Longrightarrow> stable (object_reader code shp)"
  by (auto simp: object_reader_def bind_ok stable_def [of "object_reader code shp"] dest: typed_object_again)

lemma map_values_again:
  "map_values g vs = Inr ws \<Longrightarrow> (\<And>v w. g v = Inr w \<Longrightarrow> g w = Inr w) \<Longrightarrow> map_values g ws = Inr ws \<and> length ws = length vs"
  by (induction vs arbitrary: ws) (auto simp: bind_ok)

lemma stable_array [intro]:
  assumes "\<And>v w. g v = Inr w \<Longrightarrow> g w = Inr w"
  shows "stable (array_reader code lo hi g)"
proof -
  have "array_reader code lo hi g y = Inr y" if ok: "array_reader code lo hi g x = Inr y" for x y
  proof -
    obtain vs ws where "x = Some (JArr vs)" "length vs \<ge> lo" "length vs \<le> hi" "map_values g vs = Inr ws" "y = Some (JArr ws)"
      using ok by (auto simp: array_reader_def bind_ok not_less split: option.splits json.splits if_splits)
    with map_values_again [of g vs ws] assms show ?thesis by (simp add: array_reader_def)
  qed
  then show ?thesis unfolding stable_def by blast
qed

lemma stable_optional_fields [simp]:
  "stable (snd (optional_integer f lo hi))" "stable (snd (optional_boolean f))" "stable (snd (optional_digest f))"
  "stable (snd (optional_timestamp f))"
  by (simp_all add: optional_integer_def optional_boolean_def optional_digest_def optional_timestamp_def)

section \<open>Payloads\<close>

lemmas shape_defs = optional_integer_def optional_boolean_def optional_digest_def optional_timestamp_def

lemma stable_edits: "stable edits_reader"
  unfolding edits_reader_def by (rule stable_array) (erule typed_object_again, simp_all)

lemma request_shape_ok: "distinct (List.map fst (request_shape op)) \<and> list_all (\<lambda>(f, r). stable r) (request_shape op)"
  by (simp add: request_shape_def shape_defs stable_edits)

lemma list_entry_shape_ok: "distinct (List.map fst list_entry_shape) \<and> list_all (\<lambda>(f, r). stable r) list_entry_shape"
  by (simp add: list_entry_shape_def shape_defs)

lemma search_match_shape_ok: "distinct (List.map fst search_match_shape) \<and> list_all (\<lambda>(f, r). stable r) search_match_shape"
  by (simp add: search_match_shape_def)

lemma result_shape_ok: "distinct (List.map fst (result_shape op)) \<and> list_all (\<lambda>(f, r). stable r) (result_shape op)"
proof -
  have "stable (array_reader result_error 0 10000 (\<lambda>v. typed_object result_error list_entry_shape (Some v)))"
    by (rule stable_array) (erule typed_object_again, simp_all add: list_entry_shape_ok)
  moreover have "stable (array_reader result_error 0 10000 (\<lambda>v. typed_object result_error search_match_shape (Some v)))"
    by (rule stable_array) (erule typed_object_again, simp_all add: search_match_shape_ok)
  ultimately show ?thesis by (simp add: result_shape_def shape_defs)
qed

lemma error_body_shape_ok: "distinct (List.map fst error_body_shape) \<and> list_all (\<lambda>(f, r). stable r) error_body_shape"
  by (simp add: error_body_shape_def)

lemma limit_shape_ok: "distinct (List.map fst limit_shape) \<and> list_all (\<lambda>(f, r). stable r) limit_shape"
  by (simp add: limit_shape_def tool_adapter_limit_bounds_def)

lemma stable_limits [simp, intro]: "stable validate_limits"
  unfolding validate_limits_def using limit_shape_ok by blast

lemma request_payload_again:
  assumes "validate_request_payload op v = Inr w"
  shows "validate_request_payload op (Some w) = Inr w"
proof -
  obtain p x kvs where parts: "build (request_shape op) p = Inr kvs" "w = JObj kvs"
    "(if op = ''fs.edit'' then edits_reader (field p ''edits'') else Inr None) = Inr x"
    using assms by (auto simp: validate_request_payload_def object_value_def bind_ok split: option.splits if_splits)
  have again: "build (request_shape op) w = Inr kvs"
    by (rule build_again [OF parts(1)]) (simp_all add: request_shape_ok parts(2))
  have "edits_reader (field w ''edits'') = Inr (field w ''edits'')" if "op = ''fs.edit''"
  proof -
    have "edits_reader (field p ''edits'') = Inr (map_of kvs ''edits'')"
      by (rule build_field [OF parts(1)]) (use that in \<open>simp_all add: request_shape_def shape_defs\<close>)
    with stable_edits show ?thesis by (simp add: stable_def parts(2))
  qed
  with again parts(2) build_names [OF parts(1)] show ?thesis
    by (auto simp: validate_request_payload_def object_value_def only_keys_def require_def)
qed

lemma result_payload_again: "validate_result_payload op v = Inr w \<Longrightarrow> validate_result_payload op (Some w) = Inr w"
  unfolding validate_result_payload_def using typed_object_again result_shape_ok by blast

lemma error_body_again: "validate_error_body v = Inr w \<Longrightarrow> validate_error_body (Some w) = Inr w"
  unfolding validate_error_body_def using typed_object_again error_body_shape_ok by blast

section \<open>Frames\<close>

lemma build_cong: "(\<And>f. f \<in> set (List.map fst shp) \<Longrightarrow> field w f = field m f) \<Longrightarrow> build shp w = build shp m"
  by (induction shp) auto

lemma build_kept:
  assumes "build shp m = Inr kvs" and "distinct (List.map fst shp)" and "list_all (\<lambda>(f, r). keeps_value r) shp"
    and "f \<in> set (List.map fst shp)"
  shows "map_of kvs f = field m f"
proof -
  obtain r where r: "(f, r) \<in> set shp" using assms(4) by auto
  with build_field [OF assms(1,2) r] assms(3) show ?thesis by (auto simp: keeps_value_def list_all_iff)
qed

lemma wire_identity_cong:
  assumes "\<And>f. f \<in> set common_keys \<Longrightarrow> field w f = field m f"
  shows "validate_wire_identity w expected = validate_wire_identity m expected"
  unfolding validate_wire_identity_def by (simp add: assms common_keys_def cong: if_cong)

definition identity_keys :: "string list" where
  "identity_keys = [''protocolVersion'', ''adapterId'', ''adapterVersion'', ''hostInstanceId'', ''sessionId'', ''generation'']"

lemma wire_identity_fields:
  assumes "validate_wire_identity m expected = Inr identity"
  shows "set (List.map fst identity) \<subseteq> set identity_keys"
    and "f \<in> set identity_keys \<Longrightarrow> map_of identity f = field m f"
proof -
  obtain version adapter session generation where b:
    "build [(''protocolVersion'', version_reader)] m = Inr version"
    "build [(''adapterId'', required_string 1 128), (''adapterVersion'', required_string 1 64)] m = Inr adapter"
    "build [(''hostInstanceId'', required_string 1 128), (''sessionId'', required_string 1 256)] m = Inr session"
    "build [(''generation'', required_integer ''generation'' 0 max_safe_integer)] m = Inr generation"
    and identity: "identity = version @ adapter @ session @ generation"
    using assms unfolding validate_wire_identity_def Let_def
    by (auto simp: bind_ok simp del: build.simps split: if_splits)
  note names = build_names [OF b(1)] build_names [OF b(2)] build_names [OF b(3)] build_names [OF b(4)]
  from names show "set (List.map fst identity) \<subseteq> set identity_keys"
    by (auto simp: identity identity_keys_def)
  note kept = build_kept [OF b(1)] build_kept [OF b(2)] build_kept [OF b(3)] build_kept [OF b(4)]
  have none: "map_of version f = None" if "f \<noteq> ''protocolVersion''" for f
    using names(1) that by (auto simp: map_of_eq_None_iff)
  have none2: "map_of adapter f = None" if "f \<notin> {''adapterId'', ''adapterVersion''}" for f
    using names(2) that by (auto simp: map_of_eq_None_iff)
  have none3: "map_of session f = None" if "f \<notin> {''hostInstanceId'', ''sessionId''}" for f
    using names(3) that by (auto simp: map_of_eq_None_iff)
  have none4: "map_of generation f = None" if "f \<noteq> ''generation''" for f
    using names(4) that by (auto simp: map_of_eq_None_iff)
  have pick: "map_of identity f = (case map_of version f of Some x \<Rightarrow> Some x | None \<Rightarrow>
      (case map_of adapter f of Some x \<Rightarrow> Some x | None \<Rightarrow>
      (case map_of session f of Some x \<Rightarrow> Some x | None \<Rightarrow> map_of generation f)))" for f
    by (simp add: identity map_add_def split: option.split)
  show "map_of identity f = field m f" if f: "f \<in> set identity_keys"
  proof -
    from f have "f = ''protocolVersion'' \<or> f \<in> {''adapterId'', ''adapterVersion''}
        \<or> f \<in> {''hostInstanceId'', ''sessionId''} \<or> f = ''generation''"
      by (simp only: identity_keys_def list.set insert_iff empty_iff simp_thms disj_assoc)
    then show ?thesis
    proof (elim disjE)
      assume 1: "f = ''protocolVersion''"
      then have "map_of version f = field m f" by (intro kept(1)) (simp_all add: keeps_all)
      with 1 none2 [of f] none3 [of f] none4 [of f] show ?thesis by (simp add: pick split: option.split)
    next
      assume 2: "f \<in> {''adapterId'', ''adapterVersion''}"
      then have "map_of adapter f = field m f" by (intro kept(2)) (simp_all add: keeps_all)
      moreover from 2 have "map_of session f = None" "map_of generation f = None" "map_of version f = None"
        by (auto intro!: none none3 none4)
      ultimately show ?thesis by (simp add: pick split: option.split)
    next
      assume 3: "f \<in> {''hostInstanceId'', ''sessionId''}"
      then have "map_of session f = field m f" by (intro kept(3)) (simp_all add: keeps_all)
      moreover from 3 have "map_of adapter f = None" "map_of generation f = None" "map_of version f = None"
        by (auto intro!: none none2 none4)
      ultimately show ?thesis by (simp add: pick split: option.split)
    next
      assume 4: "f = ''generation''"
      then have "map_of generation f = field m f" by (intro kept(4)) (simp_all add: keeps_all)
      with 4 none [of f] none2 [of f] none3 [of f] show ?thesis by (simp add: pick split: option.split)
    qed
  qed
qed

end
