(* ===== verification/FrameLaws.thy ===== *)
theory FrameLaws
  imports CommandLaws
begin

text \<open>
  Parsing the frame that parsing gave: every kind of frame is rebuilt from the fields of its own kind, and
  these are read again as they were rebuilt.
\<close>

text \<open>
  A parser \<open>p\<close> of a kind's own fields \<open>K\<close> gives a frame whose fields after the head are among \<open>K\<close>, and gives
  the same frame from any message with these fields.
\<close>

definition rebuilds :: "string list \<Rightarrow> (json \<Rightarrow> json result) \<Rightarrow> (string \<times> json) list \<Rightarrow> json \<Rightarrow> bool" where
  "rebuilds K p head w \<longleftrightarrow>
     (\<exists>rest. w = JObj (head @ rest) \<and> set (List.map fst rest) \<subseteq> set K
        \<and> (\<forall>w'. (\<forall>f \<in> set K. field w' f = map_of rest f) \<longrightarrow> p w' = Inr w))"

lemma rebuildsI:
  assumes "w = JObj (head @ rest)" and "set (List.map fst rest) \<subseteq> set K"
    and "\<And>w'. (\<And>f. f \<in> set K \<Longrightarrow> field w' f = map_of rest f) \<Longrightarrow> p w' = Inr w"
  shows "rebuilds K p head w"
  unfolding rebuilds_def using assms by blast

definition own_keys :: "string \<Rightarrow> string list" where
  "own_keys kind = drop (length common_keys) (frame_keys kind)"

lemma frame_keys_own: "set (frame_keys kind) = set common_keys \<union> set (own_keys kind)"
  by (simp add: frame_keys_def own_keys_def)

lemma own_keys_simps [simp]:
  "own_keys ''bind'' = [''capabilityHandle'', ''operations'', ''limits'']"
  "own_keys ''bound'' = [''operations'', ''limits'']"
  "own_keys ''invoke'' = [''requestId'', ''idempotencyKey'', ''operation'', ''payload'']"
  "own_keys ''result'' = [''requestId'', ''idempotencyKey'', ''operation'', ''ok'', ''data'', ''error'']"
  "own_keys ''abort'' = [''requestId'', ''targetRequestId'']"
  "own_keys ''aborted'' = [''requestId'', ''targetRequestId'', ''aborted'', ''error'']"
  "own_keys ''revoke'' = []" "own_keys ''revoked'' = []"
  by (simp_all add: own_keys_def frame_keys_def)

lemma own_keys_disjoint: "set (own_keys kind) \<inter> set common_keys = {}"
  by (simp add: own_keys_def frame_keys_def common_keys_def)

section \<open>The kinds\<close>

declare map_of_append [simp del]

lemma build_exact:
  assumes "build shp m = Inr kvs" and "distinct (List.map fst shp)" and "list_all (\<lambda>(f, r). stable r) shp"
  shows "set (List.map fst kvs) \<subseteq> set (List.map fst shp)"
    and "(\<And>f. f \<in> set (List.map fst shp) \<Longrightarrow> field w f = map_of kvs f) \<Longrightarrow> build shp w = Inr kvs"
  using build_names [OF assms(1)] build_again [OF assms] by blast+

lemma map_of_snoc:
  assumes "f \<notin> fst ` set ys"
  shows "map_of (xs @ ys) f = map_of xs f"
proof -
  have "map_of ys f = None" using assms by (simp add: map_of_eq_None_iff)
  then show ?thesis by (simp add: map_of_append map_add_def split: option.split)
qed

lemma map_of_later:
  assumes "f \<notin> fst ` set xs"
  shows "map_of (xs @ ys) f = map_of ys f"
proof -
  have "map_of xs f = None" using assms by (simp add: map_of_eq_None_iff)
  then show ?thesis by (simp add: map_of_append map_add_def)
qed

lemma rebuilds_abort:
  assumes "bind (build abort_head m) (\<lambda>kvs. Inr (JObj (head @ kvs))) = Inr w"
  shows "rebuilds (own_keys ''abort'') (\<lambda>m. bind (build abort_head m) (\<lambda>kvs. Inr (JObj (head @ kvs)))) head w"
proof -
  obtain kvs where kvs: "build abort_head m = Inr kvs" "w = JObj (head @ kvs)" using assms by (auto simp: bind_ok)
  have shp: "distinct (List.map fst abort_head)" "list_all (\<lambda>(f, r). stable r) abort_head"
    by (simp_all add: abort_head_def)
  note exact = build_exact [OF kvs(1) shp]
  show ?thesis
  proof (rule rebuildsI [OF kvs(2)])
    show "set (List.map fst kvs) \<subseteq> set (own_keys ''abort'')" using exact(1) by (simp add: abort_head_def)
    fix w'
    assume "\<And>f. f \<in> set (own_keys ''abort'') \<Longrightarrow> field w' f = map_of kvs f"
    then have "build abort_head w' = Inr kvs" by (intro exact(2)) (simp add: abort_head_def)
    with kvs(2) show "bind (build abort_head w') (\<lambda>kvs. Inr (JObj (head @ kvs))) = Inr w" by simp
  qed
qed

lemma rebuilds_aborted:
  assumes "parse_aborted m head = Inr w"
  shows "rebuilds (own_keys ''aborted'') (\<lambda>m. parse_aborted m head) head w"
proof -
  let ?shp = "abort_head @ [(''aborted'', required_boolean), (''error'', optional_reader (object_reader result_error error_body_shape))]"
  obtain a kvs where parts: "required_boolean (field m ''aborted'') = Inr a"
      "\<not> (a = Some (JBool True) \<and> field m ''error'' \<noteq> None)" "build ?shp m = Inr kvs" "w = JObj (head @ kvs)"
    using assms unfolding parse_aborted_def by (auto simp: bind_ok simp del: build.simps split: if_splits)
  have shp: "distinct (List.map fst ?shp)" "list_all (\<lambda>(f, r). stable r) ?shp"
    by (simp_all add: abort_head_def error_body_shape_ok)
  note exact = build_exact [OF parts(3) shp]
  have a: "a = map_of kvs ''aborted''"
    using build_field [OF parts(3) shp(1), of "''aborted''" required_boolean] parts(1) by (simp add: abort_head_def)
  have err: "map_of kvs ''error'' = None" if "field m ''error'' = None"
    using build_field [OF parts(3) shp(1), of "''error''" "optional_reader (object_reader result_error error_body_shape)"] that
    by (simp add: optional_reader_def)
  show ?thesis
  proof (rule rebuildsI [OF parts(4)])
    show "set (List.map fst kvs) \<subseteq> set (own_keys ''aborted'')" using exact(1) by (simp add: abort_head_def)
    fix w'
    assume w': "\<And>f. f \<in> set (own_keys ''aborted'') \<Longrightarrow> field w' f = map_of kvs f"
    then have "build ?shp w' = Inr kvs" by (intro exact(2)) (auto simp: abort_head_def)
    moreover have "required_boolean (field w' ''aborted'') = Inr a"
      using w' a keeps_value_stable [OF keeps_boolean] parts(1) by (simp add: stable_def)
    moreover have "\<not> (a = Some (JBool True) \<and> field w' ''error'' \<noteq> None)" using parts(2) err w' by auto
    ultimately show "parse_aborted w' head = Inr w"
      unfolding parse_aborted_def using parts(4) by (auto simp del: build.simps)
  qed
qed

lemma rebuilds_contract:
  assumes "parse_contract kind m before expected = Inr w"
  obtains contract where "w = JObj (before @ contract)" "set (List.map fst contract) \<subseteq> {''operations'', ''limits''}"
    and "\<And>w'. field w' ''operations'' = map_of contract ''operations'' \<Longrightarrow> field w' ''limits'' = map_of contract ''limits'' \<Longrightarrow>
      parse_contract kind w' before expected = Inr w"
proof -
  let ?shp = "[(''operations'', validate_operations), (''limits'', validate_limits)]"
  have shp: "distinct (List.map fst ?shp)" "list_all (\<lambda>(f, r). stable r) ?shp" by simp_all
  obtain contract where c: "build ?shp m = Inr contract"
    using assms unfolding parse_contract_def by (auto simp: bind_ok simp del: build.simps)
  note exact = build_exact [OF c shp]
  have rest: "parse_contract kind w' before expected = Inr w" if "build ?shp w' = Inr contract" for w'
    using assms c that unfolding parse_contract_def by (simp del: build.simps)
  have "w = JObj (before @ contract)"
    using assms c unfolding parse_contract_def Let_def by (auto simp: bind_ok simp del: build.simps split: if_splits)
  moreover have "set (List.map fst contract) \<subseteq> {''operations'', ''limits''}" using exact(1) by simp
  moreover have "parse_contract kind w' before expected = Inr w"
    if "field w' ''operations'' = map_of contract ''operations''" "field w' ''limits'' = map_of contract ''limits''" for w'
    by (rule rest, rule exact(2)) (use that in auto)
  ultimately show thesis using that by blast
qed

lemma rebuilds_bound:
  assumes "parse_contract ''bound'' m head expected = Inr w"
  shows "rebuilds (own_keys ''bound'') (\<lambda>m. parse_contract ''bound'' m head expected) head w"
proof -
  obtain contract where c: "w = JObj (head @ contract)" "set (List.map fst contract) \<subseteq> {''operations'', ''limits''}"
    "\<And>w'. field w' ''operations'' = map_of contract ''operations'' \<Longrightarrow> field w' ''limits'' = map_of contract ''limits'' \<Longrightarrow>
      parse_contract ''bound'' w' head expected = Inr w"
    using rebuilds_contract [OF assms] by blast
  show ?thesis by (rule rebuildsI [OF c(1)]) (use c(2,3) in auto)
qed

lemma rebuilds_bind:
  assumes "parse_bind m head expected = Inr w"
  shows "rebuilds (own_keys ''bind'') (\<lambda>m. parse_bind m head expected) head w"
proof -
  let ?shp = "[(''capabilityHandle'', capability_reader)]"
  let ?differs = "\<lambda>cap. case expected of
      Some d \<Rightarrow> map_of cap ''capabilityHandle'' \<noteq> field (the (field d ''binding'')) ''capabilityHandle'' | None \<Rightarrow> False"
  obtain cap where cap: "build ?shp m = Inr cap" "\<not> ?differs cap"
      "parse_contract ''bind'' m (head @ cap) expected = Inr w"
    using assms unfolding parse_bind_def by (auto simp: bind_ok simp del: build.simps split: if_splits)
  have shp: "distinct (List.map fst ?shp)" "list_all (\<lambda>(f, r). stable r) ?shp" by simp_all
  note exact = build_exact [OF cap(1) shp]
  obtain contract where c: "w = JObj ((head @ cap) @ contract)" "set (List.map fst contract) \<subseteq> {''operations'', ''limits''}"
    "\<And>w'. field w' ''operations'' = map_of contract ''operations'' \<Longrightarrow> field w' ''limits'' = map_of contract ''limits'' \<Longrightarrow>
      parse_contract ''bind'' w' (head @ cap) expected = Inr w"
    using rebuilds_contract [OF cap(3)] by blast
  have fields: "map_of (cap @ contract) ''capabilityHandle'' = map_of cap ''capabilityHandle''"
    "map_of (cap @ contract) ''operations'' = map_of contract ''operations''"
    "map_of (cap @ contract) ''limits'' = map_of contract ''limits''"
    using c(2) exact(1) by (auto intro!: map_of_snoc map_of_later)
  show ?thesis
  proof (rule rebuildsI)
    show "w = JObj (head @ (cap @ contract))" using c(1) by simp
    show "set (List.map fst (cap @ contract)) \<subseteq> set (own_keys ''bind'')" using c(2) exact(1) by auto
    fix w'
    assume w': "\<And>f. f \<in> set (own_keys ''bind'') \<Longrightarrow> field w' f = map_of (cap @ contract) f"
    have "build ?shp w' = Inr cap" by (rule exact(2)) (use w' fields in auto)
    moreover have "parse_contract ''bind'' w' (head @ cap) expected = Inr w" by (rule c(3)) (use w' fields in auto)
    ultimately show "parse_bind w' head expected = Inr w"
      unfolding parse_bind_def using cap(2) by (simp del: build.simps)
  qed
qed

text \<open>What invocations and results share: the request's identifiers and the operation.\<close>

lemma request_head_ok: "distinct (List.map fst request_head)" "list_all (\<lambda>(f, r). stable r) request_head"
  by (simp_all add: request_head_def)

lemma operation_again: "validate_operation v expected = Inr x \<Longrightarrow> v = Some x"
  by (cases v) (auto simp: validate_operation_def is_neutral_operation_def split: if_splits)

lemma request_fields:
  assumes "build request_head m = Inr request" and "f \<noteq> ''requestId''" and "f \<noteq> ''idempotencyKey''"
  shows "map_of (request @ rest) f = map_of rest f"
  by (rule map_of_later) (use build_exact(1) [OF assms(1) request_head_ok] assms(2,3) in \<open>auto simp: request_head_def\<close>)

lemma request_again:
  assumes "build request_head m = Inr request" and "''requestId'' \<notin> fst ` set rest" and "''idempotencyKey'' \<notin> fst ` set rest"
    and "field w' ''requestId'' = map_of (request @ rest) ''requestId''"
    and "field w' ''idempotencyKey'' = map_of (request @ rest) ''idempotencyKey''"
  shows "build request_head w' = Inr request"
  by (rule build_exact(2) [OF assms(1) request_head_ok]) (use assms(2-5) in \<open>auto simp: request_head_def map_of_snoc\<close>)

lemma request_names: "build request_head m = Inr request \<Longrightarrow> set (List.map fst request) \<subseteq> {''requestId'', ''idempotencyKey''}"
  using build_exact(1) [OF _ request_head_ok] by (simp add: request_head_def)

lemma rebuilds_invoke:
  assumes "parse_invoke m head expected = Inr w"
  shows "rebuilds (own_keys ''invoke'') (\<lambda>m. parse_invoke m head expected) head w"
proof -
  obtain request operation payload where parts: "build request_head m = Inr request"
      "validate_operation (field m ''operation'') expected = Inr operation"
      "validate_request_payload (operation_name operation) (field m ''payload'') = Inr payload"
      "w = JObj (head @ request @ [(''operation'', operation), (''payload'', payload)])"
    using assms unfolding parse_invoke_def by (auto simp: bind_ok)
  let ?rest = "[(''operation'', operation), (''payload'', payload)]"
  note fields = request_fields [OF parts(1), where rest = ?rest]
  show ?thesis
  proof (rule rebuildsI [OF parts(4)])
    show "set (List.map fst (request @ ?rest)) \<subseteq> set (own_keys ''invoke'')" using request_names [OF parts(1)] by auto
    fix w'
    assume w': "\<And>f. f \<in> set (own_keys ''invoke'') \<Longrightarrow> field w' f = map_of (request @ ?rest) f"
    have "build request_head w' = Inr request" by (rule request_again [OF parts(1), where rest = ?rest]) (use w' in simp_all)
    moreover have "field w' ''operation'' = Some operation" "field w' ''payload'' = Some payload"
      using w' fields [of "''operation''"] fields [of "''payload''"] by simp_all
    ultimately show "parse_invoke w' head expected = Inr w"
      using parts(2,4) operation_again [OF parts(2)] request_payload_again [OF parts(3)] by (simp add: parse_invoke_def)
  qed
qed

lemma rebuilds_result:
  assumes "parse_result m head expected = Inr w"
  shows "rebuilds (own_keys ''result'') (\<lambda>m. parse_result m head expected) head w"
proof -
  obtain request operation where parts: "build request_head m = Inr request"
      "validate_operation (field m ''operation'') expected = Inr operation"
    using assms unfolding parse_result_def by (auto simp: bind_ok)
  note op = operation_again [OF parts(2)]
  obtain b f x where rest: "w = JObj (head @ request @ [(''operation'', operation), (''ok'', JBool b), (f, x)])"
    and f: "b \<and> f = ''data'' \<and> validate_result_payload (operation_name operation) (field m ''data'') = Inr x
      \<or> \<not> b \<and> f = ''error'' \<and> validate_error_body (field m ''error'') = Inr x"
    using assms parts unfolding parse_result_def Let_def
    by (cases "field m ''ok''" rule: is_boolean.cases) (auto simp: bind_ok split: if_splits)
  let ?rest = "[(''operation'', operation), (''ok'', JBool b), (f, x)]"
  note fields = request_fields [OF parts(1), where rest = ?rest]
  show ?thesis
  proof (rule rebuildsI [OF rest])
    show "set (List.map fst (request @ ?rest)) \<subseteq> set (own_keys ''result'')" using request_names [OF parts(1)] f by auto
    fix w'
    assume w': "\<And>f. f \<in> set (own_keys ''result'') \<Longrightarrow> field w' f = map_of (request @ ?rest) f"
    have names: "''requestId'' \<notin> fst ` set ?rest" "''idempotencyKey'' \<notin> fst ` set ?rest" using f by auto
    have request: "build request_head w' = Inr request"
      by (rule request_again [OF parts(1) names]) (rule w', simp)+
    have own: "field w' k = map_of ?rest k"
      if "k \<in> set (own_keys ''result'')" "k \<noteq> ''requestId''" "k \<noteq> ''idempotencyKey''" for k
      using w' [OF that(1)] fields [OF that(2,3)] by simp
    have op': "validate_operation (field w' ''operation'') expected = Inr operation" "field w' ''ok'' = Some (JBool b)"
      using own [of "''operation''"] own [of "''ok''"] parts(2) op by simp_all
    from f show "parse_result w' head expected = Inr w"
    proof (elim disjE conjE)
      assume b: b "f = ''data''" and data: "validate_result_payload (operation_name operation) (field m ''data'') = Inr x"
      then have "field w' ''data'' = Some x" "field w' ''error'' = None"
        using own [of "''data''"] own [of "''error''"] by simp_all
      with b op' request rest result_payload_again [OF data] show ?thesis by (simp add: parse_result_def)
    next
      assume b: "\<not> b" "f = ''error''" and err: "validate_error_body (field m ''error'') = Inr x"
      then have "field w' ''error'' = Some x" "field w' ''data'' = None"
        using own [of "''data''"] own [of "''error''"] by simp_all
      with b op' request rest error_body_again [OF err] show ?thesis by (simp add: parse_result_def)
    qed
  qed
qed

section \<open>The whole frame\<close>

lemma rebuilds_plain: "rebuilds [] (\<lambda>m. Inr (JObj head)) head (JObj head)"
  by (rule rebuildsI [where rest = "[]"]) simp_all

lemma rebuilds_kind:
  assumes "parse_kind kind m head expected = Inr w" and "kind \<in> set wire_kinds"
  shows "rebuilds (own_keys kind) (\<lambda>m. parse_kind kind m head expected) head w"
proof -
  consider "kind = ''bind''" | "kind = ''bound''" | "kind = ''invoke''" | "kind = ''result''" | "kind = ''abort''"
    | "kind = ''aborted''" | "kind \<in> {''revoke'', ''revoked''}"
    using assms(2) unfolding wire_kinds_def by (simp only: list.set insert_iff empty_iff) metis
  then show ?thesis
  proof cases
    case 1
    then show ?thesis using assms(1) rebuilds_bind by (simp add: parse_kind_def)
  next
    case 2
    then show ?thesis using assms(1) rebuilds_bound by (simp add: parse_kind_def)
  next
    case 3
    then show ?thesis using assms(1) rebuilds_invoke by (simp add: parse_kind_def)
  next
    case 4
    then show ?thesis using assms(1) rebuilds_result by (simp add: parse_kind_def)
  next
    case 5
    then show ?thesis using assms(1) rebuilds_abort by (simp add: parse_kind_def)
  next
    case 6
    then show ?thesis using assms(1) rebuilds_aborted by (simp add: parse_kind_def)
  next
    case 7
    then show ?thesis using assms(1) rebuilds_plain by (auto simp: parse_kind_def)
  qed
qed

lemma message_parts:
  assumes "parse_host_tool_adapter_message m expected = Inr w"
  obtains kinds identity kind rest where "is_record m" and "build [(''kind'', required_string 1 16)] m = Inr kinds"
    and "kind = string_at kinds ''kind''" and "kind \<in> set wire_kinds"
    and "validate_wire_identity m expected = Inr identity"
    and "parse_kind kind m (identity @ kinds) expected = Inr w"
    and "w = JObj ((identity @ kinds) @ rest)" and "set (List.map fst rest) \<subseteq> set (own_keys kind)"
    and "\<And>w'. (\<And>f. f \<in> set (own_keys kind) \<Longrightarrow> field w' f = map_of rest f) \<Longrightarrow> parse_kind kind w' (identity @ kinds) expected = Inr w"
proof -
  obtain kinds identity where parts: "is_record m" "build [(''kind'', required_string 1 16)] m = Inr kinds"
    "string_at kinds ''kind'' \<in> set wire_kinds" "validate_wire_identity m expected = Inr identity"
    "parse_kind (string_at kinds ''kind'') m (identity @ kinds) expected = Inr w"
    using assms unfolding parse_host_tool_adapter_message_def Let_def
    by (auto simp: bind_ok object_value_def simp del: build.simps split: if_splits)
  show thesis
    using rebuilds_kind [OF parts(5,3)] that [OF parts(1,2) refl parts(3-5)] unfolding rebuilds_def by blast
qed

lemma common_keys_split: "set common_keys = insert ''kind'' (set identity_keys)"
  by (auto simp: common_keys_def identity_keys_def)

lemma message_head:
  assumes "build [(''kind'', required_string 1 16)] m = Inr kinds" and "validate_wire_identity m expected = Inr identity"
  shows "set (List.map fst (identity @ kinds)) \<subseteq> set common_keys"
    and "f \<in> set common_keys \<Longrightarrow> map_of (identity @ kinds) f = field m f"
proof -
  have kinds: "set (List.map fst kinds) \<subseteq> {''kind''}" "map_of kinds ''kind'' = field m ''kind''"
    using build_names [OF assms(1)] build_kept [OF assms(1)] by (simp_all add: keeps_all)
  note identity = wire_identity_fields [OF assms(2)]
  show "set (List.map fst (identity @ kinds)) \<subseteq> set common_keys"
    using kinds(1) identity(1) by (auto simp: common_keys_split)
  show "map_of (identity @ kinds) f = field m f" if "f \<in> set common_keys"
  proof (cases "f = ''kind''")
    case True
    have "''kind'' \<notin> set identity_keys" by (simp add: identity_keys_def)
    then have "''kind'' \<notin> fst ` set identity" using identity(1) by auto
    with True kinds(2) show ?thesis by (simp add: map_of_later)
  next
    case False
    then have "f \<notin> fst ` set kinds" using kinds(1) by auto
    with False that identity(2) show ?thesis by (simp add: common_keys_split map_of_snoc)
  qed
qed

end
