(* ===== verification/PathLaws.thy ===== *)
theory PathLaws
  imports ToolAdapters
begin

text \<open>Normalization of the paths an adapter's operations name: they stay below the root they are joined to.\<close>

lemma split_on_append: "split_on c (s @ c # t) = split_on c s @ split_on c t"
  by (induction s) (auto split: list.split)

lemma normal_segments_append:
  "normal_segments up acc (xs @ ys) = normal_segments up (normal_segments up acc xs) ys"
  by (induction xs arbitrary: acc) simp_all

definition plain_segments :: "string list \<Rightarrow> string list" where
  "plain_segments ws = List.filter (\<lambda>w. w \<noteq> [] \<and> w \<noteq> ''.'') ws"

lemma normal_segments_plain: "''..'' \<notin> set ws \<Longrightarrow> normal_segments up acc ws = acc @ plain_segments ws"
  by (induction ws arbitrary: acc) (auto simp: plain_segments_def)

lemma join_with_Nil: "join_with s ws = [] \<Longrightarrow> [] \<notin> set ws \<Longrightarrow> ws = []"
  by (cases "(s, ws)" rule: join_with.cases) auto

lemma join_with_append: "xs \<noteq> [] \<Longrightarrow> ys \<noteq> [] \<Longrightarrow> join_with s (xs @ ys) = join_with s xs @ s @ join_with s ys"
proof (induction xs)
  case (Cons x xs)
  then show ?case by (cases xs; cases ys) auto
qed simp

text \<open>A root as \<open>realpath\<close> gives it: absolute, normalized, without a trailing slash.\<close>

definition normal_root :: "string \<Rightarrow> bool" where
  "normal_root r \<longleftrightarrow> posix_absolute r \<and> posix_normalize r = r \<and> last r \<noteq> CHR ''/''"

lemma root_segments:
  assumes "normal_root r"
  obtains segs where "normal_segments False [] (split_on (CHR ''/'') r) = segs" "segs \<noteq> []" "r = ''/'' @ join_with ''/'' segs"
proof -
  let ?segs = "normal_segments False [] (split_on (CHR ''/'') r)"
  have r: "posix_absolute r" "posix_normalize r = r" "last r \<noteq> CHR ''/''" "r \<noteq> []"
    using assms by (auto simp: normal_root_def posix_absolute_def)
  then have "r = (if join_with ''/'' ?segs = [] then ''/'' else ''/'' @ join_with ''/'' ?segs)"
    by (auto simp: posix_normalize_def Let_def split: if_splits)
  with r(3) have "join_with ''/'' ?segs \<noteq> []" "r = ''/'' @ join_with ''/'' ?segs" by (metis last.simps)+
  moreover from this have "?segs \<noteq> []" by auto
  ultimately show thesis using that by blast
qed

lemma confined:
  assumes "normal_root r" and "relative_path_ok p"
  shows "posix_normalize (r @ ''/'' @ p) = (if p = ''.'' then r else if p = ''./'' then r @ ''/'' else r @ ''/'' @ p)"
proof -
  obtain segs where segs: "normal_segments False [] (split_on (CHR ''/'') r) = segs" "segs \<noteq> []" "r = ''/'' @ join_with ''/'' segs"
    using root_segments [OF assms(1)] .
  have p: "p \<noteq> []" "\<not> posix_absolute p" "posix_normalize p = p" "''..'' \<notin> set (split_on (CHR ''/'') p)"
    using assms(2) by (auto simp: relative_path_ok_def)
  let ?keep = "plain_segments (split_on (CHR ''/'') p)" and ?slash = "if last p = CHR ''/'' then ''/'' else []"
  have filled: "[] \<notin> set ?keep" by (simp add: plain_segments_def)
  have whole: "normal_segments False [] (split_on (CHR ''/'') (r @ ''/'' @ p)) = segs @ ?keep"
    using p(4) by (simp add: split_on_append normal_segments_append segs(1) normal_segments_plain)
  have "posix_absolute (r @ ''/'' @ p)" using assms(1) by (auto simp: normal_root_def posix_absolute_def)
  moreover have "join_with ''/'' (segs @ ?keep) \<noteq> []"
  proof -
    have "join_with ''/'' segs \<noteq> []" using segs(3) assms(1) by (auto simp: normal_root_def)
    then show ?thesis using segs(2) by (cases "?keep = []") (auto simp: join_with_append)
  qed
  ultimately have result: "posix_normalize (r @ ''/'' @ p) = ''/'' @ join_with ''/'' (segs @ ?keep) @ ?slash"
    using whole p(1) by (auto simp: posix_normalize_def Let_def)
  have itself: "p = (if ?keep = [] then if last p = CHR ''/'' then ''./'' else ''.'' else join_with ''/'' ?keep @ ?slash)"
    using p join_with_Nil [OF _ filled] by (auto simp: posix_normalize_def Let_def normal_segments_plain split: if_splits)
  show ?thesis
  proof (cases "?keep = []")
    case True
    have "p = ''./'' \<and> last p = CHR ''/'' \<or> p = ''.'' \<and> last p \<noteq> CHR ''/''"
      using itself unfolding if_P [OF True] by (cases "last p = CHR ''/''") simp_all
    with True result segs(3) show ?thesis by auto
  next
    case False
    have "p = join_with ''/'' ?keep @ ?slash" using itself unfolding if_not_P [OF False] .
    moreover have "p \<noteq> ''.''" "p \<noteq> ''./''" using False by (auto simp: plain_segments_def)
    ultimately show ?thesis using result segs(2,3) False by (simp add: join_with_append)
  qed
qed

end
