(* ===== verification/CommandClaims.thy ===== *)
theory CommandClaims
  imports FrameLaws PathLaws JournalReplay Demo
begin

text \<open>The properties of the commands and of the tool adapter's frames.\<close>

section \<open>Frames\<close>

text \<open>
  C29: what the frame parser accepts is canonical: parsing its result again, against the same descriptor,
  gives the same frame, for every kind of frame and every operation's payload, so that a frame passed
  on by one side is accepted unchanged by the other.
\<close>

theorem adapter_frames_canonical:
  assumes "parse_host_tool_adapter_message m expected = Inr w"
  shows "parse_host_tool_adapter_message w expected = Inr w"
proof -
  obtain kinds identity kind rest where parts: "is_record m" "build [(''kind'', required_string 1 16)] m = Inr kinds"
      "kind = string_at kinds ''kind''" "kind \<in> set wire_kinds" "validate_wire_identity m expected = Inr identity"
    and w: "w = JObj ((identity @ kinds) @ rest)" "set (List.map fst rest) \<subseteq> set (own_keys kind)"
    and again: "\<And>w'. (\<And>f. f \<in> set (own_keys kind) \<Longrightarrow> field w' f = map_of rest f) \<Longrightarrow>
      parse_kind kind w' (identity @ kinds) expected = Inr w"
    using message_parts [OF assms] by metis
  note head = message_head [OF parts(2,5)]
  have common: "field w f = field m f" if "f \<in> set common_keys" for f
    using head(2) [OF that] w that own_keys_disjoint [of kind] map_of_snoc [of f rest "identity @ kinds"] by auto
  have own: "field w f = map_of rest f" if "f \<in> set (own_keys kind)" for f
  proof -
    have "f \<notin> fst ` set (identity @ kinds)" using head(1) that own_keys_disjoint [of kind] by auto
    from map_of_later [OF this] show ?thesis by (simp only: w(1) field.simps)
  qed
  have "build [(''kind'', required_string 1 16)] w = Inr kinds"
    using parts(2) common by (simp add: common_keys_def)
  moreover have "validate_wire_identity w expected = Inr identity"
    using parts(5) wire_identity_cong [of w m, OF common] by simp
  moreover have "only_keys ''invalid_tool_adapter_message'' (frame_keys kind) w = Inr ()"
    using head(1) w by (auto simp: only_keys_def require_def frame_keys_own)
  moreover have "parse_kind kind w (identity @ kinds) expected = Inr w" by (rule again) (rule own)
  ultimately show ?thesis
    using parts(3,4) w(1) by (simp add: parse_host_tool_adapter_message_def object_value_def del: build.simps)
qed

definition demo_invoke :: json where
  "demo_invoke =
     JObj [(''kind'', JStr ''invoke''), (''protocolVersion'', JStr ''1.0''), (''adapterId'', JStr ''a''),
           (''adapterVersion'', JStr ''1.0.0''), (''hostInstanceId'', JStr ''h''), (''sessionId'', JStr ''s''),
           (''generation'', JNum 1), (''requestId'', JStr ''r''), (''idempotencyKey'', JStr ''k''),
           (''operation'', JStr ''fs.read''), (''payload'', JObj [(''maxBytes'', JNum 64), (''path'', JStr ''src/a'')])]"

definition demo_invoke_frame :: json where
  "demo_invoke_frame =
     JObj [(''protocolVersion'', JStr ''1.0''), (''adapterId'', JStr ''a''), (''adapterVersion'', JStr ''1.0.0''),
           (''hostInstanceId'', JStr ''h''), (''sessionId'', JStr ''s''), (''generation'', JNum 1), (''kind'', JStr ''invoke''),
           (''requestId'', JStr ''r''), (''idempotencyKey'', JStr ''k''), (''operation'', JStr ''fs.read''),
           (''payload'', JObj [(''path'', JStr ''src/a''), (''maxBytes'', JNum 64)])]"

lemma demo_characters:
  "is_alnum (CHR ''a'')" "is_alnum (CHR ''r'')" "is_alnum (CHR ''k'')" "is_digit (CHR ''1'')" "is_digit (CHR ''0'')"
  by (simp_all add: is_alnum_def is_digit_def is_lower_def is_upper_def less_eq_char_def)

definition demo_descriptor :: json where
  "demo_descriptor =
     JObj [(''adapterId'', JStr ''a''), (''adapterVersion'', JStr ''1.0.0''), (''operations'', JArr [JStr ''fs.stat'', JStr ''fs.read'']),
           (''binding'', JObj [(''hostInstanceId'', JStr ''h''), (''sessionId'', JStr ''s''), (''generation'', JNum 1)])]"

lemma demo_invoke_parsed: "expected = None \<or> expected = Some demo_descriptor \<Longrightarrow>
    parse_host_tool_adapter_message demo_invoke expected = Inr demo_invoke_frame"
  by (auto simp: demo_descriptor_def frame_identity_def parse_host_tool_adapter_message_def object_value_def demo_invoke_def required_string_def string_reader_def
      string_at_def wire_kinds_def validate_wire_identity_def version_reader_def and_check_def demo_characters semver_pattern_def
      version_number_def digits_def label_part_def has_control_characters_def required_integer_def tool_adapter_limit_bounds_def
      safe_int_def max_safe_integer_def only_keys_def require_def frame_keys_def common_keys_def parse_kind_def parse_invoke_def
      request_head_def bounded_identifier_def validate_operation_def is_neutral_operation_def neutral_tool_operations_def
      validate_request_payload_def operation_name_def request_shape_def shape_defs relative_path_def relative_path_ok_def
      posix_absolute_def posix_normalize_def optional_reader_def max_content_bytes_def demo_invoke_frame_def)

theorem adapter_frames_canonical_witness:
  "parse_host_tool_adapter_message demo_invoke None = Inr demo_invoke_frame
   \<and> parse_host_tool_adapter_message demo_invoke_frame None = Inr demo_invoke_frame"
  using demo_invoke_parsed [of None] adapter_frames_canonical [of demo_invoke None demo_invoke_frame] by blast

section \<open>Files\<close>

lemma request_path:
  assumes "validate_request_payload op v = Inr payload"
  obtains p where "field payload ''path'' = Some (JStr p)" "relative_path_ok p"
proof -
  obtain source kvs where kvs: "build (request_shape op) source = Inr kvs" "payload = JObj kvs"
    using assms by (auto simp: validate_request_payload_def bind_ok)
  have "(''path'', relative_path) \<in> set (request_shape op)" by (simp add: request_shape_def)
  from build_field [OF kvs(1) _ this] have "\<exists>x. relative_path x = Inr (map_of kvs ''path'')"
    using request_shape_ok by blast
  then show thesis
    using that kvs(2) by (auto simp: relative_path_def string_reader_ok)
qed

lemma invoke_parts:
  assumes "parse_host_tool_adapter_message m expected = Inr w" and "field w ''kind'' = Some (JStr ''invoke'')"
  obtains op payload source where "field w ''operation'' = Some (JStr op)" "field w ''payload'' = Some payload"
    "validate_operation (Some (JStr op)) expected = Inr (JStr op)" "validate_request_payload op source = Inr payload"
proof -
  obtain kinds identity kind rest where parts: "build [(''kind'', required_string 1 16)] m = Inr kinds"
      "kind = string_at kinds ''kind''" "validate_wire_identity m expected = Inr identity"
      "parse_kind kind m (identity @ kinds) expected = Inr w" "w = JObj ((identity @ kinds) @ rest)"
      "set (List.map fst rest) \<subseteq> set (own_keys kind)"
    using message_parts [OF assms(1)] by metis
  note head = message_head [OF parts(1,3)]
  have kinds: "map_of kinds ''kind'' = field m ''kind''" using build_kept [OF parts(1)] by (simp add: keeps_all)
  have "''kind'' \<notin> fst ` set rest" using parts(6) own_keys_disjoint [of kind] by (auto simp: common_keys_def)
  from map_of_snoc [OF this, of "identity @ kinds"] have "field w ''kind'' = field m ''kind''"
    using head(2) [of "''kind''"] by (simp only: parts(5) field.simps) (simp add: common_keys_def)
  with kinds assms(2) parts(2) have "kind = ''invoke''" by (simp add: string_at_def)
  with parts(4) have "parse_invoke m (identity @ kinds) expected = Inr w" by (simp add: parse_kind_def)
  then obtain request operation payload where b: "build request_head m = Inr request"
      "validate_operation (field m ''operation'') expected = Inr operation"
      "validate_request_payload (operation_name operation) (field m ''payload'') = Inr payload"
      "w = JObj ((identity @ kinds) @ request @ [(''operation'', operation), (''payload'', payload)])"
    unfolding parse_invoke_def by (auto simp: bind_ok)
  obtain op where op: "operation = JStr op"
    using b(2) operation_again [OF b(2)]
    by (auto simp: validate_operation_def is_neutral_operation_def split: if_splits option.splits elim!: as_string.elims)
  have "field w f = map_of [(''operation'', operation), (''payload'', payload)] f" if "f \<in> {''operation'', ''payload''}" for f
  proof -
    have "f \<notin> fst ` set (identity @ kinds)" "f \<noteq> ''requestId''" "f \<noteq> ''idempotencyKey''"
      using head(1) that by (auto simp: common_keys_def)
    with request_fields [OF b(1)] map_of_later show ?thesis unfolding b(4) field.simps by metis
  qed
  from this [of "''operation''"] this [of "''payload''"] that [of op payload "field m ''payload''"] show thesis
    using b(2,3) op operation_again [OF b(2)] by (simp add: operation_name_def)
qed

text \<open>
  C30: an adapter is never asked for a file outside its root, nor for an operation it was not granted: an
  invocation the parser accepts names an operation of the descriptor, and joining its path to the root
  gives the root itself or a path that continues the root, with nothing normalized away.
\<close>

theorem adapter_requests_confined:
  assumes "parse_host_tool_adapter_message m (Some d) = Inr w" and "field w ''kind'' = Some (JStr ''invoke'')"
    and "normal_root root" and "field d ''operations'' = Some (JArr granted)"
  shows "\<exists>op payload p. field w ''operation'' = Some (JStr op) \<and> JStr op \<in> set granted
    \<and> field w ''payload'' = Some payload \<and> field payload ''path'' = Some (JStr p)
    \<and> posix_normalize (root @ ''/'' @ p) = (if p = ''.'' then root else if p = ''./'' then root @ ''/'' else root @ ''/'' @ p)"
proof -
  obtain op payload source where parts: "field w ''operation'' = Some (JStr op)" "field w ''payload'' = Some payload"
      "validate_operation (Some (JStr op)) (Some d) = Inr (JStr op)" "validate_request_payload op source = Inr payload"
    using invoke_parts [OF assms(1,2)] by metis
  obtain p where p: "field payload ''path'' = Some (JStr p)" "relative_path_ok p" using request_path [OF parts(4)] .
  have "JStr op \<in> set granted" using parts(3) assms(4) by (simp add: validate_operation_def split: if_splits)
  with parts p confined [OF assms(3) p(2)] show ?thesis by blast
qed

theorem adapter_requests_confined_witness:
  "\<exists>op payload p. field demo_invoke_frame ''operation'' = Some (JStr op) \<and> JStr op \<in> set [JStr ''fs.stat'', JStr ''fs.read'']
    \<and> field demo_invoke_frame ''payload'' = Some payload \<and> field payload ''path'' = Some (JStr p)
    \<and> posix_normalize (''/srv'' @ ''/'' @ p)
      = (if p = ''.'' then ''/srv'' else if p = ''./'' then ''/srv'' @ ''/'' else ''/srv'' @ ''/'' @ p)"
proof (rule adapter_requests_confined)
  show "parse_host_tool_adapter_message demo_invoke (Some demo_descriptor) = Inr demo_invoke_frame"
    by (rule demo_invoke_parsed) simp
  show "field demo_invoke_frame ''kind'' = Some (JStr ''invoke'')" by (simp add: demo_invoke_frame_def)
  show "normal_root ''/srv''" by (simp add: normal_root_def posix_absolute_def posix_normalize_def)
  show "field demo_descriptor ''operations'' = Some (JArr [JStr ''fs.stat'', JStr ''fs.read''])" by (simp add: demo_descriptor_def)
qed

section \<open>Commands\<close>

lemma parse_command_base:
  assumes "parse_command limit v = Inr c"
  obtains version operation where "c = v" "is_record c" "field c ''protocolVersion'' = Some (JStr version)" "dotted_version version"
    "field c ''operation'' = Some (JStr operation)" "is_record_field (field c ''payload'')" "nonempty_string (field c ''requestId'')"
proof -
  have base: "validate_base v = Inr c" using assms by (auto simp: parse_command_def bind_ok Let_def)
  then obtain version request operation payload where b: "c = v" "is_record v"
      "field v ''protocolVersion'' = Some (JStr version)" "protocol_major version \<noteq> None"
      "field v ''requestId'' = Some (JStr request)" "1 \<le> length request"
      "field v ''operation'' = Some (JStr operation)" "field v ''payload'' = Some payload" "is_record payload"
    unfolding validate_base_def
    by (auto simp: bind_ok record_value_ok string_field_ok split: option.splits if_splits)
  have "dotted_version version"
    using b(4) by (auto simp: protocol_major_def dotted_version_def split: list.splits if_splits)
  moreover have "request \<noteq> []" using b(6) by auto
  ultimately show thesis using b that by (simp add: nonempty_string_def)
qed

lemma session_identity_ok:
  assumes "validate_session_identity c idem = Inr u"
  shows "nonempty_string (field c ''sessionId'')" and "safe_int_from 0 (field c ''generation'')"
    and "idem \<Longrightarrow> nonempty_string (field c ''idempotencyKey'')"
  using assms by (auto simp: validate_session_identity_def bind_ok string_field_ok integer_field_ok nonempty_string_def
      safe_int_from_def)

lemma parsed_wake:
  assumes "parse_command limit c = Inr c'" and "field c ''operation'' = Some (JStr ''wake'')"
  shows "wake_command c"
proof -
  obtain version operation where b: "c' = c" "is_record c" "nonempty_string (field c ''requestId'')"
    using parse_command_base [OF assms(1)] by metis
  have "validate_session_identity c True = Inr ()"
    using assms b(1) by (auto simp: parse_command_def bind_ok Let_def str_field_def validate_wake_def validate_base_def
        record_value_ok split: option.splits if_splits)
  from session_identity_ok [OF this] b assms(2) show ?thesis by (simp add: wake_command_def)
qed

definition no_tools :: "json \<Rightarrow> bool" where
  "no_tools payload \<longleftrightarrow>
     (case field payload ''resources'' of None \<Rightarrow> True | Some r \<Rightarrow> is_record r \<and> field r ''tools'' = Some (JStr ''none''))"

lemma parsed_open:
  assumes "parse_command limit c = Inr c'" and "field c ''operation'' = Some (JStr ''open'')" and "field c ''payload'' = Some p"
  shows "is_record p" and "nonempty_string (field c ''sessionId'')" and "safe_int_from 0 (field c ''generation'')" and "no_tools p"
proof -
  have b: "is_record_field (field c ''payload'')" using parse_command_base [OF assms(1)] by metis
  then show "is_record p" using assms(3) by simp
  have o: "validate_open c p = Inr ()"
    using assms by (auto simp: parse_command_def bind_ok Let_def str_field_def validate_base_def record_value_ok
        split: option.splits if_splits)
  then have "validate_session_identity c False = Inr ()" by (auto simp: validate_open_def bind_ok)
  from session_identity_ok [OF this] show "nonempty_string (field c ''sessionId'')" "safe_int_from 0 (field c ''generation'')"
    by simp_all
  have "validate_resources (field p ''resources'') = Inr ()"
    using o by (auto simp: validate_open_def bind_ok split: if_splits)
  then show "no_tools p"
    by (auto simp: no_tools_def validate_resources_def bind_ok record_value_ok resource_fields_def string_field_ok
        split: option.splits if_splits)
qed

text \<open>What the summary and the redaction need of the payload of an accepted \<open>open\<close>.\<close>

lemma manifest_without_adapter:
  assumes "is_record c" and "field c ''protocolVersion'' = Some (JStr version)" and "dotted_version version"
    and "nonempty_string (field c ''sessionId'')" and "safe_int_from 0 (field c ''generation'')"
    and "field c ''payload'' = Some p" and "is_record p" and "no_tools p"
    and "case conversation of None \<Rightarrow> True | Some x \<Rightarrow> valid_conversation x"
  shows "durable_tool_adapter_summary p = Inr None \<and> valid_manifest (manifest_json c None conversation created now)"
proof -
  obtain g where g: "field c ''generation'' = Some (JNum g)" "safe_int g" "0 \<le> g"
    using assms(5) by (auto simp: safe_int_from_def as_int_number split: option.splits)
  obtain s where s: "field c ''sessionId'' = Some (JStr s)" "s \<noteq> []"
    using assms(4) by (auto simp: nonempty_string_def as_string_string split: option.splits)
  have tools: "\<not> is_record_field (case field p ''resources'' of Some r \<Rightarrow> field r ''tools'' | None \<Rightarrow> None)"
    using assms(8) by (auto simp: no_tools_def split: option.splits)
  then have "durable_tool_adapter_summary p = Inr None" by (simp add: durable_tool_adapter_summary_def Let_def)
  moreover have "durable_open_payload p False = p" by (auto simp: durable_open_payload_def split: option.split)
  ultimately show ?thesis
    using assms(2,3,6,7,9) g s tools
    by (cases conversation)
       (auto simp: valid_manifest_def manifest_json_def Let_def str_field_def nonempty_string_def safe_int_from_def)
qed

lemma adapter_limits:
  assumes "validate_limits v = Inr (Some l)"
  shows "is_record l" and "k \<in> set tool_adapter_limit_fields \<Longrightarrow> valid_tool_adapter_limit k (field l k)"
proof -
  have t: "typed_object ''invalid_tool_adapter_limit'' limit_shape v = Inr l"
    using assms by (auto simp: validate_limits_def object_reader_def bind_ok)
  then show "is_record l" by (rule typed_object_parts) simp
  have distinct: "distinct (List.map fst limit_shape)" using limit_shape_ok by simp
  show "valid_tool_adapter_limit k (field l k)" if k: "k \<in> set tool_adapter_limit_fields"
  proof -
    obtain lo hi where m: "map_of tool_adapter_limit_bounds k = Some (lo, hi)"
      using k by (auto simp: tool_adapter_limit_fields_def tool_adapter_limit_bounds_def)
    then have "(k, required_integer k lo hi) \<in> set limit_shape"
      using map_of_SomeD [OF m] unfolding limit_shape_def by force
    from typed_object_field(2) [OF t distinct this] m show ?thesis
      by (auto simp: required_integer_ok valid_tool_adapter_limit_def)
  qed
qed

lemma summary_limits_field:
  "k \<in> set tool_adapter_limit_fields \<Longrightarrow> valid_tool_adapter_limit k (field l k) \<Longrightarrow> field (summary_limits l) k = field l k"
  by (cases "field l k") (auto simp: summary_limits_def map_of_map_restrict valid_tool_adapter_limit_def split: option.splits)

lemma neutral_operation:
  "is_neutral_operation (Some w) = (case w of JStr s \<Rightarrow> s \<in> set neutral_tool_operations | _ \<Rightarrow> False)"
  by (cases w) (simp_all add: is_neutral_operation_def)

lemma operations_granted:
  assumes "validate_operations v = Inr y"
  shows "\<exists>ops. y = Some (JArr ops) \<and> ops \<noteq> [] \<and> distinct ops \<and> list_all (\<lambda>w. is_neutral_operation (Some w)) ops"
proof (cases v)
  case (Some w)
  with assms show ?thesis by (cases w) (auto simp: validate_operations_def split: if_splits)
qed (use assms in \<open>simp add: validate_operations_def\<close>)

lemma limits_granted: "validate_limits v = Inr y \<Longrightarrow> \<exists>l. y = Some l"
  by (auto simp: validate_limits_def object_reader_def bind_ok)

lemma adapter_id_ok: "starts_alnum ''._-'' s \<Longrightarrow> length s \<le> 128 \<Longrightarrow> adapter_id_pattern s"
  by (cases s) auto

lemma descriptor_summary:
  assumes "validate_descriptor expected v = Inr d" and "is_record p" and "is_record r"
    and "t = JObj [(''mode'', JStr ''host-adapter''), (''descriptor'', d)]"
  shows "\<exists>s. durable_tool_adapter_summary (set_field p ''resources'' (set_field r ''tools'' t)) = Inr (Some s)
    \<and> valid_tool_adapter_summary s"
proof -
  have t: "typed_object ''invalid_tool_adapter_descriptor'' (descriptor_shape expected) v = Inr d"
    using assms(1) by (auto simp: validate_descriptor_def bind_ok)
  have distinct: "distinct (List.map fst (descriptor_shape expected))" by (simp add: descriptor_shape_def)
  note read = typed_object_field(2) [OF t distinct]
  have d: "is_record d" using t by (rule typed_object_parts) simp
  have "\<exists>x. version_reader x = Inr (field d ''protocolVersion'')" by (rule read) (simp add: descriptor_shape_def)
  then have version: "field d ''protocolVersion'' = Some (JStr ''1.0'')" by (auto simp: version_reader_def and_check_ok)
  have "\<exists>x. and_check (required_string 1 128) ''invalid_tool_adapter_identity'' (starts_alnum ''._-'') x
      = Inr (field d ''adapterId'')" by (rule read) (simp add: descriptor_shape_def)
  then obtain adapter where adapter: "field d ''adapterId'' = Some (JStr adapter)" "adapter_id_pattern adapter"
    by (fastforce simp: and_check_ok required_string_def string_reader_ok intro: adapter_id_ok)
  have "\<exists>x. and_check (required_string 1 64) ''invalid_tool_adapter_identity'' semver_pattern x
      = Inr (field d ''adapterVersion'')" by (rule read) (simp add: descriptor_shape_def)
  then obtain release where release: "field d ''adapterVersion'' = Some (JStr release)" "semver_pattern release"
    by (auto simp: and_check_ok)
  have "\<exists>x. validate_operations x = Inr (field d ''operations'')" by (rule read) (simp add: descriptor_shape_def)
  then obtain ops where granted: "field d ''operations'' = Some (JArr ops)" "ops \<noteq> []" "distinct ops"
      "list_all (\<lambda>w. is_neutral_operation (Some w)) ops"
    using operations_granted by metis
  have "\<exists>x. validate_limits x = Inr (field d ''limits'')" by (rule read) (simp add: descriptor_shape_def)
  then obtain x l where l: "field d ''limits'' = Some l" "validate_limits x = Inr (Some l)"
    using limits_granted by metis
  note limits = adapter_limits [OF l(2)] and fields = version adapter release granted l(1)
  have identity: "adapter_identity_ok d"
    using fields by (simp add: adapter_identity_ok_def)
  have ops: "operations_ok (Some (JArr ops))"
    using granted(3,4) by (simp add: operations_ok_def neutral_operation)
  have ok: "list_all (\<lambda>k. valid_tool_adapter_limit k (field l k)) tool_adapter_limit_fields"
    using limits(2) by (simp add: list_all_iff)
  let ?s = "JObj [(''protocolVersion'', JStr ''1.0''), (''adapterId'', JStr adapter), (''adapterVersion'', JStr release),
      (''operations'', JArr ops), (''limits'', summary_limits l)]"
  have "durable_tool_adapter_summary (set_field p ''resources'' (set_field r ''tools'' t)) = Inr (Some ?s)"
    using assms(2,3) d identity ops ok fields limits(1) by (simp add: durable_tool_adapter_summary_def assms(4))
  moreover have "valid_tool_adapter_summary ?s"
  proof -
    have "list_all (\<lambda>k. valid_tool_adapter_limit k (field (summary_limits l) k)) tool_adapter_limit_fields"
      using limits(2) summary_limits_field by (simp add: list_all_iff)
    moreover have "is_record (summary_limits l)" by (simp add: summary_limits_def)
    ultimately show ?thesis
      using ops identity fields by (simp add: valid_tool_adapter_summary_def adapter_identity_ok_def)
  qed
  ultimately show ?thesis by blast
qed

text \<open>An accepted second-version \<open>open\<close>, and what the first version's parser saw of it.\<close>

lemma through_v1_open:
  assumes "validate_through_v1 opts (set_field command ''payload'' p) = Inr c" and "is_record command" and "is_record p"
    and "field command ''operation'' = Some (JStr ''open'')"
  shows "nonempty_string (field command ''sessionId'')" and "safe_int_from 0 (field command ''generation'')" and "no_tools p"
proof -
  let ?v = "set_field (set_field command ''payload'' p) ''protocolVersion'' (JStr ''1.0'')"
  have "parse_command (po_max_prompt opts) ?v = Inr c" using assms(1) by (simp add: validate_through_v1_def)
  moreover have "field ?v ''operation'' = Some (JStr ''open'')" "field ?v ''payload'' = Some p"
    "field ?v ''sessionId'' = field command ''sessionId''" "field ?v ''generation'' = field command ''generation''"
    using assms(2-4) by simp_all
  ultimately show "nonempty_string (field command ''sessionId'')" "safe_int_from 0 (field command ''generation'')" "no_tools p"
    using parsed_open by metis+
qed

lemma v2_open_cases:
  assumes "parse_v2_open opts command = Inr c"
  obtains p where "field command ''payload'' = Some p" "is_record p" "field p ''resources'' = None" "c = command"
      "\<exists>x. validate_through_v1 opts (set_field command ''payload'' p) = Inr x"
  | p r policy where "field command ''payload'' = Some p" "is_record p" "field p ''resources'' = Some r" "is_record r"
      "validated_policy opts command p r = Inr policy"
      "\<exists>x. validate_through_v1 opts (set_field command ''payload''
         (set_field p ''resources'' (set_field r ''tools'' (JStr ''none'')))) = Inr x"
      "c = set_field command ''payload'' (set_field p ''resources'' (set_field r ''tools'' policy))"
proof -
  obtain p where p: "field command ''payload'' = Some p" "is_record p"
    using assms by (auto simp: parse_v2_open_def bind_ok object_value_def split: option.splits if_splits)
  show thesis
  proof (cases "field p ''resources''")
    case None
    then have "\<exists>x. validate_through_v1 opts (set_field command ''payload'' p) = Inr x" "c = command"
      using assms p by (auto simp: parse_v2_open_def object_value_def bind_ok)
    with None p that(1) show thesis by blast
  next
    case (Some r)
    then have r: "is_record r" using assms p by (simp add: parse_v2_open_def object_value_def split: if_splits)
    then obtain policy where "validated_policy opts command p r = Inr policy"
        "\<exists>x. validate_through_v1 opts (set_field command ''payload''
           (set_field p ''resources'' (set_field r ''tools'' (JStr ''none'')))) = Inr x"
        "c = set_field command ''payload'' (set_field p ''resources'' (set_field r ''tools'' policy))"
      using assms p Some by (auto simp: parse_v2_open_def object_value_def bind_ok)
    with Some r p that(2) show thesis by blast
  qed
qed

lemma validated_policy_cases:
  assumes "validated_policy opts command p r = Inr policy"
  obtains "policy = JStr ''none''"
  | d v where "validate_descriptor (expected_binding opts command) v = Inr d"
      "policy = JObj [(''mode'', JStr ''host-adapter''), (''descriptor'', d)]"
  using assms unfolding validated_policy_def by (auto simp: bind_ok split: if_splits)

lemma manifest_with_adapter:
  assumes "field c ''protocolVersion'' = Some (JStr version)" and "dotted_version version"
    and "nonempty_string (field c ''sessionId'')" and "safe_int_from 0 (field c ''generation'')"
    and "field c ''payload'' = Some p" and "is_record p" and "field p ''resources'' = Some r" and "is_record r"
    and "valid_tool_adapter_summary s"
    and "case conversation of None \<Rightarrow> True | Some x \<Rightarrow> valid_conversation x"
  shows "valid_manifest (manifest_json c (Some s) conversation created now)"
proof -
  obtain g where g: "field c ''generation'' = Some (JNum g)" "safe_int g" "0 \<le> g"
    using assms(4) by (auto simp: safe_int_from_def as_int_number split: option.splits)
  obtain sid where sid: "field c ''sessionId'' = Some (JStr sid)" "sid \<noteq> []"
    using assms(3) by (auto simp: nonempty_string_def as_string_string split: option.splits)
  have "durable_open_payload p True = set_field p ''resources'' (set_field r ''tools'' (JStr ''none''))"
    using assms(7) by (simp add: durable_open_payload_def)
  then show ?thesis
    using assms g sid
    by (cases conversation)
       (auto simp: valid_manifest_def manifest_json_def Let_def str_field_def nonempty_string_def safe_int_from_def)
qed

lemma second_open_durable:
  assumes "parse_v2_open opts command = Inr c" and "is_record command" and "field command ''operation'' = Some (JStr ''open'')"
    and "field command ''protocolVersion'' = Some (JStr version)" and "dotted_version version"
    and "case conversation of None \<Rightarrow> True | Some x \<Rightarrow> valid_conversation x"
  shows "\<exists>s. durable_tool_adapter_summary (the (field c ''payload'')) = Inr s
    \<and> valid_manifest (manifest_json c s conversation created now)"
  using assms(1)
proof (cases rule: v2_open_cases)
  case (1 p)
  then obtain x where x: "validate_through_v1 opts (set_field command ''payload'' p) = Inr x" by blast
  note facts = through_v1_open [OF x assms(2) 1(2) assms(3)]
  from manifest_without_adapter [OF assms(2,4,5) facts(1,2) 1(1,2) facts(3) assms(6)] show ?thesis
    using 1(1,4) by auto
next
  case (2 p r policy)
  let ?p = "\<lambda>t. set_field p ''resources'' (set_field r ''tools'' t)"
  obtain x where x: "validate_through_v1 opts (set_field command ''payload'' (?p (JStr ''none''))) = Inr x" using 2(6) by blast
  have p: "is_record (?p t)" for t using 2(2) by simp
  note facts = through_v1_open [OF x assms(2) p assms(3)]
  have c: "is_record c" "field c ''payload'' = Some (?p policy)" "field c ''protocolVersion'' = Some (JStr version)"
    "field c ''sessionId'' = field command ''sessionId''" "field c ''generation'' = field command ''generation''"
    using assms(2,4) by (simp_all add: 2(7))
  from 2(5) show ?thesis
  proof (cases rule: validated_policy_cases)
    case 1
    with facts(3) have "no_tools (?p policy)" by simp
    from manifest_without_adapter [OF c(1,3) assms(5) facts(1,2) [folded c(4,5)] c(2) p this assms(6)] show ?thesis
      using c(2) by auto
  next
    case (2 d v)
    obtain s where s: "durable_tool_adapter_summary (?p policy) = Inr (Some s)" "valid_tool_adapter_summary s"
      using descriptor_summary [OF 2(1) \<open>is_record p\<close> \<open>is_record r\<close> 2(2)] by blast
    have "field (?p policy) ''resources'' = Some (set_field r ''tools'' policy)" "is_record (set_field r ''tools'' policy)"
      using \<open>is_record p\<close> \<open>is_record r\<close> by simp_all
    from manifest_with_adapter [OF c(3) assms(5) facts(1,2) [folded c(4,5)] c(2) p this s(2) assms(6)] show ?thesis
      using s(1) c(2) by auto
  qed
qed

lemma digit_not_dot: "digits d \<Longrightarrow> CHR ''.'' \<notin> set d"
  by (auto simp: digits_def list_all_iff is_digit_def less_eq_char_def)

lemma dotted_second: "digits d \<Longrightarrow> dotted_version (''2.'' @ d)"
  using split_on_nosep [OF digit_not_dot, of d] by (simp add: dotted_version_def digits_def is_digit_def less_eq_char_def)

lemma second_version_dotted:
  assumes "second_version s"
  shows "dotted_version s"
proof -
  have "s = take 2 s @ drop 2 s" by (rule append_take_drop_id [symmetric])
  also have "\<dots> = ''2.'' @ drop 2 s" using assms by (simp only: second_version_def)
  finally have s: "s = ''2.'' @ drop 2 s" .
  have "dotted_version (''2.'' @ drop 2 s)" by (rule dotted_second) (use assms in \<open>simp only: second_version_def\<close>)
  then show ?thesis by (simp only: s [symmetric])
qed

text \<open>
  C31: every command a server accepts can be made durable: an accepted \<open>wake\<close>, of either protocol version,
  gives a journal entry that every later process can load, and for an accepted \<open>open\<close> the policy can be
  redacted and the manifest passes the validator that reads it back.
\<close>

theorem accepted_commands_durable:
  assumes "parse_supported_command opts v = Inr c"
    and "case conversation of None \<Rightarrow> True | Some x \<Rightarrow> valid_conversation x" and "digests_ok P"
  shows "(field c ''operation'' = Some (JStr ''wake'') \<longrightarrow> validate_journal_entry (entry_json (new_entry P io c)) = Inr ())
    \<and> (field c ''operation'' = Some (JStr ''open'') \<longrightarrow>
        (\<exists>s. durable_tool_adapter_summary (the (field c ''payload'')) = Inr s
           \<and> valid_manifest (manifest_json c s conversation created now)))"
proof -
  have entry: "validate_journal_entry (entry_json (new_entry P io c)) = Inr ()" if "wake_command c"
    using valid_new [OF that assms(3), of io] by (simp add: valid_entry_json validate_journal_entry_def)
  consider "parse_command (po_max_prompt opts) v = Inr c" | "parse_protocol_v2_command opts v = Inr c"
    using assms(1) by (auto simp: parse_supported_command_def bind_ok split: if_splits)
  then show ?thesis
  proof cases
    case 1
    obtain version where b: "c = v" "is_record c" "field c ''protocolVersion'' = Some (JStr version)" "dotted_version version"
        "is_record_field (field c ''payload'')"
      using parse_command_base [OF 1] by metis
    obtain p where p: "field c ''payload'' = Some p" "is_record p" using b(5) by (cases "field c ''payload''") auto
    have "wake_command c" if "field c ''operation'' = Some (JStr ''wake'')"
      using parsed_wake 1 b(1) that by blast
    moreover have "durable_tool_adapter_summary p = Inr None \<and> valid_manifest (manifest_json c None conversation created now)"
      if "field c ''operation'' = Some (JStr ''open'')"
    proof -
      note facts = parsed_open [OF 1 [folded b(1)] that p(1)]
      show ?thesis by (rule manifest_without_adapter [OF b(2-4) facts(2,3) p facts(4) assms(2)])
    qed
    ultimately show ?thesis using entry p(1) by auto
  next
    case 2
    then obtain version where v: "is_record v" "field v ''protocolVersion'' = Some (JStr version)" "second_version version"
      by (auto simp: parse_protocol_v2_command_def bind_ok object_value_def as_string_string split: option.splits if_splits)
    note dotted = second_version_dotted [OF v(3)]
    show ?thesis
    proof (cases "field v ''operation'' = Some (JStr ''open'')")
      case True
      then have "parse_v2_open opts v = Inr c"
        using 2 v by (simp add: parse_protocol_v2_command_def object_value_def)
      note durable = second_open_durable [OF this v(1) True v(2) dotted assms(2), of created now]
      have "field c ''operation'' = Some (JStr ''open'')"
        using \<open>parse_v2_open opts v = Inr c\<close>
        by (cases rule: v2_open_cases) (use True v(1) in auto)
      with durable show ?thesis by auto
    next
      case False
      then have "bind (validate_through_v1 opts v) (\<lambda>_. Inr v) = Inr c"
        using 2 v by (simp add: parse_protocol_v2_command_def object_value_def)
      then obtain x where x: "parse_command (po_max_prompt opts) (set_field v ''protocolVersion'' (JStr ''1.0'')) = Inr x" "c = v"
        unfolding bind_ok validate_through_v1_def by blast
      have "wake_command c" if "field c ''operation'' = Some (JStr ''wake'')"
        using parsed_wake [OF x(1)] that x(2) v(1) by (simp add: wake_command_def)
      with entry False x(2) show ?thesis by simp
    qed
  qed
qed

definition demo_v1_wake :: json where
  "demo_v1_wake =
     JObj [(''protocolVersion'', JStr ''1.0''), (''operation'', JStr ''wake''), (''sessionId'', JStr ''s''),
           (''idempotencyKey'', JStr ''k''), (''requestId'', JStr ''r''), (''generation'', JNum 1),
           (''payload'', JObj [(''prompt'', JStr ''p'')])]"

definition demo_command_io :: journal_io where
  "demo_command_io =
     \<lparr>jio_ready = Inr (), jio_now = 0, jio_stamp = (\<lambda>_. 0), jio_append = (\<lambda>_. Appended), jio_rewrite = Published,
      jio_manifest = Published, jio_rm = (\<lambda>_. None)\<rparr>"

lemma demo_wake_accepted: "parse_supported_command \<lparr>po_max_prompt = None, po_host = None\<rparr> demo_v1_wake = Inr demo_v1_wake"
  by (simp add: demo_v1_wake_def parse_supported_command_def object_value_def second_version_def parse_command_def
      validate_base_def string_field_def protocol_major_def digits_def is_digit_def less_eq_char_def protocol_operations_def
      validate_wake_def validate_session_identity_def integer_field_def safe_int_def max_safe_integer_def optional_flag_def
      require_def str_field_def default_max_prompt_chars_def)

theorem accepted_commands_durable_witness:
  "validate_journal_entry (entry_json (new_entry (demo_platform\<lparr>sha256_hex := (\<lambda>s. CHR ''d'' # s)\<rparr>) demo_command_io demo_v1_wake)) = Inr ()"
proof -
  have "digests_ok (demo_platform\<lparr>sha256_hex := (\<lambda>s. CHR ''d'' # s)\<rparr>)" by (simp add: digests_ok_def)
  from accepted_commands_durable [OF demo_wake_accepted, of None, OF _ this] show ?thesis
    by (simp add: demo_v1_wake_def)
qed

end
