(* ===== verification/SessionConfig.thy ===== *)
theory SessionConfig
  imports ToolAdapters
begin

text \<open>
  The configuration of a session (\<open>src/session-config.ts\<close>): \<open>parseSessionConfiguration\<close> with its field
  validators, which rebuild the specification that is persisted and keep the environment apart, and the
  functions over a parsed specification.  Paths are POSIX paths; \<open>base\<close> is the resolved base directory.
\<close>

section \<open>Fields\<close>

definition config_error :: "string \<Rightarrow> js_error" where
  "config_error code = JsError SessionConfigurationError code False"

definition invalid_spec :: js_error where
  "invalid_spec = config_error ''invalid_session_spec''"

record config_limits =
  max_env_entries :: nat
  max_env_value_bytes :: nat
  max_env_total_bytes :: nat
  max_resource_paths :: nat
  max_settings_depth :: nat
  max_settings_properties :: nat
  max_settings_string_bytes :: nat

definition default_config_limits :: config_limits where
  "default_config_limits =
     \<lparr>max_env_entries = 256, max_env_value_bytes = 65536, max_env_total_bytes = 262144, max_resource_paths = 128,
      max_settings_depth = 16, max_settings_properties = 512, max_settings_string_bytes = 262144\<rparr>"

text \<open>\<open>boundedString\<close>, and what is made of the string.\<close>

definition bounded_string :: "nat \<Rightarrow> json option \<Rightarrow> string result" where
  "bounded_string hi v =
     (case as_string v of
        Some s \<Rightarrow> if length s < 1 \<or> length s > hi then Inl invalid_spec else Inr s
      | None \<Rightarrow> Inl invalid_spec)"

definition text_reader :: "nat \<Rightarrow> (string \<Rightarrow> string) \<Rightarrow> reader" where
  "text_reader hi g v = bind (bounded_string hi v) (\<lambda>s. Inr (Some (JStr (g s))))"

definition policy_identifier :: "nat \<Rightarrow> reader" where
  "policy_identifier hi v =
     bind (bounded_string hi v) (\<lambda>s. if starts_alnum ''._:-'' s then Inr (Some (JStr s)) else Inl invalid_spec)"

text \<open>\<open>[...].includes(input.f)\<close> with strings only.\<close>

definition choice_reader :: "string list \<Rightarrow> reader" where
  "choice_reader choices v =
     (case as_string v of Some s \<Rightarrow> if s \<in> set choices then Inr v else Inl invalid_spec | None \<Rightarrow> Inl invalid_spec)"

definition boolean_reader :: reader where
  "boolean_reader v = (if is_boolean v then Inr v else Inl invalid_spec)"

fun bounded_strings :: "nat \<Rightarrow> json list \<Rightarrow> string list result" where
  "bounded_strings hi [] = Inr []"
| "bounded_strings hi (v # vs) =
     bind (bounded_string hi (Some v)) (\<lambda>s. bind (bounded_strings hi vs) (\<lambda>ss. Inr (s # ss)))"

definition string_array :: "nat \<Rightarrow> nat \<Rightarrow> json option \<Rightarrow> string list result" where
  "string_array max_items hi v =
     (case v of
        Some (JArr vs) \<Rightarrow> if length vs > max_items then Inl invalid_spec else bounded_strings hi vs
      | _ \<Rightarrow> Inl invalid_spec)"

definition unique_strings :: "nat \<Rightarrow> nat \<Rightarrow> json option \<Rightarrow> string list result" where
  "unique_strings max_items hi v =
     bind (string_array max_items hi v) (\<lambda>ss. if distinct ss then Inr ss else Inl invalid_spec)"

definition strings_json :: "string list \<Rightarrow> json" where
  "strings_json ss = JArr (List.map JStr ss)"

definition unique_reader :: "nat \<Rightarrow> nat \<Rightarrow> (string \<Rightarrow> string) \<Rightarrow> reader" where
  "unique_reader max_items hi g v = bind (unique_strings max_items hi v) (\<lambda>ss. Inr (Some (strings_json (List.map g ss))))"

text \<open>\<open>record\<close> and \<open>rejectUnknown\<close>.\<close>

definition config_record :: "json option \<Rightarrow> json result" where
  "config_record v = (case v of Some (JObj kvs) \<Rightarrow> Inr (JObj kvs) | _ \<Rightarrow> Inl invalid_spec)"

definition reject_unknown :: "string list \<Rightarrow> json \<Rightarrow> unit result" where
  "reject_unknown allowed v = require (set (obj_keys v) \<subseteq> set allowed) invalid_spec"

text \<open>A record of known fields, rebuilt from the first field to the last.\<close>

definition config_object :: "shape \<Rightarrow> string list \<Rightarrow> json option \<Rightarrow> json result" where
  "config_object shp allowed v =
     bind (config_record v) (\<lambda>input.
     bind (reject_unknown allowed input) (\<lambda>_.
     bind (build shp input) (\<lambda>kvs. Inr (JObj kvs))))"

section \<open>Paths\<close>

text \<open>\<open>path.resolve(base, p)\<close> for an absolute \<open>base\<close>.\<close>

definition resolve_path :: "string \<Rightarrow> string \<Rightarrow> string" where
  "resolve_path base p =
     (let q = (if posix_absolute p then p else base @ ''/'' @ p)
      in ''/'' @ join_with ''/'' (normal_segments False [] (split_on (CHR ''/'') q)))"

definition path_reader :: "string \<Rightarrow> reader" where
  "path_reader base = text_reader 4096 (resolve_path base)"

text \<open>\<open>git:\<close> and \<open>npm:\<close> references are kept as they are.\<close>

definition resource_reference :: "string \<Rightarrow> string \<Rightarrow> string" where
  "resource_reference cwd p = (if take 4 p = ''git:'' \<or> take 4 p = ''npm:'' then p else resolve_path cwd p)"

section \<open>Parts of the specification\<close>

definition target_modes :: "string list" where
  "target_modes = [''new'', ''continue'', ''open'', ''fork'', ''memory'']"

definition target_shape :: "string \<Rightarrow> shape" where
  "target_shape cwd =
     [(''mode'', choice_reader target_modes), (''path'', optional_reader (path_reader cwd)),
      (''sessionDir'', optional_reader (path_reader cwd)), (''sourceSession'', optional_reader (text_reader 512 id)),
      (''entryId'', optional_reader (text_reader 512 id))]"

definition parse_target :: "string \<Rightarrow> reader" where
  "parse_target cwd v =
     bind (config_object (target_shape cwd) (List.map fst (target_shape cwd)) v) (\<lambda>t.
       if field t ''mode'' = Some (JStr ''open'') \<and> field t ''path'' = None then Inl invalid_spec
       else if field t ''mode'' = Some (JStr ''fork'') \<and> field t ''sourceSession'' = None then Inl invalid_spec
       else Inr (Some t))"

definition model_shape :: shape where
  "model_shape =
     [(''provider'', optional_reader (text_reader 128 id)), (''id'', optional_reader (text_reader 256 id)),
      (''thinkingLevel'', optional_reader (choice_reader thinking_levels)),
      (''scopedModels'', optional_reader (unique_reader 128 512 id))]"

definition parse_model :: reader where
  "parse_model v = bind (config_object model_shape (List.map fst model_shape) v) (\<lambda>m. Inr (Some m))"

fun texts :: "json option \<Rightarrow> string list" where
  "texts (Some (JArr vs)) = List.map (\<lambda>v. case as_string (Some v) of Some s \<Rightarrow> s | None \<Rightarrow> []) vs"
| "texts _ = []"

text \<open>Required tools are read as unique strings, then tested as identifiers.\<close>

definition required_reader :: reader where
  "required_reader v =
     bind (unique_strings 128 128 v) (\<lambda>ss.
       if list_all (starts_alnum ''._:-'') ss then Inr (Some (strings_json ss)) else Inl invalid_spec)"

definition tools_shape :: shape where
  "tools_shape =
     [(''mode'', optional_reader (choice_reader [''default'', ''none'', ''no-builtin'', ''allowlist''])),
      (''include'', optional_reader (unique_reader 256 128 id)), (''exclude'', optional_reader (unique_reader 256 128 id)),
      (''required'', optional_reader required_reader)]"

definition tools_consistent :: "json \<Rightarrow> bool" where
  "tools_consistent t \<longleftrightarrow>
     (let required = texts (field t ''required''); mode = field t ''mode'' in
      (mode = Some (JStr ''none'') \<longrightarrow> required = [])
      \<and> set required \<inter> set (texts (field t ''exclude'')) = {}
      \<and> (mode = Some (JStr ''allowlist'') \<longrightarrow> set required \<subseteq> set (texts (field t ''include''))))"

definition parse_tools :: reader where
  "parse_tools v =
     bind (config_object tools_shape (List.map fst tools_shape) v) (\<lambda>t0.
       let t = (if field t0 ''mode'' = Some (JStr ''allowlist'') \<and> field t0 ''include'' = None
                then set_field t0 ''include'' (JArr []) else t0)
       in if tools_consistent t then Inr (Some t) else Inl invalid_spec)"

definition authorization_shape :: shape where
  "authorization_shape =
     [(''source'', policy_identifier 128), (''scope'', policy_identifier 256),
      (''ownershipGeneration'', optional_reader (policy_identifier 256))]"

definition parse_authorization :: reader where
  "parse_authorization v =
     bind (config_object authorization_shape (List.map fst authorization_shape) v) (\<lambda>a. Inr (Some a))"

definition materialization_shape :: shape where
  "materialization_shape =
     [(''source'', policy_identifier 128), (''materializationGeneration'', policy_identifier 256),
      (''digest'', optional_reader (policy_identifier 256)), (''authorization'', optional_reader parse_authorization)]"

definition parse_materialization :: reader where
  "parse_materialization v =
     bind (config_object materialization_shape (List.map fst materialization_shape) v) (\<lambda>m. Inr (Some m))"

section \<open>Resources\<close>

fun extension_flags :: "(string \<times> json) list \<Rightarrow> (string \<times> json) list result" where
  "extension_flags [] = Inr []"
| "extension_flags ((k, v) # rest) =
     bind (bounded_string 128 (Some (JStr k))) (\<lambda>_.
     bind (case v of JBool b \<Rightarrow> Inr (JBool b) | _ \<Rightarrow> bind (bounded_string 4096 (Some v)) (\<lambda>s. Inr (JStr s))) (\<lambda>w.
     bind (extension_flags rest) (\<lambda>kvs. Inr ((k, w) # kvs))))"

definition flags_reader :: reader where
  "flags_reader v =
     (case v of
        Some (JObj kvs) \<Rightarrow>
          if length kvs > 256 then Inl invalid_spec else bind (extension_flags kvs) (\<lambda>fs. Inr (Some (JObj fs)))
      | _ \<Rightarrow> Inl invalid_spec)"

definition array_text_reader :: "nat \<Rightarrow> nat \<Rightarrow> reader" where
  "array_text_reader max_items hi v = bind (string_array max_items hi v) (\<lambda>ss. Inr (Some (strings_json ss)))"

definition resource_paths :: "string list" where
  "resource_paths = [''extensions'', ''skills'', ''promptTemplates'', ''themes'']"

definition resource_switches :: "string list" where
  "resource_switches =
     [''noExtensions'', ''noSkills'', ''noPromptTemplates'', ''noThemes'', ''noContextFiles'', ''inheritInstalledPackages'']"

definition resources_shape :: "config_limits \<Rightarrow> string \<Rightarrow> shape" where
  "resources_shape L cwd =
     List.map (\<lambda>f. (f, optional_reader (unique_reader (max_resource_paths L) 4096 (resource_reference cwd)))) resource_paths
     @ List.map (\<lambda>f. (f, optional_reader boolean_reader)) resource_switches
     @ [(''systemPrompt'', optional_reader (text_reader 262144 id)),
        (''appendSystemPrompt'', optional_reader (array_text_reader 64 262144)),
        (''projectTrust'', optional_reader (choice_reader [''default'', ''approve'', ''deny''])),
        (''extensionFlags'', optional_reader flags_reader)]"

definition parse_resources :: "config_limits \<Rightarrow> string \<Rightarrow> reader" where
  "parse_resources L cwd v =
     bind (config_object (resources_shape L cwd) (List.map fst (resources_shape L cwd)) v) (\<lambda>r. Inr (Some r))"

section \<open>Settings\<close>

text \<open>
  \<open>cloneJson\<close> with its counters of properties and string bytes.  A settings value is JSON, so a number is
  finite.
\<close>

type_synonym counters = "nat \<times> nat"

definition forbidden_keys :: "string list" where
  "forbidden_keys = [''__proto__'', ''prototype'', ''constructor'']"

fun clone_json :: "config_limits \<Rightarrow> nat \<Rightarrow> json \<Rightarrow> counters \<Rightarrow> (json \<times> counters) result"
  and clone_items :: "config_limits \<Rightarrow> nat \<Rightarrow> json list \<Rightarrow> counters \<Rightarrow> (json list \<times> counters) result"
  and clone_entries :: "config_limits \<Rightarrow> nat \<Rightarrow> (string \<times> json) list \<Rightarrow> counters \<Rightarrow> ((string \<times> json) list \<times> counters) result"
where
  "clone_json L depth v (props, bytes) =
     (if depth > max_settings_depth L then Inl invalid_spec
      else case v of
        JStr s \<Rightarrow>
          if bytes + utf8_length s > max_settings_string_bytes L then Inl invalid_spec
          else Inr (v, (props, bytes + utf8_length s))
      | JArr vs \<Rightarrow> bind (clone_items L (depth + 1) vs (props, bytes)) (\<lambda>(ws, c). Inr (JArr ws, c))
      | JObj kvs \<Rightarrow> bind (clone_entries L (depth + 1) kvs (props, bytes)) (\<lambda>(ws, c). Inr (JObj ws, c))
      | _ \<Rightarrow> Inr (v, (props, bytes)))"
| "clone_items L depth [] c = Inr ([], c)"
| "clone_items L depth (v # vs) c =
     bind (clone_json L depth v c) (\<lambda>(w, c). bind (clone_items L depth vs c) (\<lambda>(ws, c). Inr (w # ws, c)))"
| "clone_entries L depth [] c = Inr ([], c)"
| "clone_entries L depth ((k, v) # kvs) (props, bytes) =
     (if k \<in> set forbidden_keys then Inl invalid_spec
      else if props + 1 > max_settings_properties L then Inl invalid_spec
      else
        bind (clone_json L depth v (props + 1, bytes)) (\<lambda>(w, c).
        bind (clone_entries L depth kvs c) (\<lambda>(ws, c). Inr ((k, w) # ws, c))))"

definition settings_reader :: "config_limits \<Rightarrow> reader" where
  "settings_reader L v =
     (case v of
        None \<Rightarrow> Inl invalid_spec
      | Some w \<Rightarrow> bind (clone_json L 0 w (0, 0)) (\<lambda>(x, _). if is_record x then Inr (Some x) else Inl invalid_spec))"

section \<open>The environment\<close>

definition environment_too_large :: js_error where
  "environment_too_large = config_error ''session_configuration_too_large''"

fun environment_key :: "string \<Rightarrow> bool" where
  "environment_key [] = False"
| "environment_key (c # cs) \<longleftrightarrow>
     (is_lower c \<or> is_upper c \<or> c = CHR ''_'') \<and> list_all (\<lambda>d. is_alnum d \<or> d = CHR ''_'') cs \<and> length (c # cs) \<le> 256"

fun environment_entries :: "config_limits \<Rightarrow> nat \<Rightarrow> (string \<times> json) list \<Rightarrow> (string \<times> string) list result" where
  "environment_entries L used [] = Inr []"
| "environment_entries L used ((k, v) # rest) =
     (if \<not> environment_key k then Inl invalid_spec
      else case as_string (Some v) of
        None \<Rightarrow> Inl invalid_spec
      | Some s \<Rightarrow>
          if utf8_length s > max_env_value_bytes L then Inl environment_too_large
          else if used + utf8_length k + utf8_length s > max_env_total_bytes L then Inl environment_too_large
          else bind (environment_entries L (used + utf8_length k + utf8_length s) rest) (\<lambda>kvs. Inr ((k, s) # kvs)))"

definition parse_environment :: "config_limits \<Rightarrow> json option \<Rightarrow> (string \<times> string) list result" where
  "parse_environment L v =
     (case v of
        None \<Rightarrow> Inr []
      | Some (JObj kvs) \<Rightarrow>
          if length kvs > max_env_entries L then Inl environment_too_large else environment_entries L 0 kvs
      | _ \<Rightarrow> Inl invalid_spec)"

section \<open>The configuration\<close>

record prepared_configuration =
  pc_spec :: json
  pc_environment :: "(string \<times> string) list"

definition environment_summary :: "(string \<Rightarrow> string \<Rightarrow> bool) \<Rightarrow> prepared_configuration \<Rightarrow> json" where
  "environment_summary collation p =
     JObj [(''keys'', strings_json (sort_by collation (List.map fst (pc_environment p)))),
           (''persistence'', JStr ''memory-only''), (''provisioned'', JBool True)]"

definition isolation_reader :: reader where
  "isolation_reader v =
     (case v of
        None \<Rightarrow> Inr (Some (JObj [(''mode'', JStr ''unisolated'')]))
      | Some _ \<Rightarrow>
          bind (config_record v) (\<lambda>i.
          bind (reject_unknown [''mode''] i) (\<lambda>_.
            if field i ''mode'' = Some (JStr ''unisolated'') then Inr (Some (JObj [(''mode'', JStr ''unisolated'')]))
            else Inl (config_error ''unsupported_session_configuration''))))"

definition spec_shape :: "config_limits \<Rightarrow> string \<Rightarrow> string \<Rightarrow> shape" where
  "spec_shape L base cwd =
     [(''cwd'', path_reader base), (''target'', parse_target cwd), (''name'', optional_reader (text_reader 128 id)),
      (''agentDir'', optional_reader (path_reader base)), (''model'', optional_reader parse_model),
      (''tools'', optional_reader parse_tools), (''resources'', optional_reader (parse_resources L cwd)),
      (''materialization'', optional_reader parse_materialization), (''settings'', optional_reader (settings_reader L)),
      (''isolation'', isolation_reader)]"

definition spec_fields :: "string list" where
  "spec_fields =
     [''cwd'', ''name'', ''agentDir'', ''target'', ''model'', ''tools'', ''resources'', ''materialization'', ''settings'',
      ''env'', ''isolation'']"

text \<open>Packages of the settings need an approved project.\<close>

definition packages_trusted :: "json \<Rightarrow> bool" where
  "packages_trusted spec \<longleftrightarrow>
     (case field spec ''settings'' of Some st \<Rightarrow> field st ''packages'' = None | None \<Rightarrow> True)
     \<or> (case field spec ''resources'' of Some r \<Rightarrow> field r ''projectTrust'' = Some (JStr ''approve'') | None \<Rightarrow> False)"

definition parse_session_configuration :: "config_limits \<Rightarrow> string \<Rightarrow> json \<Rightarrow> prepared_configuration result" where
  "parse_session_configuration L base v =
     bind (config_record (Some v)) (\<lambda>input.
     bind (reject_unknown spec_fields input) (\<lambda>_.
     bind (bounded_string 4096 (field input ''cwd'')) (\<lambda>c.
     bind (build (spec_shape L base (resolve_path base c)) input) (\<lambda>kvs.
       if \<not> packages_trusted (JObj kvs) then Inl (config_error ''unsupported_session_configuration'')
       else
         bind (parse_environment L (field input ''env'')) (\<lambda>env.
           Inr \<lparr>pc_spec = JObj kvs, pc_environment = env\<rparr>)))))"

section \<open>Functions of a parsed specification\<close>

definition opt_field :: "string \<Rightarrow> json option \<Rightarrow> string \<Rightarrow> (string \<times> json) list" where
  "opt_field k v f = opt_entry k (case v of Some w \<Rightarrow> field w f | None \<Rightarrow> None)"

definition session_open_payload_from_spec :: "json \<Rightarrow> json" where
  "session_open_payload_from_spec spec =
     (let target = field spec ''target''; resources = field spec ''resources''; model = field spec ''model'';
          mode = (case target of Some t \<Rightarrow> field t ''mode'' | None \<Rightarrow> None);
          session = (if mode = Some (JStr ''fork'') then [(''mode'', JStr ''new'')] else opt_entry ''mode'' mode)
            @ opt_field ''path'' target ''path'' @ opt_field ''sessionDir'' target ''sessionDir''
      in JObj (opt_entry ''cwd'' (field spec ''cwd'')
           @ [(''session'', JObj session),
              (''resources'', JObj ([(f, JStr ''none''). f \<leftarrow> resource_fields] @ opt_field ''systemPrompt'' resources ''systemPrompt''))]
           @ opt_entry ''name'' (field spec ''name'') @ opt_entry ''agentDir'' (field spec ''agentDir'')
           @ (case model of
                Some m \<Rightarrow>
                  (if field m ''provider'' \<noteq> None \<and> field m ''id'' \<noteq> None
                   then [(''model'', JObj (opt_entry ''provider'' (field m ''provider'') @ opt_entry ''id'' (field m ''id'')
                           @ opt_entry ''thinkingLevel'' (field m ''thinkingLevel'')))]
                   else [])
              | None \<Rightarrow> [])))"

definition require_provisioned_environment :: "json \<Rightarrow> bool \<Rightarrow> unit result" where
  "require_provisioned_environment summary has_overlay =
     require (texts (field summary ''keys'') = [] \<or> (field summary ''provisioned'' = Some (JBool True) \<and> has_overlay))
       (config_error ''credentials_required'')"

definition unprovisioned_environment_summary :: "json \<Rightarrow> json" where
  "unprovisioned_environment_summary summary =
     set_field summary ''provisioned'' (JBool (texts (field summary ''keys'') = []))"

record tool_options =
  no_tools :: "string option"
  tools_included :: "string list option"
  tools_excluded :: "string list option"

definition tool_configuration :: "json \<Rightarrow> tool_options" where
  "tool_configuration spec =
     (case field spec ''tools'' of
        None \<Rightarrow> \<lparr>no_tools = None, tools_included = None, tools_excluded = None\<rparr>
      | Some t \<Rightarrow>
          (let mode = (case as_string (field t ''mode'') of Some m \<Rightarrow> m | None \<Rightarrow> ''default'')
           in \<lparr>no_tools = (if mode = ''none'' then Some ''all'' else if mode = ''no-builtin'' then Some ''builtin'' else None),
               tools_included = (if mode = ''none'' then Some []
                                 else if mode = ''allowlist'' then Some (texts (field t ''include'')) else None),
               tools_excluded = (if field t ''exclude'' = None then None else Some (texts (field t ''exclude'')))\<rparr>))"

definition extension_flag_values :: "json \<Rightarrow> (string \<times> json) list option" where
  "extension_flag_values spec =
     (case field spec ''resources'' of
        Some r \<Rightarrow> (case field r ''extensionFlags'' of Some (JObj kvs) \<Rightarrow> Some kvs | _ \<Rightarrow> None)
      | None \<Rightarrow> None)"

definition provider_api_key_env :: "(string \<times> string list) list" where
  "provider_api_key_env =
     [(''github-copilot'', [''COPILOT_GITHUB_TOKEN'']), (''anthropic'', [''ANTHROPIC_OAUTH_TOKEN'', ''ANTHROPIC_API_KEY'']),
      (''openai'', [''OPENAI_API_KEY'']), (''azure-openai-responses'', [''AZURE_OPENAI_API_KEY'']),
      (''nvidia'', [''NVIDIA_API_KEY'']), (''deepseek'', [''DEEPSEEK_API_KEY'']), (''google'', [''GEMINI_API_KEY'']),
      (''google-vertex'', [''GOOGLE_CLOUD_API_KEY'']), (''groq'', [''GROQ_API_KEY'']), (''cerebras'', [''CEREBRAS_API_KEY'']),
      (''xai'', [''XAI_API_KEY'']), (''openrouter'', [''OPENROUTER_API_KEY'']), (''vercel-ai-gateway'', [''AI_GATEWAY_API_KEY'']),
      (''zai'', [''ZAI_API_KEY'']), (''mistral'', [''MISTRAL_API_KEY'']), (''minimax'', [''MINIMAX_API_KEY'']),
      (''minimax-cn'', [''MINIMAX_CN_API_KEY'']), (''moonshotai'', [''MOONSHOT_API_KEY'']), (''moonshotai-cn'', [''MOONSHOT_API_KEY'']),
      (''huggingface'', [''HF_TOKEN'']), (''fireworks'', [''FIREWORKS_API_KEY'']), (''together'', [''TOGETHER_API_KEY'']),
      (''opencode'', [''OPENCODE_API_KEY'']), (''opencode-go'', [''OPENCODE_API_KEY'']), (''kimi-coding'', [''KIMI_API_KEY''])]"

fun first_nonempty :: "string list \<Rightarrow> (string \<times> string) list \<Rightarrow> string option" where
  "first_nonempty [] env = None"
| "first_nonempty (n # ns) env =
     (case map_of env n of Some s \<Rightarrow> if s \<noteq> [] then Some s else first_nonempty ns env | None \<Rightarrow> first_nonempty ns env)"

definition provider_api_key_from_environment :: "string \<Rightarrow> (string \<times> string) list \<Rightarrow> string option" where
  "provider_api_key_from_environment provider env =
     (case map_of provider_api_key_env provider of None \<Rightarrow> None | Some names \<Rightarrow> first_nonempty names env)"

end
