(* ===== verification/ConfigLaws.thy ===== *)
theory ConfigLaws
  imports SessionConfig CommandLaws PathLaws
begin

text \<open>
  What reading a specification twice gives: most readers keep the value they accept, paths are resolved at
  the first reading and unchanged by the second, which may refuse them for their length or as duplicates.
\<close>

section \<open>Resolved paths\<close>

lemma normal_segments_all:
  assumes "\<forall>w \<in> set acc. Q w" and "\<forall>w \<in> set ws. w \<notin> {[], ''.'', ''..''} \<longrightarrow> Q w"
  shows "\<forall>w \<in> set (normal_segments False acc ws). Q w"
  using assms
proof (induction ws arbitrary: acc)
  case (Cons w ws)
  let ?next = "if w = [] \<or> w = ''.'' then acc else if w \<noteq> ''..'' then acc @ [w]
    else if acc \<noteq> [] \<and> last acc \<noteq> ''..'' then butlast acc else acc"
  have "\<forall>w \<in> set ?next. Q w"
    using Cons.prems in_set_butlastD by (fastforce split: if_splits)
  then have "\<forall>w \<in> set (normal_segments False ?next ws). Q w"
    by (rule Cons.IH) (use Cons.prems(2) in simp)
  then show ?case
    by simp
qed simp

lemma split_on_parts: "\<forall>w \<in> set (split_on c s). c \<notin> set w"
  by (induction c s rule: split_on.induct) (auto split: list.splits)

lemma split_on_join: "ws \<noteq> [] \<Longrightarrow> \<forall>w \<in> set ws. c \<notin> set w \<Longrightarrow> split_on c (join_with [c] ws) = ws"
  by (induction "[c]" ws rule: join_with.induct) (simp_all add: split_on_nosep split_on_app)

lemma normal_segments_again: "set ws \<inter> {[], ''.'', ''..''} = {} \<Longrightarrow> normal_segments False acc ws = acc @ ws"
  by (induction ws arbitrary: acc) auto

lemma resolve_path_shape:
  obtains segs where "resolve_path base p = ''/'' @ join_with ''/'' segs" "set segs \<inter> {[], ''.'', ''..''} = {}"
    "\<forall>w \<in> set segs. CHR ''/'' \<notin> set w"
proof -
  let ?q = "if posix_absolute p then p else base @ ''/'' @ p"
  let ?segs = "normal_segments False [] (split_on (CHR ''/'') ?q)"
  have "resolve_path base p = ''/'' @ join_with ''/'' ?segs"
    by (simp add: resolve_path_def Let_def)
  moreover have "\<forall>w \<in> set ?segs. w \<notin> {[], ''.'', ''..''}"
    by (rule normal_segments_all) auto
  then have "set ?segs \<inter> {[], ''.'', ''..''} = {}"
    by blast
  moreover have "\<forall>w \<in> set ?segs. CHR ''/'' \<notin> set w"
    by (rule normal_segments_all) (use split_on_parts in auto)
  ultimately show thesis
    by (rule that)
qed

lemma resolve_resolved [simp]: "resolve_path base' (resolve_path base p) = resolve_path base p"
proof (rule resolve_path_shape [of base p])
  fix segs
  assume segs: "resolve_path base p = ''/'' @ join_with ''/'' segs" "set segs \<inter> {[], ''.'', ''..''} = {}" "\<forall>w \<in> set segs. CHR ''/'' \<notin> set w"
  have "normal_segments False [] (split_on (CHR ''/'') (''/'' @ join_with ''/'' segs)) = segs"
  proof (cases "segs = []")
    case False
    then have "split_on (CHR ''/'') (''/'' @ join_with ''/'' segs) = [] # segs"
      using split_on_join [OF False segs(3)] by simp
    then show ?thesis
      using normal_segments_again [OF segs(2), of "[]"] by simp
  qed simp
  then have "resolve_path base' (''/'' @ join_with ''/'' segs) = ''/'' @ join_with ''/'' segs"
    unfolding resolve_path_def Let_def by (simp add: posix_absolute_def)
  then show ?thesis
    by (simp only: segs(1))
qed

lemma resolve_absolute [simp]: "resolve_path base p \<noteq> []"
  by (simp add: resolve_path_def Let_def)

lemma reference_again [simp]: "resource_reference cwd (resource_reference cwd p) = resource_reference cwd p"
proof (rule resolve_path_shape [of cwd p])
  fix segs
  assume "resolve_path cwd p = ''/'' @ join_with ''/'' segs"
  then show ?thesis
    using resolve_resolved [of cwd cwd p] by (auto simp: resource_reference_def)
qed

section \<open>Readers\<close>

lemma bounded_string_ok: "bounded_string hi v = Inr s \<longleftrightarrow> v = Some (JStr s) \<and> s \<noteq> [] \<and> length s \<le> hi"
  by (auto simp: bounded_string_def as_string_string split: option.splits if_splits)

lemma bounded_strings_ok: "bounded_strings hi vs = Inr ss \<longleftrightarrow> vs = List.map JStr ss \<and> list_all (\<lambda>s. s \<noteq> [] \<and> length s \<le> hi) ss"
proof (induction vs arbitrary: ss)
  case (Cons v vs)
  then show ?case
    by (cases ss) (auto simp: bind_ok bounded_string_ok)
qed auto

lemma bounded_string_err: "bounded_string hi v = Inl e \<Longrightarrow> e = invalid_spec"
  by (auto simp: bounded_string_def split: option.splits if_splits)

lemma bounded_strings_err: "bounded_strings hi vs = Inl e \<Longrightarrow> e = invalid_spec"
proof (induction vs)
  case (Cons v vs)
  then show ?case
    by (cases "bounded_string hi (Some v)"; cases "bounded_strings hi vs") (auto dest: bounded_string_err)
qed simp

lemma keeps_text: "keeps_value (text_reader hi id)"
  by (auto simp: keeps_value_def text_reader_def bind_ok bounded_string_ok)

lemma keeps_policy: "keeps_value (policy_identifier hi)"
  by (auto simp: keeps_value_def policy_identifier_def bind_ok bounded_string_ok split: if_splits)

lemma keeps_choice: "keeps_value (choice_reader cs)"
  by (auto simp: keeps_value_def choice_reader_def split: option.splits if_splits)

lemma keeps_flag: "keeps_value boolean_reader"
  by (auto simp: keeps_value_def boolean_reader_def split: if_splits)

lemma string_array_ok: "string_array n hi v = Inr ss \<longleftrightarrow> v = Some (strings_json ss) \<and> length ss \<le> n \<and> list_all (\<lambda>s. s \<noteq> [] \<and> length s \<le> hi) ss"
  by (auto simp: string_array_def strings_json_def bounded_strings_ok split: option.splits json.splits if_splits)

lemma keeps_unique: "keeps_value (unique_reader n hi id)"
  by (auto simp: keeps_value_def unique_reader_def unique_strings_def bind_ok string_array_ok split: if_splits)

lemma keeps_required: "keeps_value required_reader"
  by (auto simp: keeps_value_def required_reader_def unique_strings_def bind_ok string_array_ok split: if_splits)

lemma keeps_array_text: "keeps_value (array_text_reader n hi)"
  by (auto simp: keeps_value_def array_text_reader_def bind_ok string_array_ok)

lemma extension_flags_same: "extension_flags kvs = Inr fs \<Longrightarrow> fs = kvs"
  by (induction kvs arbitrary: fs) (auto simp: bind_ok bounded_string_ok split: json.splits)

lemma keeps_flags: "keeps_value flags_reader"
  by (auto simp: keeps_value_def flags_reader_def bind_ok dest: extension_flags_same split: option.splits json.splits if_splits)

lemma clone_same:
  "clone_json L depth v c = Inr (w, c') \<Longrightarrow> w = v"
  "clone_items L depth vs c = Inr (ws, c') \<Longrightarrow> ws = vs"
  "clone_entries L depth kvs c = Inr (xs, c') \<Longrightarrow> xs = kvs"
proof (induction L depth v c and L depth vs c and L depth kvs c arbitrary: w c' and ws c' and xs c'
      rule: clone_json_clone_items_clone_entries.induct)
  case (1 L depth v props bytes)
  note once = "1.prems" [unfolded clone_json.simps [of L depth v props bytes]]
  then have "\<not> depth > max_settings_depth L"
    by (auto split: if_splits)
  then show ?case
    using once "1.IH" by (cases v) (auto simp: bind_ok simp del: clone_json.simps split: if_splits)
next
  case (5 L depth k v kvs props bytes)
  then show ?case
    by (auto simp: bind_ok simp del: clone_json.simps split: if_splits)
qed (auto simp: bind_ok simp del: clone_json.simps)

lemma keeps_settings: "keeps_value (settings_reader L)"
proof -
  have "clone_json L 0 w (0, 0) = Inr (x, c) \<Longrightarrow> x = w" for w x c
    by (rule clone_same)
  then show ?thesis
    by (auto simp: keeps_value_def settings_reader_def bind_ok simp del: clone_json.simps split: option.splits if_splits)
qed

lemma stable_isolation: "stable isolation_reader"
  by (auto simp: stable_def isolation_reader_def config_record_def reject_unknown_def require_def bind_ok
      split: option.splits json.splits if_splits)

lemmas config_readers_stable [simp, intro] =
  keeps_text [THEN keeps_value_stable] keeps_policy [THEN keeps_value_stable] keeps_choice [THEN keeps_value_stable]
  keeps_flag [THEN keeps_value_stable] keeps_unique [THEN keeps_value_stable] keeps_required [THEN keeps_value_stable]
  keeps_array_text [THEN keeps_value_stable] keeps_flags [THEN keeps_value_stable] keeps_settings [THEN keeps_value_stable] stable_isolation


section \<open>A second reading\<close>

text \<open>
  \<open>resettles Q r r'\<close>: what \<open>r\<close> has given is given again by \<open>r'\<close> when it satisfies \<open>Q\<close>, and refused otherwise.
\<close>

definition resettles :: "(json option \<Rightarrow> bool) \<Rightarrow> reader \<Rightarrow> reader \<Rightarrow> bool" where
  "resettles Q r r' \<longleftrightarrow> (\<forall>x y. r x = Inr y \<longrightarrow> r' y = (if Q y then Inr y else Inl invalid_spec))"

abbreviation always :: "json option \<Rightarrow> bool" where
  "always \<equiv> \<lambda>_. True"

lemma resettlesD: "resettles Q r r' \<Longrightarrow> r x = Inr y \<Longrightarrow> r' y = (if Q y then Inr y else Inl invalid_spec)"
  by (simp add: resettles_def)

lemma resettles_stable [simp, intro]: "stable r \<Longrightarrow> resettles always r r"
  by (simp add: resettles_def stable_def)

definition if_given :: "(json option \<Rightarrow> bool) \<Rightarrow> json option \<Rightarrow> bool" where
  "if_given Q v \<longleftrightarrow> v = None \<or> Q v"

lemma resettles_optional: "resettles Q r r' \<Longrightarrow> resettles (if_given Q) (optional_reader r) (optional_reader r')"
  by (auto simp: resettles_def optional_reader_def if_given_def split: if_splits)

definition short_path :: "json option \<Rightarrow> bool" where
  "short_path v \<longleftrightarrow> (case as_string v of Some s \<Rightarrow> length s \<le> 4096 | None \<Rightarrow> False)"

lemma resettles_path: "resettles short_path (path_reader base) (path_reader base')"
  by (auto simp: resettles_def path_reader_def text_reader_def bind_ok bounded_string_ok short_path_def bounded_string_def)

definition distinct_paths :: "json option \<Rightarrow> bool" where
  "distinct_paths v \<longleftrightarrow> distinct (texts v) \<and> list_all (\<lambda>s. length s \<le> 4096) (texts v)"

lemma texts_strings [simp]: "texts (Some (strings_json ss)) = ss"
  by (induction ss) (simp_all add: strings_json_def)

lemma bounded_strings_of: "bounded_strings hi (List.map JStr ss) = (if list_all (\<lambda>s. s \<noteq> [] \<and> length s \<le> hi) ss then Inr ss else Inl invalid_spec)"
  by (induction ss) (auto simp: bounded_string_def)

lemma reference_nonempty: "p \<noteq> [] \<Longrightarrow> resource_reference cwd p \<noteq> []"
  by (simp add: resource_reference_def)

lemma resettles_unique: "resettles distinct_paths (unique_reader n 4096 (resource_reference cwd)) (unique_reader n 4096 (resource_reference cwd))"
proof -
  have "unique_reader n 4096 (resource_reference cwd) (Some (strings_json (List.map (resource_reference cwd) ss)))
      = (if distinct_paths (Some (strings_json (List.map (resource_reference cwd) ss)))
         then Inr (Some (strings_json (List.map (resource_reference cwd) ss))) else Inl invalid_spec)"
    if "length ss \<le> n" and "list_all (\<lambda>s. s \<noteq> [] \<and> length s \<le> 4096) ss" for ss
  proof -
    let ?ts = "List.map (resource_reference cwd) ss"
    have "list_all (\<lambda>s. s \<noteq> [] \<and> length s \<le> 4096) ?ts \<longleftrightarrow> list_all (\<lambda>s. length s \<le> 4096) ?ts"
      using that(2) reference_nonempty by (auto simp: list_all_iff)
    then show ?thesis
      using that(1) bounded_strings_of [of 4096 ?ts]
      by (simp add: unique_reader_def unique_strings_def string_array_def strings_json_def distinct_paths_def comp_def)
  qed
  moreover have "\<exists>ss. y = Some (strings_json (List.map (resource_reference cwd) ss)) \<and> length ss \<le> n \<and> list_all (\<lambda>s. s \<noteq> [] \<and> length s \<le> 4096) ss"
    if "unique_reader n 4096 (resource_reference cwd) x = Inr y" for x y
    using that by (auto simp: unique_reader_def unique_strings_def bind_ok string_array_ok split: if_splits)
  ultimately show ?thesis
    unfolding resettles_def by blast
qed

text \<open>A record of fields, each read again.\<close>

type_synonym field_again = "string \<times> reader \<times> reader \<times> (json option \<Rightarrow> bool)"

definition first_shape :: "field_again list \<Rightarrow> shape" where
  "first_shape ts = List.map (\<lambda>(f, r, r', Q). (f, r)) ts"

definition second_shape :: "field_again list \<Rightarrow> shape" where
  "second_shape ts = List.map (\<lambda>(f, r, r', Q). (f, r')) ts"

definition fields_settled :: "field_again list \<Rightarrow> json \<Rightarrow> bool" where
  "fields_settled ts w \<longleftrightarrow> list_all (\<lambda>(f, r, r', Q). Q (field w f)) ts"

lemma shape_names: "List.map fst (first_shape ts) = List.map fst ts" "List.map fst (second_shape ts) = List.map fst ts"
  by (auto simp: first_shape_def second_shape_def)

lemma build_settles:
  assumes "build (first_shape ts) source = Inr kvs" and "distinct (List.map fst ts)"
    and "list_all (\<lambda>(f, r, r', Q). resettles Q r r') ts" and "\<And>f. f \<in> set (List.map fst ts) \<Longrightarrow> field w f = map_of kvs f"
  shows "build (second_shape ts) w = (if fields_settled ts w then Inr kvs else Inl invalid_spec)"
  using assms
proof (induction ts arbitrary: kvs)
  case (Cons t ts)
  obtain g r r' Q where t: "t = (g, r, r', Q)"
    by (cases t) auto
  with Cons.prems(1) obtain x kvs' where parts: "r (field source g) = Inr x" "build (first_shape ts) source = Inr kvs'"
    "kvs = (case x of Some v \<Rightarrow> (g, v) # kvs' | None \<Rightarrow> kvs')"
    by (auto simp: first_shape_def bind_ok)
  have "set (List.map fst kvs') \<subseteq> set (List.map fst ts)"
    using build_names [OF parts(2)] by (simp only: shape_names)
  then have "g \<notin> fst ` set kvs'"
    using Cons.prems(2) t by auto
  then have "map_of kvs' g = None"
    by (simp add: map_of_eq_None_iff)
  then have x: "field w g = x"
    using Cons.prems(4) [of g] t parts(3) by (auto split: option.splits)
  then have head: "r' (field w g) = (if Q (field w g) then Inr x else Inl invalid_spec)"
    using resettlesD [of Q r r', OF _ parts(1)] Cons.prems(3) t by simp
  have rest: "build (second_shape ts) w = (if fields_settled ts w then Inr kvs' else Inl invalid_spec)"
  proof (rule Cons.IH [OF parts(2)])
    fix f
    assume f: "f \<in> set (List.map fst ts)"
    then have "f \<noteq> g"
      using Cons.prems(2) t by auto
    with f Cons.prems(4) [of f] t parts(3) show "field w f = map_of kvs' f"
      by (auto split: option.splits)
  qed (use Cons.prems t in auto)
  have shape: "second_shape (t # ts) = (g, r') # second_shape ts" "fields_settled (t # ts) w \<longleftrightarrow> Q (field w g) \<and> fields_settled ts w"
    by (simp_all add: second_shape_def fields_settled_def t)
  show ?case
    unfolding shape using head rest parts(3) by simp
qed (simp_all add: first_shape_def second_shape_def fields_settled_def)


lemma config_object_parts:
  assumes "config_object shp allowed v = Inr w"
  obtains kvs source where "v = Some (JObj source)" "build shp (JObj source) = Inr kvs" "w = JObj kvs"
  using assms by (auto simp: config_object_def config_record_def bind_ok split: option.splits json.splits)

lemma config_object_settles:
  assumes "config_object (first_shape ts) (List.map fst ts) v = Inr w" and "distinct (List.map fst ts)"
    and "list_all (\<lambda>(f, r, r', Q). resettles Q r r') ts"
  shows "config_object (second_shape ts) (List.map fst ts) (Some w) = (if fields_settled ts w then Inr w else Inl invalid_spec)"
proof (rule config_object_parts [OF assms(1)])
  fix kvs source
  assume parts: "v = Some (JObj source)" "build (first_shape ts) (JObj source) = Inr kvs" "w = JObj kvs"
  have "set (List.map fst kvs) \<subseteq> set (List.map fst ts)"
    using build_names [OF parts(2)] by (simp only: shape_names)
  moreover have "build (second_shape ts) w = (if fields_settled ts w then Inr kvs else Inl invalid_spec)"
    by (rule build_settles [OF parts(2) assms(2,3)]) (simp add: parts(3))
  ultimately show ?thesis
    using parts(3) by (auto simp: config_object_def config_record_def reject_unknown_def require_def)
qed

text \<open>A record read by stable readers passes as it is.\<close>

lemma stable_settled: "list_all (\<lambda>(f, r). stable r) shp \<Longrightarrow> list_all (\<lambda>(f, r, r', Q). resettles Q r r') (List.map (\<lambda>(f, r). (f, r, r, always)) shp)"
  by (auto simp: list_all_iff)

lemma config_object_again:
  assumes "config_object shp (List.map fst shp) v = Inr w" and "distinct (List.map fst shp)" and "list_all (\<lambda>(f, r). stable r) shp"
  shows "config_object shp (List.map fst shp) (Some w) = Inr w"
proof -
  let ?ts = "List.map (\<lambda>(f, r). (f, r, r, always)) shp"
  have shapes: "first_shape ?ts = shp" "second_shape ?ts = shp" "List.map fst ?ts = List.map fst shp"
    by (auto simp: first_shape_def second_shape_def comp_def case_prod_beta)
  have "fields_settled ?ts w"
    by (auto simp: fields_settled_def list_all_iff)
  with config_object_settles [of ?ts v w] stable_settled [OF assms(3)] assms(1,2) show ?thesis
    unfolding shapes by simp
qed

section \<open>The parts\<close>

lemma stable_model: "stable parse_model"
proof -
  have "config_object model_shape (List.map fst model_shape) v = Inr w \<Longrightarrow> config_object model_shape (List.map fst model_shape) (Some w) = Inr w" for v w
    by (erule config_object_again) (auto simp: model_shape_def)
  then show ?thesis
    by (auto simp: stable_def parse_model_def bind_ok)
qed

lemma stable_authorization [simp]: "stable parse_authorization"
proof -
  have "config_object authorization_shape (List.map fst authorization_shape) v = Inr w \<Longrightarrow>
      config_object authorization_shape (List.map fst authorization_shape) (Some w) = Inr w" for v w
    by (erule config_object_again) (auto simp: authorization_shape_def)
  then show ?thesis
    by (auto simp: stable_def parse_authorization_def bind_ok)
qed

lemma stable_materialization: "stable parse_materialization"
proof -
  have "config_object materialization_shape (List.map fst materialization_shape) v = Inr w \<Longrightarrow>
      config_object materialization_shape (List.map fst materialization_shape) (Some w) = Inr w" for v w
    by (erule config_object_again) (auto simp: materialization_shape_def)
  then show ?thesis
    by (auto simp: stable_def parse_materialization_def bind_ok)
qed

definition target_again :: "string \<Rightarrow> field_again list" where
  "target_again cwd =
     [(''mode'', choice_reader target_modes, choice_reader target_modes, always),
      (''path'', optional_reader (path_reader cwd), optional_reader (path_reader cwd), if_given short_path),
      (''sessionDir'', optional_reader (path_reader cwd), optional_reader (path_reader cwd), if_given short_path),
      (''sourceSession'', optional_reader (text_reader 512 id), optional_reader (text_reader 512 id), always),
      (''entryId'', optional_reader (text_reader 512 id), optional_reader (text_reader 512 id), always)]"

definition settled_target :: "json option \<Rightarrow> bool" where
  "settled_target v \<longleftrightarrow>
     (case v of Some t \<Rightarrow> if_given short_path (field t ''path'') \<and> if_given short_path (field t ''sessionDir'') | None \<Rightarrow> True)"

lemma resettles_target: "resettles settled_target (parse_target cwd) (parse_target cwd)"
  unfolding resettles_def
proof (intro allI impI)
  fix v y
  assume "parse_target cwd v = Inr y"
  then obtain t where t: "config_object (target_shape cwd) (List.map fst (target_shape cwd)) v = Inr t" "y = Some t"
    and checks: "\<not> (field t ''mode'' = Some (JStr ''open'') \<and> field t ''path'' = None)"
      "\<not> (field t ''mode'' = Some (JStr ''fork'') \<and> field t ''sourceSession'' = None)"
    by (auto simp: parse_target_def bind_ok split: if_splits)
  have shapes: "first_shape (target_again cwd) = target_shape cwd" "second_shape (target_again cwd) = target_shape cwd"
      "List.map fst (target_again cwd) = List.map fst (target_shape cwd)" "distinct (List.map fst (target_again cwd))"
    by (simp_all add: first_shape_def second_shape_def target_again_def target_shape_def)
  have "list_all (\<lambda>(f, r, r', Q). resettles Q r r') (target_again cwd)"
    by (simp add: target_again_def resettles_optional resettles_path)
  then have "config_object (target_shape cwd) (List.map fst (target_shape cwd)) (Some t) =
      (if fields_settled (target_again cwd) t then Inr t else Inl invalid_spec)"
    using config_object_settles [of "target_again cwd" v t] t(1) shapes by simp
  moreover have "fields_settled (target_again cwd) t \<longleftrightarrow> settled_target (Some t)"
    by (simp add: fields_settled_def target_again_def settled_target_def)
  ultimately show "parse_target cwd y = (if settled_target y then Inr y else Inl invalid_spec)"
    using checks t(2) by (cases "settled_target (Some t)") (auto simp: parse_target_def)
qed

text \<open>The fields of a record in the order of a shape.\<close>

definition listed :: "string list \<Rightarrow> (string \<Rightarrow> json option) \<Rightarrow> (string \<times> json) list" where
  "listed fs h = List.map_filter (\<lambda>f. map_option (Pair f) (h f)) fs"

lemma listed_simps [simp]:
  "listed [] h = []" "listed (f # fs) h = (case h f of Some v \<Rightarrow> (f, v) # listed fs h | None \<Rightarrow> listed fs h)"
  by (simp_all add: listed_def map_filter_simps split: option.split)

lemma listed_names: "set (List.map fst (listed fs h)) \<subseteq> set fs"
  by (induction fs) (auto split: option.splits)

lemma map_of_listed: "map_of (listed fs h) f = (if f \<in> set fs then h f else None)"
proof (induction fs)
  case (Cons g fs)
  then show ?case
    by (auto split: option.splits)
qed simp

lemma listed_cong: "(\<And>f. f \<in> set fs \<Longrightarrow> h f = h' f) \<Longrightarrow> listed fs h = listed fs h'"
  by (induction fs) (auto split: option.splits)

lemma build_listed:
  assumes "build shp source = Inr kvs" and "distinct (List.map fst shp)"
  shows "kvs = listed (List.map fst shp) (map_of kvs)"
  using assms
proof (induction shp arbitrary: kvs)
  case (Cons s shp)
  obtain g q where s: "s = (g, q)"
    by fastforce
  with Cons.prems(1) obtain x kvs' where parts: "build shp source = Inr kvs'" "kvs = (case x of Some v \<Rightarrow> (g, v) # kvs' | None \<Rightarrow> kvs')"
    by (auto simp: bind_ok)
  have fresh: "g \<notin> set (List.map fst shp)"
    using Cons.prems(2) s by simp
  have "map_of kvs' g = None"
    using build_names [OF parts(1)] fresh by (auto simp: map_of_eq_None_iff)
  then have "map_of kvs g = x"
    using parts(2) by (auto split: option.splits)
  moreover have "listed (List.map fst shp) (map_of kvs) = listed (List.map fst shp) (map_of kvs')"
    by (rule listed_cong) (use parts(2) fresh in \<open>auto split: option.splits\<close>)
  ultimately show ?case
    using Cons.IH [OF parts(1)] Cons.prems(2) parts(2) s by (auto split: option.splits)
qed simp

lemma build_checked:
  assumes "\<And>f r. (f, r) \<in> set shp \<Longrightarrow> r (field w f) = (if Q f then Inr (h f) else Inl invalid_spec)"
  shows "build shp w = (if list_all Q (List.map fst shp) then Inr (listed (List.map fst shp) h) else Inl invalid_spec)"
  using assms
proof (induction shp)
  case (Cons s shp)
  obtain g q where s: "s = (g, q)"
    by fastforce
  have head: "q (field w g) = (if Q g then Inr (h g) else Inl invalid_spec)"
    using Cons.prems s by simp
  have "build shp w = (if list_all Q (List.map fst shp) then Inr (listed (List.map fst shp) h) else Inl invalid_spec)"
    by (rule Cons.IH) (use Cons.prems in simp)
  then show ?case
    using head s by simp
qed simp

definition in_order :: "string list \<Rightarrow> json \<Rightarrow> json" where
  "in_order fs v = JObj (listed fs (field v))"

lemma field_in_order [simp]: "field (in_order fs v) f = (if f \<in> set fs then field v f else None)"
  by (simp add: in_order_def map_of_listed)

text \<open>
  An allow-list without tools is given its empty list at the first reading, behind the other fields; the
  second reading puts it in its place.
\<close>

definition tool_fields :: "string list" where
  "tool_fields = [''mode'', ''include'', ''exclude'', ''required'']"

lemma tools_consistent_fields:
  "(\<And>f. f \<in> set tool_fields \<Longrightarrow> field t f = field t' f) \<Longrightarrow> tools_consistent t = tools_consistent t'"
  by (simp add: tools_consistent_def tool_fields_def)

lemma tools_again:
  assumes "parse_tools v = Inr y"
  obtains t where "y = Some t" "parse_tools (Some t) = Inr (Some (in_order tool_fields t))"
proof -
  obtain t0 t where t0: "config_object tools_shape (List.map fst tools_shape) v = Inr t0"
    and t: "t = (if field t0 ''mode'' = Some (JStr ''allowlist'') \<and> field t0 ''include'' = None then set_field t0 ''include'' (JArr []) else t0)"
      "tools_consistent t" "y = Some t"
    using assms by (auto simp: parse_tools_def bind_ok Let_def split: if_splits)
  obtain kvs source where parts: "build tools_shape (JObj source) = Inr kvs" "t0 = JObj kvs"
    using t0 by (rule config_object_parts)
  have names: "List.map fst tools_shape = tool_fields" "distinct (List.map fst tools_shape)"
    by (simp_all add: tools_shape_def tool_fields_def)
  have stable: "stable r" if "(f, r) \<in> set tools_shape" for f r
    using that by (auto simp: tools_shape_def)
  have kept: "r (field t f) = Inr (field t f)" if r: "(f, r) \<in> set tools_shape" for f r
  proof (cases "field t f = field t0 f")
    case True
    then show ?thesis
      using build_field [OF parts(1) names(2) r] stable [OF r] parts(2) by (simp add: stable_def)
  next
    case False
    then have "f = ''include''" "field t f = Some (JArr [])"
      using t(1) parts(2) by (auto split: if_splits)
    moreover from this have "r = optional_reader (unique_reader 256 128 id)"
      using r by (auto simp: tools_shape_def)
    ultimately show ?thesis
      by (simp add: optional_reader_def unique_reader_def unique_strings_def string_array_def strings_json_def)
  qed
  have build: "build tools_shape t = Inr (listed tool_fields (field t))"
    using build_checked [of tools_shape t "\<lambda>_. True" "field t"] kept names(1) by (simp add: list_all_iff)
  have "set (List.map fst kvs) \<subseteq> set tool_fields"
    using build_names [OF parts(1)] names(1) by simp
  then obtain kvs' where kvs': "t = JObj kvs'" "set (List.map fst kvs') \<subseteq> set tool_fields"
    using t(1) parts(2) map_set_keys [of "''include''" "JArr []" kvs] by (auto simp: tool_fields_def split: if_splits)
  then have again: "config_object tools_shape (List.map fst tools_shape) (Some t) = Inr (in_order tool_fields t)"
    using build names(1) by (auto simp: config_object_def config_record_def reject_unknown_def require_def in_order_def)
  have "\<not> (field (in_order tool_fields t) ''mode'' = Some (JStr ''allowlist'') \<and> field (in_order tool_fields t) ''include'' = None)"
    using t(1) parts(2) by (auto simp: tool_fields_def split: if_splits)
  moreover have "tools_consistent (in_order tool_fields t)"
    using tools_consistent_fields [of t "in_order tool_fields t"] t(2) by simp
  ultimately have "parse_tools (Some t) = Inr (Some (in_order tool_fields t))"
    using again by (simp only: parse_tools_def bind.simps Let_def if_False if_True)
  then show thesis
    using that t(3) by blast
qed


section \<open>Resources\<close>

definition settled_resources :: "json option \<Rightarrow> bool" where
  "settled_resources v \<longleftrightarrow> (case v of Some r \<Rightarrow> list_all (\<lambda>f. if_given distinct_paths (field r f)) resource_paths | None \<Rightarrow> True)"

definition resources_again :: "config_limits \<Rightarrow> string \<Rightarrow> field_again list" where
  "resources_again L cwd =
     List.map (\<lambda>f. (f, optional_reader (unique_reader (max_resource_paths L) 4096 (resource_reference cwd)),
       optional_reader (unique_reader (max_resource_paths L) 4096 (resource_reference cwd)), if_given distinct_paths)) resource_paths
     @ List.map (\<lambda>f. (f, optional_reader boolean_reader, optional_reader boolean_reader, always)) resource_switches
     @ [(''systemPrompt'', optional_reader (text_reader 262144 id), optional_reader (text_reader 262144 id), always),
        (''appendSystemPrompt'', optional_reader (array_text_reader 64 262144), optional_reader (array_text_reader 64 262144), always),
        (''projectTrust'', optional_reader (choice_reader [''default'', ''approve'', ''deny'']),
           optional_reader (choice_reader [''default'', ''approve'', ''deny'']), always),
        (''extensionFlags'', optional_reader flags_reader, optional_reader flags_reader, always)]"

lemma resettles_resources: "resettles settled_resources (parse_resources L cwd) (parse_resources L cwd)"
  unfolding resettles_def
proof (intro allI impI)
  fix v y
  assume "parse_resources L cwd v = Inr y"
  then obtain r where r: "config_object (resources_shape L cwd) (List.map fst (resources_shape L cwd)) v = Inr r" "y = Some r"
    by (auto simp: parse_resources_def bind_ok)
  have shapes: "first_shape (resources_again L cwd) = resources_shape L cwd" "second_shape (resources_again L cwd) = resources_shape L cwd"
      "List.map fst (resources_again L cwd) = List.map fst (resources_shape L cwd)" "distinct (List.map fst (resources_again L cwd))"
    by (simp_all add: first_shape_def second_shape_def resources_again_def resources_shape_def resource_paths_def resource_switches_def)
  have "list_all (\<lambda>(f, r, r', Q). resettles Q r r') (resources_again L cwd)"
    by (simp add: resources_again_def resource_paths_def resource_switches_def resettles_optional resettles_unique)
  then have "config_object (resources_shape L cwd) (List.map fst (resources_shape L cwd)) (Some r) =
      (if fields_settled (resources_again L cwd) r then Inr r else Inl invalid_spec)"
    using config_object_settles [of "resources_again L cwd" v r] r(1) shapes by simp
  moreover have "fields_settled (resources_again L cwd) r \<longleftrightarrow> settled_resources (Some r)"
    by (simp add: fields_settled_def resources_again_def settled_resources_def resource_paths_def resource_switches_def)
  ultimately show "parse_resources L cwd y = (if settled_resources y then Inr y else Inl invalid_spec)"
    using r(2) by (simp add: parse_resources_def)
qed

section \<open>The configuration\<close>

definition persisted_fields :: "string list" where
  "persisted_fields =
     [''cwd'', ''target'', ''name'', ''agentDir'', ''model'', ''tools'', ''resources'', ''materialization'', ''settings'', ''isolation'']"

text \<open>When a persisted specification can be read again, and what that gives.\<close>

definition settled_spec :: "json \<Rightarrow> bool" where
  "settled_spec spec \<longleftrightarrow>
     short_path (field spec ''cwd'') \<and> if_given short_path (field spec ''agentDir'')
     \<and> settled_target (field spec ''target'') \<and> settled_resources (field spec ''resources'')"

definition reread_field :: "json \<Rightarrow> string \<Rightarrow> json option" where
  "reread_field spec f = (if f = ''tools'' then map_option (in_order tool_fields) (field spec f) else field spec f)"

definition reread_spec :: "json \<Rightarrow> json" where
  "reread_spec spec = JObj (listed persisted_fields (reread_field spec))"

definition field_settled :: "json \<Rightarrow> string \<Rightarrow> bool" where
  "field_settled spec f \<longleftrightarrow>
     (f = ''cwd'' \<longrightarrow> short_path (field spec f)) \<and> (f = ''agentDir'' \<longrightarrow> if_given short_path (field spec f))
     \<and> (f = ''target'' \<longrightarrow> settled_target (field spec f)) \<and> (f = ''resources'' \<longrightarrow> settled_resources (field spec f))"

lemma settled_fields: "settled_spec spec \<longleftrightarrow> list_all (field_settled spec) persisted_fields"
  by (auto simp: settled_spec_def persisted_fields_def field_settled_def)

lemma spec_shape_names: "List.map fst (spec_shape L base cwd) = persisted_fields"
  by (simp add: spec_shape_def persisted_fields_def)

lemma parsed_spec:
  assumes "parse_session_configuration L base v = Inr p"
  obtains kvs c input where "v = JObj input" "pc_spec p = JObj kvs" "bounded_string 4096 (field v ''cwd'') = Inr c"
    "build (spec_shape L base (resolve_path base c)) v = Inr kvs" "packages_trusted (pc_spec p)"
    "parse_environment L (field v ''env'') = Inr (pc_environment p)"
  using assms
  by (auto simp: parse_session_configuration_def config_record_def bind_ok split: json.splits if_splits)

lemma shape_fact: "list_all (\<lambda>(f, r). P f r) shp \<Longrightarrow> (f, r) \<in> set shp \<Longrightarrow> P f r"
  by (auto simp: list_all_iff)

definition resettled_fields :: "string list" where
  "resettled_fields = [''cwd'', ''target'', ''agentDir'', ''tools'', ''resources'']"

lemma other_fields:
  assumes "(f, r) \<in> set (spec_shape L base cwd)" and "f \<notin> set resettled_fields"
  shows "stable r" and "(f, r) \<in> set (spec_shape L base' cwd)"
proof -
  have "list_all (\<lambda>(f, r). f \<in> set resettled_fields \<or> stable r) (spec_shape L base cwd)"
    by (simp add: spec_shape_def resettled_fields_def stable_model stable_materialization)
  from shape_fact [OF this assms(1)] assms(2) show "stable r"
    by blast
  have "list_all (\<lambda>(f, r). f \<in> set resettled_fields \<or> (f, r) \<in> set (spec_shape L base' cwd)) (spec_shape L base cwd)"
    by (simp add: spec_shape_def resettled_fields_def)
  from shape_fact [OF this assms(1)] assms(2) show "(f, r) \<in> set (spec_shape L base' cwd)"
    by blast
qed

lemma special_fields:
  assumes "(f, r) \<in> set (spec_shape L base cwd)"
  shows "f = ''cwd'' \<Longrightarrow> r = path_reader base" "f = ''target'' \<Longrightarrow> r = parse_target cwd"
    "f = ''agentDir'' \<Longrightarrow> r = optional_reader (path_reader base)" "f = ''tools'' \<Longrightarrow> r = optional_reader parse_tools"
    "f = ''resources'' \<Longrightarrow> r = optional_reader (parse_resources L cwd)"
proof -
  have "list_all (\<lambda>(f, r). (f = ''cwd'' \<longrightarrow> r = path_reader base) \<and> (f = ''target'' \<longrightarrow> r = parse_target cwd)
      \<and> (f = ''agentDir'' \<longrightarrow> r = optional_reader (path_reader base)) \<and> (f = ''tools'' \<longrightarrow> r = optional_reader parse_tools)
      \<and> (f = ''resources'' \<longrightarrow> r = optional_reader (parse_resources L cwd))) (spec_shape L base cwd)"
    by (simp add: spec_shape_def)
  from shape_fact [OF this assms]
  show "f = ''cwd'' \<Longrightarrow> r = path_reader base" "f = ''target'' \<Longrightarrow> r = parse_target cwd"
    "f = ''agentDir'' \<Longrightarrow> r = optional_reader (path_reader base)" "f = ''tools'' \<Longrightarrow> r = optional_reader parse_tools"
    "f = ''resources'' \<Longrightarrow> r = optional_reader (parse_resources L cwd)"
    by - (elim conjE, erule (1) mp)+
qed

lemma spec_field_again:
  assumes "build (spec_shape L base cwd) v = Inr kvs" and r: "(f, r') \<in> set (spec_shape L base' cwd)"
  shows "r' (map_of kvs f) = (if field_settled (JObj kvs) f then Inr (reread_field (JObj kvs) f) else Inl invalid_spec)"
proof -
  have distinct: "distinct (List.map fst (spec_shape L base cwd))"
    by (simp add: spec_shape_def)
  have again: ?thesis if "(f, r) \<in> set (spec_shape L base cwd)" "resettles Q r r'" "f \<noteq> ''tools''"
    "\<And>v. Q v \<longleftrightarrow> (f = ''cwd'' \<longrightarrow> short_path v) \<and> (f = ''agentDir'' \<longrightarrow> if_given short_path v)
       \<and> (f = ''target'' \<longrightarrow> settled_target v) \<and> (f = ''resources'' \<longrightarrow> settled_resources v)" for r Q
    using resettlesD [OF that(2) build_field [OF assms(1) distinct that(1)]] that(3,4)
    by (simp add: field_settled_def reread_field_def)
  show ?thesis
  proof (cases "f \<in> set resettled_fields")
    case False
    note other = other_fields [OF r False]
    show ?thesis
      using False by (intro again [OF other(2) resettles_stable [OF other(1)]]) (auto simp: resettled_fields_def)
  next
    case True
    then have "f \<in> {''cwd'', ''target'', ''agentDir'', ''tools'', ''resources''}"
      by (simp add: resettled_fields_def)
    then show ?thesis
    proof (elim insertE emptyE)
      assume f: "f = ''cwd''"
      then have "r' = path_reader base'"
        by (rule special_fields(1) [OF r])
      then show ?thesis
        using f by (intro again [of "path_reader base" short_path]) (simp_all add: spec_shape_def resettles_path)
    next
      assume f: "f = ''target''"
      then have "r' = parse_target cwd"
        by (rule special_fields(2) [OF r])
      then show ?thesis
        using f by (intro again [of "parse_target cwd" settled_target]) (simp_all add: spec_shape_def resettles_target)
    next
      assume f: "f = ''agentDir''"
      then have "r' = optional_reader (path_reader base')"
        by (rule special_fields(3) [OF r])
      then show ?thesis
        using f by (intro again [of "optional_reader (path_reader base)" "if_given short_path"])
          (simp_all add: spec_shape_def resettles_path resettles_optional)
    next
      assume f: "f = ''resources''"
      then have r': "r' = optional_reader (parse_resources L cwd)"
        by (rule special_fields(5) [OF r])
      have "if_given settled_resources v \<longleftrightarrow> settled_resources v" for v
        by (auto simp: if_given_def settled_resources_def)
      then show ?thesis
        using f r' by (intro again [of "optional_reader (parse_resources L cwd)" "if_given settled_resources"])
          (simp_all add: spec_shape_def resettles_resources resettles_optional)
    next
      assume f: "f = ''tools''"
      then have r': "r' = optional_reader parse_tools"
        by (rule special_fields(4) [OF r])
      have first: "optional_reader parse_tools (field v ''tools'') = Inr (map_of kvs ''tools'')"
        by (rule build_field [OF assms(1) distinct]) (simp add: spec_shape_def)
      have "r' (map_of kvs ''tools'') = Inr (map_option (in_order tool_fields) (map_of kvs ''tools''))"
      proof (cases "map_of kvs ''tools''")
        case (Some t)
        then have "parse_tools (field v ''tools'') = Inr (Some t)"
          using first by (simp add: optional_reader_def split: if_splits)
        then show ?thesis
          using Some r' by (auto simp: optional_reader_def elim: tools_again)
      qed (simp add: r' optional_reader_def)
      moreover have "field_settled (JObj kvs) ''tools''" "reread_field (JObj kvs) ''tools'' = map_option (in_order tool_fields) (map_of kvs ''tools'')"
        by (simp_all add: field_settled_def reread_field_def)
      ultimately show ?thesis
        unfolding f by simp
    qed
  qed
qed

lemma packages_again: "packages_trusted (reread_spec spec) = packages_trusted spec"
proof -
  have "field (reread_spec spec) f = (if f \<in> set persisted_fields then reread_field spec f else None)" for f
    by (simp add: reread_spec_def map_of_listed)
  then have "field (reread_spec spec) ''settings'' = field spec ''settings''" "field (reread_spec spec) ''resources'' = field spec ''resources''"
    by (simp_all add: reread_field_def persisted_fields_def)
  then show ?thesis
    unfolding packages_trusted_def by (simp only:)
qed

lemma parsed_again:
  assumes "parse_session_configuration L base v = Inr p"
  shows "parse_session_configuration L base' (pc_spec p) =
    (if settled_spec (pc_spec p) then Inr \<lparr>pc_spec = reread_spec (pc_spec p), pc_environment = []\<rparr> else Inl invalid_spec)"
proof (rule parsed_spec [OF assms])
  fix kvs c input
  assume parts: "v = JObj input" "pc_spec p = JObj kvs" "bounded_string 4096 (field v ''cwd'') = Inr c"
    "build (spec_shape L base (resolve_path base c)) v = Inr kvs" "packages_trusted (pc_spec p)"
  let ?cwd = "resolve_path base c"
  have distinct: "distinct (List.map fst (spec_shape L base ?cwd))"
    by (simp add: spec_shape_def)
  have names: "set (List.map fst kvs) \<subseteq> set persisted_fields"
    using build_names [OF parts(4)] by (simp only: spec_shape_names)
  have cwd: "field (pc_spec p) ''cwd'' = Some (JStr ?cwd)"
    using build_field [OF parts(4) distinct, of "''cwd''" "path_reader base"] parts(2,3)
    by (simp add: spec_shape_def path_reader_def text_reader_def)
  have "build (spec_shape L base' ?cwd) (pc_spec p) =
      (if list_all (field_settled (pc_spec p)) (List.map fst (spec_shape L base' ?cwd))
       then Inr (listed (List.map fst (spec_shape L base' ?cwd)) (reread_field (pc_spec p))) else Inl invalid_spec)"
  proof (rule build_checked)
    fix f r
    assume "(f, r) \<in> set (spec_shape L base' ?cwd)"
    from spec_field_again [OF parts(4) this]
    show "r (field (pc_spec p) f) = (if field_settled (pc_spec p) f then Inr (reread_field (pc_spec p) f) else Inl invalid_spec)"
      by (simp only: parts(2) field.simps)
  qed
  then have build: "build (spec_shape L base' ?cwd) (pc_spec p) =
      (if settled_spec (pc_spec p) then Inr (listed persisted_fields (reread_field (pc_spec p))) else Inl invalid_spec)"
    by (simp only: spec_shape_names settled_fields)
  have "field (pc_spec p) ''env'' = None"
    using names parts(2) by (auto simp: persisted_fields_def map_of_eq_None_iff)
  moreover have "reject_unknown spec_fields (pc_spec p) = Inr ()"
    using names parts(2) by (auto simp: reject_unknown_def require_def spec_fields_def persisted_fields_def)
  moreover have "bounded_string 4096 (field (pc_spec p) ''cwd'') = (if short_path (field (pc_spec p) ''cwd'') then Inr ?cwd else Inl invalid_spec)"
    by (simp add: cwd bounded_string_def short_path_def)
  ultimately show ?thesis
    using build packages_again [of "pc_spec p"] parts(2,5)
    by (auto simp: parse_session_configuration_def config_record_def parse_environment_def reread_spec_def settled_spec_def)
qed

end
