(* ===== verification/SessionCatalog.thy ===== *)
theory SessionCatalog
  imports SessionConfig Journal
begin

text \<open>
  \<open>FileSessionCatalog\<close> of \<open>src/session-catalog.ts\<close>: the retained sessions, each in a file of its own, with
  an index of their names.  A record is the JSON object it is stored as.  The operations run one after
  another (\<open>#serialize\<close>); \<open>catalog_io\<close> holds what one of them gets from the clock and the file system:
  the time and the end of the write of a session's file, the end of its removal, and of the directory
  calls.
\<close>

section \<open>Validation\<close>

definition catalog_error :: "string \<Rightarrow> js_error" where
  "catalog_error code = JsError SessionCatalogError code False"

definition corrupt_catalog :: js_error where
  "corrupt_catalog = catalog_error ''corrupt_catalog''"

definition catalog_capacity :: js_error where
  "catalog_capacity = JsError SessionCatalogError ''catalog_capacity'' True"

record catalog_config =
  cc_max_sessions :: nat
  cc_max_record_bytes :: nat
  cc_max_recovery_bytes :: nat
  cc_base :: string

definition make_catalog_config :: "string \<Rightarrow> string \<Rightarrow> int option \<Rightarrow> int option \<Rightarrow> int option \<Rightarrow> catalog_config result" where
  "make_catalog_config base state_dir sessions record_bytes recovery_bytes =
     (if state_dir = [] then Inl (plain_error ''Error'')
      else
        bind (positive_integer (or_default sessions 4096)) (\<lambda>s.
        bind (positive_integer (or_default record_bytes 1048576)) (\<lambda>r.
        bind (positive_integer (or_default recovery_bytes 268435456)) (\<lambda>b.
          Inr \<lparr>cc_max_sessions = nat s, cc_max_record_bytes = nat r, cc_max_recovery_bytes = nat b, cc_base = base\<rparr>))))"

text \<open>\<open>validateCatalogSessionId\<close>; an encoded identifier is ASCII.\<close>

definition session_id_ok :: "string \<Rightarrow> bool" where
  "session_id_ok s \<longleftrightarrow>
     1 \<le> length s \<and> length s \<le> 256 \<and> (case encoded_session_id s of Inr e \<Rightarrow> length e \<le> 240 | Inl _ \<Rightarrow> False)"

definition name_ok :: "string \<Rightarrow> bool" where
  "name_ok s \<longleftrightarrow> 1 \<le> length s \<and> length s \<le> 128"

definition validate_persisted_spec :: "catalog_config \<Rightarrow> json \<Rightarrow> unit result" where
  "validate_persisted_spec cfg spec =
     (if \<not> is_record spec then Inl (catalog_error ''invalid_session_spec'')
      else if field spec ''env'' \<noteq> None then Inl (catalog_error ''secret_persistence_refused'')
      else case parse_session_configuration default_config_limits (cc_base cfg) spec of
        Inl _ \<Rightarrow> Inl (catalog_error ''invalid_session_spec'')
      | Inr _ \<Rightarrow> Inr ())"

definition valid_environment_keys :: "platform \<Rightarrow> json list \<Rightarrow> bool" where
  "valid_environment_keys P vs \<longleftrightarrow>
     list_all (\<lambda>v. case as_string (Some v) of Some s \<Rightarrow> s \<noteq> [] \<and> length s \<le> 256 | None \<Rightarrow> False) vs
     \<and> (let ks = texts (Some (JArr vs)) in distinct ks \<and> sort_by (collate P) ks = ks)"

definition valid_environment :: "platform \<Rightarrow> json option \<Rightarrow> bool" where
  "valid_environment P v \<longleftrightarrow>
     (case v of
        Some (JObj kvs) \<Rightarrow>
          (let e = JObj kvs in
           (case field e ''keys'' of Some (JArr vs) \<Rightarrow> valid_environment_keys P vs | _ \<Rightarrow> False)
           \<and> field e ''persistence'' \<in> {Some (JStr ''memory-only''), Some (JStr ''reference'')}
           \<and> is_boolean (field e ''provisioned'')
           \<and> (field e ''digest'' = None \<or> as_string (field e ''digest'') \<noteq> None))
      | _ \<Rightarrow> False)"

definition valid_catalog_conversation :: "json \<Rightarrow> bool" where
  "valid_catalog_conversation v \<longleftrightarrow>
     is_record v \<and> nonempty_string (field v ''sessionId'')
     \<and> (field v ''sessionFile'' = None
        \<or> (case as_string (field v ''sessionFile'') of Some p \<Rightarrow> p \<noteq> [] \<and> resolved_path p | None \<Rightarrow> False))"

definition valid_recovery_condition :: "json \<Rightarrow> bool" where
  "valid_recovery_condition v \<longleftrightarrow>
     is_record v \<and> field v ''state'' = Some (JStr ''reprovision_required'')
     \<and> as_string (field v ''code'') \<in> {Some ''tool_adapter_reprovision_required'', Some ''credentials_required''}
     \<and> field v ''retryable'' = Some (JBool True)
     \<and> set (obj_keys v) \<subseteq> {''state'', ''code'', ''retryable''}"

definition optional_text :: "json option \<Rightarrow> bool" where
  "optional_text v \<longleftrightarrow> v = None \<or> as_string v \<noteq> None"

definition valid_terminal :: "json \<Rightarrow> bool" where
  "valid_terminal v \<longleftrightarrow>
     is_record v \<and> as_string (field v ''state'') \<in> {Some ''succeeded'', Some ''failed'', Some ''indeterminate''}
     \<and> as_string (field v ''at'') \<noteq> None \<and> optional_text (field v ''requestId'') \<and> optional_text (field v ''errorCode'')"

definition catalog_states :: "string list" where
  "catalog_states = [''opening'', ''idle'', ''running'', ''failed'', ''closing'']"

text \<open>\<open>validateCatalogRecord\<close>, whose every failure is \<open>corrupt_catalog\<close>.\<close>

definition valid_catalog_record :: "platform \<Rightarrow> catalog_config \<Rightarrow> json \<Rightarrow> bool" where
  "valid_catalog_record P cfg v \<longleftrightarrow>
     is_record v
     \<and> field v ''formatVersion'' = Some (JNum 1)
     \<and> (case as_string (field v ''sessionId'') of Some s \<Rightarrow> session_id_ok s | None \<Rightarrow> False)
     \<and> (field v ''name'' = None \<or> (case as_string (field v ''name'') of Some n \<Rightarrow> name_ok n | None \<Rightarrow> False))
     \<and> safe_int_from 0 (field v ''generation'')
     \<and> safe_int_from 1 (field v ''revision'')
     \<and> as_string (field v ''residency'') \<in> {Some ''resident'', Some ''dormant''}
     \<and> (case as_string (field v ''state'') of Some s \<Rightarrow> s \<in> set catalog_states | None \<Rightarrow> False)
     \<and> (as_string (field v ''residency'') = Some ''dormant'' \<longrightarrow> as_string (field v ''state'') \<in> {Some ''idle'', Some ''failed''})
     \<and> list_all (\<lambda>f. nonempty_string (field v f)) [''createdAt'', ''updatedAt'', ''lastUsedAt'', ''policyDigest'']
     \<and> (field v ''configuration'' = None \<or> as_string (field v ''configuration'') \<in> {Some ''legacy'', Some ''prepared''})
     \<and> (case field v ''spec'' of Some s \<Rightarrow> is_ok (validate_persisted_spec cfg s) | None \<Rightarrow> False)
     \<and> valid_environment P (field v ''environment'')
     \<and> (case field v ''conversation'' of Some c \<Rightarrow> valid_catalog_conversation c | None \<Rightarrow> True)
     \<and> (case field v ''recovery'' of Some c \<Rightarrow> valid_recovery_condition c | None \<Rightarrow> True)
     \<and> (case field v ''lastTerminal'' of Some c \<Rightarrow> valid_terminal c | None \<Rightarrow> True)"

section \<open>State\<close>

datatype catalog_load = NotLoaded | Loaded | LoadFailed js_error

record catalog =
  cat_records :: "(string, json) jsmap"
  cat_names :: "(string, string) jsmap"
  cat_dir :: directory
  cat_load :: catalog_load

record catalog_io =
  io_now :: "string \<Rightarrow> string"
  io_write :: "string \<Rightarrow> write_outcome"
  io_remove :: "unit result"
  io_open :: "unit result"

definition fresh_catalog :: "directory \<Rightarrow> catalog" where
  "fresh_catalog dir = \<lparr>cat_records = [], cat_names = [], cat_dir = dir, cat_load = NotLoaded\<rparr>"

definition catalog_file :: "string \<Rightarrow> string" where
  "catalog_file s = (case encoded_session_id s of Inr e \<Rightarrow> e @ ''.json'' | Inl _ \<Rightarrow> [])"

abbreviation rec_id :: "json \<Rightarrow> string" where
  "rec_id r \<equiv> str_field r ''sessionId''"

definition rec_name :: "json \<Rightarrow> string option" where
  "rec_name r = as_string (field r ''name'')"

definition rec_int :: "json \<Rightarrow> string \<Rightarrow> int" where
  "rec_int r f = (case as_int (field r f) of Some n \<Rightarrow> n | None \<Rightarrow> 0)"

section \<open>Steps\<close>

type_synonym 'a catalog_op = "(catalog, 'a) effect"

text \<open>\<open>#write\<close>.\<close>

definition write_catalog_record :: "platform \<Rightarrow> catalog_config \<Rightarrow> catalog_io \<Rightarrow> json \<Rightarrow> unit catalog_op" where
  "write_catalog_record P cfg io r st =
     (if compact_size r > cc_max_record_bytes cfg then (Inl (catalog_error ''catalog_record_too_large''), st)
      else
        (let (res, dir) = atomic_write_private_json (current_uid P) (io_write io (rec_id r)) (catalog_file (rec_id r)) r (cat_dir st)
         in (res, st\<lparr>cat_dir := dir\<rparr>)))"

text \<open>
  \<open>#next\<close>: the record with a patch, whose fields without a value are deleted, at the next revision.
\<close>

type_synonym catalog_patch = "(string \<times> json option) list"

fun del_field :: "json \<Rightarrow> string \<Rightarrow> json" where
  "del_field (JObj kvs) k = JObj (map_del kvs k)"
| "del_field v k = v"

fun apply_catalog_patch :: "catalog_patch \<Rightarrow> json \<Rightarrow> json" where
  "apply_catalog_patch [] r = r"
| "apply_catalog_patch ((k, v) # p) r = apply_catalog_patch p (case v of Some x \<Rightarrow> set_field r k x | None \<Rightarrow> del_field r k)"

definition successor_record :: "string \<Rightarrow> json \<Rightarrow> catalog_patch \<Rightarrow> json" where
  "successor_record now current patch =
     set_field (set_field (set_field (set_field (apply_catalog_patch patch current)
       ''formatVersion'' (JNum 1)) ''sessionId'' (JStr (rec_id current)))
       ''revision'' (JNum (rec_int current ''revision'' + 1))) ''updatedAt'' (JStr now)"

definition next_record :: "platform \<Rightarrow> catalog_config \<Rightarrow> string \<Rightarrow> json \<Rightarrow> catalog_patch \<Rightarrow> json result" where
  "next_record P cfg now current patch =
     (let r = successor_record now current patch in if valid_catalog_record P cfg r then Inr r else Inl corrupt_catalog)"

definition replace_indexes :: "json \<Rightarrow> json \<Rightarrow> catalog \<Rightarrow> catalog" where
  "replace_indexes current new st =
     (let names = (case rec_name current of
                     Some n \<Rightarrow> if rec_name new \<noteq> Some n then map_del (cat_names st) n else cat_names st
                   | None \<Rightarrow> cat_names st)
      in st\<lparr>cat_records := map_set (cat_records st) (rec_id new) new,
            cat_names := (case rec_name new of Some n \<Rightarrow> map_set names n (rec_id new) | None \<Rightarrow> names)\<rparr>)"

definition resolve_ref :: "catalog \<Rightarrow> string \<Rightarrow> json option" where
  "resolve_ref st r =
     (case map_get (cat_records st) r of
        Some x \<Rightarrow> Some x
      | None \<Rightarrow> (case map_get (cat_names st) r of Some i \<Rightarrow> map_get (cat_records st) i | None \<Rightarrow> None))"

definition require_ref :: "catalog \<Rightarrow> string \<Rightarrow> json result" where
  "require_ref st r = (case resolve_ref st r of Some x \<Rightarrow> Inr x | None \<Rightarrow> Inl (catalog_error ''session_not_found''))"

definition name_available :: "catalog \<Rightarrow> string \<Rightarrow> string \<Rightarrow> unit result" where
  "name_available st name session =
     (if \<not> name_ok name then Inl (catalog_error ''invalid_session_name'')
      else if (case map_get (cat_records st) name of Some r \<Rightarrow> rec_id r \<noteq> session | None \<Rightarrow> False)
           \<or> (case map_get (cat_names st) name of Some i \<Rightarrow> i \<noteq> session | None \<Rightarrow> False)
      then Inl (catalog_error ''session_name_conflict'')
      else Inr ())"

definition assert_version :: "json \<Rightarrow> int \<Rightarrow> int \<Rightarrow> unit result" where
  "assert_version r generation revision =
     require (rec_int r ''generation'' = generation \<and> rec_int r ''revision'' = revision)
       (catalog_error ''session_precondition_failed'')"

section \<open>Loading\<close>

definition register_record :: "json \<Rightarrow> (string, json) jsmap \<times> (string, string) jsmap \<Rightarrow> ((string, json) jsmap \<times> (string, string) jsmap) result" where
  "register_record r = (\<lambda>(records, names).
     (if (case map_get names (rec_id r) of Some i \<Rightarrow> i \<noteq> rec_id r | None \<Rightarrow> False) then Inl corrupt_catalog
      else case rec_name r of
        None \<Rightarrow> Inr (map_set records (rec_id r) r, names)
      | Some n \<Rightarrow>
          if (case map_get names n of Some i \<Rightarrow> i \<noteq> rec_id r | None \<Rightarrow> False) then Inl corrupt_catalog
          else if map_has records n \<and> n \<noteq> rec_id r then Inl corrupt_catalog
          else Inr (map_set records (rec_id r) r, map_set names n (rec_id r))))"

text \<open>One file; \<open>used\<close> counts the bytes of the files so far.\<close>

definition load_catalog_file ::
  "platform \<Rightarrow> catalog_config \<Rightarrow> directory \<Rightarrow> string \<Rightarrow> nat \<times> (string, json) jsmap \<times> (string, string) jsmap
     \<Rightarrow> (nat \<times> (string, json) jsmap \<times> (string, string) jsmap) result" where
  "load_catalog_file P cfg dir name = (\<lambda>(used, records, names).
     (let f = map_get dir name; size = (case state_file_size f of Some n \<Rightarrow> n | None \<Rightarrow> 0) in
      if size > cc_max_record_bytes cfg then Inl (catalog_error ''catalog_record_too_large'')
      else if used + size > cc_max_recovery_bytes cfg then Inl (catalog_error ''catalog_recovery_too_large'')
      else
        bind (read_private_json_if_exists (current_uid P) f) (\<lambda>v.
          case v of
            None \<Rightarrow> Inr (used + size, records, names)
          | Some r \<Rightarrow>
              if \<not> valid_catalog_record P cfg r then Inl corrupt_catalog
              else if name \<noteq> catalog_file (rec_id r) then Inl corrupt_catalog
              else if map_has records (rec_id r) then Inl corrupt_catalog
              else bind (register_record r (records, names)) (\<lambda>(rs, ns). Inr (used + size, rs, ns)))))"

fun load_catalog_files ::
  "platform \<Rightarrow> catalog_config \<Rightarrow> directory \<Rightarrow> string list \<Rightarrow> nat \<times> (string, json) jsmap \<times> (string, string) jsmap
     \<Rightarrow> (nat \<times> (string, json) jsmap \<times> (string, string) jsmap) result" where
  "load_catalog_files P cfg dir [] acc = Inr acc"
| "load_catalog_files P cfg dir (n # ns) acc =
     bind (load_catalog_file P cfg dir n acc) (load_catalog_files P cfg dir ns)"

definition catalog_file_names :: "directory \<Rightarrow> string list" where
  "catalog_file_names dir = sort_by code_unit_le (List.filter (ends_with ''.json'') (map_keys dir))"

text \<open>What a restart does to one record: its session is dormant and its environment forgotten.\<close>

definition dormant_patch :: "json \<Rightarrow> catalog_patch" where
  "dormant_patch r =
     (let environment = (case field r ''environment'' of Some e \<Rightarrow> unprovisioned_environment_summary e | None \<Rightarrow> JNull);
          resident = (as_string (field r ''residency'') = Some ''resident'');
          changed = (case field r ''environment'' of Some e \<Rightarrow> field environment ''provisioned'' \<noteq> field e ''provisioned'' | None \<Rightarrow> False)
      in (if resident
          then [(''residency'', Some (JStr ''dormant'')),
                (''state'', Some (JStr (if as_string (field r ''state'') = Some ''failed'' then ''failed'' else ''idle'')))]
          else [])
         @ (if changed then [(''environment'', Some environment)] else []))"

definition make_dormant :: "platform \<Rightarrow> catalog_config \<Rightarrow> catalog_io \<Rightarrow> json \<Rightarrow> unit catalog_op" where
  "make_dormant P cfg io r =
     (if dormant_patch r = [] then give ()
      else
        then_do (lift_result (next_record P cfg (io_now io (rec_id r)) r (dormant_patch r))) (\<lambda>new.
        then_do (write_catalog_record P cfg io new) (\<lambda>_.
        change (\<lambda>st. st\<lparr>cat_records := map_set (cat_records st) (rec_id new) new\<rparr>))))"

definition load_catalog :: "platform \<Rightarrow> catalog_config \<Rightarrow> catalog_io \<Rightarrow> unit catalog_op" where
  "load_catalog P cfg io =
     then_do (lift_result (io_open io)) (\<lambda>_.
     reading (\<lambda>st0.
       let names = catalog_file_names (cat_dir st0) in
       if length names > cc_max_sessions cfg then throw catalog_capacity
       else
         then_do (lift_result (load_catalog_files P cfg (cat_dir st0) names (0, [], []))) (\<lambda>(_, records, ids).
         if length records > cc_max_sessions cfg then throw catalog_capacity
         else
           then_do (change (\<lambda>st. st\<lparr>cat_records := records, cat_names := ids\<rparr>)) (\<lambda>_.
           for_each (make_dormant P cfg io) (map_vals records)))))"

text \<open>\<open>#ensureRecovered\<close>: the first load decides; its exception is thrown again by every later call.\<close>

definition ensure_recovered :: "platform \<Rightarrow> catalog_config \<Rightarrow> catalog_io \<Rightarrow> unit catalog_op" where
  "ensure_recovered P cfg io st =
     (case cat_load st of
        Loaded \<Rightarrow> (Inr (), st)
      | LoadFailed e \<Rightarrow> (Inl e, st)
      | NotLoaded \<Rightarrow>
          (case load_catalog P cfg io st of
             (Inr _, st1) \<Rightarrow> (Inr (), st1\<lparr>cat_load := Loaded\<rparr>)
           | (Inl e, st1) \<Rightarrow> (Inl e, st1\<lparr>cat_load := LoadFailed e\<rparr>)))"

section \<open>Operations\<close>

record create_input =
  ci_session :: string
  ci_name :: "string option"
  ci_generation :: int
  ci_spec :: json
  ci_environment :: "json option"
  ci_residency :: "string option"
  ci_state :: "string option"
  ci_conversation :: "json option"
  ci_digest :: "string option"
  ci_configuration :: "string option"

definition validate_generation :: "int \<Rightarrow> unit result" where
  "validate_generation g = require (safe_int g \<and> 0 \<le> g) (catalog_error ''invalid_generation'')"

text \<open>\<open>sessionSpecDigest\<close>, after its validation.\<close>

definition session_spec_digest :: "platform \<Rightarrow> json \<Rightarrow> string" where
  "session_spec_digest P spec = sha256_hex P (canonical_json (collate P) spec)"

definition or_else :: "'a option \<Rightarrow> 'a \<Rightarrow> 'a" where
  "or_else v d = (case v of Some x \<Rightarrow> x | None \<Rightarrow> d)"

definition created_record :: "platform \<Rightarrow> string \<Rightarrow> create_input \<Rightarrow> json" where
  "created_record P now c =
     JObj ([(''formatVersion'', JNum 1), (''sessionId'', JStr (ci_session c)), (''generation'', JNum (ci_generation c)),
            (''revision'', JNum 1), (''residency'', JStr (or_else (ci_residency c) ''resident'')),
            (''state'', JStr (or_else (ci_state c) ''idle'')), (''createdAt'', JStr now), (''updatedAt'', JStr now),
            (''lastUsedAt'', JStr now), (''spec'', ci_spec c),
            (''environment'', or_else (ci_environment c) empty_environment_summary),
            (''policyDigest'', JStr (or_else (ci_digest c) (session_spec_digest P (ci_spec c))))]
           @ opt_entry ''configuration'' (map_option JStr (ci_configuration c))
           @ opt_entry ''name'' (map_option JStr (ci_name c)) @ opt_entry ''conversation'' (ci_conversation c))"

definition add_record :: "json \<Rightarrow> catalog \<Rightarrow> catalog" where
  "add_record r st =
     st\<lparr>cat_records := map_set (cat_records st) (rec_id r) r,
        cat_names := (case rec_name r of Some n \<Rightarrow> map_set (cat_names st) n (rec_id r) | None \<Rightarrow> cat_names st)\<rparr>"

definition admit_create :: "platform \<Rightarrow> catalog_config \<Rightarrow> string \<Rightarrow> create_input \<Rightarrow> catalog \<Rightarrow> json result" where
  "admit_create P cfg now c st =
     bind (require (session_id_ok (ci_session c)) (catalog_error ''invalid_session_id'')) (\<lambda>_.
     bind (validate_generation (ci_generation c)) (\<lambda>_.
     bind (validate_persisted_spec cfg (ci_spec c)) (\<lambda>_.
       if map_has (cat_records st) (ci_session c) then Inl (catalog_error ''session_exists'')
       else if (case map_get (cat_names st) (ci_session c) of Some i \<Rightarrow> i \<noteq> ci_session c | None \<Rightarrow> False)
       then Inl (catalog_error ''session_name_conflict'')
       else if length (cat_records st) \<ge> cc_max_sessions cfg then Inl catalog_capacity
       else
         bind (case ci_name c of Some n \<Rightarrow> name_available st n (ci_session c) | None \<Rightarrow> Inr ()) (\<lambda>_.
           let r = created_record P now c in
           if valid_catalog_record P cfg r then Inr r else Inl corrupt_catalog))))"

definition catalog_create :: "platform \<Rightarrow> catalog_config \<Rightarrow> catalog_io \<Rightarrow> create_input \<Rightarrow> json catalog_op" where
  "catalog_create P cfg io c =
     then_do (ensure_recovered P cfg io) (\<lambda>_.
     reading (\<lambda>st.
     then_do (lift_result (admit_create P cfg (io_now io (ci_session c)) c st)) (\<lambda>r.
     then_do (write_catalog_record P cfg io r) (\<lambda>_.
     then_do (change (add_record r)) (\<lambda>_. give r)))))"

text \<open>\<open>Some None\<close> is the \<open>null\<close> that deletes a name or a conversation.\<close>

record replace_input =
  ri_expected_generation :: int
  ri_expected_revision :: int
  ri_generation :: int
  ri_name :: "string option option"
  ri_spec :: json
  ri_environment :: json
  ri_residency :: string
  ri_state :: string
  ri_conversation :: "json option option"
  ri_digest :: "string option"
  ri_configuration :: "string option"

definition next_name :: "replace_input \<Rightarrow> json \<Rightarrow> string option" where
  "next_name c current = (case ri_name c of Some n \<Rightarrow> n | None \<Rightarrow> rec_name current)"

definition replace_patch :: "platform \<Rightarrow> replace_input \<Rightarrow> json \<Rightarrow> catalog_patch" where
  "replace_patch P c current =
     [(''generation'', Some (JNum (ri_generation c))), (''residency'', Some (JStr (ri_residency c))),
      (''state'', Some (JStr (ri_state c))), (''spec'', Some (ri_spec c)), (''environment'', Some (ri_environment c)),
      (''policyDigest'', Some (JStr (or_else (ri_digest c) (session_spec_digest P (ri_spec c)))))]
     @ (case ri_configuration c of Some m \<Rightarrow> [(''configuration'', Some (JStr m))] | None \<Rightarrow> [])
     @ [(''recovery'', None), (''name'', map_option JStr (next_name c current))]
     @ (case ri_conversation c of Some v \<Rightarrow> [(''conversation'', v)] | None \<Rightarrow> [])"

definition admit_replace :: "platform \<Rightarrow> catalog_config \<Rightarrow> catalog_io \<Rightarrow> string \<Rightarrow> replace_input \<Rightarrow> catalog \<Rightarrow> (json \<times> json) result" where
  "admit_replace P cfg io ref c st =
     bind (require_ref st ref) (\<lambda>current.
     bind (assert_version current (ri_expected_generation c) (ri_expected_revision c)) (\<lambda>_.
     bind (validate_generation (ri_generation c)) (\<lambda>_.
       if ri_generation c < rec_int current ''generation'' then Inl (catalog_error ''stale_generation'')
       else
         bind (validate_persisted_spec cfg (ri_spec c)) (\<lambda>_.
         bind (case next_name c current of Some n \<Rightarrow> name_available st n (rec_id current) | None \<Rightarrow> Inr ()) (\<lambda>_.
         bind (next_record P cfg (io_now io (rec_id current)) current (replace_patch P c current)) (\<lambda>new. Inr (current, new)))))))"

definition store_next :: "platform \<Rightarrow> catalog_config \<Rightarrow> catalog_io \<Rightarrow> json \<times> json \<Rightarrow> json catalog_op" where
  "store_next P cfg io = (\<lambda>(current, new).
     then_do (write_catalog_record P cfg io new) (\<lambda>_.
     then_do (change (replace_indexes current new)) (\<lambda>_. give new)))"

definition catalog_replace :: "platform \<Rightarrow> catalog_config \<Rightarrow> catalog_io \<Rightarrow> string \<Rightarrow> replace_input \<Rightarrow> json catalog_op" where
  "catalog_replace P cfg io ref c =
     then_do (ensure_recovered P cfg io) (\<lambda>_.
     reading (\<lambda>st. then_do (lift_result (admit_replace P cfg io ref c st)) (store_next P cfg io)))"

text \<open>\<open>#transition\<close>.\<close>

definition admit_transition :: "platform \<Rightarrow> catalog_config \<Rightarrow> catalog_io \<Rightarrow> string \<Rightarrow> int \<Rightarrow> catalog_patch \<Rightarrow> catalog \<Rightarrow> (json \<times> json) result" where
  "admit_transition P cfg io ref generation patch st =
     bind (require_ref st ref) (\<lambda>current.
       if rec_int current ''generation'' \<noteq> generation then Inl (catalog_error ''stale_generation'')
       else bind (next_record P cfg (io_now io (rec_id current)) current patch) (\<lambda>new. Inr (current, new)))"

definition catalog_transition :: "platform \<Rightarrow> catalog_config \<Rightarrow> catalog_io \<Rightarrow> string \<Rightarrow> int \<Rightarrow> catalog_patch \<Rightarrow> json catalog_op" where
  "catalog_transition P cfg io ref generation patch =
     then_do (ensure_recovered P cfg io) (\<lambda>_.
     reading (\<lambda>st. then_do (lift_result (admit_transition P cfg io ref generation patch st)) (store_next P cfg io)))"

definition resident_patch :: "json option \<Rightarrow> catalog_patch" where
  "resident_patch conversation =
     [(''residency'', Some (JStr ''resident'')), (''state'', Some (JStr ''idle'')), (''recovery'', None)]
     @ (case conversation of Some c \<Rightarrow> [(''conversation'', Some c)] | None \<Rightarrow> [])"

definition idle_patch :: catalog_patch where
  "idle_patch = [(''residency'', Some (JStr ''dormant'')), (''state'', Some (JStr ''idle''))]"

definition recovery_patch :: "json \<Rightarrow> catalog_patch" where
  "recovery_patch condition = [(''residency'', Some (JStr ''dormant'')), (''recovery'', Some condition)]"

definition state_patch :: "string \<Rightarrow> string option \<Rightarrow> json option \<Rightarrow> catalog_patch" where
  "state_patch state used terminal =
     [(''state'', Some (JStr state))] @ (case used of Some t \<Rightarrow> [(''lastUsedAt'', Some (JStr t))] | None \<Rightarrow> [])
     @ (case terminal of Some t \<Rightarrow> [(''lastTerminal'', Some t)] | None \<Rightarrow> [])"

definition mark_resident :: "platform \<Rightarrow> catalog_config \<Rightarrow> catalog_io \<Rightarrow> string \<Rightarrow> int \<Rightarrow> json option \<Rightarrow> json catalog_op" where
  "mark_resident P cfg io ref generation conversation = catalog_transition P cfg io ref generation (resident_patch conversation)"

definition mark_dormant :: "platform \<Rightarrow> catalog_config \<Rightarrow> catalog_io \<Rightarrow> string \<Rightarrow> int \<Rightarrow> json catalog_op" where
  "mark_dormant P cfg io ref generation = catalog_transition P cfg io ref generation idle_patch"

definition mark_recovery :: "platform \<Rightarrow> catalog_config \<Rightarrow> catalog_io \<Rightarrow> string \<Rightarrow> int \<Rightarrow> json \<Rightarrow> json catalog_op" where
  "mark_recovery P cfg io ref generation condition =
     (if valid_recovery_condition condition then catalog_transition P cfg io ref generation (recovery_patch condition)
      else throw corrupt_catalog)"

definition mark_state ::
  "platform \<Rightarrow> catalog_config \<Rightarrow> catalog_io \<Rightarrow> string \<Rightarrow> int \<Rightarrow> string \<Rightarrow> string option \<Rightarrow> json option \<Rightarrow> json catalog_op" where
  "mark_state P cfg io ref generation state used terminal =
     catalog_transition P cfg io ref generation (state_patch state used terminal)"

definition forget_record :: "json \<Rightarrow> catalog \<Rightarrow> catalog" where
  "forget_record r st =
     st\<lparr>cat_records := map_del (cat_records st) (rec_id r),
        cat_names := (case rec_name r of Some n \<Rightarrow> map_del (cat_names st) n | None \<Rightarrow> cat_names st)\<rparr>"

text \<open>\<open>rm\<close> of the file, which does not exist any more when it returns.\<close>

definition remove_file :: "catalog_io \<Rightarrow> string \<Rightarrow> unit catalog_op" where
  "remove_file io session =
     then_do (lift_result (io_remove io)) (\<lambda>_. change (\<lambda>st. st\<lparr>cat_dir := map_del (cat_dir st) (catalog_file session)\<rparr>))"

definition catalog_delete :: "platform \<Rightarrow> catalog_config \<Rightarrow> catalog_io \<Rightarrow> string \<Rightarrow> json option catalog_op" where
  "catalog_delete P cfg io ref =
     then_do (ensure_recovered P cfg io) (\<lambda>_.
     reading (\<lambda>st.
       case resolve_ref st ref of
         None \<Rightarrow> give None
       | Some r \<Rightarrow>
           then_do (remove_file io (rec_id r)) (\<lambda>_.
           then_do (change (forget_record r)) (\<lambda>_. give (Some r)))))"

definition catalog_get :: "platform \<Rightarrow> catalog_config \<Rightarrow> catalog_io \<Rightarrow> string \<Rightarrow> json option catalog_op" where
  "catalog_get P cfg io ref = then_do (ensure_recovered P cfg io) (\<lambda>_. reading (\<lambda>st. give (resolve_ref st ref)))"

section \<open>Listing\<close>

definition all_records :: "platform \<Rightarrow> catalog \<Rightarrow> json list" where
  "all_records P st = sort_by (\<lambda>a b. collate P (rec_id a) (rec_id b)) (map_vals (cat_records st))"

definition catalog_recover :: "platform \<Rightarrow> catalog_config \<Rightarrow> catalog_io \<Rightarrow> json list catalog_op" where
  "catalog_recover P cfg io = then_do (ensure_recovered P cfg io) (\<lambda>_. reading (\<lambda>st. give (all_records P st)))"

definition encode_catalog_cursor :: "string \<Rightarrow> string" where
  "encode_catalog_cursor session = base64url (utf8_bytes (stringify (JObj [(''after'', JStr session)])))"

text \<open>\<open>parse\<close> is \<open>JSON.parse\<close> of the text a base64url string decodes to, nothing when it throws.\<close>

definition decode_cursor :: "(string \<Rightarrow> json option) \<Rightarrow> string \<Rightarrow> string result" where
  "decode_cursor parse cursor =
     (case parse cursor of
        None \<Rightarrow> Inl (catalog_error ''invalid_cursor'')
      | Some v \<Rightarrow>
          (case as_string (field v ''after'') of
             Some s \<Rightarrow> if is_record v \<and> s \<noteq> [] then Inr s else Inl (catalog_error ''invalid_cursor'')
           | None \<Rightarrow> Inl (catalog_error ''invalid_cursor'')))"

definition page_limit :: "int option \<Rightarrow> int result" where
  "page_limit limit =
     (let n = or_else limit 50
      in if \<not> safe_int n \<or> n < 1 \<or> n > 100 then Inl (catalog_error ''invalid_limit'') else Inr n)"

definition catalog_page ::
  "platform \<Rightarrow> (string \<Rightarrow> json option) \<Rightarrow> int option \<Rightarrow> string option \<Rightarrow> catalog \<Rightarrow> (json list \<times> string option) result" where
  "catalog_page P parse limit cursor st =
     bind (page_limit limit) (\<lambda>n.
     bind (case cursor of None \<Rightarrow> Inr None | Some c \<Rightarrow> bind (decode_cursor parse c) (\<lambda>s. Inr (Some s))) (\<lambda>after.
       let records = List.filter (\<lambda>r. case after of None \<Rightarrow> True | Some a \<Rightarrow> a < rec_id r) (all_records P st);
           sessions = take (nat n) records
       in Inr (sessions, if length records > length sessions then Some (encode_catalog_cursor (rec_id (last sessions))) else None)))"

definition catalog_list ::
  "platform \<Rightarrow> catalog_config \<Rightarrow> catalog_io \<Rightarrow> (string \<Rightarrow> json option) \<Rightarrow> int option \<Rightarrow> string option
     \<Rightarrow> (json list \<times> string option) catalog_op" where
  "catalog_list P cfg io parse limit cursor =
     then_do (ensure_recovered P cfg io) (\<lambda>_. reading (\<lambda>st. lift_result (catalog_page P parse limit cursor st)))"

section \<open>Runs\<close>

datatype catalog_call =
    CallCreate create_input
  | CallReplace string replace_input
  | CallResident string int "json option"
  | CallDormant string int
  | CallRecovery string int json
  | CallState string int string "string option" "json option"
  | CallDelete string
  | CallGet string
  | CallLoad

fun run_call :: "platform \<Rightarrow> catalog_config \<Rightarrow> catalog_io \<Rightarrow> catalog_call \<Rightarrow> catalog \<Rightarrow> bool \<times> catalog" where
  "run_call P cfg io (CallCreate c) st = map_prod is_ok id (catalog_create P cfg io c st)"
| "run_call P cfg io (CallReplace ref c) st = map_prod is_ok id (catalog_replace P cfg io ref c st)"
| "run_call P cfg io (CallResident ref g c) st = map_prod is_ok id (mark_resident P cfg io ref g c st)"
| "run_call P cfg io (CallDormant ref g) st = map_prod is_ok id (mark_dormant P cfg io ref g st)"
| "run_call P cfg io (CallRecovery ref g c) st = map_prod is_ok id (mark_recovery P cfg io ref g c st)"
| "run_call P cfg io (CallState ref g s u t) st = map_prod is_ok id (mark_state P cfg io ref g s u t st)"
| "run_call P cfg io (CallDelete ref) st = map_prod is_ok id (catalog_delete P cfg io ref st)"
| "run_call P cfg io (CallGet ref) st = map_prod is_ok id (catalog_get P cfg io ref st)"
| "run_call P cfg io CallLoad st = map_prod is_ok id (catalog_recover P cfg io st)"

definition catalog_step :: "platform \<Rightarrow> catalog_config \<Rightarrow> catalog_io \<times> catalog_call \<Rightarrow> catalog \<Rightarrow> catalog" where
  "catalog_step P cfg = (\<lambda>(io, c) st. snd (run_call P cfg io c st))"

end
