(* ===== verification/CatalogLaws.thy ===== *)
theory CatalogLaws
  imports SessionCatalog CommandLaws
begin

text \<open>
  The invariant of the session catalog: the records are valid and filed under their identifiers, the index
  of names is exactly the names of the records, and no name is another session's identifier.
\<close>

section \<open>Fields of a changed record\<close>

lemma field_del: "is_record v \<Longrightarrow> field (del_field v k) k' = (if k' = k then None else field v k')"
  by (cases v) auto

lemma is_record_del [simp]: "is_record (del_field v k) = is_record v"
  by (cases v) auto

lemma is_record_patch [simp]: "is_record (apply_catalog_patch p r) = is_record r"
  by (induction p r rule: apply_catalog_patch.induct) (auto split: option.splits)

lemma field_patch:
  assumes "is_record r" and "k \<notin> fst ` set p"
  shows "field (apply_catalog_patch p r) k = field r k"
  using assms by (induction p r rule: apply_catalog_patch.induct) (auto simp: field_del split: option.splits)

lemma field_patch_last:
  assumes "is_record r" and "map_of p k = Some v" and "distinct (List.map fst p)"
  shows "field (apply_catalog_patch p r) k = v"
  using assms
proof (induction p r rule: apply_catalog_patch.induct)
  case (2 k' w p r)
  let ?r = "case w of Some x \<Rightarrow> set_field r k' x | None \<Rightarrow> del_field r k'"
  have r: "is_record ?r"
    using "2.prems"(1) by (simp split: option.split)
  show ?case
  proof (cases "k = k'")
    case True
    then have "field (apply_catalog_patch p ?r) k = field ?r k"
      using "2.prems"(3) by (intro field_patch [OF r]) simp
    then show ?thesis
      using True "2.prems" by (auto simp: field_del split: option.split)
  next
    case False
    then show ?thesis
      using "2.IH" [OF r] "2.prems" by simp
  qed
qed simp

lemma field_patched:
  assumes "is_record r" and "distinct (List.map fst p)"
  shows "field (apply_catalog_patch p r) k = (case map_of p k of Some v \<Rightarrow> v | None \<Rightarrow> field r k)"
  using field_patch_last [OF assms(1) _ assms(2)] field_patch [OF assms(1), of k p]
  by (simp add: map_of_eq_None_iff split: option.split)

lemma valid_record_parts:
  assumes "valid_catalog_record P cfg r"
  shows "is_record r" and "field r ''sessionId'' = Some (JStr (rec_id r))" and "session_id_ok (rec_id r)"
    and "field r ''generation'' = Some (JNum (rec_int r ''generation''))" and "field r ''revision'' = Some (JNum (rec_int r ''revision''))"
    and "\<exists>v. field r ''spec'' = Some v \<and> is_ok (validate_persisted_spec cfg v)"
  using assms
  by (auto simp: valid_catalog_record_def safe_int_from_def rec_int_def str_field_def as_string_string as_int_number
      split: option.splits)

lemma next_record_ok:
  assumes "next_record P cfg now cur patch = Inr new"
  shows "valid_catalog_record P cfg new" and "new = successor_record now cur patch"
  using assms by (auto simp: next_record_def Let_def split: if_splits)

lemma successor_fields:
  assumes "is_record cur"
  shows "is_record (successor_record now cur patch)" and "rec_id (successor_record now cur patch) = rec_id cur"
    and "rec_int (successor_record now cur patch) ''revision'' = rec_int cur ''revision'' + 1"
    and "field (successor_record now cur patch) k =
      (if k = ''updatedAt'' then Some (JStr now) else if k = ''revision'' then Some (JNum (rec_int cur ''revision'' + 1))
       else if k = ''sessionId'' then Some (JStr (rec_id cur)) else if k = ''formatVersion'' then Some (JNum 1)
       else field (apply_catalog_patch patch cur) k)"
  using assms by (simp_all add: successor_record_def str_field_def rec_int_def)

lemma next_record_fields:
  assumes "next_record P cfg now cur patch = Inr new" and "is_record cur"
  shows "rec_id new = rec_id cur" and "rec_int new ''revision'' = rec_int cur ''revision'' + 1"
    and "k \<notin> {''formatVersion'', ''sessionId'', ''revision'', ''updatedAt''} \<Longrightarrow> field new k = field (apply_catalog_patch patch cur) k"
  by (simp_all add: next_record_ok(2) [OF assms(1)] successor_fields [OF assms(2)])

lemma next_record_keeps:
  assumes "next_record P cfg now cur patch = Inr new" and "is_record cur"
    and "k \<notin> {''formatVersion'', ''sessionId'', ''revision'', ''updatedAt''}" and "k \<notin> fst ` set patch"
  shows "field new k = field cur k"
  using next_record_fields(3) [OF assms(1-3)] field_patch [OF assms(2,4)] by simp

section \<open>The indexes\<close>

definition cat_index_ok :: "platform \<Rightarrow> catalog_config \<Rightarrow> (string, json) jsmap \<Rightarrow> (string, string) jsmap \<Rightarrow> bool" where
  "cat_index_ok P cfg records names \<longleftrightarrow>
     js_map records \<and> js_map names
     \<and> (\<forall>i r. map_get records i = Some r \<longrightarrow> rec_id r = i \<and> valid_catalog_record P cfg r)
     \<and> (\<forall>n i. map_get names n = Some i \<longleftrightarrow> (\<exists>r. map_get records i = Some r \<and> rec_name r = Some n))
     \<and> (\<forall>i r n. map_get records i = Some r \<longrightarrow> rec_name r = Some n \<longrightarrow> map_has records n \<longrightarrow> n = i)"

definition catalog_ok :: "platform \<Rightarrow> catalog_config \<Rightarrow> catalog \<Rightarrow> bool" where
  "catalog_ok P cfg st \<longleftrightarrow> cat_index_ok P cfg (cat_records st) (cat_names st)"

lemma catalog_ok_dir [simp]: "catalog_ok P cfg (st\<lparr>cat_dir := d\<rparr>) = catalog_ok P cfg st"
  by (simp add: catalog_ok_def)

lemma catalog_ok_load [simp]: "catalog_ok P cfg (st\<lparr>cat_load := l\<rparr>) = catalog_ok P cfg st"
  by (simp add: catalog_ok_def)

lemma cat_index_okD:
  assumes "cat_index_ok P cfg records names"
  shows "js_map records" "js_map names" "map_get records i = Some r \<Longrightarrow> rec_id r = i"
    "map_get records i = Some r \<Longrightarrow> valid_catalog_record P cfg r"
    "map_get names n = Some i \<longleftrightarrow> (\<exists>r. map_get records i = Some r \<and> rec_name r = Some n)"
    "map_get records i = Some r \<Longrightarrow> rec_name r = Some n \<Longrightarrow> map_has records n \<Longrightarrow> n = i"
  using assms unfolding cat_index_ok_def by blast+

lemma cat_index_ok_empty: "cat_index_ok P cfg [] []"
  by (simp add: cat_index_ok_def)

lemma id_not_foreign_name:
  assumes "cat_index_ok P cfg records names" and "map_get records i = Some r"
  shows "map_get names i = None \<or> map_get names i = Some i"
proof (cases "map_get names i")
  case (Some j)
  then obtain x where "map_get records j = Some x" "rec_name x = Some i"
    using cat_index_okD(5) [OF assms(1)] by blast
  then have "i = j"
    using cat_index_okD(6) [OF assms(1)] assms(2) by simp
  then show ?thesis
    using Some by simp
qed simp

text \<open>A record takes the place of the one with its identifier, or a new place, when its name is free.\<close>

definition name_free :: "(string, json) jsmap \<Rightarrow> (string, string) jsmap \<Rightarrow> json \<Rightarrow> bool" where
  "name_free records names r \<longleftrightarrow>
     (\<forall>n. rec_name r = Some n \<longrightarrow> (map_get names n = None \<or> map_get names n = Some (rec_id r)) \<and> (map_has records n \<longrightarrow> n = rec_id r))"

lemma cat_index_ok_put:
  assumes ok: "cat_index_ok P cfg records names" and valid: "valid_catalog_record P cfg r" and free: "name_free records names r"
    and id_free: "map_get names (rec_id r) = None \<or> map_get names (rec_id r) = Some (rec_id r)"
    and names': "js_map names'"
      "\<And>n i. map_get names' n = Some i \<longleftrightarrow> (if rec_name r = Some n then i = rec_id r else i \<noteq> rec_id r \<and> map_get names n = Some i)"
  shows "cat_index_ok P cfg (map_set records (rec_id r) r) names'"
  unfolding cat_index_ok_def
proof (intro conjI allI impI)
  note D = cat_index_okD [OF ok]
  show "js_map (map_set records (rec_id r) r)" "js_map names'"
    using D(1) names'(1) by simp_all
  fix i x
  show "rec_id x = i" "valid_catalog_record P cfg x" if "map_get (map_set records (rec_id r) r) i = Some x"
    using that D(3,4) valid by (auto split: if_splits)
  show "n = i" if "map_get (map_set records (rec_id r) r) i = Some x" "rec_name x = Some n" "map_has (map_set records (rec_id r) r) n" for n
  proof (cases "i = rec_id r")
    case True
    then show ?thesis
      using that free by (auto simp: name_free_def split: if_splits)
  next
    case False
    then have x: "map_get records i = Some x"
      using that(1) by simp
    show ?thesis
    proof (cases "n = rec_id r")
      case True
      then have "map_get names (rec_id r) = Some i"
        using D(5) x that(2) by blast
      then show ?thesis
        using id_free False by auto
    next
      case False
      then show ?thesis
        using D(6) [OF x that(2)] that(3) by simp
    qed
  qed
next
  note D = cat_index_okD [OF ok]
  fix n i
  show "map_get names' n = Some i \<longleftrightarrow> (\<exists>x. map_get (map_set records (rec_id r) r) i = Some x \<and> rec_name x = Some n)"
  proof (cases "i = rec_id r")
    case True
    then show ?thesis
      using names'(2) by auto
  next
    case False
    have "rec_name r \<noteq> Some n" if "map_get records i = Some x" "rec_name x = Some n" for x
    proof
      assume "rec_name r = Some n"
      then have "map_get names n = None \<or> map_get names n = Some (rec_id r)"
        using free by (simp add: name_free_def)
      moreover have "map_get names n = Some i"
        using D(5) that by blast
      ultimately show False
        using False by auto
    qed
    then show ?thesis
      using False D(5) [of n i] names'(2) [of n i] by auto
  qed
qed

lemma cat_index_ok_replace:
  assumes ok: "catalog_ok P cfg st" and cur: "map_get (cat_records st) (rec_id cur) = Some cur"
    and valid: "valid_catalog_record P cfg new" and same: "rec_id new = rec_id cur"
    and free: "name_free (cat_records st) (cat_names st) new"
  shows "catalog_ok P cfg (replace_indexes cur new st)"
proof -
  let ?names = "case rec_name cur of Some n \<Rightarrow> if rec_name new \<noteq> Some n then map_del (cat_names st) n else cat_names st | None \<Rightarrow> cat_names st"
  let ?names' = "case rec_name new of Some n \<Rightarrow> map_set ?names n (rec_id new) | None \<Rightarrow> ?names"
  note D = cat_index_okD [OF ok [unfolded catalog_ok_def]]
  have own: "map_get (cat_names st) n = Some (rec_id cur) \<longleftrightarrow> rec_name cur = Some n" for n
    using D(5) [of n "rec_id cur"] cur by auto
  have js: "js_map ?names'"
    using D(2) by (simp split: option.split)
  have get: "map_get ?names' n = Some i \<longleftrightarrow> (if rec_name new = Some n then i = rec_id new else i \<noteq> rec_id new \<and> map_get (cat_names st) n = Some i)" for n i
    using own [of n] same by (auto split: option.splits)
  have "map_get (cat_names st) (rec_id new) = None \<or> map_get (cat_names st) (rec_id new) = Some (rec_id new)"
    using id_not_foreign_name [OF ok [unfolded catalog_ok_def] cur] same by simp
  then have "cat_index_ok P cfg (map_set (cat_records st) (rec_id new) new) ?names'"
    by (rule cat_index_ok_put [OF ok [unfolded catalog_ok_def] valid free _ js get])
  then show ?thesis
    by (simp add: catalog_ok_def replace_indexes_def Let_def)
qed

lemma cat_index_ok_add:
  assumes ok: "catalog_ok P cfg st" and valid: "valid_catalog_record P cfg r" and new: "map_get (cat_records st) (rec_id r) = None"
    and free: "name_free (cat_records st) (cat_names st) r" and id_free: "map_get (cat_names st) (rec_id r) = None"
  shows "catalog_ok P cfg (add_record r st)"
proof -
  let ?names' = "case rec_name r of Some n \<Rightarrow> map_set (cat_names st) n (rec_id r) | None \<Rightarrow> cat_names st"
  note D = cat_index_okD [OF ok [unfolded catalog_ok_def]]
  have none: "map_get (cat_names st) n \<noteq> Some (rec_id r)" for n
    using D(5) new by auto
  have js: "js_map ?names'"
    using D(2) by (simp split: option.split)
  have get: "map_get ?names' n = Some i \<longleftrightarrow> (if rec_name r = Some n then i = rec_id r else i \<noteq> rec_id r \<and> map_get (cat_names st) n = Some i)" for n i
    using none [of n] by (auto split: option.splits)
  have "cat_index_ok P cfg (map_set (cat_records st) (rec_id r) r) ?names'"
    by (rule cat_index_ok_put [OF ok [unfolded catalog_ok_def] valid free _ js get]) (simp add: id_free)
  then show ?thesis
    by (simp add: catalog_ok_def add_record_def)
qed

lemma cat_index_ok_forget:
  assumes ok: "catalog_ok P cfg st" and cur: "map_get (cat_records st) (rec_id r) = Some r"
  shows "catalog_ok P cfg (forget_record r st)"
proof -
  note D = cat_index_okD [OF ok [unfolded catalog_ok_def]]
  have own: "map_get (cat_names st) n = Some (rec_id r) \<longleftrightarrow> rec_name r = Some n" for n
    using D(5) [of n "rec_id r"] cur by auto
  have "cat_index_ok P cfg (map_del (cat_records st) (rec_id r)) (case rec_name r of Some n \<Rightarrow> map_del (cat_names st) n | None \<Rightarrow> cat_names st)"
    unfolding cat_index_ok_def
  proof (intro conjI allI)
    fix n i
    show "map_get (case rec_name r of Some n \<Rightarrow> map_del (cat_names st) n | None \<Rightarrow> cat_names st) n = Some i \<longleftrightarrow>
        (\<exists>x. map_get (map_del (cat_records st) (rec_id r)) i = Some x \<and> rec_name x = Some n)"
      using own [of n] D(5) [of n i] by (cases "i = rec_id r") (auto split: option.splits)
  qed (use D in \<open>auto split: option.splits if_splits\<close>)
  then show ?thesis
    by (simp add: catalog_ok_def forget_record_def)
qed

section \<open>Loading\<close>

lemma register_record_ok:
  assumes ok: "cat_index_ok P cfg records names" and r: "register_record r (records, names) = Inr (records', names')"
    and valid: "valid_catalog_record P cfg r" and new: "map_get records (rec_id r) = None"
  shows "cat_index_ok P cfg records' names'" and "records' = map_set records (rec_id r) r"
    and "map_get names (rec_id r) = None"
    and "rec_name r = Some n \<Longrightarrow> map_get names n = None \<and> (map_has records n \<longrightarrow> n = rec_id r)"
proof -
  note D = cat_index_okD [OF ok]
  have none: "map_get names n \<noteq> Some (rec_id r)" for n
    using D(5) new by auto
  show id_free: "map_get names (rec_id r) = None"
    using r none by (auto simp: register_record_def split: option.splits if_splits)
  show recs: "records' = map_set records (rec_id r) r"
    using r by (auto simp: register_record_def split: option.splits if_splits)
  have names': "names' = (case rec_name r of Some n \<Rightarrow> map_set names n (rec_id r) | None \<Rightarrow> names)"
    using r by (auto simp: register_record_def split: option.splits if_splits)
  have free: "map_get names n = None \<and> (map_has records n \<longrightarrow> n = rec_id r)" if "rec_name r = Some n" for n
    using r that none [of n] by (auto simp: register_record_def split: option.splits if_splits)
  then show "rec_name r = Some n \<Longrightarrow> map_get names n = None \<and> (map_has records n \<longrightarrow> n = rec_id r)" .
  have js: "js_map names'"
    using D(2) by (simp add: names' split: option.split)
  have get: "map_get names' n = Some i \<longleftrightarrow> (if rec_name r = Some n then i = rec_id r else i \<noteq> rec_id r \<and> map_get names n = Some i)" for n i
    using none [of n] by (auto simp: names' split: option.splits)
  show "cat_index_ok P cfg records' names'"
    unfolding recs by (rule cat_index_ok_put [OF ok valid _ _ js get]) (use free id_free in \<open>auto simp: name_free_def\<close>)
qed

lemma read_nothing: "read_private_json_if_exists u f = Inr None \<longleftrightarrow> f = None"
  by (auto simp: read_private_json_if_exists_def split: option.splits sum.splits file_text.splits)

lemma load_catalog_file_cases:
  assumes "load_catalog_file P cfg dir name (used, records, names) = Inr (used', records', names')"
  obtains (missing) "records' = records" "names' = names" "map_get dir name = None"
  | (found) r where "read_private_json_if_exists (current_uid P) (map_get dir name) = Inr (Some r)" "valid_catalog_record P cfg r"
      "name = catalog_file (rec_id r)" "map_get records (rec_id r) = None" "register_record r (records, names) = Inr (records', names')"
proof -
  obtain v where v: "read_private_json_if_exists (current_uid P) (map_get dir name) = Inr v"
    using assms by (auto simp: load_catalog_file_def Let_def bind_ok split: if_splits)
  show thesis
  proof (cases v)
    case None
    then have "map_get dir name = None"
      using v by (simp add: read_nothing)
    moreover have "records' = records" "names' = names"
      using assms v None by (auto simp: load_catalog_file_def Let_def split: if_splits)
    ultimately show thesis
      using missing by blast
  next
    case (Some r)
    then show thesis
      using assms v found [of r] by (auto simp: load_catalog_file_def Let_def bind_ok split: if_splits)
  qed
qed

lemma load_catalog_file_ok:
  assumes "cat_index_ok P cfg records names" and "load_catalog_file P cfg dir name (used, records, names) = Inr (used', records', names')"
  shows "cat_index_ok P cfg records' names'"
  using assms(2)
  by (rule load_catalog_file_cases) (use assms(1) register_record_ok(1) in blast)+

lemma load_catalog_files_ok:
  assumes "cat_index_ok P cfg records names" and "load_catalog_files P cfg dir files (used, records, names) = Inr (used', records', names')"
  shows "cat_index_ok P cfg records' names'"
  using assms
proof (induction files arbitrary: used records names)
  case (Cons f fs)
  then obtain u rs ns where "load_catalog_file P cfg dir f (used, records, names) = Inr (u, rs, ns)"
    "load_catalog_files P cfg dir fs (u, rs, ns) = Inr (used', records', names')"
    by (auto simp: bind_ok)
  then show ?case
    using Cons.IH load_catalog_file_ok [OF Cons.prems(1)] by blast
qed simp

lemma write_frame: "\<exists>res dir. write_catalog_record P cfg io r st = (res, st\<lparr>cat_dir := dir\<rparr>)"
proof (cases "compact_size r > cc_max_record_bytes cfg")
  case True
  then have "write_catalog_record P cfg io r st = (Inl (catalog_error ''catalog_record_too_large''), st\<lparr>cat_dir := cat_dir st\<rparr>)"
    by (simp add: write_catalog_record_def)
  then show ?thesis
    by blast
qed (auto simp: write_catalog_record_def Let_def split: prod.splits)

text \<open>The restart's pass over the records changes no name.\<close>

definition same_names :: "(string, json) jsmap \<Rightarrow> catalog \<Rightarrow> bool" where
  "same_names records st \<longleftrightarrow>
     (\<forall>i r. map_get records i = Some r \<longrightarrow> (\<exists>x. map_get (cat_records st) i = Some x \<and> rec_name x = rec_name r))"

lemma dormant_patch_keys: "fst ` set (dormant_patch r) \<subseteq> {''residency'', ''state'', ''environment''}"
  by (auto simp: dormant_patch_def Let_def split: if_splits)

lemma make_dormant_keeps:
  assumes r: "map_get records i = Some r" "rec_id r = i" "valid_catalog_record P cfg r"
  shows "keeps (\<lambda>st. catalog_ok P cfg st \<and> same_names records st) (make_dormant P cfg io r)"
proof (rule keepsI)
  fix st
  assume I: "catalog_ok P cfg st \<and> same_names records st"
  then have ok: "cat_index_ok P cfg (cat_records st) (cat_names st)" and same: "same_names records st"
    by (simp_all add: catalog_ok_def)
  note valid = valid_record_parts [OF r(3)]
  obtain cur where cur: "map_get (cat_records st) i = Some cur" "rec_name cur = rec_name r"
    using I r(1) by (auto simp: same_names_def)
  show "catalog_ok P cfg (snd (make_dormant P cfg io r st)) \<and> same_names records (snd (make_dormant P cfg io r st))"
  proof (cases "dormant_patch r = [] \<or> (\<exists>e. next_record P cfg (io_now io (rec_id r)) r (dormant_patch r) = Inl e)")
    case True
    then show ?thesis
      using I by (auto simp: make_dormant_def then_do_def)
  next
    case False
    then obtain new where new: "next_record P cfg (io_now io (rec_id r)) r (dormant_patch r) = Inr new" "dormant_patch r \<noteq> []"
      by (cases "next_record P cfg (io_now io (rec_id r)) r (dormant_patch r)") auto
    obtain res dir where w: "write_catalog_record P cfg io new st = (res, st\<lparr>cat_dir := dir\<rparr>)"
      using write_frame by blast
    have id: "rec_id new = i"
      using next_record_fields(1) [OF new(1) valid(1)] r(2) by simp
    have "field new ''name'' = field r ''name''"
    proof (rule next_record_keeps [OF new(1) valid(1)])
      show "''name'' \<notin> fst ` set (dormant_patch r)"
        using subsetD [OF dormant_patch_keys [of r], of "''name''"] by fastforce
    qed simp
    then have name: "rec_name new = rec_name r"
      by (simp add: rec_name_def)
    note D = cat_index_okD [OF ok]
    have own: "map_get (cat_names st) n = Some i \<longleftrightarrow> rec_name r = Some n" for n
      using D(5) [of n i] cur by auto
    have id_free: "map_get (cat_names st) (rec_id new) = None \<or> map_get (cat_names st) (rec_id new) = Some (rec_id new)"
      using id_not_foreign_name [OF ok cur(1)] id by simp
    have "cat_index_ok P cfg (map_set (cat_records st) (rec_id new) new) (cat_names st)"
    proof (rule cat_index_ok_put [OF ok next_record_ok(1) [OF new(1)] _ id_free D(2)])
      show "name_free (cat_records st) (cat_names st) new"
        unfolding name_free_def
      proof (intro allI impI conjI)
        fix n
        assume n: "rec_name new = Some n"
        then show "map_get (cat_names st) n = None \<or> map_get (cat_names st) n = Some (rec_id new)"
          using own [of n] name id by simp
        show "n = rec_id new" if "map_has (cat_records st) n"
          using D(6) [OF cur(1) _ that] n name id cur(2) by simp
      qed
      show "map_get (cat_names st) n = Some j \<longleftrightarrow>
          (if rec_name new = Some n then j = rec_id new else j \<noteq> rec_id new \<and> map_get (cat_names st) n = Some j)" for n j
        using own [of n] name id by auto
    qed
    then have ok': "catalog_ok P cfg (st\<lparr>cat_dir := dir, cat_records := map_set (cat_records st) (rec_id new) new\<rparr>)"
      by (simp add: catalog_ok_def)
    have same': "same_names records (st\<lparr>cat_dir := dir, cat_records := map_set (cat_records st) (rec_id new) new\<rparr>)"
      using same r(1) name id by (auto simp: same_names_def)
    show ?thesis
    proof (cases res)
      case Inl
      then have "snd (make_dormant P cfg io r st) = st\<lparr>cat_dir := dir\<rparr>"
        using new w by (simp add: make_dormant_def then_do_def)
      then show ?thesis
        using I by (simp add: same_names_def)
    next
      case Inr
      then have "snd (make_dormant P cfg io r st) = st\<lparr>cat_dir := dir, cat_records := map_set (cat_records st) (rec_id new) new\<rparr>"
        using new w by (simp add: make_dormant_def then_do_def)
      then show ?thesis
        using ok' same' by simp
    qed
  qed
qed

lemma for_each_keeps: "(\<And>x. x \<in> set xs \<Longrightarrow> keeps I (body x)) \<Longrightarrow> keeps I (for_each body xs)"
proof (induction xs)
  case Nil
  show ?case
    by (simp add: keeps_def)
next
  case (Cons x xs)
  have "keeps I (then_do (body x) (\<lambda>_. for_each body xs))"
    using Cons by (intro keeps_then) auto
  then show ?case
    by (simp add: keeps_def)
qed

lemma cat_index_ok_vals: "cat_index_ok P cfg records names \<Longrightarrow> r \<in> set (map_vals records) \<Longrightarrow> map_get records (rec_id r) = Some r"
  by (auto simp: map_get_iff dest!: cat_index_okD(1,3) simp: cat_index_ok_def)

lemma load_catalog_keeps:
  assumes ok: "catalog_ok P cfg st"
  shows "catalog_ok P cfg (snd (load_catalog P cfg io st))"
proof -
  have dormant: "catalog_ok P cfg (snd (for_each (make_dormant P cfg io) (map_vals records) (st\<lparr>cat_records := records, cat_names := ids\<rparr>)))"
    if load: "load_catalog_files P cfg (cat_dir st) files (0, [], []) = Inr (used, records, ids)" for files used records ids
  proof -
    have index: "cat_index_ok P cfg records ids"
      by (rule load_catalog_files_ok [OF cat_index_ok_empty load])
    have "keeps (\<lambda>st. catalog_ok P cfg st \<and> same_names records st) (for_each (make_dormant P cfg io) (map_vals records))"
      by (rule for_each_keeps, rule make_dormant_keeps)
        (use cat_index_ok_vals [OF index] cat_index_okD(4) [OF index] in blast)+
    from keepsD [OF this, of "st\<lparr>cat_records := records, cat_names := ids\<rparr>"] show ?thesis
      using index by (auto simp: catalog_ok_def same_names_def)
  qed
  show ?thesis
    using ok by (auto simp: load_catalog_def then_do_def Let_def dormant split: sum.splits prod.splits)
qed

lemma ensure_recovered_keeps:
  assumes "catalog_ok P cfg st"
  shows "catalog_ok P cfg (snd (ensure_recovered P cfg io st))"
  using load_catalog_keeps [OF assms, of io] assms by (auto simp: ensure_recovered_def split: catalog_load.splits prod.splits sum.splits)

end
