(* ===== verification/CatalogSteps.thy ===== *)
theory CatalogSteps
  imports CatalogLaws Machine
begin

text \<open>
  What the calls of a loaded catalog do to it: each leaves its indexes alone, adds a record under a free
  identifier and a free name, puts the next revision of a record in its place, or forgets one.  The step
  relation keeps the invariant of the indexes, and every call is a step of it.
\<close>

section \<open>The step relation\<close>

definition file_put :: "platform \<Rightarrow> json \<Rightarrow> catalog \<Rightarrow> catalog" where
  "file_put P r st = st\<lparr>cat_dir := map_set (cat_dir st) (catalog_file (rec_id r)) (published_file (current_uid P) r)\<rparr>"

definition file_dropped :: "string \<Rightarrow> catalog \<Rightarrow> catalog" where
  "file_dropped session st = st\<lparr>cat_dir := map_del (cat_dir st) (catalog_file session)\<rparr>"

inductive catalog_write :: "platform \<Rightarrow> catalog_config \<Rightarrow> catalog_io \<Rightarrow> catalog \<Rightarrow> catalog \<Rightarrow> bool" for P cfg io where
  unchanged: "catalog_write P cfg io st st"
| unacknowledged: "\<lbrakk>valid_catalog_record P cfg r; io_write io (rec_id r) = PublishedThrew e\<rbrakk> \<Longrightarrow> catalog_write P cfg io st (file_put P r st)"
| added: "\<lbrakk>valid_catalog_record P cfg r; map_get (cat_records st) (rec_id r) = None; map_get (cat_names st) (rec_id r) = None;
     name_free (cat_records st) (cat_names st) r; length (cat_records st) < cc_max_sessions cfg\<rbrakk>
     \<Longrightarrow> catalog_write P cfg io st (add_record r (file_put P r st))"
| replaced: "\<lbrakk>map_get (cat_records st) (rec_id cur) = Some cur; valid_catalog_record P cfg new; rec_id new = rec_id cur;
     name_free (cat_records st) (cat_names st) new; rec_int new ''revision'' = rec_int cur ''revision'' + 1;
     rec_int cur ''generation'' \<le> rec_int new ''generation''\<rbrakk>
     \<Longrightarrow> catalog_write P cfg io st (replace_indexes cur new (file_put P new st))"

inductive catalog_change :: "platform \<Rightarrow> catalog_config \<Rightarrow> catalog_io \<Rightarrow> catalog \<Rightarrow> catalog \<Rightarrow> bool" for P cfg io where
  written: "catalog_write P cfg io st st' \<Longrightarrow> catalog_change P cfg io st st'"
| removed: "map_get (cat_records st) (rec_id r) = Some r \<Longrightarrow> catalog_change P cfg io st (forget_record r (file_dropped (rec_id r) st))"

lemma file_frame [simp]:
  "cat_records (file_put P r st) = cat_records st" "cat_names (file_put P r st) = cat_names st" "cat_load (file_put P r st) = cat_load st"
  "cat_records (file_dropped i st) = cat_records st" "cat_names (file_dropped i st) = cat_names st" "cat_load (file_dropped i st) = cat_load st"
  "catalog_ok Q cfg (file_put P r st) = catalog_ok Q cfg st" "catalog_ok Q cfg (file_dropped i st) = catalog_ok Q cfg st"
  by (simp_all add: file_put_def file_dropped_def catalog_ok_def)

text \<open>The three ends of a write.\<close>

lemma write_cases:
  obtains (stored) "write_catalog_record P cfg io r st = (Inr (), file_put P r st)" "compact_size r \<le> cc_max_record_bytes cfg"
      "io_write io (rec_id r) = Published"
  | (refused) e where "write_catalog_record P cfg io r st = (Inl e, st)"
  | (threw) e where "write_catalog_record P cfg io r st = (Inl e, file_put P r st)" "io_write io (rec_id r) = PublishedThrew e"
proof (cases "compact_size r > cc_max_record_bytes cfg")
  case True
  then show thesis
    using refused by (simp add: write_catalog_record_def)
next
  case False
  then show thesis
    using stored refused threw by (cases "io_write io (rec_id r)") (simp_all add: write_catalog_record_def file_put_def)
qed

lemma changed_frame [simp]:
  "cat_load (add_record r st) = cat_load st" "cat_load (replace_indexes cur new st) = cat_load st" "cat_load (forget_record r st) = cat_load st"
  "cat_dir (add_record r st) = cat_dir st" "cat_dir (replace_indexes cur new st) = cat_dir st" "cat_dir (forget_record r st) = cat_dir st"
  "cat_records (add_record r st) = map_set (cat_records st) (rec_id r) r"
  "cat_records (replace_indexes cur new st) = map_set (cat_records st) (rec_id new) new"
  "cat_records (forget_record r st) = map_del (cat_records st) (rec_id r)"
  by (simp_all add: add_record_def replace_indexes_def forget_record_def Let_def)

lemma write_keeps_ok:
  assumes "catalog_write P cfg io st st'" and "catalog_ok P cfg st"
  shows "catalog_ok P cfg st'"
  using assms
proof (cases rule: catalog_write.cases)
  case (added r)
  then show ?thesis
    using cat_index_ok_add [of P cfg "file_put P r st" r] assms(2) by simp
next
  case (replaced cur new)
  then show ?thesis
    using cat_index_ok_replace [of P cfg "file_put P new st" cur new] assms(2) by simp
qed simp_all

lemma change_keeps_ok:
  assumes "catalog_change P cfg io st st'" and "catalog_ok P cfg st"
  shows "catalog_ok P cfg st'"
  using assms
proof (cases rule: catalog_change.cases)
  case (removed r)
  then show ?thesis
    using cat_index_ok_forget [of P cfg "file_dropped (rec_id r) st" r] assms(2) by simp
qed (simp add: write_keeps_ok)

lemma write_load: "catalog_write P cfg io st st' \<Longrightarrow> cat_load st' = cat_load st"
  by (erule catalog_write.cases) simp_all

lemma change_load: "catalog_change P cfg io st st' \<Longrightarrow> cat_load st' = cat_load st"
  by (erule catalog_change.cases) (simp_all add: write_load)

text \<open>A record that stays in the catalog only record_advances, and one that another call has written is never the same version again.\<close>

definition record_advances :: "json \<Rightarrow> json \<Rightarrow> bool" where
  "record_advances r r' \<longleftrightarrow>
     r' = r \<or> (rec_int r ''revision'' < rec_int r' ''revision'' \<and> rec_int r ''generation'' \<le> rec_int r' ''generation'')"

lemma record_advances_refl [simp]: "record_advances r r"
  by (simp add: record_advances_def)

lemma record_advances_trans: "record_advances r s \<Longrightarrow> record_advances s t \<Longrightarrow> record_advances r t"
  by (auto simp: record_advances_def)

lemma write_advances:
  assumes "catalog_write P cfg io st st'" and "map_get (cat_records st) i = Some r"
  shows "\<exists>r'. map_get (cat_records st') i = Some r' \<and> record_advances r r'"
  using assms by (cases rule: catalog_write.cases) (auto simp: record_advances_def)

section \<open>The calls\<close>

lemma ensure_recovered_loaded [simp]: "cat_load st = Loaded \<Longrightarrow> ensure_recovered P cfg io st = (Inr (), st)"
  by (simp add: ensure_recovered_def)

lemma then_recovered:
  "cat_load st = Loaded \<Longrightarrow> then_do (ensure_recovered P cfg io) f st = f () st"
  by simp

lemma resolve_ref_record:
  assumes "catalog_ok P cfg st" and "resolve_ref st ref = Some r"
  shows "map_get (cat_records st) (rec_id r) = Some r" and "valid_catalog_record P cfg r" and "is_record r"
    and "ref = rec_id r \<or> rec_name r = Some ref"
proof -
  note D = cat_index_okD [OF assms(1) [unfolded catalog_ok_def]]
  show get: "map_get (cat_records st) (rec_id r) = Some r"
    using assms(2) D(3) by (auto simp: resolve_ref_def split: option.splits)
  then show "valid_catalog_record P cfg r"
    by (rule D(4))
  then show "is_record r"
    by (rule valid_record_parts)
  show "ref = rec_id r \<or> rec_name r = Some ref"
  proof (cases "map_get (cat_records st) ref")
    case None
    then obtain i where i: "map_get (cat_names st) ref = Some i" "map_get (cat_records st) i = Some r"
      using assms(2) by (auto simp: resolve_ref_def split: option.splits)
    then show ?thesis
      using D(5) [of ref i] by auto
  next
    case (Some x)
    then show ?thesis
      using assms(2) D(3) by (auto simp: resolve_ref_def)
  qed
qed

lemma name_available_free:
  assumes "catalog_ok P cfg st" and "\<And>n. rec_name r = Some n \<Longrightarrow> name_available st n (rec_id r) = Inr ()"
  shows "name_free (cat_records st) (cat_names st) r"
  unfolding name_free_def
proof (intro allI impI conjI)
  fix n
  assume "rec_name r = Some n"
  then have free: "name_available st n (rec_id r) = Inr ()"
    by (rule assms(2))
  show "map_get (cat_names st) n = None \<or> map_get (cat_names st) n = Some (rec_id r)"
    using free by (auto simp: name_available_def split: if_splits option.splits)
  show "n = rec_id r" if "map_has (cat_records st) n"
  proof -
    obtain x where x: "map_get (cat_records st) n = Some x"
      using \<open>map_has (cat_records st) n\<close> by auto
    then have "rec_id x = n"
      using assms(1) by (auto simp: catalog_ok_def dest: cat_index_okD(3))
    moreover have "rec_id x = rec_id r"
      using free x by (auto simp: name_available_def split: if_splits option.splits)
    ultimately show ?thesis
      by simp
  qed
qed

lemma same_name_free:
  assumes "catalog_ok P cfg st" and "map_get (cat_records st) (rec_id cur) = Some cur" and "rec_id new = rec_id cur" and "rec_name new = rec_name cur"
  shows "name_free (cat_records st) (cat_names st) new"
proof -
  note D = cat_index_okD [OF assms(1) [unfolded catalog_ok_def]]
  show ?thesis
    unfolding name_free_def
  proof (intro allI impI conjI)
    fix n
    assume n: "rec_name new = Some n"
    then have "map_get (cat_names st) n = Some (rec_id cur)"
      using D(5) [of n "rec_id cur"] assms(2,4) by auto
    then show "map_get (cat_names st) n = None \<or> map_get (cat_names st) n = Some (rec_id new)"
      using assms(3) by simp
    show "n = rec_id new" if "map_has (cat_records st) n"
      using D(6) [OF assms(2) _ that] n assms(3,4) by simp
  qed
qed

lemma rec_int_field: "field new k = field cur k \<Longrightarrow> rec_int new k = rec_int cur k"
  by (simp add: rec_int_def)

lemma rec_name_field: "field new ''name'' = field cur ''name'' \<Longrightarrow> rec_name new = rec_name cur"
  by (simp add: rec_name_def)

definition kept_fields :: "catalog_patch \<Rightarrow> bool" where
  "kept_fields p \<longleftrightarrow> list_all (\<lambda>(k, _). k \<noteq> ''name'' \<and> k \<noteq> ''generation'') p"

lemma kept_fields_notin: "kept_fields p \<Longrightarrow> ''name'' \<notin> fst ` set p \<and> ''generation'' \<notin> fst ` set p"
  by (fastforce simp: kept_fields_def list_all_iff)

lemma kept_patches [simp]:
  "kept_fields (resident_patch c)" "kept_fields idle_patch" "kept_fields (recovery_patch v)" "kept_fields (state_patch s u t)"
  by (simp_all add: kept_fields_def resident_patch_def idle_patch_def recovery_patch_def state_patch_def split: option.split)

text \<open>A stored successor of a record, whether its write returned or threw.\<close>

lemma store_next_write:
  assumes "map_get (cat_records st) (rec_id cur) = Some cur" and "valid_catalog_record P cfg new" and "rec_id new = rec_id cur"
    and "name_free (cat_records st) (cat_names st) new" and "rec_int new ''revision'' = rec_int cur ''revision'' + 1"
    and "rec_int cur ''generation'' \<le> rec_int new ''generation''"
  shows "catalog_write P cfg io st (snd (store_next P cfg io (cur, new) st))"
proof (cases rule: write_cases [of P cfg io new st])
  case stored
  then show ?thesis
    using replaced [of st cur P cfg new io] assms by (simp add: store_next_def)
next
  case (refused e)
  then show ?thesis
    using unchanged [of P cfg io st] by (simp add: store_next_def)
next
  case (threw e)
  then show ?thesis
    using unacknowledged [of P cfg new io e st] assms(2) by (simp add: store_next_def)
qed

lemma store_next_ok:
  assumes "store_next P cfg io (cur, new) st = (Inr r, st')"
  shows "r = new" and "st' = replace_indexes cur new (file_put P new st)"
  using assms by (cases rule: write_cases [of P cfg io new st]; simp add: store_next_def)+

lemma admit_transition_parts:
  assumes "admit_transition P cfg io ref g p st = Inr (cur, new)"
  shows "resolve_ref st ref = Some cur" and "next_record P cfg (io_now io (rec_id cur)) cur p = Inr new"
    and "rec_int cur ''generation'' = g"
  using assms by (auto simp: admit_transition_def require_ref_def bind_ok split: option.splits if_splits)

lemma catalog_transition_write:
  assumes "catalog_ok P cfg st" and "cat_load st = Loaded" and "kept_fields p"
  shows "catalog_write P cfg io st (snd (catalog_transition P cfg io ref g p st))"
proof (cases "admit_transition P cfg io ref g p st")
  case (Inl e)
  then show ?thesis
    using unchanged [of P cfg io st] assms(2) by (simp add: catalog_transition_def)
next
  case (Inr pair)
  then obtain cur new where admitted: "admit_transition P cfg io ref g p st = Inr (cur, new)"
    by (cases pair) auto
  note A = admit_transition_parts [OF admitted]
  note R = resolve_ref_record [OF assms(1) A(1)]
  have same: "field new ''name'' = field cur ''name''" "field new ''generation'' = field cur ''generation''"
    using next_record_keeps [OF A(2) R(3)] kept_fields_notin [OF assms(3)] by simp_all
  have "catalog_write P cfg io st (snd (store_next P cfg io (cur, new) st))"
  proof (rule store_next_write)
    show "name_free (cat_records st) (cat_names st) new"
      by (rule same_name_free [OF assms(1) R(1) next_record_fields(1) [OF A(2) R(3)] rec_name_field [OF same(1)]])
  qed (use R next_record_ok(1) [OF A(2)] next_record_fields(1,2) [OF A(2) R(3)] rec_int_field [OF same(2)] in simp_all)
  then show ?thesis
    using admitted assms(2) by (simp add: catalog_transition_def)
qed


lemma replace_patch_fields:
  "distinct (List.map fst (replace_patch P c cur))"
  "map_of (replace_patch P c cur) ''name'' = Some (map_option JStr (next_name c cur))"
  "map_of (replace_patch P c cur) ''generation'' = Some (Some (JNum (ri_generation c)))"
  by (simp_all add: replace_patch_def split: option.split)

lemma admit_replace_parts:
  assumes "admit_replace P cfg io ref c st = Inr (cur, new)"
  shows "resolve_ref st ref = Some cur" and "next_record P cfg (io_now io (rec_id cur)) cur (replace_patch P c cur) = Inr new"
    and "rec_int cur ''generation'' = ri_expected_generation c" and "rec_int cur ''revision'' = ri_expected_revision c"
    and "rec_int cur ''generation'' \<le> ri_generation c"
    and "next_name c cur = Some n \<Longrightarrow> name_available st n (rec_id cur) = Inr ()"
  using assms
  by (auto simp: admit_replace_def require_ref_def assert_version_def require_def bind_ok split: option.splits if_splits)

lemma replaced_fields:
  assumes "next_record P cfg now cur (replace_patch P c cur) = Inr new" and "is_record cur"
  shows "rec_name new = next_name c cur" and "rec_int new ''generation'' = ri_generation c"
proof -
  note F = next_record_fields(3) [OF assms]
  show "rec_name new = next_name c cur"
    using F [of "''name''"] field_patch_last [OF assms(2) replace_patch_fields(2,1), of P c]
    by (cases "next_name c cur") (simp_all add: rec_name_def)
  show "rec_int new ''generation'' = ri_generation c"
    using F [of "''generation''"] field_patch_last [OF assms(2) replace_patch_fields(3,1), of P c]
    by (simp add: rec_int_def)
qed

lemma admitted_replace_write:
  assumes "catalog_ok P cfg st" and "admit_replace P cfg io ref c st = Inr (cur, new)"
  shows "catalog_write P cfg io st (snd (store_next P cfg io (cur, new) st))"
proof -
  note A = admit_replace_parts [OF assms(2)]
  note R = resolve_ref_record [OF assms(1) A(1)]
  note N = next_record_fields(1,2) [OF A(2) R(3)] replaced_fields [OF A(2) R(3)]
  show ?thesis
  proof (rule store_next_write)
    show "name_free (cat_records st) (cat_names st) new"
      by (rule name_available_free [OF assms(1)]) (use A(6) N(1,3) in simp)
  qed (use R N A(5) next_record_ok(1) [OF A(2)] in simp_all)
qed

lemma catalog_replace_write:
  assumes "catalog_ok P cfg st" and "cat_load st = Loaded"
  shows "catalog_write P cfg io st (snd (catalog_replace P cfg io ref c st))"
proof (cases "admit_replace P cfg io ref c st")
  case (Inl e)
  then show ?thesis
    using unchanged [of P cfg io st] assms(2) by (simp add: catalog_replace_def)
next
  case (Inr pair)
  then show ?thesis
    using admitted_replace_write [OF assms(1), of io ref c "fst pair" "snd pair"] assms(2) by (simp add: catalog_replace_def)
qed

lemma created_record_fields:
  "is_record (created_record P now c)" "rec_id (created_record P now c) = ci_session c" "rec_name (created_record P now c) = ci_name c"
  by (simp_all add: created_record_def rec_name_def str_field_def opt_entry_def split: option.split)

lemma admit_create_parts:
  assumes "admit_create P cfg now c st = Inr r"
  shows "r = created_record P now c" and "valid_catalog_record P cfg r" and "session_id_ok (ci_session c)"
    and "map_get (cat_records st) (ci_session c) = None" and "length (cat_records st) < cc_max_sessions cfg"
    and "map_get (cat_names st) (ci_session c) = None \<or> map_get (cat_names st) (ci_session c) = Some (ci_session c)"
    and "ci_name c = Some n \<Longrightarrow> name_available st n (ci_session c) = Inr ()"
  using assms
  by (auto simp: admit_create_def require_def bind_ok Let_def split: option.splits if_splits)

lemma catalog_create_write:
  assumes "catalog_ok P cfg st" and "cat_load st = Loaded"
  shows "catalog_write P cfg io st (snd (catalog_create P cfg io c st))"
proof (cases "admit_create P cfg (io_now io (ci_session c)) c st")
  case (Inl e)
  then show ?thesis
    using unchanged [of P cfg io st] assms(2) by (simp add: catalog_create_def)
next
  case (Inr r)
  note A = admit_create_parts [OF Inr]
  have r: "rec_id r = ci_session c" "rec_name r = ci_name c"
    using A(1) created_record_fields by simp_all
  have free: "name_free (cat_records st) (cat_names st) r"
    by (rule name_available_free [OF assms(1)]) (use A(7) r in simp)
  have unowned: "map_get (cat_names st) (rec_id r) = None"
    using A(4,6) r(1) cat_index_okD(5) [OF assms(1) [unfolded catalog_ok_def], of "ci_session c" "ci_session c"] by auto
  show ?thesis
  proof (cases rule: write_cases [of P cfg io r st])
    case stored
    then show ?thesis
      using added [of P cfg r st io] A(2,4,5) r(1) free unowned assms(2) Inr by (simp add: catalog_create_def)
  next
    case (refused e)
    then show ?thesis
      using unchanged [of P cfg io st] assms(2) Inr by (simp add: catalog_create_def)
  next
    case (threw e)
    then show ?thesis
      using unacknowledged [of P cfg r io e st] A(2) assms(2) Inr by (simp add: catalog_create_def)
  qed
qed

lemma catalog_delete_change:
  assumes "catalog_ok P cfg st" and "cat_load st = Loaded"
  shows "catalog_change P cfg io st (snd (catalog_delete P cfg io ref st))"
proof (cases "resolve_ref st ref")
  case None
  then show ?thesis
    using written [OF unchanged [of P cfg io st]] assms(2) by (simp add: catalog_delete_def)
next
  case (Some r)
  note R = resolve_ref_record [OF assms(1) Some]
  show ?thesis
    using written [OF unchanged [of P cfg io st]] removed [OF R(1), of P cfg io] Some assms(2)
    by (cases "io_remove io") (simp_all add: catalog_delete_def remove_file_def file_dropped_def then_do_def)
qed

definition deletes :: "catalog_call \<Rightarrow> bool" where
  "deletes c \<longleftrightarrow> (case c of CallDelete _ \<Rightarrow> True | _ \<Rightarrow> False)"

lemma run_call_write:
  assumes "catalog_ok P cfg st" and "cat_load st = Loaded" and "\<not> deletes c"
  shows "catalog_write P cfg io st (snd (run_call P cfg io c st))"
proof -
  have same: "catalog_write P cfg io st st"
    using unchanged [of P cfg io st] by simp
  show ?thesis
    by (cases c)
      (use assms same in \<open>simp_all add: deletes_def mark_resident_def mark_dormant_def mark_recovery_def mark_state_def catalog_get_def
        catalog_recover_def catalog_transition_write catalog_replace_write catalog_create_write\<close>)
qed

lemma run_call_change:
  assumes "catalog_ok P cfg st" and "cat_load st = Loaded"
  shows "catalog_change P cfg io st (snd (run_call P cfg io c st))"
proof (cases "deletes c")
  case True
  then show ?thesis
    using assms by (cases c) (simp_all add: deletes_def catalog_delete_change)
qed (simp add: assms written run_call_write)

section \<open>Runs\<close>

text \<open>A call of a catalog that was not loaded loads it first, and fails with the load.\<close>

lemma ensure_recovered_cases:
  obtains (loaded) st1 where "ensure_recovered P cfg io st = (Inr (), st1)" "cat_load st1 = Loaded"
  | (failed) e st1 where "ensure_recovered P cfg io st = (Inl e, st1)" "cat_load st1 = LoadFailed e"
proof -
  have "(\<exists>st1. ensure_recovered P cfg io st = (Inr (), st1) \<and> cat_load st1 = Loaded)
      \<or> (\<exists>e st1. ensure_recovered P cfg io st = (Inl e, st1) \<and> cat_load st1 = LoadFailed e)"
    by (auto simp: ensure_recovered_def split: catalog_load.split prod.split sum.split)
  then show thesis
    using loaded failed by blast
qed

lemma run_call_loads:
  assumes "ensure_recovered P cfg io st = (Inr (), st1)" and "cat_load st1 = Loaded"
  shows "run_call P cfg io c st = run_call P cfg io c st1 \<or> run_call P cfg io c st = (False, st)"
  by (cases c)
    (use assms in \<open>auto simp: mark_resident_def mark_dormant_def mark_recovery_def mark_state_def catalog_transition_def
      catalog_replace_def catalog_create_def catalog_delete_def catalog_get_def catalog_recover_def\<close>)

lemma run_call_fails:
  assumes "ensure_recovered P cfg io st = (Inl e, st1)"
  shows "run_call P cfg io c st = (False, st1) \<or> run_call P cfg io c st = (False, st)"
  by (cases c)
    (use assms in \<open>auto simp: mark_resident_def mark_dormant_def mark_recovery_def mark_state_def catalog_transition_def
      catalog_replace_def catalog_create_def catalog_delete_def catalog_get_def catalog_recover_def\<close>)

lemma catalog_step_ok:
  assumes "catalog_ok P cfg st"
  shows "catalog_ok P cfg (catalog_step P cfg e st)"
proof -
  obtain io c where e: "e = (io, c)"
    by fastforce
  show ?thesis
  proof (cases rule: ensure_recovered_cases [of P cfg io st])
    case (loaded st1)
    then have "catalog_ok P cfg st1"
      using ensure_recovered_keeps [OF assms, of io] by simp
    then have "catalog_ok P cfg (snd (run_call P cfg io c st1))"
      using change_keeps_ok run_call_change loaded(2) by blast
    then show ?thesis
      using run_call_loads [OF loaded, of c] assms by (auto simp: e catalog_step_def)
  next
    case (failed err st1)
    then have "catalog_ok P cfg st1"
      using ensure_recovered_keeps [OF assms, of io] by simp
    then show ?thesis
      using run_call_fails [OF failed(1), of c] assms by (auto simp: e catalog_step_def)
  qed
qed

text \<open>The first load is decided once.\<close>

definition load_decided :: "catalog \<Rightarrow> catalog \<Rightarrow> bool" where
  "load_decided st st' \<longleftrightarrow> cat_load st = NotLoaded \<or> cat_load st' = cat_load st"

lemma catalog_step_load:
  assumes "catalog_ok P cfg st"
  shows "load_decided st (catalog_step P cfg e st)"
proof (cases "cat_load st")
  case Loaded
  then show ?thesis
    using change_load [OF run_call_change [OF assms Loaded]]
    by (cases e) (simp add: load_decided_def catalog_step_def)
next
  case (LoadFailed err)
  then have "ensure_recovered P cfg (fst e) st = (Inl err, st)"
    by (simp add: ensure_recovered_def)
  then show ?thesis
    using run_call_fails [of P cfg "fst e" st err st "snd e"] by (auto simp: load_decided_def catalog_step_def split: prod.split)
qed (simp add: load_decided_def)

interpretation retained: monotone_machine "catalog_step P cfg" "catalog_ok P cfg" load_decided for P cfg
proof
  show "catalog_ok P cfg (catalog_step P cfg e s)" if "catalog_ok P cfg s" for s e
    by (rule catalog_step_ok [OF that])
  show "load_decided s (catalog_step P cfg e s)" if "catalog_ok P cfg s" for s e
    by (rule catalog_step_load [OF that])
qed (auto simp: load_decided_def)

lemma fresh_catalog_ok: "catalog_ok P cfg (fresh_catalog dir)"
  by (simp add: catalog_ok_def fresh_catalog_def cat_index_ok_empty)

lemma reached_ok: "catalog_ok P cfg (fold (catalog_step P cfg) calls (fresh_catalog dir))"
  by (rule retained.run [OF fresh_catalog_ok])

text \<open>While no session is deleted, a session's record only record_advances.\<close>

lemma run_advances:
  assumes "catalog_ok P cfg st" and "cat_load st = Loaded" and "map_get (cat_records st) i = Some r"
    and "list_all (\<lambda>(io, c). \<not> deletes c) calls"
  shows "\<exists>r'. map_get (cat_records (fold (catalog_step P cfg) calls st)) i = Some r' \<and> record_advances r r'"
  using assms
proof (induction calls arbitrary: st r)
  case (Cons e calls)
  obtain io c where e: "e = (io, c)" "\<not> deletes c"
    using Cons.prems(4) by (cases e) simp
  have w: "catalog_write P cfg io st (catalog_step P cfg e st)"
    using run_call_write [OF Cons.prems(1,2) e(2)] by (simp add: e(1) catalog_step_def)
  then obtain r1 where r1: "map_get (cat_records (catalog_step P cfg e st)) i = Some r1" "record_advances r r1"
    using write_advances [OF w Cons.prems(3)] by blast
  have "cat_load (catalog_step P cfg e st) = Loaded"
    using write_load [OF w] Cons.prems(2) by simp
  with Cons.IH [OF write_keeps_ok [OF w Cons.prems(1)] _ r1(1)] Cons.prems(4) r1(2) show ?case
    by (auto intro: record_advances_trans)
qed auto

text \<open>Calls whose files are written.\<close>

lemma ensure_recovered_empty:
  "io_open io = Inr () \<Longrightarrow> ensure_recovered P cfg io (fresh_catalog []) = (Inr (), fresh_catalog []\<lparr>cat_load := Loaded\<rparr>)"
  by (simp add: ensure_recovered_def load_catalog_def catalog_file_names_def fresh_catalog_def)

lemma write_published:
  assumes "compact_size r \<le> cc_max_record_bytes cfg" and "io_write io (rec_id r) = Published"
  shows "write_catalog_record P cfg io r st = (Inr (), file_put P r st)"
  using assms by (simp add: write_catalog_record_def file_put_def)

lemma catalog_create_published:
  assumes "ensure_recovered P cfg io st = (Inr (), st1)" and "admit_create P cfg (io_now io (ci_session c)) c st1 = Inr r"
    and "compact_size r \<le> cc_max_record_bytes cfg" and "io_write io (rec_id r) = Published"
  shows "catalog_create P cfg io c st = (Inr r, add_record r (file_put P r st1))"
  using assms by (simp add: catalog_create_def write_published)

lemma store_next_published:
  assumes "compact_size new \<le> cc_max_record_bytes cfg" and "io_write io (rec_id new) = Published"
  shows "store_next P cfg io (cur, new) st = (Inr new, replace_indexes cur new (file_put P new st))"
  using assms by (simp add: store_next_def write_published)

section \<open>References and versions\<close>

lemma vals_iff: "js_map m \<Longrightarrow> v \<in> set (map_vals m) \<longleftrightarrow> (\<exists>k. map_get m k = Some v)"
  by (force simp: map_get_iff)

lemma resolve_ref_iff:
  assumes "catalog_ok P cfg st"
  shows "resolve_ref st ref = Some r \<longleftrightarrow> r \<in> set (map_vals (cat_records st)) \<and> (ref = rec_id r \<or> rec_name r = Some ref)"
proof -
  have I: "cat_index_ok P cfg (cat_records st) (cat_names st)"
    using assms by (simp add: catalog_ok_def)
  note D = cat_index_okD [OF I]
  show ?thesis
  proof
    assume "resolve_ref st ref = Some r"
    note R = resolve_ref_record(1,4) [OF assms this]
    then have "r \<in> set (map_vals (cat_records st))"
      using vals_iff [OF D(1)] by blast
    then show "r \<in> set (map_vals (cat_records st)) \<and> (ref = rec_id r \<or> rec_name r = Some ref)"
      using R(2) by simp
  next
    assume R: "r \<in> set (map_vals (cat_records st)) \<and> (ref = rec_id r \<or> rec_name r = Some ref)"
    then have get: "map_get (cat_records st) (rec_id r) = Some r"
      using cat_index_ok_vals [OF I] by blast
    show "resolve_ref st ref = Some r"
    proof (cases "ref = rec_id r")
      case True
      then show ?thesis
        using get by (simp add: resolve_ref_def)
    next
      case False
      then have name: "rec_name r = Some ref"
        using R by simp
      then have "map_get (cat_records st) ref = None"
        using D(6) [OF get name] False by blast
      moreover have "map_get (cat_names st) ref = Some (rec_id r)"
        using D(5) get name by blast
      ultimately show ?thesis
        using get by (simp add: resolve_ref_def)
    qed
  qed
qed

lemma distinct_ids:
  assumes "cat_index_ok P cfg records names"
  shows "distinct (List.map rec_id (map_vals records))"
proof -
  note D = cat_index_okD [OF assms]
  have "List.map rec_id (map_vals records) = map_keys records"
    using D(3) by (simp add: map_get_iff [OF D(1)])
  moreover have "distinct (map_keys records)"
    using D(1) by (simp add: js_map_def)
  ultimately show ?thesis
    by (simp only:)
qed

lemma catalog_replace_ok:
  assumes "catalog_ok P cfg st" and "cat_load st = Loaded" and "catalog_replace P cfg io ref c st = (Inr r, st')"
  shows "cat_load st' = Loaded" and "catalog_ok P cfg st'" and "map_get (cat_records st') (rec_id r) = Some r"
    and "rec_int r ''revision'' = ri_expected_revision c + 1" and "rec_int r ''generation'' = ri_generation c"
    and "ri_expected_generation c \<le> ri_generation c"
proof -
  obtain cur new where A: "admit_replace P cfg io ref c st = Inr (cur, new)" "store_next P cfg io (cur, new) st = (Inr r, st')"
    using assms(2,3) by (cases "admit_replace P cfg io ref c st") (auto simp: catalog_replace_def)
  note parts = admit_replace_parts [OF A(1)]
  note R = resolve_ref_record [OF assms(1) parts(1)]
  have r: "r = new"
    using store_next_ok(1) [OF A(2)] .
  have st': "st' = replace_indexes cur new (file_put P new st)"
    using store_next_ok(2) [OF A(2)] .
  show "cat_load st' = Loaded" "map_get (cat_records st') (rec_id r) = Some r"
    using assms(2) r by (simp_all add: st')
  have "catalog_write P cfg io st st'"
    using admitted_replace_write [OF assms(1) A(1)] A(2) by simp
  then show "catalog_ok P cfg st'"
    using write_keeps_ok assms(1) by blast
  show "rec_int r ''revision'' = ri_expected_revision c + 1" "rec_int r ''generation'' = ri_generation c"
    "ri_expected_generation c \<le> ri_generation c"
    using next_record_fields(2) [OF parts(2) R(3)] replaced_fields(2) [OF parts(2) R(3)] parts(3-5) r by simp_all
qed

lemma stale_version_refused:
  assumes "cat_load st = Loaded" and "map_get (cat_records st) ref = Some r"
    and "rec_int r ''generation'' \<noteq> ri_expected_generation c \<or> rec_int r ''revision'' \<noteq> ri_expected_revision c"
  shows "catalog_replace P cfg io ref c st = (Inl (catalog_error ''session_precondition_failed''), st)"
  using assms by (auto simp: catalog_replace_def admit_replace_def require_ref_def resolve_ref_def assert_version_def require_def)

end
