(* ===== verification/CatalogRestart.thy ===== *)
theory CatalogRestart
  imports CatalogSteps
begin

text \<open>
  The catalog and its directory: as long as every write either publishes its file and returns, or throws
  before the rename, the files are those of the records, and a process that loads the directory later has
  every record again, dormant.
\<close>

section \<open>The files of the records\<close>

lemma catalog_file_inj: "session_id_ok s \<Longrightarrow> session_id_ok t \<Longrightarrow> catalog_file s = catalog_file t \<Longrightarrow> s = t"
  by (auto simp: session_id_ok_def catalog_file_def dest: encoded_session_id_inj split: sum.splits)

lemma catalog_file_json: "session_id_ok s \<Longrightarrow> ends_with ''.json'' (catalog_file s)"
  by (auto simp: session_id_ok_def catalog_file_def ends_with_def split: sum.splits)

definition stored :: "platform \<Rightarrow> directory \<Rightarrow> string \<Rightarrow> json \<Rightarrow> bool" where
  "stored P dir i r \<longleftrightarrow> read_private_json_if_exists (current_uid P) (map_get dir (catalog_file i)) = Inr (Some r)"

definition mirrors :: "platform \<Rightarrow> (string, json) jsmap \<Rightarrow> directory \<Rightarrow> bool" where
  "mirrors P records dir \<longleftrightarrow>
     js_map dir \<and> (\<forall>i r. map_get records i = Some r \<longrightarrow> session_id_ok i \<and> stored P dir i r)
     \<and> (\<forall>name. map_has dir name \<longrightarrow> ends_with ''.json'' name \<longrightarrow> (\<exists>i. map_has records i \<and> name = catalog_file i))"

lemma mirrorsD:
  assumes "mirrors P records dir"
  shows "js_map dir" "map_get records i = Some r \<Longrightarrow> session_id_ok i" "map_get records i = Some r \<Longrightarrow> stored P dir i r"
    "map_has dir name \<Longrightarrow> ends_with ''.json'' name \<Longrightarrow> \<exists>i. map_has records i \<and> name = catalog_file i"
  using assms unfolding mirrors_def by blast+

lemma mirrors_put:
  assumes "mirrors P records dir" and "session_id_ok i"
  shows "mirrors P (map_set records i r) (map_set dir (catalog_file i) (published_file (current_uid P) r))"
proof -
  note M = mirrorsD [OF assms(1)]
  show ?thesis
    unfolding mirrors_def
  proof (intro conjI allI impI)
    fix j x
    assume j: "map_get (map_set records i r) j = Some x"
    then show ok: "session_id_ok j"
      using assms(2) M(2) by (auto split: if_splits)
    show "stored P (map_set dir (catalog_file i) (published_file (current_uid P) r)) j x"
    proof (cases "j = i")
      case False
      then have "catalog_file j \<noteq> catalog_file i"
        using catalog_file_inj ok assms(2) by blast
      then show ?thesis
        using j False M(3) by (simp add: stored_def)
    qed (use j in \<open>simp add: stored_def\<close>)
  next
    fix name
    assume "map_has (map_set dir (catalog_file i) (published_file (current_uid P) r)) name" "ends_with ''.json'' name"
    then show "\<exists>j. map_has (map_set records i r) j \<and> name = catalog_file j"
      using M(4) [of name] by (cases "name = catalog_file i") auto
  qed (simp add: M(1))
qed

lemma mirrors_drop:
  assumes "mirrors P records dir" and "session_id_ok i"
  shows "mirrors P (map_del records i) (map_del dir (catalog_file i))"
proof -
  note M = mirrorsD [OF assms(1)]
  show ?thesis
    unfolding mirrors_def
  proof (intro conjI allI impI)
    fix j x
    assume "map_get (map_del records i) j = Some x"
    then have j: "j \<noteq> i" "map_get records j = Some x"
      by (auto split: if_splits)
    then show ok: "session_id_ok j"
      using M(2) by blast
    have "catalog_file j \<noteq> catalog_file i"
      using catalog_file_inj [OF ok assms(2)] j(1) by blast
    then show "stored P (map_del dir (catalog_file i)) j x"
      using M(3) [OF j(2)] by (simp add: stored_def)
  next
    fix name
    assume name: "map_has (map_del dir (catalog_file i)) name" "ends_with ''.json'' name"
    then have "name \<noteq> catalog_file i" "map_has dir name"
      by (auto split: if_splits)
    then obtain j where "map_has records j" "name = catalog_file j"
      using M(4) name(2) by blast
    then show "\<exists>j. map_has (map_del records i) j \<and> name = catalog_file j"
      using \<open>name \<noteq> catalog_file i\<close> by (intro exI [of _ j]) auto
  qed (simp add: M(1))
qed

section \<open>Runs with whole writes\<close>

definition whole :: "catalog_io \<Rightarrow> bool" where
  "whole io \<longleftrightarrow> (\<forall>i e. io_write io i \<noteq> PublishedThrew e)"

definition saved :: "platform \<Rightarrow> catalog_config \<Rightarrow> catalog \<Rightarrow> bool" where
  "saved P cfg st \<longleftrightarrow> mirrors P (cat_records st) (cat_dir st) \<and> length (cat_records st) \<le> cc_max_sessions cfg"

lemma change_saved:
  assumes "catalog_change P cfg io st st'" and "whole io" and "catalog_ok P cfg st" and "saved P cfg st"
  shows "saved P cfg st'"
  using assms(1)
proof (cases rule: catalog_change.cases)
  case written
  then show ?thesis
  proof (cases rule: catalog_write.cases)
    case (unacknowledged r e)
    then show ?thesis
      using assms(2) by (simp add: whole_def)
  next
    case (added r)
    then show ?thesis
      using mirrors_put [of P "cat_records st" "cat_dir st" "rec_id r" r] valid_record_parts(3) [OF added(2)] assms(4)
      by (simp add: saved_def file_put_def map_set_length)
  next
    case (replaced cur new)
    then show ?thesis
      using mirrors_put [of P "cat_records st" "cat_dir st" "rec_id new" new] valid_record_parts(3) [OF replaced(3)] assms(4)
      by (simp add: saved_def file_put_def map_set_length)
  qed (use assms(4) in simp)
next
  case (removed r)
  then have "session_id_ok (rec_id r)"
    using cat_index_okD(4) [OF assms(3) [unfolded catalog_ok_def]] valid_record_parts(3) by blast
  then show ?thesis
    using removed mirrors_drop [of P "cat_records st" "cat_dir st" "rec_id r"] assms(4) map_del_length [of "rec_id r" "cat_records st"]
    by (simp add: saved_def file_dropped_def)
qed


section \<open>Reading a mirrored directory\<close>

definition file_bytes :: "directory \<Rightarrow> string \<Rightarrow> nat" where
  "file_bytes dir name = (case state_file_size (map_get dir name) of Some n \<Rightarrow> n | None \<Rightarrow> 0)"

text \<open>The records read so far are among those of the mirrored catalog, so that none of the checks between records fails.\<close>

lemma registered:
  assumes full: "cat_index_ok P cfg R N" and part: "cat_index_ok P cfg rs ids"
    and sub: "\<And>i r. map_get rs i = Some r \<Longrightarrow> map_get R i = Some r" and r: "map_get R i = Some r" "map_get rs i = None"
  shows "\<exists>ids'. register_record r (rs, ids) = Inr (map_set rs i r, ids')"
proof -
  note F = cat_index_okD [OF full] and D = cat_index_okD [OF part]
  have id: "rec_id r = i"
    using F(3) r(1) .
  have names: "map_get N n = Some j" if "map_get ids n = Some j" for n j
    using that sub unfolding D(5) F(5) by blast
  have own: "j = i" if "map_get ids i = Some j" for j
    using id_not_foreign_name [OF full r(1)] names [OF that] by auto
  have named: "map_get N n = Some i" if "rec_name r = Some n" for n
    using F(5) r(1) that by blast
  have owner: "j = i" if "rec_name r = Some n" "map_get ids n = Some j" for n j
    using names [OF that(2)] named [OF that(1)] by simp
  have foreign: "n = i" if "rec_name r = Some n" "map_get rs n = Some x" for n x
    using F(6) [OF r(1) that(1)] sub [OF that(2)] by simp
  have first: "\<not> (case map_get ids (rec_id r) of Some j \<Rightarrow> j \<noteq> rec_id r | None \<Rightarrow> False)"
    using own id by (simp split: option.split)
  show ?thesis
  proof (cases "rec_name r")
    case None
    then show ?thesis
      using first id by (simp add: register_record_def)
  next
    case (Some n)
    have "\<not> (case map_get ids n of Some j \<Rightarrow> j \<noteq> rec_id r | None \<Rightarrow> False)"
      using owner [OF Some] id by (simp split: option.split)
    moreover have "\<not> (map_has rs n \<and> n \<noteq> rec_id r)"
      using foreign [OF Some] id by blast
    ultimately show ?thesis
      using first id Some by (simp add: register_record_def)
  qed
qed

lemma load_mirrored:
  assumes full: "cat_index_ok P cfg R N" and M: "mirrors P R dir"
    and small: "\<And>n. n \<in> set files \<Longrightarrow> file_bytes dir n \<le> cc_max_record_bytes cfg"
  shows "\<lbrakk>distinct files; cat_index_ok P cfg rs ids; \<And>i r. map_get rs i = Some r \<Longrightarrow> map_get R i = Some r;
    \<And>n. n \<in> set files \<Longrightarrow> \<exists>i r. n = catalog_file i \<and> map_get R i = Some r \<and> map_get rs i = None;
    used + sum_list (List.map (file_bytes dir) files) \<le> cc_max_recovery_bytes cfg\<rbrakk>
    \<Longrightarrow> \<exists>u rs' ids'. load_catalog_files P cfg dir files (used, rs, ids) = Inr (u, rs', ids')
      \<and> (\<forall>i. map_get rs' i = (if map_get rs i = None \<and> catalog_file i \<notin> set files then None else map_get R i))"
  using small
proof (induction files arbitrary: used rs ids)
  case Nil
  then show ?case
    by (auto simp: option.case_eq_if)
next
  case (Cons n ns)
  note F = cat_index_okD [OF full]
  obtain i r where n: "n = catalog_file i" "map_get R i = Some r" "map_get rs i = None"
    using Cons.prems(4) [of n] by auto
  have valid: "valid_catalog_record P cfg r" and id: "rec_id r = i" and idok: "session_id_ok i"
    using F(3,4) [OF n(2)] mirrorsD(2) [OF M n(2)] by simp_all
  obtain ids' where reg: "register_record r (rs, ids) = Inr (map_set rs i r, ids')"
    using registered [OF full Cons.prems(2,3) n(2,3)] by blast
  have index: "cat_index_ok P cfg (map_set rs i r) ids'"
    using register_record_ok(1) [OF Cons.prems(2) reg valid] n(3) id by simp
  have "load_catalog_file P cfg dir n (used, rs, ids) = Inr (used + file_bytes dir n, map_set rs i r, ids')"
    using mirrorsD(3) [OF M n(2)] Cons.prems(5) Cons.prems(6) [of n] valid id n reg
    by (simp add: load_catalog_file_def stored_def Let_def flip: file_bytes_def)
  moreover obtain u rs' ids'' where rest: "load_catalog_files P cfg dir ns (used + file_bytes dir n, map_set rs i r, ids') = Inr (u, rs', ids'')"
      "\<And>j. map_get rs' j = (if map_get (map_set rs i r) j = None \<and> catalog_file j \<notin> set ns then None else map_get R j)"
  proof -
    have "\<exists>u rs' ids''. load_catalog_files P cfg dir ns (used + file_bytes dir n, map_set rs i r, ids') = Inr (u, rs', ids'')
        \<and> (\<forall>j. map_get rs' j = (if map_get (map_set rs i r) j = None \<and> catalog_file j \<notin> set ns then None else map_get R j))"
    proof (rule Cons.IH [OF _ index])
      show "map_get R j = Some x" if "map_get (map_set rs i r) j = Some x" for j x
        using that n(2) Cons.prems(3) by (simp split: if_splits)
      show "\<exists>j x. m = catalog_file j \<and> map_get R j = Some x \<and> map_get (map_set rs i r) j = None" if "m \<in> set ns" for m
        using Cons.prems(1) Cons.prems(4) [of m] that n(1) by auto
      show "used + file_bytes dir n + sum_list (List.map (file_bytes dir) ns) \<le> cc_max_recovery_bytes cfg"
        using Cons.prems(5) by simp
    qed (use Cons.prems(1,6) in simp_all)
    then show thesis
      using that by blast
  qed
  moreover have "map_get rs' j = (if map_get rs j = None \<and> catalog_file j \<notin> set (n # ns) then None else map_get R j)" for j
    using rest(2) [of j] n Cons.prems(3) catalog_file_inj [of i j] idok mirrorsD(2) [OF M, of j]
    by (cases "map_get R j") auto
  ultimately show ?case
    by simp
qed


text \<open>The files of a mirrored directory are those of the records.\<close>

lemma mirrored_names:
  assumes "mirrors P R dir" and "js_map R"
  shows "distinct (catalog_file_names dir)" and "name \<in> set (catalog_file_names dir) \<Longrightarrow> \<exists>i r. name = catalog_file i \<and> map_get R i = Some r"
    and "map_get R i = Some r \<Longrightarrow> catalog_file i \<in> set (catalog_file_names dir)" and "length (catalog_file_names dir) = length R"
proof -
  note M = mirrorsD [OF assms(1)]
  show dist: "distinct (catalog_file_names dir)"
    using M(1) by (simp add: catalog_file_names_def js_map_def)
  show known: "\<exists>i r. name = catalog_file i \<and> map_get R i = Some r" if "name \<in> set (catalog_file_names dir)" for name
  proof -
    have "map_has dir name" "ends_with ''.json'' name"
      using that by (auto simp: catalog_file_names_def map_of_eq_None_iff)
    then show ?thesis
      using M(4) by blast
  qed
  show mem: "catalog_file i \<in> set (catalog_file_names dir)" if "map_get R i = Some r" for i r
  proof -
    have "map_has dir (catalog_file i)"
      using M(3) [OF that] by (auto simp: stored_def read_private_json_if_exists_def split: option.splits)
    then have "catalog_file i \<in> set (map_keys dir)"
      by (simp add: map_of_eq_None_iff)
    then show ?thesis
      using catalog_file_json [OF M(2) [OF that]] by (simp add: catalog_file_names_def)
  qed
  have "catalog_file ` set (map_keys R) = set (catalog_file_names dir)"
    using known mem by (force simp: image_iff map_of_eq_None_iff dest: map_get_in intro: weak_map_of_SomeI)
  moreover have "inj_on catalog_file (set (map_keys R))"
    using M(2) catalog_file_inj assms(2) by (auto intro!: inj_onI simp: map_get_iff)
  ultimately have "card (set (catalog_file_names dir)) = card (set (map_keys R))"
    using card_image by fastforce
  then show "length (catalog_file_names dir) = length R"
    using distinct_card [OF dist] distinct_card [of "map_keys R"] assms(2) by (simp add: js_map_def)
qed


text \<open>A directory that was read without an exception is mirrored.\<close>

lemma load_reads:
  assumes "cat_index_ok P cfg rs ids" and "load_catalog_files P cfg dir files (used, rs, ids) = Inr (u, rs', ids')"
  shows "(\<forall>i r. map_get rs i = Some r \<longrightarrow> map_get rs' i = Some r)
    \<and> (\<forall>i r. map_get rs' i = Some r \<longrightarrow> map_get rs i = Some r \<or> stored P dir i r)
    \<and> (\<forall>n \<in> set files. map_has dir n \<longrightarrow> (\<exists>i. map_has rs' i \<and> n = catalog_file i))"
  using assms
proof (induction files arbitrary: used rs ids)
  case (Cons f fs)
  obtain v rs1 ids1 where f: "load_catalog_file P cfg dir f (used, rs, ids) = Inr (v, rs1, ids1)"
    and rest: "load_catalog_files P cfg dir fs (v, rs1, ids1) = Inr (u, rs', ids')"
    using Cons.prems(2) by (auto simp: bind_ok)
  note IH = Cons.IH [OF load_catalog_file_ok [OF Cons.prems(1) f] rest]
  from f show ?case
  proof (cases rule: load_catalog_file_cases)
    case missing
    then show ?thesis
      using IH by simp
  next
    case (found r)
    have rs1: "rs1 = map_set rs (rec_id r) r"
      by (rule register_record_ok(2) [OF Cons.prems(1) found(5,2,4)])
    have new: "map_get rs' (rec_id r) = Some r"
      using IH rs1 by simp
    have own: "stored P dir (rec_id r) r"
      using found(1,3) by (simp add: stored_def)
    show ?thesis
    proof (intro conjI allI impI ballI)
      show "map_get rs' i = Some x" if "map_get rs i = Some x" for i x
        using IH that found(4) rs1 by (cases "i = rec_id r") auto
      show "map_get rs i = Some x \<or> stored P dir i x" if "map_get rs' i = Some x" for i x
      proof -
        have "map_get rs1 i = Some x \<or> stored P dir i x"
          using IH that by blast
        then show ?thesis
          using own rs1 by (cases "i = rec_id r") auto
      qed
      show "\<exists>i. map_has rs' i \<and> n = catalog_file i" if "n \<in> set (f # fs)" "map_has dir n" for n
        using IH that new found(3) by (cases "n = f") auto
    qed
  qed
qed simp

lemma loaded_mirrors:
  assumes "js_map dir" and "load_catalog_files P cfg dir (catalog_file_names dir) (0, [], []) = Inr (u, rs, ids)"
  shows "mirrors P rs dir"
proof -
  note L = load_reads [OF cat_index_ok_empty assms(2)] and I = load_catalog_files_ok [OF cat_index_ok_empty assms(2)]
  show ?thesis
    unfolding mirrors_def
  proof (intro conjI allI impI)
    show "session_id_ok i" if "map_get rs i = Some r" for i r
      using cat_index_okD(3,4) [OF I that] valid_record_parts(3) by blast
    show "stored P dir i r" if "map_get rs i = Some r" for i r
      using L that by fastforce
    show "\<exists>i. map_has rs i \<and> name = catalog_file i" if "map_has dir name" "ends_with ''.json'' name" for name
    proof -
      have "name \<in> set (catalog_file_names dir)"
        using that by (auto simp: catalog_file_names_def map_of_eq_None_iff)
      then show ?thesis
        using L that(1) by blast
    qed
  qed (rule assms(1))
qed

section \<open>The pass that makes records dormant\<close>

definition dormant_version :: "string \<Rightarrow> json \<Rightarrow> json" where
  "dormant_version now r = (if dormant_patch r = [] then r else successor_record now r (dormant_patch r))"

lemma dormant_version_parts:
  assumes "is_record r"
  shows "rec_id (dormant_version now r) = rec_id r" and "rec_name (dormant_version now r) = rec_name r"
proof -
  show "rec_id (dormant_version now r) = rec_id r"
    using successor_fields(2) [OF assms] by (simp add: dormant_version_def)
  have "''name'' \<notin> fst ` set (dormant_patch r)"
    using subsetD [OF dormant_patch_keys [of r], of "''name''"] by fastforce
  then have "field (dormant_version now r) ''name'' = field r ''name''"
    using successor_fields(4) [OF assms] field_patch [OF assms] by (simp add: dormant_version_def)
  then show "rec_name (dormant_version now r) = rec_name r"
    by (rule rec_name_field)
qed

lemma make_dormant_cases:
  obtains (same) "dormant_patch r = []" "make_dormant P cfg io r st = (Inr (), st)"
  | (stored) new where "new = dormant_version (io_now io (rec_id r)) r" "valid_catalog_record P cfg new"
      "make_dormant P cfg io r st = (Inr (), (file_put P new st)\<lparr>cat_records := map_set (cat_records st) (rec_id new) new\<rparr>)"
  | (refused) e where "make_dormant P cfg io r st = (Inl e, st)"
  | (threw) e new where "make_dormant P cfg io r st = (Inl e, file_put P new st)" "io_write io (rec_id new) = PublishedThrew e"
proof (cases "dormant_patch r = []")
  case True
  then show thesis
    using same by (simp add: make_dormant_def)
next
  case False
  define new where "new = successor_record (io_now io (rec_id r)) r (dormant_patch r)"
  have version: "new = dormant_version (io_now io (rec_id r)) r"
    using False by (simp add: new_def dormant_version_def)
  show thesis
  proof (cases "valid_catalog_record P cfg new")
    case True
    have step: "make_dormant P cfg io r st =
        then_do (write_catalog_record P cfg io new) (\<lambda>_. change (\<lambda>st. st\<lparr>cat_records := map_set (cat_records st) (rec_id new) new\<rparr>)) st"
      using False True by (simp add: make_dormant_def next_record_def flip: new_def)
    show thesis
      by (cases rule: write_cases [of P cfg io new st]) (use step stored [OF version True] refused threw in simp_all)
  next
    case invalid: False
    then show thesis
      using False refused by (simp add: make_dormant_def next_record_def flip: new_def)
  qed
qed

lemma make_dormant_saved:
  assumes "whole io" and "is_record r"
  shows "keeps (\<lambda>st. saved P cfg st \<and> map_has (cat_records st) (rec_id r)) (make_dormant P cfg io r)"
proof (rule keepsI)
  fix st
  assume I: "saved P cfg st \<and> map_has (cat_records st) (rec_id r)"
  show "saved P cfg (snd (make_dormant P cfg io r st)) \<and> map_has (cat_records (snd (make_dormant P cfg io r st))) (rec_id r)"
  proof (cases rule: make_dormant_cases [of r P cfg io st])
    case (stored new)
    have id: "rec_id new = rec_id r"
      using stored(1) dormant_version_parts(1) [OF assms(2)] by simp
    have "mirrors P (map_set (cat_records st) (rec_id new) new)
        (map_set (cat_dir st) (catalog_file (rec_id new)) (published_file (current_uid P) new))"
      by (rule mirrors_put) (use I stored(2) valid_record_parts(3) in \<open>auto simp: saved_def\<close>)
    then show ?thesis
      using I id stored(3) by (auto simp: saved_def file_put_def map_set_length)
  next
    case (threw e new)
    then show ?thesis
      using assms(1) by (simp add: whole_def)
  qed (use I in simp_all)
qed


text \<open>So is a catalog that was loaded, and the pass over a mirrored one whose writes succeed makes every record dormant.\<close>

lemma load_catalog_saved:
  assumes "load_catalog P cfg io st = (Inr (), st')" and "whole io" and "js_map (cat_dir st)"
  shows "saved P cfg st'"
proof -
  obtain u rs ids where files: "load_catalog_files P cfg (cat_dir st) (catalog_file_names (cat_dir st)) (0, [], []) = Inr (u, rs, ids)"
    and bound: "length rs \<le> cc_max_sessions cfg"
    and pass: "for_each (make_dormant P cfg io) (map_vals rs) (st\<lparr>cat_records := rs, cat_names := ids\<rparr>) = (Inr (), st')"
    using assms(1) by (auto simp: load_catalog_def then_do_def Let_def split: sum.splits prod.splits if_splits)
  note I = load_catalog_files_ok [OF cat_index_ok_empty files]
  have "keeps (\<lambda>s. saved P cfg s \<and> (\<forall>i. map_has rs i \<longrightarrow> map_has (cat_records s) i)) (for_each (make_dormant P cfg io) (map_vals rs))"
  proof (rule for_each_keeps)
    fix r
    assume "r \<in> set (map_vals rs)"
    then have r: "map_get rs (rec_id r) = Some r"
      by (rule cat_index_ok_vals [OF I])
    then have json: "is_record r"
      using cat_index_okD(4) [OF I] valid_record_parts(1) by blast
    show "keeps (\<lambda>s. saved P cfg s \<and> (\<forall>i. map_has rs i \<longrightarrow> map_has (cat_records s) i)) (make_dormant P cfg io r)"
    proof (rule keepsI)
      fix s
      assume S: "saved P cfg s \<and> (\<forall>i. map_has rs i \<longrightarrow> map_has (cat_records s) i)"
      then have "saved P cfg (snd (make_dormant P cfg io r s))"
        using keepsD [OF make_dormant_saved [OF assms(2) json], of P cfg s] r by auto
      moreover have "\<forall>i. map_has rs i \<longrightarrow> map_has (cat_records (snd (make_dormant P cfg io r s))) i"
        using S by (cases rule: make_dormant_cases [of r P cfg io s]) auto
      ultimately show "saved P cfg (snd (make_dormant P cfg io r s)) \<and> (\<forall>i. map_has rs i \<longrightarrow> map_has (cat_records (snd (make_dormant P cfg io r s))) i)"
        by simp
    qed
  qed
  from keepsD [OF this, of "st\<lparr>cat_records := rs, cat_names := ids\<rparr>"] show ?thesis
    using pass loaded_mirrors [OF assms(3) files] bound by (simp add: saved_def)
qed

lemma dormant_pass:
  assumes "\<And>r. r \<in> set rs \<Longrightarrow> is_record r \<and> io_write io (rec_id r) = Published \<and>
      valid_catalog_record P cfg (dormant_version (io_now io (rec_id r)) r) \<and>
      compact_size (dormant_version (io_now io (rec_id r)) r) \<le> cc_max_record_bytes cfg"
    and "distinct (List.map rec_id rs)" and "\<And>r. r \<in> set rs \<Longrightarrow> map_get (cat_records st) (rec_id r) = Some r"
  shows "\<exists>st'. for_each (make_dormant P cfg io) rs st = (Inr (), st') \<and> cat_names st' = cat_names st
    \<and> (\<forall>i. map_get (cat_records st') i =
         (if i \<in> rec_id ` set rs then map_option (dormant_version (io_now io i)) (map_get (cat_records st) i) else map_get (cat_records st) i))"
  using assms
proof (induction rs arbitrary: st)
  case (Cons r rs)
  define new where "new = dormant_version (io_now io (rec_id r)) r"
  have r: "is_record r" "io_write io (rec_id r) = Published" "valid_catalog_record P cfg new" "compact_size new \<le> cc_max_record_bytes cfg"
    using Cons.prems(1) [of r] by (simp_all add: new_def)
  have id: "rec_id new = rec_id r"
    using dormant_version_parts(1) [OF r(1)] by (simp add: new_def)
  obtain st1 where st1: "make_dormant P cfg io r st = (Inr (), st1)" "cat_names st1 = cat_names st"
      "\<And>i. map_get (cat_records st1) i = (if i = rec_id r then Some new else map_get (cat_records st) i)"
  proof (cases "dormant_patch r = []")
    case True
    then have "new = r"
      by (simp add: new_def dormant_version_def)
    then show thesis
      using True that [of st] Cons.prems(3) [of r] by (simp add: make_dormant_def)
  next
    case False
    then have "make_dormant P cfg io r st = (Inr (), (file_put P new st)\<lparr>cat_records := map_set (cat_records st) (rec_id new) new\<rparr>)"
      using r write_published [of new cfg io P st] id
      by (simp add: make_dormant_def next_record_def new_def dormant_version_def)
    then show thesis
      using that id by simp
  qed
  have distinct: "distinct (List.map rec_id rs)" "rec_id r \<notin> rec_id ` set rs"
    using Cons.prems(2) by auto
  have "\<exists>st'. for_each (make_dormant P cfg io) rs st1 = (Inr (), st') \<and> cat_names st' = cat_names st1
    \<and> (\<forall>i. map_get (cat_records st') i =
         (if i \<in> rec_id ` set rs then map_option (dormant_version (io_now io i)) (map_get (cat_records st1) i) else map_get (cat_records st1) i))"
  proof (rule Cons.IH [OF _ distinct(1)])
    fix x
    assume x: "x \<in> set rs"
    then have "rec_id x \<in> rec_id ` set rs"
      by (rule imageI)
    then have "rec_id x \<noteq> rec_id r"
      using distinct(2) by auto
    then show "map_get (cat_records st1) (rec_id x) = Some x"
      using Cons.prems(3) [of x] x st1(3) [of "rec_id x"] by simp
    show "is_record x \<and> io_write io (rec_id x) = Published \<and>
      valid_catalog_record P cfg (dormant_version (io_now io (rec_id x)) x) \<and>
      compact_size (dormant_version (io_now io (rec_id x)) x) \<le> cc_max_record_bytes cfg"
      using Cons.prems(1) [of x] x by simp
  qed
  then show ?case
    using st1 distinct(2) Cons.prems(3) [of r] by (auto simp: new_def)
qed simp


section \<open>A restart\<close>

text \<open>The dormant version of a valid record is valid.\<close>

lemma dormant_field:
  assumes "is_record r" and "k \<notin> {''formatVersion'', ''sessionId'', ''revision'', ''updatedAt'', ''residency'', ''state'', ''environment''}"
  shows "field (dormant_version now r) k = field r k"
proof -
  have "k \<notin> fst ` set (dormant_patch r)"
    using dormant_patch_keys [of r] assms(2) by blast
  then show ?thesis
    using successor_fields(4) [OF assms(1)] field_patch [OF assms(1)] assms(2) by (simp add: dormant_version_def)
qed

lemma dormant_patch_get:
  "distinct (List.map fst (dormant_patch r))"
  "map_of (dormant_patch r) ''residency'' = (if as_string (field r ''residency'') = Some ''resident'' then Some (Some (JStr ''dormant'')) else None)"
  "map_of (dormant_patch r) ''state'' = (if as_string (field r ''residency'') = Some ''resident''
     then Some (Some (JStr (if as_string (field r ''state'') = Some ''failed'' then ''failed'' else ''idle''))) else None)"
  "map_of (dormant_patch r) ''environment'' \<in> insert None (Some ` Some ` unprovisioned_environment_summary ` set_option (field r ''environment''))"
  by (auto simp: dormant_patch_def Let_def split: option.splits)

lemma unprovisioned_valid: "valid_environment P (Some e) \<Longrightarrow> valid_environment P (Some (unprovisioned_environment_summary e))"
  by (cases e) (simp_all add: valid_environment_def unprovisioned_environment_summary_def Let_def)

lemma dormant_valid:
  assumes "valid_catalog_record P cfg r" and "rec_int r ''revision'' < max_safe_integer" and "now \<noteq> []"
  shows "valid_catalog_record P cfg (dormant_version now r)"
proof (cases "dormant_patch r = []")
  case True
  then show ?thesis
    using assms(1) by (simp add: dormant_version_def)
next
  case False
  note parts = valid_record_parts [OF assms(1)]
  define d where "d = dormant_version now r"
  have fields: "field d k = (if k = ''updatedAt'' then Some (JStr now) else if k = ''revision'' then Some (JNum (rec_int r ''revision'' + 1))
       else if k = ''sessionId'' then Some (JStr (rec_id r)) else if k = ''formatVersion'' then Some (JNum 1)
       else case map_of (dormant_patch r) k of Some v \<Rightarrow> v | None \<Rightarrow> field r k)" for k
    using successor_fields(4) [OF parts(1)] field_patched [OF parts(1) dormant_patch_get(1)] False by (simp add: d_def dormant_version_def)
  have kept: "field d k = field r k"
    if "k \<notin> {''formatVersion'', ''sessionId'', ''revision'', ''updatedAt'', ''residency'', ''state'', ''environment''}" for k
    using dormant_field [OF parts(1) that] by (simp add: d_def)
  have env: "valid_environment P (field d ''environment'')"
    using dormant_patch_get(4) [of r] assms(1) unprovisioned_valid
    by (auto simp: fields valid_catalog_record_def)
  have residency: "as_string (field d ''residency'') = Some ''dormant''" "as_string (field d ''state'') \<in> {Some ''idle'', Some ''failed''}"
    using assms(1) by (auto simp: fields dormant_patch_get(2,3) valid_catalog_record_def)
  have revision: "safe_int_from 1 (field d ''revision'')"
    using assms(1,2) by (simp add: fields valid_catalog_record_def safe_int_from_def rec_int_def safe_int_def as_int_number split: option.splits)
  have "is_record d" "field d ''sessionId'' = field r ''sessionId''" "field d ''formatVersion'' = Some (JNum 1)" "nonempty_string (field d ''updatedAt'')"
    using successor_fields(1) [OF parts(1)] parts(1,2) assms(3) by (simp_all add: fields nonempty_string_def) (simp add: d_def dormant_version_def)
  moreover have "field d ''name'' = field r ''name''" "field d ''generation'' = field r ''generation''" "field d ''createdAt'' = field r ''createdAt''"
      "field d ''lastUsedAt'' = field r ''lastUsedAt''" "field d ''policyDigest'' = field r ''policyDigest''"
      "field d ''configuration'' = field r ''configuration''" "field d ''spec'' = field r ''spec''" "field d ''conversation'' = field r ''conversation''"
      "field d ''recovery'' = field r ''recovery''" "field d ''lastTerminal'' = field r ''lastTerminal''"
    by (rule kept, simp)+
  moreover have "case as_string (field d ''state'') of Some s \<Rightarrow> s \<in> set catalog_states | None \<Rightarrow> False"
    using residency(2) by (auto simp: catalog_states_def)
  ultimately show ?thesis
    using assms(1) env residency revision unfolding d_def [symmetric] valid_catalog_record_def by simp
qed

lemma write_js_dir: "keeps (\<lambda>st. js_map (cat_dir st)) (write_catalog_record P cfg io r)"
proof (rule keepsI)
  fix st :: catalog
  assume "js_map (cat_dir st)"
  then show "js_map (cat_dir (snd (write_catalog_record P cfg io r st)))"
    by (cases rule: write_cases [of P cfg io r st]) (simp_all add: file_put_def)
qed

lemma load_js_dir: "keeps (\<lambda>st. js_map (cat_dir st)) (load_catalog P cfg io)"
proof -
  have pass: "keeps (\<lambda>st. js_map (cat_dir st)) (make_dormant P cfg io r)" for r
    unfolding make_dormant_def by (auto intro!: keeps_intros write_js_dir keeps_change)
  show ?thesis
    unfolding load_catalog_def by (auto intro!: keeps_intros pass keeps_change simp: Let_def split: prod.split)
qed

lemma change_js_dir:
  assumes "catalog_change P cfg io st st'" and "js_map (cat_dir st)"
  shows "js_map (cat_dir st')"
  using assms(1)
proof (cases rule: catalog_change.cases)
  case written
  then show ?thesis
    by (cases rule: catalog_write.cases) (use assms(2) in \<open>simp_all add: file_put_def\<close>)
qed (use assms(2) in \<open>simp add: file_dropped_def\<close>)

definition kept :: "platform \<Rightarrow> catalog_config \<Rightarrow> catalog \<Rightarrow> bool" where
  "kept P cfg st \<longleftrightarrow> catalog_ok P cfg st \<and> js_map (cat_dir st) \<and> (cat_load st = Loaded \<longrightarrow> saved P cfg st)"

lemma ensure_kept:
  assumes "kept P cfg st" and "whole io"
  shows "kept P cfg (snd (ensure_recovered P cfg io st))"
proof (cases "cat_load st")
  case NotLoaded
  have ok: "catalog_ok P cfg (snd (ensure_recovered P cfg io st))"
    using ensure_recovered_keeps assms(1) by (simp add: kept_def)
  obtain res st1 where load: "load_catalog P cfg io st = (res, st1)"
    by fastforce
  have "js_map (cat_dir st1)"
    using keepsD [OF load_js_dir, of st P cfg io] assms(1) load by (simp add: kept_def)
  moreover have "saved P cfg st1" if "res = Inr ()"
    using load_catalog_saved [of P cfg io st st1] load that assms by (simp add: kept_def)
  ultimately show ?thesis
    using ok load NotLoaded by (cases res) (simp_all add: kept_def ensure_recovered_def saved_def)
qed (use assms(1) in \<open>simp_all add: ensure_recovered_def\<close>)

lemma step_kept:
  assumes "kept P cfg st" and "whole (fst e)"
  shows "kept P cfg (catalog_step P cfg e st)"
proof -
  obtain io c where e: "e = (io, c)"
    by fastforce
  then have io: "whole io"
    using assms(2) by simp
  note ensured = ensure_kept [OF assms(1) io]
  show ?thesis
  proof (cases rule: ensure_recovered_cases [of P cfg io st])
    case (loaded st1)
    then have st1: "kept P cfg st1"
      using ensured by simp
    then have change: "catalog_change P cfg io st1 (snd (run_call P cfg io c st1))"
      using run_call_change loaded(2) by (simp add: kept_def)
    have "kept P cfg (snd (run_call P cfg io c st1))"
      using change_keeps_ok [OF change] change_js_dir [OF change] change_saved [OF change io] change_load [OF change] st1 loaded(2)
      by (simp add: kept_def)
    then show ?thesis
      using run_call_loads [OF loaded, of c] assms(1) by (auto simp: e catalog_step_def)
  next
    case (failed err st1)
    then show ?thesis
      using run_call_fails [OF failed(1), of c] ensured assms(1) by (auto simp: e catalog_step_def)
  qed
qed

lemma run_kept:
  assumes "js_map dir" and "list_all (\<lambda>(io, c). whole io) calls"
  shows "kept P cfg (fold (catalog_step P cfg) calls (fresh_catalog dir))"
proof -
  have "kept P cfg st \<Longrightarrow> kept P cfg (fold (catalog_step P cfg) calls st)" for st
    using assms(2)
  proof (induction calls arbitrary: st)
    case (Cons e calls)
    have "kept P cfg (catalog_step P cfg e st)"
      by (rule step_kept) (use Cons.prems in auto)
    then show ?case
      using Cons.IH Cons.prems(2) by simp
  qed simp
  moreover have "kept P cfg (fresh_catalog dir)"
    using fresh_catalog_ok assms(1) by (simp add: kept_def) (simp add: fresh_catalog_def)
  ultimately show ?thesis
    by blast
qed

lemma option_eqI: "(\<And>x. v = Some x \<longleftrightarrow> w = Some x) \<Longrightarrow> v = w"
  by (metis not_None_eq)

text \<open>A new process over the files of a loaded catalog.\<close>

lemma restarted:
  assumes "catalog_ok P cfg st" and "saved P cfg st" and "io_open io = Inr ()"
    and "\<And>n. n \<in> set (catalog_file_names (cat_dir st)) \<Longrightarrow> file_bytes (cat_dir st) n \<le> cc_max_record_bytes cfg"
    and "sum_list (List.map (file_bytes (cat_dir st)) (catalog_file_names (cat_dir st))) \<le> cc_max_recovery_bytes cfg"
    and good: "\<And>i r. map_get (cat_records st) i = Some r \<Longrightarrow> io_write io i = Published \<and>
      valid_catalog_record P cfg (dormant_version (io_now io i) r) \<and> compact_size (dormant_version (io_now io i) r) \<le> cc_max_record_bytes cfg"
  shows "\<exists>st'. ensure_recovered P cfg io (fresh_catalog (cat_dir st)) = (Inr (), st')
    \<and> (\<forall>i. map_get (cat_records st') i = map_option (dormant_version (io_now io i)) (map_get (cat_records st) i))
    \<and> (\<forall>n. map_get (cat_names st') n = map_get (cat_names st) n)"
proof -
  let ?dir = "cat_dir st" and ?R = "cat_records st"
  have full: "cat_index_ok P cfg ?R (cat_names st)" and M: "mirrors P ?R ?dir" and bound: "length ?R \<le> cc_max_sessions cfg"
    using assms(1,2) by (simp_all add: catalog_ok_def saved_def)
  note F = cat_index_okD [OF full] and names = mirrored_names [OF M F(1)]
  have "\<exists>u rs ids. load_catalog_files P cfg ?dir (catalog_file_names ?dir) (0, [], []) = Inr (u, rs, ids)
      \<and> (\<forall>i. map_get rs i = (if map_get [] i = None \<and> catalog_file i \<notin> set (catalog_file_names ?dir) then None else map_get ?R i))"
    using load_mirrored [OF full M assms(4) names(1) cat_index_ok_empty, of 0] names(2) assms(5) by auto
  then obtain u rs ids where load: "load_catalog_files P cfg ?dir (catalog_file_names ?dir) (0, [], []) = Inr (u, rs, ids)"
    and "\<And>i. map_get rs i = (if catalog_file i \<notin> set (catalog_file_names ?dir) then None else map_get ?R i)"
    by auto
  then have rs: "map_get rs i = map_get ?R i" for i
    using names(3) [of i] by (cases "map_get ?R i") auto
  note I = load_catalog_files_ok [OF cat_index_ok_empty load]
  have ids: "map_get ids n = map_get (cat_names st) n" for n
  proof (rule option_eqI)
    show "map_get ids n = Some j \<longleftrightarrow> map_get (cat_names st) n = Some j" for j
      unfolding cat_index_okD(5) [OF I] F(5) rs ..
  qed
  have map_eq: "map_of rs = map_of ?R"
    using rs by auto
  have "set (map_keys rs) = set (map_keys ?R)"
    using map_eq dom_map_of_conv_image_fst by (metis list.set_map)
  then have size: "length rs \<le> cc_max_sessions cfg"
    using bound distinct_card [of "map_keys rs"] distinct_card [of "map_keys ?R"] F(1) cat_index_okD(1) [OF I]
    by (simp add: js_map_def)
  obtain st' where pass: "for_each (make_dormant P cfg io) (map_vals rs) (fresh_catalog ?dir\<lparr>cat_records := rs, cat_names := ids\<rparr>) = (Inr (), st')"
    "cat_names st' = ids"
    "\<And>i. map_get (cat_records st') i = (if i \<in> rec_id ` set (map_vals rs) then map_option (dormant_version (io_now io i)) (map_get rs i) else map_get rs i)"
  proof -
    have "is_record r \<and> io_write io (rec_id r) = Published \<and> valid_catalog_record P cfg (dormant_version (io_now io (rec_id r)) r) \<and>
        compact_size (dormant_version (io_now io (rec_id r)) r) \<le> cc_max_record_bytes cfg" if r: "r \<in> set (map_vals rs)" for r
    proof -
      have get: "map_get rs (rec_id r) = Some r"
        by (rule cat_index_ok_vals [OF I r])
      then show ?thesis
        using good [of "rec_id r" r] rs [of "rec_id r"] valid_record_parts(1) [OF cat_index_okD(4) [OF I get]] by simp
    qed
    from dormant_pass [OF this distinct_ids [OF I], of "fresh_catalog ?dir\<lparr>cat_records := rs, cat_names := ids\<rparr>"] show thesis
      using that cat_index_ok_vals [OF I] by auto
  qed
  have "i \<in> rec_id ` set (map_vals rs)" if r: "map_get rs i = Some r" for i r
  proof (rule image_eqI)
    show "i = rec_id r"
      using cat_index_okD(3) [OF I r] by simp
    show "r \<in> set (map_vals rs)"
      using vals_iff [OF cat_index_okD(1) [OF I]] r by blast
  qed
  note listed = this
  have records: "map_get (cat_records st') i = map_option (dormant_version (io_now io i)) (map_get ?R i)" for i
  proof (cases "map_get rs i")
    case (Some r)
    then show ?thesis
      using pass(3) [of i] listed [OF Some] rs [of i] by simp
  qed (use pass(3) [of i] rs [of i] in simp)
  have "length (catalog_file_names ?dir) \<le> cc_max_sessions cfg"
    using names(4) bound by simp
  then have "load_catalog P cfg io (fresh_catalog ?dir) = (Inr (), st')"
    using assms(3) load size pass(1) by (simp add: load_catalog_def fresh_catalog_def)
  then have "ensure_recovered P cfg io (fresh_catalog ?dir) = (Inr (), st'\<lparr>cat_load := Loaded\<rparr>)"
    by (simp add: ensure_recovered_def) (simp add: fresh_catalog_def)
  then show ?thesis
    using records ids pass(2) by auto
qed

section \<open>Two sessions with one name\<close>

lemma stored_name: "session_id_ok i \<Longrightarrow> stored P dir i r \<Longrightarrow> catalog_file i \<in> set (catalog_file_names dir) \<and> map_has dir (catalog_file i)"
  by (auto simp: stored_def catalog_file_names_def catalog_file_json read_private_json_if_exists_def split: option.splits)
    (metis (no_types, lifting) fst_conv image_iff map_of_SomeD)

lemma loaded_record:
  assumes "load_catalog_files P cfg dir (catalog_file_names dir) (0, [], []) = Inr (u, rs, ids)" and "stored P dir i r" and "session_id_ok i"
  shows "map_get rs i = Some r"
proof -
  note L = load_reads [OF cat_index_ok_empty assms(1)] and I = load_catalog_files_ok [OF cat_index_ok_empty assms(1)]
  obtain j x where j: "map_get rs j = Some x" "catalog_file i = catalog_file j"
    using L stored_name [OF assms(3,2)] by blast
  have "session_id_ok j"
    using cat_index_okD(3,4) [OF I j(1)] valid_record_parts(3) by blast
  then have "j = i"
    using catalog_file_inj assms(3) j(2) by blast
  moreover have "stored P dir j x"
    using L j(1) by fastforce
  ultimately show ?thesis
    using j(1) assms(2) by (simp add: stored_def)
qed

lemma shared_name_blocks:
  assumes "stored P dir i r" and "stored P dir j r'" and "session_id_ok i" and "session_id_ok j" and "i \<noteq> j"
    and "rec_name r = Some n" and "rec_name r' = Some n"
  shows "\<exists>err. fst (ensure_recovered P cfg io (fresh_catalog dir)) = Inl err"
proof -
  have "load_catalog_files P cfg dir (catalog_file_names dir) (0, [], []) \<noteq> Inr (u, rs, ids)" for u rs ids
  proof
    assume load: "load_catalog_files P cfg dir (catalog_file_names dir) (0, [], []) = Inr (u, rs, ids)"
    note D = cat_index_okD [OF load_catalog_files_ok [OF cat_index_ok_empty load]]
    have "map_get ids n = Some i" "map_get ids n = Some j"
      using D(5) loaded_record [OF load assms(1,3)] loaded_record [OF load assms(2,4)] assms(6,7) by blast+
    then show False
      using assms(5) by simp
  qed
  then have "\<exists>err. load_catalog_files P cfg dir (catalog_file_names dir) (0, [], []) = Inl err"
    by (cases "load_catalog_files P cfg dir (catalog_file_names dir) (0, [], [])") (auto simp: prod_eq_iff)
  then have "\<exists>err. fst (load_catalog P cfg io (fresh_catalog dir)) = Inl err"
    by (cases "io_open io") (auto simp: load_catalog_def fresh_catalog_def Let_def)
  then show ?thesis
    by (cases "load_catalog P cfg io (fresh_catalog dir)") (auto simp: ensure_recovered_def fresh_catalog_def)
qed

end
