(* ===== verification/CatalogDemo.thy ===== *)
theory CatalogDemo
  imports CatalogRestart Demo
begin

text \<open>A concrete catalog: an empty directory, calls whose writes succeed, and one retained session.\<close>

definition demo_catalog_config :: catalog_config where
  "demo_catalog_config = \<lparr>cc_max_sessions = 4, cc_max_record_bytes = 4096, cc_max_recovery_bytes = 65536, cc_base = ''/w''\<rparr>"

definition demo_catalog_io :: catalog_io where
  "demo_catalog_io = \<lparr>io_now = (\<lambda>_. ''t''), io_write = (\<lambda>_. Published), io_remove = Inr (), io_open = Inr ()\<rparr>"

definition demo_spec :: json where
  "demo_spec = JObj [(''cwd'', JStr ''/w''), (''target'', JObj [(''mode'', JStr ''memory'')])]"

definition demo_new_session :: "string \<Rightarrow> string option \<Rightarrow> create_input" where
  "demo_new_session session name =
     \<lparr>ci_session = session, ci_name = name, ci_generation = 1, ci_spec = demo_spec, ci_environment = None, ci_residency = None,
      ci_state = None, ci_conversation = None, ci_digest = None, ci_configuration = None\<rparr>"

definition demo_replace :: "int \<Rightarrow> replace_input" where
  "demo_replace revision =
     \<lparr>ri_expected_generation = 1, ri_expected_revision = revision, ri_generation = 1, ri_name = None, ri_spec = demo_spec,
      ri_environment = empty_environment_summary, ri_residency = ''resident'', ri_state = ''idle'', ri_conversation = None,
      ri_digest = None, ri_configuration = None\<rparr>"

text \<open>The record of a session \<open>s\<close> named \<open>n\<close> at a revision.\<close>

definition demo_session_record :: "string \<Rightarrow> string \<Rightarrow> int \<Rightarrow> json" where
  "demo_session_record s n revision =
     JObj [(''formatVersion'', JNum 1), (''sessionId'', JStr s), (''generation'', JNum 1), (''revision'', JNum revision),
           (''residency'', JStr ''resident''), (''state'', JStr ''idle''), (''createdAt'', JStr ''t''), (''updatedAt'', JStr ''t''),
           (''lastUsedAt'', JStr ''t''), (''spec'', demo_spec), (''environment'', empty_environment_summary),
           (''policyDigest'', JStr (session_spec_digest demo_platform demo_spec)), (''name'', JStr n)]"

definition demo_catalog :: catalog where
  "demo_catalog =
     fold (catalog_step demo_platform demo_catalog_config) [(demo_catalog_io, CallCreate (demo_new_session ''s'' (Some ''n'')))]
       (fresh_catalog [])"

lemma demo_spec_valid: "validate_persisted_spec demo_catalog_config demo_spec = Inr ()"
  by (simp add: validate_persisted_spec_def demo_spec_def demo_catalog_config_def parse_session_configuration_def config_record_def
    reject_unknown_def spec_fields_def require_def bounded_string_def spec_shape_def path_reader_def text_reader_def optional_reader_def
    parse_target_def config_object_def target_shape_def choice_reader_def target_modes_def isolation_reader_def packages_trusted_def
    parse_environment_def)

lemma demo_digest_nonempty: "session_spec_digest demo_platform demo_spec \<noteq> []"
  by code_simp

lemma demo_session_ids: "session_id_ok ''s''" "session_id_ok ''a''" "session_id_ok ''b''" "session_id_ok ''B''"
  by code_simp+

lemma demo_record_valid:
  assumes "session_id_ok s" and "name_ok n" and "safe_int r" and "1 \<le> r"
  shows "valid_catalog_record demo_platform demo_catalog_config (demo_session_record s n r)"
  using assms
  by (simp add: demo_session_record_def valid_catalog_record_def demo_spec_valid catalog_states_def nonempty_string_def valid_environment_def
    empty_environment_summary_def valid_environment_keys_def demo_digest_nonempty safe_int_from_def safe_int_def)

lemma demo_created: "created_record demo_platform ''t'' (demo_new_session s (Some n)) = demo_session_record s n 1"
  by (simp add: created_record_def demo_new_session_def demo_session_record_def or_else_def opt_entry_def)

lemma demo_sizes: "compact_size (demo_session_record ''s'' ''n'' 1) < 1000" "compact_size (demo_session_record ''s'' ''n'' 2) < 1000"
  by code_simp+

lemma demo_catalog_outcomes [simp]: "io_open demo_catalog_io = Inr ()" "io_write demo_catalog_io i = Published" "catalog_io.io_now demo_catalog_io i = ''t''"
  by (simp_all add: demo_catalog_io_def)

lemma demo_record_parts [simp]:
  "rec_id (demo_session_record s n r) = s" "rec_name (demo_session_record s n r) = Some n" "rec_int (demo_session_record s n r) ''revision'' = r"
  "rec_int (demo_session_record s n r) ''generation'' = 1" "is_record (demo_session_record s n r)"
  by (simp_all add: demo_session_record_def str_field_def rec_name_def rec_int_def)

lemma demo_catalog_limits [simp]: "cc_max_sessions demo_catalog_config = 4" "cc_max_record_bytes demo_catalog_config = 4096"
  by (simp_all add: demo_catalog_config_def)

lemma demo_admitted:
  "admit_create demo_platform demo_catalog_config ''t'' (demo_new_session ''s'' (Some ''n'')) (fresh_catalog []\<lparr>cat_load := Loaded\<rparr>)
     = Inr (demo_session_record ''s'' ''n'' 1)"
  using demo_session_ids(1) demo_spec_valid demo_record_valid [of "''s''" "''n''" 1]
  by (simp add: admit_create_def demo_created)
    (simp add: demo_new_session_def require_def validate_generation_def safe_int_def max_safe_integer_def fresh_catalog_def name_available_def name_ok_def)

lemma demo_catalog_value:
  "demo_catalog =
     \<lparr>cat_records = [(''s'', demo_session_record ''s'' ''n'' 1)], cat_names = [(''n'', ''s'')],
      cat_dir = [(catalog_file ''s'', published_file (Some 1000) (demo_session_record ''s'' ''n'' 1))], cat_load = Loaded\<rparr>"
proof -
  have "catalog_create demo_platform demo_catalog_config demo_catalog_io (demo_new_session ''s'' (Some ''n'')) (fresh_catalog []) =
    (Inr (demo_session_record ''s'' ''n'' 1), add_record (demo_session_record ''s'' ''n'' 1) (file_put demo_platform (demo_session_record ''s'' ''n'' 1) (fresh_catalog []\<lparr>cat_load := Loaded\<rparr>)))"
    using catalog_create_published [OF ensure_recovered_empty, of demo_catalog_io demo_platform demo_catalog_config
        "demo_new_session ''s'' (Some ''n'')" "demo_session_record ''s'' ''n'' 1"] demo_admitted demo_sizes(1)
    by simp
  then show ?thesis
    by (simp add: demo_catalog_def catalog_step_def add_record_def file_put_def fresh_catalog_def demo_platform_def)
qed

text \<open>A replacement of the session by its name.\<close>

lemma demo_replaced_record:
  "next_record demo_platform demo_catalog_config ''t'' (demo_session_record ''s'' ''n'' 1)
     (replace_patch demo_platform (demo_replace 1) (demo_session_record ''s'' ''n'' 1)) = Inr (demo_session_record ''s'' ''n'' 2)"
proof -
  have "next_record demo_platform demo_catalog_config ''t'' (demo_session_record ''s'' ''n'' 1)
      (replace_patch demo_platform (demo_replace 1) (demo_session_record ''s'' ''n'' 1))
    = (if valid_catalog_record demo_platform demo_catalog_config (demo_session_record ''s'' ''n'' 2)
       then Inr (demo_session_record ''s'' ''n'' 2) else Inl corrupt_catalog)"
    by (simp add: next_record_def successor_record_def replace_patch_def demo_replace_def next_name_def or_else_def Let_def)
      (simp add: demo_session_record_def str_field_def)
  then show ?thesis
    using demo_record_valid [of "''s''" "''n''" 2] demo_session_ids(1) by (simp add: name_ok_def safe_int_def max_safe_integer_def)
qed

lemma demo_replaced:
  "fst (catalog_replace demo_platform demo_catalog_config demo_catalog_io ''n'' (demo_replace 1) demo_catalog) = Inr (demo_session_record ''s'' ''n'' 2)"
proof -
  have "admit_replace demo_platform demo_catalog_config demo_catalog_io ''n'' (demo_replace 1) demo_catalog
      = Inr (demo_session_record ''s'' ''n'' 1, demo_session_record ''s'' ''n'' 2)"
    using demo_replaced_record demo_spec_valid
    by (simp add: admit_replace_def require_ref_def resolve_ref_def demo_catalog_value assert_version_def require_def)
      (simp add: demo_replace_def validate_generation_def require_def safe_int_def max_safe_integer_def next_name_def name_available_def name_ok_def)
  then show ?thesis
    using demo_sizes(2) store_next_published [of "demo_session_record ''s'' ''n'' 2" demo_catalog_config demo_catalog_io demo_platform]
    by (simp add: catalog_replace_def demo_catalog_value)
qed

section \<open>A create that throws after it has published its file\<close>

lemma demo_published_size: "published_size (demo_session_record ''s'' ''n'' 1) < 2000"
  by code_simp

definition torn_io :: catalog_io where
  "torn_io = demo_catalog_io\<lparr>io_write := \<lambda>_. PublishedThrew (plain_error ''EIO'')\<rparr>"

definition empty_catalog :: catalog where
  "empty_catalog = fold (catalog_step demo_platform demo_catalog_config) [(demo_catalog_io, CallLoad)] (fresh_catalog [])"

lemma empty_catalog_value: "empty_catalog = fresh_catalog []\<lparr>cat_load := Loaded\<rparr>"
  by (simp add: empty_catalog_def catalog_step_def catalog_recover_def ensure_recovered_empty)

lemma demo_sizes_a: "compact_size (demo_session_record ''a'' ''n'' 1) < 1000"
  by code_simp

lemma demo_admitted_a:
  "admit_create demo_platform demo_catalog_config ''t'' (demo_new_session ''a'' (Some ''n'')) (file_put P r empty_catalog) = Inr (demo_session_record ''a'' ''n'' 1)"
  using demo_session_ids(2) demo_spec_valid demo_record_valid [of "''a''" "''n''" 1]
  by (simp add: admit_create_def demo_created empty_catalog_value)
    (simp add: demo_new_session_def require_def validate_generation_def safe_int_def max_safe_integer_def fresh_catalog_def file_put_def
      name_available_def name_ok_def)

lemma torn_create:
  "catalog_create demo_platform demo_catalog_config torn_io (demo_new_session ''s'' (Some ''n'')) empty_catalog
     = (Inl (plain_error ''EIO''), file_put demo_platform (demo_session_record ''s'' ''n'' 1) empty_catalog)"
  using demo_admitted demo_sizes(1)
  by (simp add: catalog_create_def empty_catalog_value torn_io_def write_catalog_record_def file_put_def)

lemma second_create:
  "\<exists>st2. catalog_create demo_platform demo_catalog_config demo_catalog_io (demo_new_session ''a'' (Some ''n'')) (file_put demo_platform r empty_catalog)
     = (Inr (demo_session_record ''a'' ''n'' 1), st2)"
proof -
  have "cat_load (file_put demo_platform r empty_catalog) = Loaded"
    by (simp add: empty_catalog_value)
  then show ?thesis
    using catalog_create_published [OF ensure_recovered_loaded, of "file_put demo_platform r empty_catalog" demo_platform demo_catalog_config
        demo_catalog_io "demo_new_session ''a'' (Some ''n'')"] demo_admitted_a demo_sizes_a by simp
qed

text \<open>The files of the retained session, and its dormant record.\<close>

lemma demo_dormant_size: "compact_size (dormant_version ''t'' (demo_session_record ''s'' ''n'' 1)) \<le> 4096"
proof -
  have "compact_size (dormant_version ''t'' (demo_session_record ''s'' ''n'' 1)) < 1000"
    by code_simp
  then show ?thesis
    by simp
qed

lemma demo_files:
  "list_all (\<lambda>n. file_bytes (cat_dir demo_catalog) n \<le> 4096) (catalog_file_names (cat_dir demo_catalog))"
  "sum_list (List.map (file_bytes (cat_dir demo_catalog)) (catalog_file_names (cat_dir demo_catalog))) \<le> cc_max_recovery_bytes demo_catalog_config"
  using demo_published_size catalog_file_json [OF demo_session_ids(1)]
  by (simp_all add: demo_catalog_value catalog_file_names_def file_bytes_def state_file_size_def demo_catalog_config_def)

section \<open>A case-insensitive collation\<close>

definition lower_case :: "string \<Rightarrow> string" where
  "lower_case s = List.map (\<lambda>c. if c = CHR ''B'' then CHR ''b'' else c) s"

definition locale_platform :: platform where
  "locale_platform = demo_platform\<lparr>collate := \<lambda>s t. code_unit_le (lower_case s) (lower_case t)\<rparr>"

definition locale_create :: "string \<Rightarrow> create_input" where
  "locale_create s = demo_new_session s None\<lparr>ci_digest := Some ''d''\<rparr>"

definition locale_record :: "string \<Rightarrow> json" where
  "locale_record s =
     JObj [(''formatVersion'', JNum 1), (''sessionId'', JStr s), (''generation'', JNum 1), (''revision'', JNum 1),
           (''residency'', JStr ''resident''), (''state'', JStr ''idle''), (''createdAt'', JStr ''t''), (''updatedAt'', JStr ''t''),
           (''lastUsedAt'', JStr ''t''), (''spec'', demo_spec), (''environment'', empty_environment_summary), (''policyDigest'', JStr ''d'')]"

definition locale_catalog :: catalog where
  "locale_catalog =
     fold (catalog_step locale_platform demo_catalog_config)
       [(demo_catalog_io, CallCreate (locale_create ''a'')), (demo_catalog_io, CallCreate (locale_create ''B''))] (fresh_catalog [])"

lemma locale_created: "created_record locale_platform ''t'' (locale_create s) = locale_record s"
  by (simp add: created_record_def locale_create_def demo_new_session_def locale_record_def or_else_def opt_entry_def)

lemma locale_record_parts [simp]: "rec_id (locale_record s) = s" "rec_name (locale_record s) = None"
  by (simp_all add: locale_record_def str_field_def rec_name_def)

lemma locale_record_valid:
  "session_id_ok s \<Longrightarrow> valid_catalog_record locale_platform demo_catalog_config (locale_record s)"
  by (simp add: locale_record_def valid_catalog_record_def demo_spec_valid catalog_states_def nonempty_string_def valid_environment_def
    empty_environment_summary_def valid_environment_keys_def safe_int_from_def safe_int_def max_safe_integer_def)

lemma locale_sizes: "compact_size (locale_record ''a'') < 1000" "compact_size (locale_record ''B'') < 1000"
  by code_simp+

lemma locale_admitted:
  assumes "session_id_ok s" and "map_get (cat_records st) s = None" and "cat_names st = []" and "length (cat_records st) < 4"
  shows "admit_create locale_platform demo_catalog_config ''t'' (locale_create s) st = Inr (locale_record s)"
  using assms demo_spec_valid locale_record_valid [OF assms(1)]
  by (simp add: admit_create_def locale_created)
    (simp add: locale_create_def demo_new_session_def require_def validate_generation_def safe_int_def max_safe_integer_def)

lemma locale_step:
  assumes "ensure_recovered locale_platform demo_catalog_config demo_catalog_io st = (Inr (), st1)" and "session_id_ok s"
    and "map_get (cat_records st1) s = None" and "cat_names st1 = []" and "length (cat_records st1) < 4" and "compact_size (locale_record s) < 1000"
  shows "catalog_step locale_platform demo_catalog_config (demo_catalog_io, CallCreate (locale_create s)) st =
    add_record (locale_record s) (file_put locale_platform (locale_record s) st1)"
proof -
  have "ci_session (locale_create s) = s"
    by (simp add: locale_create_def demo_new_session_def)
  then show ?thesis
    using catalog_create_published [OF assms(1), of "locale_create s" "locale_record s"] locale_admitted [OF assms(2-5)] assms(6)
    by (simp add: catalog_step_def)
qed

lemma locale_catalog_value:
  "cat_records locale_catalog = [(''a'', locale_record ''a''), (''B'', locale_record ''B'')]" "cat_load locale_catalog = Loaded"
proof -
  define st where "st = catalog_step locale_platform demo_catalog_config (demo_catalog_io, CallCreate (locale_create ''a'')) (fresh_catalog [])"
  have "st = add_record (locale_record ''a'') (file_put locale_platform (locale_record ''a'') (fresh_catalog []\<lparr>cat_load := Loaded\<rparr>))"
    unfolding st_def
    by (rule locale_step [OF ensure_recovered_empty demo_session_ids(2)]) (use locale_sizes(1) in \<open>simp_all add: fresh_catalog_def\<close>)
  then have first: "cat_records st = [(''a'', locale_record ''a'')]" "cat_names st = []" "cat_load st = Loaded"
    by (simp_all add: add_record_def fresh_catalog_def file_put_def)
  have stepped: "locale_catalog = add_record (locale_record ''B'') (file_put locale_platform (locale_record ''B'') st)"
    using locale_step [OF ensure_recovered_loaded [OF first(3)] demo_session_ids(4)] locale_sizes(2) first
    by (simp add: locale_catalog_def flip: st_def)
  show "cat_records locale_catalog = [(''a'', locale_record ''a''), (''B'', locale_record ''B'')]" "cat_load locale_catalog = Loaded"
    by (simp_all add: stepped first add_record_def)
qed

lemma locale_sorted: "all_records locale_platform locale_catalog = [locale_record ''a'', locale_record ''B'']"
  by (simp add: all_records_def locale_catalog_value locale_platform_def lower_case_def code_unit_le_def)

lemma locale_cursors: "encode_catalog_cursor ''B'' \<noteq> encode_catalog_cursor ''a''" "locale_record ''B'' \<noteq> locale_record ''a''"
  by code_simp (simp add: locale_record_def)

end
