(* ===== verification/ConfigClaims.thy ===== *)
theory ConfigClaims
  imports ConfigLaws CatalogDemo
begin

text \<open>The properties of session configurations.\<close>

lemma validate_persisted:
  assumes "is_record spec" and "field spec ''env'' = None"
  shows "validate_persisted_spec cfg spec =
    (case parse_session_configuration default_config_limits (cc_base cfg) spec of Inl _ \<Rightarrow> Inl (catalog_error ''invalid_session_spec'') | Inr _ \<Rightarrow> Inr ())"
  using assms by (simp add: validate_persisted_spec_def split: sum.split)

lemma persisted_fields_only:
  assumes "parse_session_configuration L base v = Inr p"
  shows "is_record (pc_spec p)" and "field (pc_spec p) ''env'' = None"
proof -
  obtain kvs shp where kvs: "pc_spec p = JObj kvs" and "build shp v = Inr kvs" and "List.map fst shp = persisted_fields"
    by (rule parsed_spec [OF assms]) (use spec_shape_names in blast)
  then have "set (List.map fst kvs) \<subseteq> set persisted_fields"
    using build_names by metis
  then show "is_record (pc_spec p)" "field (pc_spec p) ''env'' = None"
    by (auto simp: kvs persisted_fields_def map_of_eq_None_iff)
qed

text \<open>
  C38: The specification of an accepted configuration can be read again, from whatever base directory, exactly
  when its resolved paths are short enough and no list of resources has become one with duplicates; then it
  gives the same specification, with the fields of the tool policy in their order, and no environment.  The
  catalog stores exactly these: the others are accepted by the parser and refused by the store.
\<close>
theorem accepted_configuration_reread:
  assumes "parse_session_configuration default_config_limits base v = Inr p"
  shows "parse_session_configuration default_config_limits base' (pc_spec p) =
      (if settled_spec (pc_spec p) then Inr \<lparr>pc_spec = reread_spec (pc_spec p), pc_environment = []\<rparr> else Inl invalid_spec)
    \<and> validate_persisted_spec cfg (pc_spec p) =
      (if settled_spec (pc_spec p) then Inr () else Inl (catalog_error ''invalid_session_spec''))"
  using parsed_again [OF assms] validate_persisted [OF persisted_fields_only [OF assms]] by simp

text \<open>Two skills that resolve to one path.\<close>

definition colliding_spec :: json where
  "colliding_spec =
     JObj [(''cwd'', JStr ''/w''), (''target'', JObj [(''mode'', JStr ''memory'')]),
           (''resources'', JObj [(''skills'', strings_json [''a'', ''./a''])])]"

lemma colliding_paths: "resolve_path ''/w'' ''/w'' = ''/w''" "resource_reference ''/w'' ''a'' = ''/w/a''" "resource_reference ''/w'' ''./a'' = ''/w/a''"
  by code_simp+

definition colliding_prepared :: prepared_configuration where
  "colliding_prepared =
     \<lparr>pc_spec = JObj [(''cwd'', JStr ''/w''), (''target'', JObj [(''mode'', JStr ''memory'')]),
            (''resources'', JObj [(''skills'', strings_json [''/w/a'', ''/w/a''])]), (''isolation'', JObj [(''mode'', JStr ''unisolated'')])],
      pc_environment = []\<rparr>"

lemma colliding_parsed: "parse_session_configuration default_config_limits ''/w'' colliding_spec = Inr colliding_prepared"
  by (simp add: parse_session_configuration_def colliding_spec_def colliding_prepared_def config_record_def reject_unknown_def
      spec_fields_def require_def bounded_string_def spec_shape_def path_reader_def text_reader_def optional_reader_def parse_target_def
      config_object_def target_shape_def choice_reader_def target_modes_def isolation_reader_def packages_trusted_def
      parse_environment_def parse_resources_def resources_shape_def resource_paths_def resource_switches_def unique_reader_def
      unique_strings_def string_array_def strings_json_def colliding_paths default_config_limits_def)

theorem accepted_configuration_reread_witness:
  "parse_session_configuration default_config_limits ''/w'' colliding_spec = Inr colliding_prepared
    \<and> parse_session_configuration default_config_limits ''/w'' (pc_spec colliding_prepared) = Inl invalid_spec
    \<and> validate_persisted_spec demo_catalog_config (pc_spec colliding_prepared) = Inl (catalog_error ''invalid_session_spec'')"
proof -
  have "\<not> settled_spec (pc_spec colliding_prepared)"
    by (simp add: colliding_prepared_def settled_spec_def settled_resources_def resource_paths_def if_given_def distinct_paths_def)
  then show ?thesis
    using accepted_configuration_reread [OF colliding_parsed, of "''/w''" demo_catalog_config] colliding_parsed by simp
qed

end
