(* ===== verification/CatalogPaging.thy ===== *)
theory CatalogPaging
  imports CatalogDemo Canonical
begin

text \<open>
  The listing of the catalog by pages: a client that follows the cursors, and which sessions it is shown.
\<close>

text \<open>The pages from a cursor on, until one comes without a cursor; nothing when a call throws or the fuel runs out.\<close>

fun follow_pages ::
  "platform \<Rightarrow> catalog_config \<Rightarrow> catalog_io \<Rightarrow> (string \<Rightarrow> json option) \<Rightarrow> int \<Rightarrow> nat \<Rightarrow> string option \<Rightarrow> catalog \<Rightarrow> json list option" where
  "follow_pages P cfg io parse n 0 cursor st = None"
| "follow_pages P cfg io parse n (Suc fuel) cursor st =
     (case fst (catalog_list P cfg io parse (Some n) cursor st) of
        Inl _ \<Rightarrow> None
      | Inr (rs, None) \<Rightarrow> Some rs
      | Inr (rs, Some c) \<Rightarrow> map_option ((@) rs) (follow_pages P cfg io parse n fuel (Some c) st))"

definition cursor_parsed :: "(string \<Rightarrow> json option) \<Rightarrow> string \<Rightarrow> bool" where
  "cursor_parsed parse s \<longleftrightarrow> s \<noteq> [] \<and> parse (encode_catalog_cursor s) = Some (JObj [(''after'', JStr s)])"

lemma decode_encoded: "cursor_parsed parse s \<Longrightarrow> decode_cursor parse (encode_catalog_cursor s) = Inr s"
  by (simp add: cursor_parsed_def decode_cursor_def)

lemma page_limit_ok: "1 \<le> n \<Longrightarrow> n \<le> 100 \<Longrightarrow> page_limit (Some n) = Inr n"
  by (simp add: page_limit_def or_else_def safe_int_def max_safe_integer_def)

lemma catalog_list_loaded [simp]:
  "cat_load st = Loaded \<Longrightarrow> catalog_list P cfg io parse n cursor st = (catalog_page P parse n cursor st, st)"
  by (simp add: catalog_list_def)

definition records_after :: "platform \<Rightarrow> string option \<Rightarrow> catalog \<Rightarrow> json list" where
  "records_after P after st = List.filter (\<lambda>r. case after of None \<Rightarrow> True | Some a \<Rightarrow> a < rec_id r) (all_records P st)"

lemma catalog_page_after:
  assumes "1 \<le> n" and "n \<le> 100" and "\<And>a. after = Some a \<Longrightarrow> cursor_parsed parse a"
  shows "catalog_page P parse (Some n) (map_option encode_catalog_cursor after) st =
    (let rs = records_after P after st; shown = take (nat n) rs
     in Inr (shown, if length rs > length shown then Some (encode_catalog_cursor (rec_id (last shown))) else None))"
  using assms by (cases after) (simp_all add: catalog_page_def page_limit_ok decode_encoded records_after_def Let_def)

section \<open>Complete listings\<close>

lemma sort_by_code_units: "sort_by (\<lambda>a b. code_unit_le (g a) (g b)) xs = sort_key g xs"
proof (induction xs)
  case (Cons x xs)
  have "insert_by (\<lambda>a b. code_unit_le (g a) (g b)) x ys = insort_key g x ys" for ys
    by (induction ys) (auto simp: code_unit_le_def)
  then show ?case
    using Cons by simp
qed simp

definition ids_increase :: "json list \<Rightarrow> bool" where
  "ids_increase rs \<longleftrightarrow> sorted_wrt (\<lambda>a b. rec_id a < rec_id b) rs"

lemma all_records_increase:
  assumes "catalog_ok P cfg st" and "collate P = code_unit_le"
  shows "ids_increase (all_records P st)"
proof -
  have "distinct (List.map rec_id (map_vals (cat_records st)))"
    using distinct_ids assms(1) by (simp add: catalog_ok_def)
  moreover have "mset (List.map rec_id (all_records P st)) = mset (List.map rec_id (map_vals (cat_records st)))"
    by (simp add: all_records_def assms(2) sort_by_code_units multiset.map_comp)
  ultimately have "distinct (List.map rec_id (all_records P st))"
    using mset_eq_imp_distinct_iff by blast
  moreover have "sorted (List.map rec_id (all_records P st))"
    by (simp add: all_records_def assms(2) sort_by_code_units)
  ultimately have "sorted_wrt (<) (List.map rec_id (all_records P st))"
    by (simp add: strict_sorted_iff)
  then show ?thesis
    by (simp add: ids_increase_def sorted_wrt_map)
qed

lemma after_prefix:
  assumes "ids_increase (xs @ ys)" and "xs \<noteq> []"
  shows "List.filter (\<lambda>r. rec_id (last xs) < rec_id r) (xs @ ys) = ys"
proof -
  obtain zs z where xs: "xs = zs @ [z]"
    using assms(2) by (cases xs rule: rev_cases) auto
  have "\<not> rec_id z < rec_id x" if "x \<in> set xs" for x
    using assms(1) that by (auto simp: xs ids_increase_def sorted_wrt_append)
  moreover have "rec_id z < rec_id y" if "y \<in> set ys" for y
    using assms(1) that by (auto simp: xs ids_increase_def sorted_wrt_append)
  ultimately show ?thesis
    by (simp add: xs)
qed

text \<open>The place a client has reached: after a prefix of the sessions, whose last one the cursor names.\<close>

definition place :: "json list \<Rightarrow> string option" where
  "place xs = (if xs = [] then None else Some (rec_id (last xs)))"

lemma records_after_prefix:
  assumes "all_records P st = xs @ ys" and "ids_increase (xs @ ys)"
  shows "records_after P (place xs) st = ys"
  using after_prefix [OF assms(2)] assms(1) by (auto simp: records_after_def place_def)

lemma follow_prefix:
  assumes "cat_load st = Loaded" and "1 \<le> n" and "n \<le> 100" and "\<And>r. r \<in> set (all_records P st) \<Longrightarrow> cursor_parsed parse (rec_id r)"
    and "ids_increase (all_records P st)"
  shows "all_records P st = xs @ ys \<Longrightarrow> length ys < fuel \<Longrightarrow>
    follow_pages P cfg io parse n fuel (map_option encode_catalog_cursor (place xs)) st = Some ys"
proof (induction fuel arbitrary: xs ys)
  case (Suc fuel)
  have parsed: "cursor_parsed parse a" if "place xs = Some a" for a
    using that assms(4) [of "last xs"] Suc.prems(1) by (auto simp: place_def split: if_splits)
  have page: "catalog_page P parse (Some n) (map_option encode_catalog_cursor (place xs)) st =
      Inr (take (nat n) ys, if length ys > nat n then Some (encode_catalog_cursor (rec_id (last (take (nat n) ys)))) else None)"
    using catalog_page_after [OF assms(2,3) parsed] records_after_prefix [OF Suc.prems(1)] assms(5) Suc.prems(1)
    by (auto simp: Let_def)
  show ?case
  proof (cases "length ys > nat n")
    case True
    define shown rest where "shown = take (nat n) ys" and "rest = drop (nat n) ys"
    have shown: "shown \<noteq> []" "ys = shown @ rest" "length rest < fuel"
      using True assms(2) Suc.prems(2) by (auto simp: shown_def rest_def)
    have "follow_pages P cfg io parse n fuel (map_option encode_catalog_cursor (place (xs @ shown))) st = Some rest"
      by (rule Suc.IH) (use Suc.prems(1) shown in simp_all)
    then show ?thesis
      using page [folded shown_def] True shown(1) shown(2) [symmetric] assms(1) by (simp add: place_def)
  qed (use page assms(1) in simp)
qed simp

section \<open>Sessions that are never shown\<close>

lemma page_cursor:
  assumes "catalog_page P parse (Some n) cursor st = Inr (rs, Some c)" and "1 \<le> n"
  shows "rs \<noteq> []" and "c = encode_catalog_cursor (rec_id (last rs))" and "set rs \<subseteq> set (all_records P st)"
  using assms by (auto simp: catalog_page_def bind_ok page_limit_def Let_def or_else_def split: if_splits dest: in_set_takeD)

lemma page_after:
  assumes "catalog_page P parse (Some n) (Some (encode_catalog_cursor a)) st = Inr (rs, c)" and "cursor_parsed parse a" and "r \<in> set rs"
  shows "a < rec_id r"
  using assms by (auto simp: catalog_page_def bind_ok decode_encoded Let_def dest: in_set_takeD)

lemma follow_after:
  assumes "cat_load st = Loaded" and "1 \<le> n" and "\<And>r. r \<in> set (all_records P st) \<Longrightarrow> cursor_parsed parse (rec_id r)"
  shows "follow_pages P cfg io parse n fuel (Some (encode_catalog_cursor a)) st = Some rs \<Longrightarrow> cursor_parsed parse a \<Longrightarrow> r \<in> set rs \<Longrightarrow> a < rec_id r"
proof (induction fuel arbitrary: a rs)
  case (Suc fuel)
  obtain page c where page: "catalog_page P parse (Some n) (Some (encode_catalog_cursor a)) st = Inr (page, c)"
    using Suc.prems(1) assms(1) by (auto split: sum.splits prod.splits)
  show ?case
  proof (cases "r \<in> set page")
    case True
    then show ?thesis
      by (rule page_after [OF page Suc.prems(2)])
  next
    case False
    then obtain c' where c: "c = Some c'"
      using Suc.prems(1,3) page assms(1) by (cases c) auto
    note more = page_cursor [OF page [unfolded c] assms(2)]
    then have last: "last page \<in> set page" "cursor_parsed parse (rec_id (last page))"
      using last_in_set [OF more(1)] assms(3) more(3) by blast+
    obtain qs where qs: "follow_pages P cfg io parse n fuel (Some (encode_catalog_cursor (rec_id (last page)))) st = Some qs" "rs = page @ qs"
      using Suc.prems(1) page c more(2) assms(1) by auto
    have "rec_id (last page) < rec_id r"
      by (rule Suc.IH [OF qs(1) last(2)]) (use Suc.prems(3) qs(2) False in simp)
    moreover have "a < rec_id (last page)"
      by (rule page_after [OF page Suc.prems(2) last(1)])
    ultimately show ?thesis
      by simp
  qed
qed simp

text \<open>The listing ends: the identifiers after the cursors get fewer.\<close>

lemma records_after_less:
  assumes "x \<in> set (records_after P (Some a) st)"
  shows "length (records_after P (Some (rec_id x)) st) < length (records_after P (Some a) st)"
proof -
  have "records_after P (Some (rec_id x)) st = List.filter (\<lambda>r. rec_id x < rec_id r) (records_after P (Some a) st)"
    using assms unfolding records_after_def by (auto simp: intro!: filter_cong)
  then show ?thesis
    using length_filter_less [OF assms, of "\<lambda>r. rec_id x < rec_id r"] by simp
qed

lemma follow_ends:
  assumes "cat_load st = Loaded" and "1 \<le> n" and "n \<le> 100" and "\<And>r. r \<in> set (all_records P st) \<Longrightarrow> cursor_parsed parse (rec_id r)"
  shows "cursor_parsed parse a \<Longrightarrow> length (records_after P (Some a) st) < fuel \<Longrightarrow>
    \<exists>rs. follow_pages P cfg io parse n fuel (Some (encode_catalog_cursor a)) st = Some rs"
proof (induction fuel arbitrary: a)
  case (Suc fuel)
  define rest where "rest = records_after P (Some a) st"
  have page: "catalog_page P parse (Some n) (Some (encode_catalog_cursor a)) st = Inr (take (nat n) rest,
      if length rest > nat n then Some (encode_catalog_cursor (rec_id (last (take (nat n) rest)))) else None)"
    using catalog_page_after [OF assms(2,3), of "Some a"] Suc.prems(1) by (simp add: rest_def Let_def min_def)
  show ?case
  proof (cases "length rest > nat n")
    case True
    then have "last (take (nat n) rest) \<in> set (take (nat n) rest)"
      using assms(2) by (intro last_in_set) auto
    then have last: "last (take (nat n) rest) \<in> set rest"
      by (rule in_set_takeD)
    then have "cursor_parsed parse (rec_id (last (take (nat n) rest)))"
      using assms(4) by (auto simp: rest_def records_after_def)
    then show ?thesis
      using Suc.IH records_after_less [of "last (take (nat n) rest)" P a st] last page True Suc.prems(2) assms(1)
      by (fastforce simp flip: rest_def)
  qed (use page assms(1) in simp)
qed simp

end
