(* ===== verification/CatalogClaims.thy ===== *)
theory CatalogClaims
  imports CatalogPaging CatalogRestart
begin

text \<open>The properties of the session catalog.\<close>

section \<open>References\<close>

text \<open>
  C32: After any calls from any directory, whatever the clock and the file system answer, a reference
  names a session exactly when it is the session's identifier or its name, so that no reference is ambiguous;
  every retained record is valid and no identifier occurs twice.
\<close>
theorem catalog_references_unambiguous:
  fixes calls P cfg dir
  defines "st \<equiv> fold (catalog_step P cfg) calls (fresh_catalog dir)"
  shows "(\<forall>ref r. resolve_ref st ref = Some r \<longleftrightarrow> r \<in> set (map_vals (cat_records st)) \<and> (ref = rec_id r \<or> rec_name r = Some ref))
    \<and> list_all (valid_catalog_record P cfg) (map_vals (cat_records st)) \<and> distinct (List.map rec_id (map_vals (cat_records st)))"
proof (intro conjI allI)
  have ok: "catalog_ok P cfg st"
    unfolding st_def by (rule reached_ok)
  then have I: "cat_index_ok P cfg (cat_records st) (cat_names st)"
    by (simp add: catalog_ok_def)
  show "resolve_ref st ref = Some r \<longleftrightarrow> r \<in> set (map_vals (cat_records st)) \<and> (ref = rec_id r \<or> rec_name r = Some ref)" for ref r
    by (rule resolve_ref_iff [OF ok])
  show "list_all (valid_catalog_record P cfg) (map_vals (cat_records st))"
    using cat_index_okD(4) [OF I cat_index_ok_vals [OF I]] by (auto simp: list_all_iff)
  show "distinct (List.map rec_id (map_vals (cat_records st)))"
    by (rule distinct_ids [OF I])
qed

section \<open>Lost updates\<close>

text \<open>
  C33: No update is lost: once a replacement of a session has succeeded, a second one that expects the
  same generation and revision is refused and changes nothing, whatever other calls come between the two and
  however their writes end, as long as no session is deleted.
\<close>
theorem stale_replace_refused:
  assumes "st = fold (catalog_step P cfg) before (fresh_catalog dir)" and "cat_load st = Loaded"
    and "catalog_replace P cfg io ref c st = (Inr r, st1)"
    and "list_all (\<lambda>(io, call). \<not> deletes call) between"
    and "st2 = fold (catalog_step P cfg) between st1"
    and "ri_expected_generation c' = ri_expected_generation c" and "ri_expected_revision c' = ri_expected_revision c"
  shows "catalog_replace P cfg io' (rec_id r) c' st2 = (Inl (catalog_error ''session_precondition_failed''), st2)"
proof -
  have ok: "catalog_ok P cfg st"
    unfolding assms(1) by (rule reached_ok)
  note first = catalog_replace_ok [OF ok assms(2,3)]
  obtain x where x: "map_get (cat_records st2) (rec_id r) = Some x" "record_advances r x"
    using run_advances [OF first(2,1,3) assms(4)] assms(5) by blast
  have "cat_load st2 = Loaded"
    using retained.run_up [OF first(2), of between] first(1) assms(5) by (simp add: load_decided_def)
  moreover have "rec_int x ''revision'' \<noteq> ri_expected_revision c'"
    using x(2) first(4) assms(7) by (auto simp: record_advances_def)
  ultimately show ?thesis
    using stale_version_refused x(1) by blast
qed

theorem stale_replace_refused_witness:
  "\<exists>r st1. catalog_replace demo_platform demo_catalog_config demo_catalog_io ''n'' (demo_replace 1) demo_catalog = (Inr r, st1)
    \<and> catalog_replace demo_platform demo_catalog_config demo_catalog_io (rec_id r) (demo_replace 1) st1
        = (Inl (catalog_error ''session_precondition_failed''), st1)"
proof -
  obtain st1 where first: "catalog_replace demo_platform demo_catalog_config demo_catalog_io ''n'' (demo_replace 1) demo_catalog = (Inr (demo_session_record ''s'' ''n'' 2), st1)"
    using demo_replaced by (metis prod.collapse)
  have "cat_load demo_catalog = Loaded"
    by (simp add: demo_catalog_value)
  from stale_replace_refused [OF demo_catalog_def this first, of "[]" st1 "demo_replace 1" demo_catalog_io] first show ?thesis
    by auto
qed

section \<open>Listing\<close>

text \<open>
  C35: Where sessions are sorted in the order their cursors are compared in, a client that follows the
  cursors with any page size is shown every retained session exactly once, in order, and then told that there
  are no more.
\<close>
theorem pages_show_every_session:
  assumes "st = fold (catalog_step P cfg) calls (fresh_catalog dir)" and "cat_load st = Loaded" and "collate P = code_unit_le"
    and "1 \<le> n" and "n \<le> 100" and "list_all (\<lambda>r. cursor_parsed parse (rec_id r)) (map_vals (cat_records st))"
  shows "\<exists>rs. follow_pages P cfg io parse n (Suc (length (cat_records st))) None st = Some rs
    \<and> mset rs = mset (map_vals (cat_records st)) \<and> sorted_wrt (\<lambda>a b. rec_id a < rec_id b) rs"
proof -
  have ok: "catalog_ok P cfg st"
    unfolding assms(1) by (rule reached_ok)
  note increase = all_records_increase [OF ok assms(3)]
  have set: "set (all_records P st) = set (map_vals (cat_records st))" and size: "length (all_records P st) = length (cat_records st)"
    by (simp_all add: all_records_def)
  have "follow_pages P cfg io parse n (Suc (length (cat_records st))) (map_option encode_catalog_cursor (place [])) st = Some (all_records P st)"
    by (rule follow_prefix [OF assms(2,4,5) _ increase]) (use assms(6) set size in \<open>auto simp: list_all_iff\<close>)
  moreover have "mset (all_records P st) = mset (map_vals (cat_records st))"
    by (simp add: all_records_def assms(3) sort_by_code_units)
  ultimately show ?thesis
    using increase by (auto simp: place_def ids_increase_def)
qed

theorem pages_show_every_session_witness:
  "\<exists>rs. follow_pages demo_platform demo_catalog_config demo_catalog_io (\<lambda>_. Some (JObj [(''after'', JStr ''s'')])) 1
      (Suc (length (cat_records demo_catalog))) None demo_catalog = Some rs
    \<and> mset rs = mset (map_vals (cat_records demo_catalog)) \<and> sorted_wrt (\<lambda>a b. rec_id a < rec_id b) rs"
  by (rule pages_show_every_session [OF demo_catalog_def]) (simp_all add: demo_catalog_value cursor_parsed_def demo_platform_def)

text \<open>
  C36: Sessions are sorted by \<open>localeCompare\<close>, but a cursor is compared by code units.  When a page ends
  with a session whose identifier is greater by code units than that of a retained session not shown so far,
  the listing ends without that session, although it is found by its identifier.
\<close>
theorem paging_loses_session:
  assumes "st = fold (catalog_step P cfg) calls (fresh_catalog dir)" and "cat_load st = Loaded" and "1 \<le> n"
    and "list_all (\<lambda>r. cursor_parsed parse (rec_id r)) (map_vals (cat_records st))"
    and "catalog_list P cfg io parse (Some n) None st = (Inr (page, Some c), st)"
    and "map_get (cat_records st) i = Some r" and "r \<notin> set page" and "rec_id r < rec_id (last page)"
  shows "(\<exists>rs. follow_pages P cfg io parse n (Suc (length (cat_records st))) None st = Some rs \<and> r \<notin> set rs)
    \<and> catalog_get P cfg io (rec_id r) st = (Inr (Some r), st)"
proof -
  have ok: "catalog_ok P cfg st"
    unfolding assms(1) by (rule reached_ok)
  have parsed: "cursor_parsed parse (rec_id x)" if "x \<in> set (all_records P st)" for x
    using assms(4) that by (auto simp: list_all_iff all_records_def)
  have page: "catalog_page P parse (Some n) None st = Inr (page, Some c)"
    using assms(2,5) by simp
  note more = page_cursor [OF this assms(3)]
  have limit: "n \<le> 100"
    using page by (auto simp: catalog_page_def page_limit_def or_else_def bind_ok split: if_splits)
  have last: "cursor_parsed parse (rec_id (last page))"
    using last_in_set [OF more(1)] more(3) parsed by blast
  have "last page \<in> set (all_records P st)"
    using last_in_set [OF more(1)] more(3) by blast
  then have "length (records_after P (Some (rec_id (last page))) st) < length (all_records P st)"
    unfolding records_after_def by (rule length_filter_less) simp
  then obtain qs where qs: "follow_pages P cfg io parse n (length (cat_records st)) (Some (encode_catalog_cursor (rec_id (last page)))) st = Some qs"
    using follow_ends [OF assms(2,3) limit parsed last, where fuel = "length (cat_records st)"] by (fastforce simp: all_records_def)
  then have "follow_pages P cfg io parse n (Suc (length (cat_records st))) None st = Some (page @ qs)"
    using assms(2) page more(2) by simp
  moreover have "r \<notin> set qs"
    using follow_after [OF assms(2,3) parsed qs last, of r] assms(8) by auto
  moreover have "resolve_ref st (rec_id r) = Some r"
    using cat_index_okD(3) [OF ok [unfolded catalog_ok_def] assms(6)] assms(6) by (simp add: resolve_ref_def)
  ultimately show ?thesis
    using assms(2,7) by (simp add: catalog_get_def)
qed


theorem paging_loses_session_witness:
  "(\<exists>rs. follow_pages locale_platform demo_catalog_config demo_catalog_io (\<lambda>c. Some (JObj [(''after'', JStr (if c = encode_catalog_cursor ''a'' then ''a'' else ''B''))])) 1
      (Suc (length (cat_records locale_catalog))) None locale_catalog = Some rs \<and> locale_record ''B'' \<notin> set rs)
    \<and> catalog_get locale_platform demo_catalog_config demo_catalog_io (rec_id (locale_record ''B'')) locale_catalog
        = (Inr (Some (locale_record ''B'')), locale_catalog)"
proof (rule paging_loses_session [OF locale_catalog_def])
  show "catalog_list locale_platform demo_catalog_config demo_catalog_io
      (\<lambda>c. Some (JObj [(''after'', JStr (if c = encode_catalog_cursor ''a'' then ''a'' else ''B''))])) (Some 1) None locale_catalog
    = (Inr ([locale_record ''a''], Some (encode_catalog_cursor ''a'')), locale_catalog)"
    by (simp add: locale_catalog_value catalog_page_def page_limit_ok locale_sorted)
  show "map_get (cat_records locale_catalog) ''B'' = Some (locale_record ''B'')"
    by (simp add: locale_catalog_value)
qed (simp_all add: locale_catalog_value cursor_parsed_def locale_cursors)

section \<open>Restarts\<close>

text \<open>
  C34: A process that starts over the files of a running catalog has every session again, under the same
  names and with its last acknowledged record made dormant, after any calls none of whose writes threw after
  its rename, when the files are within the limits of a load and the dormant records within that of a write.
\<close>
theorem restart_restores_catalog:
  assumes "js_map dir" and "list_all (\<lambda>(io, c). whole io) calls"
    and "st = fold (catalog_step P cfg) calls (fresh_catalog dir)" and "cat_load st = Loaded"
    and "io_open io = Inr ()" and "\<And>i. io_write io i = Published" and "\<And>i. io_now io i \<noteq> []"
    and "list_all (\<lambda>r. rec_int r ''revision'' < max_safe_integer
           \<and> compact_size (dormant_version (io_now io (rec_id r)) r) \<le> cc_max_record_bytes cfg) (map_vals (cat_records st))"
    and "list_all (\<lambda>n. file_bytes (cat_dir st) n \<le> cc_max_record_bytes cfg) (catalog_file_names (cat_dir st))"
    and "sum_list (List.map (file_bytes (cat_dir st)) (catalog_file_names (cat_dir st))) \<le> cc_max_recovery_bytes cfg"
  shows "\<exists>st'. ensure_recovered P cfg io (fresh_catalog (cat_dir st)) = (Inr (), st')
    \<and> (\<forall>i. map_get (cat_records st') i = map_option (dormant_version (io_now io i)) (map_get (cat_records st) i))
    \<and> (\<forall>n. map_get (cat_names st') n = map_get (cat_names st) n)"
proof -
  have K: "catalog_ok P cfg st" "saved P cfg st"
    using run_kept [OF assms(1,2), of P cfg] assms(3,4) by (simp_all add: kept_def)
  note D = cat_index_okD [OF K(1) [unfolded catalog_ok_def]]
  show ?thesis
  proof (rule restarted [OF K assms(5)])
    show "file_bytes (cat_dir st) n \<le> cc_max_record_bytes cfg" if "n \<in> set (catalog_file_names (cat_dir st))" for n
      using assms(9) that by (simp add: list_all_iff)
    fix i r
    assume r: "map_get (cat_records st) i = Some r"
    then have mem: "r \<in> set (map_vals (cat_records st))" and id: "rec_id r = i"
      using vals_iff [OF D(1)] D(3) by blast+
    then have "rec_int r ''revision'' < max_safe_integer"
        "compact_size (dormant_version (io_now io i) r) \<le> cc_max_record_bytes cfg"
      using assms(8) unfolding list_all_iff by blast+
    then show "io_write io i = Published \<and> valid_catalog_record P cfg (dormant_version (io_now io i) r)
        \<and> compact_size (dormant_version (io_now io i) r) \<le> cc_max_record_bytes cfg"
      using dormant_valid [OF D(4) [OF r] _ assms(7)] assms(6) by simp
  qed (rule assms(10))
qed

text \<open>
  C37: A create whose write throws after the rename leaves its file behind without the name being taken: a
  create of another session with that name succeeds, and from then on every process that loads the directory
  fails.
\<close>
theorem failed_create_blocks_recovery:
  assumes "st = fold (catalog_step P cfg) calls (fresh_catalog dir)" and "cat_load st = Loaded"
    and "admit_create P cfg (io_now io (ci_session c)) c st = Inr r" and "compact_size r \<le> cc_max_record_bytes cfg"
    and "io_write io (ci_session c) = PublishedThrew e" and "catalog_create P cfg io c st = (res, st1)"
    and "ci_name c = Some n" and "ci_name c' = Some n" and "ci_session c' \<noteq> ci_session c"
    and "catalog_create P cfg io' c' st1 = (Inr r', st2)"
  shows "res = Inl e \<and> (\<forall>io''. \<exists>err. fst (ensure_recovered P cfg io'' (fresh_catalog (cat_dir st2))) = Inl err)"
proof -
  note A = admit_create_parts [OF assms(3)]
  have r: "rec_id r = ci_session c" "rec_name r = Some n"
    using created_record_fields(2,3) A(1) assms(7) by simp_all
  have first: "catalog_create P cfg io c st = (Inl e, file_put P r st)"
    using assms(2-5) r(1) by (simp add: catalog_create_def write_catalog_record_def file_put_def)
  then have st1: "st1 = file_put P r st" "res = Inl e" "cat_load st1 = Loaded"
    using assms(2,6) by simp_all
  obtain x where x: "admit_create P cfg (io_now io' (ci_session c')) c' st1 = Inr x"
    using assms(10) st1(3) by (cases "admit_create P cfg (io_now io' (ci_session c')) c' st1") (simp_all add: catalog_create_def)
  note B = admit_create_parts [OF x]
  have r': "rec_id x = ci_session c'" "rec_name x = Some n"
    using created_record_fields(2,3) B(1) assms(8) by simp_all
  have "st2 = add_record x (file_put P x st1)"
    using assms(10) x st1(3) by (cases rule: write_cases [of P cfg io' x st1]) (auto simp: catalog_create_def)
  then have dir: "cat_dir st2 = map_set (map_set (cat_dir st) (catalog_file (ci_session c)) (published_file (current_uid P) r))
      (catalog_file (ci_session c')) (published_file (current_uid P) x)"
    using st1(1) r(1) r'(1) by (simp add: file_put_def)
  have "catalog_file (ci_session c) \<noteq> catalog_file (ci_session c')"
    using catalog_file_inj [OF A(3) B(3)] assms(9) by auto
  then have "stored P (cat_dir st2) (ci_session c) r" "stored P (cat_dir st2) (ci_session c') x"
    by (simp_all add: dir stored_def)
  then show ?thesis
    using shared_name_blocks [OF _ _ A(3) B(3) assms(9) [symmetric] r(2) r'(2)] st1(2) by blast
qed

theorem restart_restores_catalog_witness:
  "\<exists>st'. ensure_recovered demo_platform demo_catalog_config demo_catalog_io (fresh_catalog (cat_dir demo_catalog)) = (Inr (), st')
    \<and> (\<forall>i. map_get (cat_records st') i = map_option (dormant_version (io_now demo_catalog_io i)) (map_get (cat_records demo_catalog) i))
    \<and> (\<forall>n. map_get (cat_names st') n = map_get (cat_names demo_catalog) n)"
proof (rule restart_restores_catalog [OF _ _ demo_catalog_def])
  show "list_all (\<lambda>r. rec_int r ''revision'' < max_safe_integer
      \<and> compact_size (dormant_version (io_now demo_catalog_io (rec_id r)) r) \<le> cc_max_record_bytes demo_catalog_config) (map_vals (cat_records demo_catalog))"
    using demo_dormant_size by (simp add: demo_catalog_value max_safe_integer_def)
qed (use demo_files in \<open>simp_all add: demo_catalog_value whole_def\<close>)

theorem failed_create_blocks_recovery_witness:
  "\<exists>st1 r' st2. catalog_create demo_platform demo_catalog_config torn_io (demo_new_session ''s'' (Some ''n'')) empty_catalog = (Inl (plain_error ''EIO''), st1)
    \<and> catalog_create demo_platform demo_catalog_config demo_catalog_io (demo_new_session ''a'' (Some ''n'')) st1 = (Inr r', st2)
    \<and> (\<forall>io''. \<exists>err. fst (ensure_recovered demo_platform demo_catalog_config io'' (fresh_catalog (cat_dir st2))) = Inl err)"
proof -
  obtain res st1 where first: "catalog_create demo_platform demo_catalog_config torn_io (demo_new_session ''s'' (Some ''n'')) empty_catalog = (res, st1)"
    by fastforce
  then have st1: "st1 = file_put demo_platform (demo_session_record ''s'' ''n'' 1) empty_catalog"
    using torn_create by simp
  obtain st2 where second: "catalog_create demo_platform demo_catalog_config demo_catalog_io (demo_new_session ''a'' (Some ''n'')) st1
      = (Inr (demo_session_record ''a'' ''n'' 1), st2)"
    using second_create st1 by blast
  have "res = Inl (plain_error ''EIO'') \<and>
      (\<forall>io''. \<exists>err. fst (ensure_recovered demo_platform demo_catalog_config io'' (fresh_catalog (cat_dir st2))) = Inl err)"
    by (rule failed_create_blocks_recovery [OF empty_catalog_def _ _ _ _ first _ _ _ second, of "demo_session_record ''s'' ''n'' 1" _ "''n''"])
      (use demo_admitted demo_sizes(1) in \<open>simp_all add: empty_catalog_value torn_io_def demo_new_session_def\<close>)
  then show ?thesis
    using first second by blast
qed

end
