(* ===== verification/Turns.thy ===== *)
theory Turns
  imports Machine
begin

text \<open>
  The scheduler of \<open>src/multiplexer.ts\<close>: the sessions a host has resident, the semaphore that bounds
  concurrent turns, the chain of turns of every session, the phases of a turn between its awaits, and
  the calls that interrupt them (abort, close, idle eviction, drain).

  What runs between two awaits is one event; the outcome of the awaited call is a parameter of the event
  that resumes.  An event whose turn is not at that await changes nothing.  Slots and turns are shared
  objects of the code, so they live in a heap by identifier: a turn keeps its slot after the session is
  gone.  The handlers of one promise (the next link of \<open>turnTail\<close>, \<open>finally\<close>) run with the step that
  settles it.
\<close>

section \<open>Errors\<close>

definition mux_error :: "string \<Rightarrow> bool \<Rightarrow> js_error" where
  "mux_error code retryable = JsError MultiplexerError code retryable"

definition aborted_error :: js_error where
  "aborted_error = mux_error ''aborted'' True"

text \<open>
  \<open>asMultiplexerError\<close>; an error with a code that may be shown keeps it, an \<open>AbortError\<close> becomes \<open>aborted\<close>, and
  any other gets the code of the call it stopped.
\<close>

definition as_mux_error :: "js_error \<Rightarrow> string \<Rightarrow> js_error" where
  "as_mux_error e code =
     (case err_class e of
        MultiplexerError \<Rightarrow> e
      | DurabilityError \<Rightarrow> mux_error (err_code e) False
      | SessionConfigurationError \<Rightarrow> mux_error (err_code e) False
      | SessionCatalogError \<Rightarrow> mux_error (err_code e) (err_retryable e)
      | ProtocolSafeError \<Rightarrow> mux_error (err_code e) (err_retryable e)
      | AbortError \<Rightarrow> aborted_error
      | _ \<Rightarrow> mux_error code False)"

section \<open>The semaphore\<close>

record semaphore =
  sem_limit :: nat
  sem_active :: nat
  sem_waiters :: "nat list"

datatype acquired = Refused | Permitted | Enqueued

definition sem_acquire :: "nat \<Rightarrow> bool \<Rightarrow> semaphore \<Rightarrow> acquired \<times> semaphore" where
  "sem_acquire t aborted sem =
     (if aborted then (Refused, sem)
      else if sem_active sem < sem_limit sem then (Permitted, sem\<lparr>sem_active := sem_active sem + 1\<rparr>)
      else (Enqueued, sem\<lparr>sem_waiters := sem_waiters sem @ [t]\<rparr>))"

text \<open>The abort listener of a waiter.\<close>

definition sem_cancel :: "nat \<Rightarrow> semaphore \<Rightarrow> semaphore" where
  "sem_cancel t sem = sem\<lparr>sem_waiters := remove1 t (sem_waiters sem)\<rparr>"

text \<open>\<open>#release\<close> hands the permit to the first waiter, or gives it back when there is none.\<close>

definition sem_release :: "semaphore \<Rightarrow> nat option \<times> semaphore" where
  "sem_release sem =
     (case sem_waiters sem of
        t # ts \<Rightarrow> (Some t, sem\<lparr>sem_waiters := ts\<rparr>)
      | [] \<Rightarrow> (None, sem\<lparr>sem_active := sem_active sem - 1\<rparr>))"

section \<open>Slots, turns and the host\<close>

datatype session_state = SIdle | SRunning | SFailed | SClosing

record slot =
  s_session :: string
  s_generation :: int
  s_durable :: bool
  s_state :: session_state
  s_sequence :: nat
  s_pending :: int
  s_active :: "nat option"
  s_error :: "string option"
  s_used :: int
  s_in_flight :: "(string, nat) jsmap"
  s_controls :: "(string, string) jsmap"
  s_chain :: "nat list"

text \<open>
  Where a turn is: persisting its request, waiting in its session's chain, for the semaphore, holding a
  permit before its first await, and so on to the end.  A direct turn is a prompt of an attached
  controller, which takes a permit but no place in a chain.
\<close>

datatype phase =
    Beginning | RefusingFailed | Chained | Waiting | Granted | Accepting | MarkingRunning | Prompting
  | Completing | MarkingIdle | JournalFailing js_error | MarkingFailed js_error | Finished "js_error option"

record turn =
  t_slot :: nat
  t_direct :: bool
  t_request :: string
  t_key :: string
  t_print :: string
  t_aborted :: bool
  t_permit :: bool
  t_phase :: phase

record mux_limits =
  max_sessions :: nat
  max_concurrent_turns :: nat
  max_queue_depth :: nat

text \<open>
  The lifecycle operation a session is in, at the await it has reached, and the slot it disposes of: a
  replacement of its adapter by one of another generation, a close, or an eviction.
\<close>

datatype close_kind = Opening int | Closing bool | Evicting int

datatype close_stage = Disposing | Creating | Retiring | Unjournaling

record lifecycle =
  lc_slot :: nat
  lc_kind :: close_kind
  lc_stage :: close_stage

record mux =
  mx_limits :: mux_limits
  mx_durability :: bool
  mx_catalog :: bool
  mx_idle_ttl :: int
  mx_ready :: bool
  mx_draining :: bool
  mx_sessions :: "(string, nat) jsmap"
  mx_slots :: "nat \<Rightarrow> slot option"
  mx_turns :: "nat \<Rightarrow> turn option"
  mx_next :: nat
  mx_sem :: semaphore
  mx_leases :: "(string, (string, int \<times> int) jsmap) jsmap"
  mx_lifecycles :: "(string, lifecycle) jsmap"
  mx_events :: "(string \<times> nat \<times> string \<times> string option) list"

definition new_mux :: "mux_limits \<Rightarrow> bool \<Rightarrow> bool \<Rightarrow> int \<Rightarrow> mux" where
  "new_mux limits durability catalog idle_ttl =
     \<lparr>mx_limits = limits, mx_durability = durability, mx_catalog = catalog, mx_idle_ttl = idle_ttl,
      mx_ready = (\<not> durability \<and> \<not> catalog), mx_draining = False, mx_sessions = [], mx_slots = (\<lambda>_. None),
      mx_turns = (\<lambda>_. None), mx_next = 0,
      mx_sem = \<lparr>sem_limit = max_concurrent_turns limits, sem_active = 0, sem_waiters = []\<rparr>,
      mx_leases = [], mx_lifecycles = [], mx_events = []\<rparr>"

definition with_slot :: "nat \<Rightarrow> (slot \<Rightarrow> slot) \<Rightarrow> mux \<Rightarrow> mux" where
  "with_slot i f st = st\<lparr>mx_slots := (mx_slots st)(i := map_option f (mx_slots st i))\<rparr>"

definition with_turn :: "nat \<Rightarrow> (turn \<Rightarrow> turn) \<Rightarrow> mux \<Rightarrow> mux" where
  "with_turn t f st = st\<lparr>mx_turns := (mx_turns st)(t := map_option f (mx_turns st t))\<rparr>"

definition set_phase :: "nat \<Rightarrow> phase \<Rightarrow> mux \<Rightarrow> mux" where
  "set_phase t p = with_turn t (\<lambda>u. u\<lparr>t_phase := p\<rparr>)"

definition mux_emit :: "nat \<Rightarrow> string \<Rightarrow> string option \<Rightarrow> mux \<Rightarrow> mux" where
  "mux_emit i event request st =
     (case mx_slots st i of
        None \<Rightarrow> st
      | Some s \<Rightarrow>
          (with_slot i (\<lambda>s. s\<lparr>s_sequence := s_sequence s + 1\<rparr>) st)
            \<lparr>mx_events := mx_events st @ [(s_session s, s_sequence s + 1, event, request)]\<rparr>)"

section \<open>Guards\<close>

definition assert_admitting :: "mux \<Rightarrow> unit result" where
  "assert_admitting st =
     checks [(mx_ready st, mux_error ''host_not_ready'' True), (\<not> mx_draining st, mux_error ''host_draining'' True)]"

definition assert_generation :: "slot \<Rightarrow> int \<Rightarrow> unit result" where
  "assert_generation s generation = require (generation = s_generation s) (mux_error ''stale_generation'' False)"

definition require_session :: "mux \<Rightarrow> string \<Rightarrow> int \<Rightarrow> (nat \<times> slot) result" where
  "require_session st session generation =
     (case map_get (mx_sessions st) session of
        None \<Rightarrow> Inl (mux_error ''session_not_found'' False)
      | Some i \<Rightarrow>
          (case mx_slots st i of
             None \<Rightarrow> Inl (mux_error ''session_not_found'' False)
           | Some s \<Rightarrow> bind (assert_generation s generation) (\<lambda>_. Inr (i, s))))"

section \<open>The end of a turn\<close>

text \<open>\<open>#releaseReservation\<close>, with the handlers that remove the settled turn from the chain and from \<open>inFlight\<close>.\<close>

definition release_reservation :: "nat \<Rightarrow> turn \<Rightarrow> slot \<Rightarrow> slot" where
  "release_reservation t u s =
     s\<lparr>s_pending := s_pending s - 1,
       s_active := (if s_active s = Some t then None else s_active s),
       s_in_flight := (if map_get (s_in_flight s) (t_key u) = Some t then map_del (s_in_flight s) (t_key u) else s_in_flight s),
       s_chain := remove1 t (s_chain s)\<rparr>"

definition finish_turn :: "nat \<Rightarrow> js_error option \<Rightarrow> mux \<Rightarrow> mux" where
  "finish_turn t outcome st =
     (case mx_turns st t of
        None \<Rightarrow> st
      | Some u \<Rightarrow>
          (let st1 = (if t_direct u then st else with_slot (t_slot u) (release_reservation t u) st)
           in set_phase t (Finished outcome) st1))"

text \<open>The release of a permit; the waiter that gets it continues.\<close>

definition give_permit :: "nat \<Rightarrow> mux \<Rightarrow> mux" where
  "give_permit t st =
     (let (next, sem) = sem_release (mx_sem st);
          st1 = (with_turn t (\<lambda>u. u\<lparr>t_permit := False\<rparr>) st)\<lparr>mx_sem := sem\<rparr>
      in case next of
           None \<Rightarrow> st1
         | Some w \<Rightarrow> with_turn w (\<lambda>u. u\<lparr>t_permit := True, t_phase := Granted\<rparr>) st1)"

definition release_permit :: "nat \<Rightarrow> mux \<Rightarrow> mux" where
  "release_permit t st =
     (case mx_turns st t of Some u \<Rightarrow> if t_permit u then give_permit t st else st | None \<Rightarrow> st)"

text \<open>The \<open>finally\<close> block of \<open>#runWake\<close> and what follows it.\<close>

definition leave_run :: "nat \<Rightarrow> js_error option \<Rightarrow> mux \<Rightarrow> mux" where
  "leave_run t outcome st =
     (case mx_turns st t of
        None \<Rightarrow> st
      | Some u \<Rightarrow>
          finish_turn t outcome (release_permit t (with_slot (t_slot u) (\<lambda>s. s\<lparr>s_active := None\<rparr>) st)))"

text \<open>The \<open>catch\<close> block of \<open>#runWake\<close>, up to each of its awaits.\<close>

definition turn_durable :: "mux \<Rightarrow> turn \<Rightarrow> bool" where
  "turn_durable st u \<longleftrightarrow> mx_durability st \<and> (case mx_slots st (t_slot u) of Some s \<Rightarrow> s_durable s | None \<Rightarrow> False)"

definition fail_state :: "js_error \<Rightarrow> session_state" where
  "fail_state e = (if err_code e = ''aborted'' then SIdle else SFailed)"

definition mark_failed_state :: "int \<Rightarrow> nat \<Rightarrow> js_error \<Rightarrow> mux \<Rightarrow> mux" where
  "mark_failed_state now t e st =
     (case mx_turns st t of
        None \<Rightarrow> st
      | Some u \<Rightarrow>
          set_phase t (MarkingFailed e) (with_slot (t_slot u) (\<lambda>s. s\<lparr>s_state := fail_state e, s_used := now\<rparr>) st))"

definition fail_turn :: "int \<Rightarrow> nat \<Rightarrow> js_error \<Rightarrow> mux \<Rightarrow> mux" where
  "fail_turn now t err st =
     (let e = as_mux_error err ''turn_failed'' in
      case mx_turns st t of
        None \<Rightarrow> st
      | Some u \<Rightarrow>
          if turn_durable st u \<and> err_code e \<noteq> ''durability_completion_failed''
          then set_phase t (JournalFailing e) st
          else mark_failed_state now t e st)"

section \<open>Admission of a wake\<close>

record wake_request =
  w_session :: string
  w_generation :: int
  w_request :: string
  w_key :: string
  w_print :: string

definition new_turn :: "nat \<Rightarrow> wake_request \<Rightarrow> turn" where
  "new_turn i c =
     \<lparr>t_slot = i, t_direct = False, t_request = w_request c, t_key = w_key c, t_print = w_print c,
      t_aborted = False, t_permit = False, t_phase = Beginning\<rparr>"

definition admit_turn :: "nat \<Rightarrow> wake_request \<Rightarrow> mux \<Rightarrow> mux" where
  "admit_turn i c st =
     (let t = mx_next st in
      (with_slot i (\<lambda>s. s\<lparr>s_pending := s_pending s + 1,
          s_active := (if s_pending s = 0 then Some t else s_active s),
          s_in_flight := map_set (s_in_flight s) (w_key c) t\<rparr>) st)
        \<lparr>mx_turns := (mx_turns st)(t := Some (new_turn i c)), mx_next := t + 1\<rparr>)"

text \<open>\<open>wake\<close>: the turn whose promise the caller gets, an earlier one when the request is in flight.\<close>

definition mux_wake :: "wake_request \<Rightarrow> mux \<Rightarrow> nat result \<times> mux" where
  "mux_wake c st =
     (case bind (assert_admitting st) (\<lambda>_. require_session st (w_session c) (w_generation c)) of
        Inl e \<Rightarrow> (Inl e, st)
      | Inr (i, s) \<Rightarrow>
          (case map_get (s_in_flight s) (w_key c) of
             Some t \<Rightarrow>
               if map_option t_print (mx_turns st t) \<noteq> Some (w_print c)
               then (Inl (mux_error ''idempotency_conflict'' False), st)
               else (Inr t, st)
           | None \<Rightarrow>
               if s_pending s \<ge> int (max_queue_depth (mx_limits st)) + 1
               then (Inl (mux_error ''session_queue_full'' True), st)
               else (Inr (mx_next st), admit_turn i c st)))"

text \<open>
  What \<open>beginRequest\<close> returned to \<open>#prepareWake\<close>: a queued entry (or none, without a journal), an entry in
  another state, or an exception.
\<close>

datatype begin_outcome = BeganQueued | BeganCompleted | BeganFailed js_error | BeganUncertain | BeginThrew js_error

definition join_chain :: "nat \<Rightarrow> turn \<Rightarrow> mux \<Rightarrow> mux" where
  "join_chain t u st =
     set_phase t Chained
       (with_slot (t_slot u) (\<lambda>s. s\<lparr>s_chain := s_chain s @ [t]\<rparr>)
         (mux_emit (t_slot u) ''promptAccepted'' (Some (t_request u)) st))"

definition resume_begin :: "nat \<Rightarrow> begin_outcome \<Rightarrow> turn \<Rightarrow> mux \<Rightarrow> mux" where
  "resume_begin t outcome u st =
     (case outcome of
        BeginThrew e \<Rightarrow> finish_turn t (Some (as_mux_error e ''durability_failed'')) st
      | BeganCompleted \<Rightarrow> finish_turn t None st
      | BeganFailed e \<Rightarrow> finish_turn t (Some e) st
      | BeganUncertain \<Rightarrow> finish_turn t (Some (mux_error ''request_indeterminate'' False)) st
      | BeganQueued \<Rightarrow>
          (if map_option s_state (mx_slots st (t_slot u)) = Some SFailed then set_phase t RefusingFailed st
           else join_chain t u st))"

section \<open>Running a turn\<close>

definition take_permit :: "int \<Rightarrow> nat \<Rightarrow> turn \<Rightarrow> mux \<Rightarrow> mux" where
  "take_permit now t u st =
     (case sem_acquire t (t_aborted u) (mx_sem st) of
        (Refused, sem) \<Rightarrow> fail_turn now t aborted_error st
      | (Permitted, sem) \<Rightarrow> (with_turn t (\<lambda>u. u\<lparr>t_permit := True, t_phase := Granted\<rparr>) st)\<lparr>mx_sem := sem\<rparr>
      | (Enqueued, sem) \<Rightarrow> (set_phase t Waiting st)\<lparr>mx_sem := sem\<rparr>)"

text \<open>A turn starts when the one before it in the chain has settled.\<close>

definition start_turn :: "int \<Rightarrow> nat \<Rightarrow> turn \<Rightarrow> mux \<Rightarrow> mux" where
  "start_turn now t u st =
     (case mx_slots st (t_slot u) of
        None \<Rightarrow> st
      | Some s \<Rightarrow>
          if s_chain s = [] \<or> hd (s_chain s) \<noteq> t then st
          else if map_get (mx_sessions st) (s_session s) \<noteq> Some (t_slot u)
          then finish_turn t (Some (mux_error ''stale_generation'' False)) st
          else take_permit now t u (with_slot (t_slot u) (\<lambda>s. s\<lparr>s_active := Some t\<rparr>) st))"

definition start_running :: "int \<Rightarrow> nat \<Rightarrow> turn \<Rightarrow> mux \<Rightarrow> mux" where
  "start_running now t u st =
     set_phase t MarkingRunning (with_slot (t_slot u) (\<lambda>s. s\<lparr>s_state := SRunning, s_used := now\<rparr>) st)"

definition turn_succeeded :: "int \<Rightarrow> nat \<Rightarrow> turn \<Rightarrow> mux \<Rightarrow> mux" where
  "turn_succeeded now t u st =
     set_phase t MarkingIdle (with_slot (t_slot u) (\<lambda>s. s\<lparr>s_state := SIdle, s_used := now\<rparr>) st)"

definition after_idle :: "nat \<Rightarrow> turn \<Rightarrow> mux \<Rightarrow> mux" where
  "after_idle t u st =
     leave_run t None
       (mux_emit (t_slot u) ''sessionIdle'' (Some (t_request u))
         (mux_emit (t_slot u) ''agentEnd'' (Some (t_request u))
           (with_slot (t_slot u) (\<lambda>s. s\<lparr>s_error := None\<rparr>) st)))"

definition after_failed :: "nat \<Rightarrow> turn \<Rightarrow> js_error \<Rightarrow> mux \<Rightarrow> mux" where
  "after_failed t u e st =
     (let st1 = mux_emit (t_slot u) ''requestFailed'' (Some (t_request u))
                  (with_slot (t_slot u) (\<lambda>s. s\<lparr>s_error := Some (err_code e)\<rparr>) st);
          st2 = (if map_option s_state (mx_slots st1 (t_slot u)) = Some SIdle
                 then mux_emit (t_slot u) ''sessionIdle'' (Some (t_request u)) st1 else st1)
      in leave_run t (Some e) st2)"

text \<open>
  One continuation of a turn: the await it is at has settled, with an exception in \<open>failure\<close>.  The
  catalog's state is written best-effort, so that await never throws.
\<close>

definition resume_turn :: "int \<Rightarrow> nat \<Rightarrow> js_error option \<Rightarrow> turn \<Rightarrow> mux \<Rightarrow> mux" where
  "resume_turn now t failure u st =
     (case t_phase u of
        RefusingFailed \<Rightarrow> finish_turn t (Some (mux_error ''session_failed'' False)) st
      | Chained \<Rightarrow> start_turn now t u st
      | Granted \<Rightarrow>
          if t_direct u then set_phase t Prompting st
          else if turn_durable st u then set_phase t Accepting st
          else start_running now t u st
      | Accepting \<Rightarrow> (case failure of None \<Rightarrow> start_running now t u st | Some e \<Rightarrow> fail_turn now t e st)
      | MarkingRunning \<Rightarrow> set_phase t Prompting (mux_emit (t_slot u) ''agentStart'' (Some (t_request u)) st)
      | Prompting \<Rightarrow>
          if t_direct u then finish_turn t failure (release_permit t st)
          else (case failure of
              Some e \<Rightarrow> fail_turn now t e st
            | None \<Rightarrow> if turn_durable st u then set_phase t Completing st else turn_succeeded now t u st)
      | Completing \<Rightarrow>
          (case failure of
             None \<Rightarrow> turn_succeeded now t u st
           | Some _ \<Rightarrow> fail_turn now t (mux_error ''durability_completion_failed'' False) st)
      | MarkingIdle \<Rightarrow> after_idle t u st
      | JournalFailing e \<Rightarrow> mark_failed_state now t e st
      | MarkingFailed e \<Rightarrow> after_failed t u e st
      | _ \<Rightarrow> st)"

end
