(* ===== verification/Interrupts.thy ===== *)
theory Interrupts
  imports Turns
begin

text \<open>
  The other calls of the scheduler of \<open>src/multiplexer.ts\<close>: opening a slot, aborts, controls of a running
  turn, prompts of an attached controller, residency leases, closing, idle eviction and drain; and the
  events of the whole machine.
\<close>

section \<open>Opening\<close>

definition new_slot :: "string \<Rightarrow> int \<Rightarrow> bool \<Rightarrow> int \<Rightarrow> slot" where
  "new_slot session generation durable now =
     \<lparr>s_session = session, s_generation = generation, s_durable = durable, s_state = SIdle, s_sequence = 0,
      s_pending = 0, s_active = None, s_error = None, s_used = now, s_in_flight = [], s_controls = [], s_chain = []\<rparr>"

definition put_lifecycle :: "string \<Rightarrow> lifecycle \<Rightarrow> mux \<Rightarrow> mux" where
  "put_lifecycle session l st = st\<lparr>mx_lifecycles := map_set (mx_lifecycles st) session l\<rparr>"

definition busy :: "slot \<Rightarrow> bool" where
  "busy s \<longleftrightarrow> s_pending s > 0 \<or> s_state s = SRunning"

definition begin_lifecycle :: "string \<Rightarrow> nat \<Rightarrow> close_kind \<Rightarrow> mux \<Rightarrow> mux" where
  "begin_lifecycle session i kind st =
     put_lifecycle session \<lparr>lc_slot = i, lc_kind = kind, lc_stage = Disposing\<rparr> (with_slot i (\<lambda>s. s\<lparr>s_state := SClosing\<rparr>) st)"

definition end_lifecycle :: "string \<Rightarrow> mux \<Rightarrow> mux" where
  "end_lifecycle session st = st\<lparr>mx_lifecycles := map_del (mx_lifecycles st) session\<rparr>"

definition drop_resident :: "string \<Rightarrow> mux \<Rightarrow> mux" where
  "drop_resident session st =
     st\<lparr>mx_sessions := map_del (mx_sessions st) session, mx_leases := map_del (mx_leases st) session\<rparr>"

definition remove_resident :: "string \<Rightarrow> mux \<Rightarrow> mux" where
  "remove_resident session st = end_lifecycle session (drop_resident session st)"

definition set_stage :: "string \<Rightarrow> lifecycle \<Rightarrow> close_stage \<Rightarrow> mux \<Rightarrow> mux" where
  "set_stage session l stage = put_lifecycle session (l\<lparr>lc_stage := stage\<rparr>)"

text \<open>
  \<open>open\<close> in its session's lifecycle: the checks against a resident session and the capacity check, up to
  the disposal of the adapter it replaces, or to the creation of the new one.  \<open>same_policy\<close> tells whether
  the policy is that of the resident session.
\<close>

definition open_session :: "string \<Rightarrow> int \<Rightarrow> bool \<Rightarrow> int \<Rightarrow> mux \<Rightarrow> unit result \<times> mux" where
  "open_session session generation same_policy now st =
     (case assert_admitting st of
        Inl e \<Rightarrow> (Inl e, st)
      | Inr _ \<Rightarrow>
          if map_get (mx_lifecycles st) session \<noteq> None then (Inr (), st)
          else
            case map_get (mx_sessions st) session of
              None \<Rightarrow>
                if length (mx_sessions st) \<ge> max_sessions (mx_limits st)
                then (Inl (mux_error ''session_capacity'' True), st)
                else (Inr (), put_lifecycle session \<lparr>lc_slot = 0, lc_kind = Opening generation, lc_stage = Creating\<rparr> st)
            | Some i \<Rightarrow>
                (case mx_slots st i of
                   None \<Rightarrow> (Inr (), st)
                 | Some s \<Rightarrow>
                     if generation < s_generation s then (Inl (mux_error ''stale_generation'' False), st)
                     else if generation = s_generation s then
                       (if same_policy then (Inr (), with_slot i (\<lambda>s. s\<lparr>s_used := now\<rparr>) st)
                        else (Inl (mux_error ''session_policy_conflict'' False), st))
                     else if busy s then (Inl (mux_error ''session_busy'' True), st)
                     else (Inr (), begin_lifecycle session i (Opening generation) st)))"

text \<open>The adapter was created: the session is resident.\<close>

definition finish_open :: "string \<Rightarrow> bool \<Rightarrow> int \<Rightarrow> mux \<Rightarrow> mux" where
  "finish_open session durable now st =
     (case map_option (\<lambda>l. (lc_kind l, lc_stage l)) (map_get (mx_lifecycles st) session) of
        Some (Opening generation, Creating) \<Rightarrow>
          (let i = mx_next st in
           end_lifecycle session (mux_emit i ''opened'' None
             (st\<lparr>mx_sessions := map_set (mx_sessions st) session i, mx_next := i + 1,
                 mx_slots := (mx_slots st)(i := Some (new_slot session generation durable now))\<rparr>)))
      | _ \<Rightarrow> st)"

section \<open>Aborts\<close>

text \<open>
  \<open>AbortController.abort\<close>: a turn that waits for the semaphore leaves the queue and throws; elsewhere the
  signal is only noted, for the adapter and for a later \<open>acquire\<close>.
\<close>

definition abort_turn :: "int \<Rightarrow> nat \<Rightarrow> mux \<Rightarrow> mux" where
  "abort_turn now t st =
     (case mx_turns st t of
        None \<Rightarrow> st
      | Some u \<Rightarrow>
          if t_aborted u then st
          else
            (let st1 = with_turn t (\<lambda>u. u\<lparr>t_aborted := True\<rparr>) st in
             if t_phase u \<noteq> Waiting then st1
             else
               (let st2 = st1\<lparr>mx_sem := sem_cancel t (mx_sem st1)\<rparr> in
                if t_direct u then finish_turn t (Some aborted_error) st2 else fail_turn now t aborted_error st2)))"

definition mux_abort :: "int \<Rightarrow> string \<Rightarrow> int \<Rightarrow> mux \<Rightarrow> bool result \<times> mux" where
  "mux_abort now session generation st =
     (case require_session st session generation of
        Inl e \<Rightarrow> (Inl e, st)
      | Inr (i, s) \<Rightarrow>
          (case s_active s of
             None \<Rightarrow> (Inr False, st)
           | Some t \<Rightarrow> (Inr True, abort_turn now t st)))"

section \<open>Controls\<close>

record control_request =
  c_session :: string
  c_generation :: int
  c_key :: string
  c_print :: string

text \<open>The oldest of more than 256 controls are forgotten.\<close>

definition remember_control :: "control_request \<Rightarrow> slot \<Rightarrow> slot" where
  "remember_control c s =
     (let m = map_set (s_controls s) (c_key c) (c_print c) in s\<lparr>s_controls := drop (length m - 256) m\<rparr>)"

definition mux_control :: "control_request \<Rightarrow> mux \<Rightarrow> unit result \<times> mux" where
  "mux_control c st =
     (case require_session st (c_session c) (c_generation c) of
        Inl e \<Rightarrow> (Inl e, st)
      | Inr (i, s) \<Rightarrow>
          (case map_get (s_controls s) (c_key c) of
             Some p \<Rightarrow> (if p \<noteq> c_print c then Inl (mux_error ''idempotency_conflict'' False) else Inr (), st)
           | None \<Rightarrow>
               if s_state s \<noteq> SRunning then (Inl (mux_error ''session_not_running'' True), st)
               else (Inr (), with_slot i (remember_control c) st)))"

section \<open>Prompts of an attached controller\<close>

definition direct_turn :: "bool \<Rightarrow> turn" where
  "direct_turn aborted =
     \<lparr>t_slot = 0, t_direct = True, t_request = [], t_key = [], t_print = [], t_aborted = aborted, t_permit = False,
      t_phase = Beginning\<rparr>"

definition direct_prompt :: "bool \<Rightarrow> mux \<Rightarrow> mux" where
  "direct_prompt aborted st =
     (let t = mx_next st;
          st1 = st\<lparr>mx_turns := (mx_turns st)(t := Some (direct_turn aborted)), mx_next := t + 1\<rparr>
      in case sem_acquire t aborted (mx_sem st) of
           (Refused, _) \<Rightarrow> set_phase t (Finished (Some aborted_error)) st1
         | (Permitted, sem) \<Rightarrow> (with_turn t (\<lambda>u. u\<lparr>t_permit := True, t_phase := Granted\<rparr>) st1)\<lparr>mx_sem := sem\<rparr>
         | (Enqueued, sem) \<Rightarrow> (set_phase t Waiting st1)\<lparr>mx_sem := sem\<rparr>)"

section \<open>Residency leases\<close>

definition max_residency_leases :: nat where
  "max_residency_leases = 256"

definition leases_of :: "mux \<Rightarrow> string \<Rightarrow> (string, int \<times> int) jsmap" where
  "leases_of st session = (case map_get (mx_leases st) session of Some m \<Rightarrow> m | None \<Rightarrow> [])"

definition put_leases :: "string \<Rightarrow> (string, int \<times> int) jsmap \<Rightarrow> mux \<Rightarrow> mux" where
  "put_leases session m st =
     st\<lparr>mx_leases := (if m = [] then map_del (mx_leases st) session else map_set (mx_leases st) session m)\<rparr>"

definition acquire_lease :: "int \<Rightarrow> string \<Rightarrow> int \<Rightarrow> int \<Rightarrow> string \<Rightarrow> mux \<Rightarrow> unit result \<times> mux" where
  "acquire_lease now session generation ttl token st =
     (if ttl < 1 \<or> \<not> safe_int ttl then (Inl (JsError PlainError ''Error'' False), st)
      else
        case map_option (mx_slots st) (map_get (mx_sessions st) session) of
          Some (Some s) \<Rightarrow>
            (case assert_generation s generation of
               Inl e \<Rightarrow> (Inl e, st)
             | Inr _ \<Rightarrow>
                 if sum_list (List.map (\<lambda>(_, m). length m) (mx_leases st)) \<ge> max_residency_leases
                 then (Inl (mux_error ''residency_lease_capacity'' True), st)
                 else (Inr (), put_leases session (map_set (leases_of st session) token (generation, now + ttl)) st))
        | _ \<Rightarrow> (Inl (mux_error ''session_not_resident'' True), st))"

definition renew_lease :: "int \<Rightarrow> string \<Rightarrow> int \<Rightarrow> int \<Rightarrow> string \<Rightarrow> mux \<Rightarrow> mux" where
  "renew_lease now session generation ttl token st =
     (case map_get (leases_of st session) token of
        Some (g, _) \<Rightarrow>
          if g = generation then put_leases session (map_set (leases_of st session) token (generation, now + ttl)) st else st
      | None \<Rightarrow> st)"

definition release_lease :: "string \<Rightarrow> string \<Rightarrow> mux \<Rightarrow> mux" where
  "release_lease session token st = put_leases session (map_del (leases_of st session) token) st"

text \<open>\<open>residencyLeaseCount\<close> drops the expired leases of the session while it counts.\<close>

definition live_leases :: "int \<Rightarrow> (string, int \<times> int) jsmap \<Rightarrow> (string, int \<times> int) jsmap" where
  "live_leases now m = List.filter (\<lambda>(_, (_, expires)). now < expires) m"

definition lease_count :: "int \<Rightarrow> string \<Rightarrow> int option \<Rightarrow> mux \<Rightarrow> nat \<times> mux" where
  "lease_count now session generation st =
     (let live = live_leases now (leases_of st session) in
      (length (List.filter (\<lambda>(_, (g, _)). generation = None \<or> generation = Some g) live), put_leases session live st))"

section \<open>Closing and idle eviction\<close>

text \<open>\<open>close\<close> of a resident session, up to the disposal of its adapter.\<close>

definition mux_close :: "string \<Rightarrow> int \<Rightarrow> bool option \<Rightarrow> mux \<Rightarrow> unit result \<times> mux" where
  "mux_close session generation retain st =
     (case (map_get (mx_lifecycles st) session, map_get (mx_sessions st) session) of
        (None, Some i) \<Rightarrow>
          (case mx_slots st i of
             None \<Rightarrow> (Inr (), st)
           | Some s \<Rightarrow>
               (case assert_generation s generation of
                  Inl e \<Rightarrow> (Inl e, st)
                | Inr _ \<Rightarrow>
                    if busy s then (Inl (mux_error ''session_busy'' True), st)
                    else (Inr (), begin_lifecycle session i (Closing (case retain of Some b \<Rightarrow> b | None \<Rightarrow> True)) st)))
      | _ \<Rightarrow> (Inr (), st))"

text \<open>What follows the catalog's update.\<close>

definition after_retired :: "string \<Rightarrow> lifecycle \<Rightarrow> mux \<Rightarrow> mux" where
  "after_retired session l st =
     (case lc_kind l of
        Evicting _ \<Rightarrow> remove_resident session (mux_emit (lc_slot l) ''sessionEvicted'' None st)
      | _ \<Rightarrow> set_stage session l Unjournaling st)"

text \<open>What follows the disposal; an adapter that is replaced is not recorded in the catalog.\<close>

definition after_disposed :: "string \<Rightarrow> lifecycle \<Rightarrow> mux \<Rightarrow> mux" where
  "after_disposed session l st =
     (case lc_kind l of
        Opening _ \<Rightarrow> set_stage session l Creating (drop_resident session st)
      | _ \<Rightarrow> if mx_catalog st then set_stage session l Retiring st else after_retired session l st)"

definition lifecycle_failed :: "string \<Rightarrow> lifecycle \<Rightarrow> js_error \<Rightarrow> mux \<Rightarrow> mux" where
  "lifecycle_failed session l e st =
     (case lc_kind l of
        Evicting _ \<Rightarrow>
          end_lifecycle session
            (if map_get (mx_sessions st) session = Some (lc_slot l)
             then with_slot (lc_slot l) (\<lambda>s. s\<lparr>s_state := SFailed, s_error := Some (err_code e)\<rparr>) st else st)
      | _ \<Rightarrow> end_lifecycle session st)"

definition retired_event :: "close_kind \<Rightarrow> string" where
  "retired_event kind = (if kind = Closing False then ''sessionDeleted'' else ''sessionDormant'')"

definition resume_lifecycle :: "string \<Rightarrow> js_error option \<Rightarrow> mux \<Rightarrow> mux" where
  "resume_lifecycle session failure st =
     (case map_get (mx_lifecycles st) session of
        None \<Rightarrow> st
      | Some l \<Rightarrow>
          (case failure of
             Some e \<Rightarrow> lifecycle_failed session l e st
           | None \<Rightarrow>
               (case lc_stage l of
                  Disposing \<Rightarrow> after_disposed session l st
                | Creating \<Rightarrow> st
                | Retiring \<Rightarrow> after_retired session l (mux_emit (lc_slot l) (retired_event (lc_kind l)) None st)
                | Unjournaling \<Rightarrow> remove_resident session (mux_emit (lc_slot l) ''sessionClosed'' None st))))"

text \<open>\<open>sweepIdleSessions\<close> at one session, when its lifecycle operation runs.\<close>

definition sweep_session :: "int \<Rightarrow> string \<Rightarrow> mux \<Rightarrow> mux" where
  "sweep_session now session st =
     (case (map_get (mx_lifecycles st) session, map_get (mx_sessions st) session) of
        (None, Some i) \<Rightarrow>
          (case mx_slots st i of
             None \<Rightarrow> st
           | Some s \<Rightarrow>
               if mx_idle_ttl st = 0 \<or> s_state s \<noteq> SIdle \<or> s_pending s > 0 then st
               else
                 (let (n, st1) = lease_count now session (Some (s_generation s)) st in
                  if n > 0 \<or> now - s_used s < mx_idle_ttl st then st1
                  else begin_lifecycle session i (Evicting now) st1))
      | _ \<Rightarrow> st)"

section \<open>Drain\<close>

definition mux_begin_drain :: "mux \<Rightarrow> mux" where
  "mux_begin_drain st =
     (if mx_draining st then st
      else fold (\<lambda>i. mux_emit i ''hostDraining'' None) (map_vals (mx_sessions st)) (st\<lparr>mx_draining := True\<rparr>))"

text \<open>The drain's deadline has passed: every turn in flight is aborted.\<close>

definition in_flight_turns :: "mux \<Rightarrow> nat list" where
  "in_flight_turns st =
     List.concat (List.map (\<lambda>i. case mx_slots st i of Some s \<Rightarrow> map_vals (s_in_flight s) | None \<Rightarrow> []) (map_vals (mx_sessions st)))"

definition drain_timeout :: "int \<Rightarrow> mux \<Rightarrow> mux" where
  "drain_timeout now st = fold (abort_turn now) (in_flight_turns st) st"

section \<open>The machine\<close>

datatype mux_event =
    EvReady
  | EvOpen string int bool int
  | EvOpened string bool int
  | EvWake wake_request
  | EvBegun nat begin_outcome
  | EvResume int nat "js_error option"
  | EvAbort int string int
  | EvControl control_request
  | EvControlDone nat int
  | EvDirect bool
  | EvAbortDirect int nat
  | EvLease int string int int string
  | EvRenew int string int int string
  | EvRelease string string
  | EvClose string int "bool option"
  | EvSweep int string
  | EvLifecycle string "js_error option"
  | EvBeginDrain
  | EvDrainTimeout int

fun mux_step :: "mux_event \<Rightarrow> mux \<Rightarrow> mux" where
  "mux_step EvReady st = st\<lparr>mx_ready := True\<rparr>"
| "mux_step (EvOpen session generation same_policy now) st = snd (open_session session generation same_policy now st)"
| "mux_step (EvOpened session durable now) st = finish_open session durable now st"
| "mux_step (EvWake c) st = snd (mux_wake c st)"
| "mux_step (EvBegun t outcome) st =
     (case mx_turns st t of
        Some u \<Rightarrow> if t_phase u = Beginning then resume_begin t outcome u st else st
      | None \<Rightarrow> st)"
| "mux_step (EvResume now t failure) st =
     (case mx_turns st t of Some u \<Rightarrow> resume_turn now t failure u st | None \<Rightarrow> st)"
| "mux_step (EvAbort now session generation) st = snd (mux_abort now session generation st)"
| "mux_step (EvControl c) st = snd (mux_control c st)"
| "mux_step (EvControlDone i now) st = with_slot i (\<lambda>s. s\<lparr>s_used := now\<rparr>) st"
| "mux_step (EvDirect aborted) st = direct_prompt aborted st"
| "mux_step (EvAbortDirect now t) st =
     (case mx_turns st t of Some u \<Rightarrow> if t_direct u then abort_turn now t st else st | None \<Rightarrow> st)"
| "mux_step (EvLease now session generation ttl token) st = snd (acquire_lease now session generation ttl token st)"
| "mux_step (EvRenew now session generation ttl token) st = renew_lease now session generation ttl token st"
| "mux_step (EvRelease session token) st = release_lease session token st"
| "mux_step (EvClose session generation retain) st = snd (mux_close session generation retain st)"
| "mux_step (EvSweep now session) st = sweep_session now session st"
| "mux_step (EvLifecycle session failure) st = resume_lifecycle session failure st"
| "mux_step EvBeginDrain st = mux_begin_drain st"
| "mux_step (EvDrainTimeout now) st = drain_timeout now st"

definition mux_run :: "mux_event list \<Rightarrow> mux \<Rightarrow> mux" where
  "mux_run evs st = fold mux_step evs st"

end
