(* ===== verification/TurnLaws.thy ===== *)
theory TurnLaws
  imports Interrupts
begin

text \<open>
  The invariant of the scheduler, in parts that frame separately: identifiers are fresh, the phase of a
  turn agrees with its permit, the semaphore counts the permits and queues the waiting turns, and a
  slot's chain and counter are those of its turns.  A set \<open>X\<close> of turns that are between two updates of one
  step is exempt from the parts that mention phases.
\<close>

section \<open>Turns by what they are at\<close>

definition turns_where :: "(nat \<Rightarrow> turn option) \<Rightarrow> (turn \<Rightarrow> bool) \<Rightarrow> nat set" where
  "turns_where T P = {t. \<exists>u. T t = Some u \<and> P u}"

definition of_slot :: "nat \<Rightarrow> turn \<Rightarrow> bool" where
  "of_slot i u \<longleftrightarrow> \<not> t_direct u \<and> t_slot u = i"

definition finished :: "phase \<Rightarrow> bool" where
  "finished p \<longleftrightarrow> (case p of Finished _ \<Rightarrow> True | _ \<Rightarrow> False)"

definition in_chain :: "phase \<Rightarrow> bool" where
  "in_chain p \<longleftrightarrow> \<not> finished p \<and> p \<noteq> Beginning \<and> p \<noteq> RefusingFailed"

definition holding :: "phase \<Rightarrow> bool" where
  "holding p \<longleftrightarrow> p \<in> {Granted, Accepting, MarkingRunning, Prompting, Completing, MarkingIdle}"

definition failing :: "phase \<Rightarrow> bool" where
  "failing p \<longleftrightarrow> (case p of JournalFailing _ \<Rightarrow> True | MarkingFailed _ \<Rightarrow> True | _ \<Rightarrow> False)"

lemmas phase_classes = finished_def in_chain_def holding_def failing_def

lemma turns_whereI [intro]: "T t = Some u \<Longrightarrow> P u \<Longrightarrow> t \<in> turns_where T P"
  by (auto simp: turns_where_def)

lemma in_turns_where [simp]: "T t = Some u \<Longrightarrow> t \<in> turns_where T P \<longleftrightarrow> P u"
  by (simp add: turns_where_def)

lemma turns_where_upd:
  "turns_where (T(t \<mapsto> u)) P = (if P u then insert t (turns_where T P) else turns_where T P - {t})"
  by (auto simp: turns_where_def)

lemma turns_where_same:
  "T t = Some u \<Longrightarrow> P u' = P u \<Longrightarrow> turns_where (T(t \<mapsto> u')) P = turns_where T P"
  by (auto simp: turns_where_upd)

lemma turns_where_mono: "(\<And>u. P u \<Longrightarrow> Q u) \<Longrightarrow> turns_where T P \<subseteq> turns_where T Q"
  by (auto simp: turns_where_def)

section \<open>The parts\<close>

definition phase_ok :: "turn \<Rightarrow> bool" where
  "phase_ok u \<longleftrightarrow>
     (holding (t_phase u) \<longrightarrow> t_permit u) \<and> (t_permit u \<longrightarrow> holding (t_phase u) \<or> failing (t_phase u)) \<and>
     (t_direct u \<longrightarrow> t_phase u \<in> {Waiting, Granted, Prompting} \<or> finished (t_phase u))"

definition fresh_ids :: "mux \<Rightarrow> bool" where
  "fresh_ids st \<longleftrightarrow> (\<forall>t \<ge> mx_next st. mx_turns st t = None \<and> mx_slots st t = None)"

definition phases_ok :: "nat set \<Rightarrow> (nat \<Rightarrow> turn option) \<Rightarrow> bool" where
  "phases_ok X T \<longleftrightarrow> (\<forall>t u. T t = Some u \<longrightarrow> t \<notin> X \<longrightarrow> phase_ok u)"

definition slots_known :: "mux \<Rightarrow> bool" where
  "slots_known st \<longleftrightarrow> (\<forall>t u. mx_turns st t = Some u \<longrightarrow> \<not> t_direct u \<longrightarrow> mx_slots st (t_slot u) \<noteq> None)"

definition sem_ok :: "nat set \<Rightarrow> (nat \<Rightarrow> turn option) \<Rightarrow> semaphore \<Rightarrow> bool" where
  "sem_ok X T sem \<longleftrightarrow>
     sem_active sem = card (turns_where T t_permit) \<and> sem_active sem \<le> sem_limit sem \<and> distinct (sem_waiters sem) \<and>
     set (sem_waiters sem) = turns_where T (\<lambda>u. t_phase u = Waiting) - X \<and>
     (sem_waiters sem \<noteq> [] \<longrightarrow> sem_active sem = sem_limit sem)"

definition open_turns :: "(nat \<Rightarrow> turn option) \<Rightarrow> nat \<Rightarrow> nat set" where
  "open_turns T i = turns_where T (\<lambda>u. of_slot i u \<and> \<not> finished (t_phase u))"

definition chained_turns :: "(nat \<Rightarrow> turn option) \<Rightarrow> nat \<Rightarrow> nat set" where
  "chained_turns T i = turns_where T (\<lambda>u. of_slot i u \<and> in_chain (t_phase u))"

definition slot_ok :: "nat \<Rightarrow> (nat \<Rightarrow> turn option) \<Rightarrow> nat \<Rightarrow> slot \<Rightarrow> bool" where
  "slot_ok depth T i s \<longleftrightarrow>
     s_pending s = int (card (open_turns T i)) \<and> card (open_turns T i) \<le> depth + 1 \<and>
     distinct (s_chain s) \<and> set (s_chain s) = chained_turns T i \<and>
     (\<forall>t u. T t = Some u \<longrightarrow> of_slot i u \<longrightarrow> in_chain (t_phase u) \<longrightarrow> t_phase u \<noteq> Chained \<longrightarrow> hd (s_chain s) = t)"

definition sched_inv :: "mux_limits \<Rightarrow> nat set \<Rightarrow> mux \<Rightarrow> bool" where
  "sched_inv limits X st \<longleftrightarrow>
     mx_limits st = limits \<and> sem_limit (mx_sem st) = max_concurrent_turns limits \<and>
     fresh_ids st \<and> slots_known st \<and> phases_ok X (mx_turns st) \<and> sem_ok X (mx_turns st) (mx_sem st) \<and>
     (\<forall>i s. mx_slots st i = Some s \<longrightarrow> slot_ok (max_queue_depth limits) (mx_turns st) i s)"

lemma finite_turns: "fresh_ids st \<Longrightarrow> finite (turns_where (mx_turns st) P)"
  by (rule finite_subset [where B = "{..< mx_next st}"])
    (auto simp: turns_where_def fresh_ids_def not_less [symmetric])

section \<open>Updates that frame the invariant\<close>

lemma with_turn_simps [simp]:
  "mx_limits (with_turn t f st) = mx_limits st" "mx_sem (with_turn t f st) = mx_sem st"
  "mx_slots (with_turn t f st) = mx_slots st" "mx_next (with_turn t f st) = mx_next st"
  "mx_sessions (with_turn t f st) = mx_sessions st" "mx_lifecycles (with_turn t f st) = mx_lifecycles st"
  by (simp_all add: with_turn_def)

lemma with_slot_simps [simp]:
  "mx_limits (with_slot i g st) = mx_limits st" "mx_sem (with_slot i g st) = mx_sem st"
  "mx_turns (with_slot i g st) = mx_turns st" "mx_next (with_slot i g st) = mx_next st"
  "mx_sessions (with_slot i g st) = mx_sessions st" "mx_lifecycles (with_slot i g st) = mx_lifecycles st"
  by (simp_all add: with_slot_def)

lemma with_turn_turns: "mx_turns st t = Some u \<Longrightarrow> mx_turns (with_turn t f st) = (mx_turns st)(t \<mapsto> f u)"
  by (simp add: with_turn_def)

lemma with_slot_slots: "mx_slots (with_slot i g st) = (mx_slots st)(i := map_option g (mx_slots st i))"
  by (simp add: with_slot_def)

text \<open>The parts of the state the invariant reads.\<close>

definition same_sched :: "mux \<Rightarrow> mux \<Rightarrow> bool" where
  "same_sched st st' \<longleftrightarrow>
     mx_limits st' = mx_limits st \<and> mx_sem st' = mx_sem st \<and> mx_turns st' = mx_turns st \<and> mx_next st' = mx_next st \<and>
     (\<forall>i. map_option (\<lambda>s. (s_pending s, s_chain s)) (mx_slots st' i) = map_option (\<lambda>s. (s_pending s, s_chain s)) (mx_slots st i))"

lemma same_sched_refl [simp]: "same_sched st st"
  by (simp add: same_sched_def)

lemma same_sched_trans: "same_sched a b \<Longrightarrow> same_sched b c \<Longrightarrow> same_sched a c"
  by (simp add: same_sched_def)

lemma same_sched_turns: "same_sched a b \<Longrightarrow> mx_turns b = mx_turns a"
  by (simp add: same_sched_def)

lemma same_sched_view:
  "same_sched a b \<Longrightarrow>
     map_option (\<lambda>s. (s_pending s, s_chain s)) (mx_slots b i) = map_option (\<lambda>s. (s_pending s, s_chain s)) (mx_slots a i)"
  by (simp add: same_sched_def)

lemma same_sched_slots: "same_sched a b \<Longrightarrow> mx_slots b i = None \<longleftrightarrow> mx_slots a i = None"
  using same_sched_view [of a b i] by (cases "mx_slots a i"; cases "mx_slots b i") simp_all

lemma same_sched_slot:
  "same_sched a b \<Longrightarrow> mx_slots b i = Some s' \<Longrightarrow>
     \<exists>s. mx_slots a i = Some s \<and> s_pending s' = s_pending s \<and> s_chain s' = s_chain s"
  using same_sched_view [of a b i] by (cases "mx_slots a i") simp_all

lemma slot_ok_same:
  "s_pending s' = s_pending s \<Longrightarrow> s_chain s' = s_chain s \<Longrightarrow> slot_ok d T i s \<Longrightarrow> slot_ok d T i s'"
  by (simp add: slot_ok_def)

lemma sched_inv_same:
  assumes "same_sched st st'" and "sched_inv limits X st"
  shows "sched_inv limits X st'"
proof -
  have known: "mx_slots st' i = None \<longleftrightarrow> mx_slots st i = None" for i
    by (rule same_sched_slots [OF assms(1)])
  show ?thesis
    unfolding sched_inv_def
  proof (intro conjI allI impI)
    show "slot_ok (max_queue_depth limits) (mx_turns st') i s'" if "mx_slots st' i = Some s'" for i s'
      using same_sched_slot [OF assms(1) that] assms by (auto simp: sched_inv_def same_sched_def intro: slot_ok_same)
  qed (use assms known in \<open>simp_all add: sched_inv_def same_sched_def fresh_ids_def slots_known_def\<close>)
qed

lemma same_sched_with_slot:
  "(\<And>s. s_pending (g s) = s_pending s \<and> s_chain (g s) = s_chain s) \<Longrightarrow> same_sched st (with_slot i g st)"
  by (auto simp: same_sched_def with_slot_slots option.map_comp o_def)

lemma same_sched_emit: "same_sched st (mux_emit i e r st)"
  by (auto simp: mux_emit_def same_sched_def with_slot_slots split: option.splits)

lemma inv_with_slot:
  "(\<And>s. s_pending (g s) = s_pending s \<and> s_chain (g s) = s_chain s) \<Longrightarrow> sched_inv limits X st \<Longrightarrow> sched_inv limits X (with_slot i g st)"
  by (rule sched_inv_same [OF same_sched_with_slot])

lemma inv_emit: "sched_inv limits X st \<Longrightarrow> sched_inv limits X (mux_emit i e r st)"
  by (rule sched_inv_same [OF same_sched_emit])

lemma emit_turns [simp]: "mx_turns (mux_emit i e r st) = mx_turns st"
  by (rule same_sched_turns [OF same_sched_emit])

section \<open>A turn moves on\<close>

lemma sched_inv_known: "sched_inv limits X st \<Longrightarrow> mx_turns st t = Some u \<Longrightarrow> \<not> t_direct u \<Longrightarrow> \<exists>s. mx_slots st (t_slot u) = Some s"
  by (auto simp: sched_inv_def slots_known_def)

definition first_in_chain :: "mux \<Rightarrow> nat \<Rightarrow> turn \<Rightarrow> bool" where
  "first_in_chain st t u \<longleftrightarrow> (\<exists>s. mx_slots st (t_slot u) = Some s \<and> hd (s_chain s) = t)"

lemma chain_first:
  assumes "sched_inv limits X st" and "mx_turns st t = Some u" and "\<not> t_direct u" and "in_chain (t_phase u)" and "t_phase u \<noteq> Chained"
  shows "first_in_chain st t u"
proof -
  obtain s where "mx_slots st (t_slot u) = Some s"
    using sched_inv_known [OF assms(1-3)] ..
  then show ?thesis
    using assms unfolding first_in_chain_def sched_inv_def slot_ok_def of_slot_def by blast
qed

lemma slot_ok_turns:
  assumes "T t = Some u" and "t_slot u' = t_slot u" and "t_direct u' = t_direct u"
    and "t_direct u \<or> in_chain (t_phase u') = in_chain (t_phase u) \<and> finished (t_phase u') = finished (t_phase u)"
    and "t_direct u \<or> t_phase u' = Chained \<or> t_phase u \<noteq> Chained \<or> t_slot u \<noteq> i \<or> hd (s_chain s) = t"
    and "slot_ok d T i s"
  shows "slot_ok d (T(t \<mapsto> u')) i s"
proof -
  have "open_turns (T(t \<mapsto> u')) i = open_turns T i" "chained_turns (T(t \<mapsto> u')) i = chained_turns T i"
    using assms(2-4) by (auto simp: open_turns_def chained_turns_def turns_where_same [of T t u, OF assms(1)] of_slot_def)
  then show ?thesis
    using assms unfolding slot_ok_def by (auto simp: of_slot_def)
qed

lemma inv_turn:
  assumes inv: "sched_inv limits X st" and t: "mx_turns st t = Some u"
    and same: "t_slot (f u) = t_slot u" "t_direct (f u) = t_direct u" "t_permit (f u) = t_permit u"
    and cls: "t_direct u \<or> in_chain (t_phase (f u)) = in_chain (t_phase u) \<and> finished (t_phase (f u)) = finished (t_phase u)"
    and hd: "t_direct u \<or> t_phase (f u) = Chained \<or> t_phase u \<noteq> Chained \<or> first_in_chain st t u"
    and ok: "t \<in> Y \<or> phase_ok (f u)" and XY: "X \<subseteq> insert t Y"
    and wait: "turns_where ((mx_turns st)(t \<mapsto> f u)) (\<lambda>u. t_phase u = Waiting) - Y = turns_where (mx_turns st) (\<lambda>u. t_phase u = Waiting) - X"
  shows "sched_inv limits Y (with_turn t f st)"
proof -
  have T: "mx_turns (with_turn t f st) = (mx_turns st)(t \<mapsto> f u)"
    by (rule with_turn_turns [OF t])
  have permits: "turns_where ((mx_turns st)(t \<mapsto> f u)) t_permit = turns_where (mx_turns st) t_permit"
    by (simp add: turns_where_same [of "mx_turns st" t u, OF t] same)
  have slots: "slot_ok d ((mx_turns st)(t \<mapsto> f u)) i s" if "slot_ok d (mx_turns st) i s" "mx_slots st i = Some s" for d i s
    by (rule slot_ok_turns [OF t same(1,2) cls _ that(1)]) (use hd that(2) in \<open>auto simp: first_in_chain_def\<close>)
  have phases: "phases_ok Y ((mx_turns st)(t \<mapsto> f u))"
    using inv ok XY unfolding sched_inv_def phases_ok_def by auto
  show ?thesis
    unfolding sched_inv_def T with_turn_simps
  proof (intro conjI allI impI)
    show "fresh_ids (with_turn t f st)"
      using inv t by (auto simp: sched_inv_def fresh_ids_def T)
    show "slots_known (with_turn t f st)"
      using inv t same by (auto simp: sched_inv_def slots_known_def T)
    show "sem_ok Y ((mx_turns st)(t \<mapsto> f u)) (mx_sem st)"
      using inv wait permits by (auto simp: sched_inv_def sem_ok_def)
  qed (use inv slots phases in \<open>auto simp: sched_inv_def\<close>)
qed

text \<open>A turn that is not waiting may be exempted, and one that moves to a phase of its kind is no longer exempt.\<close>

lemma inv_exempt:
  assumes "sched_inv limits {} st" and "mx_turns st t = Some u" and "t_phase u \<noteq> Waiting"
  shows "sched_inv limits {t} st"
  using assms by (auto simp: sched_inv_def phases_ok_def sem_ok_def)

lemma inv_phase:
  assumes "sched_inv limits X st" and "mx_turns st t = Some u" and "X \<subseteq> {t}" and "X = {t} \<or> t_phase u \<noteq> Waiting"
    and "t_direct u \<or> in_chain p = in_chain (t_phase u) \<and> finished p = finished (t_phase u)"
    and "t_direct u \<or> p = Chained \<or> t_phase u \<noteq> Chained \<or> first_in_chain st t u" and "p \<noteq> Waiting"
    and "phase_ok (u\<lparr>t_phase := p\<rparr>)"
  shows "sched_inv limits {} (set_phase t p st)"
  unfolding set_phase_def
  by (rule inv_turn [OF assms(1,2)]) (use assms in \<open>auto simp: turns_where_upd\<close>)

lemma inv_aborted:
  assumes "sched_inv limits {} st" and "mx_turns st t = Some u"
  shows "sched_inv limits {} (with_turn t (\<lambda>u. u\<lparr>t_aborted := b\<rparr>) st)"
proof -
  have "phase_ok u"
    using assms by (simp add: sched_inv_def phases_ok_def)
  then show ?thesis
    by (intro inv_turn [OF assms]) (use assms(2) in \<open>auto simp: turns_where_upd phase_ok_def\<close>)
qed

lemma inv_with_sem:
  assumes "sched_inv limits X st" and "sem_limit sem = sem_limit (mx_sem st)" and "sem_ok Y (mx_turns st) sem"
    and "phases_ok Y (mx_turns st)"
  shows "sched_inv limits Y (st\<lparr>mx_sem := sem\<rparr>)"
  using assms by (simp add: sched_inv_def fresh_ids_def slots_known_def)

lemma inv_cancel:
  assumes "sched_inv limits {} st" and "mx_turns st t = Some u" and "t_phase u = Waiting"
  shows "sched_inv limits {t} (st\<lparr>mx_sem := sem_cancel t (mx_sem st)\<rparr>)"
  by (rule inv_with_sem [OF assms(1)])
    (use assms in \<open>auto simp: sched_inv_def sem_ok_def sem_cancel_def phases_ok_def set_remove1_eq\<close>)

section \<open>A turn ends\<close>

lemma slot_ok_finish:
  assumes ok: "slot_ok d T i s" and fin: "finite (open_turns T i)" and t: "T t = Some u" and i: "of_slot i u"
    and open_t: "\<not> finished (t_phase u)"
    and first: "in_chain (t_phase u) \<Longrightarrow> hd (s_chain s) = t"
  shows "slot_ok d (T(t \<mapsto> u\<lparr>t_phase := Finished out\<rparr>)) i (release_reservation t v s)"
proof -
  let ?T = "T(t \<mapsto> u\<lparr>t_phase := Finished out\<rparr>)"
  have F: "finished (Finished out)" "\<not> in_chain (Finished out)"
    by (simp_all add: phase_classes)
  have opened: "open_turns ?T i = open_turns T i - {t}" and chained: "chained_turns ?T i = chained_turns T i - {t}"
    by (simp_all add: open_turns_def chained_turns_def turns_where_upd F)
  have mem: "t \<in> open_turns T i"
    using t i open_t by (auto simp: open_turns_def)
  have card: "card (open_turns T i) = Suc (card (open_turns ?T i))"
    unfolding opened by (rule card.remove [OF fin mem])
  have head: "hd (remove1 t (s_chain s)) = t'"
    if "T t' = Some u'" "of_slot i u'" "in_chain (t_phase u')" "t_phase u' \<noteq> Chained" "t' \<noteq> t" for t' u'
  proof -
    have "hd (s_chain s) = t'"
      using ok that by (auto simp: slot_ok_def)
    moreover have "t \<notin> set (s_chain s)"
      using calculation first that(5) ok t i by (auto simp: slot_ok_def chained_turns_def)
    ultimately show ?thesis
      by (simp add: remove1_idem)
  qed
  show ?thesis
    unfolding slot_ok_def
    using ok head card by (auto simp: slot_ok_def release_reservation_def chained set_remove1_eq F)
qed

end
