(* ===== verification/TurnSteps.thy ===== *)
theory TurnSteps
  imports TurnLaws
begin

text \<open>
  Every step of the scheduler keeps its invariant: the ends of a turn, the hand-over of permits, admission,
  the continuations of a turn, aborts and the calls that only touch what the invariant does not read.
\<close>

section \<open>The end of a turn\<close>

lemma inv_finish:
  assumes inv: "sched_inv limits X st" and t: "mx_turns st t = Some u" and X: "X \<subseteq> {t}" "X = {t} \<or> t_phase u \<noteq> Waiting"
    and open_t: "\<not> finished (t_phase u)" and permit: "\<not> t_permit u"
    and first: "t_direct u \<or> \<not> in_chain (t_phase u) \<or> first_in_chain st t u"
  shows "sched_inv limits {} (finish_turn t outcome st)"
proof (cases "t_direct u")
  case True
  then have "sched_inv limits {} (set_phase t (Finished outcome) st)"
    by (intro inv_phase [OF inv t X]) (use permit in \<open>auto simp: phase_ok_def phase_classes\<close>)
  then show ?thesis
    using t True by (simp add: finish_turn_def)
next
  case False
  let ?u = "u\<lparr>t_phase := Finished outcome\<rparr>" and ?T = "(mx_turns st)(t \<mapsto> u\<lparr>t_phase := Finished outcome\<rparr>)"
  obtain s where s: "mx_slots st (t_slot u) = Some s"
    using sched_inv_known [OF inv t False] ..
  have st: "finish_turn t outcome st = with_turn t (\<lambda>u. u\<lparr>t_phase := Finished outcome\<rparr>) (with_slot (t_slot u) (release_reservation t u) st)"
    using t False by (simp add: finish_turn_def set_phase_def)
  have slots: "mx_slots (finish_turn t outcome st) = (mx_slots st)(t_slot u \<mapsto> release_reservation t u s)"
    and turns: "mx_turns (finish_turn t outcome st) = ?T"
    and rest: "mx_limits (finish_turn t outcome st) = mx_limits st" "mx_sem (finish_turn t outcome st) = mx_sem st" "mx_next (finish_turn t outcome st) = mx_next st"
    using t s by (simp_all add: st with_slot_slots with_turn_turns)
  have fin: "finite (open_turns (mx_turns st) i)" for i
    using inv by (simp add: open_turns_def sched_inv_def finite_turns)
  have slot_oks: "slot_ok d ?T i s'" if "slot_ok d (mx_turns st) i s'" "i \<noteq> t_slot u" for d i s'
    using that t by (auto simp: slot_ok_def open_turns_def chained_turns_def turns_where_upd of_slot_def)
  have mine: "slot_ok (max_queue_depth limits) ?T (t_slot u) (release_reservation t u s)"
    by (rule slot_ok_finish [OF _ fin t]) (use inv s False open_t first in \<open>auto simp: sched_inv_def of_slot_def first_in_chain_def\<close>)
  show ?thesis
    unfolding sched_inv_def turns rest slots
  proof (intro conjI allI impI)
    show "fresh_ids (finish_turn t outcome st)"
      using inv t s by (auto simp: sched_inv_def fresh_ids_def turns rest slots)
    show "slots_known (finish_turn t outcome st)"
      using inv t by (auto simp: sched_inv_def slots_known_def turns slots)
    show "phases_ok {} ?T"
      using inv X permit False by (auto simp: sched_inv_def phases_ok_def phase_ok_def phase_classes)
    show "sem_ok {} ?T (mx_sem st)"
      using inv X t permit by (auto simp: sched_inv_def sem_ok_def turns_where_upd)
  qed (use inv slot_oks mine in \<open>auto simp: sched_inv_def split: if_splits\<close>)
qed

text \<open>Giving a permit back; the turn is left exempt, since its phase still says that it holds one.\<close>

lemma permit_not_waiting: "phase_ok u \<Longrightarrow> t_permit u \<Longrightarrow> t_phase u \<noteq> Waiting"
  by (auto simp: phase_ok_def phase_classes)

lemma sem_ok_give_back:
  assumes ok: "sem_ok {} T sem" and fin: "finite (turns_where T t_permit)" and t: "T t = Some u" "t_permit u" "phase_ok u"
    and none: "sem_waiters sem = []"
  shows "sem_ok {t} (T(t \<mapsto> u\<lparr>t_permit := False\<rparr>)) (sem\<lparr>sem_active := sem_active sem - 1\<rparr>)"
proof -
  have "card (turns_where T t_permit) = Suc (card (turns_where T t_permit - {t}))"
    by (rule card.remove [OF fin]) (use t in auto)
  then show ?thesis
    using ok none permit_not_waiting [OF t(3,2)] by (simp add: sem_ok_def turns_where_upd)
qed

lemma sem_ok_hand_over:
  assumes ok: "sem_ok {} T sem" and fin: "finite (turns_where T t_permit)" and t: "T t = Some u" "t_permit u" "phase_ok u"
    and ws: "sem_waiters sem = w # ws" and v: "T w = Some v" "\<not> t_permit v" "w \<noteq> t"
  shows "sem_ok {t} (T(t \<mapsto> u\<lparr>t_permit := False\<rparr>, w \<mapsto> v\<lparr>t_permit := True, t_phase := Granted\<rparr>)) (sem\<lparr>sem_waiters := ws\<rparr>)"
    (is "sem_ok {t} ?T _")
proof -
  let ?P = "turns_where T t_permit" and ?W = "turns_where T (\<lambda>u. t_phase u = Waiting)"
  have "card ?P = Suc (card (?P - {t}))"
    by (rule card.remove [OF fin]) (use t in auto)
  moreover have "card (insert w (?P - {t})) = Suc (card (?P - {t}))"
    by (rule card_insert_disjoint) (use fin v in auto)
  moreover have "turns_where ?T t_permit = insert w (?P - {t})"
    by (simp add: turns_where_upd)
  moreover have "turns_where ?T (\<lambda>u. t_phase u = Waiting) - {t} = ?W - {w} - {t}"
    using permit_not_waiting [OF t(3,2)] by (auto simp: turns_where_upd)
  moreover have "t \<notin> ?W"
    using permit_not_waiting [OF t(3,2)] t(1) by simp
  moreover have "set ws = ?W - {w}" "distinct ws" "sem_active sem = sem_limit sem" "sem_active sem = card ?P"
    using ok ws by (auto simp: sem_ok_def)
  ultimately show ?thesis
    by (simp add: sem_ok_def)
qed

lemma sem_ok_first_waiter:
  assumes "sem_ok {} T sem" and "phases_ok {} T" and "sem_waiters sem = w # ws"
  obtains v where "T w = Some v" "t_phase v = Waiting" "\<not> t_permit v"
proof -
  have "w \<in> turns_where T (\<lambda>u. t_phase u = Waiting)"
    using assms(1,3) by (auto simp: sem_ok_def)
  then obtain v where v: "T w = Some v" "t_phase v = Waiting"
    by (auto simp: turns_where_def)
  moreover have "phase_ok v"
    using assms(2) v(1) by (auto simp: phases_ok_def)
  ultimately show ?thesis
    using that permit_not_waiting by blast
qed

lemma inv_phase_ok: "sched_inv limits X st \<Longrightarrow> mx_turns st t = Some u \<Longrightarrow> t \<notin> X \<Longrightarrow> phase_ok u"
  by (simp add: sched_inv_def phases_ok_def)

lemma inv_slot_ok: "sched_inv limits X st \<Longrightarrow> mx_slots st i = Some s \<Longrightarrow> slot_ok (max_queue_depth limits) (mx_turns st) i s"
  by (simp add: sched_inv_def)

text \<open>The permit of a turn changes, with the semaphore: what the chains say is untouched.\<close>

lemma inv_sem_turn:
  assumes inv: "sched_inv limits X st" and t: "mx_turns st t = Some u" and same: "t_slot u' = t_slot u" "t_direct u' = t_direct u"
    and cls: "t_direct u \<or> in_chain (t_phase u') = in_chain (t_phase u) \<and> finished (t_phase u') = finished (t_phase u)"
    and hd: "t_direct u \<or> t_phase u' = Chained \<or> t_phase u \<noteq> Chained \<or> first_in_chain st t u"
    and st': "mx_turns st' = (mx_turns st)(t \<mapsto> u')" "mx_slots st' = mx_slots st" "mx_next st' = mx_next st" "mx_limits st' = mx_limits st"
    and sem: "sem_limit (mx_sem st') = sem_limit (mx_sem st)" "sem_ok Y (mx_turns st') (mx_sem st')" "phases_ok Y (mx_turns st')"
  shows "sched_inv limits Y st'"
proof -
  have "slot_ok d (mx_turns st') i s" if "slot_ok d (mx_turns st) i s" "mx_slots st i = Some s" for d i s
    unfolding st'(1) by (rule slot_ok_turns [OF t same cls _ that(1)]) (use hd that(2) in \<open>auto simp: first_in_chain_def\<close>)
  moreover have "fresh_ids st'" "slots_known st'"
    using inv t same by (auto simp: sched_inv_def fresh_ids_def slots_known_def st')
  ultimately show ?thesis
    using inv sem by (auto simp: sched_inv_def st')
qed

lemma inv_release_permit:
  assumes inv: "sched_inv limits {} st" and t: "mx_turns st t = Some u" and waiting: "t_phase u \<noteq> Waiting"
  shows "sched_inv limits {t} (release_permit t st) \<and> mx_turns (release_permit t st) t = Some (u\<lparr>t_permit := False\<rparr>) \<and>
         mx_slots (release_permit t st) = mx_slots st"
proof (cases "t_permit u")
  case False
  then show ?thesis
    using t inv_exempt [OF inv t waiting] by (simp add: release_permit_def)
next
  case True
  let ?T = "mx_turns st" and ?sem = "mx_sem st"
  have ok: "sem_ok {} ?T ?sem" "phases_ok {} ?T" and fin: "finite (turns_where ?T t_permit)" and u: "phase_ok u"
    using inv inv_phase_ok [OF inv t] by (auto simp: sched_inv_def finite_turns)
  define st1 where "st1 = with_turn t (\<lambda>u. u\<lparr>t_permit := False\<rparr>) st"
  have st1: "mx_turns st1 = ?T(t \<mapsto> u\<lparr>t_permit := False\<rparr>)" "mx_sem st1 = ?sem"
    by (simp_all add: st1_def with_turn_turns [OF t])
  show ?thesis
  proof (cases "sem_waiters ?sem")
    case Nil
    have r: "release_permit t st = st1\<lparr>mx_sem := ?sem\<lparr>sem_active := sem_active ?sem - 1\<rparr>\<rparr>"
      using t True Nil by (simp add: release_permit_def give_permit_def sem_release_def st1_def)
    have "sched_inv limits {t} (release_permit t st)"
      by (rule inv_sem_turn [OF inv t, where u' = "u\<lparr>t_permit := False\<rparr>"])
        (use sem_ok_give_back [OF ok(1) fin t True u Nil] ok(2) in \<open>simp_all add: r st1, simp_all add: st1_def phases_ok_def\<close>)
    then show ?thesis
      by (simp add: r st1) (simp add: st1_def)
  next
    case (Cons w ws)
    obtain v where v: "?T w = Some v" "t_phase v = Waiting" "\<not> t_permit v"
      using sem_ok_first_waiter [OF ok Cons] .
    have w: "w \<noteq> t"
      using v t True by auto
    let ?v = "v\<lparr>t_permit := True, t_phase := Granted\<rparr>" and ?st = "st1\<lparr>mx_sem := ?sem\<lparr>sem_waiters := ws\<rparr>\<rparr>"
    have r: "release_permit t st = with_turn w (\<lambda>u. u\<lparr>t_permit := True, t_phase := Granted\<rparr>) ?st"
      using t True Cons by (simp add: release_permit_def give_permit_def sem_release_def st1_def)
    have T: "mx_turns (release_permit t st) = ?T(t \<mapsto> u\<lparr>t_permit := False\<rparr>, w \<mapsto> ?v)"
      using v w by (simp add: r with_turn_def st1)
    have rest: "mx_limits (release_permit t st) = mx_limits st" "mx_slots (release_permit t st) = mx_slots st"
      "mx_next (release_permit t st) = mx_next st" "mx_sem (release_permit t st) = ?sem\<lparr>sem_waiters := ws\<rparr>"
      by (simp_all add: r st1_def)
    have v_ok: "phase_ok v"
      using ok(2) v(1) by (simp add: phases_ok_def)
    have "slot_ok d (?T(t \<mapsto> u\<lparr>t_permit := False\<rparr>, w \<mapsto> ?v)) i s" if "slot_ok d ?T i s" for d i s
    proof (rule slot_ok_turns [where u = v and u' = ?v])
      show "slot_ok d (?T(t \<mapsto> u\<lparr>t_permit := False\<rparr>)) i s"
        by (rule slot_ok_turns [where u = u]) (use t that in simp_all)
    qed (use v w in \<open>simp_all add: phase_classes\<close>)
    moreover have "phases_ok {t} (?T(t \<mapsto> u\<lparr>t_permit := False\<rparr>, w \<mapsto> ?v))"
      using ok(2) v_ok v(2) by (auto simp: phases_ok_def phase_ok_def phase_classes)
    moreover have "sem_ok {t} (?T(t \<mapsto> u\<lparr>t_permit := False\<rparr>, w \<mapsto> ?v)) (?sem\<lparr>sem_waiters := ws\<rparr>)"
      by (rule sem_ok_hand_over [OF ok(1) fin t True u Cons v(1,3) w])
    moreover have "fresh_ids (release_permit t st)" "slots_known (release_permit t st)"
      using inv t v(1) by (auto simp: sched_inv_def fresh_ids_def slots_known_def T rest)
    ultimately have "sched_inv limits {t} (release_permit t st)"
      using inv unfolding sched_inv_def T rest by simp
    then show ?thesis
      using w by (simp add: T rest)
  qed
qed

section \<open>The steps of one turn\<close>

lemma turns_with_slot: "mx_turns (with_slot i g st) = mx_turns st"
  by simp

lemma inv_leave:
  assumes inv: "sched_inv limits {} st" and t: "mx_turns st t = Some u" and u: "\<not> t_direct u" "in_chain (t_phase u)"
    "t_phase u \<noteq> Chained" "t_phase u \<noteq> Waiting"
  shows "sched_inv limits {} (leave_run t outcome st)"
proof -
  let ?st = "with_slot (t_slot u) (\<lambda>s. s\<lparr>s_active := None\<rparr>) st"
  have inv': "sched_inv limits {} ?st"
    by (rule inv_with_slot [OF _ inv]) simp
  have rel: "sched_inv limits {t} (release_permit t ?st)" "mx_turns (release_permit t ?st) t = Some (u\<lparr>t_permit := False\<rparr>)"
    using inv_release_permit [OF inv' _ u(4)] t by auto
  have "sched_inv limits {} (finish_turn t outcome (release_permit t ?st))"
    using chain_first [OF rel] u by (intro inv_finish [OF rel]) (auto simp: in_chain_def)
  then show ?thesis
    using t by (simp add: leave_run_def)
qed

lemma inv_fail_turn:
  assumes inv: "sched_inv limits X st" and t: "mx_turns st t = Some u" and X: "X \<subseteq> {t}" "X = {t} \<or> t_phase u \<noteq> Waiting"
    and u: "\<not> t_direct u" "in_chain (t_phase u)" and first: "first_in_chain st t u"
  shows "sched_inv limits {} (fail_turn now t e st)"
proof -
  have step: "sched_inv limits {} (set_phase t p st')"
    if "failing p" "sched_inv limits X st'" "mx_turns st' = mx_turns st" "first_in_chain st' t u" for p st'
    by (rule inv_phase [OF that(2) _ X]) (use that t u in \<open>auto simp: phase_ok_def phase_classes split: phase.splits\<close>)
  have first': "first_in_chain (with_slot (t_slot u) (\<lambda>s. s\<lparr>s_state := a, s_used := b\<rparr>) st) t u" for a b
    using first by (auto simp: first_in_chain_def with_slot_slots)
  have inv': "sched_inv limits X (with_slot (t_slot u) (\<lambda>s. s\<lparr>s_state := a, s_used := b\<rparr>) st)" for a b
    by (rule inv_with_slot [OF _ inv]) simp
  show ?thesis
    using t by (simp add: fail_turn_def mark_failed_state_def Let_def step inv' inv first first' failing_def)
qed

lemma inv_mark_failed:
  assumes inv: "sched_inv limits {} st" and t: "mx_turns st t = Some u" and u: "\<not> t_direct u" "failing (t_phase u)"
  shows "sched_inv limits {} (mark_failed_state now t e st)"
proof -
  have "sched_inv limits {} (with_slot (t_slot u) (\<lambda>s. s\<lparr>s_state := fail_state e, s_used := now\<rparr>) st)"
    by (rule inv_with_slot [OF _ inv]) simp
  then have "sched_inv limits {} (set_phase t (MarkingFailed e) (with_slot (t_slot u) (\<lambda>s. s\<lparr>s_state := fail_state e, s_used := now\<rparr>) st))"
    by (rule inv_phase) (use t u in \<open>auto simp: phase_ok_def phase_classes split: phase.splits\<close>)
  then show ?thesis
    using t by (simp add: mark_failed_state_def)
qed

lemma sem_ok_permit:
  assumes ok: "sem_ok {} T sem" and fin: "finite (turns_where T t_permit)" and free: "sem_active sem < sem_limit sem"
    and t: "t \<notin> turns_where T t_permit" "t \<notin> turns_where T (\<lambda>u. t_phase u = Waiting)" and u: "t_permit u" "t_phase u \<noteq> Waiting"
  shows "sem_ok {} (T(t \<mapsto> u)) (sem\<lparr>sem_active := sem_active sem + 1\<rparr>)"
  using assms card_insert_disjoint [OF fin t(1)] by (auto simp: sem_ok_def turns_where_upd)

lemma sem_ok_enqueue:
  assumes ok: "sem_ok {} T sem" and free: "\<not> sem_active sem < sem_limit sem"
    and t: "t \<notin> turns_where T t_permit" "t \<notin> turns_where T (\<lambda>u. t_phase u = Waiting)" and u: "\<not> t_permit u" "t_phase u = Waiting"
  shows "sem_ok {} (T(t \<mapsto> u)) (sem\<lparr>sem_waiters := sem_waiters sem @ [t]\<rparr>)"
  using assms by (auto simp: sem_ok_def turns_where_upd)

lemma inv_take_permit:
  assumes inv: "sched_inv limits {} st" and t: "mx_turns st t = Some u" and u: "\<not> t_direct u" "t_phase u = Chained"
    and first: "first_in_chain st t u"
  shows "sched_inv limits {} (take_permit now t u st)"
proof -
  have parts: "sem_ok {} (mx_turns st) (mx_sem st)" "phases_ok {} (mx_turns st)" "finite (turns_where (mx_turns st) t_permit)"
    using inv by (auto simp: sched_inv_def finite_turns)
  have "phase_ok u"
    by (rule inv_phase_ok [OF inv t]) simp
  then have none: "\<not> t_permit u" and out: "t \<notin> turns_where (mx_turns st) t_permit" "t \<notin> turns_where (mx_turns st) (\<lambda>u. t_phase u = Waiting)"
    using u t by (auto simp: phase_ok_def phase_classes)
  consider "t_aborted u" | "\<not> t_aborted u" "sem_active (mx_sem st) < sem_limit (mx_sem st)"
    | "\<not> t_aborted u" "\<not> sem_active (mx_sem st) < sem_limit (mx_sem st)"
    by blast
  then show ?thesis
  proof cases
    case 1
    then show ?thesis
      using inv_fail_turn [OF inv t _ _ u(1) _ first] u(2) by (simp add: take_permit_def sem_acquire_def in_chain_def finished_def)
  next
    case 2
    let ?u = "u\<lparr>t_permit := True, t_phase := Granted\<rparr>"
    have r: "take_permit now t u st = (with_turn t (\<lambda>u. u\<lparr>t_permit := True, t_phase := Granted\<rparr>) st)
        \<lparr>mx_sem := (mx_sem st)\<lparr>sem_active := sem_active (mx_sem st) + 1\<rparr>\<rparr>"
      using 2 by (simp add: take_permit_def sem_acquire_def)
    show ?thesis
      by (rule inv_sem_turn [OF inv t, where u' = ?u])
        (use sem_ok_permit [OF parts(1,3) 2(2) out, where u = ?u] parts(2) u first t in
          \<open>auto simp: r with_turn_turns phases_ok_def phase_ok_def phase_classes\<close>)
  next
    case 3
    let ?u = "u\<lparr>t_phase := Waiting\<rparr>"
    have r: "take_permit now t u st = (set_phase t Waiting st)\<lparr>mx_sem := (mx_sem st)\<lparr>sem_waiters := sem_waiters (mx_sem st) @ [t]\<rparr>\<rparr>"
      using 3 by (simp add: take_permit_def sem_acquire_def)
    show ?thesis
      by (rule inv_sem_turn [OF inv t, where u' = ?u])
        (use sem_ok_enqueue [OF parts(1) 3(2) out, where u = ?u] parts(2) u first none t in
          \<open>auto simp: r set_phase_def with_turn_turns phases_ok_def phase_ok_def phase_classes\<close>)
  qed
qed

lemma inv_start_turn:
  assumes inv: "sched_inv limits {} st" and t: "mx_turns st t = Some u" and u: "\<not> t_direct u" "t_phase u = Chained"
  shows "sched_inv limits {} (start_turn now t u st)"
proof -
  obtain s where s: "mx_slots st (t_slot u) = Some s"
    using sched_inv_known [OF inv t u(1)] ..
  have "\<not> t_permit u"
    using inv_phase_ok [OF inv t] u(2) by (auto simp: phase_ok_def phase_classes)
  moreover have "first_in_chain st t u" if "hd (s_chain s) = t"
    using s that by (simp add: first_in_chain_def)
  moreover have "sched_inv limits {} (with_slot (t_slot u) (\<lambda>s. s\<lparr>s_active := Some t\<rparr>) st)"
    by (rule inv_with_slot [OF _ inv]) simp
  moreover have "first_in_chain (with_slot (t_slot u) (\<lambda>s. s\<lparr>s_active := Some t\<rparr>) st) t u" if "hd (s_chain s) = t"
    using s that by (simp add: first_in_chain_def with_slot_slots)
  ultimately show ?thesis
    using inv inv_finish [OF inv t] inv_take_permit [of limits _ t u now] t u
    by (auto simp: start_turn_def s finished_def)
qed

text \<open>A turn that runs, moves on or leaves.\<close>

lemma holding_classes:
  assumes "holding p"
  shows "in_chain p" "\<not> finished p" "p \<noteq> Chained" "p \<noteq> Waiting" "\<not> failing p"
  using assms by (auto simp: phase_classes)

lemma inv_run_phase:
  assumes "sched_inv limits {} st" and "mx_turns st t = Some u" and "\<not> t_direct u" and "holding (t_phase u)" and "holding p"
  shows "sched_inv limits {} (set_phase t p st)"
proof -
  have "phase_ok u"
    by (rule inv_phase_ok [OF assms(1,2)]) simp
  then show ?thesis
    using assms(3) holding_classes [OF assms(4)] holding_classes [OF assms(5)] assms(4,5)
    by (intro inv_phase [OF assms(1,2)]) (simp_all add: phase_ok_def)
qed

lemma inv_running:
  assumes inv: "sched_inv limits {} st" and t: "mx_turns st t = Some u" and u: "\<not> t_direct u" "holding (t_phase u)"
  shows "sched_inv limits {} (start_running now t u st)" "sched_inv limits {} (turn_succeeded now t u st)"
    "sched_inv limits {} (set_phase t Prompting (mux_emit i e r st))" "sched_inv limits {} (after_idle t u st)"
    "sched_inv limits {} (fail_turn now t err st)"
proof -
  have phase: "in_chain (t_phase u)" "t_phase u \<noteq> Chained" "t_phase u \<noteq> Waiting"
    using u(2) by (auto simp: phase_classes)
  show "sched_inv limits {} (start_running now t u st)" "sched_inv limits {} (turn_succeeded now t u st)"
    unfolding start_running_def turn_succeeded_def
    by (rule inv_run_phase [OF inv_with_slot [OF _ inv] _ u]; simp add: t holding_def)+
  show "sched_inv limits {} (set_phase t Prompting (mux_emit i e r st))"
    by (rule inv_run_phase [OF inv_emit [OF inv] _ u]) (simp_all add: t holding_def)
  show "sched_inv limits {} (after_idle t u st)"
    unfolding after_idle_def
    by (rule inv_leave [OF inv_emit [OF inv_emit [OF inv_with_slot [OF _ inv]]] _ u(1) phase]) (simp_all add: t)
  show "sched_inv limits {} (fail_turn now t err st)"
    by (rule inv_fail_turn [OF inv t _ _ u(1) phase(1) chain_first [OF inv t u(1) phase(1,2)]]) (use phase(3) in auto)
qed

lemma inv_after_failed:
  assumes inv: "sched_inv limits {} st" and t: "mx_turns st t = Some u" and u: "\<not> t_direct u" "failing (t_phase u)"
  shows "sched_inv limits {} (after_failed t u e st)"
proof -
  have phase: "in_chain (t_phase u)" "t_phase u \<noteq> Chained" "t_phase u \<noteq> Waiting"
    using u(2) by (auto simp: phase_classes split: phase.splits)
  define st1 where "st1 = mux_emit (t_slot u) ''requestFailed'' (Some (t_request u)) (with_slot (t_slot u) (\<lambda>s. s\<lparr>s_error := Some (err_code e)\<rparr>) st)"
  define st2 where "st2 = (if map_option s_state (mx_slots st1 (t_slot u)) = Some SIdle then mux_emit (t_slot u) ''sessionIdle'' (Some (t_request u)) st1 else st1)"
  have "sched_inv limits {} st1"
    unfolding st1_def by (rule inv_emit, rule inv_with_slot [OF _ inv]) simp
  then have "sched_inv limits {} st2"
    by (simp add: st2_def inv_emit)
  moreover have "mx_turns st2 t = Some u"
    using t by (simp add: st2_def st1_def)
  ultimately have "sched_inv limits {} (leave_run t (Some e) st2)"
    by (rule inv_leave [OF _ _ u(1) phase])
  then show ?thesis
    by (simp only: after_failed_def Let_def st1_def st2_def)
qed

lemma direct_phases:
  "phase_ok u \<Longrightarrow> t_direct u \<Longrightarrow> t_phase u = Waiting \<or> t_phase u = Granted \<or> t_phase u = Prompting \<or> finished (t_phase u)"
  by (auto simp: phase_ok_def)

lemma inv_resume_direct:
  assumes inv: "sched_inv limits {} st" and t: "mx_turns st t = Some u" and u: "t_direct u"
  shows "sched_inv limits {} (resume_turn now t failure u st)"
proof -
  have ok: "phase_ok u"
    by (rule inv_phase_ok [OF inv t]) simp
  consider "t_phase u = Waiting" | "t_phase u = Granted" | "t_phase u = Prompting" | "finished (t_phase u)"
    using direct_phases [OF ok u] by blast
  then show ?thesis
  proof cases
    case 2
    have "sched_inv limits {} (set_phase t Prompting st)"
      by (rule inv_phase [OF inv t]) (use u 2 ok in \<open>auto simp: phase_ok_def holding_def\<close>)
    then show ?thesis
      using 2 u by (simp add: resume_turn_def)
  next
    case 3
    have rel: "sched_inv limits {t} (release_permit t st)" "mx_turns (release_permit t st) t = Some (u\<lparr>t_permit := False\<rparr>)"
      using inv_release_permit [OF inv t] 3 by auto
    have "sched_inv limits {} (finish_turn t failure (release_permit t st))"
      by (rule inv_finish [OF rel]) (use u 3 in \<open>simp_all add: finished_def\<close>)
    then show ?thesis
      using 3 u by (simp add: resume_turn_def)
  qed (use inv in \<open>auto simp: resume_turn_def finished_def split: phase.splits\<close>)
qed

lemma inv_resume_turn:
  assumes inv: "sched_inv limits {} st" and t: "mx_turns st t = Some u"
  shows "sched_inv limits {} (resume_turn now t failure u st)"
proof (cases "t_direct u")
  case True
  then show ?thesis
    by (rule inv_resume_direct [OF inv t])
next
  case False
  have ok: "phase_ok u"
    by (rule inv_phase_ok [OF inv t]) simp
  note run = inv_running [OF inv t False] inv_run_phase [OF inv t False]
  show ?thesis
  proof (cases "t_phase u")
    case RefusingFailed
    then have "sched_inv limits {} (finish_turn t (Some (mux_error ''session_failed'' False)) st)"
      using ok by (intro inv_finish [OF inv t]) (auto simp: phase_ok_def phase_classes)
    then show ?thesis
      by (simp add: resume_turn_def RefusingFailed)
  next
    case Chained
    then show ?thesis
      using inv_start_turn [OF inv t False Chained] by (simp add: resume_turn_def)
  next
    case (JournalFailing e)
    then show ?thesis
      using inv_mark_failed [OF inv t False] by (simp add: resume_turn_def failing_def)
  next
    case (MarkingFailed e)
    then show ?thesis
      using inv_after_failed [OF inv t False] by (simp add: resume_turn_def failing_def)
  qed (use False run inv in \<open>auto simp: resume_turn_def holding_def split: option.splits\<close>)
qed

section \<open>Admission\<close>

lemma inv_join_chain:
  assumes inv: "sched_inv limits {} st" and t: "mx_turns st t = Some u" and u: "t_phase u = Beginning"
  shows "sched_inv limits {} (join_chain t u st)"
proof -
  define st1 where "st1 = mux_emit (t_slot u) ''promptAccepted'' (Some (t_request u)) st"
  have inv1: "sched_inv limits {} st1" and t1: "mx_turns st1 t = Some u"
    using inv t by (auto simp: st1_def inv_emit)
  have ok: "phase_ok u"
    by (rule inv_phase_ok [OF inv t]) simp
  then have nd: "\<not> t_direct u" and np: "\<not> t_permit u"
    using u by (auto simp: phase_ok_def phase_classes)
  obtain s where s: "mx_slots st1 (t_slot u) = Some s"
    using sched_inv_known [OF inv1 t1 nd] ..
  let ?T = "(mx_turns st1)(t \<mapsto> u\<lparr>t_phase := Chained\<rparr>)" and ?s = "s\<lparr>s_chain := s_chain s @ [t]\<rparr>"
  have slots: "mx_slots (join_chain t u st) = (mx_slots st1)(t_slot u \<mapsto> ?s)" and turns: "mx_turns (join_chain t u st) = ?T"
    and rest: "mx_limits (join_chain t u st) = mx_limits st1" "mx_sem (join_chain t u st) = mx_sem st1" "mx_next (join_chain t u st) = mx_next st1"
    using s t1 by (simp_all add: join_chain_def st1_def [symmetric] set_phase_def with_slot_slots with_turn_turns)
  have opened: "open_turns ?T i = open_turns (mx_turns st1) i" for i
    by (simp add: open_turns_def turns_where_same [of "mx_turns st1" t u, OF t1] of_slot_def u finished_def)
  have chained: "chained_turns ?T i = (if i = t_slot u then insert t (chained_turns (mx_turns st1) i) else chained_turns (mx_turns st1) i)" for i
    using t1 u nd by (auto simp: chained_turns_def turns_where_upd of_slot_def in_chain_def finished_def turns_where_def)
  have fresh_t: "t \<notin> chained_turns (mx_turns st1) i" for i
    using t1 u by (simp add: chained_turns_def in_chain_def)
  have others: "slot_ok d ?T i s'" if "slot_ok d (mx_turns st1) i s'" "i \<noteq> t_slot u" for d i s'
    using that nd by (auto simp: slot_ok_def opened chained of_slot_def)
  have head: "hd (s_chain s @ [t]) = t'"
    if "?T t' = Some u'" "of_slot (t_slot u) u'" "in_chain (t_phase u')" "t_phase u' \<noteq> Chained" for t' u'
  proof -
    have "mx_turns st1 t' = Some u'"
      using that by (auto split: if_splits)
    then have "t' \<in> set (s_chain s)" "hd (s_chain s) = t'"
      using inv_slot_ok [OF inv1 s] that(2-4) by (auto simp: slot_ok_def chained_turns_def)
    then show ?thesis
      by (cases "s_chain s") auto
  qed
  have mine: "slot_ok d ?T (t_slot u) ?s" if "slot_ok d (mx_turns st1) (t_slot u) s" for d
    using that fresh_t head by (auto simp: slot_ok_def opened chained)
  show ?thesis
    unfolding sched_inv_def turns rest slots
  proof (intro conjI allI impI)
    show "fresh_ids (join_chain t u st)" "slots_known (join_chain t u st)"
      using inv1 t1 s by (auto simp: sched_inv_def fresh_ids_def slots_known_def turns slots rest)
    show "phases_ok {} ?T"
      using inv1 np nd by (auto simp: sched_inv_def phases_ok_def phase_ok_def phase_classes)
    show "sem_ok {} ?T (mx_sem st1)"
      using inv1 t1 u np by (auto simp: sched_inv_def sem_ok_def turns_where_upd)
  qed (use inv1 others mine s in \<open>auto simp: sched_inv_def split: if_splits\<close>)
qed

lemma inv_resume_begin:
  assumes inv: "sched_inv limits {} st" and t: "mx_turns st t = Some u" and u: "t_phase u = Beginning"
  shows "sched_inv limits {} (resume_begin t outcome u st)"
proof -
  have ok: "phase_ok u"
    by (rule inv_phase_ok [OF inv t]) simp
  have "sched_inv limits {} (finish_turn t out st)" for out
    by (rule inv_finish [OF inv t]) (use u ok in \<open>auto simp: phase_ok_def phase_classes\<close>)
  moreover have "sched_inv limits {} (set_phase t RefusingFailed st)"
    by (rule inv_phase [OF inv t]) (use u ok in \<open>auto simp: phase_ok_def phase_classes\<close>)
  ultimately show ?thesis
    using inv_join_chain [OF inv t u] by (simp add: resume_begin_def split: begin_outcome.splits)
qed

lemma inv_admit:
  assumes inv: "sched_inv limits {} st" and s: "mx_slots st i = Some s" and room: "\<not> s_pending s \<ge> int (max_queue_depth limits) + 1"
  shows "sched_inv limits {} (admit_turn i c st)"
proof -
  let ?t = "mx_next st" and ?u = "new_turn i c"
  define s' where "s' = s\<lparr>s_pending := s_pending s + 1, s_active := (if s_pending s = 0 then Some ?t else s_active s),
    s_in_flight := map_set (s_in_flight s) (w_key c) ?t\<rparr>"
  let ?T = "(mx_turns st)(?t \<mapsto> ?u)"
  have none: "mx_turns st ?t = None"
    using inv by (simp add: sched_inv_def fresh_ids_def)
  have u: "\<not> t_direct ?u" "t_slot ?u = i" "t_phase ?u = Beginning" "\<not> t_permit ?u"
    by (simp_all add: new_turn_def)
  have slots: "mx_slots (admit_turn i c st) = (mx_slots st)(i \<mapsto> s')" and turns: "mx_turns (admit_turn i c st) = ?T"
    and rest: "mx_limits (admit_turn i c st) = mx_limits st" "mx_sem (admit_turn i c st) = mx_sem st" "mx_next (admit_turn i c st) = Suc ?t"
    using s by (simp_all add: admit_turn_def Let_def with_slot_slots s'_def)
  have out: "?t \<notin> turns_where (mx_turns st) P" for P
    using none by (simp add: turns_where_def)
  have opened: "open_turns ?T j = (if j = i then insert ?t (open_turns (mx_turns st) j) else open_turns (mx_turns st) j)" for j
    using out u by (simp add: open_turns_def turns_where_upd of_slot_def finished_def)
  have chained: "chained_turns ?T j = chained_turns (mx_turns st) j" for j
    using out u by (simp add: chained_turns_def turns_where_upd in_chain_def)
  have "i < ?t"
    using inv s by (intro ccontr [where P = "i < ?t"]) (auto simp: sched_inv_def fresh_ids_def)
  note below = this
  have old: "slot_ok (max_queue_depth limits) (mx_turns st) i s"
    by (rule inv_slot_ok [OF inv s])
  have "card (open_turns ?T i) = Suc (card (open_turns (mx_turns st) i))"
    using inv out by (simp add: opened) (simp add: open_turns_def sched_inv_def finite_turns)
  then have mine: "slot_ok (max_queue_depth limits) ?T i s'"
    using old room u by (auto simp: slot_ok_def chained s'_def in_chain_def split: if_splits)
  have others: "slot_ok d ?T j r" if "slot_ok d (mx_turns st) j r" "j \<noteq> i" for d j r
    using that u by (auto simp: slot_ok_def opened chained in_chain_def split: if_splits)
  show ?thesis
    unfolding sched_inv_def turns rest slots
  proof (intro conjI allI impI)
    show "fresh_ids (admit_turn i c st)" "slots_known (admit_turn i c st)"
      using inv s u below by (auto simp: sched_inv_def fresh_ids_def slots_known_def turns slots rest)
    show "phases_ok {} ?T"
      using inv u by (auto simp: sched_inv_def phases_ok_def phase_ok_def phase_classes)
    show "sem_ok {} ?T (mx_sem st)"
      using inv u out by (auto simp: sched_inv_def sem_ok_def turns_where_upd)
  qed (use inv others mine s in \<open>auto simp: sched_inv_def split: if_splits\<close>)
qed

lemma require_session_slot: "require_session st session generation = Inr (i, s) \<Longrightarrow> mx_slots st i = Some s"
  by (auto simp: require_session_def bind_ok split: option.splits)

lemma inv_limits: "sched_inv limits X st \<Longrightarrow> mx_limits st = limits"
  by (simp add: sched_inv_def)

lemma inv_wake:
  assumes inv: "sched_inv limits {} st"
  shows "sched_inv limits {} (snd (mux_wake c st))"
  using inv inv_admit [OF inv]
  by (auto simp: mux_wake_def inv_limits [OF inv] dest!: require_session_slot simp: bind_ok split: sum.splits option.splits)

section \<open>Prompts of an attached controller\<close>

lemma slot_ok_direct:
  assumes "T t = None" and "t_direct u" and "slot_ok d T i s"
  shows "slot_ok d (T(t \<mapsto> u)) i s"
proof -
  have "t \<notin> turns_where T P" for P
    using assms(1) by (simp add: turns_where_def)
  then have "open_turns (T(t \<mapsto> u)) i = open_turns T i" "chained_turns (T(t \<mapsto> u)) i = chained_turns T i"
    using assms(2) by (simp_all add: open_turns_def chained_turns_def turns_where_upd of_slot_def)
  then show ?thesis
    using assms by (auto simp: slot_ok_def of_slot_def)
qed

lemma inv_new_direct:
  assumes inv: "sched_inv limits {} st" and u: "t_direct u" "phase_ok u"
    and st': "mx_turns st' = (mx_turns st)(mx_next st \<mapsto> u)" "mx_slots st' = mx_slots st" "mx_next st' = mx_next st + 1" "mx_limits st' = mx_limits st"
    and sem: "sem_limit (mx_sem st') = sem_limit (mx_sem st)" "sem_ok {} (mx_turns st') (mx_sem st')"
  shows "sched_inv limits {} st'"
proof -
  have "mx_turns st (mx_next st) = None"
    using inv by (simp add: sched_inv_def fresh_ids_def)
  then have "slot_ok d (mx_turns st') i s" if "slot_ok d (mx_turns st) i s" for d i s
    unfolding st'(1) by (rule slot_ok_direct [OF _ u(1) that])
  moreover have "fresh_ids st'" "slots_known st'"
    using inv u by (auto simp: sched_inv_def fresh_ids_def slots_known_def st')
  moreover have "phases_ok {} (mx_turns st')"
    using inv u(2) by (auto simp: sched_inv_def phases_ok_def st')
  ultimately show ?thesis
    using inv sem by (auto simp: sched_inv_def st')
qed

lemma inv_direct_prompt:
  assumes inv: "sched_inv limits {} st"
  shows "sched_inv limits {} (direct_prompt aborted st)"
proof -
  let ?t = "mx_next st" and ?sem = "mx_sem st"
  have none: "mx_turns st ?t = None" and fin: "finite (turns_where (mx_turns st) t_permit)" and ok: "sem_ok {} (mx_turns st) ?sem"
    using inv by (auto simp: sched_inv_def fresh_ids_def intro: finite_turns)
  have out: "?t \<notin> turns_where (mx_turns st) P" for P
    using none by (simp add: turns_where_def)
  consider "aborted" | "\<not> aborted" "sem_active ?sem < sem_limit ?sem" | "\<not> aborted" "\<not> sem_active ?sem < sem_limit ?sem"
    by blast
  then show ?thesis
  proof cases
    case 1
    let ?u = "(direct_turn aborted)\<lparr>t_phase := Finished (Some aborted_error)\<rparr>"
    have "sem_ok {} ((mx_turns st)(?t \<mapsto> ?u)) ?sem"
      using ok out by (auto simp: sem_ok_def turns_where_upd direct_turn_def)
    then show ?thesis
      by (intro inv_new_direct [OF inv, where u = ?u])
        (use 1 in \<open>simp_all add: direct_prompt_def sem_acquire_def Let_def set_phase_def with_turn_def direct_turn_def phase_ok_def phase_classes\<close>)
  next
    case 2
    let ?u = "(direct_turn aborted)\<lparr>t_permit := True, t_phase := Granted\<rparr>"
    show ?thesis
      by (rule inv_new_direct [OF inv, where u = ?u])
        (use 2 sem_ok_permit [OF ok fin 2(2) out out, where u = ?u] in
          \<open>simp_all add: direct_prompt_def sem_acquire_def Let_def with_turn_def direct_turn_def phase_ok_def phase_classes\<close>)
  next
    case 3
    let ?u = "(direct_turn aborted)\<lparr>t_phase := Waiting\<rparr>"
    show ?thesis
      by (rule inv_new_direct [OF inv, where u = ?u])
        (use 3 sem_ok_enqueue [OF ok 3(2) out out, where u = ?u] in
          \<open>simp_all add: direct_prompt_def sem_acquire_def Let_def set_phase_def with_turn_def direct_turn_def phase_ok_def phase_classes\<close>)
  qed
qed

section \<open>Aborts\<close>

lemma inv_abort_turn:
  assumes inv: "sched_inv limits {} st"
  shows "sched_inv limits {} (abort_turn now t st)"
proof (cases "mx_turns st t")
  case None
  then show ?thesis
    using inv by (simp add: abort_turn_def)
next
  case (Some u)
  let ?u = "u\<lparr>t_aborted := True\<rparr>"
  define st1 where "st1 = with_turn t (\<lambda>u. u\<lparr>t_aborted := True\<rparr>) st"
  have inv1: "sched_inv limits {} st1" and t1: "mx_turns st1 t = Some ?u"
    using inv_aborted [OF inv Some] Some by (simp_all add: st1_def with_turn_def)
  show ?thesis
  proof (cases "t_phase u = Waiting")
    case False
    then show ?thesis
      using inv inv1 Some by (simp add: abort_turn_def st1_def)
  next
    case True
    define st2 where "st2 = st1\<lparr>mx_sem := sem_cancel t (mx_sem st1)\<rparr>"
    have inv2: "sched_inv limits {t} st2"
      unfolding st2_def by (rule inv_cancel [OF inv1 t1]) (simp add: True)
    have t2: "mx_turns st2 t = Some ?u"
      using t1 by (simp add: st2_def)
    have "phase_ok ?u"
      by (rule inv_phase_ok [OF inv1 t1]) simp
    then have permit: "\<not> t_permit ?u"
      using True by (auto simp: phase_ok_def phase_classes)
    have waiting: "in_chain (t_phase ?u)" "t_phase ?u \<noteq> Chained" "\<not> finished (t_phase ?u)"
      using True by (simp_all add: phase_classes)
    have "sched_inv limits {} (finish_turn t (Some aborted_error) st2)" if "t_direct u"
      by (rule inv_finish [OF inv2 t2]) (use that permit waiting in auto)
    moreover have "sched_inv limits {} (fail_turn now t aborted_error st2)" if "\<not> t_direct u"
      by (rule inv_fail_turn [OF inv2 t2 _ _ _ waiting(1) chain_first [OF inv2 t2 _ waiting(1,2)]]) (use that in auto)
    ultimately show ?thesis
      using inv Some True by (simp add: abort_turn_def Let_def st1_def [symmetric] st2_def [symmetric])
  qed
qed

end
