(* ===== verification/TurnClaims.thy ===== *)
theory TurnClaims
  imports TurnSteps
begin

text \<open>
  What the scheduler of \<open>src/multiplexer.ts\<close> guarantees in every run: the bounds on turns, and what a
  wake that arrives while its session closes leads to.
\<close>

section \<open>The other calls\<close>

lemma same_sched_put_leases: "same_sched st (put_leases session m st)"
  by (simp add: put_leases_def same_sched_def)

lemma same_sched_leases:
  "same_sched st (snd (acquire_lease now session generation ttl token st))"
  "same_sched st (renew_lease now session generation ttl token st)"
  "same_sched st (release_lease session token st)"
  "same_sched st (snd (lease_count now session g st))"
  by (auto simp: acquire_lease_def renew_lease_def release_lease_def lease_count_def Let_def same_sched_put_leases split: option.splits sum.splits)

lemma same_sched_updates:
  "same_sched a st \<Longrightarrow> same_sched a (put_lifecycle session l st)" "same_sched a st \<Longrightarrow> same_sched a (end_lifecycle session st)"
  "same_sched a st \<Longrightarrow> same_sched a (drop_resident session st)" "same_sched a st \<Longrightarrow> same_sched a (mux_emit i e r st)"
  "same_sched a st \<Longrightarrow> same_sched a (with_slot i (\<lambda>s. s\<lparr>s_state := x\<rparr>) st)"
  "same_sched a st \<Longrightarrow> same_sched a (with_slot i (\<lambda>s. s\<lparr>s_state := x, s_error := y\<rparr>) st)"
  "same_sched a st \<Longrightarrow> same_sched a (with_slot i (\<lambda>s. s\<lparr>s_used := z\<rparr>) st)"
  by (simp_all add: same_sched_trans [OF _ same_sched_emit] same_sched_trans [OF _ same_sched_with_slot])
    (simp_all add: put_lifecycle_def end_lifecycle_def drop_resident_def same_sched_def)

lemma same_sched_begin_lifecycle: "same_sched st (begin_lifecycle session i kind st)"
  by (simp add: begin_lifecycle_def same_sched_updates)

lemma same_sched_open: "same_sched st (snd (open_session session generation same_policy now st))"
  by (auto simp: open_session_def same_sched_updates same_sched_begin_lifecycle split: sum.splits option.splits)

lemma same_sched_control: "same_sched st (snd (mux_control c st))"
proof -
  have "same_sched st (with_slot i (remember_control c) st)" for i
    by (rule same_sched_with_slot) (simp add: remember_control_def Let_def)
  then show ?thesis
    by (auto simp: mux_control_def split: sum.splits option.splits)
qed

lemma same_sched_close: "same_sched st (snd (mux_close session generation retain st))"
  by (auto simp: mux_close_def same_sched_begin_lifecycle split: sum.splits option.splits)

lemma same_sched_sweep: "same_sched st (sweep_session now session st)"
proof -
  have "same_sched st st1" if "lease_count now session g st = (n, st1)" for n st1 g
    using same_sched_leases(4) [of st now session g] that by simp
  then show ?thesis
    by (auto simp: sweep_session_def split: option.splits prod.splits intro: same_sched_trans [OF _ same_sched_begin_lifecycle])
qed

lemmas lifecycle_steps = set_stage_def remove_resident_def after_retired_def after_disposed_def lifecycle_failed_def resume_lifecycle_def

lemma same_sched_lifecycle: "same_sched st (resume_lifecycle session failure st)"
  by (simp add: lifecycle_steps same_sched_updates split: option.splits close_stage.splits close_kind.splits)

lemma inv_new_slot:
  assumes inv: "sched_inv limits {} st"
  shows "sched_inv limits {} (st\<lparr>mx_sessions := m, mx_next := mx_next st + 1,
      mx_slots := (mx_slots st)(mx_next st := Some (new_slot session generation durable now))\<rparr>)" (is "sched_inv _ _ ?st")
proof -
  let ?i = "mx_next st" and ?s = "new_slot session generation durable now"
  have "mx_slots st ?i = None"
    using inv by (simp add: sched_inv_def fresh_ids_def)
  then have "\<not> of_slot ?i u" if "mx_turns st t = Some u" for t u
    using sched_inv_known [OF inv that] by (auto simp: of_slot_def)
  then have none: "open_turns (mx_turns st) ?i = {}" "chained_turns (mx_turns st) ?i = {}"
    "\<And>t u. mx_turns st t = Some u \<Longrightarrow> \<not> of_slot ?i u"
    by (auto simp: open_turns_def chained_turns_def turns_where_def)
  have "slot_ok d (mx_turns st) ?i ?s" for d
    using none(3) by (auto simp: slot_ok_def none(1,2) new_slot_def)
  moreover have "fresh_ids ?st" "slots_known ?st"
    using inv by (auto simp: sched_inv_def fresh_ids_def slots_known_def)
  ultimately show ?thesis
    using inv by (auto simp: sched_inv_def)
qed

lemma inv_finish_open:
  assumes inv: "sched_inv limits {} st"
  shows "sched_inv limits {} (finish_open session durable now st)"
proof -
  have "sched_inv limits {} (end_lifecycle session (mux_emit i ''opened'' None
      (st\<lparr>mx_sessions := m, mx_next := mx_next st + 1, mx_slots := (mx_slots st)(mx_next st := Some (new_slot session g durable now))\<rparr>)))" for i m g
    by (rule sched_inv_same [OF same_sched_updates(2) [OF same_sched_emit] inv_new_slot [OF inv]])
  then show ?thesis
    using inv by (auto simp: finish_open_def Let_def split: option.splits close_kind.splits close_stage.splits)
qed

lemma inv_begin_drain:
  assumes "sched_inv limits {} st"
  shows "sched_inv limits {} (mux_begin_drain st)"
proof -
  have "sched_inv limits {} (st\<lparr>mx_draining := True\<rparr>)"
    by (rule sched_inv_same [OF _ assms]) (simp add: same_sched_def)
  then have "sched_inv limits {} (fold (\<lambda>i. mux_emit i ''hostDraining'' None) xs (st\<lparr>mx_draining := True\<rparr>))" for xs
    by (intro fold_invariant [where Q = "\<lambda>_. True" and P = "sched_inv limits {}"]) (auto intro: inv_emit)
  then show ?thesis
    using assms by (simp add: mux_begin_drain_def)
qed

lemma inv_drain_timeout: "sched_inv limits {} st \<Longrightarrow> sched_inv limits {} (drain_timeout now st)"
  unfolding drain_timeout_def
  by (rule fold_invariant [where Q = "\<lambda>_. True" and P = "sched_inv limits {}"]) (auto intro: inv_abort_turn)

section \<open>Every run\<close>

lemma inv_abort: "sched_inv limits {} st \<Longrightarrow> sched_inv limits {} (snd (mux_abort now session generation st))"
  by (auto simp: mux_abort_def inv_abort_turn split: sum.splits option.splits)

lemma inv_step:
  assumes inv: "sched_inv limits {} st"
  shows "sched_inv limits {} (mux_step ev st)"
proof (cases ev)
  case EvReady
  then show ?thesis
    by (simp add: sched_inv_same [OF _ inv] same_sched_def)
next
  case (EvControlDone i now)
  then show ?thesis
    by (simp add: inv_with_slot [OF _ inv])
qed (use inv inv_resume_begin [OF inv] inv_resume_turn [OF inv] in \<open>simp_all add: inv_finish_open inv_wake inv_abort inv_abort_turn inv_direct_prompt
    inv_begin_drain inv_drain_timeout sched_inv_same [OF same_sched_open inv] sched_inv_same [OF same_sched_control inv] sched_inv_same [OF same_sched_close inv]
    sched_inv_same [OF same_sched_sweep inv] sched_inv_same [OF same_sched_lifecycle inv]
    sched_inv_same [OF same_sched_leases(1) inv] sched_inv_same [OF same_sched_leases(2) inv] sched_inv_same [OF same_sched_leases(3) inv]
    split: option.splits\<close>)

lemma inv_new: "sched_inv limits {} (new_mux limits durability catalog ttl)"
  by (simp add: sched_inv_def new_mux_def fresh_ids_def slots_known_def phases_ok_def sem_ok_def turns_where_def)

interpretation scheduler: machine mux_step "sched_inv limits {}" for limits
  by unfold_locales (rule inv_step)

lemma inv_run: "sched_inv limits {} st \<Longrightarrow> sched_inv limits {} (mux_run evs st)"
  unfolding mux_run_def by (rule scheduler.run)

section \<open>What the invariant bounds\<close>

lemma prompting_bound:
  assumes inv: "sched_inv limits {} st"
  shows "card (turns_where (mx_turns st) (\<lambda>u. t_phase u = Prompting)) \<le> max_concurrent_turns limits"
proof -
  have "turns_where (mx_turns st) (\<lambda>u. t_phase u = Prompting) \<subseteq> turns_where (mx_turns st) t_permit"
    using inv_phase_ok [OF inv] by (auto simp: turns_where_def phase_ok_def holding_def)
  moreover have "finite (turns_where (mx_turns st) t_permit)"
    using inv by (simp add: sched_inv_def finite_turns)
  ultimately have "card (turns_where (mx_turns st) (\<lambda>u. t_phase u = Prompting)) \<le> card (turns_where (mx_turns st) t_permit)"
    by (metis card_mono)
  moreover have "card (turns_where (mx_turns st) t_permit) \<le> max_concurrent_turns limits"
    using inv by (simp add: sched_inv_def sem_ok_def)
  ultimately show ?thesis
    by linarith
qed

lemma unknown_slot_turns:
  assumes "sched_inv limits {} st" and "mx_slots st i = None"
  shows "turns_where (mx_turns st) (\<lambda>u. of_slot i u \<and> P u) = {}"
  using sched_inv_known [OF assms(1)] assms(2) by (fastforce simp: turns_where_def of_slot_def)

lemma session_prompting_bound:
  assumes inv: "sched_inv limits {} st"
  shows "card (turns_where (mx_turns st) (\<lambda>u. of_slot i u \<and> t_phase u = Prompting)) \<le> 1"
proof (cases "mx_slots st i")
  case None
  then show ?thesis
    by (simp add: unknown_slot_turns [OF inv])
next
  case (Some s)
  then have "t = hd (s_chain s)" if "t \<in> turns_where (mx_turns st) (\<lambda>u. of_slot i u \<and> t_phase u = Prompting)" for t
    using inv_slot_ok [OF inv Some] that by (auto simp: turns_where_def slot_ok_def in_chain_def finished_def)
  then have "turns_where (mx_turns st) (\<lambda>u. of_slot i u \<and> t_phase u = Prompting) \<subseteq> {hd (s_chain s)}"
    by blast
  then show ?thesis
    using card_mono [of "{hd (s_chain s)}"] by force
qed

lemma session_queue_bound:
  assumes inv: "sched_inv limits {} st"
  shows "card (turns_where (mx_turns st) (\<lambda>u. of_slot i u \<and> \<not> finished (t_phase u))) \<le> max_queue_depth limits + 1"
proof (cases "mx_slots st i")
  case None
  then show ?thesis
    by (simp add: unknown_slot_turns [OF inv])
next
  case (Some s)
  then show ?thesis
    using inv_slot_ok [OF inv Some] by (simp add: slot_ok_def open_turns_def)
qed

lemma no_lost_wakeup:
  assumes inv: "sched_inv limits {} st"
  shows "turns_where (mx_turns st) (\<lambda>u. t_phase u = Waiting) = {} \<or>
    card (turns_where (mx_turns st) t_permit) = max_concurrent_turns limits"
  using inv unfolding sched_inv_def sem_ok_def by fastforce

text \<open>
  C39: In every run of the scheduler, whatever calls arrive in whatever order and whatever the adapters and
  the journal do, at most \<open>maxConcurrentTurns\<close> turns are prompting at once, attached controllers' prompts
  included.  Each slot, that is each opening of a session until its close or eviction, has at most one of
  its own turns prompting, and at most \<open>maxSessionQueueDepth + 1\<close> that have not ended.  No wakeup is lost:
  a turn waits for a permit only while as many turns as the limit allows hold one.  (The turns of one session
  identifier are not bounded so, when it is reopened: \<open>reopened_session_prompts_twice\<close>.)
\<close>

theorem turns_bounded:
  fixes limits durability catalog ttl evs
  defines "st \<equiv> mux_run evs (new_mux limits durability catalog ttl)"
  shows "card (turns_where (mx_turns st) (\<lambda>u. t_phase u = Prompting)) \<le> max_concurrent_turns limits \<and>
    (\<forall>i. card (turns_where (mx_turns st) (\<lambda>u. of_slot i u \<and> t_phase u = Prompting)) \<le> 1) \<and>
    (\<forall>i. card (turns_where (mx_turns st) (\<lambda>u. of_slot i u \<and> \<not> finished (t_phase u))) \<le> max_queue_depth limits + 1) \<and>
    (turns_where (mx_turns st) (\<lambda>u. t_phase u = Waiting) = {} \<or>
     card (turns_where (mx_turns st) t_permit) = max_concurrent_turns limits)"
proof -
  have "sched_inv limits {} st"
    unfolding st_def by (rule inv_run [OF inv_new])
  then show ?thesis
    by (intro conjI allI prompting_bound session_prompting_bound session_queue_bound no_lost_wakeup)
qed

section \<open>A wake while its session closes\<close>

text \<open>
  The session is opened, its close starts to dispose of the adapter, and a wake arrives; the turn gets as
  far as the adapter's \<open>prompt\<close> before the disposal and the journal's close settle.
\<close>

definition wake_during_close :: "wake_request \<Rightarrow> int \<Rightarrow> bool option \<Rightarrow> mux_event list" where
  "wake_during_close c now retain =
     [EvOpen (w_session c) (w_generation c) True now, EvOpened (w_session c) False now, EvClose (w_session c) (w_generation c) retain, EvWake c,
      EvBegun 1 BeganQueued, EvResume now 1 None, EvResume now 1 None, EvResume now 1 None,
      EvLifecycle (w_session c) None, EvLifecycle (w_session c) None]"

lemmas scheduler_defs = mux_run_def new_mux_def open_session_def assert_admitting_def new_slot_def mux_emit_def with_slot_def
  mux_close_def assert_generation_def require_def busy_def begin_lifecycle_def mux_wake_def require_session_def admit_turn_def
  new_turn_def resume_begin_def join_chain_def set_phase_def with_turn_def resume_turn_def start_turn_def take_permit_def
  sem_acquire_def turn_durable_def start_running_def resume_lifecycle_def after_retired_def set_stage_def remove_resident_def
  end_lifecycle_def release_reservation_def put_lifecycle_def drop_resident_def after_disposed_def finish_open_def

text \<open>
  \<open>close\<close> refuses a session with pending turns, and yet it leaves one running: on a host without
  journal and catalog, with any limits that admit a session and a turn, a wake that arrives while the
  adapter is being disposed of is admitted and started, and the close then removes the session while that
  turn is at the adapter's \<open>prompt\<close>; an abort of the session finds nothing to abort.
\<close>

lemma close_strands_wake:
  fixes c now retain sessions turns depth ttl
  defines "st \<equiv> mux_run (wake_during_close c now retain)
    (new_mux \<lparr>max_sessions = Suc sessions, max_concurrent_turns = Suc turns, max_queue_depth = depth\<rparr> False False ttl)"
  shows "map_option t_phase (mx_turns st 1) = Some Prompting \<and> map_get (mx_sessions st) (w_session c) = None \<and>
    mux_abort now (w_session c) (w_generation c) st = (Inl (mux_error ''session_not_found'' False), st)"
  unfolding st_def wake_during_close_def
  by (simp add: scheduler_defs mux_abort_def)

text \<open>
  So the session can be opened again, and a second wake gets to its prompt while the first one is still at
  it: two turns of one session identifier run at once.
\<close>

definition reopen_and_wake :: "wake_request \<Rightarrow> int \<Rightarrow> mux_event list" where
  "reopen_and_wake c now =
     [EvOpen (w_session c) (w_generation c) True now, EvOpened (w_session c) False now, EvWake c,
      EvBegun 3 BeganQueued, EvResume now 3 None, EvResume now 3 None, EvResume now 3 None]"

lemma reopened_session_prompts_twice:
  fixes c now retain sessions turns depth ttl
  defines "st \<equiv> mux_run (wake_during_close c now retain @ reopen_and_wake c now)
    (new_mux \<lparr>max_sessions = Suc sessions, max_concurrent_turns = Suc (Suc turns), max_queue_depth = depth\<rparr> False False ttl)"
  shows "map_option (\<lambda>u. (t_phase u, t_direct u, map_option s_session (mx_slots st (t_slot u)))) (mx_turns st 1)
      = Some (Prompting, False, Some (w_session c))
    \<and> map_option (\<lambda>u. (t_phase u, t_direct u, map_option s_session (mx_slots st (t_slot u)))) (mx_turns st 3)
      = Some (Prompting, False, Some (w_session c))"
  unfolding st_def wake_during_close_def reopen_and_wake_def
  by (simp add: scheduler_defs)

section \<open>Opens of several sessions\<close>

definition opens :: "int \<Rightarrow> int \<Rightarrow> string list \<Rightarrow> mux_event list" where
  "opens generation now names =
     List.map (\<lambda>n. EvOpen n generation True now) names @ List.map (\<lambda>n. EvOpened n False now) names"

lemma mux_run_Cons: "mux_run (ev # evs) st = mux_run evs (mux_step ev st)"
  by (simp add: mux_run_def)

lemma mux_run_append: "mux_run (evs @ evs') st = mux_run evs' (mux_run evs st)"
  by (simp add: mux_run_def)

lemma emit_registry [simp]: "mx_sessions (mux_emit i e r st) = mx_sessions st" "mx_lifecycles (mux_emit i e r st) = mx_lifecycles st"
  by (simp_all add: mux_emit_def split: option.splits)

lemma opens_started:
  assumes "distinct names" and "\<forall>n\<in>set names. map_get (mx_lifecycles st) n = None"
    and "mx_ready st" and "\<not> mx_draining st" and "mx_sessions st = []" and "1 \<le> max_sessions (mx_limits st)"
  shows "mx_sessions (mux_run (List.map (\<lambda>n. EvOpen n generation True now) names) st) = [] \<and>
    (\<forall>n. map_get (mx_lifecycles (mux_run (List.map (\<lambda>n. EvOpen n generation True now) names) st)) n =
      (if n \<in> set names then Some \<lparr>lc_slot = 0, lc_kind = Opening generation, lc_stage = Creating\<rparr> else map_get (mx_lifecycles st) n))"
  using assms
proof (induction names arbitrary: st)
  case Nil
  then show ?case
    by (simp add: mux_run_def)
next
  case (Cons n ns)
  define st' where "st' = put_lifecycle n \<lparr>lc_slot = 0, lc_kind = Opening generation, lc_stage = Creating\<rparr> st"
  have step: "mux_step (EvOpen n generation True now) st = st'"
    using Cons.prems by (simp add: open_session_def assert_admitting_def st'_def)
  have st': "mx_ready st' = mx_ready st" "mx_draining st' = mx_draining st" "mx_sessions st' = mx_sessions st" "mx_limits st' = mx_limits st"
    "map_get (mx_lifecycles st') m = (if m = n then Some \<lparr>lc_slot = 0, lc_kind = Opening generation, lc_stage = Creating\<rparr> else map_get (mx_lifecycles st) m)" for m
    by (simp_all add: st'_def put_lifecycle_def)
  have "\<forall>m\<in>set ns. map_get (mx_lifecycles st') m = None"
    using Cons.prems(1,2) by (auto simp: st'(5))
  then show ?case
    using Cons.IH [of st'] Cons.prems unfolding list.map mux_run_Cons step by (auto simp: st')
qed

lemma opens_finished:
  assumes "distinct names" and "\<forall>n\<in>set names. map_get (mx_sessions st) n = None"
    and "\<forall>n\<in>set names. map_get (mx_lifecycles st) n = Some \<lparr>lc_slot = 0, lc_kind = Opening generation, lc_stage = Creating\<rparr>"
  shows "length (mx_sessions (mux_run (List.map (\<lambda>n. EvOpened n False now) names) st)) = length (mx_sessions st) + length names"
  using assms
proof (induction names arbitrary: st)
  case Nil
  then show ?case
    by (simp add: mux_run_def)
next
  case (Cons n ns)
  define st' where "st' = mux_step (EvOpened n False now) st"
  have st': "mx_sessions st' = map_set (mx_sessions st) n (mx_next st)" "mx_lifecycles st' = map_del (mx_lifecycles st) n"
    using Cons.prems by (simp_all add: st'_def finish_open_def Let_def end_lifecycle_def)
  have "length (mx_sessions (mux_run (List.map (\<lambda>n. EvOpened n False now) ns) st')) = length (mx_sessions st') + length ns"
    by (rule Cons.IH) (use Cons.prems in \<open>auto simp: st'\<close>)
  then show ?case
    using Cons.prems(2) unfolding list.map mux_run_Cons st'_def [symmetric] by (simp add: st' map_set_length)
qed

text \<open>
  C40: \<open>maxSessions\<close> does not bound the resident sessions: when the opens of any number of distinct
  sessions pass the capacity check before the first of their adapters is created, all of them become
  resident, whatever the limit is.
\<close>

theorem concurrent_opens_exceed_limit:
  assumes "distinct names" and "1 \<le> max_sessions limits"
  shows "length (mx_sessions (mux_run (opens generation now names) (new_mux limits False False ttl))) = length names"
proof -
  let ?st = "new_mux limits False False ttl"
  have "mx_ready ?st" "\<not> mx_draining ?st" "mx_sessions ?st = []" "mx_lifecycles ?st = []" "mx_limits ?st = limits"
    by (simp_all add: new_mux_def)
  then show ?thesis
    using opens_started [OF assms(1), of ?st generation now]
      opens_finished [OF assms(1), of "mux_run (List.map (\<lambda>n. EvOpen n generation True now) names) ?st" generation now] assms(2)
    by (simp add: opens_def mux_run_append)
qed

theorem concurrent_opens_exceed_limit_witness:
  "length (mx_sessions (mux_run (opens 1 0 [''a'', ''b'', ''c''])
     (new_mux \<lparr>max_sessions = 1, max_concurrent_turns = 1, max_queue_depth = 0\<rparr> False False 0))) = 3"
  using concurrent_opens_exceed_limit [of "[''a'', ''b'', ''c'']" "\<lparr>max_sessions = 1, max_concurrent_turns = 1, max_queue_depth = 0\<rparr>" 1 0 0]
  by simp

end
