(* ===== verification/Spec2Isabelle.thy ===== *)
theory Spec2Isabelle
  imports TicketClaims RunClaims WireClaims WebsocketClaims RpcClaims JournalClaims ManifestClaims CommandClaims ConfigClaims CatalogClaims TurnClaims
begin

text \<open>
  pi-daemon is a daemon that keeps many agent sessions resident in one process and multiplexes clients
  over them.  A client's bytes arrive on a socket as lines or WebSocket frames, are decoded to records
  and validated as commands; a command that wakes a session is journalled, queued behind the turns of
  its session and bounded by a semaphore over all sessions; a mutation of the HTTP API becomes a ticket
  that survives restarts; attached clients follow a session through a hub that numbers and retains its
  events.  This development models these parts of \<open>src/src\<close> and proves what each promises.

  \<^bold>\<open>What is shared.\<close>  \<open>Prelude\<close>: error values, results of operations that may throw, JavaScript maps as
  ordered association lists, stable sorting, safe integers.  \<open>Effects\<close>: statements that change a state
  and may throw, with the lemmas that lift an invariant through them.  \<open>Machine\<close>: the locales of
  event-driven components, interpreted on the hub, the hub manager and the scheduler.  \<open>Bytes\<close>: bytes
  and UTF-16 units as words, with UTF-8.  \<open>Json\<close>: JSON values, field access and serialization, the
  text of numbers and escapes left as functions of a platform record, with what is used of them as
  named hypotheses.  \<open>Demo\<close>: a concrete platform on which properties with hypotheses are applied.

  \<^bold>\<open>Private files\<close> (\<open>path-ownership.ts\<close>, helpers of \<open>durability.ts\<close>): \<open>StateFiles\<close> has the ownership and
  mode checks and the atomic replacement of a file, whose outcome (done, failed, failed after the
  rename) is an input of every call that writes.

  \<^bold>\<open>Mutation tickets\<close> (\<open>tickets.ts\<close>): \<open>Tickets\<close> has the records and validators, \<open>TicketStore\<close> the store's
  state (two in-memory indexes and the directory) and its operations, \<open>TicketRuns\<close> the controller as a
  step function over the events its awaits end with, crashes included.  \<open>Ledger\<close> states the contract of
  a durable store of requests as a locale, interpreted on the ticket store in \<open>TicketCalls\<close>.
  \<open>TicketLaws\<close>, \<open>TicketProps\<close> and \<open>Canonical\<close> carry the store's invariant, histories, idempotence and
  recovery; \<open>TicketRunLaws\<close>, \<open>TicketRunInv\<close>, \<open>TicketRunProps\<close> at-most-once execution, the number of steps of a
  run, and settlement.
  Properties: \<open>TicketClaims\<close>, \<open>RunClaims\<close>.

  \<^bold>\<open>The line protocol\<close> (\<open>protocol.ts\<close>): \<open>Wire\<close> has \<open>encodeBoundedLine\<close> and \<open>NdjsonDecoder\<close>; \<open>WireLaws\<close>
  and \<open>WireText\<close> show that the early size estimate is sound and what bytes a record becomes.
  Properties: \<open>WireClaims\<close>.

  \<^bold>\<open>WebSocket\<close> (\<open>websocket.ts\<close>): \<open>Websocket\<close> has the handshake and the peer, its frame parser as recursion
  over the buffered bytes with their number as measure, its outbound queue against the socket's buffer
  and its timers.  \<open>WebsocketReads\<close>: cutting the stream changes nothing; \<open>WebsocketInv\<close>: accounting,
  order, single close.  Properties: \<open>WebsocketClaims\<close>.

  \<^bold>\<open>RPC attachments\<close> (\<open>rpc-attachments.ts\<close>): \<open>RpcHub\<close> has one hub (connections, controller role, numbered
  and retained events, replay from a cursor), \<open>RpcManager\<close> the hubs of a host and their eviction.
  \<open>RpcHubLaws\<close> and \<open>RpcHubStreams\<close> carry the invariant and the gapless streams.  Properties: \<open>RpcClaims\<close>.

  \<^bold>\<open>Durable wakes\<close> (\<open>durability.ts\<close>): \<open>JournalRecords\<close> has the entries, their state machine and
  validation, \<open>Manifests\<close> the session manifests with the redaction of tool policies, \<open>Journal\<close> the whole
  \<open>FileDurabilityStore\<close>: appends that may be whole, absent or torn, loading, transitions, pruning,
  reconciliation, closing and recovery.  \<open>JournalLaws\<close>: the life cycle of requests as a specification, and that every part of
  every call follows it; \<open>JournalReplay\<close>: the files are the requests; \<open>JournalRecovery\<close>: what recoveries
  offer and report, and what makes them fail; \<open>RequestLives\<close>: one call and one request.
  Properties: \<open>JournalClaims\<close>, \<open>ManifestClaims\<close>.

  \<^bold>\<open>Commands and tool adapters\<close> (\<open>protocol.ts\<close>, \<open>protocol-v2.ts\<close>, \<open>tool-adapter-protocol.ts\<close>): \<open>Commands\<close>,
  \<open>CommandsV2\<close>, \<open>ToolAdapters\<close> and \<open>ToolFrames\<close> have every validator with its error codes, each rebuilding
  the value it accepts.  \<open>CommandLaws\<close>, \<open>FrameLaws\<close>, \<open>PathLaws\<close>: rebuilt fields, re-reading of rebuilt
  frames, and paths that stay below their root.  \<open>CommandClaims\<close> has the properties, among them the
  one that joins the parts: what the parser accepts is what the journal and the manifests can store.

  \<^bold>\<open>Session configurations\<close> (\<open>session-config.ts\<close>): \<open>SessionConfig\<close> has \<open>parseSessionConfiguration\<close> with
  its field readers, the copy of settings with its limits and the environment, and the functions over a
  parsed specification.  \<open>ConfigLaws\<close>: resolving a resolved path changes nothing, and what a second
  reading makes of what the first one gave.  Property: \<open>ConfigClaims\<close>.

  \<^bold>\<open>The session catalog\<close> (\<open>session-catalog.ts\<close>): \<open>SessionCatalog\<close> has the record validators and
  \<open>FileSessionCatalog\<close>: its records and names, its directory, loading with the pass that makes sessions
  dormant, and every operation over references, versions and pages.  A record is the JSON object it is
  stored as.  \<open>CatalogLaws\<close>: the invariant of the two indexes; \<open>CatalogSteps\<close>: an abstract step relation
  that every call of a loaded catalog follows; \<open>CatalogRestart\<close>: the directory mirrors the records, and
  what a process reads from it; \<open>CatalogPaging\<close>: a client that follows the cursors.  \<open>CatalogDemo\<close>: a
  concrete catalog.  Properties: \<open>CatalogClaims\<close>.

  \<^bold>\<open>The turn scheduler\<close> (\<open>multiplexer.ts\<close>): \<open>Turns\<close> has the semaphore, the admission of a wake, the chain of
  turns of a session and every await of \<open>#runWake\<close> as a phase; \<open>Interrupts\<close> opens, aborts, controls,
  prompts of attached controllers, leases, close, idle eviction and drain, and the events of the whole
  machine.  One event is what runs between two awaits; what the adapter, the journal and the catalog
  answer is an input of the event.  \<open>TurnLaws\<close> and \<open>TurnSteps\<close> carry an invariant in framed parts
  through every step.  Properties: \<open>TurnClaims\<close>; its bounds count the turns of a slot, which is one
  opening of a session, and a lemma shows a session identifier whose turns overlap across two of them.

  \<^bold>\<open>How the components meet.\<close>  The scheduler's \<open>BeganQueued\<close>, \<open>BeganCompleted\<close>, \<open>BeganFailed\<close> and
  \<open>BeganUncertain\<close> are the outcomes of the journal's \<open>begin_request\<close>; its \<open>Accepting\<close>, \<open>Completing\<close> and
  \<open>JournalFailing\<close> phases are the awaits of \<open>mark_accepted\<close>, \<open>mark_completed\<close> and \<open>mark_request_failed\<close>,
  which may throw.  The ticket store, the manifests and the catalog write through \<open>StateFiles\<close>, the journal
  through its own append and rewrite.  The catalog validates a specification by parsing it again with
  \<open>parse_session_configuration\<close>; \<open>ConfigClaims\<close> says which accepted ones it stores.

  \<^bold>\<open>Bounds.\<close>  Integers of the code that stand for sizes and times are unbounded here and the code checks
  them to be safe integers (\<open>safe_int\<close>); bytes are \<open>8 word\<close>, code units \<open>16 word\<close>, the frame lengths of
  WebSocket are read from fixed-width words.  No definition of the model uses fuel: loops are structural
  recursion over the work list, or recursion on the remaining bytes with a termination proof.  Only the client
  of \<open>CatalogPaging\<close> counts its calls, and one more than there are sessions is proved enough.

  \<^bold>\<open>Not modelled.\<close>  Human-readable messages, \<open>details\<close> objects, metrics and logs, which no code reads
  back.  The Pi SDK, the operating system and the network, which are inputs.  Of \<open>multiplexer.ts\<close>: the
  recovery of sessions, the catalog's records, policy normalization, renaming, snapshots and disposal.
  Of \<open>rpc-attachments.ts\<close>: the hydration of a session before an attach.  Of \<open>session-catalog.ts\<close>:
  \<open>catalogRecordToSessionResource\<close>, which copies fields.  The ownership of sessions, the blob store, the
  schedules, the dashboard and the command line are not modelled.
\<close>

end
